(* ===== verification/Rust_Prelude.thy ===== *)
theory Rust_Prelude
  imports Main "HOL-Library.Signed_Division" "HOL-Library.Monad_Syntax"
begin

text \<open>
  Shared vocabulary of the development: the fixed-width integers of the Rust sources, panics,
  and the generic facts the component theories use.

  Integers.  A signed or unsigned machine integer is an \<open>int\<close> together with a width, and every
  operation of the sources that can leave the range of its type is written out: the plain operators
  wrap around (the images are built with \<^verbatim>\<open>cargo build --release\<close>, so overflow checks are off),
  \<^verbatim>\<open>saturating_*\<close> is \<open>sat_s\<close> / \<open>sat_u\<close>, an \<^verbatim>\<open>as\<close> cast is \<open>wrap_s\<close> / \<open>wrap_u\<close>, and division
  truncates towards zero (\<open>sdiv\<close> of the library).

  Panics.  A computation that may panic returns an \<open>option\<close>, with \<open>None\<close> the panic; a Rust
  \<^verbatim>\<open>Result\<close> is a sum with \<open>Inl\<close> the error.  So an operation of type \<open>('e + 'a) option\<close>
  may panic, return \<^verbatim>\<open>Err\<close> or return \<^verbatim>\<open>Ok\<close>.
\<close>

named_theorems rust_range \<open>machine-integer results stay in the range of their type\<close>
named_theorems rust_exact \<open>in-range values are unchanged by wrapping and saturation\<close>
named_theorems panic_free \<open>conditions under which an operation does not panic\<close>

type_synonym i32 = int
type_synonym i64 = int
type_synonym i128 = int
type_synonym u8 = int
type_synonym u32 = int
type_synonym u64 = int
type_synonym 'a exec = "'a option"
type_synonym duration = int

text \<open>A \<^verbatim>\<open>Duration\<close> is its number of nanoseconds.\<close>

definition from_secs :: "int \<Rightarrow> duration" where
  "from_secs s = s * 1000000000"

section \<open>Ranges, wrap-around and saturation\<close>

definition in_s :: "nat \<Rightarrow> int \<Rightarrow> bool" where
  "in_s w x \<longleftrightarrow> - (2 ^ (w - 1)) \<le> x \<and> x < 2 ^ (w - 1)"

definition in_u :: "nat \<Rightarrow> int \<Rightarrow> bool" where
  "in_u w x \<longleftrightarrow> 0 \<le> x \<and> x < 2 ^ w"

definition wrap_s :: "nat \<Rightarrow> int \<Rightarrow> int" where
  "wrap_s w x = (x + 2 ^ (w - 1)) mod 2 ^ w - 2 ^ (w - 1)"

definition wrap_u :: "nat \<Rightarrow> int \<Rightarrow> int" where
  "wrap_u w x = x mod 2 ^ w"

definition sat_s :: "nat \<Rightarrow> int \<Rightarrow> int" where
  "sat_s w x = max (- (2 ^ (w - 1))) (min (2 ^ (w - 1) - 1) x)"

definition sat_u :: "nat \<Rightarrow> int \<Rightarrow> int" where
  "sat_u w x = max 0 (min (2 ^ w - 1) x)"

abbreviation in_i32 :: "int \<Rightarrow> bool" where "in_i32 \<equiv> in_s 32"
abbreviation in_i64 :: "int \<Rightarrow> bool" where "in_i64 \<equiv> in_s 64"
abbreviation in_u32 :: "int \<Rightarrow> bool" where "in_u32 \<equiv> in_u 32"
abbreviation i32_MIN :: int where "i32_MIN \<equiv> - 2147483648"
abbreviation i32_MAX :: int where "i32_MAX \<equiv> 2147483647"
abbreviation i64_MAX :: int where "i64_MAX \<equiv> 9223372036854775807"
abbreviation u32_MAX :: int where "u32_MAX \<equiv> 4294967295"
abbreviation i32_add :: "int \<Rightarrow> int \<Rightarrow> int" where "i32_add a b \<equiv> wrap_s 32 (a + b)"
abbreviation i32_sub :: "int \<Rightarrow> int \<Rightarrow> int" where "i32_sub a b \<equiv> wrap_s 32 (a - b)"
abbreviation i32_mul :: "int \<Rightarrow> int \<Rightarrow> int" where "i32_mul a b \<equiv> wrap_s 32 (a * b)"

lemma in_i32_iff: "in_i32 x \<longleftrightarrow> i32_MIN \<le> x \<and> x \<le> i32_MAX"
  by (auto simp: in_s_def)

lemma in_i64_iff: "in_i64 x \<longleftrightarrow> - 9223372036854775808 \<le> x \<and> x \<le> i64_MAX"
  by (auto simp: in_s_def)

lemma in_u32_iff: "in_u32 x \<longleftrightarrow> 0 \<le> x \<and> x \<le> u32_MAX"
  by (auto simp: in_u_def)

lemma pow_half: "0 < w \<Longrightarrow> 2 ^ w = 2 * (2 ^ (w - 1) :: int)"
  by (cases w) simp_all

lemma wrap_s_in_s: "0 < w \<Longrightarrow> in_s w (wrap_s w x)"
proof -
  assume w: "0 < w"
  have "0 \<le> (x + 2 ^ (w - 1)) mod 2 ^ w" and "(x + 2 ^ (w - 1)) mod 2 ^ w < (2 ^ w :: int)"
    by simp_all
  then show ?thesis unfolding wrap_s_def in_s_def using pow_half [OF w] by linarith
qed

lemma wrap_i32_in_i32 [rust_range, simp]: "in_i32 (wrap_s 32 x)"
  by (rule wrap_s_in_s) simp

lemma wrap_s_id: "0 < w \<Longrightarrow> in_s w x \<Longrightarrow> wrap_s w x = x"
  unfolding wrap_s_def in_s_def by (simp add: pow_half)

lemma wrap_i32_id [rust_exact]: "in_i32 x \<Longrightarrow> wrap_s 32 x = x"
  by (rule wrap_s_id) simp_all

lemma sat_s_in_s: "in_s w (sat_s w x)"
  unfolding sat_s_def in_s_def by (auto simp: max_def min_def)

lemma sat_i32_in_i32 [rust_range, simp]: "in_i32 (sat_s 32 x)"
  by (rule sat_s_in_s)

lemma sat_s_id [rust_exact]: "in_s w x \<Longrightarrow> sat_s w x = x"
  unfolding sat_s_def in_s_def by auto

lemma sat_u_in_u [rust_range, simp]: "in_u w (sat_u w x)"
  unfolding sat_u_def in_u_def by auto

lemma sat_u_id [rust_exact]: "in_u w x \<Longrightarrow> sat_u w x = x"
  unfolding sat_u_def in_u_def by auto

lemma sat_i32_eq: "sat_s 32 x = max i32_MIN (min i32_MAX x)"
  by (simp add: sat_s_def)

lemma sat_i64_eq: "sat_s 64 x = max (- 9223372036854775808) (min i64_MAX x)"
  by (simp add: sat_s_def)

lemma wrap_s_add_left [simp]: "wrap_s w (wrap_s w x + y) = wrap_s w (x + y)"
  unfolding wrap_s_def by (simp add: algebra_simps mod_simps)

lemma wrap_s_add_right [simp]: "wrap_s w (x + wrap_s w y) = wrap_s w (x + y)"
  unfolding wrap_s_def by (simp add: algebra_simps mod_simps)

text \<open>Wrap-around addition is associative and commutative, so a sum of modifiers does not depend on
  the order in which they are added.\<close>

definition i32_sum :: "int list \<Rightarrow> int" where
  "i32_sum xs = foldl (\<lambda>a b. i32_add a b) 0 xs"

lemma foldl_i32_add: "foldl (\<lambda>a b. i32_add a b) (wrap_s 32 z) xs = wrap_s 32 (z + sum_list xs)"
  by (induction xs arbitrary: z) (simp_all add: add.assoc)

lemma i32_sum_eq: "i32_sum xs = wrap_s 32 (sum_list xs)"
  using foldl_i32_add [of 0 xs] by (simp add: i32_sum_def wrap_i32_id in_i32_iff)

section \<open>Clamping, minima and panics\<close>

text \<open>\<^verbatim>\<open>Ord::clamp\<close> panics when its lower bound exceeds its upper bound.\<close>

definition clamp :: "int \<Rightarrow> int \<Rightarrow> int \<Rightarrow> int exec" where
  "clamp x lo hi = (if lo \<le> hi then Some (max lo (min hi x)) else None)"

lemma clamp_Some [panic_free]: "lo \<le> hi \<Longrightarrow> clamp x lo hi = Some (max lo (min hi x))"
  by (simp add: clamp_def)

lemma clamp_SomeD: "clamp x lo hi = Some y \<Longrightarrow> lo \<le> y \<and> y \<le> hi \<and> lo \<le> hi"
  by (auto simp: clamp_def split: if_splits)

lemma clamp_idem: "clamp x lo hi = Some y \<Longrightarrow> clamp y lo hi = Some y"
  by (auto simp: clamp_def split: if_splits)

lemma clamp_None_iff: "clamp x lo hi = None \<longleftrightarrow> hi < lo"
  by (auto simp: clamp_def)

lemma clamp_eq_iff: "clamp x lo hi = Some x \<longleftrightarrow> lo \<le> x \<and> x \<le> hi"
  by (auto simp: clamp_def)

lemma clamp_in_i32: "clamp x lo hi = Some y \<Longrightarrow> in_i32 lo \<Longrightarrow> in_i32 hi \<Longrightarrow> in_i32 y"
  by (auto simp: in_i32_iff dest!: clamp_SomeD)

text \<open>\<^verbatim>\<open>Result::ok\<close> and the usual sum helpers.\<close>

fun ok :: "'e + 'a \<Rightarrow> 'a option" where
  "ok (Inl e) = None"
| "ok (Inr a) = Some a"

lemma ok_Some_iff [simp]: "ok r = Some a \<longleftrightarrow> r = Inr a"
  by (cases r) auto

section \<open>Truncating division\<close>

lemma sdiv_nonneg: "0 \<le> a \<Longrightarrow> 0 < b \<Longrightarrow> a sdiv b = (a div b :: int)"
  by (cases "a = 0") (simp_all add: signed_divide_int_def)

lemma int_div_le_self: "0 \<le> a \<Longrightarrow> 0 < b \<Longrightarrow> a div b \<le> (a :: int)"
  using zdiv_mono2 [of a 1 b] by simp

lemma sdiv_bounds:
  fixes a b :: int
  assumes "0 < b"
  shows "- \<bar>a\<bar> \<le> a sdiv b" and "a sdiv b \<le> \<bar>a\<bar>"
proof -
  have q: "0 \<le> \<bar>a\<bar> div b" and q2: "\<bar>a\<bar> div b \<le> \<bar>a\<bar>"
    using assms by (simp_all add: pos_imp_zdiv_nonneg_iff int_div_le_self)
  have eq: "a sdiv b = sgn a * (\<bar>a\<bar> div b)"
    using assms by (simp add: signed_divide_int_def sgn_mult)
  show "- \<bar>a\<bar> \<le> a sdiv b" and "a sdiv b \<le> \<bar>a\<bar>"
    unfolding eq using q q2 by (cases a "0 :: int" rule: linorder_cases; simp)+
qed

lemma sdiv_in_i32 [rust_range]: "in_i32 a \<Longrightarrow> 2 \<le> b \<Longrightarrow> in_i32 (a sdiv b)"
proof -
  assume a: "in_i32 a" and b: "2 \<le> b"
  have "a = i32_MIN \<Longrightarrow> in_i32 (a sdiv b)"
  proof -
    assume "a = i32_MIN"
    then have "a sdiv b = - (2147483648 div b)"
      using b by (simp add: signed_divide_int_def sgn_mult)
    moreover have "0 \<le> 2147483648 div b" "2147483648 div b \<le> (2147483648 :: int)"
      using b by (simp_all add: pos_imp_zdiv_nonneg_iff int_div_le_self)
    ultimately show ?thesis by (simp add: in_i32_iff)
  qed
  moreover have "a \<noteq> i32_MIN \<Longrightarrow> in_i32 (a sdiv b)"
    using a b sdiv_bounds [of b a] unfolding in_i32_iff by linarith
  ultimately show ?thesis by blast
qed

end
