(* ===== verification/Ordered_Map.thy ===== *)
theory Ordered_Map
  imports Rust_Prelude
begin

text \<open>
  The standard library's \<^verbatim>\<open>BTreeMap\<close> and \<^verbatim>\<open>BTreeSet\<close>, as far as the sources use them: a map is its
  list of entries in strictly increasing key order, which is the order \<^verbatim>\<open>iter\<close>, \<^verbatim>\<open>keys\<close> and
  \<^verbatim>\<open>values\<close> visit; a set is its sorted list of elements.

  The locale \<open>ordered_map\<close> is the interface the components rely on.  Its laws are discharged here for
  the sorted-list representation; the modifier ledger, the level table and the stat snapshot use
  the facts of that interpretation.
\<close>

section \<open>Maps\<close>

type_synonym ('k, 'v) btree_map = "('k \<times> 'v) list"

fun bt_insert :: "'k::linorder \<Rightarrow> 'v \<Rightarrow> ('k, 'v) btree_map \<Rightarrow> ('k, 'v) btree_map" where
  "bt_insert k v [] = [(k, v)]"
| "bt_insert k v (e # m) =
     (if fst e < k then e # bt_insert k v m
      else if fst e = k then (k, v) # m
      else (k, v) # e # m)"

definition bt_remove :: "'k::linorder \<Rightarrow> ('k, 'v) btree_map \<Rightarrow> ('k, 'v) btree_map" where
  "bt_remove k m = filter (\<lambda>e. fst e \<noteq> k) m"

definition bt_get :: "('k, 'v) btree_map \<Rightarrow> 'k \<Rightarrow> 'v option" where
  "bt_get m k = map_of m k"

definition bt_wf :: "('k::linorder, 'v) btree_map \<Rightarrow> bool" where
  "bt_wf m \<longleftrightarrow> sorted_wrt (<) (map fst m)"

definition bt_values :: "('k, 'v) btree_map \<Rightarrow> 'v list" where
  "bt_values m = map snd m"

definition bt_keys :: "('k, 'v) btree_map \<Rightarrow> 'k list" where
  "bt_keys m = map fst m"

lemma keys_bt_insert [simp]: "set (map fst (bt_insert k v m)) = insert k (set (map fst m))"
  by (induction m) auto

lemma bt_wf_Nil [simp]: "bt_wf []"
  by (simp add: bt_wf_def)

lemma bt_wf_Cons: "bt_wf (e # m) \<longleftrightarrow> (\<forall>k \<in> set (map fst m). fst e < k) \<and> bt_wf m"
  by (auto simp: bt_wf_def)

lemma bt_wf_insert: "bt_wf m \<Longrightarrow> bt_wf (bt_insert k v m)"
proof (induction m)
  case Nil
  then show ?case by (simp add: bt_wf_Cons)
next
  case (Cons e m)
  from Cons.prems have hd: "\<forall>k \<in> set (map fst m). fst e < k" and tl: "bt_wf m"
    by (auto simp: bt_wf_Cons)
  show ?case
  proof (cases "fst e < k")
    case True
    have "\<forall>k' \<in> set (map fst (bt_insert k v m)). fst e < k'"
      using True hd by (simp only: keys_bt_insert ball_simps)
    moreover have "bt_wf (bt_insert k v m)" using tl by (rule Cons.IH)
    ultimately show ?thesis using True by (simp only: bt_insert.simps if_True bt_wf_Cons)
  next
    case False
    with hd tl show ?thesis by (auto simp: bt_wf_Cons)
  qed
qed

lemma bt_wf_remove: "bt_wf m \<Longrightarrow> bt_wf (bt_remove k m)"
  unfolding bt_wf_def bt_remove_def by (simp add: sorted_wrt_map sorted_wrt_filter)

lemma bt_wf_distinct: "bt_wf m \<Longrightarrow> distinct (map fst m)"
  unfolding bt_wf_def by (simp add: strict_sorted_iff)

lemma bt_get_insert: "bt_wf m \<Longrightarrow> bt_get (bt_insert k v m) k' = (if k' = k then Some v else bt_get m k')"
proof (induction m)
  case Nil
  then show ?case by (simp add: bt_get_def)
next
  case (Cons e m)
  then show ?case by (cases e) (auto simp: bt_get_def bt_wf_Cons)
qed

lemma bt_get_remove: "bt_get (bt_remove k m) k' = (if k' = k then None else bt_get m k')"
  unfolding bt_get_def bt_remove_def by (induction m) auto

lemma bt_get_Nil [simp]: "bt_get [] k = None"
  by (simp add: bt_get_def)

lemma bt_get_Some_iff: "bt_wf m \<Longrightarrow> bt_get m k = Some v \<longleftrightarrow> (k, v) \<in> set m"
  unfolding bt_get_def by (simp add: bt_wf_distinct)

lemma entries_by_get: "distinct (map fst m) \<Longrightarrow> map (\<lambda>k. (k, the (map_of m k))) (map fst m) = m"
  by (auto simp: comp_def intro!: map_idI dest: map_of_is_SomeI)

lemma bt_ext: "bt_wf m \<Longrightarrow> bt_wf m' \<Longrightarrow> (\<And>k. bt_get m k = bt_get m' k) \<Longrightarrow> m = m'"
proof -
  assume wf: "bt_wf m" "bt_wf m'" and eq: "\<And>k. bt_get m k = bt_get m' k"
  have get: "map_of m = map_of m'" using eq by (auto simp: bt_get_def fun_eq_iff)
  have "set (map fst m) = set (map fst m')"
    using arg_cong [OF get, of dom] by (simp add: dom_map_of_conv_image_fst)
  then have keys: "map fst m = map fst m'"
    using wf unfolding bt_wf_def by (intro strict_sorted_equal) simp_all
  have "m = map (\<lambda>k. (k, the (map_of m k))) (map fst m)"
    using wf(1) by (simp only: entries_by_get bt_wf_distinct)
  also have "\<dots> = map (\<lambda>k. (k, the (map_of m' k))) (map fst m')"
    by (simp only: keys get)
  also have "\<dots> = m'"
    using wf(2) by (simp only: entries_by_get bt_wf_distinct)
  finally show "m = m'" .
qed

section \<open>The interface\<close>

locale ordered_map =
  fixes empty :: 'm
    and insert_at :: "'k::linorder \<Rightarrow> 'v \<Rightarrow> 'm \<Rightarrow> 'm"
    and remove_at :: "'k \<Rightarrow> 'm \<Rightarrow> 'm"
    and get_at :: "'m \<Rightarrow> 'k \<Rightarrow> 'v option"
    and wf_map :: "'m \<Rightarrow> bool"
  assumes get_empty: "get_at empty k = None"
    and get_insert: "wf_map m \<Longrightarrow> get_at (insert_at k v m) k' = (if k' = k then Some v else get_at m k')"
    and get_remove: "wf_map m \<Longrightarrow> get_at (remove_at k m) k' = (if k' = k then None else get_at m k')"
    and wf_empty: "wf_map empty"
    and wf_insert: "wf_map m \<Longrightarrow> wf_map (insert_at k v m)"
    and wf_remove: "wf_map m \<Longrightarrow> wf_map (remove_at k m)"
    and map_ext: "wf_map m \<Longrightarrow> wf_map m' \<Longrightarrow> (\<And>k. get_at m k = get_at m' k) \<Longrightarrow> m = m'"
begin

lemma remove_insert: "wf_map m \<Longrightarrow> remove_at k (insert_at k v m) = remove_at k m"
  by (rule map_ext) (simp_all add: get_insert get_remove wf_insert wf_remove)

lemma remove_absent: "wf_map m \<Longrightarrow> get_at m k = None \<Longrightarrow> remove_at k m = m"
  by (rule map_ext) (simp_all add: get_remove wf_remove)

lemma insert_insert: "wf_map m \<Longrightarrow> insert_at k v (insert_at k v' m) = insert_at k v m"
  by (rule map_ext) (simp_all add: get_insert wf_insert)

lemma insert_commute:
  "wf_map m \<Longrightarrow> k \<noteq> k' \<Longrightarrow> insert_at k v (insert_at k' v' m) = insert_at k' v' (insert_at k v m)"
  by (rule map_ext) (simp_all add: get_insert wf_insert)

lemma insert_present: "wf_map m \<Longrightarrow> get_at m k = Some v \<Longrightarrow> insert_at k v m = m"
  by (rule map_ext) (simp_all add: get_insert wf_insert)

end

interpretation bt: ordered_map "[]" bt_insert bt_remove bt_get bt_wf
  by unfold_locales
    (simp_all add: bt_get_insert bt_get_remove bt_wf_insert bt_wf_remove bt_ext)

lemmas bt_wf_intros = bt.wf_insert bt.wf_remove bt.wf_empty

text \<open>Splitting off one entry: the entries of a map with \<open>k\<close> bound to \<open>v\<close> are those of the map without
  \<open>k\<close> with \<open>(k, v)\<close> at its place.\<close>

lemma bt_insert_split:
  "bt_wf m \<Longrightarrow> \<exists>xs ys. bt_remove k m = xs @ ys \<and> bt_insert k v m = xs @ (k, v) # ys"
proof (induction m)
  case Nil
  then show ?case by (simp add: bt_remove_def)
next
  case (Cons e m)
  from Cons.prems have hd: "\<forall>k \<in> set (map fst m). fst e < k" and tl: "bt_wf m"
    by (auto simp: bt_wf_Cons)
  from Cons.IH [OF tl] obtain xs ys where
    IH: "bt_remove k m = xs @ ys" "bt_insert k v m = xs @ (k, v) # ys" by blast
  consider "fst e < k" | "fst e = k" | "k < fst e" by (rule linorder_cases)
  then show ?case
  proof cases
    case 1
    then have "bt_remove k (e # m) = (e # xs) @ ys" "bt_insert k v (e # m) = (e # xs) @ (k, v) # ys"
      using IH by (simp_all add: bt_remove_def)
    then show ?thesis by blast
  next
    case 2
    then have "bt_remove k m = m" using hd by (fastforce simp: bt_remove_def filter_id_conv)
    then have "bt_remove k (e # m) = [] @ m" "bt_insert k v (e # m) = [] @ (k, v) # m"
      using 2 by (simp_all add: bt_remove_def)
    then show ?thesis by blast
  next
    case 3
    then have "bt_remove k (e # m) = e # m"
      using hd by (fastforce simp: bt_remove_def filter_id_conv)
    then have "bt_remove k (e # m) = [] @ e # m" "bt_insert k v (e # m) = [] @ (k, v) # e # m"
      using 3 by auto
    then show ?thesis by blast
  qed
qed

section \<open>Sets\<close>

type_synonym 'a btree_set = "'a list"

definition bs_insert :: "'a::linorder \<Rightarrow> 'a btree_set \<Rightarrow> 'a btree_set" where
  "bs_insert x xs = insort_insert x xs"

definition bs_extend :: "'a::linorder list \<Rightarrow> 'a btree_set \<Rightarrow> 'a btree_set" where
  "bs_extend ys xs = foldl (\<lambda>s x. bs_insert x s) xs ys"

definition bs_wf :: "'a::linorder btree_set \<Rightarrow> bool" where
  "bs_wf xs \<longleftrightarrow> sorted xs \<and> distinct xs"

lemma set_bs_insert [simp]: "set (bs_insert x xs) = insert x (set xs)"
  by (simp add: bs_insert_def set_insort_insert)

lemma bs_wf_Nil [simp]: "bs_wf []"
  by (simp add: bs_wf_def)

lemma bs_wf_insert [simp]: "bs_wf xs \<Longrightarrow> bs_wf (bs_insert x xs)"
  by (simp add: bs_wf_def bs_insert_def sorted_insort_insert distinct_insort_insert)

lemma set_bs_extend [simp]: "set (bs_extend ys xs) = set ys \<union> set xs"
  unfolding bs_extend_def by (induction ys arbitrary: xs) auto

lemma bs_wf_extend [simp]: "bs_wf xs \<Longrightarrow> bs_wf (bs_extend ys xs)"
  unfolding bs_extend_def by (induction ys arbitrary: xs) auto

lemma bs_ext: "bs_wf xs \<Longrightarrow> bs_wf ys \<Longrightarrow> set xs = set ys \<Longrightarrow> xs = ys"
  unfolding bs_wf_def by (simp add: sorted_distinct_set_unique)

end
