(* ===== verification/Stat_Core.thy ===== *)
theory Stat_Core
  imports Ordered_Map
begin

text \<open>
  The stat vocabulary and the generic containers of the stat kernel:
  \<^verbatim>\<open>zohar-domain/src/stat.rs\<close> (the enum \<open>Stat\<close>), \<^verbatim>\<open>zohar-gameplay/src/stats/core\<close> (value store and
  modifier ledger) and \<^verbatim>\<open>stats/game/{stat,store,change_set,contribution,resource,progression}.rs\<close>.
  An \<^verbatim>\<open>EnumMap\<close> is a total function, the ledger's \<^verbatim>\<open>BTreeMap\<close> is a \<open>btree_map\<close>, a change set a
  \<open>btree_set\<close>.
\<close>

section \<open>The enum Stat\<close>

datatype Stat =
    Level | Exp | NextExp | Hp | MaxHp | Sp | MaxSp | Stamina | MaxStamina | Gold | St | Ht | Dx
  | Iq | DefGrade | AttSpeed | AttGrade | MovSpeed | DisplayedDefGrade | CastingSpeed |
  MagicAttGrade | MagicDefGrade | LevelStep | StatPoints | HpRecovery | SpRecovery | ImmuneStun
  | ImmuneSlow | ImmuneFall | PartyTankerBonus | AttGradeBonus | DefGradeBonus |
  MagicAttGradeBonus | MagicDefGradeBonus | PartySkillMasterBonus | Polymorph | Mount |
  PartyHasteBonus | PartyDefenderBonus | StatResetCount | MaxHpPct | MaxSpPct | ArmorDefence |
  MaxHpPrePctBonus | BonusMaxHp | BonusMaxSp | BonusMaxStamina

definition all_stats :: "Stat list" where
  "all_stats =
    [Level, Exp, NextExp, Hp, MaxHp, Sp, MaxSp, Stamina, MaxStamina, Gold, St, Ht, Dx, Iq,
     DefGrade, AttSpeed, AttGrade, MovSpeed, DisplayedDefGrade, CastingSpeed, MagicAttGrade,
     MagicDefGrade, LevelStep, StatPoints, HpRecovery, SpRecovery, ImmuneStun, ImmuneSlow,
     ImmuneFall, PartyTankerBonus, AttGradeBonus, DefGradeBonus, MagicAttGradeBonus,
     MagicDefGradeBonus, PartySkillMasterBonus, Polymorph, Mount, PartyHasteBonus,
     PartyDefenderBonus, StatResetCount, MaxHpPct, MaxSpPct, ArmorDefence, MaxHpPrePctBonus,
     BonusMaxHp, BonusMaxSp, BonusMaxStamina]"

primrec stat_index :: "Stat \<Rightarrow> nat" where
  "stat_index Level = 0"
| "stat_index Exp = 1"
| "stat_index NextExp = 2"
| "stat_index Hp = 3"
| "stat_index MaxHp = 4"
| "stat_index Sp = 5"
| "stat_index MaxSp = 6"
| "stat_index Stamina = 7"
| "stat_index MaxStamina = 8"
| "stat_index Gold = 9"
| "stat_index St = 10"
| "stat_index Ht = 11"
| "stat_index Dx = 12"
| "stat_index Iq = 13"
| "stat_index DefGrade = 14"
| "stat_index AttSpeed = 15"
| "stat_index AttGrade = 16"
| "stat_index MovSpeed = 17"
| "stat_index DisplayedDefGrade = 18"
| "stat_index CastingSpeed = 19"
| "stat_index MagicAttGrade = 20"
| "stat_index MagicDefGrade = 21"
| "stat_index LevelStep = 22"
| "stat_index StatPoints = 23"
| "stat_index HpRecovery = 24"
| "stat_index SpRecovery = 25"
| "stat_index ImmuneStun = 26"
| "stat_index ImmuneSlow = 27"
| "stat_index ImmuneFall = 28"
| "stat_index PartyTankerBonus = 29"
| "stat_index AttGradeBonus = 30"
| "stat_index DefGradeBonus = 31"
| "stat_index MagicAttGradeBonus = 32"
| "stat_index MagicDefGradeBonus = 33"
| "stat_index PartySkillMasterBonus = 34"
| "stat_index Polymorph = 35"
| "stat_index Mount = 36"
| "stat_index PartyHasteBonus = 37"
| "stat_index PartyDefenderBonus = 38"
| "stat_index StatResetCount = 39"
| "stat_index MaxHpPct = 40"
| "stat_index MaxSpPct = 41"
| "stat_index ArmorDefence = 42"
| "stat_index MaxHpPrePctBonus = 43"
| "stat_index BonusMaxHp = 44"
| "stat_index BonusMaxSp = 45"
| "stat_index BonusMaxStamina = 46"

lemma nth_all_stats: "all_stats ! stat_index s = s"
  by (cases s) (simp_all add: all_stats_def)

lemma stat_index_inj [simp]: "stat_index a = stat_index b \<longleftrightarrow> a = b"
  by (metis nth_all_stats)

lemma set_all_stats [simp]: "set all_stats = UNIV"
proof -
  have "s \<in> set all_stats" for s by (cases s) (simp_all add: all_stats_def)
  then show ?thesis by blast
qed

text \<open>The derived \<^verbatim>\<open>Ord\<close> compares declaration positions.\<close>

instantiation Stat :: linorder
begin

definition less_eq_Stat :: "Stat \<Rightarrow> Stat \<Rightarrow> bool" where
  "a \<le> b \<longleftrightarrow> stat_index a \<le> stat_index b"

definition less_Stat :: "Stat \<Rightarrow> Stat \<Rightarrow> bool" where
  "a < b \<longleftrightarrow> stat_index a < stat_index b"

instance
  by standard (auto simp: less_eq_Stat_def less_Stat_def)

end

lemma sorted_all_stats: "sorted_wrt (<) all_stats"
  by (simp add: all_stats_def less_Stat_def)


section \<open>Roles and contribution kinds\<close>

datatype StatRole =
  Persistent | RuntimeResource | Computed | ModifierAccumulator | RuntimeIdentity

datatype StatContributionKind = AdditiveScalar | CappedPercentage | FlagCounter

definition role :: "Stat \<Rightarrow> StatRole" where
  "role s = (case s of
     Level \<Rightarrow> Persistent | Exp \<Rightarrow> Persistent | NextExp \<Rightarrow> Persistent | Gold \<Rightarrow> Persistent
   | St \<Rightarrow> Persistent | Ht \<Rightarrow> Persistent | Dx \<Rightarrow> Persistent | Iq \<Rightarrow> Persistent
   | StatPoints \<Rightarrow> Persistent | StatResetCount \<Rightarrow> Persistent
   | Hp \<Rightarrow> RuntimeResource | Sp \<Rightarrow> RuntimeResource | Stamina \<Rightarrow> RuntimeResource
   | HpRecovery \<Rightarrow> RuntimeResource | SpRecovery \<Rightarrow> RuntimeResource
   | MaxHp \<Rightarrow> Computed | MaxSp \<Rightarrow> Computed | MaxStamina \<Rightarrow> Computed | LevelStep \<Rightarrow> Computed
   | DefGrade \<Rightarrow> Computed | AttSpeed \<Rightarrow> Computed | AttGrade \<Rightarrow> Computed | MovSpeed \<Rightarrow> Computed
   | DisplayedDefGrade \<Rightarrow> Computed | CastingSpeed \<Rightarrow> Computed | MagicAttGrade \<Rightarrow> Computed
   | MagicDefGrade \<Rightarrow> Computed
   | Polymorph \<Rightarrow> RuntimeIdentity | Mount \<Rightarrow> RuntimeIdentity
   | BonusMaxHp \<Rightarrow> ModifierAccumulator | BonusMaxSp \<Rightarrow> ModifierAccumulator
   | BonusMaxStamina \<Rightarrow> ModifierAccumulator | ArmorDefence \<Rightarrow> ModifierAccumulator
   | MaxHpPrePctBonus \<Rightarrow> ModifierAccumulator | ImmuneStun \<Rightarrow> ModifierAccumulator
   | ImmuneSlow \<Rightarrow> ModifierAccumulator | ImmuneFall \<Rightarrow> ModifierAccumulator
   | PartyTankerBonus \<Rightarrow> ModifierAccumulator | AttGradeBonus \<Rightarrow> ModifierAccumulator
   | DefGradeBonus \<Rightarrow> ModifierAccumulator | MagicAttGradeBonus \<Rightarrow> ModifierAccumulator
   | MagicDefGradeBonus \<Rightarrow> ModifierAccumulator | PartySkillMasterBonus \<Rightarrow> ModifierAccumulator
   | PartyHasteBonus \<Rightarrow> ModifierAccumulator | PartyDefenderBonus \<Rightarrow> ModifierAccumulator
   | MaxHpPct \<Rightarrow> ModifierAccumulator | MaxSpPct \<Rightarrow> ModifierAccumulator)"

definition contribution_kind :: "Stat \<Rightarrow> StatContributionKind option" where
  "contribution_kind s =
    (if s \<in> {MaxHpPct, MaxSpPct} then Some CappedPercentage
     else if s \<in> {ImmuneStun, ImmuneSlow, ImmuneFall} then Some FlagCounter
     else if s \<in> {St, Ht, Dx, Iq, DefGrade, AttSpeed, AttGrade, MovSpeed, CastingSpeed,
                  MagicAttGrade, MagicDefGrade, BonusMaxHp, BonusMaxSp, BonusMaxStamina,
                  ArmorDefence, MaxHpPrePctBonus, PartyTankerBonus, AttGradeBonus, DefGradeBonus,
                  MagicAttGradeBonus, MagicDefGradeBonus, PartySkillMasterBonus, PartyHasteBonus,
                  PartyDefenderBonus}
     then Some AdditiveScalar else None)"

definition accepts_source_contribution :: "Stat \<Rightarrow> bool" where
  "accepts_source_contribution s \<longleftrightarrow> contribution_kind s \<noteq> None"

section \<open>Value stores\<close>

record 'k EnumIntegerValueStore =
  evs_values :: "'k \<Rightarrow> i32"

definition evs_new :: "'k EnumIntegerValueStore" where
  "evs_new = \<lparr>evs_values = (\<lambda>_. 0)\<rparr>"

definition evs_clear :: "'k EnumIntegerValueStore \<Rightarrow> 'k EnumIntegerValueStore" where
  "evs_clear st = st\<lparr>evs_values := (\<lambda>_. 0)\<rparr>"

definition evs_get :: "'k EnumIntegerValueStore \<Rightarrow> 'k \<Rightarrow> i32" where
  "evs_get st k = evs_values st k"

definition evs_set :: "'k EnumIntegerValueStore \<Rightarrow> 'k \<Rightarrow> i32 \<Rightarrow> 'k EnumIntegerValueStore" where
  "evs_set st k v = st\<lparr>evs_values := (evs_values st)(k := v)\<rparr>"

definition evs_add :: "'k EnumIntegerValueStore \<Rightarrow> 'k \<Rightarrow> i32 \<Rightarrow> 'k EnumIntegerValueStore" where
  "evs_add st k d = st\<lparr>evs_values := (evs_values st)(k := i32_add (evs_values st k) d)\<rparr>"

definition evs_iter :: "'k list \<Rightarrow> 'k EnumIntegerValueStore \<Rightarrow> ('k \<times> i32) list" where
  "evs_iter keys st = map (\<lambda>k. (k, evs_values st k)) (filter (\<lambda>k. evs_values st k \<noteq> 0) keys)"

record PointValueStore =
  points :: "Stat EnumIntegerValueStore"

definition pvs_new :: PointValueStore where
  "pvs_new = \<lparr>points = evs_new\<rparr>"

definition pvs_clear :: "PointValueStore \<Rightarrow> PointValueStore" where
  "pvs_clear st = st\<lparr>points := evs_clear (points st)\<rparr>"

definition pvs_get :: "PointValueStore \<Rightarrow> Stat \<Rightarrow> i32" where
  "pvs_get st s = evs_get (points st) s"

definition pvs_set :: "PointValueStore \<Rightarrow> Stat \<Rightarrow> i32 \<Rightarrow> PointValueStore" where
  "pvs_set st s v = st\<lparr>points := evs_set (points st) s v\<rparr>"

definition pvs_add :: "PointValueStore \<Rightarrow> Stat \<Rightarrow> i32 \<Rightarrow> PointValueStore" where
  "pvs_add st s d = st\<lparr>points := evs_add (points st) s d\<rparr>"

definition pvs_iter :: "PointValueStore \<Rightarrow> (Stat \<times> i32) list" where
  "pvs_iter st = evs_iter all_stats (points st)"

lemma pvs_get_new [simp]: "pvs_get pvs_new s = 0"
  by (simp add: pvs_get_def pvs_new_def evs_get_def evs_new_def)

lemma pvs_get_clear [simp]: "pvs_get (pvs_clear st) s = 0"
  by (simp add: pvs_get_def pvs_clear_def evs_get_def evs_clear_def)

lemma pvs_get_set: "pvs_get (pvs_set st s v) t = (if t = s then v else pvs_get st t)"
  by (simp add: pvs_get_def pvs_set_def evs_get_def evs_set_def)

lemma pvs_get_add: "pvs_get (pvs_add st s d) t = (if t = s then i32_add (pvs_get st t) d else pvs_get st t)"
  by (simp add: pvs_get_def pvs_add_def evs_get_def evs_add_def)

lemma pvs_ext: "(\<And>s. pvs_get a s = pvs_get b s) \<Longrightarrow> a = b"
  for a b :: PointValueStore
  unfolding pvs_get_def evs_get_def
  by (cases a; cases b) (auto simp: EnumIntegerValueStore.equality fun_eq_iff)

lemma pvs_iter_keys [simp]: "s \<in> fst ` set (pvs_iter st) \<longleftrightarrow> pvs_get st s \<noteq> 0"
  by (force simp: pvs_iter_def evs_iter_def pvs_get_def evs_get_def)

text \<open>A store whose every value fits the field type \<^verbatim>\<open>i32\<close>.\<close>

definition store_i32 :: "PointValueStore \<Rightarrow> bool" where
  "store_i32 st \<longleftrightarrow> (\<forall>s. in_i32 (pvs_get st s))"

lemma store_i32_new [simp]: "store_i32 pvs_new"
  by (simp add: store_i32_def in_i32_iff)

lemma store_i32_set [rust_range]: "store_i32 st \<Longrightarrow> in_i32 v \<Longrightarrow> store_i32 (pvs_set st s v)"
  by (simp add: store_i32_def pvs_get_set)

lemma store_i32_add [rust_range]: "store_i32 st \<Longrightarrow> store_i32 (pvs_add st s d)"
  by (simp add: store_i32_def pvs_get_add)

lemma store_i32D: "store_i32 st \<Longrightarrow> in_i32 (pvs_get st s)"
  by (simp add: store_i32_def)

section \<open>The modifier ledger\<close>

record ('src, 'stat, 'det) GenericModifierInstance =
  mi_source :: 'src
  mi_stat :: 'stat
  mi_amount :: i32
  mi_detail :: 'det

record ('src, 'stat, 'det) GenericModifierLedger =
  by_source :: "('src, ('src, 'stat, 'det) GenericModifierInstance list) btree_map"

definition ledger_default :: "('src, 'stat, 'det) GenericModifierLedger" where
  "ledger_default = \<lparr>by_source = []\<rparr>"

definition ledger_is_empty :: "('src, 'stat, 'det) GenericModifierLedger \<Rightarrow> bool" where
  "ledger_is_empty l \<longleftrightarrow> by_source l = []"

definition replace_source ::
  "('src::linorder, 'stat, 'det) GenericModifierLedger \<Rightarrow> 'src \<Rightarrow>
   ('src, 'stat, 'det) GenericModifierInstance list \<Rightarrow> ('src, 'stat, 'det) GenericModifierLedger" where
  "replace_source l src ms =
    (if ms = [] then l\<lparr>by_source := bt_remove src (by_source l)\<rparr>
     else l\<lparr>by_source := bt_insert src ms (by_source l)\<rparr>)"

definition remove_source ::
  "('src::linorder, 'stat, 'det) GenericModifierLedger \<Rightarrow> 'src \<Rightarrow>
   ('src, 'stat, 'det) GenericModifierInstance list option \<times> ('src, 'stat, 'det) GenericModifierLedger" where
  "remove_source l src = (bt_get (by_source l) src, l\<lparr>by_source := bt_remove src (by_source l)\<rparr>)"

definition ledger_iter ::
  "('src, 'stat, 'det) GenericModifierLedger \<Rightarrow> ('src, 'stat, 'det) GenericModifierInstance list" where
  "ledger_iter l = concat (bt_values (by_source l))"

definition total_for_stat :: "('src, 'stat, 'det) GenericModifierLedger \<Rightarrow> 'stat \<Rightarrow> i32" where
  "total_for_stat l s = i32_sum (map mi_amount (filter (\<lambda>m. mi_stat m = s) (ledger_iter l)))"

definition ledger_wf :: "('src::linorder, 'stat, 'det) GenericModifierLedger \<Rightarrow> bool" where
  "ledger_wf l \<longleftrightarrow> bt_wf (by_source l) \<and> (\<forall>e \<in> set (by_source l). snd e \<noteq> [])"

definition ledger_of_source ::
  "('src::linorder, 'stat, 'det) GenericModifierLedger \<Rightarrow> 'src \<Rightarrow>
   ('src, 'stat, 'det) GenericModifierInstance list" where
  "ledger_of_source l src = (case bt_get (by_source l) src of None \<Rightarrow> [] | Some ms \<Rightarrow> ms)"

lemma ledger_wf_default [simp]: "ledger_wf ledger_default"
  by (simp add: ledger_wf_def ledger_default_def)

lemma ledger_iter_default [simp]: "ledger_iter ledger_default = []"
  by (simp add: ledger_iter_def ledger_default_def bt_values_def)

lemma set_bt_remove: "set (bt_remove k m) \<subseteq> set m"
  by (auto simp: bt_remove_def)

lemma set_bt_insert: "set (bt_insert k v m) \<subseteq> insert (k, v) (set m)"
  by (induction m) auto

lemma ledger_wf_replace [simp]: "ledger_wf l \<Longrightarrow> ledger_wf (replace_source l src ms)"
  unfolding ledger_wf_def replace_source_def
  using set_bt_remove [of src "by_source l"] set_bt_insert [of src ms "by_source l"]
  by (auto simp: bt_wf_intros)

lemma ledger_wf_remove [simp]: "ledger_wf l \<Longrightarrow> ledger_wf (snd (remove_source l src))"
  unfolding ledger_wf_def remove_source_def
  using set_bt_remove [of src "by_source l"] by (auto simp: bt_wf_intros)

lemma ledger_of_source_replace:
  "ledger_wf l \<Longrightarrow>
   ledger_of_source (replace_source l src ms) src' = (if src' = src then ms else ledger_of_source l src')"
  unfolding ledger_of_source_def replace_source_def ledger_wf_def
  by (simp add: bt.get_insert bt.get_remove)

lemma ledger_of_source_remove:
  "ledger_wf l \<Longrightarrow>
   ledger_of_source (snd (remove_source l src)) src' = (if src' = src then [] else ledger_of_source l src')"
  unfolding ledger_of_source_def remove_source_def ledger_wf_def
  by (simp add: bt.get_remove)

lemma replace_Nil: "replace_source l src [] = snd (remove_source l src)"
  by (simp add: replace_source_def remove_source_def)

text \<open>Replacing and then removing the bundle of a source leaves the ledger as removing it does.\<close>

lemma remove_replace: "ledger_wf l \<Longrightarrow> snd (remove_source (replace_source l src ms) src) = snd (remove_source l src)"
  unfolding remove_source_def replace_source_def ledger_wf_def
  by (auto simp: bt.remove_insert bt.remove_absent bt.get_remove bt.wf_remove)

lemma remove_absent_source:
  "ledger_wf l \<Longrightarrow> ledger_of_source l src = [] \<Longrightarrow> snd (remove_source l src) = l"
proof -
  assume wf: "ledger_wf l" and none: "ledger_of_source l src = []"
  have "bt_get (by_source l) src = None"
  proof (rule ccontr)
    assume "bt_get (by_source l) src \<noteq> None"
    then obtain ms where ms: "bt_get (by_source l) src = Some ms" by blast
    then have "(src, ms) \<in> set (by_source l)"
      using wf by (simp add: ledger_wf_def bt_get_Some_iff)
    moreover have "ms = []" using none ms by (simp add: ledger_of_source_def)
    ultimately show False using wf by (auto simp: ledger_wf_def)
  qed
  then show ?thesis
    using wf by (simp add: remove_source_def ledger_wf_def bt.remove_absent)
qed

text \<open>The total of a stat is the sum over the sources: what a bundle adds is what its own
  modifiers for that stat add.\<close>

definition bundle_total :: "('src, 'stat, 'det) GenericModifierInstance list \<Rightarrow> 'stat \<Rightarrow> int" where
  "bundle_total ms s = sum_list (map mi_amount (filter (\<lambda>m. mi_stat m = s) ms))"

lemma bundle_total_append [simp]: "bundle_total (a @ b) s = bundle_total a s + bundle_total b s"
  by (simp add: bundle_total_def)

lemma bundle_total_Nil [simp]: "bundle_total [] s = 0"
  by (simp add: bundle_total_def)

lemma ledger_total_replace:
  assumes "ledger_wf l"
  shows "bundle_total (ledger_iter (replace_source l src ms)) s =
    bundle_total (ledger_iter (snd (remove_source l src))) s + bundle_total ms s"
proof (cases "ms = []")
  case True
  then show ?thesis by (simp add: replace_Nil)
next
  case False
  from assms obtain xs ys where
    "bt_remove src (by_source l) = xs @ ys" "bt_insert src ms (by_source l) = xs @ (src, ms) # ys"
    using bt_insert_split [of "by_source l" src ms] by (auto simp: ledger_wf_def)
  then show ?thesis
    using False by (simp add: replace_source_def remove_source_def ledger_iter_def bt_values_def)
qed

lemma total_for_stat_eq: "total_for_stat l s = wrap_s 32 (bundle_total (ledger_iter l) s)"
  by (simp add: total_for_stat_def i32_sum_eq bundle_total_def)

section \<open>Change sets and compiled contributions\<close>

record 's ChangeSet =
  cs_inner :: "'s btree_set"

type_synonym StatChangeSet = "Stat ChangeSet"

definition cs_default :: "'s ChangeSet" where
  "cs_default = \<lparr>cs_inner = []\<rparr>"

definition cs_contains :: "'s ChangeSet \<Rightarrow> 's \<Rightarrow> bool" where
  "cs_contains c s \<longleftrightarrow> s \<in> set (cs_inner c)"

definition cs_insert :: "'s::linorder \<Rightarrow> 's ChangeSet \<Rightarrow> 's ChangeSet" where
  "cs_insert s c = c\<lparr>cs_inner := bs_insert s (cs_inner c)\<rparr>"

definition cs_extend :: "'s::linorder list \<Rightarrow> 's ChangeSet \<Rightarrow> 's ChangeSet" where
  "cs_extend ss c = c\<lparr>cs_inner := bs_extend ss (cs_inner c)\<rparr>"

definition cs_iter :: "'s ChangeSet \<Rightarrow> 's list" where
  "cs_iter c = cs_inner c"

definition cs_is_empty :: "'s ChangeSet \<Rightarrow> bool" where
  "cs_is_empty c \<longleftrightarrow> cs_inner c = []"

lemma set_cs_insert [simp]: "set (cs_iter (cs_insert s c)) = insert s (set (cs_iter c))"
  by (simp add: cs_iter_def cs_insert_def)

lemma set_cs_default [simp]: "cs_iter cs_default = []"
  by (simp add: cs_iter_def cs_default_def)

lemma cs_contains_iff: "cs_contains c s \<longleftrightarrow> s \<in> set (cs_iter c)"
  by (simp add: cs_contains_def cs_iter_def)

lemma set_cs_insert_all [simp]:
  "set (cs_iter (foldl (\<lambda>c s. cs_insert s c) c ss)) = set ss \<union> set (cs_iter c)"
  by (induction ss arbitrary: c) auto

lemma set_cs_insert_if [simp]:
  "set (cs_iter (foldl (\<lambda>c s. if P s then cs_insert s c else c) c ss)) =
   {s \<in> set ss. P s} \<union> set (cs_iter c)"
  by (induction ss arbitrary: c) auto

record 'det CompiledModifier =
  cm_stat :: Stat
  cm_amount :: i32
  cm_detail :: 'det

definition cm_plain :: "Stat \<Rightarrow> i32 \<Rightarrow> unit CompiledModifier" where
  "cm_plain s a = \<lparr>cm_stat = s, cm_amount = a, cm_detail = ()\<rparr>"

record 'det CompiledStatContribution =
  modifiers_of :: "'det CompiledModifier list"

definition csc_new :: "'det CompiledStatContribution" where
  "csc_new = \<lparr>modifiers_of = []\<rparr>"

definition csc_push_modifier ::
  "'det CompiledStatContribution \<Rightarrow> 'det CompiledModifier \<Rightarrow> 'det CompiledStatContribution" where
  "csc_push_modifier c m = c\<lparr>modifiers_of := modifiers_of c @ [m]\<rparr>"

section \<open>Resource applications\<close>

record ResourceApplication =
  ra_stat :: Stat
  ra_delta :: i32
  ra_min_value :: i32
  ra_clamp_to_cap :: bool

definition ra_new :: "Stat \<Rightarrow> i32 \<Rightarrow> ResourceApplication" where
  "ra_new s d = \<lparr>ra_stat = s, ra_delta = d, ra_min_value = 0, ra_clamp_to_cap = True\<rparr>"

definition with_min_value :: "ResourceApplication \<Rightarrow> i32 \<Rightarrow> ResourceApplication" where
  "with_min_value a m = a\<lparr>ra_min_value := m\<rparr>"

definition with_unclamped_cap :: "ResourceApplication \<Rightarrow> ResourceApplication" where
  "with_unclamped_cap a = a\<lparr>ra_clamp_to_cap := False\<rparr>"

definition ra_restore :: "Stat \<Rightarrow> i32 \<Rightarrow> ResourceApplication" where
  "ra_restore s amount = ra_new s amount"

definition ra_spend :: "Stat \<Rightarrow> i32 \<Rightarrow> ResourceApplication" where
  "ra_spend s amount = ra_new s (wrap_s 32 (- amount))"

definition ra_damage :: "i32 \<Rightarrow> ResourceApplication" where
  "ra_damage amount = with_min_value (ra_spend Hp amount) i32_MIN"

definition nonlethal_damage :: "i32 \<Rightarrow> i32 \<Rightarrow> ResourceApplication" where
  "nonlethal_damage amount min_remaining_hp = with_min_value (ra_damage amount) min_remaining_hp"

definition poison :: "i32 \<Rightarrow> ResourceApplication" where
  "poison amount = nonlethal_damage amount 1"

record ResourceApplicationResult =
  rar_stat :: Stat
  rar_previous :: i32
  rar_current :: i32
  rar_applied_delta :: i32
  rar_was_clamped :: bool

definition rar_is_noop :: "ResourceApplicationResult \<Rightarrow> bool" where
  "rar_is_noop r \<longleftrightarrow> rar_applied_delta r = 0"

record QueuedRecovery =
  qr_stat :: Stat
  qr_previous_pending :: i32
  qr_current_pending :: i32
  qr_queued_amount :: i32

section \<open>Progression within a level\<close>

definition LEVEL_STEPS_PER_LEVEL :: i32 where
  "LEVEL_STEPS_PER_LEVEL = 4"

definition STAT_POINT_STEPS_PER_LEVEL :: i32 where
  "STAT_POINT_STEPS_PER_LEVEL = LEVEL_STEPS_PER_LEVEL - 1"

record PlayerProgressionState =
  pp_level :: i32
  exp_in_level :: u32
  next_exp_in_level :: u32

definition progression_new :: "i32 \<Rightarrow> u32 \<Rightarrow> u32 \<Rightarrow> PlayerProgressionState" where
  "progression_new l e n = \<lparr>pp_level = l, exp_in_level = e, next_exp_in_level = n\<rparr>"

definition progression_default :: PlayerProgressionState where
  "progression_default = progression_new 0 0 0"

definition level_only :: "i32 \<Rightarrow> PlayerProgressionState" where
  "level_only l = progression_new l 0 0"

definition normalized :: "PlayerProgressionState \<Rightarrow> PlayerProgressionState" where
  "normalized p = \<lparr>pp_level = max (pp_level p) 0, exp_in_level = exp_in_level p,
                   next_exp_in_level = next_exp_in_level p\<rparr>"

definition level_step :: "PlayerProgressionState \<Rightarrow> i32" where
  "level_step p0 =
    (let p = normalized p0 in
     if next_exp_in_level p = 0 then 0
     else let e = min (exp_in_level p) (next_exp_in_level p);
              next_exp = next_exp_in_level p;
              level_steps = LEVEL_STEPS_PER_LEVEL
          in wrap_s 32 (min (sat_u 64 (e * level_steps) div next_exp) level_steps))"

definition progression_u32 :: "PlayerProgressionState \<Rightarrow> bool" where
  "progression_u32 p \<longleftrightarrow>
    in_i32 (pp_level p) \<and> in_u32 (exp_in_level p) \<and> in_u32 (next_exp_in_level p)"

lemma level_step_eq:
  assumes "in_u32 (exp_in_level p)" and "in_u32 (next_exp_in_level p)"
  shows "level_step p =
    (if next_exp_in_level p = 0 then 0
     else 4 * min (exp_in_level p) (next_exp_in_level p) div next_exp_in_level p)"
proof (cases "next_exp_in_level p = 0")
  case True
  then show ?thesis by (simp add: level_step_def normalized_def Let_def)
next
  case False
  let ?e = "min (exp_in_level p) (next_exp_in_level p)" and ?n = "next_exp_in_level p"
  have n: "0 < ?n" and e: "0 \<le> ?e" "?e \<le> ?n" "?n \<le> u32_MAX"
    using assms False by (auto simp: in_u32_iff)
  have q: "0 \<le> 4 * ?e div ?n" using n e by (simp add: pos_imp_zdiv_nonneg_iff)
  have "4 * ?e div ?n \<le> 4 * ?n div ?n" using n e by (intro zdiv_mono1) auto
  then have q4: "4 * ?e div ?n \<le> 4" using n by simp
  have "sat_u 64 (?e * 4) = 4 * ?e"
    using e by (subst sat_u_id) (auto simp: in_u_def)
  then show ?thesis
    using False q q4
    by (simp add: level_step_def normalized_def Let_def LEVEL_STEPS_PER_LEVEL_def
        wrap_i32_id in_i32_iff min_def)
qed

lemma level_step_range:
  assumes "in_u32 (exp_in_level p)" and "in_u32 (next_exp_in_level p)"
  shows "0 \<le> level_step p" and "level_step p \<le> 4"
proof -
  let ?e = "min (exp_in_level p) (next_exp_in_level p)" and ?n = "next_exp_in_level p"
  have r: "0 \<le> 4 * ?e div ?n \<and> 4 * ?e div ?n \<le> 4" if "?n \<noteq> 0"
  proof -
    have n: "0 < ?n" and e: "0 \<le> ?e" "?e \<le> ?n" using assms that by (auto simp: in_u32_iff)
    have "4 * ?e div ?n \<le> 4 * ?n div ?n" using n e by (intro zdiv_mono1) auto
    then show ?thesis using n e by (simp add: pos_imp_zdiv_nonneg_iff)
  qed
  show "0 \<le> level_step p" and "level_step p \<le> 4"
    unfolding level_step_eq [OF assms] using r by auto
qed

end
