(* ===== verification/Stat_Source.thy ===== *)
theory Stat_Source
  imports Stat_Core
begin

text \<open>
  What an actor's stats are computed from: \<^verbatim>\<open>stats/game/source.rs\<close> and \<^verbatim>\<open>stats/game/balance.rs\<close>.
  The generator behind the per-level growth rolls (\<^verbatim>\<open>rand\<close> and \<^verbatim>\<open>rand_xoshiro\<close>) is third-party code:
  it is the parameter \<open>roll\<close>, with \<open>roll seed lower upper i\<close> the \<open>i\<close>-th sample of the inclusive
  uniform distribution seeded with \<open>seed\<close>, and \<open>roll_uniform\<close> the documented law that every sample
  lies between the bounds.
\<close>

section \<open>Stat sources\<close>

record CoreStatBlock =
  csb_st :: i32
  csb_ht :: i32
  csb_dx :: i32
  csb_iq :: i32

definition csb_get :: "CoreStatBlock \<Rightarrow> Stat \<Rightarrow> i32" where
  "csb_get b s = (case s of St \<Rightarrow> csb_st b | Ht \<Rightarrow> csb_ht b | Dx \<Rightarrow> csb_dx b | Iq \<Rightarrow> csb_iq b | _ \<Rightarrow> 0)"

record SourceSpeeds =
  move_speed :: i32
  attack_speed :: i32
  casting_speed :: i32

definition speeds_default :: SourceSpeeds where
  "speeds_default = \<lparr>move_speed = 100, attack_speed = 100, casting_speed = 100\<rparr>"

record PlayerAttackCoefficients =
  st_numerator :: i32
  dx_numerator :: i32
  iq_numerator :: i32
  divisor :: i32

record PlayerResourceFormula =
  base_max_hp :: i32
  base_max_sp :: i32
  base_max_stamina :: i32
  hp_per_ht :: i32
  sp_per_iq :: i32
  stamina_per_ht :: i32

datatype PlayerResourceCapacity = CapHp | CapSp | CapStamina

fun cap_stat :: "PlayerResourceCapacity \<Rightarrow> Stat" where
  "cap_stat CapHp = MaxHp"
| "cap_stat CapSp = MaxSp"
| "cap_stat CapStamina = MaxStamina"

fun flat_bonus_stat :: "PlayerResourceCapacity \<Rightarrow> Stat option" where
  "flat_bonus_stat CapHp = Some BonusMaxHp"
| "flat_bonus_stat CapSp = Some BonusMaxSp"
| "flat_bonus_stat CapStamina = Some BonusMaxStamina"

fun pre_percentage_bonus_stat :: "PlayerResourceCapacity \<Rightarrow> Stat option" where
  "pre_percentage_bonus_stat CapHp = Some MaxHpPrePctBonus"
| "pre_percentage_bonus_stat CapSp = None"
| "pre_percentage_bonus_stat CapStamina = None"

fun capped_percentage_stat :: "PlayerResourceCapacity \<Rightarrow> Stat option" where
  "capped_percentage_stat CapHp = Some MaxHpPct"
| "capped_percentage_stat CapSp = Some MaxSpPct"
| "capped_percentage_stat CapStamina = None"

fun post_percentage_bonus_stat :: "PlayerResourceCapacity \<Rightarrow> Stat option" where
  "post_percentage_bonus_stat CapHp = Some PartyTankerBonus"
| "post_percentage_bonus_stat CapSp = Some PartySkillMasterBonus"
| "post_percentage_bonus_stat CapStamina = None"

record ActorViewLimits =
  move_speed_max :: i32
  attack_speed_max :: i32

record PlayerStoredStatLimits =
  core_stat_max :: i32

record PlayerResourceBonusCaps =
  max_hp_pct_bonus :: i32
  max_sp_pct_bonus :: i32

record PlayerBalanceRules =
  pbr_attack :: PlayerAttackCoefficients
  stored_limits :: PlayerStoredStatLimits
  pbr_view_limits :: ActorViewLimits
  resource_bonus_caps :: PlayerResourceBonusCaps

definition limits_view :: "ActorViewLimits \<Rightarrow> Stat \<Rightarrow> i32 option" where
  "limits_view l s = (case s of MovSpeed \<Rightarrow> Some (move_speed_max l)
                      | AttSpeed \<Rightarrow> Some (attack_speed_max l) | _ \<Rightarrow> None)"

definition player_view_limit :: "PlayerBalanceRules \<Rightarrow> Stat \<Rightarrow> i32 option" where
  "player_view_limit b s = limits_view (pbr_view_limits b) s"

definition player_stored_write_limit :: "PlayerBalanceRules \<Rightarrow> Stat \<Rightarrow> i32 option" where
  "player_stored_write_limit b s =
    (if s \<in> {St, Ht, Dx, Iq} then Some (core_stat_max (stored_limits b)) else None)"

fun capped_percentage_bonus_max :: "PlayerBalanceRules \<Rightarrow> PlayerResourceCapacity \<Rightarrow> i32 option" where
  "capped_percentage_bonus_max b CapHp = Some (max_hp_pct_bonus (resource_bonus_caps b))"
| "capped_percentage_bonus_max b CapSp = Some (max_sp_pct_bonus (resource_bonus_caps b))"
| "capped_percentage_bonus_max b CapStamina = None"

record MobBalanceRules =
  mbr_view_limits :: ActorViewLimits

definition mob_view_limit :: "MobBalanceRules \<Rightarrow> Stat \<Rightarrow> i32 option" where
  "mob_view_limit b s = limits_view (mbr_view_limits b) s"

section \<open>Deterministic growth\<close>

datatype DeterministicGrowthVersion = V1

record PlayerGrowthFormula =
  hp_per_level :: "i32 \<times> i32"
  sp_per_level :: "i32 \<times> i32"
  stamina_per_level :: "i32 \<times> i32"
  growth_version :: DeterministicGrowthVersion

type_synonym roll = "u64 \<Rightarrow> i32 \<Rightarrow> i32 \<Rightarrow> nat \<Rightarrow> i32"

definition growth_zero :: PlayerGrowthFormula where
  "growth_zero = \<lparr>hp_per_level = (0, 0), sp_per_level = (0, 0), stamina_per_level = (0, 0),
                  growth_version = V1\<rparr>"

text \<open>\<^verbatim>\<open>u64::from_be_bytes\<close> of an eight-character byte string.\<close>

definition from_be_bytes :: "string \<Rightarrow> u64" where
  "from_be_bytes cs = foldl (\<lambda>a c. a * 256 + int (of_char c)) 0 cs"

text \<open>\<^verbatim>\<open>level.saturating_sub(1) as usize\<close>: a negative difference becomes a huge unsigned count.\<close>

definition growth_rolls :: "i32 \<Rightarrow> nat" where
  "growth_rolls level = nat (wrap_u 64 (sat_s 32 (level - 1)))"

definition growth_seed :: "string \<Rightarrow> u64 \<Rightarrow> u64" where
  "growth_seed domain_salt stable_id =
    xor (xor (from_be_bytes ''GROWTHv1'') (from_be_bytes domain_salt)) stable_id"

definition sum_growth_rolls ::
  "roll \<Rightarrow> PlayerGrowthFormula \<Rightarrow> string \<Rightarrow> u64 \<Rightarrow> i32 \<Rightarrow> i32 \<times> i32 \<Rightarrow> i32" where
  "sum_growth_rolls roll g domain_salt stable_id level bounds =
    (let rolls = growth_rolls level in
     if rolls = 0 then 0
     else let mn = fst bounds; mx = snd bounds;
              lower = (if mn \<le> mx then mn else mx);
              upper = (if mn \<le> mx then mx else mn)
          in case growth_version g of
               V1 \<Rightarrow> i32_sum (map (roll (growth_seed domain_salt stable_id) lower upper) [0..<rolls]))"

definition random_hp :: "roll \<Rightarrow> PlayerGrowthFormula \<Rightarrow> u64 \<Rightarrow> i32 \<Rightarrow> i32" where
  "random_hp roll g stable_id level =
    sum_growth_rolls roll g ''grow::HP'' stable_id level (hp_per_level g)"

definition random_sp :: "roll \<Rightarrow> PlayerGrowthFormula \<Rightarrow> u64 \<Rightarrow> i32 \<Rightarrow> i32" where
  "random_sp roll g stable_id level =
    sum_growth_rolls roll g ''grow::SP'' stable_id level (sp_per_level g)"

definition random_stamina :: "roll \<Rightarrow> PlayerGrowthFormula \<Rightarrow> u64 \<Rightarrow> i32 \<Rightarrow> i32" where
  "random_stamina roll g stable_id level =
    sum_growth_rolls roll g ''grow:STM'' stable_id level (stamina_per_level g)"

definition roll_uniform :: "roll \<Rightarrow> bool" where
  "roll_uniform roll \<longleftrightarrow> (\<forall>seed lo hi i. lo \<le> hi \<longrightarrow> lo \<le> roll seed lo hi i \<and> roll seed lo hi i \<le> hi)"

section \<open>Player and mob sources\<close>

record PlayerStatSource =
  ps_resources :: PlayerResourceFormula
  ps_growth :: PlayerGrowthFormula
  ps_balance :: PlayerBalanceRules
  ps_speeds :: SourceSpeeds

record MobStatSource =
  ms_level :: i32
  ms_core :: CoreStatBlock
  ms_max_hp :: i32
  ms_def_grade_flat :: i32
  ms_balance :: MobBalanceRules
  ms_speeds :: SourceSpeeds

definition mob_base_core_stat :: "MobStatSource \<Rightarrow> Stat \<Rightarrow> i32" where
  "mob_base_core_stat m s = (case s of Level \<Rightarrow> ms_level m | _ \<Rightarrow> csb_get (ms_core m) s)"

datatype ActorKind = KPlayer | KMob

datatype ActorStatSource = SPlayer PlayerStatSource | SMob MobStatSource

fun actor_kind :: "ActorStatSource \<Rightarrow> ActorKind" where
  "actor_kind (SPlayer _) = KPlayer"
| "actor_kind (SMob _) = KMob"

fun source_player :: "ActorStatSource \<Rightarrow> PlayerStatSource option" where
  "source_player (SPlayer p) = Some p"
| "source_player (SMob _) = None"

fun source_mob :: "ActorStatSource \<Rightarrow> MobStatSource option" where
  "source_mob (SPlayer _) = None"
| "source_mob (SMob m) = Some m"

fun source_base_core_stat :: "ActorStatSource \<Rightarrow> Stat \<Rightarrow> i32" where
  "source_base_core_stat (SPlayer _) s = 0"
| "source_base_core_stat (SMob m) s = mob_base_core_stat m s"

fun view_limit :: "ActorStatSource \<Rightarrow> Stat \<Rightarrow> i32 option" where
  "view_limit (SPlayer p) s = player_view_limit (ps_balance p) s"
| "view_limit (SMob m) s = mob_view_limit (ms_balance m) s"

fun stored_write_limit :: "ActorStatSource \<Rightarrow> Stat \<Rightarrow> i32 option" where
  "stored_write_limit (SPlayer p) s = player_stored_write_limit (ps_balance p) s"
| "stored_write_limit (SMob _) s = None"

section \<open>Balance defaults\<close>

datatype PlayerClass = Warrior | Ninja | Sura | Shaman

definition default_player_balance_rules :: "PlayerClass \<Rightarrow> PlayerBalanceRules" where
  "default_player_balance_rules class =
    \<lparr>pbr_attack =
       (case class of
          Warrior \<Rightarrow> \<lparr>st_numerator = 2, dx_numerator = 0, iq_numerator = 0, divisor = 1\<rparr>
        | Sura \<Rightarrow> \<lparr>st_numerator = 2, dx_numerator = 0, iq_numerator = 0, divisor = 1\<rparr>
        | Ninja \<Rightarrow> \<lparr>st_numerator = 4, dx_numerator = 2, iq_numerator = 0, divisor = 3\<rparr>
        | Shaman \<Rightarrow> \<lparr>st_numerator = 4, dx_numerator = 0, iq_numerator = 2, divisor = 3\<rparr>),
     stored_limits = \<lparr>core_stat_max = 90\<rparr>,
     pbr_view_limits = \<lparr>move_speed_max = 200, attack_speed_max = 170\<rparr>,
     resource_bonus_caps = \<lparr>max_hp_pct_bonus = 3500, max_sp_pct_bonus = 800\<rparr>\<rparr>"

definition default_mob_balance_rules :: MobBalanceRules where
  "default_mob_balance_rules = \<lparr>mbr_view_limits = \<lparr>move_speed_max = 250, attack_speed_max = 250\<rparr>\<rparr>"

definition exp_reward_bonus_malus_percent :: "i32 \<Rightarrow> i32 \<Rightarrow> i32" where
  "exp_reward_bonus_malus_percent player_level monster_level =
    (let adv = sat_s 32 (monster_level - player_level) in
     if 15 \<le> adv then 180
     else if 0 \<le> adv \<and> adv \<le> 14 then 100 + adv * 5
     else if adv = -1 then 100
     else if adv = -2 then 98
     else if adv = -3 then 96
     else if adv = -4 then 94
     else if adv = -5 then 92
     else if adv = -6 then 90
     else if adv = -7 then 85
     else if adv = -8 then 80
     else if adv = -9 then 70
     else if adv = -10 then 50
     else if adv = -11 then 30
     else if adv = -12 then 20
     else if adv = -13 then 10
     else if adv = -14 then 5
     else 1)"

section \<open>Facts about growth and balance\<close>

lemma growth_rolls_pos: "1 \<le> level \<Longrightarrow> level \<le> i32_MAX \<Longrightarrow> growth_rolls level = nat (level - 1)"
  by (simp add: growth_rolls_def sat_i32_eq wrap_u_def)

text \<open>Level 0 is not an empty sum: the unsigned cast turns \<open>-1\<close> into the largest roll count.\<close>

lemma growth_rolls_zero: "growth_rolls 0 = nat (2 ^ 64 - 1)"
  by (simp add: growth_rolls_def sat_i32_eq wrap_u_def)

lemma sum_list_bounds:
  fixes f :: "nat \<Rightarrow> int"
  assumes "\<And>i. lo \<le> f i \<and> f i \<le> hi"
  shows "int n * lo \<le> sum_list (map f [0..<n]) \<and> sum_list (map f [0..<n]) \<le> int n * hi"
proof (induction n)
  case 0
  then show ?case by simp
next
  case (Suc n)
  then show ?case using assms [of n] by (simp add: algebra_simps)
qed

lemma sum_growth_rolls_bounds:
  assumes "roll_uniform roll" and "1 \<le> level" and "level \<le> i32_MAX" and "fst b \<le> snd b"
    and "in_i32 ((level - 1) * fst b)" and "in_i32 ((level - 1) * snd b)"
  shows "(level - 1) * fst b \<le> sum_growth_rolls roll g salt sid level b"
    and "sum_growth_rolls roll g salt sid level b \<le> (level - 1) * snd b"
proof -
  let ?f = "roll (growth_seed salt sid) (fst b) (snd b)"
  let ?S = "sum_list (map ?f [0..<nat (level - 1)])"
  have "\<And>i. fst b \<le> ?f i \<and> ?f i \<le> snd b"
    using assms(1,4) by (auto simp: roll_uniform_def)
  from sum_list_bounds [OF this, of "nat (level - 1)"]
  have S: "(level - 1) * fst b \<le> ?S" "?S \<le> (level - 1) * snd b"
    using assms(2) by simp_all
  then have "in_i32 ?S" using assms(5,6) by (auto simp: in_i32_iff)
  then have "sum_growth_rolls roll g salt sid level b = ?S"
    using assms(2-4) by (cases "growth_version g")
      (simp add: sum_growth_rolls_def growth_rolls_pos i32_sum_eq wrap_i32_id Let_def)
  then show "(level - 1) * fst b \<le> sum_growth_rolls roll g salt sid level b"
    and "sum_growth_rolls roll g salt sid level b \<le> (level - 1) * snd b"
    using S by simp_all
qed

lemma sum_growth_rolls_i32 [rust_range, simp]: "in_i32 (sum_growth_rolls roll g salt sid level b)"
  by (cases "growth_version g") (simp add: sum_growth_rolls_def Let_def i32_sum_eq in_i32_iff [of 0])

lemma exp_percent_range:
  "1 \<le> exp_reward_bonus_malus_percent p m \<and> exp_reward_bonus_malus_percent p m \<le> 180"
  by (simp add: exp_reward_bonus_malus_percent_def Let_def)

end
