(* ===== verification/Actor_State.thy ===== *)
theory Actor_State
  imports Stat_Source
begin

text \<open>
  The typed actor state of \<^verbatim>\<open>stats/game/actor.rs\<close>: base and computed stores, live resources, immunity
  flags, the modifier ledger and the dirty tracking, with the setters that record what the next
  synchronisation has to send.  Setters that return a \<^verbatim>\<open>Result\<close> return the sum and the state.
\<close>

section \<open>State\<close>

record ActorResources =
  hp :: i32
  sp :: i32
  stamina :: i32
  hp_recovery :: i32
  sp_recovery :: i32

definition resources_default :: ActorResources where
  "resources_default = \<lparr>hp = 0, sp = 0, stamina = 0, hp_recovery = 0, sp_recovery = 0\<rparr>"

definition clamp_to_caps :: "ActorResources \<Rightarrow> PointValueStore \<Rightarrow> ActorResources exec" where
  "clamp_to_caps r computed = do {
     h \<leftarrow> clamp (hp r) 0 (pvs_get computed MaxHp);
     s \<leftarrow> clamp (sp r) 0 (pvs_get computed MaxSp);
     t \<leftarrow> clamp (stamina r) 0 (pvs_get computed MaxStamina);
     Some (r\<lparr>hp := h, sp := s, stamina := t\<rparr>)
   }"

record ActorImmuneFlags =
  stun :: bool
  slow :: bool
  fall :: bool

definition immune_none :: ActorImmuneFlags where
  "immune_none = \<lparr>stun = False, slow = False, fall = False\<rparr>"

definition immune_or :: "ActorImmuneFlags \<Rightarrow> ActorImmuneFlags \<Rightarrow> ActorImmuneFlags" where
  "immune_or a b = \<lparr>stun = (stun a \<or> stun b), slow = (slow a \<or> slow b), fall = (fall a \<or> fall b)\<rparr>"

record ActorRuntimeState =
  immune_flags :: ActorImmuneFlags
  external_immune_flags :: ActorImmuneFlags

definition runtime_default :: ActorRuntimeState where
  "runtime_default = \<lparr>immune_flags = immune_none, external_immune_flags = immune_none\<rparr>"

datatype StatWriteError =
    NotStored Stat
  | RequiresTypedProgression Stat
  | OutOfRange Stat i32 "i32 option" i32
  | NotResource Stat

type_synonym ('src, 'det) StatModifierLedger = "('src, Stat, 'det) GenericModifierLedger"
type_synonym ('src, 'det) StatModifierInstance = "('src, Stat, 'det) GenericModifierInstance"

record ('src, 'det) ActorStatState =
  as_kind :: ActorKind
  stable_id :: "u64 option"
  progression :: PlayerProgressionState
  base :: PointValueStore
  computed :: PointValueStore
  resources :: ActorResources
  runtime :: ActorRuntimeState
  modifiers :: "('src, 'det) StatModifierLedger"
  explicit_changes :: "Stat btree_set"
  dirty :: bool
  runtime_dirty :: bool

definition state_new :: "ActorKind \<Rightarrow> ('src, 'det) ActorStatState" where
  "state_new kind =
    \<lparr>as_kind = kind, stable_id = None, progression = progression_default, base = pvs_new,
     computed = pvs_new, resources = resources_default, runtime = runtime_default,
     modifiers = ledger_default, explicit_changes = [], dirty = True, runtime_dirty = True\<rparr>"

section \<open>Setters\<close>

definition record_explicit_change ::
  "Stat \<Rightarrow> ('src, 'det) ActorStatState \<Rightarrow> ('src, 'det) ActorStatState" where
  "record_explicit_change s st =
    st\<lparr>explicit_changes := bs_insert s (explicit_changes st), dirty := True\<rparr>"

definition mark_runtime_dirty :: "('src, 'det) ActorStatState \<Rightarrow> ('src, 'det) ActorStatState" where
  "mark_runtime_dirty st = st\<lparr>runtime_dirty := True, dirty := True\<rparr>"

definition clamp_u32_to_i32 :: "u32 \<Rightarrow> i32" where
  "clamp_u32_to_i32 v = wrap_s 32 (min v i32_MAX)"

definition set_base_projection_stat ::
  "Stat \<Rightarrow> i32 \<Rightarrow> ('src, 'det) ActorStatState \<Rightarrow> ('src, 'det) ActorStatState" where
  "set_base_projection_stat s v st =
    (if pvs_get (base st) s \<noteq> v
     then record_explicit_change s (st\<lparr>base := pvs_set (base st) s v\<rparr>)
     else st)"

definition actor_set_stored_stat ::
  "('src, 'det) ActorStatState \<Rightarrow> Stat \<Rightarrow> i32 \<Rightarrow>
   (StatWriteError + unit) \<times> ('src, 'det) ActorStatState" where
  "actor_set_stored_stat st s v =
    (if s \<in> {Level, Exp, NextExp, LevelStep} then (Inl (RequiresTypedProgression s), st)
     else if role s \<noteq> Persistent then (Inl (NotStored s), st)
     else if pvs_get (base st) s \<noteq> v
     then (Inr (), record_explicit_change s (st\<lparr>base := pvs_set (base st) s v\<rparr>))
     else (Inr (), st))"

definition actor_set_player_progression ::
  "('src, 'det) ActorStatState \<Rightarrow> PlayerProgressionState \<Rightarrow> ('src, 'det) ActorStatState" where
  "actor_set_player_progression st p0 =
    (let p = normalized p0;
         s0 = st\<lparr>progression := p\<rparr>;
         s1 = set_base_projection_stat Level (pp_level p) s0;
         s2 = set_base_projection_stat Exp (clamp_u32_to_i32 (exp_in_level p)) s1;
         s3 = set_base_projection_stat NextExp (clamp_u32_to_i32 (next_exp_in_level p)) s2
     in set_base_projection_stat LevelStep (level_step p) s3)"

definition resource_slot :: "ActorResources \<Rightarrow> Stat \<Rightarrow> i32 option" where
  "resource_slot r s = (case s of
     Hp \<Rightarrow> Some (hp r) | Sp \<Rightarrow> Some (sp r) | Stamina \<Rightarrow> Some (stamina r)
   | HpRecovery \<Rightarrow> Some (hp_recovery r) | SpRecovery \<Rightarrow> Some (sp_recovery r) | _ \<Rightarrow> None)"

definition resource_put :: "ActorResources \<Rightarrow> Stat \<Rightarrow> i32 \<Rightarrow> ActorResources" where
  "resource_put r s v = (case s of
     Hp \<Rightarrow> r\<lparr>hp := v\<rparr> | Sp \<Rightarrow> r\<lparr>sp := v\<rparr> | Stamina \<Rightarrow> r\<lparr>stamina := v\<rparr>
   | HpRecovery \<Rightarrow> r\<lparr>hp_recovery := v\<rparr> | SpRecovery \<Rightarrow> r\<lparr>sp_recovery := v\<rparr> | _ \<Rightarrow> r)"

definition set_resource_stat ::
  "('src, 'det) ActorStatState \<Rightarrow> Stat \<Rightarrow> i32 \<Rightarrow>
   (StatWriteError + unit) \<times> ('src, 'det) ActorStatState" where
  "set_resource_stat st s v =
    (case resource_slot (resources st) s of
       None \<Rightarrow> (Inl (NotResource s), st)
     | Some old \<Rightarrow>
         if old \<noteq> v
         then (Inr (), record_explicit_change s (st\<lparr>resources := resource_put (resources st) s v\<rparr>))
         else (Inr (), st))"

definition actor_set_external_immune_flags ::
  "('src, 'det) ActorStatState \<Rightarrow> ActorImmuneFlags \<Rightarrow> ('src, 'det) ActorStatState" where
  "actor_set_external_immune_flags st flags =
    (if external_immune_flags (runtime st) \<noteq> flags
     then mark_runtime_dirty (st\<lparr>runtime := (runtime st)\<lparr>external_immune_flags := flags\<rparr>\<rparr>)
     else st)"

definition actor_set_stable_id ::
  "('src, 'det) ActorStatState \<Rightarrow> u64 option \<Rightarrow> ('src, 'det) ActorStatState" where
  "actor_set_stable_id st sid =
    (if stable_id st \<noteq> sid then st\<lparr>stable_id := sid, dirty := True\<rparr> else st)"

definition set_derived_immune_flags ::
  "('src, 'det) ActorStatState \<Rightarrow> ActorImmuneFlags \<Rightarrow> ('src, 'det) ActorStatState" where
  "set_derived_immune_flags st flags =
    (if immune_flags (runtime st) \<noteq> flags
     then st\<lparr>runtime := (runtime st)\<lparr>immune_flags := flags\<rparr>, runtime_dirty := True\<rparr>
     else st)"

definition replace_computed ::
  "('src, 'det) ActorStatState \<Rightarrow> PointValueStore \<Rightarrow> ('src, 'det) ActorStatState" where
  "replace_computed st c = st\<lparr>computed := c, dirty := True\<rparr>"

definition clamp_resources_to_computed_caps ::
  "('src, 'det) ActorStatState \<Rightarrow> ('src, 'det) ActorStatState exec" where
  "clamp_resources_to_computed_caps st = do {
     r \<leftarrow> clamp_to_caps (resources st) (computed st);
     Some (st\<lparr>resources := r, dirty := True\<rparr>)
   }"

definition replace_modifier_source ::
  "('src::linorder, 'det) ActorStatState \<Rightarrow> 'src \<Rightarrow> ('src, 'det) StatModifierInstance list \<Rightarrow>
   ('src, 'det) ActorStatState" where
  "replace_modifier_source st src ms =
    st\<lparr>modifiers := replace_source (modifiers st) src ms, dirty := True\<rparr>"

definition remove_modifier_source ::
  "('src::linorder, 'det) ActorStatState \<Rightarrow> 'src \<Rightarrow> bool \<times> ('src, 'det) ActorStatState" where
  "remove_modifier_source st src =
    (let r = remove_source (modifiers st) src
     in (fst r \<noteq> None, st\<lparr>modifiers := snd r, dirty := True\<rparr>))"

definition clear_dirty :: "('src, 'det) ActorStatState \<Rightarrow> ('src, 'det) ActorStatState" where
  "clear_dirty st = st\<lparr>dirty := False\<rparr>"

definition is_dirty :: "('src, 'det) ActorStatState \<Rightarrow> bool" where
  "is_dirty st \<longleftrightarrow> dirty st \<or> runtime_dirty st"

definition take_explicit_changes ::
  "('src, 'det) ActorStatState \<Rightarrow> Stat btree_set \<times> ('src, 'det) ActorStatState" where
  "take_explicit_changes st = (explicit_changes st, st\<lparr>explicit_changes := []\<rparr>)"

definition take_runtime_dirty ::
  "('src, 'det) ActorStatState \<Rightarrow> bool \<times> ('src, 'det) ActorStatState" where
  "take_runtime_dirty st = (runtime_dirty st, st\<lparr>runtime_dirty := False\<rparr>)"

section \<open>Facts\<close>

lemma clamp_u32_to_i32_eq: "in_u32 v \<Longrightarrow> clamp_u32_to_i32 v = min v i32_MAX"
  unfolding clamp_u32_to_i32_def by (subst wrap_i32_id) (auto simp: in_i32_iff in_u32_iff)

lemma clamp_u32_to_i32_in [rust_range, simp]: "in_i32 (clamp_u32_to_i32 v)"
  by (simp add: clamp_u32_to_i32_def)

lemma resource_slot_if:
  "resource_slot r s =
    (if s = Hp then Some (hp r) else if s = Sp then Some (sp r) else if s = Stamina then Some (stamina r)
     else if s = HpRecovery then Some (hp_recovery r) else if s = SpRecovery then Some (sp_recovery r)
     else None)"
  by (cases s) (simp_all add: resource_slot_def)

lemma resource_slot_None_iff:
  "resource_slot r s = None \<longleftrightarrow> s \<notin> {Hp, Sp, Stamina, HpRecovery, SpRecovery}"
  by (simp add: resource_slot_if)

lemma resource_slot_put:
  assumes "resource_slot r s \<noteq> None"
  shows "resource_slot (resource_put r s v) t = (if t = s then Some v else resource_slot r t)"
proof -
  from assms consider "s = Hp" | "s = Sp" | "s = Stamina" | "s = HpRecovery" | "s = SpRecovery"
    by (auto simp: resource_slot_None_iff)
  then show ?thesis by cases (simp_all add: resource_slot_if resource_put_def)
qed

lemma clamp_to_caps_Some:
  assumes "clamp_to_caps r c = Some r'"
  shows "0 \<le> hp r'" "hp r' \<le> pvs_get c MaxHp" "0 \<le> sp r'" "sp r' \<le> pvs_get c MaxSp"
    "0 \<le> stamina r'" "stamina r' \<le> pvs_get c MaxStamina"
    "hp_recovery r' = hp_recovery r" "sp_recovery r' = sp_recovery r"
  using assms by (auto simp: clamp_to_caps_def bind_eq_Some_conv dest!: clamp_SomeD)

lemma clamp_to_caps_None_iff:
  "clamp_to_caps r c = None \<longleftrightarrow>
   pvs_get c MaxHp < 0 \<or> pvs_get c MaxSp < 0 \<or> pvs_get c MaxStamina < 0"
  by (auto simp: clamp_to_caps_def bind_eq_None_conv clamp_None_iff)

lemma clamp_to_caps_idem:
  "clamp_to_caps r c = Some r' \<Longrightarrow> clamp_to_caps r' c = Some r'"
  by (auto simp: clamp_to_caps_def bind_eq_Some_conv clamp_idem)

lemma base_projection_simps [simp]:
  "stable_id (set_base_projection_stat s v st) = stable_id st"
  "as_kind (set_base_projection_stat s v st) = as_kind st"
  "progression (set_base_projection_stat s v st) = progression st"
  "computed (set_base_projection_stat s v st) = computed st"
  "resources (set_base_projection_stat s v st) = resources st"
  "runtime (set_base_projection_stat s v st) = runtime st"
  "modifiers (set_base_projection_stat s v st) = modifiers st"
  "runtime_dirty (set_base_projection_stat s v st) = runtime_dirty st"
  by (simp_all add: set_base_projection_stat_def record_explicit_change_def)

lemma base_projection_base:
  "pvs_get (base (set_base_projection_stat s v st)) t = (if t = s then v else pvs_get (base st) t)"
  by (simp add: set_base_projection_stat_def record_explicit_change_def pvs_get_set)

lemma base_projection_changes:
  "set (explicit_changes (set_base_projection_stat s v st)) =
   (if pvs_get (base st) s \<noteq> v then insert s (set (explicit_changes st)) else set (explicit_changes st))"
  by (simp add: set_base_projection_stat_def record_explicit_change_def)

lemma base_projection_wf: "bs_wf (explicit_changes st) \<Longrightarrow> bs_wf (explicit_changes (set_base_projection_stat s v st))"
  by (simp add: set_base_projection_stat_def record_explicit_change_def)

lemma base_projection_dirty:
  "dirty (set_base_projection_stat s v st) \<longleftrightarrow> dirty st \<or> pvs_get (base st) s \<noteq> v"
  by (simp add: set_base_projection_stat_def record_explicit_change_def)

end
