(* ===== verification/Stats_Api.thy ===== *)
theory Stats_Api
  imports Actor_State
begin

text \<open>
  The stat kernel's API: the read projections of \<^verbatim>\<open>stats/game/view.rs\<close> and all of
  \<^verbatim>\<open>stats/game/api.rs\<close>.  A \<^verbatim>\<open>GameStatsApi\<close> borrows a source and a state, so each of its methods is a
  function of \<open>src\<close> and \<open>st\<close> that returns the new state where the method takes \<^verbatim>\<open>&mut self\<close>.
  \<open>roll\<close> is the growth sampler of \<open>Stat_Source\<close>.
\<close>

section \<open>Read projections\<close>

datatype StatValueView = Limited | WireCompatible

definition read_effective_value :: "('src, 'det) ActorStatState \<Rightarrow> Stat \<Rightarrow> i32" where
  "read_effective_value st s = (case s of
     Hp \<Rightarrow> hp (resources st)
   | Sp \<Rightarrow> sp (resources st)
   | Stamina \<Rightarrow> stamina (resources st)
   | HpRecovery \<Rightarrow> hp_recovery (resources st)
   | SpRecovery \<Rightarrow> sp_recovery (resources st)
   | _ \<Rightarrow> pvs_get (computed st) s)"

definition read_wire_compatible_value :: "('src, 'det) ActorStatState \<Rightarrow> Stat \<Rightarrow> i32" where
  "read_wire_compatible_value st s =
    (if s \<in> {Exp, NextExp}
     then (if s = Exp then clamp_u32_to_i32 (exp_in_level (progression st))
           else clamp_u32_to_i32 (next_exp_in_level (progression st)))
     else if s \<in> {Level, Exp, NextExp, Gold} then pvs_get (base st) s
     else read_effective_value st s)"

definition clamp_optional :: "i32 \<Rightarrow> i32 option \<Rightarrow> i32 option \<Rightarrow> i32 exec" where
  "clamp_optional v mn mx =
    clamp v (case mn of Some l \<Rightarrow> l | None \<Rightarrow> i32_MIN) (case mx of Some u \<Rightarrow> u | None \<Rightarrow> i32_MAX)"

definition apply_limit :: "ActorStatSource option \<Rightarrow> Stat \<Rightarrow> i32 \<Rightarrow> i32 exec" where
  "apply_limit src s v =
    (case src of None \<Rightarrow> Some v
     | Some source \<Rightarrow> (case view_limit source s of None \<Rightarrow> Some v
         | Some mx \<Rightarrow> clamp_optional v (Some 0) (Some mx)))"

fun read_stat_value ::
  "('src, 'det) ActorStatState \<Rightarrow> ActorStatSource option \<Rightarrow> Stat \<Rightarrow> StatValueView \<Rightarrow> i32 exec" where
  "read_stat_value st src s Limited = apply_limit src s (read_effective_value st s)"
| "read_stat_value st src s WireCompatible = Some (read_wire_compatible_value st s)"

definition read_packet :: "('src, 'det) ActorStatState \<Rightarrow> Stat \<Rightarrow> i32" where
  "read_packet st s = read_wire_compatible_value st s"

definition read_limited :: "ActorStatSource \<Rightarrow> ('src, 'det) ActorStatState \<Rightarrow> Stat \<Rightarrow> i32 exec" where
  "read_limited src st s = read_stat_value st (Some src) s Limited"

section \<open>Snapshots and public state\<close>

record ActorPublicStats =
  pub_level :: u32
  pub_move_speed :: u8
  pub_attack_speed :: u8

record ActorPublicState =
  pub_stats :: ActorPublicStats
  pub_immune_flags :: ActorImmuneFlags

record StatDelta =
  delta_stat :: Stat
  delta_value :: i32

record StatSnapshot =
  snap_values :: "(Stat, u32) btree_map"

definition wire_u32 :: "('src, 'det) ActorStatState \<Rightarrow> Stat \<Rightarrow> u32" where
  "wire_u32 st s = wrap_u 32 (max (read_wire_compatible_value st s) 0)"

definition snapshot_hidden :: "Stat set" where
  "snapshot_hidden = {ArmorDefence, MaxHpPrePctBonus, BonusMaxHp, BonusMaxSp, BonusMaxStamina}"

definition insert_wire :: "('src, 'det) ActorStatState \<Rightarrow> (Stat, u32) btree_map \<Rightarrow> Stat \<Rightarrow> (Stat, u32) btree_map" where
  "insert_wire st m s = bt_insert s (wire_u32 st s) m"

definition snapshot_from_state :: "('src, 'det) ActorStatState \<Rightarrow> StatSnapshot" where
  "snapshot_from_state st =
    (let v0 = [];
         v1 = foldl (insert_wire st) v0
                (filter (\<lambda>s. s \<notin> snapshot_hidden) (map fst (pvs_iter (computed st))));
         v2 = foldl (insert_wire st) v1
                (filter (\<lambda>s. s \<in> {Level, Exp, NextExp, Gold}) (map fst (pvs_iter (base st))));
         v3 = foldl (insert_wire st) v2 [Hp, Sp, Stamina, HpRecovery, SpRecovery, Polymorph, Mount];
         v4 = bt_insert Exp (exp_in_level (progression st)) v3;
         v5 = bt_insert NextExp (next_exp_in_level (progression st)) v4
     in \<lparr>snap_values = v5\<rparr>)"

definition snapshot_get :: "StatSnapshot \<Rightarrow> Stat \<Rightarrow> u32" where
  "snapshot_get snap s = (case bt_get (snap_values snap) s of Some v \<Rightarrow> v | None \<Rightarrow> 0)"

definition saturating_u8 :: "i32 \<Rightarrow> u8 exec" where
  "saturating_u8 v = map_option (wrap_u 8) (clamp v 0 255)"

definition public_stats :: "ActorStatSource \<Rightarrow> ('src, 'det) ActorStatState \<Rightarrow> ActorPublicStats exec" where
  "public_stats src st = do {
     mov \<leftarrow> read_limited src st MovSpeed;
     mov8 \<leftarrow> saturating_u8 mov;
     att \<leftarrow> read_limited src st AttSpeed;
     att8 \<leftarrow> saturating_u8 att;
     Some \<lparr>pub_level = wrap_u 32 (max (read_packet st Level) 0), pub_move_speed = mov8,
           pub_attack_speed = att8\<rparr>
   }"

definition public_state :: "ActorStatSource \<Rightarrow> ('src, 'det) ActorStatState \<Rightarrow> ActorPublicState exec" where
  "public_state src st = do {
     ps \<leftarrow> public_stats src st;
     Some \<lparr>pub_stats = ps, pub_immune_flags = immune_flags (runtime st)\<rparr>
   }"

section \<open>Stored stats and resources\<close>

definition api_new :: "ActorStatSource \<Rightarrow> ('src, 'det) ActorStatState \<Rightarrow> unit exec" where
  "api_new src st = (if as_kind st = actor_kind src then Some () else None)"

definition validate_stored_write_limit :: "ActorStatSource \<Rightarrow> Stat \<Rightarrow> i32 \<Rightarrow> (StatWriteError + unit) exec" where
  "validate_stored_write_limit src s v =
    (case stored_write_limit src s of None \<Rightarrow> Some (Inr ())
     | Some mx \<Rightarrow> do {
         c \<leftarrow> clamp_optional v (Some 0) (Some mx);
         Some (if c = v then Inr () else Inl (OutOfRange s v (Some 0) mx))
       })"

definition api_set_stored_stat ::
  "ActorStatSource \<Rightarrow> ('src, 'det) ActorStatState \<Rightarrow> Stat \<Rightarrow> i32 \<Rightarrow>
   ((StatWriteError + unit) \<times> ('src, 'det) ActorStatState) exec" where
  "api_set_stored_stat src st s v = do {
     r \<leftarrow> validate_stored_write_limit src s v;
     Some (case r of Inl e \<Rightarrow> (Inl e, st) | Inr _ \<Rightarrow> actor_set_stored_stat st s v)
   }"

definition current_resource_cap :: "('src, 'det) ActorStatState \<Rightarrow> Stat \<Rightarrow> StatWriteError + i32" where
  "current_resource_cap st s = (case s of
     Hp \<Rightarrow> Inr (pvs_get (computed st) MaxHp)
   | Sp \<Rightarrow> Inr (pvs_get (computed st) MaxSp)
   | Stamina \<Rightarrow> Inr (pvs_get (computed st) MaxStamina)
   | _ \<Rightarrow> Inl (NotResource s))"

definition current_resource_value :: "('src, 'det) ActorStatState \<Rightarrow> Stat \<Rightarrow> StatWriteError + i32" where
  "current_resource_value st s = (case s of
     Hp \<Rightarrow> Inr (hp (resources st))
   | Sp \<Rightarrow> Inr (sp (resources st))
   | Stamina \<Rightarrow> Inr (stamina (resources st))
   | HpRecovery \<Rightarrow> Inr (hp_recovery (resources st))
   | SpRecovery \<Rightarrow> Inr (sp_recovery (resources st))
   | _ \<Rightarrow> Inl (NotResource s))"

definition recovery_bucket_for_resource :: "Stat \<Rightarrow> StatWriteError + Stat" where
  "recovery_bucket_for_resource s =
    (case s of Hp \<Rightarrow> Inr HpRecovery | Sp \<Rightarrow> Inr SpRecovery | _ \<Rightarrow> Inl (NotResource s))"

text \<open>\<^verbatim>\<open>set_resource_stat(..).expect(..)\<close>: panics on the error.\<close>

definition put_resource ::
  "('src, 'det) ActorStatState \<Rightarrow> Stat \<Rightarrow> i32 \<Rightarrow> ('src, 'det) ActorStatState exec" where
  "put_resource st s v =
    (case set_resource_stat st s v of (Inl _, _) \<Rightarrow> None | (Inr _, st') \<Rightarrow> Some st')"

definition set_resource ::
  "('src, 'det) ActorStatState \<Rightarrow> Stat \<Rightarrow> i32 \<Rightarrow>
   ((StatWriteError + i32) \<times> ('src, 'det) ActorStatState) exec" where
  "set_resource st s v =
    (case current_resource_cap st s of
       Inl e \<Rightarrow> Some (Inl e, st)
     | Inr cap \<Rightarrow> do {
         capped \<leftarrow> clamp v 0 cap;
         st' \<leftarrow> put_resource st s capped;
         Some (Inr capped, st')
       })"

definition change_resource ::
  "('src, 'det) ActorStatState \<Rightarrow> Stat \<Rightarrow> i32 \<Rightarrow>
   ((StatWriteError + i32) \<times> ('src, 'det) ActorStatState) exec" where
  "change_resource st s delta =
    (case current_resource_value st s of
       Inl e \<Rightarrow> Some (Inl e, st)
     | Inr cur \<Rightarrow> set_resource st s (i32_add cur delta))"

definition upper_bound_for ::
  "('src, 'det) ActorStatState \<Rightarrow> ResourceApplication \<Rightarrow> StatWriteError + i32" where
  "upper_bound_for st a =
    (if ra_clamp_to_cap a then current_resource_cap st (ra_stat a) else Inr i32_MAX)"

definition apply_resource ::
  "('src, 'det) ActorStatState \<Rightarrow> ResourceApplication \<Rightarrow>
   ((StatWriteError + ResourceApplicationResult) \<times> ('src, 'det) ActorStatState) exec" where
  "apply_resource st a =
    (case current_resource_value st (ra_stat a) of
       Inl e \<Rightarrow> Some (Inl e, st)
     | Inr previous \<Rightarrow>
        (case upper_bound_for st a of
           Inl e \<Rightarrow> Some (Inl e, st)
         | Inr upper_bound \<Rightarrow> do {
             nxt \<leftarrow> clamp (sat_s 32 (previous + ra_delta a)) (ra_min_value a) upper_bound;
             st' \<leftarrow> put_resource st (ra_stat a) nxt;
             Some (Inr \<lparr>rar_stat = ra_stat a, rar_previous = previous, rar_current = nxt,
                        rar_applied_delta = i32_sub nxt previous,
                        rar_was_clamped = (nxt \<noteq> sat_s 32 (previous + ra_delta a))\<rparr>, st')
           }))"

definition queue_recovery ::
  "('src, 'det) ActorStatState \<Rightarrow> Stat \<Rightarrow> i32 \<Rightarrow>
   (StatWriteError + QueuedRecovery option) \<times> ('src, 'det) ActorStatState" where
  "queue_recovery st s amount =
    (case recovery_bucket_for_resource s of Inl e \<Rightarrow> (Inl e, st)
     | Inr bucket \<Rightarrow>
    (case current_resource_value st bucket of Inl e \<Rightarrow> (Inl e, st)
     | Inr previous \<Rightarrow>
    (case current_resource_value st s of Inl e \<Rightarrow> (Inl e, st)
     | Inr cur \<Rightarrow>
    (case current_resource_cap st s of Inl e \<Rightarrow> (Inl e, st)
     | Inr cap \<Rightarrow>
       if cap \<le> sat_s 32 (cur + previous) then (Inr None, st)
       else let queued_amount = max amount 0;
                nxt = sat_s 32 (previous + queued_amount)
            in (case set_resource_stat st bucket nxt of
                  (Inl e, st') \<Rightarrow> (Inl e, st')
                | (Inr _, st') \<Rightarrow>
                    (Inr (Some \<lparr>qr_stat = s, qr_previous_pending = previous,
                                qr_current_pending = nxt, qr_queued_amount = queued_amount\<rparr>), st'))))))"

definition queue_auto_recovery ::
  "('src, 'det) ActorStatState \<Rightarrow> Stat \<Rightarrow> i32 \<Rightarrow>
   (StatWriteError + QueuedRecovery option) \<times> ('src, 'det) ActorStatState" where
  "queue_auto_recovery st s available_amount =
    (case recovery_bucket_for_resource s of Inl e \<Rightarrow> (Inl e, st)
     | Inr bucket \<Rightarrow>
    (case current_resource_value st bucket of Inl e \<Rightarrow> (Inl e, st)
     | Inr previous \<Rightarrow>
    (case current_resource_cap st s of Inl e \<Rightarrow> (Inl e, st)
     | Inr cap \<Rightarrow>
    (case current_resource_value st s of Inl e \<Rightarrow> (Inl e, st)
     | Inr cur \<Rightarrow>
       let missing = sat_s 32 (cap - sat_s 32 (cur + previous));
           queued_amount = min (max available_amount 0) missing
       in if queued_amount \<le> 0 then (Inr None, st)
          else let nxt = sat_s 32 (previous + queued_amount)
               in (case set_resource_stat st bucket nxt of
                     (Inl e, st') \<Rightarrow> (Inl e, st')
                   | (Inr _, st') \<Rightarrow>
                       (Inr (Some \<lparr>qr_stat = s, qr_previous_pending = previous,
                                   qr_current_pending = nxt, qr_queued_amount = queued_amount\<rparr>), st'))))))"

definition apply_pending_recovery ::
  "('src, 'det) ActorStatState \<Rightarrow> Stat \<Rightarrow> i32 \<Rightarrow>
   ((StatWriteError + ResourceApplicationResult) \<times> ('src, 'det) ActorStatState) exec" where
  "apply_pending_recovery st s amount =
    (case recovery_bucket_for_resource s of Inl e \<Rightarrow> Some (Inl e, st)
     | Inr bucket \<Rightarrow>
    (case current_resource_value st bucket of Inl e \<Rightarrow> Some (Inl e, st)
     | Inr pending \<Rightarrow>
    (case current_resource_value st s of Inl e \<Rightarrow> Some (Inl e, st)
     | Inr cur \<Rightarrow>
    (case current_resource_cap st s of Inl e \<Rightarrow> Some (Inl e, st)
     | Inr mx \<Rightarrow>
       if mx \<le> cur then
         (case set_resource_stat st bucket 0 of
            (Inl e, st') \<Rightarrow> Some (Inl e, st')
          | (Inr _, st') \<Rightarrow> apply_resource st' (ra_restore s 0))
       else
         let scheduled = min (max amount 0) pending in
         do {
           res \<leftarrow> apply_resource st (ra_restore s scheduled);
           (case res of
              (Inl e, st') \<Rightarrow> Some (Inl e, st')
            | (Inr result, st') \<Rightarrow>
                if 0 < scheduled
                then (case set_resource_stat st' bucket (sat_s 32 (pending - scheduled)) of
                        (Inl e, st'') \<Rightarrow> Some (Inl e, st'')
                      | (Inr _, st'') \<Rightarrow> Some (Inr result, st''))
                else Some (Inr result, st'))
         }))))"

section \<open>Modifier bundles\<close>

datatype SourceBundleError =
    RecoveryStatInModifierChannel Stat
  | UnsupportedModifierStat Stat

definition validate_modifier_stat :: "Stat \<Rightarrow> SourceBundleError + unit" where
  "validate_modifier_stat s =
    (if s \<in> {HpRecovery, SpRecovery} then Inl (RecoveryStatInModifierChannel s)
     else if \<not> accepts_source_contribution s then Inl (UnsupportedModifierStat s)
     else Inr ())"

fun validate_modifiers :: "'det CompiledModifier list \<Rightarrow> SourceBundleError + unit" where
  "validate_modifiers [] = Inr ()"
| "validate_modifiers (m # ms) =
     (case validate_modifier_stat (cm_stat m) of Inl e \<Rightarrow> Inl e | Inr _ \<Rightarrow> validate_modifiers ms)"

definition compiled_modifier_to_instance ::
  "'src \<Rightarrow> 'det CompiledModifier \<Rightarrow> ('src, 'det) StatModifierInstance" where
  "compiled_modifier_to_instance src m =
    \<lparr>mi_source = src, mi_stat = cm_stat m, mi_amount = cm_amount m, mi_detail = cm_detail m\<rparr>"

definition replace_source_bundle ::
  "('src::linorder, 'det) ActorStatState \<Rightarrow> 'src \<Rightarrow> 'det CompiledStatContribution \<Rightarrow>
   (SourceBundleError + unit) \<times> ('src, 'det) ActorStatState" where
  "replace_source_bundle st src c =
    (case validate_modifiers (modifiers_of c) of
       Inl e \<Rightarrow> (Inl e, st)
     | Inr _ \<Rightarrow> (Inr (), replace_modifier_source st src
                          (map (compiled_modifier_to_instance src) (modifiers_of c))))"

definition remove_source_bundle ::
  "('src::linorder, 'det) ActorStatState \<Rightarrow> 'src \<Rightarrow> ('src, 'det) ActorStatState" where
  "remove_source_bundle st src = snd (remove_modifier_source st src)"

section \<open>Recomputation\<close>

definition apply_source_seed :: "PointValueStore \<Rightarrow> ActorStatSource \<Rightarrow> PointValueStore" where
  "apply_source_seed seeded src =
    (case source_mob src of None \<Rightarrow> seeded
     | Some mob \<Rightarrow>
        pvs_add (pvs_add (pvs_add (pvs_add (pvs_add seeded Level (ms_level mob))
          St (csb_st (ms_core mob))) Ht (csb_ht (ms_core mob)))
          Dx (csb_dx (ms_core mob))) Iq (csb_iq (ms_core mob)))"

definition seed_modifier ::
  "PointValueStore \<Rightarrow> ('src, 'det) StatModifierInstance \<Rightarrow> PointValueStore" where
  "seed_modifier seeded m =
    (if accepts_source_contribution (mi_stat m) then pvs_add seeded (mi_stat m) (mi_amount m) else seeded)"

definition seed_rebuild_state ::
  "('src, 'det) ActorStatState \<Rightarrow> ActorStatSource \<Rightarrow> PointValueStore" where
  "seed_rebuild_state st src =
    foldl seed_modifier (apply_source_seed (base st) src) (ledger_iter (modifiers st))"

definition optional_stat_value :: "PointValueStore \<Rightarrow> Stat option \<Rightarrow> i32" where
  "optional_stat_value c s = (case s of None \<Rightarrow> 0 | Some t \<Rightarrow> pvs_get c t)"

definition percentage_bonus :: "i32 \<Rightarrow> i32 \<Rightarrow> i32" where
  "percentage_bonus v pct = i32_mul v pct sdiv 100"

definition capped_percentage_bonus :: "i32 \<Rightarrow> i32 \<Rightarrow> i32 \<Rightarrow> i32" where
  "capped_percentage_bonus v pct max_bonus = min (percentage_bonus v pct) max_bonus"

definition player_capacity ::
  "PointValueStore \<Rightarrow> PlayerStatSource \<Rightarrow> PlayerResourceCapacity \<Rightarrow> i32 \<Rightarrow> i32" where
  "player_capacity c player resource b =
    (let pre_percentage_base =
           i32_add (i32_add b (optional_stat_value c (flat_bonus_stat resource)))
             (optional_stat_value c (pre_percentage_bonus_stat resource));
         pct_bonus = (case capped_percentage_stat resource of None \<Rightarrow> 0
           | Some s \<Rightarrow> capped_percentage_bonus pre_percentage_base (pvs_get c s)
               (case capped_percentage_bonus_max (ps_balance player) resource of
                  Some m \<Rightarrow> m | None \<Rightarrow> i32_MAX));
         post_percentage_bonus = optional_stat_value c (post_percentage_bonus_stat resource)
     in i32_add (i32_add pre_percentage_base pct_bonus) post_percentage_bonus)"

definition set_player_resource_capacity ::
  "PointValueStore \<Rightarrow> PlayerStatSource \<Rightarrow> PlayerResourceCapacity \<Rightarrow> i32 \<Rightarrow> PointValueStore" where
  "set_player_resource_capacity c player resource b =
    pvs_set c (cap_stat resource) (player_capacity c player resource b)"

definition rebuild_player_state ::
  "roll \<Rightarrow> PointValueStore \<Rightarrow> ('src, 'det) ActorStatState \<Rightarrow> PlayerStatSource \<Rightarrow> PointValueStore" where
  "rebuild_player_state roll c st player =
    (let lvl = pvs_get c Level; str = pvs_get c St; ht = pvs_get c Ht; dx = pvs_get c Dx; iq = pvs_get c Iq;
         flat_att_speed = pvs_get c AttSpeed; flat_att_grade = pvs_get c AttGrade;
         flat_def_grade = pvs_get c DefGrade; flat_mov_speed = pvs_get c MovSpeed;
         flat_casting_speed = pvs_get c CastingSpeed; flat_magic_att_grade = pvs_get c MagicAttGrade;
         flat_magic_def_grade = pvs_get c MagicDefGrade;
         rnd = (case stable_id st of
                  None \<Rightarrow> (0, 0, 0)
                | Some sid \<Rightarrow> (random_hp roll (ps_growth player) sid lvl,
                               random_sp roll (ps_growth player) sid lvl,
                               random_stamina roll (ps_growth player) sid lvl));
         r = ps_resources player;
         c1 = set_player_resource_capacity c player CapHp
                (i32_add (i32_add (base_max_hp r) (fst rnd)) (i32_mul ht (hp_per_ht r)));
         c2 = set_player_resource_capacity c1 player CapSp
                (i32_add (i32_add (base_max_sp r) (fst (snd rnd))) (i32_mul iq (sp_per_iq r)));
         c3 = set_player_resource_capacity c2 player CapStamina
                (i32_add (i32_add (base_max_stamina r) (snd (snd rnd))) (i32_mul ht (stamina_per_ht r)));
         c4 = pvs_set c3 MovSpeed (i32_add flat_mov_speed (move_speed (ps_speeds player)));
         c5 = pvs_set c4 AttSpeed
                (i32_add (i32_add flat_att_speed (attack_speed (ps_speeds player)))
                  (pvs_get c4 PartyHasteBonus));
         c6 = pvs_set c5 CastingSpeed (i32_add flat_casting_speed (casting_speed (ps_speeds player)));
         att = pbr_attack (ps_balance player);
         stat_attack =
           i32_add (i32_add (i32_mul str (st_numerator att)) (i32_mul dx (dx_numerator att)))
             (i32_mul iq (iq_numerator att)) sdiv max (divisor att) 1;
         c7 = pvs_set c6 AttGrade
                (i32_add (i32_add (i32_add flat_att_grade (i32_mul lvl 2)) stat_attack)
                  (pvs_get c6 AttGradeBonus));
         physical_defence_bonus =
           i32_add (i32_add (pvs_get c7 ArmorDefence) (pvs_get c7 DefGradeBonus))
             (pvs_get c7 PartyDefenderBonus);
         c8 = pvs_set c7 DefGrade
                (i32_add (i32_add (i32_add flat_def_grade lvl) (i32_mul ht 4 sdiv 5)) physical_defence_bonus);
         c9 = pvs_set c8 DisplayedDefGrade
                (i32_add (i32_add (i32_add flat_def_grade lvl) ht) physical_defence_bonus);
         c10 = pvs_set c9 MagicAttGrade
                (i32_add (i32_add (i32_add flat_magic_att_grade (i32_mul lvl 2)) (i32_mul iq 2))
                  (pvs_get c9 MagicAttGradeBonus))
     in pvs_set c10 MagicDefGrade
          (i32_add (i32_add (i32_add (i32_add flat_magic_def_grade lvl)
              (i32_add (i32_mul iq 3) ht sdiv 3)) (physical_defence_bonus sdiv 2))
            (pvs_get c10 MagicDefGradeBonus)))"

definition rebuild_mob_state :: "PointValueStore \<Rightarrow> MobStatSource \<Rightarrow> PointValueStore" where
  "rebuild_mob_state c mob =
    (let lvl = pvs_get c Level; str = pvs_get c St; ht = pvs_get c Ht;
         flat_att_speed = pvs_get c AttSpeed; flat_att_grade = pvs_get c AttGrade;
         flat_def_grade = pvs_get c DefGrade; flat_mov_speed = pvs_get c MovSpeed;
         flat_casting_speed = pvs_get c CastingSpeed; flat_magic_att_grade = pvs_get c MagicAttGrade;
         flat_magic_def_grade = pvs_get c MagicDefGrade;
         c1 = pvs_set c MaxHp (i32_add (pvs_get c BonusMaxHp) (ms_max_hp mob));
         att_grade = i32_add (i32_add flat_att_grade (i32_mul lvl 2)) (i32_mul str 2);
         c2 = pvs_set c1 AttGrade att_grade;
         def_grade = i32_add (i32_add (i32_add flat_def_grade lvl) ht) (ms_def_grade_flat mob);
         c3 = pvs_set c2 DefGrade def_grade;
         c4 = pvs_set c3 DisplayedDefGrade def_grade;
         c5 = pvs_set c4 MagicAttGrade (i32_add flat_magic_att_grade att_grade);
         c6 = pvs_set c5 MagicDefGrade (i32_add flat_magic_def_grade def_grade);
         c7 = pvs_set c6 AttSpeed (i32_add flat_att_speed (attack_speed (ms_speeds mob)));
         c8 = pvs_set c7 MovSpeed (i32_add flat_mov_speed (move_speed (ms_speeds mob)))
     in pvs_set c8 CastingSpeed (i32_add flat_casting_speed (casting_speed (ms_speeds mob))))"

definition rebuild_derived_state ::
  "roll \<Rightarrow> ('src, 'det) ActorStatState \<Rightarrow> ActorStatSource \<Rightarrow> PointValueStore \<Rightarrow> PointValueStore" where
  "rebuild_derived_state roll st src seeded =
    (case src of SPlayer player \<Rightarrow> rebuild_player_state roll seeded st player
     | SMob mob \<Rightarrow> rebuild_mob_state seeded mob)"

definition derive_immune_flags :: "('src, 'det) ActorStatState \<Rightarrow> ActorImmuneFlags" where
  "derive_immune_flags st =
    immune_or (external_immune_flags (runtime st))
      \<lparr>stun = (0 < pvs_get (computed st) ImmuneStun), slow = (0 < pvs_get (computed st) ImmuneSlow),
       fall = (0 < pvs_get (computed st) ImmuneFall)\<rparr>"

definition insert_resource_changes ::
  "ActorResources \<Rightarrow> ActorResources \<Rightarrow> StatChangeSet \<Rightarrow> StatChangeSet" where
  "insert_resource_changes prev cur c0 =
    (let c1 = (if hp prev \<noteq> hp cur then cs_insert Hp c0 else c0);
         c2 = (if sp prev \<noteq> sp cur then cs_insert Sp c1 else c1)
     in if stamina prev \<noteq> stamina cur then cs_insert Stamina c2 else c2)"

definition resource_changes :: "ActorResources \<Rightarrow> ActorResources \<Rightarrow> StatChangeSet" where
  "resource_changes old new = insert_resource_changes old new cs_default"

definition explicit_state_changes :: "Stat list \<Rightarrow> StatChangeSet" where
  "explicit_state_changes ss = foldl (\<lambda>c s. cs_insert s c) cs_default ss"

definition diff_store :: "PointValueStore \<Rightarrow> PointValueStore \<Rightarrow> StatChangeSet" where
  "diff_store old new =
    (let c1 = foldl (\<lambda>c s. if pvs_get old s \<noteq> pvs_get new s then cs_insert s c else c) cs_default
                (map fst (pvs_iter old))
     in foldl (\<lambda>c s. if pvs_get old s \<noteq> pvs_get new s then cs_insert s c else c) c1
          (map fst (pvs_iter new)))"

definition merge_changes :: "StatChangeSet list \<Rightarrow> StatChangeSet" where
  "merge_changes phases =
    foldl (\<lambda>c phase. foldl (\<lambda>c s. cs_insert s c) c (cs_iter phase)) cs_default phases"

record StatRecomputeReport =
  rep_changes :: StatChangeSet
  rep_runtime_dirty :: bool

definition recompute_report ::
  "roll \<Rightarrow> ActorStatSource \<Rightarrow> ('src, 'det) ActorStatState \<Rightarrow>
   (StatRecomputeReport \<times> ('src, 'det) ActorStatState) exec" where
  "recompute_report roll src st =
    (let old_computed = computed st;
         explicit = fst (take_explicit_changes st);
         s1 = snd (take_explicit_changes st);
         seeded = seed_rebuild_state s1 src;
         derived = rebuild_derived_state roll s1 src seeded;
         s2 = replace_computed s1 derived;
         previous_resources = resources s2
     in do {
       s3 \<leftarrow> clamp_resources_to_computed_caps s2;
       let res_changes = resource_changes previous_resources (resources s3);
       let s4 = set_derived_immune_flags s3 (derive_immune_flags s3);
       let expl_changes = explicit_state_changes explicit;
       let final_computed_changes = diff_store old_computed (computed s4);
       let rd = fst (take_runtime_dirty s4);
       let s5 = clear_dirty (snd (take_runtime_dirty s4));
       Some (\<lparr>rep_changes = merge_changes [final_computed_changes, res_changes, expl_changes],
              rep_runtime_dirty = rd\<rparr>, s5)
     })"

definition recompute ::
  "roll \<Rightarrow> ActorStatSource \<Rightarrow> ('src, 'det) ActorStatState \<Rightarrow>
   (StatChangeSet \<times> ('src, 'det) ActorStatState) exec" where
  "recompute roll src st = do {
     (report, st') \<leftarrow> recompute_report roll src st;
     Some (rep_changes report, st')
   }"

section \<open>Synchronisation\<close>

record StatsSync =
  sync_changes :: StatChangeSet
  stat_deltas :: "StatDelta list"
  sync_public_state :: "ActorPublicState option"

record BootstrapStatsSync =
  boot_changes :: StatChangeSet
  stat_snapshot :: StatSnapshot
  boot_public_state :: ActorPublicState

definition public_stats_changed :: "StatChangeSet \<Rightarrow> bool" where
  "public_stats_changed c \<longleftrightarrow> cs_contains c Level \<or> cs_contains c MovSpeed \<or> cs_contains c AttSpeed"

definition delta_of :: "('src, 'det) ActorStatState \<Rightarrow> Stat \<Rightarrow> StatDelta" where
  "delta_of st s = \<lparr>delta_stat = s, delta_value = read_wire_compatible_value st s\<rparr>"

definition build_sync ::
  "ActorStatSource \<Rightarrow> ('src, 'det) ActorStatState \<Rightarrow> StatChangeSet \<Rightarrow> bool \<Rightarrow> StatsSync exec" where
  "build_sync src st c rd = do {
     ps \<leftarrow> (if rd \<or> public_stats_changed c then map_option Some (public_state src st) else Some None);
     Some \<lparr>sync_changes = c, stat_deltas = map (delta_of st) (cs_iter c), sync_public_state = ps\<rparr>
   }"

definition api_sync ::
  "roll \<Rightarrow> ActorStatSource \<Rightarrow> ('src, 'det) ActorStatState \<Rightarrow> (StatsSync \<times> ('src, 'det) ActorStatState) exec" where
  "api_sync roll src st = do {
     (report, st') \<leftarrow> recompute_report roll src st;
     sync \<leftarrow> build_sync src st' (rep_changes report) (rep_runtime_dirty report);
     Some (sync, st')
   }"

definition bootstrap_sync ::
  "roll \<Rightarrow> ActorStatSource \<Rightarrow> ('src, 'det) ActorStatState \<Rightarrow>
   (BootstrapStatsSync \<times> ('src, 'det) ActorStatState) exec" where
  "bootstrap_sync roll src st = do {
     (report, st') \<leftarrow> recompute_report roll src st;
     ps \<leftarrow> public_state src st';
     Some (\<lparr>boot_changes = rep_changes report, stat_snapshot = snapshot_from_state st',
            boot_public_state = ps\<rparr>, st')
   }"

definition sync_if_dirty ::
  "roll \<Rightarrow> ActorStatSource \<Rightarrow> ('src, 'det) ActorStatState \<Rightarrow> (StatsSync \<times> ('src, 'det) ActorStatState) exec" where
  "sync_if_dirty roll src st = do {
     (c, rd, st') \<leftarrow>
       (if is_dirty st
        then do { (report, st') \<leftarrow> recompute_report roll src st;
                  Some (rep_changes report, rep_runtime_dirty report, st') }
        else Some (cs_default, False, st));
     sync \<leftarrow> build_sync src st' c rd;
     Some (sync, st')
   }"

section \<open>The runtime: pending synchronisation\<close>

record PendingPlayerStatsSync =
  pend_stats :: PointValueStore
  pend_changed :: StatChangeSet
  pend_public_state :: "ActorPublicState option"

record DrainedPlayerStatsSync =
  drained_deltas :: "StatDelta list"
  drained_public_state :: "ActorPublicState option"

definition pending_default :: PendingPlayerStatsSync where
  "pending_default = \<lparr>pend_stats = pvs_new, pend_changed = cs_default, pend_public_state = None\<rparr>"

definition merge_delta :: "PendingPlayerStatsSync \<Rightarrow> StatDelta \<Rightarrow> PendingPlayerStatsSync" where
  "merge_delta p d =
    p\<lparr>pend_stats := pvs_set (pend_stats p) (delta_stat d) (delta_value d),
      pend_changed := cs_insert (delta_stat d) (pend_changed p)\<rparr>"

definition pending_merge :: "PendingPlayerStatsSync \<Rightarrow> StatsSync \<Rightarrow> PendingPlayerStatsSync" where
  "pending_merge p sync =
    (let p1 = foldl merge_delta p (stat_deltas sync)
     in case sync_public_state sync of None \<Rightarrow> p1 | Some u \<Rightarrow> p1\<lparr>pend_public_state := Some u\<rparr>)"

definition pending_drain :: "PendingPlayerStatsSync \<Rightarrow> DrainedPlayerStatsSync \<times> PendingPlayerStatsSync" where
  "pending_drain p =
    (\<lparr>drained_deltas =
        map (\<lambda>s. \<lparr>delta_stat = s, delta_value = pvs_get (pend_stats p) s\<rparr>) (cs_iter (pend_changed p)),
      drained_public_state = pend_public_state p\<rparr>, pending_default)"

definition drained_is_empty :: "DrainedPlayerStatsSync \<Rightarrow> bool" where
  "drained_is_empty d \<longleftrightarrow> drained_deltas d = [] \<and> drained_public_state d = None"

record ActorStatsRuntime =
  rt_source :: ActorStatSource
  rt_state :: "(unit, unit) ActorStatState"
  rt_pending :: PendingPlayerStatsSync

definition runtime_new :: "ActorStatSource \<Rightarrow> (unit, unit) ActorStatState \<Rightarrow> ActorStatsRuntime" where
  "runtime_new src st = \<lparr>rt_source = src, rt_state = st, rt_pending = pending_default\<rparr>"

definition with_api_mut ::
  "ActorStatsRuntime \<Rightarrow>
   (ActorStatSource \<Rightarrow> (unit, unit) ActorStatState \<Rightarrow> ('a \<times> (unit, unit) ActorStatState) exec) \<Rightarrow>
   ('a \<times> ActorStatsRuntime) exec" where
  "with_api_mut rt f = do {
     api_new (rt_source rt) (rt_state rt);
     (a, st') \<leftarrow> f (rt_source rt) (rt_state rt);
     Some (a, rt\<lparr>rt_state := st'\<rparr>)
   }"

definition validate_stored_stat :: "ActorStatsRuntime \<Rightarrow> Stat \<Rightarrow> i32 \<Rightarrow> (StatWriteError + unit) exec" where
  "validate_stored_stat rt s v = do {
     api_new (rt_source rt) (rt_state rt);
     (r, _) \<leftarrow> api_set_stored_stat (rt_source rt) (rt_state rt) s v;
     Some r
   }"

definition normalize :: "roll \<Rightarrow> ActorStatsRuntime \<Rightarrow> (StatsSync \<times> ActorStatsRuntime) exec" where
  "normalize roll rt = do {
     (sync, rt') \<leftarrow> with_api_mut rt (sync_if_dirty roll);
     Some (sync, rt'\<lparr>rt_pending := pending_merge (rt_pending rt') sync\<rparr>)
   }"

definition drain_sync :: "roll \<Rightarrow> ActorStatsRuntime \<Rightarrow> (DrainedPlayerStatsSync \<times> ActorStatsRuntime) exec" where
  "drain_sync roll rt = do {
     (_, rt') \<leftarrow> normalize roll rt;
     Some (fst (pending_drain (rt_pending rt')), rt'\<lparr>rt_pending := snd (pending_drain (rt_pending rt'))\<rparr>)
   }"

end
