(* ===== verification/Stats_Recompute.thy ===== *)
theory Stats_Recompute
  imports Stats_Api
begin

text \<open>
  Correctness of recomputation (\<^verbatim>\<open>recompute_report\<close> of \<^verbatim>\<open>stats/game/api.rs\<close>): what the new state and
  the change report are, when it panics, that it is idempotent, that live resources end up
  within their caps, and that the contribution of a modifier bundle is source-scoped.
\<close>

section \<open>What recomputation computes\<close>

definition derived_store :: "roll \<Rightarrow> ActorStatSource \<Rightarrow> ('src, 'det) ActorStatState \<Rightarrow> PointValueStore" where
  "derived_store roll src st = rebuild_derived_state roll st src (seed_rebuild_state st src)"

definition caps_nonneg :: "PointValueStore \<Rightarrow> bool" where
  "caps_nonneg c \<longleftrightarrow> 0 \<le> pvs_get c MaxHp \<and> 0 \<le> pvs_get c MaxSp \<and> 0 \<le> pvs_get c MaxStamina"

lemma rebuild_player_cong:
  "stable_id st = stable_id st' \<Longrightarrow> rebuild_player_state roll c st p = rebuild_player_state roll c st' p"
  by (simp only: rebuild_player_state_def)

lemma derived_store_cong:
  assumes "stable_id st = stable_id st'" and "base st = base st'" and "modifiers st = modifiers st'"
  shows "derived_store roll src st = derived_store roll src st'"
  unfolding derived_store_def rebuild_derived_state_def seed_rebuild_state_def assms
  using rebuild_player_cong [OF assms(1)] by (simp split: ActorStatSource.splits)

lemma resource_changes_set:
  "set (cs_iter (resource_changes a b)) =
    {s. (s = Hp \<and> hp a \<noteq> hp b) \<or> (s = Sp \<and> sp a \<noteq> sp b) \<or> (s = Stamina \<and> stamina a \<noteq> stamina b)}"
  unfolding resource_changes_def insert_resource_changes_def Let_def by auto

lemma diff_store_set: "set (cs_iter (diff_store a b)) = {s. pvs_get a s \<noteq> pvs_get b s}"
proof -
  let ?P = "\<lambda>s. pvs_get a s \<noteq> pvs_get b s"
  have keys: "set (map fst (pvs_iter x)) = {s. pvs_get x s \<noteq> 0}" for x
    unfolding set_map using pvs_iter_keys [of _ x] by blast
  have "set (cs_iter (diff_store a b)) =
    {s \<in> set (map fst (pvs_iter b)). ?P s} \<union> ({s \<in> set (map fst (pvs_iter a)). ?P s} \<union> {})"
    unfolding diff_store_def Let_def set_cs_insert_if by simp
  then show ?thesis unfolding keys by force
qed

lemma merge_changes_set: "set (cs_iter (merge_changes ps)) = (\<Union>p \<in> set ps. set (cs_iter p))"
proof -
  have "set (cs_iter (foldl (\<lambda>c p. foldl (\<lambda>c s. cs_insert s c) c (cs_iter p)) c ps)) =
    (\<Union>p \<in> set ps. set (cs_iter p)) \<union> set (cs_iter c)" for c
    by (induction ps arbitrary: c) auto
  then show ?thesis by (simp add: merge_changes_def)
qed

lemma explicit_state_changes_set: "set (cs_iter (explicit_state_changes ss)) = set ss"
  by (simp add: explicit_state_changes_def)

text \<open>The state a recomputation leaves, given the clamped resources.\<close>

definition recomputed ::
  "roll \<Rightarrow> ActorStatSource \<Rightarrow> ('src, 'det) ActorStatState \<Rightarrow> ActorResources \<Rightarrow> ('src, 'det) ActorStatState" where
  "recomputed roll src st r =
    st\<lparr>computed := derived_store roll src st, resources := r,
       runtime := (runtime st)\<lparr>immune_flags :=
         derive_immune_flags (st\<lparr>computed := derived_store roll src st\<rparr>)\<rparr>,
       explicit_changes := [], dirty := False, runtime_dirty := False\<rparr>"

definition recompute_dirty :: "roll \<Rightarrow> ActorStatSource \<Rightarrow> ('src, 'det) ActorStatState \<Rightarrow> bool" where
  "recompute_dirty roll src st \<longleftrightarrow>
    runtime_dirty st \<or>
    immune_flags (runtime st) \<noteq> derive_immune_flags (st\<lparr>computed := derived_store roll src st\<rparr>)"

lemma recompute_report_eq:
  "recompute_report roll src st =
    (case clamp_to_caps (resources st) (derived_store roll src st) of
       None \<Rightarrow> None
     | Some r \<Rightarrow>
        Some (\<lparr>rep_changes = merge_changes
                 [diff_store (computed st) (derived_store roll src st),
                  resource_changes (resources st) r, explicit_state_changes (explicit_changes st)],
               rep_runtime_dirty = recompute_dirty roll src st\<rparr>, recomputed roll src st r))"
proof -
  have d: "rebuild_derived_state roll (st\<lparr>explicit_changes := []\<rparr>) src
      (seed_rebuild_state (st\<lparr>explicit_changes := []\<rparr>) src) = derived_store roll src st"
    using derived_store_cong [of "st\<lparr>explicit_changes := []\<rparr>" st roll src]
    by (simp add: derived_store_def)
  show ?thesis
    unfolding recompute_report_def take_explicit_changes_def replace_computed_def
      clamp_resources_to_computed_caps_def Let_def fst_conv snd_conv d
    by (auto simp: set_derived_immune_flags_def take_runtime_dirty_def clear_dirty_def
        recomputed_def recompute_dirty_def derive_immune_flags_def split: option.splits)
qed

lemma clamp_defined_iff: "clamp_to_caps r c \<noteq> None \<longleftrightarrow> caps_nonneg c"
  by (auto simp: clamp_to_caps_None_iff caps_nonneg_def)

lemma recompute_succeeds:
  assumes "caps_nonneg (derived_store roll src st)"
  obtains rep st' where "recompute_report roll src st = Some (rep, st')"
  using assms clamp_defined_iff [of "resources st" "derived_store roll src st"]
  unfolding recompute_report_eq by auto

lemma recompute_report_SomeD:
  assumes "recompute_report roll src st = Some (rep, st')"
  obtains r where "clamp_to_caps (resources st) (derived_store roll src st) = Some r"
    and "st' = recomputed roll src st r"
    and "set (cs_iter (rep_changes rep)) =
      {s. pvs_get (computed st) s \<noteq> pvs_get (derived_store roll src st) s} \<union>
      set (cs_iter (resource_changes (resources st) r)) \<union> set (explicit_changes st)"
    and "rep_runtime_dirty rep = recompute_dirty roll src st"
  using assms unfolding recompute_report_eq
  by (auto simp: merge_changes_set diff_store_set explicit_state_changes_set Un_assoc
      split: option.splits)

lemma recomputed_simps [simp]:
  "computed (recomputed roll src st r) = derived_store roll src st"
  "resources (recomputed roll src st r) = r"
  "base (recomputed roll src st r) = base st"
  "progression (recomputed roll src st r) = progression st"
  "stable_id (recomputed roll src st r) = stable_id st"
  "modifiers (recomputed roll src st r) = modifiers st"
  "as_kind (recomputed roll src st r) = as_kind st"
  "explicit_changes (recomputed roll src st r) = []"
  "dirty (recomputed roll src st r) = False"
  "runtime_dirty (recomputed roll src st r) = False"
  by (simp_all add: recomputed_def)

lemma derived_store_recomputed [simp]:
  "derived_store roll src (recomputed roll src st r) = derived_store roll src st"
  by (rule derived_store_cong) simp_all

lemma recomputed_flags [simp]:
  "immune_flags (runtime (recomputed roll src st r)) =
    derive_immune_flags (st\<lparr>computed := derived_store roll src st\<rparr>)"
  by (simp add: recomputed_def)

lemma derive_flags_recomputed [simp]:
  "derive_immune_flags ((recomputed roll src st r)\<lparr>computed := c\<rparr>) = derive_immune_flags (st\<lparr>computed := c\<rparr>)"
  by (simp add: recomputed_def derive_immune_flags_def)

lemma recomputed_again: "recomputed roll src (recomputed roll src st r) r = recomputed roll src st r"
proof -
  have "recomputed roll src (recomputed roll src st r) r =
      (recomputed roll src st r)\<lparr>computed := computed (recomputed roll src st r),
        resources := resources (recomputed roll src st r),
        runtime := (runtime (recomputed roll src st r))\<lparr>immune_flags :=
          immune_flags (runtime (recomputed roll src st r))\<rparr>,
        explicit_changes := explicit_changes (recomputed roll src st r),
        dirty := dirty (recomputed roll src st r),
        runtime_dirty := runtime_dirty (recomputed roll src st r)\<rparr>"
    by (subst recomputed_def) (simp only: derived_store_recomputed recomputed_simps
        recomputed_flags derive_flags_recomputed)
  then show ?thesis by simp
qed

text \<open>
  C2. Recomputation panics exactly when one of the three capacities it derives is negative: the clamp of
  the live resources then gets an empty range.  Otherwise it succeeds.
\<close>

theorem recompute_panics_iff:
  "recompute_report roll src st = None \<longleftrightarrow> \<not> caps_nonneg (derived_store roll src st)"
  unfolding recompute_report_eq clamp_defined_iff [symmetric, of _ "resources st"] by (simp split: option.splits)

text \<open>
  After a recomputation every live resource lies between zero and its freshly computed cap, the
  pending recovery buckets are untouched, the computed store is the one derived from base stats,
  source and modifiers, and nothing is left dirty.
\<close>

theorem recompute_resources_within_caps:
  assumes "recompute_report roll src st = Some (rep, st')"
  shows "computed st' = rebuild_derived_state roll st src (seed_rebuild_state st src) \<and>
    0 \<le> hp (resources st') \<and> hp (resources st') \<le> pvs_get (computed st') MaxHp \<and>
    0 \<le> sp (resources st') \<and> sp (resources st') \<le> pvs_get (computed st') MaxSp \<and>
    0 \<le> stamina (resources st') \<and> stamina (resources st') \<le> pvs_get (computed st') MaxStamina \<and>
    hp_recovery (resources st') = hp_recovery (resources st) \<and>
    sp_recovery (resources st') = sp_recovery (resources st) \<and>
    \<not> is_dirty st' \<and> explicit_changes st' = []"
proof -
  from assms obtain r where r: "clamp_to_caps (resources st) (derived_store roll src st) = Some r"
    and st': "st' = recomputed roll src st r"
    by (rule recompute_report_SomeD)
  have "computed st' = rebuild_derived_state roll st src (seed_rebuild_state st src)"
    using st' by (simp add: derived_store_def)
  moreover have "\<not> is_dirty st' \<and> explicit_changes st' = []"
    using st' by (simp add: is_dirty_def)
  ultimately show ?thesis using st' clamp_to_caps_Some [OF r] by simp
qed

text \<open>
  Recomputation is deterministic and idempotent: running it again on the state it left changes nothing,
  reports no changed stat and no runtime change.
\<close>

theorem recompute_idempotent:
  assumes "recompute_report roll src st = Some (rep, st')"
  shows "\<exists>rep'. recompute_report roll src st' = Some (rep', st') \<and>
    cs_iter (rep_changes rep') = [] \<and> \<not> rep_runtime_dirty rep'"
proof -
  from assms obtain r where r: "clamp_to_caps (resources st) (derived_store roll src st) = Some r"
    and st': "st' = recomputed roll src st r"
    by (rule recompute_report_SomeD)
  have "recompute_report roll src st' =
      Some (\<lparr>rep_changes = merge_changes [diff_store (computed st') (computed st'),
                  resource_changes r r, explicit_state_changes []],
             rep_runtime_dirty = recompute_dirty roll src st'\<rparr>, st')"
    unfolding recompute_report_eq st' using clamp_to_caps_idem [OF r]
    by (simp add: recomputed_again)
  moreover have "\<not> recompute_dirty roll src st'"
    unfolding st' by (simp add: recompute_dirty_def)
  moreover have "set (cs_iter (merge_changes [diff_store (computed st') (computed st'),
                  resource_changes r r, explicit_state_changes []])) = {}"
    by (simp add: merge_changes_set diff_store_set resource_changes_set explicit_state_changes_set)
  ultimately show ?thesis by (simp only: set_empty) simp
qed

section \<open>Stats the derivation leaves alone\<close>

text \<open>
  The two rebuild functions are long chains of \<^verbatim>\<open>let\<close> and \<^verbatim>\<open>set\<close>.  Facts about them go through
  introduction rules that walk the chain, so no proof unfolds it.
\<close>

definition agree_off :: "Stat set \<Rightarrow> PointValueStore \<Rightarrow> PointValueStore \<Rightarrow> bool" where
  "agree_off T a b \<longleftrightarrow> (\<forall>s. s \<notin> T \<longrightarrow> pvs_get a s = pvs_get b s)"

definition derived_stats :: "Stat set" where
  "derived_stats = {MaxHp, MaxSp, MaxStamina, MovSpeed, AttSpeed, CastingSpeed, AttGrade, DefGrade,
                    DisplayedDefGrade, MagicAttGrade, MagicDefGrade}"

lemma agree_refl: "agree_off T a a"
  by (simp add: agree_off_def)

lemma agree_set: "x \<in> T \<Longrightarrow> agree_off T a b \<Longrightarrow> agree_off T (pvs_set a x v) b"
  by (auto simp: agree_off_def pvs_get_set)

lemma agree_let_store:
  fixes A :: PointValueStore
  shows "agree_off T A c \<Longrightarrow> (\<And>x. agree_off T x c \<Longrightarrow> agree_off T (B x) c) \<Longrightarrow> agree_off T (let x = A in B x) c"
  by simp

lemma agree_let: "(\<And>x. agree_off T (B x) c) \<Longrightarrow> agree_off T (let x = A in B x) c"
  by simp

lemma agree_capacity:
  "cap_stat r \<in> T \<Longrightarrow> agree_off T a b \<Longrightarrow> agree_off T (set_player_resource_capacity a p r v) b"
  unfolding set_player_resource_capacity_def by (rule agree_set)

lemmas agree_intros = agree_let_store agree_let agree_set agree_capacity agree_refl

lemma rebuild_player_agree: "agree_off derived_stats (rebuild_player_state roll c st p) c"
  unfolding rebuild_player_state_def
  by (intro agree_intros; (assumption | simp add: derived_stats_def))

lemma rebuild_mob_agree: "agree_off derived_stats (rebuild_mob_state c m) c"
  unfolding rebuild_mob_state_def
  by (intro agree_intros; (assumption | simp add: derived_stats_def))

lemma rebuild_derived_other:
  "s \<notin> derived_stats \<Longrightarrow> pvs_get (rebuild_derived_state roll st src c) s = pvs_get c s"
  by (cases src)
    (simp_all add: rebuild_derived_state_def rebuild_mob_agree [unfolded agree_off_def, rule_format]
      rebuild_player_agree [unfolded agree_off_def, rule_format])

section \<open>The capacities the derivation computes\<close>

lemma get_capacity:
  "pvs_get (set_player_resource_capacity c p r v) s =
    (if s = cap_stat r then player_capacity c p r v else pvs_get c s)"
  by (simp add: set_player_resource_capacity_def pvs_get_set)

lemma capacity_reads_bonuses [simp]:
  "player_capacity (set_player_resource_capacity c p r' v') q r v = player_capacity c q r v"
  by (cases r; cases r') (simp_all add: player_capacity_def optional_stat_value_def get_capacity)

lemma rebuild_player_caps:
  "pvs_get (rebuild_player_state roll c st player) MaxHp =
     player_capacity c player CapHp
       (i32_add (i32_add (base_max_hp (ps_resources player))
         (case stable_id st of None \<Rightarrow> 0 | Some sid \<Rightarrow> random_hp roll (ps_growth player) sid (pvs_get c Level)))
         (i32_mul (pvs_get c Ht) (hp_per_ht (ps_resources player))))"
  "pvs_get (rebuild_player_state roll c st player) MaxSp =
     player_capacity c player CapSp
       (i32_add (i32_add (base_max_sp (ps_resources player))
         (case stable_id st of None \<Rightarrow> 0 | Some sid \<Rightarrow> random_sp roll (ps_growth player) sid (pvs_get c Level)))
         (i32_mul (pvs_get c Iq) (sp_per_iq (ps_resources player))))"
  "pvs_get (rebuild_player_state roll c st player) MaxStamina =
     player_capacity c player CapStamina
       (i32_add (i32_add (base_max_stamina (ps_resources player))
         (case stable_id st of None \<Rightarrow> 0 | Some sid \<Rightarrow> random_stamina roll (ps_growth player) sid (pvs_get c Level)))
         (i32_mul (pvs_get c Ht) (stamina_per_ht (ps_resources player))))"
  by (simp_all only: rebuild_player_state_def Let_def pvs_get_set get_capacity cap_stat.simps Stat.simps
      if_False if_True capacity_reads_bonuses) (simp_all split: option.splits)

section \<open>The type invariant of the stores\<close>

lemma i32_let_store:
  fixes A :: PointValueStore
  shows "store_i32 A \<Longrightarrow> (\<And>x. store_i32 x \<Longrightarrow> store_i32 (B x)) \<Longrightarrow> store_i32 (let x = A in B x)"
  by simp

lemma i32_let: "(\<And>x. store_i32 (B x)) \<Longrightarrow> store_i32 (let x = A in B x)"
  by simp

lemma i32_let_wrapped:
  "(\<And>x. in_i32 x \<Longrightarrow> store_i32 (B x)) \<Longrightarrow> store_i32 (let x = wrap_s 32 a in B x)"
  by simp

lemma i32_capacity: "store_i32 c \<Longrightarrow> store_i32 (set_player_resource_capacity c p r v)"
  unfolding set_player_resource_capacity_def player_capacity_def Let_def
  by (rule store_i32_set) simp_all

lemmas i32_intros = i32_let_store i32_let_wrapped i32_let store_i32_set i32_capacity

lemma rebuild_player_i32 [rust_range]: "store_i32 c \<Longrightarrow> store_i32 (rebuild_player_state roll c st p)"
  unfolding rebuild_player_state_def by (intro i32_intros; (assumption | simp))

lemma rebuild_mob_i32 [rust_range]: "store_i32 c \<Longrightarrow> store_i32 (rebuild_mob_state c m)"
  unfolding rebuild_mob_state_def by (intro i32_intros; (assumption | simp))

lemma seed_modifier_i32: "store_i32 c \<Longrightarrow> store_i32 (foldl seed_modifier c ms)"
  by (induction ms arbitrary: c) (simp_all add: seed_modifier_def store_i32_add)

lemma seed_i32: "store_i32 (base st) \<Longrightarrow> store_i32 (seed_rebuild_state st src)"
  unfolding seed_rebuild_state_def apply_source_seed_def
  by (auto intro!: seed_modifier_i32 store_i32_add split: option.splits)

lemma derived_i32: "store_i32 (base st) \<Longrightarrow> store_i32 (derived_store roll src st)"
  unfolding derived_store_def rebuild_derived_state_def
  by (auto simp: seed_i32 rebuild_player_i32 rebuild_mob_i32 split: ActorStatSource.splits)

section \<open>Modifier contributions\<close>

lemma seed_modifiers_get:
  "in_i32 (pvs_get c s) \<Longrightarrow>
   pvs_get (foldl seed_modifier c ms) s =
     (if accepts_source_contribution s then wrap_s 32 (pvs_get c s + bundle_total ms s) else pvs_get c s)"
proof (induction ms arbitrary: c)
  case Nil
  then show ?case by (simp add: wrap_i32_id)
next
  case (Cons m ms)
  have "in_i32 (pvs_get (seed_modifier c m) s)"
    using Cons.prems by (simp add: seed_modifier_def pvs_get_add)
  note IH = Cons.IH [OF this]
  show ?case
  proof (cases "accepts_source_contribution s")
    case True
    then show ?thesis
      unfolding foldl_Cons IH
      by (auto simp: seed_modifier_def pvs_get_add bundle_total_def add.assoc)
  next
    case False
    then show ?thesis
      unfolding foldl_Cons IH by (auto simp: seed_modifier_def pvs_get_add)
  qed
qed

lemma seed_depends_on_totals:
  assumes "store_i32 (base st)" and "base st' = base st"
    and "\<And>s. bundle_total (ledger_iter (modifiers st')) s = bundle_total (ledger_iter (modifiers st)) s"
  shows "seed_rebuild_state st' src = seed_rebuild_state st src"
proof (rule pvs_ext)
  fix s
  have "store_i32 (apply_source_seed (base st) src)"
    using assms(1) by (auto simp: apply_source_seed_def intro!: store_i32_add split: option.splits)
  then have "in_i32 (pvs_get (apply_source_seed (base st) src) s)"
    by (rule store_i32D)
  then show "pvs_get (seed_rebuild_state st' src) s = pvs_get (seed_rebuild_state st src) s"
    unfolding seed_rebuild_state_def assms(2) by (simp add: seed_modifiers_get assms(3))
qed

text \<open>
  A stat that only accumulates modifiers (role \<open>ModifierAccumulator\<close>) is, after recomputation, the
  base value plus the ledger's total for that stat, with the wrap-around of i32; so what the seed
  loop adds is exactly \<open>total_for_stat\<close>, whatever the order of sources and modifiers.
\<close>

theorem accumulator_is_base_plus_total:
  assumes "recompute_report roll src st = Some (rep, st')"
    and "store_i32 (base st)" and "role s = ModifierAccumulator"
  shows "pvs_get (computed st') s = wrap_s 32 (pvs_get (base st) s + total_for_stat (modifiers st) s)"
proof -
  have s: "accepts_source_contribution s" "s \<notin> derived_stats" "s \<notin> {Level, St, Ht, Dx, Iq}"
    using assms(3) by (cases s; simp add: role_def accepts_source_contribution_def
        contribution_kind_def derived_stats_def)+
  from assms(1) obtain r where "st' = recomputed roll src st r"
    by (rule recompute_report_SomeD)
  then have "pvs_get (computed st') s = pvs_get (seed_rebuild_state st src) s"
    using s(2) by (simp add: derived_store_def rebuild_derived_other)
  also have "\<dots> = wrap_s 32 (pvs_get (apply_source_seed (base st) src) s +
      bundle_total (ledger_iter (modifiers st)) s)"
  proof -
    have "in_i32 (pvs_get (apply_source_seed (base st) src) s)"
      using assms(2) s(3) by (auto simp: apply_source_seed_def pvs_get_add store_i32D split: option.splits)
    then show ?thesis using s(1) by (simp add: seed_rebuild_state_def seed_modifiers_get)
  qed
  also have "pvs_get (apply_source_seed (base st) src) s = pvs_get (base st) s"
    using s(3) by (auto simp: apply_source_seed_def pvs_get_add split: option.splits)
  finally show ?thesis by (simp add: total_for_stat_eq)
qed

text \<open>
  C12. Modifier bundles are source-scoped and removable: a source that contributes nothing, whose bundle is
  installed and then removed again, leaves the ledger, and so every recomputed stat, as they were.
\<close>

theorem bundle_install_remove_roundtrip:
  assumes "ledger_wf (modifiers st)" and "ledger_of_source (modifiers st) src = []"
    and "replace_source_bundle st src c = (Inr (), st1)"
    and "remove_source_bundle st1 src = st2"
  shows "modifiers st2 = modifiers st \<and>
    rebuild_derived_state roll st2 source (seed_rebuild_state st2 source) =
    rebuild_derived_state roll st source (seed_rebuild_state st source)"
proof -
  let ?ms = "map (compiled_modifier_to_instance src) (modifiers_of c)"
  from assms(3) have st1: "st1 = replace_modifier_source st src ?ms"
    by (auto simp: replace_source_bundle_def split: sum.splits)
  have st2: "st2 = (snd (remove_modifier_source st1 src))"
    using assms(4) by (simp add: remove_source_bundle_def)
  have m: "modifiers st2 = modifiers st"
    using assms(1,2) unfolding st2 st1
    by (simp add: remove_modifier_source_def replace_modifier_source_def Let_def remove_replace
        remove_absent_source)
  have "base st2 = base st" and "stable_id st2 = stable_id st"
    unfolding st2 st1 by (simp_all add: remove_modifier_source_def replace_modifier_source_def Let_def)
  then have "derived_store roll source st2 = derived_store roll source st"
    using m by (intro derived_store_cong)
  with m show ?thesis by (simp add: derived_store_def)
qed

end
