(* ===== verification/Stats_Sync.thy ===== *)
theory Stats_Sync
  imports Stats_Recompute
begin

text \<open>
  Correctness of the synchronisation protocol of \<^verbatim>\<open>stats/game/api.rs\<close>: between two drains a client's copy
  of the stats may lag, but the explicit change set and the report of the recomputation together
  name every stat whose wire value moved, so applying the drained deltas makes the copy exact.
  The mutating methods of the API are a step relation, and the claim is an invariant of its runs.
\<close>

section \<open>The state invariant\<close>

definition state_inv :: "('src::linorder, 'det) ActorStatState \<Rightarrow> bool" where
  "state_inv st \<longleftrightarrow>
    bs_wf (explicit_changes st) \<and> ledger_wf (modifiers st) \<and>
    (explicit_changes st \<noteq> [] \<longrightarrow> dirty st) \<and>
    pvs_get (base st) Exp = clamp_u32_to_i32 (exp_in_level (progression st)) \<and>
    pvs_get (base st) NextExp = clamp_u32_to_i32 (next_exp_in_level (progression st))"

text \<open>A client copy \<open>m\<close> is accounted for when it is right about every stat not marked as changed.\<close>

definition accounted :: "(Stat \<Rightarrow> i32) \<Rightarrow> ('src, 'det) ActorStatState \<Rightarrow> bool" where
  "accounted m st \<longleftrightarrow> (\<forall>s. s \<notin> set (explicit_changes st) \<longrightarrow> m s = read_wire_compatible_value st s)"

lemma state_inv_new: "state_inv (state_new k)"
  by (simp add: state_inv_def state_new_def progression_default_def progression_new_def
      clamp_u32_to_i32_def wrap_i32_id in_i32_iff)

lemma read_effective_if:
  "read_effective_value st s =
    (case resource_slot (resources st) s of Some v \<Rightarrow> v | None \<Rightarrow> pvs_get (computed st) s)"
  by (cases s) (simp_all add: read_effective_value_def resource_slot_def)

lemma read_wire_if:
  "read_wire_compatible_value st s =
    (if s = Exp then clamp_u32_to_i32 (exp_in_level (progression st))
     else if s = NextExp then clamp_u32_to_i32 (next_exp_in_level (progression st))
     else if s \<in> {Level, Gold} then pvs_get (base st) s
     else case resource_slot (resources st) s of Some v \<Rightarrow> v | None \<Rightarrow> pvs_get (computed st) s)"
  by (simp add: read_wire_compatible_value_def read_effective_if)

text \<open>Preservation follows from this shape of step: the computed store is untouched, and whatever
  else changed is in the new change set.\<close>

lemma accountedI:
  assumes "accounted m st" and "computed st' = computed st"
    and "set (explicit_changes st) \<subseteq> set (explicit_changes st')"
    and "\<And>s. s \<notin> set (explicit_changes st') \<Longrightarrow> pvs_get (base st') s = pvs_get (base st) s"
    and "\<And>s. s \<notin> set (explicit_changes st') \<Longrightarrow>
      resource_slot (resources st') s = resource_slot (resources st) s"
    and "state_inv st" and "state_inv st'"
  shows "accounted m st'"
  unfolding accounted_def
proof (intro allI impI)
  fix s
  assume s: "s \<notin> set (explicit_changes st')"
  then have "m s = read_wire_compatible_value st s"
    using assms(1,3) by (auto simp: accounted_def)
  also have "\<dots> = read_wire_compatible_value st' s"
    using assms(2) assms(4,5) [OF s] assms(6,7)
    by (cases "resource_slot (resources st) s") (auto simp: read_wire_if state_inv_def)
  finally show "m s = read_wire_compatible_value st' s" .
qed

section \<open>Single setters keep the invariant\<close>

lemma set_resource_stat_keeps:
  assumes "state_inv st" and "set_resource_stat st s v = (r, st')"
  shows "state_inv st'" and "accounted m st \<Longrightarrow> accounted m st'"
proof -
  have eq: "st' = st \<or> (resource_slot (resources st) s \<noteq> None \<and>
      st' = record_explicit_change s (st\<lparr>resources := resource_put (resources st) s v\<rparr>))"
    using assms(2) by (auto simp: set_resource_stat_def split: option.splits if_splits)
  then show inv: "state_inv st'"
    using assms(1) by (auto simp: state_inv_def record_explicit_change_def)
  from eq show "accounted m st'" if m: "accounted m st"
  proof
    assume "st' = st" then show ?thesis using m by simp
  next
    assume *: "resource_slot (resources st) s \<noteq> None \<and>
      st' = record_explicit_change s (st\<lparr>resources := resource_put (resources st) s v\<rparr>)"
    show ?thesis
      by (rule accountedI [OF m _ _ _ _ assms(1) inv])
        (use * in \<open>auto simp: record_explicit_change_def resource_slot_put\<close>)
  qed
qed

lemma actor_set_stored_stat_keeps:
  assumes "state_inv st" and "actor_set_stored_stat st s v = (r, st')"
  shows "state_inv st'" and "accounted m st \<Longrightarrow> accounted m st'"
proof -
  have eq: "st' = st \<or> (s \<notin> {Exp, NextExp} \<and>
      st' = record_explicit_change s (st\<lparr>base := pvs_set (base st) s v\<rparr>))"
    using assms(2) by (auto simp: actor_set_stored_stat_def split: if_splits)
  then show inv: "state_inv st'"
    using assms(1) by (auto simp: state_inv_def record_explicit_change_def pvs_get_set)
  from eq show "accounted m st'" if m: "accounted m st"
  proof
    assume "st' = st" then show ?thesis using m by simp
  next
    assume *: "s \<notin> {Exp, NextExp} \<and> st' = record_explicit_change s (st\<lparr>base := pvs_set (base st) s v\<rparr>)"
    show ?thesis
      by (rule accountedI [OF m _ _ _ _ assms(1) inv])
        (use * in \<open>auto simp: record_explicit_change_def pvs_get_set\<close>)
  qed
qed

lemma set_progression_shape:
  fixes st :: "('src::linorder, 'det) ActorStatState" and p :: PlayerProgressionState
  defines "st' \<equiv> actor_set_player_progression st p"
  shows "progression st' = normalized p" "computed st' = computed st" "resources st' = resources st"
    "modifiers st' = modifiers st" "stable_id st' = stable_id st" "as_kind st' = as_kind st"
    "runtime st' = runtime st" "runtime_dirty st' = runtime_dirty st"
    "pvs_get (base st') s =
      (if s = LevelStep then level_step (normalized p)
       else if s = NextExp then clamp_u32_to_i32 (next_exp_in_level p)
       else if s = Exp then clamp_u32_to_i32 (exp_in_level p)
       else if s = Level then pp_level (normalized p) else pvs_get (base st) s)"
    "set (explicit_changes st') = set (explicit_changes st) \<union> {s. pvs_get (base st') s \<noteq> pvs_get (base st) s}"
    "dirty st' \<longleftrightarrow> dirty st \<or> (\<exists>s. pvs_get (base st') s \<noteq> pvs_get (base st) s)"
    "bs_wf (explicit_changes st) \<Longrightarrow> bs_wf (explicit_changes st')"
proof -
  note defs = st'_def actor_set_player_progression_def Let_def
  show "progression st' = normalized p" "computed st' = computed st" "resources st' = resources st"
    "modifiers st' = modifiers st" "stable_id st' = stable_id st" "as_kind st' = as_kind st"
    "runtime st' = runtime st" "runtime_dirty st' = runtime_dirty st"
    by (simp_all add: defs)
  have b: "pvs_get (base st') t =
      (if t = LevelStep then level_step (normalized p)
       else if t = NextExp then clamp_u32_to_i32 (next_exp_in_level p)
       else if t = Exp then clamp_u32_to_i32 (exp_in_level p)
       else if t = Level then pp_level (normalized p) else pvs_get (base st) t)" for t
    by (simp add: defs base_projection_base normalized_def)
  then show "pvs_get (base st') s =
      (if s = LevelStep then level_step (normalized p)
       else if s = NextExp then clamp_u32_to_i32 (next_exp_in_level p)
       else if s = Exp then clamp_u32_to_i32 (exp_in_level p)
       else if s = Level then pp_level (normalized p) else pvs_get (base st) s)" .
  have e: "{s. pvs_get (base st') s \<noteq> pvs_get (base st) s} =
      {s. s = Level \<and> pvs_get (base st) Level \<noteq> pp_level (normalized p)} \<union>
      {s. s = Exp \<and> pvs_get (base st) Exp \<noteq> clamp_u32_to_i32 (exp_in_level p)} \<union>
      {s. s = NextExp \<and> pvs_get (base st) NextExp \<noteq> clamp_u32_to_i32 (next_exp_in_level p)} \<union>
      {s. s = LevelStep \<and> pvs_get (base st) LevelStep \<noteq> level_step (normalized p)}"
    unfolding b by auto
  show "set (explicit_changes st') = set (explicit_changes st) \<union> {s. pvs_get (base st') s \<noteq> pvs_get (base st) s}"
    unfolding e by (auto simp: defs base_projection_changes base_projection_base normalized_def)
  have "dirty st' \<longleftrightarrow> dirty st \<or> {s. pvs_get (base st') s \<noteq> pvs_get (base st) s} \<noteq> {}"
    unfolding e by (auto simp: defs base_projection_dirty base_projection_base normalized_def)
  then show "dirty st' \<longleftrightarrow> dirty st \<or> (\<exists>s. pvs_get (base st') s \<noteq> pvs_get (base st) s)" by blast
  show "bs_wf (explicit_changes st) \<Longrightarrow> bs_wf (explicit_changes st')"
    by (simp add: defs base_projection_wf)
qed

lemma set_progression_keeps:
  assumes "state_inv st"
  shows "state_inv (actor_set_player_progression st p)"
    and "accounted m st \<Longrightarrow> accounted m (actor_set_player_progression st p)"
proof -
  let ?st' = "actor_set_player_progression st p"
  note sh = set_progression_shape [of st p]
  have d: "dirty ?st'" if "explicit_changes ?st' \<noteq> []"
  proof -
    from that have "set (explicit_changes ?st') \<noteq> {}" by simp
    then show ?thesis
      using assms unfolding sh(10,11) by (auto simp: state_inv_def)
  qed
  show inv: "state_inv ?st'"
    using assms d sh(1,4,9,12) by (simp add: state_inv_def normalized_def)
  show "accounted m ?st'" if m: "accounted m st"
    by (rule accountedI [OF m _ _ _ _ assms inv]) (auto simp: sh(2,3,10))
qed

section \<open>The API as a step relation\<close>

text \<open>
  One rule per method of \<^verbatim>\<open>GameStatsApi\<close> that changes the state and leaves it to a later synchronisation to report
  the change; calls that fail with an error are steps too.  The four methods that report it at once are \<open>take_step\<close> below.
\<close>

inductive api_step ::
  "ActorStatSource \<Rightarrow> ('src::linorder, 'det) ActorStatState \<Rightarrow> ('src, 'det) ActorStatState \<Rightarrow> bool"
  for src :: ActorStatSource where
  stored: "api_set_stored_stat src st s v = Some (r, st') \<Longrightarrow> api_step src st st'"
| progression: "api_step src st (actor_set_player_progression st p)"
| stable_id: "api_step src st (actor_set_stable_id st sid)"
| set_res: "set_resource st s v = Some (r, st') \<Longrightarrow> api_step src st st'"
| change_res: "change_resource st s d = Some (r, st') \<Longrightarrow> api_step src st st'"
| apply_res: "apply_resource st a = Some (res, st') \<Longrightarrow> api_step src st st'"
| queue: "queue_recovery st s amount = (q, st') \<Longrightarrow> api_step src st st'"
| queue_auto: "queue_auto_recovery st s amount = (q, st') \<Longrightarrow> api_step src st st'"
| pending: "apply_pending_recovery st s amount = Some (res, st') \<Longrightarrow> api_step src st st'"
| put_bundle: "replace_source_bundle st k c = (b, st') \<Longrightarrow> api_step src st st'"
| drop_bundle: "api_step src st (remove_source_bundle st k)"
| immune: "api_step src st (actor_set_external_immune_flags st f)"

definition keeps :: "('src::linorder, 'det) ActorStatState \<Rightarrow> ('src, 'det) ActorStatState \<Rightarrow> bool" where
  "keeps st st' \<longleftrightarrow>
    (state_inv st \<longrightarrow> state_inv st' \<and> (\<forall>m. accounted m st \<longrightarrow> accounted m st')) \<and>
    as_kind st' = as_kind st"

lemma keeps_refl [simp]: "keeps st st"
  by (simp add: keeps_def)

lemma keeps_trans: "keeps a b \<Longrightarrow> keeps b c \<Longrightarrow> keeps a c"
  by (simp add: keeps_def)

lemma keeps_resource_stat: "set_resource_stat st s v = (r, st') \<Longrightarrow> keeps st st'"
proof -
  assume eq: "set_resource_stat st s v = (r, st')"
  then have "as_kind st' = as_kind st"
    by (auto simp: set_resource_stat_def record_explicit_change_def split: option.splits if_splits)
  with set_resource_stat_keeps [OF _ eq] show ?thesis unfolding keeps_def by blast
qed

lemma keeps_put: "put_resource st s v = Some st' \<Longrightarrow> keeps st st'"
  unfolding put_resource_def by (auto intro: keeps_resource_stat split: prod.splits sum.splits)

lemma keeps_stored: "actor_set_stored_stat st s v = (r, st') \<Longrightarrow> keeps st st'"
proof -
  assume eq: "actor_set_stored_stat st s v = (r, st')"
  then have "as_kind st' = as_kind st"
    by (auto simp: actor_set_stored_stat_def record_explicit_change_def split: if_splits)
  with actor_set_stored_stat_keeps [OF _ eq] show ?thesis unfolding keeps_def by blast
qed

lemma case_sum_eqE:
  assumes "(case x of Inl a \<Rightarrow> f a | Inr b \<Rightarrow> g b) = y"
  obtains a where "x = Inl a" "f a = y" | b where "x = Inr b" "g b = y"
  using assms by (cases x) auto

lemma keeps_api_stored: "api_set_stored_stat src st s v = Some (r, st') \<Longrightarrow> keeps st st'"
  unfolding api_set_stored_stat_def
  by (auto simp: bind_eq_Some_conv intro: keeps_stored elim!: case_sum_eqE)

lemma keeps_progression: "keeps st (actor_set_player_progression st p)"
  unfolding keeps_def using set_progression_keeps set_progression_shape(6) by blast

lemma keeps_if_same_view:
  assumes "base st' = base st" and "computed st' = computed st" and "resources st' = resources st"
    and "progression st' = progression st" and "explicit_changes st' = explicit_changes st"
    and "dirty st \<Longrightarrow> dirty st'" and "ledger_wf (modifiers st) \<Longrightarrow> ledger_wf (modifiers st')"
    and "as_kind st' = as_kind st"
  shows "keeps st st'"
proof -
  have "state_inv st'" if "state_inv st" using that assms by (auto simp: state_inv_def)
  moreover have "accounted m st'" if "accounted m st" for m
    using that unfolding accounted_def read_wire_if assms(1-5) .
  ultimately show ?thesis using assms(8) by (simp add: keeps_def)
qed

lemma keeps_set_resource: "set_resource st s v = Some (r, st') \<Longrightarrow> keeps st st'"
  unfolding set_resource_def by (auto simp: bind_eq_Some_conv intro: keeps_put split: sum.splits)

lemma keeps_apply_resource: "apply_resource st a = Some (r, st') \<Longrightarrow> keeps st st'"
  unfolding apply_resource_def
  by (auto simp: bind_eq_Some_conv intro: keeps_put split: sum.splits)

lemma keeps_queue: "queue_recovery st s amount = (q, st') \<Longrightarrow> keeps st st'"
  unfolding queue_recovery_def Let_def
  by (auto intro: keeps_resource_stat split: sum.splits if_splits prod.splits)

lemma keeps_queue_auto: "queue_auto_recovery st s amount = (q, st') \<Longrightarrow> keeps st st'"
  unfolding queue_auto_recovery_def Let_def
  by (auto intro: keeps_resource_stat split: sum.splits if_splits prod.splits)

lemma keeps_pending:
  assumes "apply_pending_recovery st s amount = Some (res, st')"
  shows "keeps st st'"
  using assms unfolding apply_pending_recovery_def Let_def
  by (auto simp: bind_eq_Some_conv elim!: case_sum_eqE split: if_split_asm prod.split_asm
      dest!: keeps_resource_stat keeps_apply_resource)
    (blast intro: keeps_trans)+

lemma api_step_keeps: "api_step src st st' \<Longrightarrow> keeps st st'"
proof (induction rule: api_step.induct)
  case (change_res st s d r st')
  then show ?case
    by (auto simp: change_resource_def intro: keeps_set_resource split: sum.splits)
next
  case (stable_id st sid)
  show ?case
    by (rule keeps_if_same_view) (auto simp: actor_set_stable_id_def)
next
  case (put_bundle st k c b st')
  then show ?case
    by (auto simp: replace_source_bundle_def replace_modifier_source_def intro!: keeps_if_same_view
        split: sum.splits)
next
  case (drop_bundle st k)
  show ?case
    by (rule keeps_if_same_view)
      (auto simp: remove_source_bundle_def remove_modifier_source_def Let_def)
next
  case (immune st f)
  show ?case
    by (rule keeps_if_same_view) (auto simp: actor_set_external_immune_flags_def mark_runtime_dirty_def)
qed (auto intro: keeps_api_stored keeps_progression keeps_set_resource keeps_apply_resource
    keeps_queue keeps_queue_auto keeps_pending)

section \<open>Deltas and the client's copy\<close>

definition apply_deltas :: "(Stat \<Rightarrow> i32) \<Rightarrow> StatDelta list \<Rightarrow> Stat \<Rightarrow> i32" where
  "apply_deltas m ds = foldl (\<lambda>m d. m(delta_stat d := delta_value d)) m ds"

definition overlay :: "(Stat \<Rightarrow> i32) \<Rightarrow> PendingPlayerStatsSync \<Rightarrow> Stat \<Rightarrow> i32" where
  "overlay m p s = (if s \<in> set (cs_iter (pend_changed p)) then pvs_get (pend_stats p) s else m s)"

lemma apply_deltas_map:
  "apply_deltas m (map (\<lambda>s. \<lparr>delta_stat = s, delta_value = f s\<rparr>) ss) s =
   (if s \<in> set ss then f s else m s)"
  unfolding apply_deltas_def by (induction ss arbitrary: m) auto

lemma overlay_merge: "overlay m (pending_merge p sync) = apply_deltas (overlay m p) (stat_deltas sync)"
proof -
  have "overlay m (foldl merge_delta p ds) = apply_deltas (overlay m p) ds" for ds
  proof (induction ds arbitrary: p)
    case Nil
    then show ?case by (simp add: apply_deltas_def)
  next
    case (Cons d ds)
    have "overlay m (merge_delta p d) = (overlay m p)(delta_stat d := delta_value d)"
      by (auto simp: fun_eq_iff overlay_def merge_delta_def pvs_get_set)
    then show ?case using Cons.IH [of "merge_delta p d"] by (simp add: apply_deltas_def del: fun_upd_apply)
  qed
  then have "overlay m (foldl merge_delta p (stat_deltas sync)) = apply_deltas (overlay m p) (stat_deltas sync)" .
  moreover have "overlay m (pending_merge p sync) = overlay m (foldl merge_delta p (stat_deltas sync))"
    by (auto simp: pending_merge_def Let_def overlay_def fun_eq_iff split: option.splits)
  ultimately show ?thesis by simp
qed

lemma overlay_drain: "apply_deltas m (drained_deltas (fst (pending_drain p))) = overlay m p"
  by (auto simp: fun_eq_iff pending_drain_def apply_deltas_map overlay_def)

lemma overlay_default [simp]: "overlay m pending_default = m"
  by (simp add: fun_eq_iff overlay_def pending_default_def)

lemma recompute_keeps_inv:
  assumes "state_inv st" and "recompute_report roll src st = Some (rep, st')"
  shows "state_inv st'"
  using assms by (auto simp: state_inv_def elim!: recompute_report_SomeD)

lemma recompute_exact:
  assumes "accounted m st" and "recompute_report roll src st = Some (rep, st')"
  shows "apply_deltas m (map (delta_of st') (cs_iter (rep_changes rep))) s = read_wire_compatible_value st' s"
proof -
  from assms(2) obtain r where r: "clamp_to_caps (resources st) (derived_store roll src st) = Some r"
    and st': "st' = recomputed roll src st r"
    and ch: "set (cs_iter (rep_changes rep)) =
      {s. pvs_get (computed st) s \<noteq> pvs_get (derived_store roll src st) s} \<union>
      set (cs_iter (resource_changes (resources st) r)) \<union> set (explicit_changes st)"
    by (rule recompute_report_SomeD)
  have "m s = read_wire_compatible_value st' s" if s: "s \<notin> set (cs_iter (rep_changes rep))"
  proof -
    have "resource_slot r s = resource_slot (resources st) s"
      using s ch clamp_to_caps_Some(7,8) [OF r]
      by (auto simp: resource_slot_if resource_changes_set)
    moreover have "m s = read_wire_compatible_value st s"
      using s ch assms(1) by (auto simp: accounted_def)
    ultimately show ?thesis
      using s ch by (cases "resource_slot (resources st) s") (simp_all add: st' read_wire_if)
  qed
  moreover have "delta_of st' = (\<lambda>s. \<lparr>delta_stat = s, delta_value = read_wire_compatible_value st' s\<rparr>)"
    by (simp add: fun_eq_iff delta_of_def)
  ultimately show ?thesis by (simp add: apply_deltas_map)
qed

lemma build_sync_deltas: "build_sync src st c rd = Some sync \<Longrightarrow> stat_deltas sync = map (delta_of st) (cs_iter c)"
  by (auto simp: build_sync_def bind_eq_Some_conv)

lemma sync_if_dirty_exact:
  assumes "state_inv st" and "accounted m st" and "sync_if_dirty roll src st = Some (sync, st')"
  shows "state_inv st'" and "explicit_changes st' = []" and "as_kind st' = as_kind st"
    and "apply_deltas m (stat_deltas sync) s = read_wire_compatible_value st' s"
proof -
  have "state_inv st' \<and> explicit_changes st' = [] \<and> as_kind st' = as_kind st \<and>
    apply_deltas m (stat_deltas sync) s = read_wire_compatible_value st' s"
  proof (cases "is_dirty st")
    case True
    with assms(3) obtain rep where rep: "recompute_report roll src st = Some (rep, st')"
      and b: "build_sync src st' (rep_changes rep) (rep_runtime_dirty rep) = Some sync"
      by (auto simp: sync_if_dirty_def bind_eq_Some_conv split: prod.splits)
    have "explicit_changes st' = [] \<and> as_kind st' = as_kind st"
      using rep by (auto elim: recompute_report_SomeD)
    moreover have "state_inv st'" using assms(1) rep by (rule recompute_keeps_inv)
    moreover have "apply_deltas m (stat_deltas sync) s = read_wire_compatible_value st' s"
      unfolding build_sync_deltas [OF b] using assms(2) rep by (rule recompute_exact)
    ultimately show ?thesis by blast
  next
    case False
    with assms(3) have "st' = st" "stat_deltas sync = []"
      by (auto simp: sync_if_dirty_def bind_eq_Some_conv dest: build_sync_deltas)
    moreover have "explicit_changes st = []"
      using False assms(1) by (auto simp: state_inv_def is_dirty_def)
    ultimately show ?thesis
      using assms(1,2) by (simp add: apply_deltas_def accounted_def)
  qed
  then show "state_inv st'" "explicit_changes st' = []" "as_kind st' = as_kind st"
    "apply_deltas m (stat_deltas sync) s = read_wire_compatible_value st' s" by blast+
qed

section \<open>Runs of the runtime\<close>

text \<open>
  The methods that recompute and hand the changes to their caller: whatever was marked is taken out of the state, and
  only the returned value says what changed.  The set is what it names.
\<close>

inductive take_step ::
  "roll \<Rightarrow> ActorStatSource \<Rightarrow> Stat set \<Rightarrow> ('src::linorder, 'det) ActorStatState \<Rightarrow> ('src, 'det) ActorStatState \<Rightarrow> bool"
  for roll :: roll and src :: ActorStatSource where
  recompute: "recompute roll src st = Some (c, st') \<Longrightarrow> take_step roll src (set (cs_iter c)) st st'"
| sync: "api_sync roll src st = Some (sync, st') \<Longrightarrow> take_step roll src (delta_stat ` set (stat_deltas sync)) st st'"
| bootstrap: "bootstrap_sync roll src st = Some (boot, st') \<Longrightarrow> take_step roll src (set (cs_iter (boot_changes boot))) st st'"
| sync_dirty: "sync_if_dirty roll src st = Some (sync, st') \<Longrightarrow> take_step roll src (delta_stat ` set (stat_deltas sync)) st st'"

lemma deltas_stats: "delta_stat ` set (map (delta_of st) ss) = set ss"
  by (simp add: delta_of_def image_image)

text \<open>Either nothing was marked and nothing happens, or the step is a recomputation that names its changes.\<close>

lemma take_stepE:
  assumes "take_step roll src H st st'"
  obtains (report) rep where "recompute_report roll src st = Some (rep, st')" "H = set (cs_iter (rep_changes rep))"
  | (clean) "st' = st" "H = {}"
  using assms
proof cases
  case (recompute c)
  then show thesis using report by (auto simp: recompute_def bind_eq_Some_conv)
next
  case (sync sy)
  then obtain rep where r: "recompute_report roll src st = Some (rep, st')"
    "build_sync src st' (rep_changes rep) (rep_runtime_dirty rep) = Some sy"
    by (auto simp: api_sync_def bind_eq_Some_conv)
  show thesis by (rule report [OF r(1)]) (simp only: sync(1) build_sync_deltas [OF r(2)] deltas_stats)
next
  case (bootstrap boot)
  then show thesis using report by (auto simp: bootstrap_sync_def bind_eq_Some_conv)
next
  case (sync_dirty sy)
  show thesis
  proof (cases "is_dirty st")
    case True
    then obtain rep where r: "recompute_report roll src st = Some (rep, st')"
      "build_sync src st' (rep_changes rep) (rep_runtime_dirty rep) = Some sy"
      using sync_dirty(2) by (auto simp: sync_if_dirty_def bind_eq_Some_conv split: prod.splits)
    show thesis by (rule report [OF r(1)]) (simp only: sync_dirty(1) build_sync_deltas [OF r(2)] deltas_stats)
  next
    case False
    then have "build_sync src st cs_default False = Some sy" "st' = st"
      using sync_dirty(2) by (auto simp: sync_if_dirty_def bind_eq_Some_conv)
    then show thesis using clean by (simp add: sync_dirty(1) build_sync_deltas [of src st cs_default False sy])
  qed
qed

text \<open>
  A step of the runtime, with the set of stats whose changes it hands to its caller instead of keeping them for the next
  drain; and a run of steps.
\<close>

inductive runtime_step :: "roll \<Rightarrow> Stat set \<Rightarrow> ActorStatsRuntime \<Rightarrow> ActorStatsRuntime \<Rightarrow> bool" for roll :: roll where
  api: "api_step (rt_source rt) (rt_state rt) st' \<Longrightarrow> runtime_step roll {} rt (rt\<lparr>rt_state := st'\<rparr>)"
| take: "take_step roll (rt_source rt) H (rt_state rt) st' \<Longrightarrow> runtime_step roll H rt (rt\<lparr>rt_state := st'\<rparr>)"
| norm: "normalize roll rt = Some (sync, rt') \<Longrightarrow> runtime_step roll {} rt rt'"

inductive runtime_run :: "roll \<Rightarrow> Stat set \<Rightarrow> ActorStatsRuntime \<Rightarrow> ActorStatsRuntime \<Rightarrow> bool" for roll :: roll where
  start: "runtime_run roll {} rt rt"
| more: "runtime_run roll H rt rt1 \<Longrightarrow> runtime_step roll H' rt1 rt2 \<Longrightarrow> runtime_run roll (H \<union> H') rt rt2"

text \<open>
  A client copy \<open>m\<close> is accounted for up to \<open>H\<close>: together with what is pending it is right about every stat that is
  neither marked as changed nor in \<open>H\<close>.
\<close>

definition runtime_accounted :: "Stat set \<Rightarrow> (Stat \<Rightarrow> i32) \<Rightarrow> ActorStatsRuntime \<Rightarrow> bool" where
  "runtime_accounted H m rt \<longleftrightarrow> state_inv (rt_state rt) \<and>
    (\<exists>m'. accounted m' (rt_state rt) \<and> (\<forall>s. s \<notin> H \<longrightarrow> m' s = overlay m (rt_pending rt) s))"

lemma apply_deltas_agree:
  fixes m m' :: "Stat \<Rightarrow> i32"
  assumes "m s = m' s"
  shows "apply_deltas m ds s = apply_deltas m' ds s"
  using assms
proof (induction ds arbitrary: m m')
  case (Cons d ds)
  let ?u = "\<lambda>f :: Stat \<Rightarrow> i32. f(delta_stat d := delta_value d)"
  have "?u m s = ?u m' s" using Cons.prems by simp
  then have "apply_deltas (?u m) ds s = apply_deltas (?u m') ds s" by (rule Cons.IH)
  then show ?case by (simp only: apply_deltas_def foldl.simps)
qed (simp add: apply_deltas_def)

lemma apply_deltas_other: "s \<notin> delta_stat ` set ds \<Longrightarrow> apply_deltas m ds s = m s"
  unfolding apply_deltas_def by (induction ds arbitrary: m) auto

lemma normalize_accounted:
  assumes "runtime_accounted H m rt" and "normalize roll rt = Some (sync, rt')"
  shows "runtime_accounted H m rt'"
    and "s \<notin> H \<Longrightarrow> overlay m (rt_pending rt') s = read_wire_compatible_value (rt_state rt') s"
proof -
  from assms(2) obtain st' where sy: "sync_if_dirty roll (rt_source rt) (rt_state rt) = Some (sync, st')"
    and rt': "rt' = rt\<lparr>rt_state := st', rt_pending := pending_merge (rt_pending rt) sync\<rparr>"
    by (auto simp: normalize_def with_api_mut_def bind_eq_Some_conv split: prod.splits)
  from assms(1) obtain m' where inv: "state_inv (rt_state rt)" "accounted m' (rt_state rt)"
    and agree: "\<And>s. s \<notin> H \<Longrightarrow> m' s = overlay m (rt_pending rt) s" by (auto simp: runtime_accounted_def)
  note ex = sync_if_dirty_exact [OF inv sy]
  have ov: "overlay m (rt_pending rt') t = read_wire_compatible_value (rt_state rt') t" if "t \<notin> H" for t
    using ex(4) [of t] apply_deltas_agree [of m' t "overlay m (rt_pending rt)" "stat_deltas sync"] agree [OF that]
    by (simp add: rt' overlay_merge)
  then show "s \<notin> H \<Longrightarrow> overlay m (rt_pending rt') s = read_wire_compatible_value (rt_state rt') s" .
  have "accounted (read_wire_compatible_value st') st'" by (simp add: accounted_def)
  then show "runtime_accounted H m rt'" using ex(1) ov by (auto simp: runtime_accounted_def rt')
qed

lemma take_accounted:
  assumes "runtime_accounted H m rt" and "take_step roll (rt_source rt) H' (rt_state rt) st'"
  shows "runtime_accounted (H \<union> H') m (rt\<lparr>rt_state := st'\<rparr>)"
  using assms(2)
proof (cases rule: take_stepE)
  case (report rep)
  from assms(1) obtain m' where inv: "state_inv (rt_state rt)" "accounted m' (rt_state rt)"
    and agree: "\<And>s. s \<notin> H \<Longrightarrow> m' s = overlay m (rt_pending rt) s" by (auto simp: runtime_accounted_def)
  have "overlay m (rt_pending rt) s = read_wire_compatible_value st' s" if "s \<notin> H \<union> H'" for s
    using recompute_exact [OF inv(2) report(1), of s] agree [of s] that report(2)
      apply_deltas_other [of s "map (delta_of st') (cs_iter (rep_changes rep))" m'] by (simp add: deltas_stats del: set_map)
  moreover have "accounted (read_wire_compatible_value st') st'" by (simp add: accounted_def)
  ultimately show ?thesis using recompute_keeps_inv [OF inv(1) report(1)] by (auto simp: runtime_accounted_def)
next
  case clean
  then show ?thesis using assms(1) by simp
qed

lemma runtime_step_accounted: "runtime_step roll H' rt rt' \<Longrightarrow> runtime_accounted H m rt \<Longrightarrow> runtime_accounted (H \<union> H') m rt'"
proof (induction rule: runtime_step.induct)
  case (api rt st')
  from api.hyps have "keeps (rt_state rt) st'" by (rule api_step_keeps)
  with api.prems show ?case by (auto simp: runtime_accounted_def keeps_def)
next
  case (take rt H' st')
  then show ?case by (blast intro: take_accounted)
next
  case (norm rt sync rt')
  from norm.prems norm.hyps show ?case using normalize_accounted(1) by simp
qed

lemma runtime_run_accounted: "runtime_run roll H rt rt' \<Longrightarrow> runtime_accounted {} m rt \<Longrightarrow> runtime_accounted H m rt'"
  by (induction rule: runtime_run.induct) (auto intro: runtime_step_accounted)

lemma drain_accounted:
  assumes "runtime_accounted H m rt" and "drain_sync roll rt = Some (d, rt')" and "s \<notin> H"
  shows "apply_deltas m (drained_deltas d) s = read_packet (rt_state rt') s"
proof -
  from assms(2) obtain sync rt1 where n: "normalize roll rt = Some (sync, rt1)"
    and d: "d = fst (pending_drain (rt_pending rt1))"
    and rt': "rt' = rt1\<lparr>rt_pending := pending_default\<rparr>"
    by (auto simp: drain_sync_def bind_eq_Some_conv pending_drain_def split: prod.splits)
  show ?thesis using normalize_accounted(2) [OF assms(1) n assms(3)] by (simp add: d overlay_drain rt' read_packet_def)
qed

text \<open>
  C1. The client does not drift.  A client copy that agreed with the server (nothing pending, nothing marked changed) is
  exact again once the deltas of a drain are applied, after any sequence of API calls and normalisations, for every stat
  whose changes were not handed to a caller: the calls \<^verbatim>\<open>recompute\<close>, \<^verbatim>\<open>sync\<close>, \<^verbatim>\<open>bootstrap_sync\<close> and
  \<^verbatim>\<open>sync_if_dirty\<close> report changes only to their caller, who has to pass them on; the set \<open>H\<close> collects exactly
  the stats they name.  A run without such calls has \<open>H = {}\<close> and the copy is exact for all 47 stats.
\<close>

theorem drained_deltas_are_complete:
  assumes "state_inv (rt_state rt0)" and "explicit_changes (rt_state rt0) = []"
    and "rt_pending rt0 = pending_default"
    and "runtime_run roll H rt0 rt"
    and "drain_sync roll rt = Some (d, rt')" and "s \<notin> H"
  shows "apply_deltas (read_packet (rt_state rt0)) (drained_deltas d) s = read_packet (rt_state rt') s"
proof -
  have "runtime_accounted {} (read_packet (rt_state rt0)) rt0"
    using assms(1-3) by (auto simp: runtime_accounted_def accounted_def read_packet_def)
  with assms(4) have "runtime_accounted H (read_packet (rt_state rt0)) rt"
    by (rule runtime_run_accounted)
  from drain_accounted [OF this assms(5,6)] show ?thesis .
qed

section \<open>Draining never panics on a well-configured actor\<close>

definition limits_ok :: "ActorStatSource \<Rightarrow> bool" where
  "limits_ok src \<longleftrightarrow> (\<forall>s\<in>set all_stats. case view_limit src s of None \<Rightarrow> True | Some m \<Rightarrow> 0 \<le> m)"

lemma limits_okD: "limits_ok src \<Longrightarrow> view_limit src s = Some m \<Longrightarrow> 0 \<le> m"
  unfolding limits_ok_def set_all_stats by (drule bspec [of _ _ s]) simp_all

lemma read_limited_defined:
  assumes "limits_ok src"
  obtains v where "read_limited src st s = Some v"
proof (cases "view_limit src s")
  case None
  with that show ?thesis by (simp add: read_limited_def apply_limit_def)
next
  case (Some m)
  with assms have "0 \<le> m" by (rule limits_okD)
  with Some that show ?thesis
    by (auto simp: read_limited_def apply_limit_def clamp_optional_def clamp_def)
qed

lemma public_state_defined:
  assumes "limits_ok src"
  obtains ps where "public_state src st = Some ps"
proof -
  obtain v w where "read_limited src st MovSpeed = Some v" "read_limited src st AttSpeed = Some w"
    using read_limited_defined [OF assms] by metis
  then show ?thesis using that by (simp add: public_state_def public_stats_def saturating_u8_def clamp_def)
qed

lemma build_sync_defined:
  assumes "limits_ok src"
  obtains sync where "build_sync src st c rd = Some sync"
proof -
  obtain ps where "public_state src st = Some ps" using assms by (rule public_state_defined)
  with that show ?thesis by (cases "rd \<or> public_stats_changed c") (auto simp: build_sync_def)
qed

lemma drain_defined:
  assumes "as_kind (rt_state rt) = actor_kind (rt_source rt)" and "limits_ok (rt_source rt)"
    and "is_dirty (rt_state rt) \<Longrightarrow> caps_nonneg (derived_store roll (rt_source rt) (rt_state rt))"
  obtains d rt' where "drain_sync roll rt = Some (d, rt')"
proof -
  obtain sync st' where "sync_if_dirty roll (rt_source rt) (rt_state rt) = Some (sync, st')"
  proof (cases "is_dirty (rt_state rt)")
    case True
    then obtain rep st' where r: "recompute_report roll (rt_source rt) (rt_state rt) = Some (rep, st')"
      using assms(3) recompute_succeeds by blast
    obtain sync where "build_sync (rt_source rt) st' (rep_changes rep) (rep_runtime_dirty rep) = Some sync"
      using assms(2) by (rule build_sync_defined)
    with True r that show ?thesis by (simp add: sync_if_dirty_def)
  next
    case False
    obtain sync where "build_sync (rt_source rt) (rt_state rt) cs_default False = Some sync"
      using assms(2) by (rule build_sync_defined)
    with False that show ?thesis by (simp add: sync_if_dirty_def)
  qed
  with that assms(1) show ?thesis
    by (simp add: drain_sync_def normalize_def with_api_mut_def api_new_def)
qed

end
