(* ===== verification/Stats_Witnesses.thy ===== *)
theory Stats_Witnesses
  imports Stats_Sync
begin

text \<open>Concrete actors on which the properties of the stat system are applied.\<close>

definition no_roll :: roll where
  "no_roll seed lower upper i = lower"

definition example_player :: PlayerStatSource where
  "example_player =
    \<lparr>ps_resources = \<lparr>base_max_hp = 600, base_max_sp = 200, base_max_stamina = 800,
                     hp_per_ht = 40, sp_per_iq = 20, stamina_per_ht = 1\<rparr>,
     ps_growth = \<lparr>hp_per_level = (36, 44), sp_per_level = (18, 22), stamina_per_level = (5, 8),
                  growth_version = V1\<rparr>,
     ps_balance = default_player_balance_rules Warrior,
     ps_speeds = speeds_default\<rparr>"

definition example_state :: "(unit, unit) ActorStatState" where
  "example_state = actor_set_player_progression (state_new KPlayer) (progression_new 3 250 800)"

lemma example_seed:
  "pvs_get (seed_rebuild_state example_state (SPlayer example_player)) s =
    (if s = Level then 3 else if s = Exp then 250 else if s = NextExp then 800
     else if s = LevelStep then 1 else 0)"
  by (simp add: seed_rebuild_state_def apply_source_seed_def example_state_def set_progression_shape
      state_new_def ledger_iter_def ledger_default_def bt_values_def normalized_def progression_new_def
      level_step_def sat_u_def clamp_u32_to_i32_def LEVEL_STEPS_PER_LEVEL_def wrap_i32_id in_i32_iff)

lemma example_caps: "caps_nonneg (derived_store no_roll (SPlayer example_player) example_state)"
proof -
  have [simp]: "stable_id example_state = None"
    by (simp add: example_state_def set_progression_shape state_new_def)
  show ?thesis
    by (simp add: caps_nonneg_def derived_store_def rebuild_derived_state_def rebuild_player_caps
      player_capacity_def optional_stat_value_def example_seed)
      (simp add: example_player_def capped_percentage_bonus_def percentage_bonus_def
        default_player_balance_rules_def wrap_i32_id in_i32_iff)
qed

lemma example_recompute:
  obtains rep st' where "recompute_report no_roll (SPlayer example_player) example_state = Some (rep, st')"
  using example_caps by (rule recompute_succeeds)

lemma example_base_i32: "store_i32 (base example_state)"
proof -
  have "in_i32 (pvs_get (base example_state) s)" for s
    using example_seed [of s]
    by (simp add: seed_rebuild_state_def apply_source_seed_def example_state_def set_progression_shape
      state_new_def ledger_iter_def ledger_default_def bt_values_def in_i32_iff split: if_splits)
  then show ?thesis by (simp add: store_i32_def)
qed

theorem recompute_resources_within_caps_witness:
  "\<exists>rep st'. recompute_report no_roll (SPlayer example_player) example_state = Some (rep, st') \<and>
    0 \<le> hp (resources st') \<and> hp (resources st') \<le> pvs_get (computed st') MaxHp"
proof -
  obtain rep st' where r: "recompute_report no_roll (SPlayer example_player) example_state = Some (rep, st')"
    by (rule example_recompute)
  with recompute_resources_within_caps [OF r] show ?thesis by blast
qed

theorem recompute_idempotent_witness:
  "\<exists>rep st' rep'. recompute_report no_roll (SPlayer example_player) example_state = Some (rep, st') \<and>
    recompute_report no_roll (SPlayer example_player) st' = Some (rep', st') \<and> cs_iter (rep_changes rep') = []"
proof -
  obtain rep st' where r: "recompute_report no_roll (SPlayer example_player) example_state = Some (rep, st')"
    by (rule example_recompute)
  with recompute_idempotent [OF r] show ?thesis by blast
qed

theorem accumulator_is_base_plus_total_witness:
  "\<exists>rep st'. recompute_report no_roll (SPlayer example_player) example_state = Some (rep, st') \<and>
    pvs_get (computed st') BonusMaxHp =
      wrap_s 32 (pvs_get (base example_state) BonusMaxHp + total_for_stat (modifiers example_state) BonusMaxHp)"
proof -
  obtain rep st' where r: "recompute_report no_roll (SPlayer example_player) example_state = Some (rep, st')"
    by (rule example_recompute)
  with accumulator_is_base_plus_total [OF r example_base_i32, of BonusMaxHp] show ?thesis
    by (auto simp: role_def)
qed

theorem bundle_install_remove_roundtrip_witness:
  "\<exists>st1. replace_source_bundle example_state () (csc_push_modifier csc_new (cm_plain BonusMaxHp 50)) = (Inr (), st1) \<and>
    modifiers (remove_source_bundle st1 ()) = modifiers example_state"
proof -
  let ?c = "csc_push_modifier csc_new (cm_plain BonusMaxHp 50)"
  obtain st1 where r: "replace_source_bundle example_state () ?c = (Inr (), st1)"
    by (simp add: replace_source_bundle_def csc_push_modifier_def csc_new_def cm_plain_def
        validate_modifier_stat_def accepts_source_contribution_def contribution_kind_def role_def)
  have m: "ledger_wf (modifiers example_state)" "ledger_of_source (modifiers example_state) () = []"
    by (simp_all add: example_state_def set_progression_shape state_new_def ledger_default_def ledger_wf_def
        ledger_of_source_def)
  from bundle_install_remove_roundtrip [OF m r refl] r show ?thesis by blast
qed

theorem drained_deltas_are_complete_witness:
  "\<exists>d rt'. drain_sync no_roll ((runtime_new (SPlayer example_player) (state_new KPlayer))\<lparr>rt_state := example_state\<rparr>)
      = Some (d, rt') \<and>
    apply_deltas (read_packet (state_new KPlayer :: (unit, unit) ActorStatState)) (drained_deltas d) = read_packet (rt_state rt')"
proof -
  let ?start = "runtime_new (SPlayer example_player) (state_new KPlayer)"
  let ?rt = "?start\<lparr>rt_state := example_state\<rparr>"
  have "runtime_step no_roll {} ?start ?rt"
    using runtime_step.api [of ?start example_state no_roll]
    by (auto simp: runtime_new_def example_state_def intro: api_step.progression)
  from runtime_run.more [OF runtime_run.start this] have step: "runtime_run no_roll {} ?start ?rt" by simp
  have "as_kind (rt_state ?rt) = actor_kind (rt_source ?rt)"
    by (simp add: runtime_new_def example_state_def set_progression_shape state_new_def)
  moreover have "limits_ok (rt_source ?rt)"
    by (simp add: limits_ok_def runtime_new_def example_player_def player_view_limit_def limits_view_def
        default_player_balance_rules_def all_stats_def)
  ultimately obtain d rt' where d: "drain_sync no_roll ?rt = Some (d, rt')"
    using example_caps by (elim drain_defined [of ?rt no_roll]) (simp_all add: runtime_new_def)
  have "state_inv (rt_state ?start)" "explicit_changes (rt_state ?start) = []" "rt_pending ?start = pending_default"
    by (simp_all add: runtime_new_def state_inv_new) (simp add: state_new_def)
  from drained_deltas_are_complete [OF this step d]
  have "apply_deltas (read_packet (rt_state ?start)) (drained_deltas d) = read_packet (rt_state rt')" by (simp add: fun_eq_iff)
  with d show ?thesis by (auto simp: runtime_new_def)
qed

end
