(* ===== verification/Player_Rules.thy ===== *)
theory Player_Rules
  imports Stats_Witnesses
begin

text \<open>
  Player progression rules (\<^verbatim>\<open>stats/game/player_rules.rs\<close>): the class table, the validated level table,
  the experience loop with level steps and stat points, mob rewards, and the hydration of a stored
  character.  The experience loop is a \<^verbatim>\<open>while\<close> whose bound is the table's last level, so it is a
  partial function here and its termination is a theorem.
\<close>

section \<open>Classes\<close>

definition MAX_LEVEL_STAT_POINTS_EARNING :: i32 where
  "MAX_LEVEL_STAT_POINTS_EARNING = 91"

record CoreStatAllocations =
  allocated_str :: i32
  allocated_vit :: i32
  allocated_dex :: i32
  allocated_int :: i32

record PlayerStats =
  stat_str :: i32
  stat_vit :: i32
  stat_dex :: i32
  stat_int :: i32

record PlayerClassStatsConfig =
  base_stats :: CoreStatBlock
  cfg_stat_source :: ActorStatSource

type_synonym PlayerClassStatsTable = "(PlayerClass \<times> PlayerClassStatsConfig) list"

definition find_class :: "PlayerClassStatsTable \<Rightarrow> PlayerClass \<Rightarrow> PlayerClassStatsConfig option" where
  "find_class t class = map_option snd (find (\<lambda>(candidate, _). candidate = class) t)"

definition stat_source_for_class :: "PlayerClassStatsTable \<Rightarrow> PlayerClass \<Rightarrow> ActorStatSource option" where
  "stat_source_for_class t class = map_option cfg_stat_source (find_class t class)"

definition resolve_player_stats ::
  "PlayerClassStatsTable \<Rightarrow> PlayerClass \<Rightarrow> CoreStatAllocations \<Rightarrow> PlayerStats option" where
  "resolve_player_stats t class a = do {
     b \<leftarrow> map_option base_stats (find_class t class);
     Some \<lparr>stat_str = i32_add (csb_st b) (allocated_str a), stat_vit = i32_add (csb_ht b) (allocated_vit a),
           stat_dex = i32_add (csb_dx b) (allocated_dex a), stat_int = i32_add (csb_iq b) (allocated_int a)\<rparr>
   }"

section \<open>The level table\<close>

record LevelExpEntry =
  le_level :: i32
  le_next_exp :: i64
  death_loss_pct :: i32

type_synonym LevelExpTable = "(i32, LevelExpEntry) btree_map"

datatype LevelExpTableError =
    EmptyTable
  | InvalidLevel i32
  | InvalidNextExp i32 i64
  | DuplicateLevel i32
  | MissingLevel i32

fun collect_levels :: "LevelExpEntry list \<Rightarrow> LevelExpTable \<Rightarrow> LevelExpTableError + LevelExpTable" where
  "collect_levels [] by_level = Inr by_level"
| "collect_levels (entry # entries) by_level =
    (if le_level entry < 1 then Inl (InvalidLevel (le_level entry))
     else if le_next_exp entry \<le> 0 then Inl (InvalidNextExp (le_level entry) (le_next_exp entry))
     else if bt_get by_level (le_level entry) \<noteq> None then Inl (DuplicateLevel (le_level entry))
     else collect_levels entries (bt_insert (le_level entry) entry by_level))"

fun check_contiguous :: "i32 \<Rightarrow> i32 list \<Rightarrow> LevelExpTableError + unit" where
  "check_contiguous expected [] = Inr ()"
| "check_contiguous expected (level # levels) =
    (if level \<noteq> expected then Inl (MissingLevel expected)
     else check_contiguous (i32_add expected 1) levels)"

definition try_new :: "LevelExpEntry list \<Rightarrow> LevelExpTableError + LevelExpTable" where
  "try_new entries =
    (case collect_levels entries [] of
       Inl e \<Rightarrow> Inl e
     | Inr by_level \<Rightarrow>
         if by_level = [] then Inl EmptyTable
         else if bt_get by_level 1 = None then Inl (MissingLevel 1)
         else (case check_contiguous 1 (bt_keys by_level) of
                 Inl e \<Rightarrow> Inl e
               | Inr _ \<Rightarrow> Inr by_level))"

definition max_level :: "LevelExpTable \<Rightarrow> i32 option" where
  "max_level t = (if t = [] then None else Some (fst (last t)))"

definition entry_for_level :: "LevelExpTable \<Rightarrow> i32 \<Rightarrow> LevelExpEntry option" where
  "entry_for_level t level = bt_get t level"

definition clamp_i64_to_u32 :: "i64 \<Rightarrow> u32" where
  "clamp_i64_to_u32 v = wrap_u 32 (max 0 (min u32_MAX v))"

definition progression_for_level :: "LevelExpTable \<Rightarrow> i32 \<Rightarrow> i64 \<Rightarrow> PlayerProgressionState option" where
  "progression_for_level t level e = do {
     entry \<leftarrow> entry_for_level t level;
     Some (progression_new level (clamp_i64_to_u32 e) (clamp_i64_to_u32 (le_next_exp entry)))
   }"

section \<open>Level steps, stat points and level-ups\<close>

definition derive_available_stat_points :: "i32 \<Rightarrow> i32 \<Rightarrow> CoreStatAllocations \<Rightarrow> i32" where
  "derive_available_stat_points level step a =
    (let stat_level = max 1 (min MAX_LEVEL_STAT_POINTS_EARNING level);
         current_level_steps =
           (if level < MAX_LEVEL_STAT_POINTS_EARNING then max 0 (min STAT_POINT_STEPS_PER_LEVEL step) else 0);
         earned = (stat_level - 1) * STAT_POINT_STEPS_PER_LEVEL + current_level_steps;
         spent = allocated_str a + allocated_vit a + allocated_dex a + allocated_int a
     in wrap_s 32 (max 0 (min i32_MAX (earned - spent))))"

record CrossedLevelSteps =
  crossed_steps :: i32
  crossed_points :: i32

definition crossed_level_steps :: "i32 \<Rightarrow> i32 \<Rightarrow> i32 \<Rightarrow> CrossedLevelSteps" where
  "crossed_level_steps level before_step after_step =
    (let before = max 0 (min LEVEL_STEPS_PER_LEVEL before_step);
         after = max 0 (min LEVEL_STEPS_PER_LEVEL after_step)
     in if after \<le> before then \<lparr>crossed_steps = 0, crossed_points = 0\<rparr>
        else \<lparr>crossed_steps = after - before,
              crossed_points =
                (if level < MAX_LEVEL_STAT_POINTS_EARNING
                 then max (min after STAT_POINT_STEPS_PER_LEVEL - min before STAT_POINT_STEPS_PER_LEVEL) 0
                 else 0)\<rparr>)"

text \<open>The accumulators of the experience loop.\<close>

record ExpGain =
  gain_progression :: PlayerProgressionState
  gain_remaining :: i64
  gain_applied :: i64
  gain_stat_points :: i32
  gain_level_steps :: i32
  gain_levels :: i32

definition advance_level ::
  "LevelExpTable \<Rightarrow> i32 \<Rightarrow> PlayerProgressionState \<Rightarrow> i32 \<Rightarrow> (PlayerProgressionState \<times> i32) option" where
  "advance_level t mx p levels_gained =
    (if mx \<le> pp_level p then None
     else do {
       nxt \<leftarrow> progression_for_level t (sat_s 32 (pp_level p + 1)) 0;
       Some (p\<lparr>pp_level := pp_level nxt, exp_in_level := 0, next_exp_in_level := next_exp_in_level nxt\<rparr>,
             i32_add levels_gained 1)
     })"

definition fill_level :: "ExpGain \<Rightarrow> ExpGain" where
  "fill_level g =
    (let p = gain_progression g;
         before_step = level_step p;
         missing = sat_u 32 (next_exp_in_level p - exp_in_level p);
         crossed = crossed_level_steps (pp_level p) before_step LEVEL_STEPS_PER_LEVEL
     in g\<lparr>gain_progression := p\<lparr>exp_in_level := next_exp_in_level p\<rparr>,
          gain_applied := sat_s 64 (gain_applied g + missing),
          gain_remaining := sat_s 64 (gain_remaining g - missing),
          gain_level_steps := i32_add (gain_level_steps g) (crossed_steps crossed),
          gain_stat_points := i32_add (gain_stat_points g) (crossed_points crossed)\<rparr>)"

definition gain_within_level :: "ExpGain \<Rightarrow> ExpGain" where
  "gain_within_level g =
    (let p = gain_progression g;
         before_step = level_step p;
         p' = p\<lparr>exp_in_level := sat_u 32 (exp_in_level p + wrap_u 32 (gain_remaining g))\<rparr>;
         crossed = crossed_level_steps (pp_level p) before_step (level_step p')
     in g\<lparr>gain_progression := p', gain_applied := sat_s 64 (gain_applied g + gain_remaining g),
          gain_remaining := 0,
          gain_level_steps := i32_add (gain_level_steps g) (crossed_steps crossed),
          gain_stat_points := i32_add (gain_stat_points g) (crossed_points crossed)\<rparr>)"

partial_function (option) exp_gain_loop :: "LevelExpTable \<Rightarrow> i32 \<Rightarrow> ExpGain \<Rightarrow> ExpGain option" where
  "exp_gain_loop t mx g =
    (let p = gain_progression g in
     if \<not> (0 < gain_remaining g \<and> pp_level p < mx) then Some g
     else if next_exp_in_level p = 0 then Some g
     else let missing = sat_u 32 (next_exp_in_level p - exp_in_level p) in
       if missing = 0 then
         (case advance_level t mx p (gain_levels g) of
            None \<Rightarrow> Some g
          | Some (p', n) \<Rightarrow> exp_gain_loop t mx (g\<lparr>gain_progression := p', gain_levels := n\<rparr>))
       else if missing \<le> gain_remaining g then
         (let g' = fill_level g in
          case advance_level t mx (gain_progression g') (gain_levels g') of
            None \<Rightarrow> Some g'
          | Some (p', n) \<Rightarrow> exp_gain_loop t mx (g'\<lparr>gain_progression := p', gain_levels := n\<rparr>))
       else exp_gain_loop t mx (gain_within_level g))"

declare exp_gain_loop.simps [code]

record PlayerExpGainOutcome =
  out_progression :: PlayerProgressionState
  out_applied_exp :: i64
  out_stat_points_gained :: i32
  out_level_steps_gained :: i32
  out_levels_gained :: i32

text \<open>The outer option is the loop not returning; the inner one is the \<^verbatim>\<open>Option\<close> of the source.\<close>

definition apply_player_exp_gain ::
  "LevelExpTable \<Rightarrow> PlayerProgressionState \<Rightarrow> i64 \<Rightarrow> PlayerExpGainOutcome option option" where
  "apply_player_exp_gain t cur amount =
    (case progression_for_level t (pp_level cur) (exp_in_level cur) of
       None \<Rightarrow> Some None
     | Some p \<Rightarrow>
        (case max_level t of
           None \<Rightarrow> Some None
         | Some mx \<Rightarrow> do {
             g \<leftarrow> exp_gain_loop t mx
               \<lparr>gain_progression = p, gain_remaining = max amount 0, gain_applied = 0,
                gain_stat_points = 0, gain_level_steps = 0, gain_levels = 0\<rparr>;
             Some (Some \<lparr>out_progression = gain_progression g, out_applied_exp = gain_applied g,
               out_stat_points_gained = gain_stat_points g,
               out_level_steps_gained = gain_level_steps g, out_levels_gained = gain_levels g\<rparr>)
           }))"

section \<open>Mob rewards\<close>

definition legacy_mob_exp_reward :: "i32 \<Rightarrow> i32 \<Rightarrow> i64 \<Rightarrow> i64 \<Rightarrow> i64" where
  "legacy_mob_exp_reward player_level mob_level base_exp next_exp =
    (if base_exp \<le> 0 then 0
     else let adjusted = sat_s 64 (base_exp * exp_reward_bonus_malus_percent player_level mob_level) sdiv 100 in
       if 0 < next_exp then max (min adjusted (next_exp sdiv 10)) 0 else max adjusted 0)"

record PlayerMobExpRewardOutcome =
  mob_progression :: PlayerProgressionState
  mob_applied_exp :: i64
  mob_stat_points_gained :: i32
  mob_level_steps_gained :: i32
  level_up :: "i32 option"

record PlayerStatRules =
  class_stats :: PlayerClassStatsTable
  level_exp :: LevelExpTable

definition supports_class :: "PlayerStatRules \<Rightarrow> PlayerClass \<Rightarrow> bool" where
  "supports_class r class \<longleftrightarrow> stat_source_for_class (class_stats r) class \<noteq> None"

definition apply_mob_exp_reward ::
  "PlayerStatRules \<Rightarrow> PlayerProgressionState \<Rightarrow> i32 \<Rightarrow> i64 \<Rightarrow> PlayerMobExpRewardOutcome option option" where
  "apply_mob_exp_reward r cur mob_level base_exp =
    (let amount = legacy_mob_exp_reward (pp_level cur) mob_level base_exp (next_exp_in_level cur) in
     if amount \<le> 0 then Some None
     else do {
       res \<leftarrow> apply_player_exp_gain (level_exp r) cur amount;
       (case res of None \<Rightarrow> Some None
        | Some out \<Rightarrow>
           if out_applied_exp out \<le> 0 then Some None
           else Some (Some
             \<lparr>mob_progression = out_progression out, mob_applied_exp = out_applied_exp out,
              mob_stat_points_gained = out_stat_points_gained out,
              mob_level_steps_gained = out_level_steps_gained out,
              level_up = (if pp_level cur < pp_level (out_progression out)
                          then Some (pp_level (out_progression out)) else None)\<rparr>))
     })"

section \<open>Hydration of a stored character\<close>

record PlayerGameplayBootstrap =
  bs_player_id :: i64
  bs_class :: PlayerClass
  bs_level :: i32
  bs_exp_in_level :: i64
  core_stat_allocations :: CoreStatAllocations
  stat_reset_count :: i32
  current_hp :: "i32 option"
  current_sp :: "i32 option"
  current_stamina :: "i32 option"

record HydratedPlayerStats =
  hydrated_source :: ActorStatSource
  hydrated_state :: "(unit, unit) ActorStatState"
  hydrated_sync :: BootstrapStatsSync

text \<open>A chain of \<^verbatim>\<open>api.set_stored_stat(..).ok()?\<close>: the first error ends it with \<open>None\<close> inside.\<close>

fun store_stats ::
  "ActorStatSource \<Rightarrow> (Stat \<times> i32) list \<Rightarrow> (unit, unit) ActorStatState \<Rightarrow>
   (unit, unit) ActorStatState option exec" where
  "store_stats src [] st = Some (Some st)"
| "store_stats src ((s, v) # svs) st = do {
     (r, st') \<leftarrow> api_set_stored_stat src st s v;
     (case r of Inl _ \<Rightarrow> Some None | Inr _ \<Rightarrow> store_stats src svs st')
   }"

fun set_resources ::
  "(Stat \<times> i32) list \<Rightarrow> (unit, unit) ActorStatState \<Rightarrow> (unit, unit) ActorStatState option exec" where
  "set_resources [] st = Some (Some st)"
| "set_resources ((s, v) # svs) st = do {
     (r, st') \<leftarrow> set_resource st s v;
     (case r of Inl _ \<Rightarrow> Some None | Inr _ \<Rightarrow> set_resources svs st')
   }"

definition current_or_limit ::
  "ActorStatSource \<Rightarrow> (unit, unit) ActorStatState \<Rightarrow> Stat \<Rightarrow> i32 option \<Rightarrow> i32 exec" where
  "current_or_limit src st s v = (case v of Some x \<Rightarrow> Some x | None \<Rightarrow> read_limited src st s)"

definition hydrated_base_stats ::
  "PlayerGameplayBootstrap \<Rightarrow> PlayerStats \<Rightarrow> PlayerProgressionState \<Rightarrow> (Stat \<times> i32) list" where
  "hydrated_base_stats b ps p =
    [(St, stat_str ps), (Ht, stat_vit ps), (Dx, stat_dex ps), (Iq, stat_int ps),
     (StatPoints, derive_available_stat_points (pp_level p) (level_step p) (core_stat_allocations b)),
     (StatResetCount, stat_reset_count b)]"

definition hydrate_resources ::
  "roll \<Rightarrow> ActorStatSource \<Rightarrow> PlayerGameplayBootstrap \<Rightarrow> (unit, unit) ActorStatState \<Rightarrow>
   HydratedPlayerStats option exec" where
  "hydrate_resources roll src b st = do {
     (_, st1) \<leftarrow> recompute roll src st;
     h \<leftarrow> current_or_limit src st1 MaxHp (current_hp b);
     s \<leftarrow> current_or_limit src st1 MaxSp (current_sp b);
     m \<leftarrow> current_or_limit src st1 MaxStamina (current_stamina b);
     r \<leftarrow> set_resources [(Hp, h), (Sp, s), (Stamina, m)] st1;
     (case r of None \<Rightarrow> Some None
      | Some st2 \<Rightarrow> do {
          (sync, st3) \<leftarrow> bootstrap_sync roll src st2;
          Some (Some \<lparr>hydrated_source = src, hydrated_state = st3, hydrated_sync = sync\<rparr>)
        })
   }"

definition hydrate_player ::
  "roll \<Rightarrow> PlayerStatRules \<Rightarrow> PlayerGameplayBootstrap \<Rightarrow> HydratedPlayerStats option exec" where
  "hydrate_player roll rules b =
    (case stat_source_for_class (class_stats rules) (bs_class b) of None \<Rightarrow> Some None
     | Some src \<Rightarrow>
    (case resolve_player_stats (class_stats rules) (bs_class b) (core_stat_allocations b) of None \<Rightarrow> Some None
     | Some ps \<Rightarrow>
    (case progression_for_level (level_exp rules) (bs_level b) (bs_exp_in_level b) of None \<Rightarrow> Some None
     | Some p \<Rightarrow>
       do {
         api_new src (state_new KPlayer :: (unit, unit) ActorStatState);
         r \<leftarrow> store_stats src (hydrated_base_stats b ps p)
           (actor_set_player_progression
             (actor_set_stable_id (state_new KPlayer) (Some (wrap_u 64 (bs_player_id b)))) p);
         (case r of None \<Rightarrow> Some None | Some st \<Rightarrow> hydrate_resources roll src b st)
       })))"

end
