(* ===== verification/Player_Exp.thy ===== *)
theory Player_Exp
  imports Player_Rules
begin

text \<open>
  Correctness of the level table and of the experience loop of \<^verbatim>\<open>player_rules.rs\<close>: which tables are
  accepted, that the loop terminates, that it conserves experience, and that the stat points it
  hands out are the ones a freshly loaded character of the resulting level would have.
\<close>

section \<open>Accepted level tables\<close>

definition levels_wf :: "LevelExpTable \<Rightarrow> bool" where
  "levels_wf t \<longleftrightarrow> bt_wf t \<and> (\<forall>(k, e)\<in>set t. 1 \<le> k \<and> 0 < le_next_exp e \<and> le_level e = k)"

definition table_ok :: "LevelExpTable \<Rightarrow> bool" where
  "table_ok t \<longleftrightarrow> levels_wf t \<and> t \<noteq> [] \<and> bt_keys t = [1..int (length t)] \<and> int (length t) \<le> i32_MAX"

lemma set_bt_insert_new: "bt_wf m \<Longrightarrow> bt_get m k = None \<Longrightarrow> set (bt_insert k v m) = insert (k, v) (set m)"
proof -
  assume wf: "bt_wf m" and new: "bt_get m k = None"
  have "(k', v') \<in> set (bt_insert k v m) \<longleftrightarrow> (k', v') \<in> insert (k, v) (set m)" for k' v'
    using wf new bt_get_Some_iff [OF wf, of k' v'] bt_get_Some_iff [OF bt_wf_insert [OF wf, of k v], of k' v']
    by (auto simp: bt_get_insert split: if_splits)
  then show ?thesis by auto
qed

lemma bt_get_None_iff: "bt_get m k = None \<longleftrightarrow> k \<notin> set (bt_keys m)"
  by (auto simp: bt_get_def bt_keys_def map_of_eq_None_iff)

lemma collect_levels_iff:
  "bt_wf m \<Longrightarrow>
   (\<exists>t. collect_levels es m = Inr t) \<longleftrightarrow>
     (\<forall>e\<in>set es. 1 \<le> le_level e \<and> 0 < le_next_exp e) \<and> distinct (map le_level es) \<and>
     le_level ` set es \<inter> set (bt_keys m) = {}"
proof (induction es arbitrary: m)
  case (Cons e es)
  have k: "set (bt_keys (bt_insert k v m)) = insert k (set (bt_keys m))" for k v
    by (metis bt_keys_def keys_bt_insert)
  show ?case
    using Cons.IH [OF bt_wf_insert [OF Cons.prems]] by (auto simp: k bt_get_None_iff)
qed simp

lemma collect_levels_wf:
  "collect_levels es m = Inr t \<Longrightarrow> levels_wf m \<Longrightarrow>
   levels_wf t \<and> set (bt_keys t) = le_level ` set es \<union> set (bt_keys m) \<and> snd ` set t = set es \<union> snd ` set m"
proof (induction es arbitrary: m)
  case (Cons e es)
  let ?m = "bt_insert (le_level e) e m"
  from Cons.prems have new: "bt_get m (le_level e) = None" and wf: "bt_wf m"
    and e: "1 \<le> le_level e" "0 < le_next_exp e"
    by (auto simp: levels_wf_def split: if_splits)
  have s: "set ?m = insert (le_level e, e) (set m)" by (rule set_bt_insert_new [OF wf new])
  then have "levels_wf ?m" using Cons.prems(2) e bt_wf_insert [OF wf] by (auto simp: levels_wf_def)
  from Cons.IH [OF _ this] Cons.prems(1) have ih: "levels_wf t"
    "set (bt_keys t) = le_level ` set es \<union> set (bt_keys ?m)" "snd ` set t = set es \<union> snd ` set ?m"
    by (auto split: if_splits)
  moreover have "set (bt_keys ?m) = insert (le_level e) (set (bt_keys m))"
    using s by (auto simp: bt_keys_def)
  ultimately show ?case using s by auto
qed auto

lemma check_contiguous_iff:
  "in_i32 e \<Longrightarrow> e + int (length ks) \<le> i32_MAX + 1 \<Longrightarrow>
   check_contiguous e ks = Inr () \<longleftrightarrow> ks = [e..e + int (length ks) - 1]"
proof (induction ks arbitrary: e)
  case (Cons k ks)
  show ?case
  proof (cases "ks = []")
    case False
    then have "0 < int (length ks)" by simp
    moreover have "e + 1 + int (length ks) \<le> i32_MAX + 1" using Cons.prems(2) by simp
    ultimately have i: "in_i32 (e + 1)" using Cons.prems(1) unfolding in_i32_iff by linarith
    have u: "[e..e + int (length (k # ks)) - 1] = e # [e + 1..e + 1 + int (length ks) - 1]"
      by (subst upto.simps) (simp add: algebra_simps)
    show ?thesis
      unfolding u using Cons.IH [OF i] Cons.prems(2) i by (auto simp: wrap_i32_id)
  qed (auto simp: upto.simps)
qed (simp add: upto.simps)

lemma table_keys_interval:
  assumes "levels_wf t" and "set (bt_keys t) = {1..int n}" and "length t = n"
  shows "bt_keys t = [1..int n]"
proof (rule sorted_distinct_set_unique)
  have "sorted_wrt (<) (bt_keys t)" using assms(1) by (simp add: levels_wf_def bt_wf_def bt_keys_def)
  then show "sorted (bt_keys t)" "distinct (bt_keys t)" by (simp_all add: strict_sorted_iff)
qed (use assms in simp_all)

lemma length_keys: "levels_wf t \<Longrightarrow> length t = card (set (bt_keys t))"
  using bt_wf_distinct [of t] distinct_card [of "bt_keys t"] by (simp add: levels_wf_def bt_keys_def)

lemma collected_length:
  assumes "collect_levels es [] = Inr t"
  shows "levels_wf t" and "length t = length es" and "set (bt_keys t) = le_level ` set es"
    and "distinct (map le_level es)"
proof -
  have "levels_wf []" by (simp add: levels_wf_def)
  from collect_levels_wf [OF assms this] show t: "levels_wf t" "set (bt_keys t) = le_level ` set es"
    by (simp_all add: bt_keys_def)
  from collect_levels_iff [of "[]" es] assms show d: "distinct (map le_level es)" by auto
  have "length es = card (set (map le_level es))" using distinct_card [OF d] by simp
  then show "length t = length es" using length_keys [OF t(1)] t(2) by simp
qed

lemma try_new_ok:
  assumes "try_new es = Inr t" and "int (length es) \<le> i32_MAX"
  shows "table_ok t"
proof -
  from assms(1) have c: "collect_levels es [] = Inr t" and "t \<noteq> []" and k: "check_contiguous 1 (bt_keys t) = Inr ()"
    by (auto simp: try_new_def split: sum.splits if_splits)
  note cl = collected_length [OF c]
  have "bt_keys t = [1..int (length t)]"
    using check_contiguous_iff [of 1 "bt_keys t"] k cl(2) assms(2) by (simp add: in_i32_iff bt_keys_def)
  with cl assms(2) \<open>t \<noteq> []\<close> show ?thesis by (simp add: table_ok_def)
qed

text \<open>
  A level table is accepted exactly when it is not empty, every required experience is positive, no level
  occurs twice, and the levels are 1, 2, ... without a gap, in whatever order they are listed.
\<close>

theorem level_table_accepted_iff:
  assumes "int (length es) \<le> i32_MAX"
  shows "(\<exists>t. try_new es = Inr t) \<longleftrightarrow>
    es \<noteq> [] \<and> (\<forall>e\<in>set es. 0 < le_next_exp e) \<and> distinct (map le_level es) \<and>
    le_level ` set es = {1..int (length es)}"
proof
  assume "\<exists>t. try_new es = Inr t"
  then obtain t where t: "try_new es = Inr t" by blast
  then have c: "collect_levels es [] = Inr t" by (auto simp: try_new_def split: sum.splits if_splits)
  have "bt_keys t = [1..int (length t)]" "t \<noteq> []"
    using try_new_ok [OF t assms] by (simp_all add: table_ok_def)
  then have "le_level ` set es = {1..int (length es)}" "es \<noteq> []"
    using collected_length [OF c] by (auto simp flip: collected_length(3) [OF c])
  moreover have "\<forall>e\<in>set es. 0 < le_next_exp e" "distinct (map le_level es)"
    using collect_levels_iff [of "[]" es] c by auto
  ultimately show "es \<noteq> [] \<and> (\<forall>e\<in>set es. 0 < le_next_exp e) \<and> distinct (map le_level es) \<and>
    le_level ` set es = {1..int (length es)}" by blast
next
  assume a: "es \<noteq> [] \<and> (\<forall>e\<in>set es. 0 < le_next_exp e) \<and> distinct (map le_level es) \<and>
    le_level ` set es = {1..int (length es)}"
  then have "\<forall>e\<in>set es. 1 \<le> le_level e" by (metis atLeastAtMost_iff image_eqI)
  with a obtain t where c: "collect_levels es [] = Inr t"
    using collect_levels_iff [of "[]" es] by (auto simp: bt_keys_def)
  note cl = collected_length [OF c]
  have "bt_keys t = [1..int (length t)]" using table_keys_interval [OF cl(1)] cl a by simp
  then have "check_contiguous 1 (bt_keys t) = Inr ()"
    using check_contiguous_iff [of 1 "bt_keys t"] assms cl(2) by (simp add: in_i32_iff bt_keys_def)
  moreover have "t \<noteq> []" using cl(2) a by auto
  moreover have "bt_get t 1 \<noteq> None"
    using \<open>t \<noteq> []\<close> \<open>bt_keys t = _\<close> by (simp add: bt_get_None_iff Suc_le_eq)
  ultimately show "\<exists>t. try_new es = Inr t" using c by (simp add: try_new_def)
qed

section \<open>The experience loop\<close>

definition level_next :: "LevelExpTable \<Rightarrow> i32 \<Rightarrow> u32" where
  "level_next t l = (case bt_get t l of Some e \<Rightarrow> clamp_i64_to_u32 (le_next_exp e) | None \<Rightarrow> 0)"

text \<open>Total experience of a character: what all lower levels required, plus what it has in its level.\<close>

definition total_exp :: "LevelExpTable \<Rightarrow> PlayerProgressionState \<Rightarrow> int" where
  "total_exp t p = sum_list (map (level_next t) [1..pp_level p - 1]) + exp_in_level p"

definition no_allocations :: CoreStatAllocations where
  "no_allocations = \<lparr>allocated_str = 0, allocated_vit = 0, allocated_dex = 0, allocated_int = 0\<rparr>"

text \<open>The stat points a character of this progression has earned, as hydration computes them.\<close>

definition earned_points :: "PlayerProgressionState \<Rightarrow> i32" where
  "earned_points p = derive_available_stat_points (pp_level p) (level_step p) no_allocations"

lemma clamp_u32_range: "in_u32 (clamp_i64_to_u32 v)"
  by (simp add: clamp_i64_to_u32_def wrap_u_def in_u_def)

lemma clamp_u32_eq: "clamp_i64_to_u32 v = max 0 (min u32_MAX v)"
  unfolding clamp_i64_to_u32_def wrap_u_def by (rule mod_pos_pos_trivial) auto

lemma clamp_u32_pos: "0 < v \<Longrightarrow> 0 < clamp_i64_to_u32 v"
  by (simp add: clamp_u32_eq)

lemma table_has_level:
  assumes "table_ok t"
  shows "bt_get t l \<noteq> None \<longleftrightarrow> 1 \<le> l \<and> l \<le> int (length t)"
    and "max_level t = Some (int (length t))"
    and "1 \<le> l \<Longrightarrow> l \<le> int (length t) \<Longrightarrow> 0 < level_next t l \<and> in_u32 (level_next t l)"
proof -
  from assms have k: "bt_keys t = [1..int (length t)]" "t \<noteq> []" and wf: "levels_wf t"
    by (simp_all add: table_ok_def)
  show *: "bt_get t l \<noteq> None \<longleftrightarrow> 1 \<le> l \<and> l \<le> int (length t)" for l
    unfolding bt_get_None_iff k(1) by simp
  have "fst (last t) = last (bt_keys t)" using k(2) by (simp add: bt_keys_def last_map)
  also have "\<dots> = int (length t)" unfolding k(1) using k(2) by (subst upto_rec2) (simp_all add: Suc_le_eq)
  finally show "max_level t = Some (int (length t))" using k(2) by (simp add: max_level_def)
  assume "1 \<le> l" "l \<le> int (length t)"
  with * [of l] obtain e where e: "bt_get t l = Some e" by auto
  then have "(l, e) \<in> set t" using wf by (simp add: levels_wf_def bt_get_Some_iff)
  then have "0 < le_next_exp e" using wf by (auto simp: levels_wf_def)
  then show "0 < level_next t l \<and> in_u32 (level_next t l)"
    using e by (simp add: level_next_def clamp_u32_pos clamp_u32_range)
qed

lemma crossed_eq:
  assumes "0 \<le> b" and "b \<le> a" and "a \<le> 4"
  shows "crossed_steps (crossed_level_steps l b a) = a - b"
    and "crossed_points (crossed_level_steps l b a) = (if l < 91 then min a 3 - min b 3 else 0)"
  using assms
  by (auto simp: crossed_level_steps_def Let_def LEVEL_STEPS_PER_LEVEL_def STAT_POINT_STEPS_PER_LEVEL_def
      MAX_LEVEL_STAT_POINTS_EARNING_def)

lemma earned_points_eq:
  assumes "1 \<le> pp_level p" and "0 \<le> level_step p"
  shows "earned_points p =
    (min 91 (pp_level p) - 1) * 3 + (if pp_level p < 91 then min 3 (level_step p) else 0)"
proof -
  have "0 \<le> (min 91 (pp_level p) - 1) * 3" "(min 91 (pp_level p) - 1) * 3 \<le> 270" using assms by auto
  then show ?thesis
    using assms
    by (auto simp: earned_points_def derive_available_stat_points_def Let_def no_allocations_def
        MAX_LEVEL_STAT_POINTS_EARNING_def STAT_POINT_STEPS_PER_LEVEL_def LEVEL_STEPS_PER_LEVEL_def
        wrap_i32_id in_i32_iff)
qed

text \<open>A progression as the table stores it, and the loop invariant relative to the start.\<close>

definition on_table :: "LevelExpTable \<Rightarrow> PlayerProgressionState \<Rightarrow> bool" where
  "on_table t p \<longleftrightarrow> 1 \<le> pp_level p \<and> pp_level p \<le> int (length t) \<and>
    next_exp_in_level p = level_next t (pp_level p) \<and> 0 \<le> exp_in_level p \<and>
    exp_in_level p \<le> next_exp_in_level p"

definition gain_inv :: "LevelExpTable \<Rightarrow> PlayerProgressionState \<Rightarrow> int \<Rightarrow> ExpGain \<Rightarrow> bool" where
  "gain_inv t start amount g \<longleftrightarrow>
    on_table t (gain_progression g) \<and> pp_level start \<le> pp_level (gain_progression g) \<and>
    0 \<le> gain_remaining g \<and> 0 \<le> gain_applied g \<and> gain_applied g + gain_remaining g = amount \<and>
    total_exp t (gain_progression g) = total_exp t start + gain_applied g \<and>
    gain_levels g = pp_level (gain_progression g) - pp_level start \<and>
    gain_stat_points g = earned_points (gain_progression g) - earned_points start \<and> 0 \<le> gain_stat_points g \<and>
    gain_level_steps g = wrap_s 32 (4 * (pp_level (gain_progression g) - pp_level start) +
      level_step (gain_progression g) - level_step start)"

lemma on_table_step:
  assumes "table_ok t" and "on_table t p"
  shows "level_step p = 4 * exp_in_level p div next_exp_in_level p" and "0 < next_exp_in_level p"
    and "in_u32 (next_exp_in_level p)" and "in_u32 (exp_in_level p)"
    and "0 \<le> level_step p" and "level_step p \<le> 4"
proof -
  show n: "0 < next_exp_in_level p" and u: "in_u32 (next_exp_in_level p)"
    using assms table_has_level(3) [OF assms(1), of "pp_level p"] by (simp_all add: on_table_def)
  with assms(2) show e: "in_u32 (exp_in_level p)" by (auto simp: on_table_def in_u32_iff)
  show "level_step p = 4 * exp_in_level p div next_exp_in_level p"
    using level_step_eq [OF e u] n assms(2) by (simp add: on_table_def min_def)
  show "0 \<le> level_step p" "level_step p \<le> 4" using level_step_range [OF e u] by simp_all
qed

lemma earned_range:
  assumes "table_ok t" and "on_table t p"
  shows "0 \<le> earned_points p" and "earned_points p \<le> 270"
proof -
  have "1 \<le> pp_level p" "0 \<le> level_step p"
    using assms(2) on_table_step(5) [OF assms] by (simp_all add: on_table_def)
  then show "0 \<le> earned_points p" "earned_points p \<le> 270" by (auto simp: earned_points_eq)
qed

lemma progression_on_table:
  assumes "table_ok t" and "1 \<le> l" and "l \<le> int (length t)"
  shows "progression_for_level t l e = Some (progression_new l (clamp_i64_to_u32 e) (level_next t l))"
  using table_has_level(1) [OF assms(1), of l] assms(2,3)
  by (auto simp: progression_for_level_def entry_for_level_def level_next_def)

lemma total_exp_next_level:
  assumes "on_table t p" and "exp_in_level p = next_exp_in_level p"
  shows "total_exp t (p\<lparr>pp_level := pp_level p + 1, exp_in_level := 0, next_exp_in_level := n\<rparr>) = total_exp t p"
proof -
  have "[1..pp_level p] = [1..pp_level p - 1] @ [pp_level p]"
    using assms(1) by (subst upto_rec2) (simp_all add: on_table_def)
  then show ?thesis using assms by (simp add: total_exp_def on_table_def)
qed

lemma advance_keeps:
  assumes t: "table_ok t" and inv: "gain_inv t start amount g" and start: "on_table t start"
    and full: "exp_in_level (gain_progression g) = next_exp_in_level (gain_progression g)"
    and lt: "pp_level (gain_progression g) < int (length t)"
  obtains p' n where "advance_level t (int (length t)) (gain_progression g) (gain_levels g) = Some (p', n)"
    and "gain_inv t start amount (g\<lparr>gain_progression := p', gain_levels := n\<rparr>)"
    and "pp_level p' = pp_level (gain_progression g) + 1"
proof -
  let ?p = "gain_progression g"
  let ?q = "?p\<lparr>pp_level := pp_level ?p + 1, exp_in_level := 0, next_exp_in_level := level_next t (pp_level ?p + 1)\<rparr>"
  have ot: "on_table t ?p" and lv: "gain_levels g = pp_level ?p - pp_level start" "pp_level start \<le> pp_level ?p"
    using inv by (simp_all add: gain_inv_def)
  then have l: "1 \<le> pp_level ?p" by (simp add: on_table_def)
  have len: "int (length t) \<le> i32_MAX" using t by (simp add: table_ok_def)
  have s1: "1 \<le> pp_level start" using start by (simp add: on_table_def)
  have wr: "sat_s 32 (pp_level ?p + 1) = pp_level ?p + 1" "i32_add (gain_levels g) 1 = pp_level ?p + 1 - pp_level start"
    using l lt len s1 lv by (auto simp: sat_s_id wrap_i32_id in_i32_iff)
  have adv: "advance_level t (int (length t)) ?p (gain_levels g) = Some (?q, pp_level ?p + 1 - pp_level start)"
    using l lt progression_on_table [OF t, of "pp_level ?p + 1" 0]
    by (simp add: advance_level_def wr progression_new_def)
  have q: "on_table t ?q"
    using l lt table_has_level(3) [OF t, of "pp_level ?p + 1"] by (simp add: on_table_def)
  have steps: "level_step ?p = 4" "level_step ?q = 0"
    using on_table_step(1,2) [OF t ot] on_table_step(1) [OF t q] full by simp_all
  have "earned_points ?q = earned_points ?p"
    using l steps by (simp add: earned_points_eq min_def)
  with inv q steps lv have "gain_inv t start amount (g\<lparr>gain_progression := ?q,
      gain_levels := pp_level ?p + 1 - pp_level start\<rparr>)"
    using total_exp_next_level [OF ot full] by (simp add: gain_inv_def algebra_simps)
  with adv that show ?thesis by simp
qed

text \<open>Raising the experience inside a level keeps the invariant, whatever the amount.\<close>

lemma raise_keeps:
  assumes t: "table_ok t" and inv: "gain_inv t start amount g" and start: "on_table t start"
    and d: "0 \<le> d" "d \<le> gain_remaining g"
      "exp_in_level (gain_progression g) + d \<le> next_exp_in_level (gain_progression g)"
  defines "p' \<equiv> (gain_progression g)\<lparr>exp_in_level := exp_in_level (gain_progression g) + d\<rparr>"
  defines "c \<equiv> crossed_level_steps (pp_level (gain_progression g)) (level_step (gain_progression g)) (level_step p')"
  shows "gain_inv t start amount
    (g\<lparr>gain_progression := p', gain_applied := gain_applied g + d, gain_remaining := gain_remaining g - d,
       gain_level_steps := i32_add (gain_level_steps g) (crossed_steps c),
       gain_stat_points := i32_add (gain_stat_points g) (crossed_points c)\<rparr>)"
proof -
  let ?p = "gain_progression g"
  have p: "on_table t ?p" using inv by (simp add: gain_inv_def)
  then have p': "on_table t p'" using d by (simp add: on_table_def p'_def)
  note sp = on_table_step [OF t p] and sp' = on_table_step [OF t p']
  have mono: "level_step ?p \<le> level_step p'"
    unfolding sp(1) sp'(1) using d sp(2) by (simp add: p'_def zdiv_mono1)
  have c: "crossed_steps c = level_step p' - level_step ?p"
    "crossed_points c = (if pp_level ?p < 91 then min (level_step p') 3 - min (level_step ?p) 3 else 0)"
    unfolding c_def using crossed_eq [OF sp(5) mono sp'(6)] by blast+
  have l: "1 \<le> pp_level ?p" using p by (simp add: on_table_def)
  have ep: "earned_points p' = earned_points ?p + crossed_points c"
    using l sp(5) sp'(5) c(2) by (auto simp: earned_points_eq p'_def)
  have "0 \<le> earned_points start" "earned_points start \<le> 270" "0 \<le> earned_points p'" "earned_points p' \<le> 270"
    using earned_range [OF t start] earned_range [OF t p'] by simp_all
  with ep have pts: "i32_add (gain_stat_points g) (crossed_points c) = earned_points p' - earned_points start"
    using inv by (subst wrap_i32_id) (auto simp: gain_inv_def in_i32_iff)
  have "gain_level_steps g = wrap_s 32 (4 * (pp_level ?p - pp_level start) + level_step ?p - level_step start)"
    using inv by (simp add: gain_inv_def)
  then have "i32_add (gain_level_steps g) (crossed_steps c) =
      wrap_s 32 (4 * (pp_level ?p - pp_level start) + level_step ?p - level_step start + (level_step p' - level_step ?p))"
    unfolding c(1) by (simp only: wrap_s_add_left)
  then have steps: "i32_add (gain_level_steps g) (crossed_steps c) =
      wrap_s 32 (4 * (pp_level ?p - pp_level start) + level_step p' - level_step start)"
    by (simp only: diff_conv_add_uminus add.assoc) (simp add: algebra_simps)
  have "pp_level p' = pp_level ?p" "total_exp t p' = total_exp t ?p + d"
    by (simp_all add: p'_def total_exp_def)
  moreover have "0 \<le> earned_points p' - earned_points start"
    using ep inv mono by (auto simp: gain_inv_def c(2))
  ultimately show ?thesis using inv p' d pts steps unfolding gain_inv_def by simp
qed

lemma fill_keeps:
  assumes t: "table_ok t" and inv: "gain_inv t start amount g" and start: "on_table t start" and a: "amount \<le> i64_MAX"
    and m: "next_exp_in_level (gain_progression g) - exp_in_level (gain_progression g) \<le> gain_remaining g"
  shows "gain_inv t start amount (fill_level g)"
    and "gain_progression (fill_level g) = (gain_progression g)\<lparr>exp_in_level := next_exp_in_level (gain_progression g)\<rparr>"
    and "gain_levels (fill_level g) = gain_levels g"
proof -
  let ?p = "gain_progression g" let ?d = "next_exp_in_level ?p - exp_in_level ?p"
  have p: "on_table t ?p" using inv by (simp add: gain_inv_def)
  note sp = on_table_step [OF t p]
  have d: "0 \<le> ?d" using p by (simp add: on_table_def)
  have full: "on_table t (?p\<lparr>exp_in_level := next_exp_in_level ?p\<rparr>)" using p d by (simp add: on_table_def)
  have r: "0 \<le> gain_applied g" "gain_applied g + gain_remaining g = amount" using inv by (simp_all add: gain_inv_def)
  have e: "exp_in_level ?p + ?d = next_exp_in_level ?p" by simp
  have wr: "sat_u 32 ?d = ?d" "sat_s 64 (gain_applied g + ?d) = gain_applied g + ?d"
    "sat_s 64 (gain_remaining g - ?d) = gain_remaining g - ?d"
    using d m r a sp(3,4) by (auto simp: sat_u_id sat_s_id in_u32_iff in_i64_iff)
  have four: "level_step (?p\<lparr>exp_in_level := next_exp_in_level ?p\<rparr>) = LEVEL_STEPS_PER_LEVEL"
    using on_table_step(1,2) [OF t full] by (simp add: LEVEL_STEPS_PER_LEVEL_def)
  have "fill_level g = g\<lparr>gain_progression := ?p\<lparr>exp_in_level := exp_in_level ?p + ?d\<rparr>,
      gain_applied := gain_applied g + ?d, gain_remaining := gain_remaining g - ?d,
      gain_level_steps := i32_add (gain_level_steps g) (crossed_steps
        (crossed_level_steps (pp_level ?p) (level_step ?p) (level_step (?p\<lparr>exp_in_level := exp_in_level ?p + ?d\<rparr>)))),
      gain_stat_points := i32_add (gain_stat_points g) (crossed_points
        (crossed_level_steps (pp_level ?p) (level_step ?p) (level_step (?p\<lparr>exp_in_level := exp_in_level ?p + ?d\<rparr>))))\<rparr>"
    unfolding fill_level_def Let_def wr e four by simp
  with raise_keeps [OF t inv start d m] e show "gain_inv t start amount (fill_level g)" by simp
  show "gain_progression (fill_level g) = ?p\<lparr>exp_in_level := next_exp_in_level ?p\<rparr>"
    and "gain_levels (fill_level g) = gain_levels g"
    by (simp_all add: fill_level_def Let_def)
qed

lemma within_keeps:
  assumes t: "table_ok t" and inv: "gain_inv t start amount g" and start: "on_table t start" and a: "amount \<le> i64_MAX"
    and m: "gain_remaining g < next_exp_in_level (gain_progression g) - exp_in_level (gain_progression g)"
  shows "gain_inv t start amount (gain_within_level g)" and "gain_remaining (gain_within_level g) = 0"
proof -
  let ?p = "gain_progression g" let ?d = "gain_remaining g"
  have p: "on_table t ?p" using inv by (simp add: gain_inv_def)
  note sp = on_table_step [OF t p]
  have r: "0 \<le> ?d" "0 \<le> gain_applied g" "gain_applied g + ?d = amount" using inv by (simp_all add: gain_inv_def)
  have "wrap_u 32 ?d = ?d"
    using r(1) m sp(3,4) unfolding wrap_u_def by (intro mod_pos_pos_trivial) (auto simp: in_u32_iff)
  moreover have "sat_u 32 (exp_in_level ?p + ?d) = exp_in_level ?p + ?d" "sat_s 64 (gain_applied g + ?d) = gain_applied g + ?d"
    using r m sp(3,4) a by (auto simp: sat_u_id sat_s_id in_u32_iff in_i64_iff)
  ultimately show "gain_inv t start amount (gain_within_level g)"
    using raise_keeps [OF t inv start r(1) order_refl] m by (simp add: gain_within_level_def Let_def)
  show "gain_remaining (gain_within_level g) = 0" by (simp add: gain_within_level_def Let_def)
qed

lemma loop_exit:
  "\<not> (0 < gain_remaining g \<and> pp_level (gain_progression g) < mx) \<Longrightarrow> exp_gain_loop t mx g = Some g"
  by (subst exp_gain_loop.simps) (simp add: Let_def)

lemma loop_returns:
  assumes t: "table_ok t" and start: "on_table t start" and a: "amount \<le> i64_MAX"
  shows "gain_inv t start amount g \<Longrightarrow>
    \<exists>g'. exp_gain_loop t (int (length t)) g = Some g' \<and> gain_inv t start amount g' \<and>
      (gain_remaining g' = 0 \<or> pp_level (gain_progression g') = int (length t))"
proof (induction "nat (int (length t) - pp_level (gain_progression g))" arbitrary: g rule: less_induct)
  case less
  let ?p = "gain_progression g" and ?n = "int (length t)"
  have p: "on_table t ?p" and r: "0 \<le> gain_remaining g" using less.prems by (simp_all add: gain_inv_def)
  note sp = on_table_step [OF t p]
  have le: "exp_in_level ?p \<le> next_exp_in_level ?p" using p by (simp add: on_table_def)
  have miss: "sat_u 32 (next_exp_in_level ?p - exp_in_level ?p) = next_exp_in_level ?p - exp_in_level ?p"
    using le sp(3,4) by (auto simp: sat_u_id in_u32_iff)
  note unf = exp_gain_loop.simps [of t ?n g, unfolded Let_def miss]
  consider (stop) "\<not> (0 < gain_remaining g \<and> pp_level ?p < ?n)"
    | (full) "0 < gain_remaining g" "pp_level ?p < ?n" "exp_in_level ?p = next_exp_in_level ?p"
    | (fill) "0 < gain_remaining g" "pp_level ?p < ?n" "exp_in_level ?p \<noteq> next_exp_in_level ?p"
        "next_exp_in_level ?p - exp_in_level ?p \<le> gain_remaining g"
    | (within) "0 < gain_remaining g" "pp_level ?p < ?n" "exp_in_level ?p \<noteq> next_exp_in_level ?p"
        "gain_remaining g < next_exp_in_level ?p - exp_in_level ?p"
    by linarith
  then show ?case
  proof cases
    case stop
    then show ?thesis using less.prems p r by (auto simp: loop_exit on_table_def)
  next
    case full
    from advance_keeps [OF t less.prems start full(3,2)] obtain p' n where
      adv: "advance_level t ?n ?p (gain_levels g) = Some (p', n)"
      and inv: "gain_inv t start amount (g\<lparr>gain_progression := p', gain_levels := n\<rparr>)"
      and l: "pp_level p' = pp_level ?p + 1" .
    have "exp_gain_loop t ?n g = exp_gain_loop t ?n (g\<lparr>gain_progression := p', gain_levels := n\<rparr>)"
      using full sp(2) adv by (subst unf) simp
    with less.hyps [OF _ inv] full(2) l show ?thesis by simp
  next
    case fill
    let ?g = "fill_level g"
    note fk = fill_keeps [OF t less.prems start a fill(4)]
    have "exp_in_level (gain_progression ?g) = next_exp_in_level (gain_progression ?g)"
      "pp_level (gain_progression ?g) < ?n" using fk(2) fill(2) by simp_all
    from advance_keeps [OF t fk(1) start this] obtain p' n where
      adv: "advance_level t ?n (gain_progression ?g) (gain_levels ?g) = Some (p', n)"
      and inv: "gain_inv t start amount (?g\<lparr>gain_progression := p', gain_levels := n\<rparr>)"
      and l: "pp_level p' = pp_level (gain_progression ?g) + 1" .
    have "exp_gain_loop t ?n g = exp_gain_loop t ?n (?g\<lparr>gain_progression := p', gain_levels := n\<rparr>)"
      using fill sp(2) adv by (subst unf) simp
    with less.hyps [OF _ inv] fill(2) l fk(2) show ?thesis by simp
  next
    case within
    note wk = within_keeps [OF t less.prems start a within(4)]
    have "exp_gain_loop t ?n g = exp_gain_loop t ?n (gain_within_level g)"
      using within sp(2) by (subst unf) simp
    with wk show ?thesis by (simp add: loop_exit)
  qed
qed

lemma gain_summary:
  assumes "try_new es = Inr t" and "int (length es) \<le> i32_MAX" and cur: "on_table t cur" and a: "in_i64 amount"
  obtains out where "apply_player_exp_gain t cur amount = Some (Some out)"
    and "gain_inv t cur (max amount 0)
      \<lparr>gain_progression = out_progression out, gain_remaining = max amount 0 - out_applied_exp out,
       gain_applied = out_applied_exp out, gain_stat_points = out_stat_points_gained out,
       gain_level_steps = out_level_steps_gained out, gain_levels = out_levels_gained out\<rparr>"
    and "out_applied_exp out = max amount 0 \<or> pp_level (out_progression out) = int (length t)"
proof -
  let ?g = "\<lparr>gain_progression = cur, gain_remaining = max amount 0, gain_applied = 0,
                gain_stat_points = 0, gain_level_steps = 0, gain_levels = 0\<rparr>"
  have t: "table_ok t" using assms(1,2) by (rule try_new_ok)
  have m: "max amount 0 \<le> i64_MAX" using a by (simp add: in_i64_iff)
  have "gain_inv t cur (max amount 0) ?g" using cur by (simp add: gain_inv_def wrap_i32_id in_i32_iff)
  from loop_returns [OF t cur m this] obtain g where
    g: "exp_gain_loop t (int (length t)) ?g = Some g" "gain_inv t cur (max amount 0) g"
      "gain_remaining g = 0 \<or> pp_level (gain_progression g) = int (length t)" by blast
  have "progression_for_level t (pp_level cur) (exp_in_level cur) = Some cur"
    using cur progression_on_table [OF t, of "pp_level cur" "exp_in_level cur"] on_table_step(4) [OF t cur]
    by (simp add: on_table_def progression_new_def clamp_u32_eq in_u32_iff)
  then have "apply_player_exp_gain t cur amount =
    Some (Some \<lparr>out_progression = gain_progression g, out_applied_exp = gain_applied g,
      out_stat_points_gained = gain_stat_points g, out_level_steps_gained = gain_level_steps g,
      out_levels_gained = gain_levels g\<rparr>)"
    using g(1) by (simp add: apply_player_exp_gain_def table_has_level(2) [OF t])
  from that [OF this] g(2,3) show ?thesis by (auto simp: gain_inv_def)
qed

text \<open>
  C13. The experience loop always returns, and it conserves experience: the total experience of the resulting
  progression is the old total plus what was applied, nothing is applied for a negative amount, and
  only reaching the table's last level makes it apply less than the amount granted.
\<close>

theorem exp_gain_conserves:
  assumes "try_new es = Inr t" and "int (length es) \<le> i32_MAX" and "on_table t cur" and "in_i64 amount"
  shows "\<exists>out. apply_player_exp_gain t cur amount = Some (Some out) \<and>
    total_exp t (out_progression out) = total_exp t cur + out_applied_exp out \<and>
    0 \<le> out_applied_exp out \<and> out_applied_exp out \<le> max amount 0 \<and>
    (out_applied_exp out = max amount 0 \<or> max_level t = Some (pp_level (out_progression out))) \<and>
    on_table t (out_progression out) \<and>
    out_levels_gained out = pp_level (out_progression out) - pp_level cur \<and> 0 \<le> out_levels_gained out"
proof -
  have t: "table_ok t" using assms(1,2) by (rule try_new_ok)
  from gain_summary [OF assms] obtain out where out: "apply_player_exp_gain t cur amount = Some (Some out)"
    and inv: "gain_inv t cur (max amount 0)
      \<lparr>gain_progression = out_progression out, gain_remaining = max amount 0 - out_applied_exp out,
       gain_applied = out_applied_exp out, gain_stat_points = out_stat_points_gained out,
       gain_level_steps = out_level_steps_gained out, gain_levels = out_levels_gained out\<rparr>"
    and fin: "out_applied_exp out = max amount 0 \<or> pp_level (out_progression out) = int (length t)" .
  from out inv fin show ?thesis
    by (intro exI [of _ out]) (auto simp: gain_inv_def table_has_level(2) [OF t])
qed

lemma wrap_clamped: "wrap_s 32 (max 0 (min i32_MAX x)) = max 0 (min i32_MAX x)"
  by (rule wrap_i32_id) (simp add: in_i32_iff)

lemma affordable_points:
  assumes "0 \<le> allocated_str a" "0 \<le> allocated_vit a" "0 \<le> allocated_dex a" "0 \<le> allocated_int a"
  shows "derive_available_stat_points l s a = max 0 (derive_available_stat_points l s no_allocations -
    (allocated_str a + allocated_vit a + allocated_dex a + allocated_int a))"
proof -
  define e where "e = (max 1 (min MAX_LEVEL_STAT_POINTS_EARNING l) - 1) * STAT_POINT_STEPS_PER_LEVEL +
    (if l < MAX_LEVEL_STAT_POINTS_EARNING then max 0 (min STAT_POINT_STEPS_PER_LEVEL s) else 0)"
  have eq: "derive_available_stat_points l s b = max 0 (min i32_MAX
      (e - (allocated_str b + allocated_vit b + allocated_dex b + allocated_int b)))" for b
    unfolding derive_available_stat_points_def Let_def wrap_clamped e_def ..
  have "0 \<le> e" "e \<le> 273"
    unfolding e_def MAX_LEVEL_STAT_POINTS_EARNING_def STAT_POINT_STEPS_PER_LEVEL_def LEVEL_STEPS_PER_LEVEL_def
    by auto
  then show ?thesis unfolding eq using assms by (simp add: no_allocations_def)
qed

text \<open>
  C14. Live play and reloading agree: the stat points handed out while experience is gained are exactly the
  difference between what hydration would compute for the progression after and before, for every
  allocation that the character could afford.
\<close>

theorem stat_points_match_hydration:
  assumes "try_new es = Inr t" and "int (length es) \<le> i32_MAX" and "on_table t cur" and "in_i64 amount"
    and "0 \<le> allocated_str a" "0 \<le> allocated_vit a" "0 \<le> allocated_dex a" "0 \<le> allocated_int a"
    and "allocated_str a + allocated_vit a + allocated_dex a + allocated_int a \<le>
      derive_available_stat_points (pp_level cur) (level_step cur) no_allocations"
    and "apply_player_exp_gain t cur amount = Some (Some out)"
  shows "derive_available_stat_points (pp_level (out_progression out)) (level_step (out_progression out)) a =
    derive_available_stat_points (pp_level cur) (level_step cur) a + out_stat_points_gained out"
proof -
  have t: "table_ok t" using assms(1,2) by (rule try_new_ok)
  from gain_summary [OF assms(1-4)] assms(10) have
    inv: "gain_inv t cur (max amount 0)
      \<lparr>gain_progression = out_progression out, gain_remaining = max amount 0 - out_applied_exp out,
       gain_applied = out_applied_exp out, gain_stat_points = out_stat_points_gained out,
       gain_level_steps = out_level_steps_gained out, gain_levels = out_levels_gained out\<rparr>" by auto
  then have o: "on_table t (out_progression out)" "pp_level cur \<le> pp_level (out_progression out)"
    and pts: "out_stat_points_gained out = earned_points (out_progression out) - earned_points cur"
    and up: "earned_points cur \<le> earned_points (out_progression out)"
    by (simp_all add: gain_inv_def)
  show ?thesis
    using affordable_points [of a "pp_level cur" "level_step cur"] assms(5-9) pts up
      affordable_points [of a "pp_level (out_progression out)" "level_step (out_progression out)"]
    by (simp add: earned_points_def)
qed

section \<open>Mob rewards\<close>

lemma reward_bounds:
  assumes "0 < next_exp"
  shows "0 \<le> legacy_mob_exp_reward pl ml base_exp next_exp"
    and "legacy_mob_exp_reward pl ml base_exp next_exp \<le> next_exp div 10"
  using assms by (auto simp: legacy_mob_exp_reward_def Let_def sdiv_nonneg)

text \<open>
  The reward of a kill is the base experience scaled by the level-difference percentage, cut at a tenth of
  the level requirement; it is never negative, so an out-levelled or worthless mob gives nothing.
\<close>

theorem mob_reward_formula:
  assumes "in_i64 base_exp" and "base_exp \<le> i64_MAX div 180"
  shows "legacy_mob_exp_reward pl ml base_exp next_exp =
    (if base_exp \<le> 0 then 0
     else if 0 < next_exp
     then min (base_exp * exp_reward_bonus_malus_percent pl ml div 100) (next_exp div 10)
     else base_exp * exp_reward_bonus_malus_percent pl ml div 100)"
proof (cases "base_exp \<le> 0")
  case False
  let ?x = "exp_reward_bonus_malus_percent pl ml"
  have x: "0 \<le> ?x" "?x \<le> 180" using exp_percent_range [of pl ml] by simp_all
  have "base_exp * ?x \<le> base_exp * 180" using x False by (intro mult_left_mono) auto
  moreover have "0 \<le> base_exp * ?x" using x False by simp
  ultimately have "sat_s 64 (base_exp * ?x) = base_exp * ?x"
    using assms by (intro sat_s_id) (auto simp: in_i64_iff)
  moreover have "0 \<le> base_exp * ?x div 100" using \<open>0 \<le> base_exp * ?x\<close> by (simp add: pos_imp_zdiv_nonneg_iff)
  ultimately show ?thesis
    using False \<open>0 \<le> base_exp * ?x\<close> by (simp add: legacy_mob_exp_reward_def Let_def sdiv_nonneg)
qed (simp add: legacy_mob_exp_reward_def)

lemma total_exp_level_gap:
  assumes t: "table_ok t" and p: "on_table t p" and q: "on_table t q" and l: "pp_level p + 1 < pp_level q"
  shows "total_exp t p + level_next t (pp_level p + 1) \<le> total_exp t q"
proof -
  let ?s = "\<lambda>a b. sum_list (map (level_next t) [a..b])"
  have nn: "0 \<le> ?s a b" if ab: "1 \<le> a" "b \<le> int (length t)" for a b
  proof (rule sum_list_nonneg)
    fix x assume "x \<in> set (map (level_next t) [a..b])"
    then obtain i where "x = level_next t i" "1 \<le> i" "i \<le> int (length t)" using ab by force
    with table_has_level(3) [OF t, of i] show "0 \<le> x" by simp
  qed
  have pl: "1 \<le> pp_level p" "exp_in_level p \<le> level_next t (pp_level p)" "pp_level q \<le> int (length t)"
    "0 \<le> exp_in_level q" using p q by (simp_all add: on_table_def)
  have "[1..pp_level q - 1] = [1..pp_level p - 1] @ pp_level p # (pp_level p + 1) # [2 + pp_level p..pp_level q - 1]"
    using pl(1) l by (subst upto_split1 [of 1 "pp_level p"]) (simp_all add: upto.simps [of "pp_level p"] upto.simps [of "pp_level p + 1"])
  then have "?s 1 (pp_level q - 1) = ?s 1 (pp_level p - 1) + (level_next t (pp_level p) +
      (level_next t (pp_level p + 1) + ?s (2 + pp_level p) (pp_level q - 1)))" by simp
  then show ?thesis
    unfolding total_exp_def using nn [of "2 + pp_level p" "pp_level q - 1"] pl by simp
qed

text \<open>
  On a table whose requirement does not drop from a level to the next, one kill raises a character by at
  most one level, whatever the mob; and the outcome reports the new level exactly when it rose.
\<close>

theorem one_kill_at_most_one_level:
  assumes "try_new es = Inr (level_exp rules)" and "int (length es) \<le> i32_MAX" and "on_table (level_exp rules) cur"
    and "in_i64 base_exp"
    and "level_next (level_exp rules) (pp_level cur) \<le> level_next (level_exp rules) (pp_level cur + 1)"
    and "apply_mob_exp_reward rules cur mob_level base_exp = Some (Some out)"
  shows "pp_level (mob_progression out) \<in> {pp_level cur, pp_level cur + 1} \<and>
    level_up out = (if pp_level (mob_progression out) = pp_level cur then None else Some (pp_level cur + 1)) \<and>
    0 < mob_applied_exp out"
proof -
  let ?t = "level_exp rules"
  let ?a = "legacy_mob_exp_reward (pp_level cur) mob_level base_exp (next_exp_in_level cur)"
  have t: "table_ok ?t" using assms(1,2) by (rule try_new_ok)
  note sp = on_table_step [OF t assms(3)]
  have a: "0 \<le> ?a" "?a \<le> next_exp_in_level cur div 10" using reward_bounds [OF sp(2)] by blast+
  then have "?a < next_exp_in_level cur" and a64: "in_i64 ?a"
    using sp(2,3) by (auto simp: in_i64_iff in_u32_iff)
  from gain_summary [OF assms(1-3) a64] assms(6) obtain g where
    g: "apply_player_exp_gain ?t cur ?a = Some (Some g)"
    and inv: "gain_inv ?t cur (max ?a 0)
      \<lparr>gain_progression = out_progression g, gain_remaining = max ?a 0 - out_applied_exp g,
       gain_applied = out_applied_exp g, gain_stat_points = out_stat_points_gained g,
       gain_level_steps = out_level_steps_gained g, gain_levels = out_levels_gained g\<rparr>" by blast
  with assms(6) have out: "mob_progression out = out_progression g" "mob_applied_exp out = out_applied_exp g"
    "0 < out_applied_exp g"
    "level_up out = (if pp_level cur < pp_level (out_progression g) then Some (pp_level (out_progression g)) else None)"
    by (auto simp: apply_mob_exp_reward_def Let_def split: if_splits)
  have o: "on_table ?t (out_progression g)" "pp_level cur \<le> pp_level (out_progression g)"
    "total_exp ?t (out_progression g) = total_exp ?t cur + out_applied_exp g" "out_applied_exp g \<le> ?a"
    using inv a(1) by (simp_all add: gain_inv_def)
  have "\<not> pp_level cur + 1 < pp_level (out_progression g)"
  proof
    assume "pp_level cur + 1 < pp_level (out_progression g)"
    from total_exp_level_gap [OF t assms(3) o(1) this] have "level_next ?t (pp_level cur + 1) \<le> ?a"
      using o(3,4) by simp
    with assms(3,5) \<open>?a < next_exp_in_level cur\<close> show False by (simp add: on_table_def)
  qed
  with o(2) out show ?thesis by auto
qed

section \<open>A small level table\<close>

definition example_levels :: "LevelExpEntry list" where
  "example_levels =
    [\<lparr>le_level = 2, le_next_exp = 800, death_loss_pct = 5\<rparr>, \<lparr>le_level = 1, le_next_exp = 300, death_loss_pct = 5\<rparr>,
     \<lparr>le_level = 3, le_next_exp = 1500, death_loss_pct = 5\<rparr>]"

definition example_table :: LevelExpTable where
  "example_table =
    [(1, \<lparr>le_level = 1, le_next_exp = 300, death_loss_pct = 5\<rparr>), (2, \<lparr>le_level = 2, le_next_exp = 800, death_loss_pct = 5\<rparr>),
     (3, \<lparr>le_level = 3, le_next_exp = 1500, death_loss_pct = 5\<rparr>)]"

lemma example_table_accepted: "try_new example_levels = Inr example_table"
  by (simp add: try_new_def example_levels_def example_table_def bt_get_def bt_keys_def wrap_i32_id in_i32_iff)

lemma example_next:
  "level_next example_table 1 = 300" "level_next example_table 2 = 800" "level_next example_table 3 = 1500"
  by (simp_all add: level_next_def example_table_def bt_get_def clamp_u32_eq)

lemma example_on_table: "on_table example_table (progression_new 1 100 300)"
  by (simp add: on_table_def progression_new_def example_next) (simp add: example_table_def)

theorem level_table_accepted_iff_witness:
  "int (length example_levels) \<le> i32_MAX \<and> (\<exists>t. try_new example_levels = Inr t)"
proof -
  have "int (length example_levels) \<le> i32_MAX" by (simp add: example_levels_def)
  moreover from level_table_accepted_iff [OF this] have "\<exists>t. try_new example_levels = Inr t"
    by (auto simp: example_levels_def)
  ultimately show ?thesis ..
qed

theorem exp_gain_conserves_witness:
  "\<exists>out. apply_player_exp_gain example_table (progression_new 1 100 300) 1000 = Some (Some out) \<and>
    total_exp example_table (out_progression out) =
      total_exp example_table (progression_new 1 100 300) + out_applied_exp out"
proof -
  have "int (length example_levels) \<le> i32_MAX" "in_i64 1000" by (simp_all add: example_levels_def in_i64_iff)
  from exp_gain_conserves [OF example_table_accepted this(1) example_on_table this(2)] show ?thesis by blast
qed

theorem stat_points_match_hydration_witness:
  "\<exists>out. apply_player_exp_gain example_table (progression_new 1 100 300) 1000 = Some (Some out) \<and>
    derive_available_stat_points (pp_level (out_progression out)) (level_step (out_progression out)) no_allocations =
    derive_available_stat_points 1 1 no_allocations + out_stat_points_gained out"
proof -
  let ?cur = "progression_new 1 100 300"
  have c: "int (length example_levels) \<le> i32_MAX" "in_i64 1000" by (simp_all add: example_levels_def in_i64_iff)
  obtain out where out: "apply_player_exp_gain example_table ?cur 1000 = Some (Some out)"
    using gain_summary [OF example_table_accepted c(1) example_on_table c(2)] by blast
  have cur: "pp_level ?cur = 1" "level_step ?cur = 1"
    by (simp_all add: level_step_eq progression_new_def in_u32_iff)
  have "0 \<le> derive_available_stat_points 1 1 no_allocations"
    by (simp add: derive_available_stat_points_def Let_def wrap_clamped)
  with stat_points_match_hydration [OF example_table_accepted c(1) example_on_table c(2) _ _ _ _ _ out, of no_allocations] out
  show ?thesis by (simp add: cur) (simp add: no_allocations_def)
qed

theorem mob_reward_formula_witness:
  "legacy_mob_exp_reward 1 1 15 300 = min (15 * exp_reward_bonus_malus_percent 1 1 div 100) 30"
proof -
  have "in_i64 15" "15 \<le> i64_MAX div 180" by (simp_all add: in_i64_iff)
  from mob_reward_formula [OF this, of 1 1 300] show ?thesis by simp
qed

theorem one_kill_at_most_one_level_witness:
  "\<exists>out. apply_mob_exp_reward \<lparr>class_stats = [], level_exp = example_table\<rparr> (progression_new 1 290 300) 1 15 = Some (Some out) \<and>
    pp_level (mob_progression out) = 2 \<and> level_up out = Some 2"
proof -
  let ?r = "\<lparr>class_stats = [], level_exp = example_table\<rparr>" and ?cur = "progression_new 1 290 300"
  have acc: "try_new example_levels = Inr (level_exp ?r)" by (simp add: example_table_accepted)
  have c: "int (length example_levels) \<le> i32_MAX" "in_i64 15" "on_table (level_exp ?r) ?cur"
    using example_on_table by (simp_all add: example_levels_def in_i64_iff on_table_def progression_new_def)
  have m: "level_next (level_exp ?r) (pp_level ?cur) \<le> level_next (level_exp ?r) (pp_level ?cur + 1)"
    by (simp add: progression_new_def example_next)
  have "apply_mob_exp_reward ?r ?cur 1 15 =
    Some (Some \<lparr>mob_progression = progression_new 2 5 800, mob_applied_exp = 15, mob_stat_points_gained = 0,
      mob_level_steps_gained = 1, level_up = Some 2\<rparr>)"
    by code_simp
  from one_kill_at_most_one_level [OF acc c(1,3,2) m this] this show ?thesis by (simp add: progression_new_def)
qed

end
