(* ===== verification/Stats_Resources.thy ===== *)
theory Stats_Resources
  imports Stats_Sync
begin

text \<open>
  What the resource operations of \<^verbatim>\<open>stats/game/api.rs\<close> do to the live resources: damage and healing
  through \<^verbatim>\<open>apply_resource\<close>, and the two recovery buckets that queue healing over time.
\<close>

section \<open>Slots\<close>

abbreviation slot :: "('src, 'det) ActorStatState \<Rightarrow> Stat \<Rightarrow> i32 option" where
  "slot st s \<equiv> resource_slot (resources st) s"

text \<open>Everything but resources and change marks is untouched.\<close>

definition same_frame :: "('src, 'det) ActorStatState \<Rightarrow> ('src, 'det) ActorStatState \<Rightarrow> bool" where
  "same_frame st st' \<longleftrightarrow> base st' = base st \<and> computed st' = computed st \<and> modifiers st' = modifiers st \<and>
    progression st' = progression st \<and> stable_id st' = stable_id st \<and> as_kind st' = as_kind st \<and>
    runtime st' = runtime st"

lemma same_frame_refl [simp]: "same_frame st st"
  by (simp add: same_frame_def)

lemma same_frame_trans: "same_frame a b \<Longrightarrow> same_frame b c \<Longrightarrow> same_frame a c"
  by (simp add: same_frame_def)

lemma value_of_slot:
  "current_resource_value st s = (case slot st s of Some v \<Rightarrow> Inr v | None \<Rightarrow> Inl (NotResource s))"
  by (cases s) (simp_all add: current_resource_value_def resource_slot_def)

definition cap_stat_of :: "Stat \<Rightarrow> Stat option" where
  "cap_stat_of s = (if s = Hp then Some MaxHp else if s = Sp then Some MaxSp
    else if s = Stamina then Some MaxStamina else None)"

lemma cap_of_stat:
  "current_resource_cap st s =
    (case cap_stat_of s of Some c \<Rightarrow> Inr (pvs_get (computed st) c) | None \<Rightarrow> Inl (NotResource s))"
  by (cases s) (simp_all add: current_resource_cap_def cap_stat_of_def)

lemma set_resource_slot:
  assumes "slot st s \<noteq> None"
  obtains st' where "set_resource_stat st s v = (Inr (), st')" and "same_frame st st'"
    and "\<And>t. slot st' t = (if t = s then Some v else slot st t)"
proof (cases "slot st s = Some v")
  case True
  then show ?thesis by (intro that [of st]) (simp_all add: set_resource_stat_def)
next
  case False
  with assms show ?thesis
    by (intro that [of "record_explicit_change s (st\<lparr>resources := resource_put (resources st) s v\<rparr>)"])
      (auto simp: set_resource_stat_def record_explicit_change_def same_frame_def resource_slot_put)
qed

lemma put_resource_slot:
  assumes "slot st s \<noteq> None"
  obtains st' where "put_resource st s v = Some st'" and "same_frame st st'"
    and "\<And>t. slot st' t = (if t = s then Some v else slot st t)"
proof -
  obtain st' where "set_resource_stat st s v = (Inr (), st')" and f: "same_frame st st'"
    and s: "\<And>t. slot st' t = (if t = s then Some v else slot st t)"
    using set_resource_slot [OF assms, of v] by blast
  then have "put_resource st s v = Some st'" by (simp add: put_resource_def)
  from that [OF this f s] show ?thesis .
qed

lemma has_cap_has_slot: "cap_stat_of s = Some c \<Longrightarrow> slot st s \<noteq> None"
  by (auto simp: cap_stat_of_def resource_slot_if split: if_splits)

section \<open>Damage and healing\<close>

lemma apply_resource_eq:
  assumes "slot st (ra_stat a) = Some cur" and "upper_bound_for st a = Inr ub" and "ra_min_value a \<le> ub"
  obtains st' where
    "apply_resource st a = Some (Inr \<lparr>rar_stat = ra_stat a, rar_previous = cur,
        rar_current = max (ra_min_value a) (min ub (sat_s 32 (cur + ra_delta a))),
        rar_applied_delta = i32_sub (max (ra_min_value a) (min ub (sat_s 32 (cur + ra_delta a)))) cur,
        rar_was_clamped = (max (ra_min_value a) (min ub (sat_s 32 (cur + ra_delta a))) \<noteq> sat_s 32 (cur + ra_delta a))\<rparr>, st')"
    and "same_frame st st'"
    and "\<And>t. slot st' t = (if t = ra_stat a then Some (max (ra_min_value a) (min ub (sat_s 32 (cur + ra_delta a)))) else slot st t)"
proof -
  let ?n = "max (ra_min_value a) (min ub (sat_s 32 (cur + ra_delta a)))"
  have "slot st (ra_stat a) \<noteq> None" using assms(1) by simp
  from put_resource_slot [OF this, of ?n] obtain st' where
    st': "put_resource st (ra_stat a) ?n = Some st'" "same_frame st st'"
    "\<And>t. slot st' t = (if t = ra_stat a then Some ?n else slot st t)" by blast
  show ?thesis
    by (rule that [OF _ st'(2,3)]) (use assms st'(1) in \<open>simp add: apply_resource_def value_of_slot clamp_Some\<close>)
qed

text \<open>
  Damage and healing: applying a resource change to a capped resource never panics while the cap is not
  below the floor, moves that resource to the changed value clamped between floor and cap, reports
  exactly the difference, and leaves every other resource and all stats alone.
\<close>

theorem apply_resource_moves_within_bounds:
  assumes "cap_stat_of (ra_stat a) = Some c" and "ra_clamp_to_cap a" and "slot st (ra_stat a) = Some cur"
    and "0 \<le> cur" and "in_i32 cur" and "in_i32 (ra_min_value a)" and "ra_min_value a \<le> pvs_get (computed st) c"
    and "in_i32 (pvs_get (computed st) c)" and "in_i32 (ra_delta a)" and "0 \<le> pvs_get (computed st) c"
  shows "\<exists>res st'. apply_resource st a = Some (Inr res, st') \<and>
    rar_current res = max (ra_min_value a) (min (pvs_get (computed st) c) (cur + ra_delta a)) \<and>
    rar_previous res = cur \<and> rar_applied_delta res = rar_current res - cur \<and>
    (\<forall>t. slot st' t = (if t = ra_stat a then Some (rar_current res) else slot st t)) \<and> same_frame st st'"
proof -
  let ?cap = "pvs_get (computed st) c"
  let ?n = "max (ra_min_value a) (min ?cap (sat_s 32 (cur + ra_delta a)))"
  have "upper_bound_for st a = Inr ?cap" using assms(1,2) by (simp add: upper_bound_for_def cap_of_stat)
  from apply_resource_eq [OF assms(3) this assms(7)] obtain st' where
    r: "apply_resource st a = Some (Inr \<lparr>rar_stat = ra_stat a, rar_previous = cur, rar_current = ?n,
        rar_applied_delta = i32_sub ?n cur, rar_was_clamped = (?n \<noteq> sat_s 32 (cur + ra_delta a))\<rparr>, st')"
    "same_frame st st'" "\<And>t. slot st' t = (if t = ra_stat a then Some ?n else slot st t)" by blast
  have n: "?n = max (ra_min_value a) (min ?cap (cur + ra_delta a))"
    using assms(4-9) by (auto simp: sat_i32_eq in_i32_iff min_def max_def)
  moreover have "i32_sub ?n cur = ?n - cur"
    unfolding n using assms(4-10) by (intro wrap_i32_id) (auto simp: in_i32_iff min_def max_def)
  ultimately show ?thesis using r by auto
qed

text \<open>
  Poison never kills: on a living actor with a positive cap it subtracts the damage but stops at one hit
  point, so the actor is still alive afterwards.
\<close>

theorem poison_is_nonlethal:
  assumes "1 \<le> hp (resources st)" and "in_i32 (hp (resources st))" and "0 \<le> amount" and "in_i32 amount"
    and "hp (resources st) \<le> pvs_get (computed st) MaxHp"
  shows "\<exists>res st'. apply_resource st (poison amount) = Some (Inr res, st') \<and>
    hp (resources st') = max 1 (hp (resources st) - amount) \<and> 1 \<le> hp (resources st') \<and> same_frame st st'"
proof -
  let ?h = "hp (resources st)" and ?cap = "pvs_get (computed st) MaxHp"
  have p: "ra_stat (poison amount) = Hp" "ra_min_value (poison amount) = 1" "ra_delta (poison amount) = - amount"
    "ra_clamp_to_cap (poison amount)"
    using assms(3,4)
    by (simp_all add: poison_def nonlethal_damage_def with_min_value_def ra_damage_def ra_spend_def ra_new_def
        wrap_i32_id in_i32_iff)
  have ub: "upper_bound_for st (poison amount) = Inr ?cap" and s: "slot st (ra_stat (poison amount)) = Some ?h"
    by (simp_all add: upper_bound_for_def p cap_of_stat cap_stat_of_def resource_slot_if)
  have m: "ra_min_value (poison amount) \<le> ?cap" using p(2) assms(1,5) by simp
  from apply_resource_eq [OF s ub m] obtain res st' where r: "apply_resource st (poison amount) = Some (Inr res, st')"
    and f: "same_frame st st'"
    and "\<And>t. slot st' t = (if t = ra_stat (poison amount) then Some (max (ra_min_value (poison amount))
      (min ?cap (sat_s 32 (?h + ra_delta (poison amount))))) else slot st t)" by blast
  then have sl: "slot st' Hp = Some (max 1 (min ?cap (sat_s 32 (?h - amount))))" by (simp add: p)
  have "max 1 (min ?cap (sat_s 32 (?h - amount))) = max 1 (?h - amount)"
    using assms by (auto simp: sat_i32_eq in_i32_iff min_def max_def)
  with sl have "hp (resources st') = max 1 (?h - amount)" by (simp add: resource_slot_if)
  with r f show ?thesis by auto
qed

section \<open>Recovery buckets\<close>

definition bucket_of :: "Stat \<Rightarrow> Stat" where
  "bucket_of s = (if s = Hp then HpRecovery else SpRecovery)"

lemma bucket_facts:
  assumes "s \<in> {Hp, Sp}"
  shows "recovery_bucket_for_resource s = Inr (bucket_of s)" and "cap_stat_of s \<noteq> None"
    and "bucket_of s \<noteq> s" and "slot st (bucket_of s) \<noteq> None" and "slot st s \<noteq> None"
  using assms by (auto simp: recovery_bucket_for_resource_def bucket_of_def cap_stat_of_def resource_slot_if)

text \<open>
  Automatic recovery never queues more than is missing: what it adds to the bucket is the available amount
  cut to what the current value and the bucket still leave below the cap, so together they never
  pass the cap unless they already did.
\<close>

theorem auto_recovery_never_overqueues:
  assumes "s \<in> {Hp, Sp}" and "slot st s = Some cur" and "slot st (bucket_of s) = Some pend"
    and "current_resource_cap st s = Inr cap" and "0 \<le> cur" and "0 \<le> pend" and "in_i32 cur" and "in_i32 pend" and "in_i32 cap"
    and "cur + pend \<le> i32_MAX" and "0 \<le> cap"
  shows "\<exists>r st'. queue_auto_recovery st s amount = (Inr r, st') \<and>
    slot st' (bucket_of s) = Some (pend + max 0 (min (max amount 0) (cap - (cur + pend)))) \<and>
    slot st' s = Some cur \<and> (r = None \<longleftrightarrow> st' = st)"
proof -
  note b = bucket_facts(1-3) [OF assms(1)] bucket_facts(4,5) [OF assms(1), of st]
  let ?q = "min (max amount 0) (cap - (cur + pend))"
  have sat: "sat_s 32 (cap - sat_s 32 (cur + pend)) = cap - (cur + pend)"
    using assms(5-11) by (simp add: sat_s_id in_i32_iff)
  show ?thesis
  proof (cases "?q \<le> 0")
    case True
    then have "queue_auto_recovery st s amount = (Inr None, st)"
      unfolding queue_auto_recovery_def using assms(2-4) b(1) by (simp add: value_of_slot sat Let_def)
    with True assms(2,3) show ?thesis by simp
  next
    case False
    have "?q \<le> cap - (cur + pend)" by simp
    then have n: "sat_s 32 (pend + ?q) = pend + ?q"
      using False assms(5-11) unfolding in_i32_iff by (intro sat_s_id) (auto simp only: in_i32_iff; linarith)
    obtain st' where st': "set_resource_stat st (bucket_of s) (pend + ?q) = (Inr (), st')"
      "\<And>t. slot st' t = (if t = bucket_of s then Some (pend + ?q) else slot st t)"
      using set_resource_slot [OF b(4), of "pend + ?q"] by metis
    have ne: "st' \<noteq> st" using st'(2) [of "bucket_of s"] assms(3) False by auto
    have "queue_auto_recovery st s amount = (Inr (Some \<lparr>qr_stat = s, qr_previous_pending = pend,
        qr_current_pending = pend + ?q, qr_queued_amount = ?q\<rparr>), st')"
      unfolding queue_auto_recovery_def using assms(2-4) b(1) False st'(1)
      by (simp only: value_of_slot sum.case option.case Let_def sat n) simp
    then show ?thesis using st'(2) b(3) assms(2) False ne by auto
  qed
qed

lemma restore_slot:
  assumes "slot st s = Some cur" and "current_resource_cap st s = Inr cap" and "0 \<le> cap"
  obtains res st' where "apply_resource st (ra_restore s d) = Some (Inr res, st')" and "same_frame st st'"
    and "\<And>t. slot st' t = (if t = s then Some (max 0 (min cap (sat_s 32 (cur + d)))) else slot st t)"
proof -
  let ?a = "ra_restore s d"
  have a: "ra_stat ?a = s" "ra_delta ?a = d" "ra_min_value ?a = 0" "ra_clamp_to_cap ?a"
    by (simp_all add: ra_restore_def ra_new_def)
  have "slot st (ra_stat ?a) = Some cur" "upper_bound_for st ?a = Inr cap" "ra_min_value ?a \<le> cap"
    using assms by (simp_all add: a upper_bound_for_def)
  from apply_resource_eq [OF this, unfolded a] that show ?thesis by blast
qed

lemma same_frame_cap: "same_frame st st' \<Longrightarrow> current_resource_cap st' s = current_resource_cap st s"
  by (cases "cap_stat_of s") (simp_all add: same_frame_def cap_of_stat)

text \<open>
  Applying pending recovery moves life from the bucket to the resource and never creates any: below the cap
  the scheduled part of the bucket is taken out of it and added to the resource, cut at the cap; at or
  above the cap the bucket is emptied and the resource brought back to the cap.
\<close>

theorem pending_recovery_conserves:
  assumes "s \<in> {Hp, Sp}" and "slot st s = Some cur" and "slot st (bucket_of s) = Some pend"
    and "current_resource_cap st s = Inr cap" and "0 \<le> cur" and "0 \<le> pend" and "in_i32 cur" and "in_i32 pend" and "in_i32 cap"
    and "0 \<le> cap"
  shows "\<exists>res st'. apply_pending_recovery st s amount = Some (Inr res, st') \<and>
    slot st' s = Some (if cap \<le> cur then cap else min cap (cur + min (max amount 0) pend)) \<and>
    slot st' (bucket_of s) = Some (if cap \<le> cur then 0 else pend - min (max amount 0) pend) \<and> same_frame st st'"
proof -
  note b = bucket_facts(1-3) [OF assms(1)] bucket_facts(4,5) [OF assms(1)]
  show ?thesis
  proof (cases "cap \<le> cur")
    case True
    obtain st1 where s1: "set_resource_stat st (bucket_of s) 0 = (Inr (), st1)" "same_frame st st1"
      "\<And>t. slot st1 t = (if t = bucket_of s then Some 0 else slot st t)"
      using set_resource_slot [OF b(4), of st 0] by blast
    have "slot st1 s = Some cur" using s1(3) b(3) assms(2) by auto
    moreover have "current_resource_cap st1 s = Inr cap" using same_frame_cap [OF s1(2)] assms(4) by simp
    ultimately obtain res st2 where
      r: "apply_resource st1 (ra_restore s 0) = Some (Inr res, st2)" "same_frame st1 st2"
      "\<And>t. slot st2 t = (if t = s then Some (max 0 (min cap (sat_s 32 (cur + 0)))) else slot st1 t)"
      using restore_slot [OF _ _ assms(10)] by blast
    have "max 0 (min cap (sat_s 32 (cur + 0))) = cap" using True assms(5,7,10) by (simp add: sat_s_id)
    moreover have "apply_pending_recovery st s amount = Some (Inr res, st2)"
      using True assms(2-4) b(1) s1(1) r(1) by (simp add: apply_pending_recovery_def value_of_slot)
    ultimately show ?thesis
      using True r(3) s1(3) b(3) same_frame_trans [OF s1(2) r(2)] by auto
  next
    case False
    let ?d = "min (max amount 0) pend"
    obtain res st1 where
      r: "apply_resource st (ra_restore s ?d) = Some (Inr res, st1)" "same_frame st st1"
      "\<And>t. slot st1 t = (if t = s then Some (max 0 (min cap (sat_s 32 (cur + ?d)))) else slot st t)"
      using restore_slot [OF assms(2,4,10), of ?d] by blast
    have v: "max 0 (min cap (sat_s 32 (cur + ?d))) = min cap (cur + ?d)"
    proof -
      have "0 \<le> ?d" using assms(6) by simp
      moreover have "min cap (min i32_MAX (cur + ?d)) = min cap (cur + ?d)"
        using assms(9) unfolding in_i32_iff min.assoc [symmetric] by (simp add: min_absorb1)
      ultimately show ?thesis using assms(5,10) by (simp add: sat_i32_eq)
    qed
    have sl: "slot st1 s = Some (min cap (cur + ?d))" using r(3) [of s] unfolding v by simp
    have sd: "sat_s 32 (pend - ?d) = pend - ?d" using assms(6,8) by (intro sat_s_id) (auto simp: in_i32_iff)
    show ?thesis
    proof (cases "0 < ?d")
      case True
      obtain st2 where s2: "set_resource_stat st1 (bucket_of s) (pend - ?d) = (Inr (), st2)" "same_frame st1 st2"
        "\<And>t. slot st2 t = (if t = bucket_of s then Some (pend - ?d) else slot st1 t)"
        using set_resource_slot [OF b(4), of st1 "pend - ?d"] by blast
      have "apply_pending_recovery st s amount = Some (Inr res, st2)"
        unfolding apply_pending_recovery_def Let_def
        by (simp only: b(1) value_of_slot assms(2-4) sum.case option.case False if_False r(1) bind.bind_lunit prod.case
            True if_True sd s2(1))
      moreover have "slot st2 s = Some (min cap (cur + ?d))" "slot st2 (bucket_of s) = Some (pend - ?d)"
        using s2(3) [of s] s2(3) [of "bucket_of s"] b(3) [symmetric] sl by (simp_all only: if_True if_False refl)
      moreover have "same_frame st st2" by (rule same_frame_trans [OF r(2) s2(2)])
      ultimately show ?thesis unfolding if_not_P [OF False] by blast
    next
      case nd: False
      have "apply_pending_recovery st s amount = Some (Inr res, st1)"
        unfolding apply_pending_recovery_def Let_def
        by (simp only: b(1) value_of_slot assms(2-4) sum.case option.case False if_False r(1) bind.bind_lunit prod.case nd)
      moreover have "?d = 0" using nd assms(6) by auto
      moreover have "slot st1 s = Some (min cap (cur + ?d))" "slot st1 (bucket_of s) = Some (pend - 0)"
        using r(3) [of "bucket_of s"] b(3) assms(3) sl by (simp_all only: if_True if_False) simp
      ultimately show ?thesis unfolding if_not_P [OF False] using r(2) by metis
    qed
  qed
qed

section \<open>A wounded actor\<close>

definition example_wounded :: "(unit, unit) ActorStatState" where
  "example_wounded = (state_new KPlayer)
    \<lparr>resources := \<lparr>hp = 40, sp = 10, stamina = 5, hp_recovery = 30, sp_recovery = 0\<rparr>,
     computed := pvs_set (pvs_set pvs_new MaxHp 100) MaxSp 50\<rparr>"

lemma example_wounded_slots:
  "slot example_wounded Hp = Some 40" "slot example_wounded HpRecovery = Some 30"
  "pvs_get (computed example_wounded) MaxHp = 100" "current_resource_cap example_wounded Hp = Inr 100"
  "hp (resources example_wounded) = 40" "bucket_of Hp = HpRecovery"
  by (simp_all add: example_wounded_def resource_slot_def pvs_get_set current_resource_cap_def bucket_of_def)

theorem apply_resource_moves_within_bounds_witness:
  "\<exists>res st'. apply_resource example_wounded (ra_restore Hp 75) = Some (Inr res, st') \<and> slot st' Hp = Some 100"
  using apply_resource_moves_within_bounds [of "ra_restore Hp 75" MaxHp example_wounded 40]
  by (auto simp: ra_restore_def ra_new_def cap_stat_of_def example_wounded_slots in_i32_iff)

theorem poison_is_nonlethal_witness:
  "\<exists>res st'. apply_resource example_wounded (poison 75) = Some (Inr res, st') \<and> hp (resources st') = 1"
  using poison_is_nonlethal [of example_wounded 75]
  by (auto simp: example_wounded_slots in_i32_iff)

theorem auto_recovery_never_overqueues_witness:
  "\<exists>r st'. queue_auto_recovery example_wounded Hp 500 = (Inr r, st') \<and> slot st' HpRecovery = Some 60"
  using auto_recovery_never_overqueues [of Hp example_wounded 40 30 100 500]
  by (auto simp: example_wounded_slots in_i32_iff)

theorem pending_recovery_conserves_witness:
  "\<exists>res st'. apply_pending_recovery example_wounded Hp 20 = Some (Inr res, st') \<and>
    slot st' Hp = Some 60 \<and> slot st' HpRecovery = Some 10"
  using pending_recovery_conserves [of Hp example_wounded 40 30 100 20]
  by (auto simp: example_wounded_slots in_i32_iff)

end
