(* ===== verification/Player_Hydration.thy ===== *)
theory Player_Hydration
  imports Player_Exp Stats_Resources
begin

text \<open>
  Correctness of \<^verbatim>\<open>PlayerStatRules::hydrate_player\<close> and of the snapshot it hands to the client: a stored
  character is restored with its stats, progression, stat points and clamped resources, and the
  snapshot shows every visible stat.
\<close>

section \<open>Snapshots\<close>

lemma foldl_insert_wire:
  "bt_wf m \<Longrightarrow> bt_wf (foldl (insert_wire st) m ss) \<and>
    bt_get (foldl (insert_wire st) m ss) s = (if s \<in> set ss then Some (wire_u32 st s) else bt_get m s)"
  by (induction ss arbitrary: m) (auto simp: insert_wire_def bt_wf_insert bt_get_insert)

lemma insert_wire_wf: "bt_wf m \<Longrightarrow> bt_wf (foldl (insert_wire st) m ss)"
  using foldl_insert_wire by blast

lemma insert_wire_get:
  "bt_wf m \<Longrightarrow> bt_get (foldl (insert_wire st) m ss) s = (if s \<in> set ss then Some (wire_u32 st s) else bt_get m s)"
  using foldl_insert_wire by blast

lemma wire_u32_eq: "in_i32 (read_wire_compatible_value st s) \<Longrightarrow> wire_u32 st s = max 0 (read_wire_compatible_value st s)"
  unfolding wire_u32_def wrap_u_def by (auto simp: in_i32_iff max.commute)

lemma pvs_iter_key_set: "set (map fst (pvs_iter c)) = {s. pvs_get c s \<noteq> 0}"
  using pvs_iter_keys [of _ c] by (auto simp: image_iff)

text \<open>
  The bootstrap snapshot is complete: for every stat that is not internal, a client that reads a missing entry
  as zero sees the wire value floored at zero, and the unclamped experience counters.
\<close>

theorem snapshot_is_complete:
  assumes "s \<notin> snapshot_hidden" and "in_i32 (read_wire_compatible_value st s)"
  shows "snapshot_get (snapshot_from_state st) s =
    (if s = Exp then exp_in_level (progression st)
     else if s = NextExp then next_exp_in_level (progression st)
     else max 0 (read_wire_compatible_value st s))"
proof -
  let ?w = "max 0 (read_wire_compatible_value st s)"
  let ?shown = "s \<in> {Hp, Sp, Stamina, HpRecovery, SpRecovery, Polymorph, Mount} \<or>
    s \<in> {Level, Exp, NextExp, Gold} \<and> pvs_get (base st) s \<noteq> 0 \<or> pvs_get (computed st) s \<noteq> 0"
  have zero: "?w = 0" if "\<not> ?shown" "s \<notin> {Exp, NextExp}"
    using that by (auto simp: read_wire_if resource_slot_if)
  have "bt_get (snap_values (snapshot_from_state st)) s =
    (if s = NextExp then Some (next_exp_in_level (progression st))
     else if s = Exp then Some (exp_in_level (progression st))
     else if ?shown then Some (wire_u32 st s) else None)"
    unfolding snapshot_from_state_def Let_def StatSnapshot.simps
    by (simp only: bt_get_insert insert_wire_get insert_wire_wf bt_wf_insert bt_wf_Nil set_filter pvs_iter_key_set)
      (use assms(1) in auto)
  then show ?thesis
    using zero by (auto simp: snapshot_get_def wire_u32_eq [OF assms(2)] split: if_splits)
qed

section \<open>Storing the base stats\<close>

definition same_but_base :: "('src, 'det) ActorStatState \<Rightarrow> ('src, 'det) ActorStatState \<Rightarrow> bool" where
  "same_but_base st st' \<longleftrightarrow> computed st' = computed st \<and> modifiers st' = modifiers st \<and> resources st' = resources st \<and>
    progression st' = progression st \<and> stable_id st' = stable_id st \<and> as_kind st' = as_kind st \<and> runtime st' = runtime st"

lemma api_set_stored_ok:
  assumes "api_set_stored_stat src st s v = Some (Inr u, st')"
  shows "same_but_base st st'" and "pvs_get (base st') t = (if t = s then v else pvs_get (base st) t)"
  using assms
  by (auto simp: api_set_stored_stat_def actor_set_stored_stat_def record_explicit_change_def same_but_base_def
      pvs_get_set bind_eq_Some_conv elim!: case_sum_eqE split: if_splits)

lemma store_stats_ok:
  "store_stats src svs st = Some (Some st') \<Longrightarrow> distinct (map fst svs) \<Longrightarrow>
   same_but_base st st' \<and>
   (\<forall>t. pvs_get (base st') t = (case map_of svs t of Some v \<Rightarrow> v | None \<Rightarrow> pvs_get (base st) t))"
proof (induction svs arbitrary: st)
  case (Cons sv svs)
  obtain s v where sv: "sv = (s, v)" by fastforce
  from Cons.prems(1) obtain u st1 where a: "api_set_stored_stat src st s v = Some (Inr u, st1)"
    and r: "store_stats src svs st1 = Some (Some st')"
    by (auto simp: sv bind_eq_Some_conv elim!: case_sum_eqE)
  note ok = api_set_stored_ok [OF a]
  have "map_of svs s = None" using Cons.prems(2) by (auto simp: sv map_of_eq_None_iff)
  with Cons.IH [OF r] Cons.prems(2) ok show ?case
    by (auto simp: sv same_but_base_def split: option.splits)
qed (simp add: same_but_base_def)

section \<open>Restoring the resources\<close>

lemma set_resource_ok:
  assumes "set_resource st s v = Some (r, st')" and "cap_stat_of s = Some c"
  shows "\<exists>n. r = Inr n" and "same_frame st st'" and "0 \<le> pvs_get (computed st) c"
    and "slot st' t = (if t = s then Some (max 0 (min (pvs_get (computed st) c) v)) else slot st t)"
proof -
  let ?n = "max 0 (min (pvs_get (computed st) c) v)"
  from assms have cap: "0 \<le> pvs_get (computed st) c" and p: "put_resource st s ?n = Some st'" and r: "r = Inr ?n"
    by (auto simp: set_resource_def cap_of_stat bind_eq_Some_conv clamp_def split: if_splits)
  obtain st1 where "put_resource st s ?n = Some st1" "same_frame st st1"
    "\<And>t. slot st1 t = (if t = s then Some ?n else slot st t)"
    using put_resource_slot [OF has_cap_has_slot [OF assms(2), of st], of ?n] by blast
  with p r cap show "\<exists>n. r = Inr n" "same_frame st st'" "0 \<le> pvs_get (computed st) c"
    "slot st' t = (if t = s then Some ?n else slot st t)" by simp_all
qed

lemma set_resources_ok:
  assumes "set_resources [(Hp, h), (Sp, s), (Stamina, m)] st = Some r"
  obtains st' where "r = Some st'" and "same_frame st st'"
    and "hp (resources st') = max 0 (min (pvs_get (computed st) MaxHp) h)"
    and "sp (resources st') = max 0 (min (pvs_get (computed st) MaxSp) s)"
    and "stamina (resources st') = max 0 (min (pvs_get (computed st) MaxStamina) m)"
proof -
  have c: "cap_stat_of Hp = Some MaxHp" "cap_stat_of Sp = Some MaxSp" "cap_stat_of Stamina = Some MaxStamina"
    by (simp_all add: cap_stat_of_def)
  from assms obtain r1 st1 where a: "set_resource st Hp h = Some (r1, st1)"
    by (auto simp: bind_eq_Some_conv)
  note k1 = set_resource_ok [OF a c(1)]
  from assms a k1(1) obtain r2 st2 where b: "set_resource st1 Sp s = Some (r2, st2)"
    by (auto simp: bind_eq_Some_conv)
  note k2 = set_resource_ok [OF b c(2)]
  from assms a k1(1) b k2(1) obtain r3 st3 where d: "set_resource st2 Stamina m = Some (r3, st3)"
    by (auto simp: bind_eq_Some_conv)
  note k3 = set_resource_ok [OF d c(3)]
  from assms a k1(1) b k2(1) d k3(1) have r: "r = Some st3" by (auto simp: bind_eq_Some_conv)
  have f: "same_frame st st3" using k1(2) k2(2) k3(2) by (blast intro: same_frame_trans)
  have cc: "computed st1 = computed st" "computed st2 = computed st"
    using k1(2) k2(2) by (simp_all add: same_frame_def)
  show ?thesis
    using k1(4) [of Hp] k2(4) [of Hp] k3(4) [of Hp] k2(4) [of Sp] k3(4) [of Sp] k3(4) [of Stamina]
    by (intro that [OF r f]) (simp_all add: cc resource_slot_if)
qed

lemma clamp_within_caps:
  assumes "0 \<le> hp r" "hp r \<le> pvs_get c MaxHp" "0 \<le> sp r" "sp r \<le> pvs_get c MaxSp"
    "0 \<le> stamina r" "stamina r \<le> pvs_get c MaxStamina"
  shows "clamp_to_caps r c = Some r"
  using assms by (simp add: clamp_to_caps_def clamp_def)

text \<open>The value a resource is restored to: the stored one, or full when none was stored, within the cap.\<close>

definition restored :: "i32 option \<Rightarrow> i32 \<Rightarrow> i32" where
  "restored v cap = max 0 (min cap (case v of Some x \<Rightarrow> x | None \<Rightarrow> cap))"

lemma current_or_limit_cap:
  assumes "s \<in> {MaxHp, MaxSp, MaxStamina}" and "current_or_limit src st s v = Some x"
  shows "x = (case v of Some y \<Rightarrow> y | None \<Rightarrow> pvs_get (computed st) s)"
proof (cases v)
  case None
  have "view_limit src s = None"
    using assms(1) by (cases src) (auto simp: player_view_limit_def mob_view_limit_def limits_view_def)
  with None assms show ?thesis
    by (auto simp: current_or_limit_def read_limited_def apply_limit_def read_effective_if resource_slot_if)
qed (use assms(2) in \<open>simp add: current_or_limit_def\<close>)

lemma hydrate_resources_ok:
  assumes "hydrate_resources roll src b st = Some r"
  obtains h where "r = Some h" and "hydrated_source h = src" and "base (hydrated_state h) = base st"
    and "progression (hydrated_state h) = progression st" and "stable_id (hydrated_state h) = stable_id st"
    and "computed (hydrated_state h) = derived_store roll src st" and "\<not> is_dirty (hydrated_state h)"
    and "hp (resources (hydrated_state h)) = restored (current_hp b) (pvs_get (computed (hydrated_state h)) MaxHp)"
    and "sp (resources (hydrated_state h)) = restored (current_sp b) (pvs_get (computed (hydrated_state h)) MaxSp)"
    and "stamina (resources (hydrated_state h)) =
      restored (current_stamina b) (pvs_get (computed (hydrated_state h)) MaxStamina)"
    and "stat_snapshot (hydrated_sync h) = snapshot_from_state (hydrated_state h)"
proof -
  from assms obtain rep st1 h s m r2 where
    rec: "recompute_report roll src st = Some (rep, st1)"
    and v: "current_or_limit src st1 MaxHp (current_hp b) = Some h" "current_or_limit src st1 MaxSp (current_sp b) = Some s"
      "current_or_limit src st1 MaxStamina (current_stamina b) = Some m"
    and set: "set_resources [(Hp, h), (Sp, s), (Stamina, m)] st1 = Some r2"
    and fin: "(case r2 of None \<Rightarrow> Some None | Some st2 \<Rightarrow> do {
          (sync, st3) \<leftarrow> bootstrap_sync roll src st2;
          Some (Some \<lparr>hydrated_source = src, hydrated_state = st3, hydrated_sync = sync\<rparr>) }) = Some r"
    unfolding hydrate_resources_def recompute_def by (auto simp: bind_eq_Some_conv simp del: set_resources.simps)
  from rec obtain r1 where r1: "clamp_to_caps (resources st) (derived_store roll src st) = Some r1"
    and st1: "st1 = recomputed roll src st r1" by (rule recompute_report_SomeD)
  have c1: "computed st1 = derived_store roll src st" by (simp add: st1)
  note caps = clamp_to_caps_Some [OF r1]
  obtain st2 where r2: "r2 = Some st2" and f: "same_frame st1 st2"
    and res: "hp (resources st2) = max 0 (min (pvs_get (computed st1) MaxHp) h)"
      "sp (resources st2) = max 0 (min (pvs_get (computed st1) MaxSp) s)"
      "stamina (resources st2) = max 0 (min (pvs_get (computed st1) MaxStamina) m)"
    using set_resources_ok [OF set] by blast
  from fin r2 obtain sync st3 where bs: "bootstrap_sync roll src st2 = Some (sync, st3)"
    and r: "r = Some \<lparr>hydrated_source = src, hydrated_state = st3, hydrated_sync = sync\<rparr>"
    by (auto simp: bind_eq_Some_conv)
  then obtain rep2 where rec2: "recompute_report roll src st2 = Some (rep2, st3)"
    and snap: "stat_snapshot sync = snapshot_from_state st3"
    by (auto simp: bootstrap_sync_def bind_eq_Some_conv)
  have d2: "derived_store roll src st2 = derived_store roll src st"
    using f by (intro derived_store_cong) (simp_all add: same_frame_def st1)
  from rec2 obtain r3 where r3: "clamp_to_caps (resources st2) (derived_store roll src st2) = Some r3"
    and st3: "st3 = recomputed roll src st2 r3" by (rule recompute_report_SomeD)
  have "clamp_to_caps (resources st2) (derived_store roll src st2) = Some (resources st2)"
    using caps by (intro clamp_within_caps) (simp_all add: d2 res c1)
  with r3 have r3: "r3 = resources st2" by simp
  have "max 0 (min (pvs_get (computed st1) MaxHp) h) = restored (current_hp b) (pvs_get (computed st1) MaxHp)"
    "max 0 (min (pvs_get (computed st1) MaxSp) s) = restored (current_sp b) (pvs_get (computed st1) MaxSp)"
    "max 0 (min (pvs_get (computed st1) MaxStamina) m) = restored (current_stamina b) (pvs_get (computed st1) MaxStamina)"
    unfolding restored_def
    using current_or_limit_cap [OF _ v(1)] current_or_limit_cap [OF _ v(2)] current_or_limit_cap [OF _ v(3)] by simp_all
  note res' = res [unfolded this]
  show ?thesis
    by (rule that [OF r]) (use f snap in \<open>simp_all add: st3 r3 d2 res' c1 same_frame_def st1 is_dirty_def\<close>)
qed

text \<open>
  Hydrating a stored character restores it: the source of its class, its progression from the level table, its
  core stats as class base plus allocations, its available stat points, and resources at the stored
  values (full when none are stored) cut to the recomputed caps; nothing is left dirty and the
  bootstrap snapshot is the one of the restored state.
\<close>

theorem hydrate_player_restores:
  assumes "hydrate_player roll rules b = Some (Some h)"
  shows "\<exists>ps p. stat_source_for_class (class_stats rules) (bs_class b) = Some (hydrated_source h) \<and>
    resolve_player_stats (class_stats rules) (bs_class b) (core_stat_allocations b) = Some ps \<and>
    progression_for_level (level_exp rules) (bs_level b) (bs_exp_in_level b) = Some p \<and>
    progression (hydrated_state h) = normalized p \<and>
    pvs_get (base (hydrated_state h)) St = stat_str ps \<and> pvs_get (base (hydrated_state h)) Ht = stat_vit ps \<and>
    pvs_get (base (hydrated_state h)) Dx = stat_dex ps \<and> pvs_get (base (hydrated_state h)) Iq = stat_int ps \<and>
    pvs_get (base (hydrated_state h)) StatPoints =
      derive_available_stat_points (pp_level p) (level_step p) (core_stat_allocations b) \<and>
    hp (resources (hydrated_state h)) = restored (current_hp b) (pvs_get (computed (hydrated_state h)) MaxHp) \<and>
    sp (resources (hydrated_state h)) = restored (current_sp b) (pvs_get (computed (hydrated_state h)) MaxSp) \<and>
    stamina (resources (hydrated_state h)) =
      restored (current_stamina b) (pvs_get (computed (hydrated_state h)) MaxStamina) \<and>
    \<not> is_dirty (hydrated_state h) \<and>
    stat_snapshot (hydrated_sync h) = snapshot_from_state (hydrated_state h)"
proof -
  from assms obtain src ps p st where
    src: "stat_source_for_class (class_stats rules) (bs_class b) = Some src"
    and ps: "resolve_player_stats (class_stats rules) (bs_class b) (core_stat_allocations b) = Some ps"
    and p: "progression_for_level (level_exp rules) (bs_level b) (bs_exp_in_level b) = Some p"
    and st: "store_stats src (hydrated_base_stats b ps p) (actor_set_player_progression
        (actor_set_stable_id (state_new KPlayer) (Some (wrap_u 64 (bs_player_id b)))) p) = Some (Some st)"
    and hr: "hydrate_resources roll src b st = Some (Some h)"
    unfolding hydrate_player_def by (auto simp: bind_eq_Some_conv split: option.splits)
  have "distinct (map fst (hydrated_base_stats b ps p))" by (simp add: hydrated_base_stats_def)
  note so = store_stats_ok [OF st this]
  have prog: "progression st = normalized p"
    using so by (simp add: same_but_base_def set_progression_shape(1))
  have m: "map_of (hydrated_base_stats b ps p) St = Some (stat_str ps)"
    "map_of (hydrated_base_stats b ps p) Ht = Some (stat_vit ps)"
    "map_of (hydrated_base_stats b ps p) Dx = Some (stat_dex ps)"
    "map_of (hydrated_base_stats b ps p) Iq = Some (stat_int ps)"
    "map_of (hydrated_base_stats b ps p) StatPoints =
      Some (derive_available_stat_points (pp_level p) (level_step p) (core_stat_allocations b))"
    by (simp_all add: hydrated_base_stats_def)
  from hydrate_resources_ok [OF hr] obtain "hydrated_source h = src" and b: "base (hydrated_state h) = base st"
    and "progression (hydrated_state h) = normalized p" and "\<not> is_dirty (hydrated_state h)"
    and "hp (resources (hydrated_state h)) = restored (current_hp b) (pvs_get (computed (hydrated_state h)) MaxHp)"
    and "sp (resources (hydrated_state h)) = restored (current_sp b) (pvs_get (computed (hydrated_state h)) MaxSp)"
    and "stamina (resources (hydrated_state h)) =
      restored (current_stamina b) (pvs_get (computed (hydrated_state h)) MaxStamina)"
    and "stat_snapshot (hydrated_sync h) = snapshot_from_state (hydrated_state h)"
    unfolding prog by (metis option.inject)
  moreover have bt: "pvs_get (base (hydrated_state h)) t = v" if "map_of (hydrated_base_stats b ps p) t = Some v" for t v
    unfolding b using so that by simp
  ultimately show ?thesis
    using src ps p bt [OF m(1)] bt [OF m(2)] bt [OF m(3)] bt [OF m(4)] bt [OF m(5)] by blast
qed

section \<open>Hydration succeeds\<close>

lemma set_resource_defined:
  assumes "cap_stat_of s = Some c" and "0 \<le> pvs_get (computed st) c"
  obtains n st' where "set_resource st s v = Some (Inr n, st')"
proof -
  obtain st1 where "put_resource st s (max 0 (min (pvs_get (computed st) c) v)) = Some st1"
    using put_resource_slot [OF has_cap_has_slot [OF assms(1), of st]] by blast
  with that assms show ?thesis by (simp add: set_resource_def cap_of_stat clamp_def)
qed

lemma set_resources_defined:
  assumes "caps_nonneg (computed st)"
  obtains st' where "set_resources [(Hp, h), (Sp, s), (Stamina, m)] st = Some (Some st')" and "same_frame st st'"
proof -
  have c: "cap_stat_of Hp = Some MaxHp" "cap_stat_of Sp = Some MaxSp" "cap_stat_of Stamina = Some MaxStamina"
    by (simp_all add: cap_stat_of_def)
  have n: "0 \<le> pvs_get (computed st) MaxHp" "0 \<le> pvs_get (computed st) MaxSp" "0 \<le> pvs_get (computed st) MaxStamina"
    using assms by (simp_all add: caps_nonneg_def)
  obtain n1 st1 where a: "set_resource st Hp h = Some (Inr n1, st1)"
    using set_resource_defined [OF c(1) n(1)] by blast
  then have f1: "same_frame st st1" using set_resource_ok(2) c(1) by blast
  then have "0 \<le> pvs_get (computed st1) MaxSp" using n(2) by (simp add: same_frame_def)
  then obtain n2 st2 where b: "set_resource st1 Sp s = Some (Inr n2, st2)"
    using set_resource_defined [OF c(2)] by blast
  then have f2: "same_frame st1 st2" using set_resource_ok(2) c(2) by blast
  then have "0 \<le> pvs_get (computed st2) MaxStamina" using n(3) f1 by (simp add: same_frame_def)
  then obtain n3 st3 where d: "set_resource st2 Stamina m = Some (Inr n3, st3)"
    using set_resource_defined [OF c(3)] by blast
  then have f3: "same_frame st2 st3" using set_resource_ok(2) c(3) by blast
  show ?thesis
    using a b d f1 f2 f3 by (intro that [of st3]) (auto intro: same_frame_trans)
qed

lemma current_or_limit_defined:
  assumes "limits_ok src"
  shows "\<exists>x. current_or_limit src st s v = Some x"
proof -
  obtain y where "read_limited src st s = Some y" using assms by (rule read_limited_defined)
  then show ?thesis by (cases v) (auto simp: current_or_limit_def)
qed

lemma hydrate_resources_defined:
  assumes "caps_nonneg (derived_store roll src st)" and "limits_ok src"
  obtains h where "hydrate_resources roll src b st = Some (Some h)"
proof -
  obtain rep st1 where rec: "recompute_report roll src st = Some (rep, st1)"
    using assms(1) by (rule recompute_succeeds)
  then obtain r1 where st1: "st1 = recomputed roll src st r1" by (rule recompute_report_SomeD)
  obtain x y z where v: "current_or_limit src st1 MaxHp (current_hp b) = Some x"
    "current_or_limit src st1 MaxSp (current_sp b) = Some y"
    "current_or_limit src st1 MaxStamina (current_stamina b) = Some z"
    using current_or_limit_defined [OF assms(2)] by metis
  obtain st2 where s: "set_resources [(Hp, x), (Sp, y), (Stamina, z)] st1 = Some (Some st2)" "same_frame st1 st2"
    using set_resources_defined [of st1 x y z] assms(1) by (auto simp: st1)
  have "derived_store roll src st2 = derived_store roll src st"
    using s(2) by (intro derived_store_cong) (simp_all add: same_frame_def st1)
  then obtain rep2 st3 where rec2: "recompute_report roll src st2 = Some (rep2, st3)"
    using assms(1) recompute_succeeds by metis
  obtain ps where "public_state src st3 = Some ps" using assms(2) by (rule public_state_defined)
  with rec rec2 v s(1) that show ?thesis
    by (simp add: hydrate_resources_def recompute_def bootstrap_sync_def del: set_resources.simps)
qed

section \<open>A stored warrior\<close>

definition example_rules :: PlayerStatRules where
  "example_rules =
    \<lparr>class_stats = [(Warrior, \<lparr>base_stats = \<lparr>csb_st = 6, csb_ht = 4, csb_dx = 3, csb_iq = 3\<rparr>,
        cfg_stat_source = SPlayer example_player\<rparr>)], level_exp = example_table\<rparr>"

definition example_bootstrap :: PlayerGameplayBootstrap where
  "example_bootstrap =
    \<lparr>bs_player_id = 7, bs_class = Warrior, bs_level = 2, bs_exp_in_level = 500,
     core_stat_allocations = \<lparr>allocated_str = 2, allocated_vit = 1, allocated_dex = 0, allocated_int = 0\<rparr>,
     stat_reset_count = 0, current_hp = Some 300, current_sp = None, current_stamina = None\<rparr>"

lemma store_one:
  "validate_stored_write_limit src s v = Some (Inr ()) \<Longrightarrow> role s = Persistent \<Longrightarrow> s \<notin> {Level, Exp, NextExp, LevelStep} \<Longrightarrow>
   \<exists>st'. api_set_stored_stat src st s v = Some (Inr (), st')"
  by (auto simp: api_set_stored_stat_def actor_set_stored_stat_def)

lemma store_stats_defined:
  "(\<And>s v. (s, v) \<in> set svs \<Longrightarrow> validate_stored_write_limit src s v = Some (Inr ()) \<and> role s = Persistent \<and>
      s \<notin> {Level, Exp, NextExp, LevelStep}) \<Longrightarrow>
   \<exists>st'. store_stats src svs st = Some (Some st')"
proof (induction svs arbitrary: st)
  case (Cons sv svs)
  obtain s v where sv: "sv = (s, v)" by fastforce
  have "validate_stored_write_limit src s v = Some (Inr ()) \<and> role s = Persistent \<and> s \<notin> {Level, Exp, NextExp, LevelStep}"
    by (rule Cons.prems) (simp add: sv)
  then obtain st1 where "api_set_stored_stat src st s v = Some (Inr (), st1)"
    using store_one [of src s v st] by blast
  moreover obtain st' where "store_stats src svs st1 = Some (Some st')"
    using Cons.IH [of st1] Cons.prems by auto
  ultimately show ?case by (simp add: sv)
qed simp

lemma example_hydrates: "\<exists>h. hydrate_player no_roll example_rules example_bootstrap = Some (Some h)"
proof -
  let ?src = "SPlayer example_player" and ?p = "progression_new 2 500 800"
  let ?ps = "\<lparr>stat_str = 8, stat_vit = 5, stat_dex = 3, stat_int = 3\<rparr>"
  let ?init = "actor_set_player_progression (actor_set_stable_id (state_new KPlayer) (Some 7)) ?p ::
    (unit, unit) ActorStatState"
  have src: "stat_source_for_class (class_stats example_rules) (bs_class example_bootstrap) = Some ?src"
    by (simp add: stat_source_for_class_def find_class_def example_rules_def example_bootstrap_def)
  have ps: "resolve_player_stats (class_stats example_rules) (bs_class example_bootstrap)
      (core_stat_allocations example_bootstrap) = Some ?ps"
    by (simp add: resolve_player_stats_def find_class_def example_rules_def example_bootstrap_def wrap_i32_id in_i32_iff)
  have p: "progression_for_level (level_exp example_rules) (bs_level example_bootstrap)
      (bs_exp_in_level example_bootstrap) = Some ?p"
    by (simp add: progression_for_level_def entry_for_level_def example_rules_def example_bootstrap_def
        example_table_def bt_get_def clamp_u32_eq)
  have step: "level_step ?p = 2" by (simp add: level_step_eq progression_new_def in_u32_iff)
  have pts: "derive_available_stat_points (pp_level ?p) (level_step ?p) (core_stat_allocations example_bootstrap) = 2"
    unfolding step
    by (simp add: derive_available_stat_points_def Let_def progression_new_def example_bootstrap_def wrap_clamped
        MAX_LEVEL_STAT_POINTS_EARNING_def STAT_POINT_STEPS_PER_LEVEL_def LEVEL_STEPS_PER_LEVEL_def)
  have svs: "hydrated_base_stats example_bootstrap ?ps ?p =
      [(St, 8), (Ht, 5), (Dx, 3), (Iq, 3), (StatPoints, 2), (StatResetCount, 0)]"
    unfolding hydrated_base_stats_def pts by (simp add: example_bootstrap_def)
  have "\<exists>st. store_stats ?src (hydrated_base_stats example_bootstrap ?ps ?p) ?init = Some (Some st)"
  proof (rule store_stats_defined)
    fix s v assume "(s, v) \<in> set (hydrated_base_stats example_bootstrap ?ps ?p)"
    then show "validate_stored_write_limit ?src s v = Some (Inr ()) \<and> role s = Persistent \<and>
        s \<notin> {Level, Exp, NextExp, LevelStep}"
      by (auto simp: svs validate_stored_write_limit_def player_stored_write_limit_def example_player_def
        default_player_balance_rules_def clamp_optional_def clamp_def role_def)
  qed
  then obtain st where st: "store_stats ?src (hydrated_base_stats example_bootstrap ?ps ?p) ?init = Some (Some st)" ..
  have so: "same_but_base ?init st \<and> (\<forall>t. pvs_get (base st) t =
      (case map_of (hydrated_base_stats example_bootstrap ?ps ?p) t of Some v \<Rightarrow> v | None \<Rightarrow> pvs_get (base ?init) t))"
    by (rule store_stats_ok [OF st]) (simp add: svs)
  have seed: "pvs_get (seed_rebuild_state st ?src) t = pvs_get (base st) t" for t
    using so by (simp add: seed_rebuild_state_def apply_source_seed_def same_but_base_def set_progression_shape
        actor_set_stable_id_def state_new_def ledger_iter_def ledger_default_def bt_values_def)
  have base: "pvs_get (base st) t = (case map_of (hydrated_base_stats example_bootstrap ?ps ?p) t of Some v \<Rightarrow> v
      | None \<Rightarrow> if t = LevelStep then 2 else if t = NextExp then 800 else if t = Exp then 500 else if t = Level then 2 else 0)" for t
    using so step by (simp add: set_progression_shape actor_set_stable_id_def state_new_def normalized_def
        progression_new_def clamp_u32_to_i32_def wrap_i32_id in_i32_iff split: option.splits)
  have sid: "stable_id st = Some 7"
    using so by (simp add: same_but_base_def set_progression_shape actor_set_stable_id_def state_new_def)
  have rolls: "growth_rolls 2 = 1" by (simp add: growth_rolls_def wrap_u_def sat_s_id in_i32_iff)
  have "caps_nonneg (derived_store no_roll ?src st)"
    by (simp add: caps_nonneg_def derived_store_def rebuild_derived_state_def rebuild_player_caps
      player_capacity_def optional_stat_value_def seed base svs sid random_hp_def random_sp_def random_stamina_def
      sum_growth_rolls_def rolls)
      (simp add: example_player_def capped_percentage_bonus_def percentage_bonus_def no_roll_def i32_sum_eq
        default_player_balance_rules_def wrap_i32_id in_i32_iff)
  moreover have "limits_ok ?src"
    by (simp add: limits_ok_def example_player_def player_view_limit_def limits_view_def
        default_player_balance_rules_def all_stats_def)
  ultimately obtain h where h: "hydrate_resources no_roll ?src example_bootstrap st = Some (Some h)"
    by (rule hydrate_resources_defined)
  have "wrap_u 64 (bs_player_id example_bootstrap) = 7" by (simp add: example_bootstrap_def wrap_u_def)
  with src ps p st h show ?thesis by (simp add: hydrate_player_def api_new_def state_new_def)
qed

theorem hydrate_player_restores_witness:
  "\<exists>h. hydrate_player no_roll example_rules example_bootstrap = Some (Some h) \<and>
    hp (resources (hydrated_state h)) = restored (Some 300) (pvs_get (computed (hydrated_state h)) MaxHp)"
proof -
  obtain h where h: "hydrate_player no_roll example_rules example_bootstrap = Some (Some h)"
    using example_hydrates by blast
  with hydrate_player_restores [OF h] show ?thesis by (auto simp: example_bootstrap_def)
qed

theorem snapshot_is_complete_witness:
  "snapshot_get (snapshot_from_state example_wounded) Hp = 40"
  using snapshot_is_complete [of Hp example_wounded]
  by (simp add: snapshot_hidden_def read_wire_if example_wounded_slots in_i32_iff)

end
