(* ===== verification/Wire_Format.thy ===== *)
theory Wire_Format
  imports Rust_Prelude
begin

text \<open>
  Little-endian wire formats, shared by the packet theories.  A reader is what a \<^verbatim>\<open>BinRead\<close> implementation
  does to a cursor over a byte slice: it returns the value and the bytes after it, or an error.
  Bytes are integers between 0 and 255.

  The locale \<open>wire_format\<close> is the contract between a packet and the codec: a written packet is read back
  whatever follows it, and any strict prefix of it is reported as an early end of the input.  The
  packet theories discharge it for their readers and writers, and the codec is proved against it.
\<close>

text \<open>
  The shapes of \<^verbatim>\<open>binrw::Error\<close> that the sources construct or match on: an unexpected end of input, a failed
  assertion, a bad magic at a position, a value that is no variant of an enum, a custom error, the errors of all variants of an enum, and
  a backtrace around an error.
\<close>

datatype 'c BinError =
    IoUnexpectedEof
  | AssertFail
  | BadMagic nat
  | NoVariantMatch
  | CustomError 'c
  | EnumErrors "'c BinError list"
  | Backtrace "'c BinError"

type_synonym ('c, 'a) reader = "u8 list \<Rightarrow> 'c BinError + ('a \<times> u8 list)"

definition rbind :: "('c, 'a) reader \<Rightarrow> ('a \<Rightarrow> ('c, 'b) reader) \<Rightarrow> ('c, 'b) reader" where
  "rbind r f bs = (case r bs of Inl e \<Rightarrow> Inl e | Inr (a, rest) \<Rightarrow> f a rest)"

definition rpure :: "'a \<Rightarrow> ('c, 'a) reader" where
  "rpure a bs = Inr (a, bs)"

definition rfail :: "'c BinError \<Rightarrow> ('c, 'a) reader" where
  "rfail e bs = Inl e"

definition read_u8 :: "('c, u8) reader" where
  "read_u8 bs = (case bs of [] \<Rightarrow> Inl IoUnexpectedEof | b # rest \<Rightarrow> Inr (b, rest))"

definition read_exact :: "nat \<Rightarrow> ('c, u8 list) reader" where
  "read_exact n bs = (if length bs < n then Inl IoUnexpectedEof else Inr (take n bs, drop n bs))"

fun le_value :: "u8 list \<Rightarrow> int" where
  "le_value [] = 0"
| "le_value (b # bs) = b + 256 * le_value bs"

fun le_bytes :: "nat \<Rightarrow> int \<Rightarrow> u8 list" where
  "le_bytes 0 v = []"
| "le_bytes (Suc n) v = v mod 256 # le_bytes n (v div 256)"

definition read_u32 :: "('c, u32) reader" where
  "read_u32 = rbind (read_exact 4) (\<lambda>bs. rpure (le_value bs))"

definition write_u32 :: "u32 \<Rightarrow> u8 list" where
  "write_u32 v = le_bytes 4 v"

definition read_i32 :: "('c, i32) reader" where
  "read_i32 = rbind (read_exact 4) (\<lambda>bs. rpure (wrap_s 32 (le_value bs)))"

definition write_i32 :: "i32 \<Rightarrow> u8 list" where
  "write_i32 v = le_bytes 4 (wrap_u 32 v)"

lemma length_le_bytes [simp]: "length (le_bytes n v) = n"
  by (induction n arbitrary: v) simp_all

lemma le_value_bytes: "le_value (le_bytes n v) = v mod 256 ^ n"
proof (induction n arbitrary: v)
  case (Suc n)
  have "v mod (256 * 256 ^ n) = 256 * (v div 256 mod 256 ^ n) + v mod 256"
    by (rule zmod_zmult2_eq) simp
  then show ?case using Suc by simp
qed simp

section \<open>The contract of a packet\<close>

text \<open>An error that says the input ended too early, possibly inside the errors of an enum or a backtrace.\<close>

fun eof_error :: "'c BinError \<Rightarrow> bool" where
  "eof_error IoUnexpectedEof = True"
| "eof_error (EnumErrors es) = (\<exists>e\<in>set es. eof_error e)"
| "eof_error (Backtrace e) = eof_error e"
| "eof_error e = False"

definition ends_early :: "'c BinError + 'a \<Rightarrow> bool" where
  "ends_early r = (case r of Inl e \<Rightarrow> eof_error e | Inr _ \<Rightarrow> False)"

lemma ends_early_simps [simp]: "ends_early (Inl e) = eof_error e" "\<not> ends_early (Inr x)"
  by (simp_all add: ends_early_def)

lemma ends_earlyE: "ends_early r \<Longrightarrow> (\<And>e. r = Inl e \<Longrightarrow> eof_error e \<Longrightarrow> P) \<Longrightarrow> P"
  by (cases r) simp_all

lemma ends_early_rbind: "ends_early (rd bs) \<Longrightarrow> ends_early (rbind rd f bs)"
  by (erule ends_earlyE) (simp add: rbind_def)

locale wire_format =
  fixes valid :: "'a \<Rightarrow> bool" and rd :: "('c, 'a) reader" and wr :: "'a \<Rightarrow> u8 list"
  assumes read_written: "valid a \<Longrightarrow> rd (wr a @ rest) = Inr (a, rest)"
    and read_short: "valid a \<Longrightarrow> k < length (wr a) \<Longrightarrow> ends_early (rd (take k (wr a)))"
begin

lemma read_exactly: "valid a \<Longrightarrow> rd (wr a) = Inr (a, [])"
  using read_written [of a "[]"] by simp

text \<open>No packet is a prefix of another one: the stream of written packets is uniquely decodable.\<close>

lemma prefix_free: "valid a \<Longrightarrow> valid b \<Longrightarrow> wr a @ xs = wr b @ ys \<Longrightarrow> a = b \<and> xs = ys"
proof -
  assume "valid a" "valid b" "wr a @ xs = wr b @ ys"
  then have "Inr (a, xs) = (Inr (b, ys) :: 'c BinError + _)"
    using read_written [of a xs] read_written [of b ys] by metis
  then show ?thesis by simp
qed

lemma read_strict_prefix:
  "valid a \<Longrightarrow> bs @ more = wr a \<Longrightarrow> more \<noteq> [] \<Longrightarrow> ends_early (rd bs)"
proof -
  assume a: "valid a" and eq: "bs @ more = wr a" and more: "more \<noteq> []"
  have "length bs < length (wr a)" unfolding eq [symmetric] using more by simp
  from read_short [OF a this] show ?thesis unfolding eq [symmetric] by simp
qed

end

text \<open>Formats compose: a field followed by a field that may depend on it.\<close>

lemma wire_format_bind:
  assumes one: "wire_format fst_ok rd_fst wr_fst" and two: "\<And>a. fst_ok a \<Longrightarrow> wire_format (snd_ok a) (rd_snd a) (wr_snd a)"
    and dec: "\<And>x. valid x \<Longrightarrow> fst_ok (part x) \<and> snd_ok (part x) x \<and> wr x = wr_fst (part x) @ wr_snd (part x) x"
  shows "wire_format valid (rbind rd_fst rd_snd) wr"
proof
  fix x rest
  assume x: "valid x"
  note d = dec [OF x]
  then have t: "wire_format (snd_ok (part x)) (rd_snd (part x)) (wr_snd (part x))" using two by blast
  show "rbind rd_fst rd_snd (wr x @ rest) = Inr (x, rest)"
    using d wire_format.read_written [OF one] wire_format.read_written [OF t] by (simp add: rbind_def)
  fix k
  assume k: "k < length (wr x)"
  show "ends_early (rbind rd_fst rd_snd (take k (wr x)))"
  proof (cases "k < length (wr_fst (part x))")
    case True
    then show ?thesis using d wire_format.read_short [OF one, of "part x" k] by (simp add: ends_early_rbind)
  next
    case False
    then have "take k (wr x) = wr_fst (part x) @ take (k - length (wr_fst (part x))) (wr_snd (part x) x)" using d by simp
    moreover have "k - length (wr_fst (part x)) < length (wr_snd (part x) x)" using False k d by simp
    ultimately show ?thesis
      using d wire_format.read_written [OF one] wire_format.read_short [OF t] by (simp add: rbind_def)
  qed
qed

lemma wire_format_pure: "wire_format (\<lambda>x. x = a) (rpure a) (\<lambda>_. [])"
  by unfold_locales (simp_all add: rpure_def)

lemma wire_format_u8: "wire_format (\<lambda>_. True) read_u8 (\<lambda>b. [b])"
  by unfold_locales (simp_all add: read_u8_def)

lemma wire_format_exact: "wire_format (\<lambda>bs. length bs = n) (read_exact n) (\<lambda>bs. bs)"
  by unfold_locales (simp_all add: read_exact_def)

lemma wire_format_map_exact:
  assumes "\<And>v. valid v \<Longrightarrow> length (wr v) = n \<and> g (wr v) = v"
  shows "wire_format valid (rbind (read_exact n) (\<lambda>bs. rpure (g bs))) wr"
  by unfold_locales (use assms in \<open>simp_all add: rbind_def rpure_def read_exact_def\<close>)

interpretation u32_wire: wire_format in_u32 read_u32 write_u32
  unfolding read_u32_def write_u32_def
  by (rule wire_format_map_exact) (simp add: le_value_bytes in_u_def)

lemma wrap_s_wrap_u: "in_i32 v \<Longrightarrow> wrap_s 32 (wrap_u 32 v mod 4294967296) = v"
  unfolding wrap_s_def wrap_u_def in_i32_iff by (simp add: mod_add_left_eq)

interpretation i32_wire: wire_format in_i32 read_i32 write_i32
  unfolding read_i32_def write_i32_def
  by (rule wire_format_map_exact) (simp add: le_value_bytes wrap_s_wrap_u)

end
