(* ===== verification/Handshake.thy ===== *)
theory Handshake
  imports Wire_Format
begin

text \<open>
  The time-synchronisation handshake (\<^verbatim>\<open>zohar-protocol/src/handshake.rs\<close>) and the control packets that
  carry it (\<^verbatim>\<open>control_pkt.rs\<close>, \<^verbatim>\<open>phase.rs\<close>).  A \<^verbatim>\<open>Duration\<close> is a non-negative count of nanoseconds and an
  \<^verbatim>\<open>Instant\<close> a count of nanoseconds of the monotonic clock; the random seed of the handshake id is an
  argument, as in \<^verbatim>\<open>with_seed\<close>.
\<close>

section \<open>Wire times\<close>

type_synonym instant = int
type_synonym HandshakeId = u32
type_synonym WireMillis32 = u32
type_synonym WireDeltaMillis = i32

definition as_millis :: "duration \<Rightarrow> int" where
  "as_millis d = d div 1000000"

definition from_millis :: "int \<Rightarrow> duration" where
  "from_millis ms = ms * 1000000"

text \<open>\<^verbatim>\<open>Instant::duration_since\<close> saturates at zero.\<close>

definition duration_since :: "instant \<Rightarrow> instant \<Rightarrow> duration" where
  "duration_since later earlier = max 0 (later - earlier)"

definition wire_millis_as_duration :: "WireMillis32 \<Rightarrow> duration" where
  "wire_millis_as_duration m = from_millis m"

definition wire_millis_from_duration :: "duration \<Rightarrow> WireMillis32" where
  "wire_millis_from_duration d = wrap_u 32 (as_millis d)"

definition wire_delta_as_duration :: "WireDeltaMillis \<Rightarrow> duration" where
  "wire_delta_as_duration v = from_millis (wrap_u 64 v)"

definition wire_delta_from_duration :: "duration \<Rightarrow> WireDeltaMillis" where
  "wire_delta_from_duration d =
    (let millis = as_millis d in if i32_MAX < millis then i32_MAX else wrap_s 32 millis)"

definition millis_i64 :: "duration \<Rightarrow> i64" where
  "millis_i64 d = (let millis = as_millis d in if i64_MAX < millis then i64_MAX else wrap_s 64 millis)"

section \<open>The handshake state machine\<close>

record HandshakeSyncData =
  hs_handshake :: HandshakeId
  hs_time :: WireMillis32
  hs_delta :: WireDeltaMillis

definition HANDSHAKE_RETRY_LIMIT :: u8 where
  "HANDSHAKE_RETRY_LIMIT = 32"

definition HANDSHAKE_BIAS_TOLERANCE_MS :: i64 where
  "HANDSHAKE_BIAS_TOLERANCE_MS = 50"

record HandshakeState =
  hs_id :: HandshakeId
  server_start :: instant
  last_sent :: instant
  retries :: u8
  handshaking :: bool

datatype HandshakeOutcome =
    CompletedInitial
  | SendHandshakeSync HandshakeSyncData
  | SendTimeSyncAck

datatype HandshakeError = HandshakeMismatch | RetryLimitExceeded

definition with_seed :: "instant \<Rightarrow> instant \<Rightarrow> u32 \<Rightarrow> HandshakeState" where
  "with_seed start now seed =
    \<lparr>hs_id = seed, server_start = start, last_sent = now, retries = 0, handshaking = True\<rparr>"

definition uptime_at :: "HandshakeState \<Rightarrow> instant \<Rightarrow> duration" where
  "uptime_at hs now = duration_since now (server_start hs)"

definition build_sync_data :: "HandshakeState \<Rightarrow> instant \<Rightarrow> duration \<Rightarrow> HandshakeSyncData" where
  "build_sync_data hs now delta =
    \<lparr>hs_handshake = hs_id hs, hs_time = wire_millis_from_duration (uptime_at hs now),
     hs_delta = wire_delta_from_duration delta\<rparr>"

definition sync_data :: "HandshakeState \<Rightarrow> instant \<Rightarrow> duration \<Rightarrow> HandshakeSyncData \<times> HandshakeState" where
  "sync_data hs now delta = (build_sync_data hs now delta, hs\<lparr>last_sent := now\<rparr>)"

definition initial_sync_data :: "HandshakeState \<Rightarrow> instant \<Rightarrow> HandshakeSyncData \<times> HandshakeState" where
  "initial_sync_data hs now = sync_data hs now 0"

definition bias_ms :: "HandshakeState \<Rightarrow> HandshakeSyncData \<Rightarrow> instant \<Rightarrow> i64" where
  "bias_ms hs data now =
    wrap_s 64 (millis_i64 (uptime_at hs now) -
      millis_i64 (wire_millis_as_duration (hs_time data) + wire_delta_as_duration (hs_delta data)))"

definition retry_delta_ms :: "HandshakeState \<Rightarrow> HandshakeSyncData \<Rightarrow> instant \<Rightarrow> i64" where
  "retry_delta_ms hs data now =
    (let up = millis_i64 (uptime_at hs now);
         d1 = wrap_s 64 (up - millis_i64 (wire_millis_as_duration (hs_time data))) sdiv 2;
         d2 = (if d1 < 0 then wrap_s 64 (up - millis_i64 (uptime_at hs (last_sent hs))) sdiv 2 else d1)
     in if d2 < 0 then 0 else d2)"

definition handle ::
  "HandshakeState \<Rightarrow> HandshakeSyncData \<Rightarrow> instant \<Rightarrow> (HandshakeError + HandshakeOutcome) \<times> HandshakeState" where
  "handle hs data now =
    (if hs_handshake data \<noteq> hs_id hs then (Inl HandshakeMismatch, hs)
     else if 0 \<le> bias_ms hs data now \<and> bias_ms hs data now \<le> HANDSHAKE_BIAS_TOLERANCE_MS then
       (if handshaking hs
        then (Inr CompletedInitial, hs\<lparr>handshaking := False, retries := 0\<rparr>)
        else (Inr SendTimeSyncAck, hs))
     else
       let reply = build_sync_data hs now (from_millis (wrap_u 64 (retry_delta_ms hs data now))) in
       if handshaking hs then
         (let next_retry = sat_u 8 (retries hs + 1) in
          if HANDSHAKE_RETRY_LIMIT < next_retry then (Inl RetryLimitExceeded, hs)
          else (Inr (SendHandshakeSync reply), hs\<lparr>retries := next_retry, last_sent := now\<rparr>))
       else (Inr (SendHandshakeSync reply), hs\<lparr>last_sent := now\<rparr>))"

section \<open>Control packets\<close>

datatype PhaseId = PhHandshake | PhLogin | PhSelect | PhLoading | PhInGame | PhAuth

fun phase_byte :: "PhaseId \<Rightarrow> u8" where
  "phase_byte PhHandshake = 1"
| "phase_byte PhLogin = 2"
| "phase_byte PhSelect = 3"
| "phase_byte PhLoading = 4"
| "phase_byte PhInGame = 5"
| "phase_byte PhAuth = 10"

definition phase_of_byte :: "u8 \<Rightarrow> PhaseId option" where
  "phase_of_byte b =
    (if b = 1 then Some PhHandshake else if b = 2 then Some PhLogin else if b = 3 then Some PhSelect
     else if b = 4 then Some PhLoading else if b = 5 then Some PhInGame else if b = 10 then Some PhAuth else None)"

definition OPCODE_HEARTBEAT_REQUEST :: u8 where "OPCODE_HEARTBEAT_REQUEST = 0x2C"
definition OPCODE_HEARTBEAT_RESPONSE :: u8 where "OPCODE_HEARTBEAT_RESPONSE = 0xFE"
definition OPCODE_HANDSHAKE_REQUEST :: u8 where "OPCODE_HANDSHAKE_REQUEST = 0xFF"
definition OPCODE_HANDSHAKE_RESPONSE :: u8 where "OPCODE_HANDSHAKE_RESPONSE = 0xFF"
definition OPCODE_TIME_SYNC_REQUEST :: u8 where "OPCODE_TIME_SYNC_REQUEST = 0xFC"
definition OPCODE_TIME_SYNC_RESPONSE :: u8 where "OPCODE_TIME_SYNC_RESPONSE = 0xFC"
definition OPCODE_SET_CLIENT_PHASE :: u8 where "OPCODE_SET_CLIENT_PHASE = 0xFD"

definition is_unsequenced_c2s_opcode :: "u8 \<Rightarrow> bool" where
  "is_unsequenced_c2s_opcode opcode \<longleftrightarrow> opcode = OPCODE_HEARTBEAT_RESPONSE \<or> opcode = OPCODE_HANDSHAKE_RESPONSE"

datatype ControlC2s =
    HeartbeatResponse
  | HandshakeResponse HandshakeSyncData
  | RequestTimeSync HandshakeSyncData

datatype ControlS2c =
    RequestHeartbeat
  | RequestHandshake HandshakeSyncData
  | TimeSyncResponse
  | SetClientPhase PhaseId

definition read_wire_delta :: "('c, WireDeltaMillis) reader" where
  "read_wire_delta = rbind read_i32 (\<lambda>v. if 0 \<le> v then rpure v else rfail AssertFail)"

definition read_sync_data :: "('c, HandshakeSyncData) reader" where
  "read_sync_data = rbind read_u32 (\<lambda>h. rbind read_u32 (\<lambda>t. rbind read_wire_delta (\<lambda>d.
     rpure \<lparr>hs_handshake = h, hs_time = t, hs_delta = d\<rparr>)))"

definition write_sync_data :: "HandshakeSyncData \<Rightarrow> u8 list" where
  "write_sync_data s = write_u32 (hs_handshake s) @ write_u32 (hs_time s) @ write_i32 (hs_delta s)"

definition read_phase :: "('c, PhaseId) reader" where
  "read_phase = rbind read_u8 (\<lambda>b. case phase_of_byte b of Some p \<Rightarrow> rpure p | None \<Rightarrow> rfail NoVariantMatch)"

definition read_control_c2s_with_opcode :: "u8 \<Rightarrow> ('c, ControlC2s option) reader" where
  "read_control_c2s_with_opcode opcode =
    (if opcode = OPCODE_HEARTBEAT_RESPONSE then rpure (Some HeartbeatResponse)
     else if opcode = OPCODE_HANDSHAKE_RESPONSE then rbind read_sync_data (\<lambda>d. rpure (Some (HandshakeResponse d)))
     else if opcode = OPCODE_TIME_SYNC_REQUEST then rbind read_sync_data (\<lambda>d. rpure (Some (RequestTimeSync d)))
     else rpure None)"

definition read_control_s2c_with_opcode :: "u8 \<Rightarrow> ('c, ControlS2c option) reader" where
  "read_control_s2c_with_opcode opcode =
    (if opcode = OPCODE_HEARTBEAT_REQUEST then rpure (Some RequestHeartbeat)
     else if opcode = OPCODE_HANDSHAKE_REQUEST then rbind read_sync_data (\<lambda>d. rpure (Some (RequestHandshake d)))
     else if opcode = OPCODE_TIME_SYNC_RESPONSE then rpure (Some TimeSyncResponse)
     else if opcode = OPCODE_SET_CLIENT_PHASE then rbind read_phase (\<lambda>p. rpure (Some (SetClientPhase p)))
     else rpure None)"

definition read_control_c2s :: "('c, ControlC2s) reader" where
  "read_control_c2s = rbind read_u8 (\<lambda>opcode. rbind (read_control_c2s_with_opcode opcode)
     (\<lambda>c. case c of Some control \<Rightarrow> rpure control | None \<Rightarrow> rfail AssertFail))"

definition read_control_s2c :: "('c, ControlS2c) reader" where
  "read_control_s2c = rbind read_u8 (\<lambda>opcode. rbind (read_control_s2c_with_opcode opcode)
     (\<lambda>c. case c of Some control \<Rightarrow> rpure control | None \<Rightarrow> rfail AssertFail))"

fun c2s_opcode :: "ControlC2s \<Rightarrow> u8" where
  "c2s_opcode HeartbeatResponse = OPCODE_HEARTBEAT_RESPONSE"
| "c2s_opcode (HandshakeResponse _) = OPCODE_HANDSHAKE_RESPONSE"
| "c2s_opcode (RequestTimeSync _) = OPCODE_TIME_SYNC_REQUEST"

fun s2c_opcode :: "ControlS2c \<Rightarrow> u8" where
  "s2c_opcode RequestHeartbeat = OPCODE_HEARTBEAT_REQUEST"
| "s2c_opcode (RequestHandshake _) = OPCODE_HANDSHAKE_REQUEST"
| "s2c_opcode TimeSyncResponse = OPCODE_TIME_SYNC_RESPONSE"
| "s2c_opcode (SetClientPhase _) = OPCODE_SET_CLIENT_PHASE"

fun c2s_body :: "ControlC2s \<Rightarrow> u8 list" where
  "c2s_body HeartbeatResponse = []"
| "c2s_body (HandshakeResponse d) = write_sync_data d"
| "c2s_body (RequestTimeSync d) = write_sync_data d"

fun s2c_body :: "ControlS2c \<Rightarrow> u8 list" where
  "s2c_body RequestHeartbeat = []"
| "s2c_body (RequestHandshake d) = write_sync_data d"
| "s2c_body TimeSyncResponse = []"
| "s2c_body (SetClientPhase p) = [phase_byte p]"

definition write_control_c2s :: "ControlC2s \<Rightarrow> u8 list" where
  "write_control_c2s c = c2s_opcode c # c2s_body c"

definition write_control_s2c :: "ControlS2c \<Rightarrow> u8 list" where
  "write_control_s2c c = s2c_opcode c # s2c_body c"

section \<open>The packets honour the wire contract\<close>

definition sync_ok :: "HandshakeSyncData \<Rightarrow> bool" where
  "sync_ok s \<longleftrightarrow> in_u32 (hs_handshake s) \<and> in_u32 (hs_time s) \<and> 0 \<le> hs_delta s \<and> in_i32 (hs_delta s)"

fun c2s_ok :: "ControlC2s \<Rightarrow> bool" where
  "c2s_ok HeartbeatResponse = True"
| "c2s_ok (HandshakeResponse d) = sync_ok d"
| "c2s_ok (RequestTimeSync d) = sync_ok d"

fun s2c_ok :: "ControlS2c \<Rightarrow> bool" where
  "s2c_ok RequestHeartbeat = True"
| "s2c_ok (RequestHandshake d) = sync_ok d"
| "s2c_ok TimeSyncResponse = True"
| "s2c_ok (SetClientPhase p) = True"

lemma phase_of_byte_byte [simp]: "phase_of_byte (phase_byte p) = Some p"
  by (cases p) (simp_all add: phase_of_byte_def)

lemma delta_wire: "wire_format (\<lambda>v. 0 \<le> v \<and> in_i32 v) read_wire_delta write_i32"
  unfolding read_wire_delta_def
proof (rule wire_format_bind [OF i32_wire.wire_format_axioms, where part = "\<lambda>v. v" and
      snd_ok = "\<lambda>a v. v = a \<and> 0 \<le> a" and wr_snd = "\<lambda>_ _. []"])
  fix a :: i32
  show "wire_format (\<lambda>v. v = a \<and> 0 \<le> a) (if 0 \<le> a then rpure a else rfail AssertFail) (\<lambda>_. [])"
    by unfold_locales (auto simp: rpure_def)
qed simp

interpretation sync_wire: wire_format sync_ok read_sync_data write_sync_data
  unfolding read_sync_data_def
proof (rule wire_format_bind [OF u32_wire.wire_format_axioms, where part = hs_handshake and
      snd_ok = "\<lambda>h s. sync_ok s \<and> hs_handshake s = h" and wr_snd = "\<lambda>_ s. write_u32 (hs_time s) @ write_i32 (hs_delta s)"])
  fix h :: u32
  show "wire_format (\<lambda>s. sync_ok s \<and> hs_handshake s = h)
    (rbind read_u32 (\<lambda>t. rbind read_wire_delta (\<lambda>d. rpure \<lparr>hs_handshake = h, hs_time = t, hs_delta = d\<rparr>)))
    (\<lambda>s. write_u32 (hs_time s) @ write_i32 (hs_delta s))"
  proof (rule wire_format_bind [OF u32_wire.wire_format_axioms, where part = hs_time and
      snd_ok = "\<lambda>t s. sync_ok s \<and> hs_handshake s = h \<and> hs_time s = t" and wr_snd = "\<lambda>_ s. write_i32 (hs_delta s)"])
    fix t :: u32
    show "wire_format (\<lambda>s. sync_ok s \<and> hs_handshake s = h \<and> hs_time s = t)
      (rbind read_wire_delta (\<lambda>d. rpure \<lparr>hs_handshake = h, hs_time = t, hs_delta = d\<rparr>)) (\<lambda>s. write_i32 (hs_delta s))"
      by (rule wire_format_bind [OF delta_wire wire_format_pure, where part = hs_delta]) (auto simp: sync_ok_def)
  qed (auto simp: sync_ok_def)
qed (simp add: sync_ok_def write_sync_data_def)

lemmas opcode_defs =
  OPCODE_HEARTBEAT_REQUEST_def OPCODE_HEARTBEAT_RESPONSE_def OPCODE_HANDSHAKE_REQUEST_def
  OPCODE_HANDSHAKE_RESPONSE_def OPCODE_TIME_SYNC_REQUEST_def OPCODE_TIME_SYNC_RESPONSE_def
  OPCODE_SET_CLIENT_PHASE_def

lemma c2s_body_wire:
  "wire_format (\<lambda>c. c2s_ok c \<and> c2s_opcode c = opcode) (rbind (read_control_c2s_with_opcode opcode)
     (\<lambda>c. case c of Some control \<Rightarrow> rpure control | None \<Rightarrow> rfail AssertFail)) c2s_body"
proof
  fix c rest k
  assume c: "c2s_ok c \<and> c2s_opcode c = opcode"
  then show "rbind (read_control_c2s_with_opcode opcode)
     (\<lambda>c. case c of Some control \<Rightarrow> rpure control | None \<Rightarrow> rfail AssertFail) (c2s_body c @ rest) = Inr (c, rest)"
    by (cases c) (auto simp: read_control_c2s_with_opcode_def rbind_def rpure_def opcode_defs sync_wire.read_written)
  show "ends_early (rbind (read_control_c2s_with_opcode opcode)
     (\<lambda>c. case c of Some control \<Rightarrow> rpure control | None \<Rightarrow> rfail AssertFail) (take k (c2s_body c)))"
    if "k < length (c2s_body c)" using c that
    by (cases c) (auto simp: read_control_c2s_with_opcode_def opcode_defs intro!: ends_early_rbind sync_wire.read_short)
qed

lemma s2c_body_wire:
  "wire_format (\<lambda>c. s2c_ok c \<and> s2c_opcode c = opcode) (rbind (read_control_s2c_with_opcode opcode)
     (\<lambda>c. case c of Some control \<Rightarrow> rpure control | None \<Rightarrow> rfail AssertFail)) s2c_body"
proof
  fix c rest k
  assume c: "s2c_ok c \<and> s2c_opcode c = opcode"
  then show "rbind (read_control_s2c_with_opcode opcode)
     (\<lambda>c. case c of Some control \<Rightarrow> rpure control | None \<Rightarrow> rfail AssertFail) (s2c_body c @ rest) = Inr (c, rest)"
    by (cases c) (auto simp: read_control_s2c_with_opcode_def rbind_def rpure_def opcode_defs sync_wire.read_written
        read_phase_def read_u8_def)
  show "ends_early (rbind (read_control_s2c_with_opcode opcode)
     (\<lambda>c. case c of Some control \<Rightarrow> rpure control | None \<Rightarrow> rfail AssertFail) (take k (s2c_body c)))"
    if "k < length (s2c_body c)" using c that
    by (cases c) (auto simp: read_control_s2c_with_opcode_def opcode_defs read_phase_def read_u8_def
        intro!: ends_early_rbind sync_wire.read_short)
qed

interpretation control_c2s_wire: wire_format c2s_ok read_control_c2s write_control_c2s
  unfolding read_control_c2s_def
  by (rule wire_format_bind [OF wire_format_u8 c2s_body_wire, where part = c2s_opcode])
    (simp add: write_control_c2s_def)

interpretation control_s2c_wire: wire_format s2c_ok read_control_s2c write_control_s2c
  unfolding read_control_s2c_def
  by (rule wire_format_bind [OF wire_format_u8 s2c_body_wire, where part = s2c_opcode])
    (simp add: write_control_s2c_def)

text \<open>
  Control packets survive the wire in both directions: what is written is read back, with whatever bytes
  follow it left over for the next packet.
\<close>

theorem control_packets_roundtrip:
  assumes "c2s_ok c" and "s2c_ok d"
  shows "read_control_c2s (write_control_c2s c @ rest) = Inr (c, rest) \<and>
    read_control_s2c (write_control_s2c d @ rest) = Inr (d, rest)"
  using assms control_c2s_wire.read_written control_s2c_wire.read_written by blast

theorem control_packets_roundtrip_witness:
  "read_control_c2s (write_control_c2s (RequestTimeSync \<lparr>hs_handshake = 7, hs_time = 1000, hs_delta = 12\<rparr>) @ [9]) =
    Inr (RequestTimeSync \<lparr>hs_handshake = 7, hs_time = 1000, hs_delta = 12\<rparr>, [9])"
  by (rule conjunct1 [OF control_packets_roundtrip [where d = TimeSyncResponse]])
    (simp_all add: sync_ok_def in_u32_iff in_i32_iff)

section \<open>When the handshake completes\<close>

definition uptime_ms :: "HandshakeState \<Rightarrow> instant \<Rightarrow> int" where
  "uptime_ms hs now = min i64_MAX (max 0 (now - server_start hs) div 1000000)"

lemma millis_uptime: "millis_i64 (uptime_at hs now) = uptime_ms hs now"
proof -
  have "0 \<le> max 0 (now - server_start hs) div 1000000" by (simp add: pos_imp_zdiv_nonneg_iff)
  then show ?thesis
    by (auto simp: millis_i64_def uptime_at_def duration_since_def as_millis_def uptime_ms_def Let_def
        intro!: wrap_s_id simp: in_i64_iff)
qed

lemma uptime_ms_range: "0 \<le> uptime_ms hs now" "uptime_ms hs now \<le> i64_MAX"
  by (simp_all add: uptime_ms_def pos_imp_zdiv_nonneg_iff)

lemma millis_wire:
  assumes "sync_ok data"
  shows "millis_i64 (wire_millis_as_duration (hs_time data)) = hs_time data"
    and "millis_i64 (wire_millis_as_duration (hs_time data) + wire_delta_as_duration (hs_delta data)) =
      hs_time data + hs_delta data"
proof -
  have m: "millis_i64 (from_millis x) = x" if "0 \<le> x" "x \<le> i64_MAX" for x
    using that by (simp add: millis_i64_def from_millis_def as_millis_def wrap_s_id in_i64_iff)
  have d: "wire_delta_as_duration (hs_delta data) = from_millis (hs_delta data)"
    using assms by (auto simp: wire_delta_as_duration_def sync_ok_def wrap_u_def in_i32_iff)
  have r: "0 \<le> hs_time data" "hs_time data \<le> u32_MAX" "0 \<le> hs_delta data" "hs_delta data \<le> i32_MAX"
    using assms by (simp_all add: sync_ok_def in_u32_iff in_i32_iff)
  show "millis_i64 (wire_millis_as_duration (hs_time data)) = hs_time data"
    using m [of "hs_time data"] r by (simp add: wire_millis_as_duration_def)
  have "wire_millis_as_duration (hs_time data) + from_millis (hs_delta data) = from_millis (hs_time data + hs_delta data)"
    by (simp add: wire_millis_as_duration_def from_millis_def algebra_simps)
  then show "millis_i64 (wire_millis_as_duration (hs_time data) + wire_delta_as_duration (hs_delta data)) =
      hs_time data + hs_delta data"
    unfolding d using m [of "hs_time data + hs_delta data"] r by simp
qed

lemma bias_eq:
  assumes "sync_ok data"
  shows "bias_ms hs data now = uptime_ms hs now - (hs_time data + hs_delta data)"
  unfolding bias_ms_def millis_uptime millis_wire(2) [OF assms]
  using uptime_ms_range [of hs now] assms
  by (intro wrap_s_id) (auto simp: in_i64_iff sync_ok_def in_u32_iff in_i32_iff)

text \<open>
  C30. A reply completes the handshake exactly when it names this connection's handshake id and the client's
  clock plus its delta is behind the server's uptime by at most the tolerance of 50 ms; completing
  clears the retry count, and a wrong id changes nothing.
\<close>

theorem handshake_completes_iff:
  assumes "sync_ok data" and "handshaking hs"
  shows "(fst (handle hs data now) = Inr CompletedInitial \<longleftrightarrow>
      hs_handshake data = hs_id hs \<and> hs_time data + hs_delta data \<le> uptime_ms hs now \<and>
      uptime_ms hs now \<le> hs_time data + hs_delta data + 50) \<and>
    (fst (handle hs data now) = Inr CompletedInitial \<longrightarrow>
      snd (handle hs data now) = hs\<lparr>handshaking := False, retries := 0\<rparr>) \<and>
    (hs_handshake data \<noteq> hs_id hs \<longrightarrow> handle hs data now = (Inl HandshakeMismatch, hs))"
  using assms(2) unfolding handle_def bias_eq [OF assms(1)]
  by (auto simp: HANDSHAKE_BIAS_TOLERANCE_MS_def Let_def)

text \<open>
  A client that echoes the time stamp it was sent, with no delta of its own, completes the handshake if its
  reply is handled within 50 ms, as long as the uptime still fits the 32-bit wire time.
\<close>

theorem prompt_echo_completes:
  assumes "initial_sync_data hs t0 = (sent, hs')" and "handshaking hs" and "in_u32 (hs_id hs)"
    and "server_start hs \<le> t0" and "t0 \<le> t1" and "uptime_ms hs t1 \<le> u32_MAX"
    and "uptime_ms hs t1 - uptime_ms hs t0 \<le> 50"
  shows "fst (handle hs' sent t1) = Inr CompletedInitial"
proof -
  have hs': "hs' = hs\<lparr>last_sent := t0\<rparr>" and sent: "sent = build_sync_data hs t0 0"
    using assms(1) by (simp_all add: initial_sync_data_def sync_data_def)
  have mono: "uptime_ms hs t0 \<le> uptime_ms hs t1"
    using assms(5) by (auto simp: uptime_ms_def intro!: zdiv_mono1 min.mono)
  have "uptime_ms hs t0 \<le> u32_MAX" using mono assms(6) by simp
  then have "max 0 (t0 - server_start hs) div 1000000 \<le> u32_MAX"
    unfolding uptime_ms_def min_le_iff_disj by simp
  then have time: "hs_time sent = uptime_ms hs t0"
    by (simp add: sent build_sync_data_def wire_millis_from_duration_def uptime_at_def duration_since_def
        as_millis_def wrap_u_def uptime_ms_def pos_imp_zdiv_nonneg_iff)
  have delta: "hs_delta sent = 0" and id: "hs_handshake sent = hs_id hs"
    by (simp_all add: sent build_sync_data_def wire_delta_from_duration_def as_millis_def wrap_i32_id in_i32_iff)
  have ok: "sync_ok sent"
    using assms(3,6) mono uptime_ms_range(1) [of hs t0] by (simp add: sync_ok_def time delta id in_u32_iff in_i32_iff)
  have "uptime_ms hs' t1 = uptime_ms hs t1" by (simp add: uptime_ms_def hs')
  then show ?thesis
    using assms(2,7) mono unfolding handle_def bias_eq [OF ok]
    by (simp add: time delta id hs' HANDSHAKE_BIAS_TOLERANCE_MS_def)
qed

text \<open>
  The wire time is 32 bits wide but the uptime it is compared with is not: once the server has been up for
  more than 6442450992 ms (about 74.6 days), no reply a client can encode completes the handshake.
\<close>

theorem handshake_wedges_after_long_uptime:
  assumes "sync_ok data" and "6442450992 < uptime_ms hs now"
  shows "fst (handle hs data now) \<noteq> Inr CompletedInitial"
  using assms uptime_ms_range [of hs now] unfolding handle_def bias_eq [OF assms(1)]
  by (auto simp: HANDSHAKE_BIAS_TOLERANCE_MS_def Let_def sync_ok_def in_u32_iff in_i32_iff)

section \<open>Bounded retries\<close>

text \<open>\<open>sync_run hs n hs'\<close>: \<open>n\<close> replies in a row were each answered with another synchronisation request.\<close>

inductive sync_run :: "HandshakeState \<Rightarrow> nat \<Rightarrow> HandshakeState \<Rightarrow> bool" for hs :: HandshakeState where
  start: "sync_run hs 0 hs"
| again: "sync_run hs n hs1 \<Longrightarrow> handle hs1 data now = (Inr (SendHandshakeSync r), hs2) \<Longrightarrow> sync_run hs (Suc n) hs2"

lemma sync_step:
  assumes "handle hs data now = (Inr (SendHandshakeSync r), hs')" and "handshaking hs" and "0 \<le> retries hs" and "retries hs \<le> 32"
  shows "retries hs' = retries hs + 1" and "retries hs < 32" and "handshaking hs'"
proof -
  have "sat_u 8 (retries hs + 1) = retries hs + 1" using assms(3,4) by (intro sat_u_id) (simp add: in_u_def)
  then have "retries hs' = retries hs + 1 \<and> retries hs < 32 \<and> handshaking hs'"
    using assms(1,2) by (auto simp: handle_def Let_def HANDSHAKE_RETRY_LIMIT_def split: if_splits)
  then show "retries hs' = retries hs + 1" "retries hs < 32" "handshaking hs'" by blast+
qed

lemma sync_run_retries:
  assumes "sync_run hs n hs'" and "handshaking hs" and "retries hs = 0"
  shows "handshaking hs' \<and> retries hs' = int n \<and> n \<le> 32"
  using assms(1)
proof induction
  case (again n hs1 data now r hs2)
  with sync_step [OF again.hyps(2)] show ?case by auto
qed (simp add: assms)

text \<open>
  The handshake cannot be kept going for ever: at most 32 synchronisation requests are sent to a fresh
  connection that keeps answering badly, and after them a further bad reply ends with the retry limit
  error.
\<close>

theorem handshake_retries_bounded:
  assumes "sync_run (with_seed start t0 seed) n hs"
  shows "n \<le> 32 \<and> (n = 32 \<longrightarrow> (\<forall>data now. hs_handshake data = hs_id hs \<longrightarrow>
    fst (handle hs data now) \<in> {Inr CompletedInitial, Inl RetryLimitExceeded}))"
proof -
  have r: "handshaking hs \<and> retries hs = int n \<and> n \<le> 32"
    by (rule sync_run_retries [OF assms]) (simp_all add: with_seed_def)
  then have "fst (handle hs data now) \<in> {Inr CompletedInitial, Inl RetryLimitExceeded}"
    if "n = 32" "hs_handshake data = hs_id hs" for data now
    using that by (simp add: handle_def Let_def HANDSHAKE_RETRY_LIMIT_def sat_u_def)
  with r show ?thesis by blast
qed

section \<open>A concrete handshake\<close>

definition example_handshake :: HandshakeState where
  "example_handshake = with_seed 0 0 7"

lemma example_uptime: "uptime_ms example_handshake (1000000000 * s) = min i64_MAX (max 0 (1000 * s))"
proof -
  have "max 0 (1000000000 * s) = max 0 (1000 * s) * 1000000" by (simp add: max_def)
  then show ?thesis by (simp add: uptime_ms_def example_handshake_def with_seed_def)
qed

theorem handshake_completes_iff_witness:
  "fst (handle example_handshake \<lparr>hs_handshake = 7, hs_time = 970, hs_delta = 10\<rparr> 1000000000) = Inr CompletedInitial"
  using handshake_completes_iff [of "\<lparr>hs_handshake = 7, hs_time = 970, hs_delta = 10\<rparr>" example_handshake 1000000000]
    example_uptime [of 1]
  by (simp add: sync_ok_def in_u32_iff in_i32_iff) (simp add: example_handshake_def with_seed_def)

theorem prompt_echo_completes_witness:
  "fst (handle (snd (initial_sync_data example_handshake 1000000000))
     (fst (initial_sync_data example_handshake 1000000000)) 1040000000) = Inr CompletedInitial"
  by (rule prompt_echo_completes [of example_handshake 1000000000])
    (simp_all add: example_handshake_def with_seed_def uptime_ms_def in_u32_iff)

theorem handshake_wedges_after_long_uptime_witness:
  "fst (handle example_handshake \<lparr>hs_handshake = 7, hs_time = 4294967295, hs_delta = 2147483647\<rparr> 6443000000000000)
    \<noteq> Inr CompletedInitial"
  by (rule handshake_wedges_after_long_uptime)
    (simp_all add: sync_ok_def in_u32_iff in_i32_iff uptime_ms_def example_handshake_def with_seed_def)

theorem handshake_retries_bounded_witness:
  "\<exists>hs. sync_run (with_seed 0 0 7) 1 hs \<and> (1 :: nat) \<le> 32"
proof -
  let ?d = "\<lparr>hs_handshake = 7, hs_time = 0, hs_delta = 0\<rparr>"
  have ok: "sync_ok ?d" by (simp add: sync_ok_def in_u32_iff in_i32_iff)
  have u: "uptime_ms (with_seed 0 0 7) 1000000000 = 1000" by (simp add: uptime_ms_def with_seed_def)
  have w: "hs_id (with_seed 0 0 7) = 7" "handshaking (with_seed 0 0 7)" "retries (with_seed 0 0 7) = 0"
    by (simp_all add: with_seed_def)
  have "\<exists>r hs. handle (with_seed 0 0 7) ?d 1000000000 = (Inr (SendHandshakeSync r), hs)"
    unfolding handle_def bias_eq [OF ok] u
    by (simp add: w HANDSHAKE_BIAS_TOLERANCE_MS_def Let_def HANDSHAKE_RETRY_LIMIT_def sat_u_def)
  then obtain r hs where "handle (with_seed 0 0 7) ?d 1000000000 = (Inr (SendHandshakeSync r), hs)" by blast
  from sync_run.again [OF sync_run.start this] have run: "sync_run (with_seed 0 0 7) 1 hs" by simp
  with handshake_retries_bounded [OF run] show ?thesis by blast
qed

end
