(* ===== verification/Packet_Codec.thy ===== *)
theory Packet_Codec
  imports Handshake
begin

text \<open>
  Packet framing: the sequence bytes (\<^verbatim>\<open>zohar-protocol/src/pkt_seq.rs\<close>), the two codecs
  (\<^verbatim>\<open>zohar-net/src/codec.rs\<close>) and the hand-over of buffers between the phases of a connection
  (\<^verbatim>\<open>zohar-net/src/connection.rs\<close>, \<^verbatim>\<open>connection/game_conn.rs\<close>, \<^verbatim>\<open>connection/auth_conn.rs\<close>).

  Parameters.  The table of sequence bytes is a data file; it is the argument \<open>raw\<close>.  The packet type read
  by a codec is its reader \<open>rd\<close>, an instance of the \<open>wire_format\<close> contract.  Whether a \<^verbatim>\<open>binrw\<close> error
  means the end of the input is the library's \<^verbatim>\<open>is_eof\<close>, a parameter of which only the documented
  value on an unexpected end of file is used.
\<close>

section \<open>Sequence bytes\<close>

record SequenceMismatchError =
  sm_expected :: u8
  sm_got :: u8

record PacketSequencer =
  seq_bytes :: "u8 list"
  seq_pos :: nat
  last_mismatch :: "SequenceMismatchError option"

definition sequencer_default :: "u8 list \<Rightarrow> PacketSequencer" where
  "sequencer_default raw = \<lparr>seq_bytes = raw, seq_pos = 0, last_mismatch = None\<rparr>"

definition next_byte :: "PacketSequencer \<Rightarrow> (u8 \<times> PacketSequencer) exec" where
  "next_byte s =
    (if seq_pos s < length (seq_bytes s)
     then Some (seq_bytes s ! seq_pos s,
       s\<lparr>seq_pos := (if seq_pos s + 1 = length (seq_bytes s) then 0 else seq_pos s + 1)\<rparr>)
     else None)"

definition seq_expected :: "PacketSequencer \<Rightarrow> u8 exec" where
  "seq_expected s = (if seq_pos s < length (seq_bytes s) then Some (seq_bytes s ! seq_pos s) else None)"

definition seq_check :: "PacketSequencer \<Rightarrow> u8 \<Rightarrow> (bool \<times> PacketSequencer) exec" where
  "seq_check s got = do {
     (expected, s') \<leftarrow> next_byte s;
     Some (got = expected,
       s'\<lparr>last_mismatch := (if got = expected then None else Some \<lparr>sm_expected = expected, sm_got = got\<rparr>)\<rparr>)
   }"

definition mismatch_from :: "PacketSequencer \<Rightarrow> u8 \<Rightarrow> SequenceMismatchError" where
  "mismatch_from s got =
    (case last_mismatch s of Some m \<Rightarrow> m | None \<Rightarrow> \<lparr>sm_expected = got, sm_got = got\<rparr>)"

section \<open>Errors of the codec\<close>

datatype CustomErr = PhaseMismatch PhaseId | OtherCustom

datatype IoError =
    PhaseMismatchIo PhaseId u8 "u8 list"
  | UnknownOpcodeIo u8 "u8 list"
  | DecodeFailedIo "CustomErr BinError"
  | SequenceMismatchIo SequenceMismatchError
  | EncodeFailedIo "CustomErr BinError"

fun is_incomplete :: "(CustomErr BinError \<Rightarrow> bool) \<Rightarrow> CustomErr BinError \<Rightarrow> bool" where
  "is_incomplete is_eof (EnumErrors es) = (is_eof (EnumErrors es) \<or> (\<exists>e\<in>set es. is_incomplete is_eof e))"
| "is_incomplete is_eof (Backtrace e) = (is_eof (Backtrace e) \<or> is_incomplete is_eof e)"
| "is_incomplete is_eof e = is_eof e"

fun find_source_error :: "CustomErr BinError \<Rightarrow> PhaseId option"
  and find_source_errors :: "CustomErr BinError list \<Rightarrow> PhaseId option" where
  "find_source_error (CustomError c) = (case c of PhaseMismatch p \<Rightarrow> Some p | OtherCustom \<Rightarrow> None)"
| "find_source_error (EnumErrors es) = find_source_errors es"
| "find_source_error (Backtrace e) = find_source_error e"
| "find_source_error e = None"
| "find_source_errors [] = None"
| "find_source_errors (e # es) =
    (case find_source_error e of Some p \<Rightarrow> Some p | None \<Rightarrow> find_source_errors es)"

fun is_start_magic :: "CustomErr BinError \<Rightarrow> bool" where
  "is_start_magic (BadMagic pos) = (pos = 0)"
| "is_start_magic (Backtrace e) = is_start_magic e"
| "is_start_magic e = False"

fun is_unknown_opcode :: "CustomErr BinError \<Rightarrow> bool" where
  "is_unknown_opcode (EnumErrors es) = (es \<noteq> [] \<and> (\<forall>e\<in>set es. is_start_magic e))"
| "is_unknown_opcode (Backtrace e) = is_unknown_opcode e"
| "is_unknown_opcode e = is_start_magic e"

definition decode_error_to_io :: "u8 list \<Rightarrow> CustomErr BinError \<Rightarrow> IoError" where
  "decode_error_to_io src e =
    (let opcode = (case src of [] \<Rightarrow> 0 | b # _ \<Rightarrow> b) in
     case find_source_error e of
       Some p \<Rightarrow> PhaseMismatchIo p opcode src
     | None \<Rightarrow> if is_unknown_opcode e then UnknownOpcodeIo opcode src else DecodeFailedIo e)"

section \<open>The codecs\<close>

definition decode_simple ::
  "(CustomErr BinError \<Rightarrow> bool) \<Rightarrow> (CustomErr, 'p) reader \<Rightarrow> u8 list \<Rightarrow> (IoError + 'p option) \<times> u8 list" where
  "decode_simple is_eof rd src =
    (if src = [] then (Inr None, src)
     else case rd src of
       Inr (packet, rest) \<Rightarrow> (Inr (Some packet), drop (length src - length rest) src)
     | Inl e \<Rightarrow> if is_incomplete is_eof e then (Inr None, src) else (Inl (decode_error_to_io src e), src))"

definition decode_sequenced ::
  "(CustomErr BinError \<Rightarrow> bool) \<Rightarrow> (CustomErr, 'p) reader \<Rightarrow> PacketSequencer \<Rightarrow> u8 list \<Rightarrow>
   ((IoError + 'p option) \<times> PacketSequencer \<times> u8 list) exec" where
  "decode_sequenced is_eof rd sq src =
    (case src of [] \<Rightarrow> Some (Inr None, sq, src)
     | opcode # _ \<Rightarrow>
        (case rd src of
           Inl e \<Rightarrow> Some (if is_incomplete is_eof e then (Inr None, sq, src)
                           else (Inl (decode_error_to_io src e), sq, src))
         | Inr (packet, rest) \<Rightarrow>
             let packet_len = length src - length rest in
             if \<not> is_unsequenced_c2s_opcode opcode then
               (if length src \<le> packet_len then Some (Inr None, sq, src)
                else do {
                  (matches, sq') \<leftarrow> seq_check sq (src ! packet_len);
                  if \<not> matches then do {
                    expected \<leftarrow> seq_expected sq';
                    Some (Inl (SequenceMismatchIo \<lparr>sm_expected = expected, sm_got = src ! packet_len\<rparr>), sq', src)
                  }
                  else Some (Inr (Some packet), sq', drop (packet_len + 1) src)
                })
             else Some (Inr (Some packet), sq, drop packet_len src)))"

text \<open>\<^verbatim>\<open>encode_item\<close> appends the written packet; server packets carry no sequence byte.\<close>

definition encode_item :: "('p \<Rightarrow> CustomErr BinError + u8 list) \<Rightarrow> 'p \<Rightarrow> u8 list \<Rightarrow> (IoError + unit) \<times> u8 list" where
  "encode_item wr item dst =
    (case wr item of Inl e \<Rightarrow> (Inl (EncodeFailedIo e), dst) | Inr written \<Rightarrow> (Inr (), dst @ written))"

section \<open>Connections and phase transitions\<close>

datatype Codec = Stateless | Sequenced PacketSequencer

record Framed =
  codec :: Codec
  read_buf :: "u8 list"
  write_buf :: "u8 list"

definition framed_new :: "Codec \<Rightarrow> Framed" where
  "framed_new c = \<lparr>codec = c, read_buf = [], write_buf = []\<rparr>"

record 's Connection =
  framed :: Framed
  conn_state :: 's

definition transition_with_codec :: "'a Connection \<Rightarrow> 'b \<Rightarrow> Codec \<Rightarrow> 'b Connection" where
  "transition_with_codec conn st c =
    \<lparr>framed = (framed_new c)\<lparr>read_buf := read_buf (framed conn)\<rparr>, conn_state = st\<rparr>"

definition transition_default :: "u8 list \<Rightarrow> 'a Connection \<Rightarrow> 'b \<Rightarrow> 'b Connection" where
  "transition_default raw conn st = transition_with_codec conn st (Sequenced (sequencer_default raw))"

text \<open>The type of the source only lets a sequenced connection use this transition; \<open>None\<close> otherwise.\<close>

definition transition_with_sequencer :: "'a Connection \<Rightarrow> 'b \<Rightarrow> 'b Connection option" where
  "transition_with_sequencer conn st =
    (case codec (framed conn) of Stateless \<Rightarrow> None
     | Sequenced sq \<Rightarrow> Some \<lparr>framed = (framed_new (Sequenced sq))\<lparr>read_buf := read_buf (framed conn)\<rparr>, conn_state = st\<rparr>)"

text \<open>The session data of each phase; \<open>'l\<close> is the loaded player, which the connection only carries.\<close>

datatype 'l GameState =
    HandshakeGame
  | Login
  | Select string
  | Loading string i64 string
  | InGame string i64 string 'l

datatype 'l GameEvent =
    ToLogin
  | ToSelect string
  | ToLoading i64 string
  | ToInGame 'l
  | BackToSelect

fun state_phase :: "'l GameState \<Rightarrow> PhaseId" where
  "state_phase HandshakeGame = PhHandshake"
| "state_phase Login = PhLogin"
| "state_phase (Select _) = PhSelect"
| "state_phase (Loading _ _ _) = PhLoading"
| "state_phase (InGame _ _ _ _) = PhInGame"

definition game_conn_new :: "'l GameState Connection" where
  "game_conn_new = \<lparr>framed = framed_new Stateless, conn_state = HandshakeGame\<rparr>"

text \<open>\<^verbatim>\<open>NextState::transition\<close> of every state; an event that the state's type does not offer is \<open>None\<close>.\<close>

fun game_transition :: "u8 list \<Rightarrow> 'l GameState Connection \<Rightarrow> 'l GameEvent \<Rightarrow> 'l GameState Connection option" where
  "game_transition raw conn ev =
    (case (conn_state conn, ev) of
       (HandshakeGame, ToLogin) \<Rightarrow> Some (transition_default raw conn Login)
     | (Login, ToSelect username) \<Rightarrow> transition_with_sequencer conn (Select username)
     | (Select username, ToLoading pid name) \<Rightarrow> transition_with_sequencer conn (Loading username pid name)
     | (Loading username pid name, ToInGame loaded) \<Rightarrow> transition_with_sequencer conn (InGame username pid name loaded)
     | (InGame username pid name _, BackToSelect) \<Rightarrow> transition_with_sequencer conn (Select username)
     | _ \<Rightarrow> None)"

section \<open>The byte stream a client sends\<close>

definition seq_ok :: "PacketSequencer \<Rightarrow> bool" where
  "seq_ok s \<longleftrightarrow> seq_pos s < length (seq_bytes s)"

definition is_sequenced :: "u8 list \<Rightarrow> bool" where
  "is_sequenced bs \<longleftrightarrow> \<not> is_unsequenced_c2s_opcode (hd bs)"

definition advanced :: "PacketSequencer \<Rightarrow> u8 list \<Rightarrow> PacketSequencer" where
  "advanced s bs =
    (if is_sequenced bs
     then s\<lparr>seq_pos := (if seq_pos s + 1 = length (seq_bytes s) then 0 else seq_pos s + 1), last_mismatch := None\<rparr>
     else s)"

text \<open>A packet as a client frames it: its bytes, then the sequence byte unless its opcode is exempt.\<close>

definition frame :: "PacketSequencer \<Rightarrow> u8 list \<Rightarrow> u8 list" where
  "frame s bs = bs @ (if is_sequenced bs then [seq_bytes s ! seq_pos s] else [])"

fun stream :: "PacketSequencer \<Rightarrow> u8 list list \<Rightarrow> u8 list" where
  "stream s [] = []"
| "stream s (bs # bss) = frame s bs @ stream (advanced s bs) bss"

definition advanced_by :: "PacketSequencer \<Rightarrow> u8 list list \<Rightarrow> PacketSequencer" where
  "advanced_by s bss = foldl advanced s bss"

lemma seq_ok_advanced [simp]: "seq_ok s \<Longrightarrow> seq_ok (advanced s bs)"
  by (auto simp: seq_ok_def advanced_def)

lemma seq_ok_advanced_by: "seq_ok s \<Longrightarrow> seq_ok (advanced_by s bss)"
  unfolding advanced_by_def by (induction bss arbitrary: s) simp_all

lemma stream_append: "stream s (xs @ ys) = stream s xs @ stream (advanced_by s xs) ys"
  by (induction xs arbitrary: s) (simp_all add: advanced_by_def)

lemma seq_check_match:
  "seq_ok s \<Longrightarrow> is_sequenced bs \<Longrightarrow> seq_check s (seq_bytes s ! seq_pos s) = Some (True, advanced s bs)"
  by (simp add: seq_check_def next_byte_def seq_ok_def advanced_def)

section \<open>The codec against the wire contract\<close>

lemma is_incomplete_eof: "is_eof IoUnexpectedEof \<Longrightarrow> eof_error e \<Longrightarrow> is_incomplete is_eof e"
  by (induction is_eof e rule: is_incomplete.induct) auto

locale packet_stream = wire_format valid rd wr
  for valid :: "'p \<Rightarrow> bool" and rd :: "(CustomErr, 'p) reader" and wr :: "'p \<Rightarrow> u8 list" +
  assumes nonempty: "valid p \<Longrightarrow> wr p \<noteq> []"
begin

lemma decode_complete:
  assumes p: "valid p" and s: "seq_ok s"
  shows "decode_sequenced is_eof rd s (frame s (wr p) @ ys) = Some (Inr (Some p), advanced s (wr p), ys)"
proof -
  obtain opcode body where w: "wr p = opcode # body" using nonempty [OF p] by (cases "wr p") auto
  show ?thesis
  proof (cases "is_unsequenced_c2s_opcode opcode")
    case True
    then have "frame s (wr p) = wr p" "advanced s (wr p) = s" by (simp_all add: frame_def advanced_def is_sequenced_def w)
    then show ?thesis
      using read_written [OF p, of ys] True by (simp add: decode_sequenced_def w Let_def)
  next
    case False
    then have sq: "is_sequenced (wr p)" by (simp add: is_sequenced_def w)
    let ?src = "wr p @ [seq_bytes s ! seq_pos s] @ ys"
    have f: "frame s (wr p) @ ys = ?src" using sq by (simp add: frame_def)
    have r: "rd ?src = Inr (p, [seq_bytes s ! seq_pos s] @ ys)" by (rule read_written [OF p])
    have len: "length ?src - length ([seq_bytes s ! seq_pos s] @ ys) = length (wr p)" by simp
    have nth: "?src ! length (wr p) = seq_bytes s ! seq_pos s" by simp
    have "\<not> length ?src \<le> length (wr p)" "drop (length (wr p) + 1) ?src = ys" by simp_all
    then show ?thesis
      unfolding f decode_sequenced_def
      using False r seq_check_match [OF s sq] len nth by (simp add: w Let_def)
  qed
qed

lemma decode_partial:
  assumes p: "valid p" and s: "seq_ok s" and "buf @ ys = frame s (wr p)" and "ys \<noteq> []"
    and eof: "is_eof IoUnexpectedEof"
  shows "decode_sequenced is_eof rd s buf = Some (Inr None, s, buf)"
proof (cases buf)
  case Nil
  then show ?thesis by (simp add: decode_sequenced_def)
next
  case (Cons opcode rest)
  show ?thesis
  proof (cases "length buf < length (wr p)")
    case True
    then have "buf = take (length buf) (wr p)"
      using assms(3) by (auto simp: frame_def dest: arg_cong [where f = "take (length buf)"])
    with read_short [OF p True] obtain e where "rd buf = Inl e" "eof_error e" by (auto elim: ends_earlyE)
    with Cons is_incomplete_eof [of is_eof] eof show ?thesis by (simp add: decode_sequenced_def)
  next
    case False
    have "length buf + length ys = length (frame s (wr p))" by (simp flip: assms(3))
    with False assms(4) have sq: "is_sequenced (wr p)" and l: "length buf = length (wr p)"
      by (auto simp: frame_def split: if_splits) (cases ys; simp)+
    have "take (length buf) (buf @ ys) = take (length (wr p)) (frame s (wr p))" unfolding assms(3) l ..
    then have b: "buf = wr p" by (simp add: frame_def)
    have "\<not> is_unsequenced_c2s_opcode opcode" using sq Cons by (simp add: is_sequenced_def b)
    then show ?thesis using read_exactly [OF p] Cons by (simp add: decode_sequenced_def b Let_def)
  qed
qed

end

text \<open>
  A receiving connection: chunks of bytes arrive in any split, and between arrivals the codec is asked for
  packets.  \<open>recv_run is_eof rd s0 arrived s buf out\<close>: having received \<open>arrived\<close>, the connection has
  delivered the packets \<open>out\<close> and holds the buffer \<open>buf\<close> and the sequencer \<open>s\<close>.
\<close>

inductive recv_run ::
  "(CustomErr BinError \<Rightarrow> bool) \<Rightarrow> (CustomErr, 'p) reader \<Rightarrow> PacketSequencer \<Rightarrow>
   u8 list \<Rightarrow> PacketSequencer \<Rightarrow> u8 list \<Rightarrow> 'p list \<Rightarrow> bool"
  for is_eof :: "CustomErr BinError \<Rightarrow> bool" and rd :: "(CustomErr, 'p) reader" and s0 :: PacketSequencer where
  start: "recv_run is_eof rd s0 [] s0 [] []"
| arrive: "recv_run is_eof rd s0 arrived s buf out \<Longrightarrow> recv_run is_eof rd s0 (arrived @ chunk) s (buf @ chunk) out"
| deliver: "recv_run is_eof rd s0 arrived s buf out \<Longrightarrow> decode_sequenced is_eof rd s buf = Some (Inr (Some p), s', buf') \<Longrightarrow>
    recv_run is_eof rd s0 arrived s' buf' (out @ [p])"

context packet_stream
begin

text \<open>What the codec says about a buffer that holds the beginning of a stream of valid packets.\<close>

lemma decode_stream:
  assumes ps: "\<forall>p\<in>set ps. valid p" and s: "seq_ok s" and pre: "buf @ ys = stream s (map wr ps)" and eof: "is_eof IoUnexpectedEof"
  shows "(decode_sequenced is_eof rd s buf = Some (Inr None, s, buf) \<and> (ys = [] \<longrightarrow> ps = [])) \<or>
    (\<exists>p ps' zs. ps = p # ps' \<and> buf = frame s (wr p) @ zs \<and>
      decode_sequenced is_eof rd s buf = Some (Inr (Some p), advanced s (wr p), zs))"
proof (cases ps)
  case Nil
  then show ?thesis using pre by (simp add: decode_sequenced_def)
next
  case (Cons p ps')
  then have p: "valid p" using ps by simp
  have eq: "buf @ ys = frame s (wr p) @ stream (advanced s (wr p)) (map wr ps')" using pre Cons by simp
  then obtain us where "buf = frame s (wr p) @ us \<or> (buf @ us = frame s (wr p) \<and> us \<noteq> [] \<and> ys \<noteq> [])"
    unfolding append_eq_append_conv2 by (metis append_Nil2 append_is_Nil_conv)
  then consider "buf = frame s (wr p) @ us" | "buf @ us = frame s (wr p)" "us \<noteq> []" "ys \<noteq> []" by blast
  then show ?thesis
  proof cases
    case 1
    with decode_complete [OF p s] Cons show ?thesis by blast
  next
    case 2
    from decode_partial [where is_eof = is_eof, OF p s 2(1,2) eof] 2(3) show ?thesis by blast
  qed
qed

lemma recv_invariant:
  assumes "recv_run is_eof rd s0 arrived s buf out" and ps: "\<forall>p\<in>set ps. valid p" and s0: "seq_ok s0"
    and eof: "is_eof IoUnexpectedEof" and "arrived @ ys = stream s0 (map wr ps)"
  shows "\<exists>rest. ps = out @ rest \<and> s = advanced_by s0 (map wr out) \<and> arrived = stream s0 (map wr out) @ buf"
  using assms(1,5)
proof (induction arbitrary: ys)
  case start
  show ?case by (simp add: advanced_by_def)
next
  case (arrive arrived s buf out chunk)
  from arrive.IH [of "chunk @ ys"] arrive.prems show ?case by auto
next
  case (deliver arrived s buf out p s' buf')
  from deliver.IH [OF deliver.prems] obtain rest where r: "ps = out @ rest"
    "s = advanced_by s0 (map wr out)" "arrived = stream s0 (map wr out) @ buf" by blast
  then have "buf @ ys = stream s (map wr rest)" using deliver.prems by (simp add: stream_append)
  moreover have "\<forall>p\<in>set rest. valid p" "seq_ok s" using ps r s0 by (simp_all add: seq_ok_advanced_by)
  ultimately obtain q rest' zs where q: "rest = q # rest'" "buf = frame s (wr q) @ zs"
    "decode_sequenced is_eof rd s buf = Some (Inr (Some q), advanced s (wr q), zs)"
    using decode_stream [of rest s buf ys is_eof] eof deliver.hyps(2) by fastforce
  then have "p = q" "s' = advanced s (wr q)" "buf' = zs" using deliver.hyps(2) by auto
  then show ?case using r q(1,2) by (simp add: stream_append advanced_by_def)
qed

theorem receive_stream:
  assumes "recv_run is_eof rd s0 arrived s buf out" and ps: "\<forall>p\<in>set ps. valid p" and s0: "seq_ok s0"
    and eof: "is_eof IoUnexpectedEof" and pre: "arrived @ ys = stream s0 (map wr ps)"
  shows "(\<exists>rest. ps = out @ rest) \<and>
    (\<exists>r s' buf'. decode_sequenced is_eof rd s buf = Some (Inr r, s', buf') \<and> (ys = [] \<and> r = None \<longrightarrow> out = ps))"
proof -
  from recv_invariant [OF assms] obtain rest where r: "ps = out @ rest"
    "s = advanced_by s0 (map wr out)" "arrived = stream s0 (map wr out) @ buf" by blast
  then have "buf @ ys = stream s (map wr rest)" using pre by (simp add: stream_append)
  moreover have "\<forall>p\<in>set rest. valid p" "seq_ok s" using ps r s0 by (simp_all add: seq_ok_advanced_by)
  ultimately show ?thesis
    using decode_stream [of rest s buf ys is_eof] eof r(1) by fastforce
qed

end

section \<open>Replay protection and its error report\<close>

lemma decode_delivers:
  assumes "decode_sequenced is_eof rd s src = Some (Inr (Some p), s', buf')"
  obtains rest where "src \<noteq> []" and "rd src = Inr (p, rest)"
    and "is_sequenced src \<Longrightarrow> length src - length rest < length src \<and> seq_check s (src ! (length src - length rest)) = Some (True, s') \<and>
      buf' = drop (length src - length rest + 1) src"
    and "\<not> is_sequenced src \<Longrightarrow> s' = s \<and> buf' = drop (length src - length rest) src"
  using assms
  by (auto simp: decode_sequenced_def is_sequenced_def Let_def bind_eq_Some_conv
      split: list.splits sum.splits if_splits)

text \<open>
  C31. Replay protection, for any packet type.  When the codec delivers a packet that its reader parsed from the first
  \<open>n\<close> bytes of the buffer, and the opcode is not one of the exempt ones, then the byte right after those \<open>n\<close> is the byte
  the sequencer expected, the \<open>n + 1\<close> bytes are consumed and the sequencer moves on by one place.  A packet with an
  exempt opcode carries no sequence byte: exactly its \<open>n\<close> bytes are consumed and the sequencer stays.
\<close>

theorem delivered_packet_had_expected_sequence_byte:
  assumes "decode_sequenced is_eof rd s src = Some (Inr (Some p), s', buf')"
  shows "\<exists>rest n. rd src = Inr (p, rest) \<and> n = length src - length rest \<and>
    (if is_unsequenced_c2s_opcode (hd src) then buf' = drop n src \<and> s' = s
     else n < length src \<and> seq_expected s = Some (src ! n) \<and> buf' = drop (n + 1) src \<and>
       s' = s\<lparr>seq_pos := (seq_pos s + 1) mod length (seq_bytes s), last_mismatch := None\<rparr>)"
proof (rule decode_delivers [OF assms])
  fix rest :: "u8 list"
  let ?n = "length src - length rest"
  assume rd: "rd src = Inr (p, rest)"
    and seq: "is_sequenced src \<Longrightarrow> ?n < length src \<and> seq_check s (src ! ?n) = Some (True, s') \<and> buf' = drop (?n + 1) src"
    and free: "\<not> is_sequenced src \<Longrightarrow> s' = s \<and> buf' = drop ?n src"
  show ?thesis
  proof (cases "is_sequenced src")
    case True
    from seq [OF True] have ok: "seq_pos s < length (seq_bytes s)" and b: "src ! ?n = seq_bytes s ! seq_pos s"
      and s': "s' = s\<lparr>seq_pos := (if seq_pos s + 1 = length (seq_bytes s) then 0 else seq_pos s + 1), last_mismatch := None\<rparr>"
      by (auto simp: seq_check_def next_byte_def bind_eq_Some_conv split: if_splits)
    have "(if seq_pos s + 1 = length (seq_bytes s) then 0 else seq_pos s + 1) = (seq_pos s + 1) mod length (seq_bytes s)"
      using ok by simp
    then show ?thesis using rd seq [OF True] b ok True unfolding s' is_sequenced_def
      by (intro exI [of _ rest] exI [of _ ?n]) (simp add: seq_expected_def)
  next
    case False
    then show ?thesis using rd free by (intro exI [of _ rest] exI [of _ ?n]) (simp add: is_sequenced_def)
  qed
qed

lemma decode_error_not_sequence [simp]:
  "decode_error_to_io src e \<noteq> SequenceMismatchIo m" "SequenceMismatchIo m \<noteq> decode_error_to_io src e"
  by (simp_all add: decode_error_to_io_def Let_def split: option.splits)

lemma decode_mismatch:
  assumes "decode_sequenced is_eof rd s src = Some (Inl (SequenceMismatchIo m), s', buf')"
  obtains n where "seq_check s (src ! n) = Some (False, s')" and "seq_expected s' = Some (sm_expected m)"
    and "sm_got m = src ! n" and "buf' = src"
  using assms
  by (auto simp: decode_sequenced_def Let_def bind_eq_Some_conv split: list.split_asm sum.split_asm if_split_asm)

text \<open>
  The error reported for a wrong sequence byte names the wrong expectation: the check has already moved the
  sequencer, so the reported byte is the one after the byte that was compared, while
  \<^verbatim>\<open>last_mismatch\<close> keeps the right one.
\<close>

theorem mismatch_reports_following_byte:
  assumes "decode_sequenced is_eof rd s src = Some (Inl (SequenceMismatchIo m), s', buf')"
  shows "sm_expected m = seq_bytes s ! ((seq_pos s + 1) mod length (seq_bytes s)) \<and>
    last_mismatch s' = Some \<lparr>sm_expected = seq_bytes s ! seq_pos s, sm_got = sm_got m\<rparr> \<and>
    sm_got m \<noteq> seq_bytes s ! seq_pos s \<and> buf' = src"
proof -
  from assms obtain n where c: "seq_check s (src ! n) = Some (False, s')"
    and e: "seq_expected s' = Some (sm_expected m)" and g: "sm_got m = src ! n" and "buf' = src"
    by (rule decode_mismatch)
  from c have ok: "seq_pos s < length (seq_bytes s)" and ne: "src ! n \<noteq> seq_bytes s ! seq_pos s"
    and s': "s' = s\<lparr>seq_pos := (if seq_pos s + 1 = length (seq_bytes s) then 0 else seq_pos s + 1),
      last_mismatch := Some \<lparr>sm_expected = seq_bytes s ! seq_pos s, sm_got = src ! n\<rparr>\<rparr>"
    by (auto simp: seq_check_def next_byte_def bind_eq_Some_conv split: if_splits)
  have "(if seq_pos s + 1 = length (seq_bytes s) then 0 else seq_pos s + 1) = (seq_pos s + 1) mod length (seq_bytes s)"
    using ok by simp
  with e s' g ne \<open>buf' = src\<close> show ?thesis by (auto simp: seq_expected_def split: if_splits)
qed

section \<open>Phases of a game connection\<close>

inductive game_run :: "u8 list \<Rightarrow> 'l GameState Connection \<Rightarrow> 'l GameState Connection \<Rightarrow> bool" for raw :: "u8 list" where
  stay: "game_run raw conn conn"
| move: "game_run raw conn conn1 \<Longrightarrow> game_transition raw conn1 ev = Some conn2 \<Longrightarrow> game_run raw conn conn2"

fun session_user :: "'l GameState \<Rightarrow> string option" where
  "session_user (Select u) = Some u"
| "session_user (Loading u _ _) = Some u"
| "session_user (InGame u _ _ _) = Some u"
| "session_user _ = None"

lemma transition_sequencer_Some:
  "transition_with_sequencer conn st = Some conn' \<longleftrightarrow> (\<exists>s. codec (framed conn) = Sequenced s) \<and>
    conn' = \<lparr>framed = \<lparr>codec = codec (framed conn), read_buf = read_buf (framed conn), write_buf = []\<rparr>, conn_state = st\<rparr>"
  by (cases "codec (framed conn)") (auto simp: transition_with_sequencer_def framed_new_def)

lemma game_move:
  assumes "game_transition raw conn ev = Some conn'"
  shows "read_buf (framed conn') = read_buf (framed conn)"
    and "conn_state conn \<noteq> HandshakeGame \<Longrightarrow> codec (framed conn') = codec (framed conn)"
    and "conn_state conn = HandshakeGame \<Longrightarrow> codec (framed conn') = Sequenced (sequencer_default raw)"
    and "conn_state conn' \<noteq> HandshakeGame"
    and "session_user (conn_state conn) = Some u \<Longrightarrow> session_user (conn_state conn') = Some u"
  using assms
  by (auto simp: transition_sequencer_Some transition_default_def transition_with_codec_def framed_new_def
      split: GameState.splits GameEvent.splits)

text \<open>
  Changing phase loses nothing the client sent: along every path of phase transitions the unread bytes are kept,
  from login on the sequencer is kept too, it is the fresh one when the handshake ends, and an
  authenticated user name never changes.
\<close>

theorem phase_transitions_keep_stream:
  assumes "game_run raw conn conn'"
  shows "read_buf (framed conn') = read_buf (framed conn) \<and>
    (conn_state conn \<noteq> HandshakeGame \<longrightarrow> conn_state conn' \<noteq> HandshakeGame \<and> codec (framed conn') = codec (framed conn)) \<and>
    (conn_state conn = HandshakeGame \<and> conn' \<noteq> conn \<longrightarrow> codec (framed conn') = Sequenced (sequencer_default raw)) \<and>
    (\<forall>u. session_user (conn_state conn) = Some u \<longrightarrow> session_user (conn_state conn') = Some u)"
  using assms
proof induction
  case (move conn conn1 ev conn2)
  note g = game_move [OF move.hyps(2)]
  have "codec (framed conn2) = Sequenced (sequencer_default raw)" if "conn_state conn = HandshakeGame"
  proof (cases "conn1 = conn")
    case True
    then show ?thesis using g(3) that by simp
  next
    case False
    then have "codec (framed conn1) = Sequenced (sequencer_default raw)" using move.IH that by blast
    then show ?thesis using g(2,3) by (cases "conn_state conn1 = HandshakeGame") simp_all
  qed
  with g move.IH show ?case by metis
qed simp

end
