(* ===== verification/Auth_Packets.thy ===== *)
theory Auth_Packets
  imports Packet_Codec
begin

text \<open>
  The packets of the authentication server (\<^verbatim>\<open>zohar-protocol/src/auth_pkt.rs\<close>) with the opcode routing of
  \<^verbatim>\<open>route_packets.rs\<close>, and the codec's guarantee for a whole client session over them.
\<close>

section \<open>Opcode routing\<close>

text \<open>\<^verbatim>\<open>route_packets!\<close> peeks at the opcode, rewinds, and lets the variant that owns the opcode read.\<close>

definition route_read :: "(u8 \<Rightarrow> ('c, 'p) reader option) \<Rightarrow> ('c, 'p) reader" where
  "route_read table bs =
    (case read_u8 bs of Inl e \<Rightarrow> Inl e
     | Inr (opcode, _) \<Rightarrow> (case table opcode of Some rd \<Rightarrow> rd bs | None \<Rightarrow> Inl AssertFail))"

lemma wire_format_route:
  assumes "\<And>a. valid a \<Longrightarrow> \<exists>sub_ok rd. wire_format sub_ok rd wr \<and> sub_ok a \<and> wr a \<noteq> [] \<and> table (hd (wr a)) = Some rd"
  shows "wire_format valid (route_read table) wr"
proof
  fix a rest k
  assume a: "valid a"
  then obtain sub_ok rd where f: "wire_format sub_ok rd wr" and ok: "sub_ok a" and ne: "wr a \<noteq> []"
    and t: "table (hd (wr a)) = Some rd" using assms by blast
  then obtain opcode body where w: "wr a = opcode # body" by (cases "wr a") auto
  show "route_read table (wr a @ rest) = Inr (a, rest)"
    using t wire_format.read_written [OF f ok, of rest] by (simp add: route_read_def read_u8_def w)
  assume k: "k < length (wr a)"
  show "ends_early (route_read table (take k (wr a)))"
  proof (cases k)
    case (Suc j)
    then show ?thesis
      using t wire_format.read_short [OF f ok k] by (simp add: route_read_def read_u8_def w)
  qed (simp add: route_read_def read_u8_def)
qed

lemma wire_format_map:
  assumes "wire_format valid rd wr" and "\<And>a. valid a \<Longrightarrow> wr' (tag a) = wr a"
  shows "wire_format (\<lambda>x. \<exists>a. x = tag a \<and> valid a) (rbind rd (\<lambda>a. rpure (tag a))) wr'"
proof
  fix x rest k
  assume "\<exists>a. x = tag a \<and> valid a"
  then obtain a where x: "x = tag a" and a: "valid a" by blast
  show "rbind rd (\<lambda>a. rpure (tag a)) (wr' x @ rest) = Inr (x, rest)"
    using wire_format.read_written [OF assms(1) a, of rest] assms(2) [OF a] by (simp add: x rbind_def rpure_def)
  assume "k < length (wr' x)"
  then show "ends_early (rbind rd (\<lambda>a. rpure (tag a)) (take k (wr' x)))"
    using wire_format.read_short [OF assms(1) a, of k] assms(2) [OF a] by (simp add: x ends_early_rbind)
qed

section \<open>Authentication packets\<close>

record RequestPasswordLogin =
  login_username :: "u8 list"
  login_password :: "u8 list"
  login_enc_key :: "u8 list"

datatype AuthC2s = AuthControl ControlC2s | AuthSpecific RequestPasswordLogin

datatype HandshakeAuthC2s = HandshakeControl ControlC2s

definition read_password_login :: "('c, RequestPasswordLogin) reader" where
  "read_password_login = rbind read_u8 (\<lambda>magic.
     if magic \<noteq> 0x6F then rfail (BadMagic 0)
     else rbind (read_exact 31) (\<lambda>u. rbind (read_exact 17) (\<lambda>p. rbind (read_exact 16) (\<lambda>k.
       rpure \<lparr>login_username = u, login_password = p, login_enc_key = k\<rparr>))))"

definition write_password_login :: "RequestPasswordLogin \<Rightarrow> u8 list" where
  "write_password_login r = 0x6F # login_username r @ login_password r @ login_enc_key r"

definition auth_routes :: "u8 \<Rightarrow> ('c, AuthC2s) reader option" where
  "auth_routes opcode =
    (if opcode \<in> {0xFE, 0xFF, 0xFC} then Some (rbind read_control_c2s (\<lambda>c. rpure (AuthControl c)))
     else if opcode = 0x6F then Some (rbind read_password_login (\<lambda>r. rpure (AuthSpecific r)))
     else None)"

definition read_auth_c2s :: "('c, AuthC2s) reader" where
  "read_auth_c2s = route_read auth_routes"

fun write_auth_c2s :: "AuthC2s \<Rightarrow> u8 list" where
  "write_auth_c2s (AuthControl c) = write_control_c2s c"
| "write_auth_c2s (AuthSpecific r) = write_password_login r"

definition handshake_auth_routes :: "u8 \<Rightarrow> ('c, HandshakeAuthC2s) reader option" where
  "handshake_auth_routes opcode =
    (if opcode \<in> {0xFE, 0xFF, 0xFC} then Some (rbind read_control_c2s (\<lambda>c. rpure (HandshakeControl c))) else None)"

definition read_handshake_auth_c2s :: "('c, HandshakeAuthC2s) reader" where
  "read_handshake_auth_c2s = route_read handshake_auth_routes"

fun write_handshake_auth_c2s :: "HandshakeAuthC2s \<Rightarrow> u8 list" where
  "write_handshake_auth_c2s (HandshakeControl c) = write_control_c2s c"

definition login_ok :: "RequestPasswordLogin \<Rightarrow> bool" where
  "login_ok r \<longleftrightarrow> length (login_username r) = 31 \<and> length (login_password r) = 17 \<and> length (login_enc_key r) = 16"

fun auth_c2s_ok :: "AuthC2s \<Rightarrow> bool" where
  "auth_c2s_ok (AuthControl c) = c2s_ok c"
| "auth_c2s_ok (AuthSpecific r) = login_ok r"

fun handshake_auth_ok :: "HandshakeAuthC2s \<Rightarrow> bool" where
  "handshake_auth_ok (HandshakeControl c) = c2s_ok c"

lemma login_fields_wire:
  "wire_format login_ok (rbind (read_exact 31) (\<lambda>u. rbind (read_exact 17) (\<lambda>p. rbind (read_exact 16) (\<lambda>k.
     rpure \<lparr>login_username = u, login_password = p, login_enc_key = k\<rparr>))))
   (\<lambda>r. login_username r @ login_password r @ login_enc_key r)"
proof (rule wire_format_bind [OF wire_format_exact, where part = login_username and
      snd_ok = "\<lambda>u r. login_ok r \<and> login_username r = u" and wr_snd = "\<lambda>_ r. login_password r @ login_enc_key r"])
  fix u :: "u8 list"
  show "wire_format (\<lambda>r. login_ok r \<and> login_username r = u) (rbind (read_exact 17) (\<lambda>p. rbind (read_exact 16) (\<lambda>k.
     rpure \<lparr>login_username = u, login_password = p, login_enc_key = k\<rparr>))) (\<lambda>r. login_password r @ login_enc_key r)"
  proof (rule wire_format_bind [OF wire_format_exact, where part = login_password and
      snd_ok = "\<lambda>p r. login_ok r \<and> login_username r = u \<and> login_password r = p" and wr_snd = "\<lambda>_ r. login_enc_key r"])
    fix p :: "u8 list"
    show "wire_format (\<lambda>r. login_ok r \<and> login_username r = u \<and> login_password r = p) (rbind (read_exact 16) (\<lambda>k.
     rpure \<lparr>login_username = u, login_password = p, login_enc_key = k\<rparr>)) (\<lambda>r. login_enc_key r)"
      by (rule wire_format_bind [OF wire_format_exact wire_format_pure, where part = login_enc_key])
        (auto simp: login_ok_def)
  qed (auto simp: login_ok_def)
qed (auto simp: login_ok_def)

interpretation password_login_wire: wire_format login_ok read_password_login write_password_login
  unfolding read_password_login_def
proof (rule wire_format_bind [OF wire_format_u8, where part = "\<lambda>_. 0x6F" and
      snd_ok = "\<lambda>m r. login_ok r \<and> m = 0x6F" and wr_snd = "\<lambda>_ r. login_username r @ login_password r @ login_enc_key r"])
  fix magic :: u8
  show "wire_format (\<lambda>r. login_ok r \<and> magic = 0x6F)
     (if magic \<noteq> 0x6F then rfail (BadMagic 0)
     else rbind (read_exact 31) (\<lambda>u. rbind (read_exact 17) (\<lambda>p. rbind (read_exact 16) (\<lambda>k.
       rpure \<lparr>login_username = u, login_password = p, login_enc_key = k\<rparr>))))
     (\<lambda>r. login_username r @ login_password r @ login_enc_key r)"
    using login_fields_wire by (auto simp: wire_format_def)
qed (simp add: write_password_login_def)

lemma control_opcode: "hd (write_control_c2s c) \<in> {0xFE, 0xFF, 0xFC}" "write_control_c2s c \<noteq> []"
  by (cases c; simp add: write_control_c2s_def opcode_defs)+

interpretation auth_wire: packet_stream auth_c2s_ok read_auth_c2s write_auth_c2s
proof (rule packet_stream.intro)
  show "wire_format auth_c2s_ok read_auth_c2s write_auth_c2s"
    unfolding read_auth_c2s_def
  proof (rule wire_format_route)
    fix a assume a: "auth_c2s_ok a"
    show "\<exists>sub_ok rd. wire_format sub_ok rd write_auth_c2s \<and> sub_ok a \<and> write_auth_c2s a \<noteq> [] \<and>
      auth_routes (hd (write_auth_c2s a)) = Some rd"
    proof (cases a)
      case (AuthControl c)
      have "wire_format (\<lambda>x. \<exists>c. x = AuthControl c \<and> c2s_ok c) (rbind read_control_c2s (\<lambda>c. rpure (AuthControl c))) write_auth_c2s"
        by (rule wire_format_map [OF control_c2s_wire.wire_format_axioms]) simp
      then show ?thesis using AuthControl a control_opcode [of c] unfolding auth_routes_def by fastforce
    next
      case (AuthSpecific r)
      have "wire_format (\<lambda>x. \<exists>r. x = AuthSpecific r \<and> login_ok r) (rbind read_password_login (\<lambda>r. rpure (AuthSpecific r))) write_auth_c2s"
        by (rule wire_format_map [OF password_login_wire.wire_format_axioms]) simp
      then show ?thesis using AuthSpecific a unfolding auth_routes_def by (fastforce simp: write_password_login_def)
    qed
  qed
  show "packet_stream_axioms auth_c2s_ok write_auth_c2s"
  proof
    show "write_auth_c2s p \<noteq> []" for p by (cases p) (simp_all add: control_opcode write_password_login_def)
  qed
qed

interpretation handshake_auth_wire: packet_stream handshake_auth_ok read_handshake_auth_c2s write_handshake_auth_c2s
proof (rule packet_stream.intro)
  show "wire_format handshake_auth_ok read_handshake_auth_c2s write_handshake_auth_c2s"
    unfolding read_handshake_auth_c2s_def
  proof (rule wire_format_route)
    fix a assume a: "handshake_auth_ok a"
    obtain c where c: "a = HandshakeControl c" by (cases a)
    have "wire_format (\<lambda>x. \<exists>c. x = HandshakeControl c \<and> c2s_ok c)
        (rbind read_control_c2s (\<lambda>c. rpure (HandshakeControl c))) write_handshake_auth_c2s"
      by (rule wire_format_map [OF control_c2s_wire.wire_format_axioms]) simp
    then show "\<exists>sub_ok rd. wire_format sub_ok rd write_handshake_auth_c2s \<and> sub_ok a \<and> write_handshake_auth_c2s a \<noteq> [] \<and>
      handshake_auth_routes (hd (write_handshake_auth_c2s a)) = Some rd"
      using c a control_opcode [of c] unfolding handshake_auth_routes_def by fastforce
  qed
  show "packet_stream_axioms handshake_auth_ok write_handshake_auth_c2s"
  proof
    show "write_handshake_auth_c2s p \<noteq> []" for p by (cases p) (simp_all add: control_opcode)
  qed
qed

text \<open>
  The session with the authentication server: however the client's packets are split into chunks, and whenever
  the codec is asked in between, it delivers exactly the packets sent, in order, without an error and
  without a panic; when everything has arrived and the codec has nothing more to give, all packets
  have been delivered.
\<close>

theorem auth_session_delivers_all:
  assumes "recv_run is_eof read_auth_c2s (sequencer_default raw) arrived s buf out"
    and "\<forall>p\<in>set ps. auth_c2s_ok p" and "raw \<noteq> []" and "is_eof IoUnexpectedEof"
    and "arrived @ ys = stream (sequencer_default raw) (map write_auth_c2s ps)"
  shows "(\<exists>rest. ps = out @ rest) \<and>
    (\<exists>r s' buf'. decode_sequenced is_eof read_auth_c2s s buf = Some (Inr r, s', buf') \<and> (ys = [] \<and> r = None \<longrightarrow> out = ps))"
proof -
  have "seq_ok (sequencer_default raw)" using assms(3) by (simp add: seq_ok_def sequencer_default_def)
  from auth_wire.receive_stream [OF assms(1,2) this assms(4,5)] show ?thesis .
qed

section \<open>A session\<close>

definition example_raw :: "u8 list" where
  "example_raw = [0xAF, 0x1E, 0x55]"

definition eof_only :: "CustomErr BinError \<Rightarrow> bool" where
  "eof_only e = (case e of IoUnexpectedEof \<Rightarrow> True | _ \<Rightarrow> False)"

theorem auth_session_delivers_all_witness:
  "\<exists>s buf. recv_run eof_only read_auth_c2s (sequencer_default example_raw)
     (stream (sequencer_default example_raw) (map write_auth_c2s [AuthControl HeartbeatResponse])) s buf [AuthControl HeartbeatResponse]"
proof -
  let ?s = "sequencer_default example_raw" and ?p = "AuthControl HeartbeatResponse"
  let ?bs = "stream ?s (map write_auth_c2s [?p])"
  have run: "recv_run eof_only read_auth_c2s ?s ?bs ?s ?bs []"
    using recv_run.arrive [OF recv_run.start, of eof_only read_auth_c2s ?s ?bs] by simp
  have h: "\<forall>p\<in>set [?p]. auth_c2s_ok p" "example_raw \<noteq> []" "eof_only IoUnexpectedEof" "?bs @ [] = ?bs"
    by (simp_all add: example_raw_def eof_only_def)
  from auth_session_delivers_all [OF run h]
  obtain q s' buf' where d: "decode_sequenced eof_only read_auth_c2s ?s ?bs = Some (Inr (Some q), s', buf')"
    by (metis not_Cons_self2 option.exhaust)
  from recv_run.deliver [OF run d] have r2: "recv_run eof_only read_auth_c2s ?s ?bs s' buf' [q]" by simp
  from auth_session_delivers_all [OF r2 h] have "q = ?p" by auto
  with r2 show ?thesis by blast
qed

lemma example_frame:
  "decode_sequenced eof_only read_control_c2s (sequencer_default example_raw)
     (frame (sequencer_default example_raw) (write_control_c2s (RequestTimeSync \<lparr>hs_handshake = 7, hs_time = 9, hs_delta = 0\<rparr>))) =
   Some (Inr (Some (RequestTimeSync \<lparr>hs_handshake = 7, hs_time = 9, hs_delta = 0\<rparr>)),
     (sequencer_default example_raw)\<lparr>seq_pos := 1\<rparr>, [])"
  by code_simp

theorem delivered_packet_had_expected_sequence_byte_witness:
  "\<exists>n. seq_expected (sequencer_default example_raw) = Some (frame (sequencer_default example_raw)
     (write_control_c2s (RequestTimeSync \<lparr>hs_handshake = 7, hs_time = 9, hs_delta = 0\<rparr>)) ! n) \<and>
    drop (n + 1) (frame (sequencer_default example_raw) (write_control_c2s (RequestTimeSync \<lparr>hs_handshake = 7, hs_time = 9, hs_delta = 0\<rparr>))) = []"
proof -
  let ?src = "frame (sequencer_default example_raw) (write_control_c2s (RequestTimeSync \<lparr>hs_handshake = 7, hs_time = 9, hs_delta = 0\<rparr>))"
  have "\<not> is_unsequenced_c2s_opcode (hd ?src)"
    by (simp add: frame_def write_control_c2s_def is_unsequenced_c2s_opcode_def opcode_defs)
  then show ?thesis using delivered_packet_had_expected_sequence_byte [OF example_frame] by (auto split: if_splits)
qed

theorem mismatch_reports_following_byte_witness:
  "\<exists>m s'. decode_sequenced eof_only read_control_c2s (sequencer_default example_raw)
     (write_control_c2s (RequestTimeSync \<lparr>hs_handshake = 7, hs_time = 9, hs_delta = 0\<rparr>) @ [0x00]) =
     Some (Inl (SequenceMismatchIo m), s',
       write_control_c2s (RequestTimeSync \<lparr>hs_handshake = 7, hs_time = 9, hs_delta = 0\<rparr>) @ [0x00]) \<and>
     sm_expected m = 0x1E"
proof -
  let ?src = "write_control_c2s (RequestTimeSync \<lparr>hs_handshake = 7, hs_time = 9, hs_delta = 0\<rparr>) @ [0x00]"
  have d: "decode_sequenced eof_only read_control_c2s (sequencer_default example_raw) ?src =
     Some (Inl (SequenceMismatchIo \<lparr>sm_expected = 0x1E, sm_got = 0\<rparr>),
       (sequencer_default example_raw)\<lparr>seq_pos := 1, last_mismatch := Some \<lparr>sm_expected = 0xAF, sm_got = 0\<rparr>\<rparr>, ?src)"
    by code_simp
  with mismatch_reports_following_byte [OF d] show ?thesis
    by (auto simp: sequencer_default_def example_raw_def)
qed

theorem phase_transitions_keep_stream_witness:
  "\<exists>conn'. game_run example_raw (game_conn_new :: unit GameState Connection) conn' \<and> conn_state conn' = Login \<and>
     codec (framed conn') = Sequenced (sequencer_default example_raw)"
proof -
  let ?c = "game_conn_new :: unit GameState Connection"
  obtain c1 where t: "game_transition example_raw ?c ToLogin = Some c1" and l: "conn_state c1 = Login"
    by (simp add: game_conn_new_def transition_default_def transition_with_codec_def)
  from game_run.move [OF game_run.stay t] have run: "game_run example_raw ?c c1" .
  have "c1 \<noteq> ?c" using l by (auto simp: game_conn_new_def)
  with phase_transitions_keep_stream [OF run] run l show ?thesis by (auto simp: game_conn_new_def)
qed

end
