(* ===== verification/Nav_Grid.thy ===== *)
theory Nav_Grid
  imports Rust_Prelude "HOL-Library.Monad_Syntax"
begin

text \<open>
  The navigation grid (\<^verbatim>\<open>zohar-sim/src/navigation/grid.rs\<close>, \<^verbatim>\<open>zohar-domain/src/terrain.rs\<close>) and the
  reachability labelling (\<^verbatim>\<open>navigation/reachability.rs\<close>): every walkable cell gets the number of its
  4-connected component by a breadth-first flood fill.  Cell coordinates are \<open>usize\<close> values, natural
  numbers below \<open>2 ^ 64\<close>.  The floating-point part of the grid (cell size, conversion of positions to
  cells) is outside this model: its validity test is the argument \<open>cell_size_ok\<close> of the constructor.
\<close>

section \<open>The terrain grid\<close>

definition BLOCK :: u8 where "BLOCK = 1"
definition OBJECT :: u8 where "OBJECT = 128"

definition blocks_movement :: "u8 \<Rightarrow> bool" where
  "blocks_movement flags \<longleftrightarrow> and flags (or BLOCK OBJECT) \<noteq> 0"

definition is_walkable :: "u8 \<Rightarrow> bool" where
  "is_walkable flags \<longleftrightarrow> \<not> blocks_movement flags"

record GridCell =
  cx :: nat
  cy :: nat

record TerrainFlagsGrid =
  gwidth :: nat
  gheight :: nat
  gflags :: "u8 list"

abbreviation usize_MAX :: nat where "usize_MAX \<equiv> 18446744073709551615"

definition checked_mul :: "nat \<Rightarrow> nat \<Rightarrow> nat option" where
  "checked_mul a b = (if a * b \<le> usize_MAX then Some (a * b) else None)"

definition checked_sub :: "nat \<Rightarrow> nat \<Rightarrow> nat option" where
  "checked_sub a b = (if b \<le> a then Some (a - b) else None)"

definition checked_add :: "nat \<Rightarrow> nat \<Rightarrow> nat option" where
  "checked_add a b = (if a + b \<le> usize_MAX then Some (a + b) else None)"

definition grid_new :: "bool \<Rightarrow> nat \<Rightarrow> nat \<Rightarrow> u8 list \<Rightarrow> TerrainFlagsGrid option" where
  "grid_new cell_size_ok w h flags =
    (if \<not> cell_size_ok \<or> w = 0 \<or> h = 0 then None
     else do {
       n \<leftarrow> checked_mul w h;
       if length flags \<noteq> n then None else Some \<lparr>gwidth = w, gheight = h, gflags = flags\<rparr>
     })"

definition contains_cell :: "TerrainFlagsGrid \<Rightarrow> GridCell \<Rightarrow> bool" where
  "contains_cell g c \<longleftrightarrow> cx c < gwidth g \<and> cy c < gheight g"

definition index_of :: "TerrainFlagsGrid \<Rightarrow> GridCell \<Rightarrow> nat option" where
  "index_of g c = (if contains_cell g c then Some (cy c * gwidth g + cx c) else None)"

definition flags_at :: "TerrainFlagsGrid \<Rightarrow> GridCell \<Rightarrow> u8 option" where
  "flags_at g c = map_option (\<lambda>i. gflags g ! i) (index_of g c)"

definition all_cells :: "TerrainFlagsGrid \<Rightarrow> GridCell list" where
  "all_cells g = concat (map (\<lambda>y. map (\<lambda>x. \<lparr>cx = x, cy = y\<rparr>) [0..<gwidth g]) [0..<gheight g])"

definition neighbors4 :: "TerrainFlagsGrid \<Rightarrow> GridCell \<Rightarrow> GridCell list" where
  "neighbors4 g c =
    filter (contains_cell g)
      (List.map_filter id
        [map_option (\<lambda>x. \<lparr>cx = x, cy = cy c\<rparr>) (checked_sub (cx c) 1),
         map_option (\<lambda>x. \<lparr>cx = x, cy = cy c\<rparr>) (checked_add (cx c) 1),
         map_option (\<lambda>y. \<lparr>cx = cx c, cy = y\<rparr>) (checked_sub (cy c) 1),
         map_option (\<lambda>y. \<lparr>cx = cx c, cy = y\<rparr>) (checked_add (cy c) 1)])"

definition manhattan_distance :: "GridCell \<Rightarrow> GridCell \<Rightarrow> nat" where
  "manhattan_distance a b = nat \<bar>int (cx a) - int (cx b)\<bar> + nat \<bar>int (cy a) - int (cy b)\<bar>"

record GridBounds =
  min_x :: nat
  max_x :: nat
  min_y :: nat
  max_y :: nat

definition sat_add :: "nat \<Rightarrow> nat \<Rightarrow> nat" where
  "sat_add a b = min usize_MAX (a + b)"

definition search_bounds :: "TerrainFlagsGrid \<Rightarrow> GridCell \<Rightarrow> nat \<Rightarrow> GridBounds" where
  "search_bounds g center r =
    \<lparr>min_x = cx center - r, max_x = min (sat_add (cx center) r) (gwidth g - 1),
     min_y = cy center - r, max_y = min (sat_add (cy center) r) (gheight g - 1)\<rparr>"

definition bounds_contains :: "GridBounds \<Rightarrow> GridCell \<Rightarrow> bool" where
  "bounds_contains b c \<longleftrightarrow> min_x b \<le> cx c \<and> cx c \<le> max_x b \<and> min_y b \<le> cy c \<and> cy c \<le> max_y b"

section \<open>Reachability labels\<close>

definition UNASSIGNED_COMPONENT :: u8 where "UNASSIGNED_COMPONENT = 0"

definition is_walkable_cell :: "TerrainFlagsGrid \<Rightarrow> GridCell \<Rightarrow> bool" where
  "is_walkable_cell g c = (case flags_at g c of Some f \<Rightarrow> is_walkable f | None \<Rightarrow> False)"

fun visit_neighbors ::
  "TerrainFlagsGrid \<Rightarrow> u8 \<Rightarrow> GridCell list \<Rightarrow> u8 list \<Rightarrow> GridCell list \<Rightarrow> (u8 list \<times> GridCell list) exec" where
  "visit_neighbors g cid [] comps queue = Some (comps, queue)"
| "visit_neighbors g cid (n # ns) comps queue =
    (case index_of g n of
       None \<Rightarrow> None
     | Some i \<Rightarrow>
        if comps ! i \<noteq> UNASSIGNED_COMPONENT \<or> \<not> is_walkable_cell g n
        then visit_neighbors g cid ns comps queue
        else visit_neighbors g cid ns (comps[i := cid]) (queue @ [n]))"

text \<open>
  From the loop on, results are an \<open>exec\<close> in an \<open>option\<close>: \<open>None\<close> means that the code does not return,
  \<open>Some None\<close> that it panics.
\<close>

partial_function (option) flood_loop :: "TerrainFlagsGrid \<Rightarrow> u8 \<Rightarrow> u8 list \<Rightarrow> GridCell list \<Rightarrow> u8 list exec option" where
  "flood_loop g cid comps queue =
    (if queue = [] then Some (Some comps)
     else case visit_neighbors g cid (neighbors4 g (hd queue)) comps (tl queue) of
       None \<Rightarrow> Some None
     | Some (comps', queue') \<Rightarrow> flood_loop g cid comps' queue')"

declare flood_loop.simps [code]

definition flood_fill_component :: "TerrainFlagsGrid \<Rightarrow> u8 list \<Rightarrow> GridCell \<Rightarrow> u8 \<Rightarrow> u8 list exec option" where
  "flood_fill_component g comps seed cid =
    (case index_of g seed of None \<Rightarrow> Some None
     | Some i \<Rightarrow> flood_loop g cid (comps[i := cid]) [seed])"

text \<open>The scan over all cells; it panics when the component counter overflows its \<open>u8\<close>.\<close>

fun label_cells :: "TerrainFlagsGrid \<Rightarrow> GridCell list \<Rightarrow> u8 list \<Rightarrow> u8 \<Rightarrow> u8 list exec option" where
  "label_cells g [] comps next_id = Some (Some comps)"
| "label_cells g (c # cs) comps next_id =
    (case index_of g c of
       None \<Rightarrow> Some None
     | Some i \<Rightarrow>
        if comps ! i \<noteq> UNASSIGNED_COMPONENT \<or> \<not> is_walkable_cell g c
        then label_cells g cs comps next_id
        else (case flood_fill_component g comps c next_id of
                None \<Rightarrow> None
              | Some None \<Rightarrow> Some None
              | Some (Some comps') \<Rightarrow> if next_id + 1 \<le> 255 then label_cells g cs comps' (next_id + 1) else Some None))"

record ReachabilityGrid =
  rwidth :: nat
  rheight :: nat
  components :: "u8 list"

definition reachability_new :: "TerrainFlagsGrid \<Rightarrow> ReachabilityGrid exec option" where
  "reachability_new g = do {
     res \<leftarrow> label_cells g (all_cells g) (replicate (gwidth g * gheight g) UNASSIGNED_COMPONENT) 1;
     Some (map_option (\<lambda>comps. \<lparr>rwidth = gwidth g, rheight = gheight g, components = comps\<rparr>) res)
   }"

definition component_for_cell :: "ReachabilityGrid \<Rightarrow> GridCell \<Rightarrow> u8 option" where
  "component_for_cell r c =
    (if rwidth r \<le> cx c \<or> rheight r \<le> cy c then None
     else let component = components r ! (cy c * rwidth r + cx c) in
       if component \<noteq> UNASSIGNED_COMPONENT then Some component else None)"

definition same_component :: "ReachabilityGrid \<Rightarrow> GridCell \<Rightarrow> GridCell \<Rightarrow> bool" where
  "same_component r start goal =
    (case (component_for_cell r start, component_for_cell r goal) of
       (Some a, Some b) \<Rightarrow> a = b
     | _ \<Rightarrow> False)"

section \<open>Connectivity\<close>

text \<open>Cells joined by a path of open cells, each a neighbour of the one before.\<close>

inductive linked :: "('c \<Rightarrow> 'c list) \<Rightarrow> ('c \<Rightarrow> bool) \<Rightarrow> 'c \<Rightarrow> 'c \<Rightarrow> bool"
  for adj :: "'c \<Rightarrow> 'c list" and opn :: "'c \<Rightarrow> bool" where
  here: "opn a \<Longrightarrow> linked adj opn a a"
| step: "linked adj opn a b \<Longrightarrow> c \<in> set (adj b) \<Longrightarrow> opn c \<Longrightarrow> linked adj opn a c"

lemma linked_open: "linked adj opn a b \<Longrightarrow> opn a \<and> opn b"
  by (induction rule: linked.induct) auto

lemma linked_trans: "linked adj opn b c \<Longrightarrow> linked adj opn a b \<Longrightarrow> linked adj opn a c"
  by (induction rule: linked.induct) (auto intro: linked.intros)

text \<open>
  The law the flood fill relies on: adjacency of open cells is symmetric.  It makes connectivity an
  equivalence relation on the open cells.
\<close>

locale symmetric_cells =
  fixes inv :: "'g \<Rightarrow> bool" and adj :: "'g \<Rightarrow> 'c \<Rightarrow> 'c list" and opn :: "'g \<Rightarrow> 'c \<Rightarrow> bool"
  assumes adj_sym: "inv g \<Longrightarrow> opn g a \<Longrightarrow> opn g b \<Longrightarrow> b \<in> set (adj g a) \<Longrightarrow> a \<in> set (adj g b)"
begin

lemma linked_sym: "inv g \<Longrightarrow> linked (adj g) (opn g) a b \<Longrightarrow> linked (adj g) (opn g) b a"
proof (rotate_tac, induction rule: linked.induct)
  case (step a b c)
  then have "opn g b" using linked_open [of "adj g" "opn g" a b] by simp
  with step have "linked (adj g) (opn g) c b" by (blast intro: linked.intros adj_sym)
  with step show ?case by (blast intro: linked_trans)
qed (rule linked.here)

text \<open>A set closed under open neighbours contains everything linked to a member.\<close>

lemma linked_closed:
  assumes "linked (adj g) (opn g) a b" and "a \<in> D" and "\<And>c n. c \<in> D \<Longrightarrow> n \<in> set (adj g c) \<Longrightarrow> opn g n \<Longrightarrow> n \<in> D"
  shows "b \<in> D"
  using assms(1,2) by (induction rule: linked.induct) (auto intro: assms(3))

lemma class_eq:
  "inv g \<Longrightarrow> linked (adj g) (opn g) a b \<Longrightarrow> {c. linked (adj g) (opn g) a c} = {c. linked (adj g) (opn g) b c}"
  using linked_trans linked_sym by (metis (no_types))

end

lemma in_neighbors4:
  "n \<in> set (neighbors4 g c) \<longleftrightarrow> contains_cell g n \<and>
    ((cy n = cy c \<and> (cx c = cx n + 1 \<or> (cx n = cx c + 1 \<and> cx n \<le> usize_MAX))) \<or>
     (cx n = cx c \<and> (cy c = cy n + 1 \<or> (cy n = cy c + 1 \<and> cy n \<le> usize_MAX))))"
proof (cases n; cases c)
  fix nx ny x y
  assume n: "n = \<lparr>cx = nx, cy = ny\<rparr>" and c: "c = \<lparr>cx = x, cy = y\<rparr>"
  show ?thesis
    unfolding neighbors4_def checked_sub_def checked_add_def
    by (auto simp: n c List.map_filter_simps split: option.splits)
qed

definition grid_wf :: "TerrainFlagsGrid \<Rightarrow> bool" where
  "grid_wf g \<longleftrightarrow> 0 < gwidth g \<and> 0 < gheight g \<and> gwidth g * gheight g \<le> usize_MAX \<and>
    length (gflags g) = gwidth g * gheight g"

lemma grid_new_wf: "grid_new size_ok w h flags = Some g \<Longrightarrow> grid_wf g"
  by (auto simp: grid_new_def grid_wf_def checked_mul_def bind_eq_Some_conv split: if_splits)

lemma cell_in_usize:
  assumes "grid_wf g" and "contains_cell g c"
  shows "cx c \<le> usize_MAX" and "cy c \<le> usize_MAX"
proof -
  have "gwidth g * 1 \<le> gwidth g * gheight g" "1 * gheight g \<le> gwidth g * gheight g"
    using assms(1) unfolding grid_wf_def by (intro mult_le_mono; simp add: Suc_le_eq)+
  then have "gwidth g \<le> usize_MAX" "gheight g \<le> usize_MAX" using assms(1) unfolding grid_wf_def by linarith+
  with assms(2) show "cx c \<le> usize_MAX" "cy c \<le> usize_MAX" unfolding contains_cell_def by linarith+
qed

lemma walkable_contained: "is_walkable_cell g c \<Longrightarrow> contains_cell g c"
  by (auto simp: is_walkable_cell_def flags_at_def index_of_def split: if_splits)

interpretation walk: symmetric_cells grid_wf neighbors4 is_walkable_cell
proof
  fix g a b
  assume "grid_wf g" "is_walkable_cell g a" "is_walkable_cell g b" "b \<in> set (neighbors4 g a)"
  moreover from this have "contains_cell g a" by (simp add: walkable_contained)
  ultimately show "a \<in> set (neighbors4 g b)"
    unfolding in_neighbors4 using cell_in_usize [of g a] by auto
qed

abbreviation walk_linked :: "TerrainFlagsGrid \<Rightarrow> GridCell \<Rightarrow> GridCell \<Rightarrow> bool" where
  "walk_linked g \<equiv> linked (neighbors4 g) (is_walkable_cell g)"

section \<open>Indexing\<close>

lemma index_inj:
  assumes "contains_cell g a" and "contains_cell g b"
  shows "cy a * gwidth g + cx a = cy b * gwidth g + cx b \<longleftrightarrow> a = b"
proof
  assume eq: "cy a * gwidth g + cx a = cy b * gwidth g + cx b"
  have "cx a < gwidth g" "cx b < gwidth g" using assms by (simp_all add: contains_cell_def)
  then have "(cy a * gwidth g + cx a) mod gwidth g = cx a" "(cy b * gwidth g + cx b) mod gwidth g = cx b"
    "(cy a * gwidth g + cx a) div gwidth g = cy a" "(cy b * gwidth g + cx b) div gwidth g = cy b"
    by simp_all
  with eq show "a = b" by (metis GridCell.surjective old.unit.exhaust)
qed simp

lemma index_bound: "contains_cell g c \<Longrightarrow> cy c * gwidth g + cx c < gwidth g * gheight g"
proof -
  assume c: "contains_cell g c"
  then have "cy c * gwidth g + cx c < Suc (cy c) * gwidth g" by (simp add: contains_cell_def)
  also have "\<dots> \<le> gheight g * gwidth g" using c by (intro mult_le_mono1) (simp add: contains_cell_def)
  finally show ?thesis by (simp add: mult.commute)
qed

lemma all_cells_set: "set (all_cells g) = {c. contains_cell g c}"
proof -
  have "c \<in> set (all_cells g) \<longleftrightarrow> contains_cell g c" for c
    by (cases c) (auto simp: all_cells_def contains_cell_def image_iff intro: bexI)
  then show ?thesis by blast
qed

text \<open>The label of a cell in the component array.\<close>

definition label :: "TerrainFlagsGrid \<Rightarrow> u8 list \<Rightarrow> GridCell \<Rightarrow> u8" where
  "label g comps c = comps ! (cy c * gwidth g + cx c)"

lemma label_update:
  assumes "length comps = gwidth g * gheight g" and "contains_cell g a" and "contains_cell g b"
  shows "label g (comps[cy a * gwidth g + cx a := v]) b = (if b = a then v else label g comps b)"
proof -
  have "cy a * gwidth g + cx a < length comps" using assms index_bound by simp
  then show ?thesis
    using index_inj [OF assms(2,3)] by (auto simp: label_def nth_list_update)
qed

section \<open>The flood fill\<close>

text \<open>
  What holds throughout the flood fill of \<open>seed\<close> over the labels \<open>old\<close>: exactly the cells of \<open>D\<close> have been
  relabelled, and all of them are linked to the seed.
\<close>

definition marked ::
  "TerrainFlagsGrid \<Rightarrow> u8 \<Rightarrow> u8 list \<Rightarrow> GridCell \<Rightarrow> u8 list \<Rightarrow> GridCell set \<Rightarrow> bool" where
  "marked g cid old seed comps D \<longleftrightarrow>
    length comps = gwidth g * gheight g \<and>
    (\<forall>c. contains_cell g c \<longrightarrow> label g comps c = (if c \<in> D then cid else label g old c)) \<and>
    D \<subseteq> {c. walk_linked g seed c}"

lemma marked_label: "marked g cid old seed comps D \<Longrightarrow> contains_cell g c \<Longrightarrow>
    label g comps c = (if c \<in> D then cid else label g old c)"
  by (simp add: marked_def)

lemma marked_mono:
  "marked g cid old seed comps D \<Longrightarrow> marked g cid old seed comps' D' \<Longrightarrow> D \<subseteq> D' \<Longrightarrow> cid \<noteq> 0 \<Longrightarrow>
    contains_cell g n \<Longrightarrow> label g comps n \<noteq> 0 \<Longrightarrow> label g comps' n \<noteq> 0"
  by (auto simp: marked_label split: if_splits)

lemma marked_insert:
  assumes "marked g cid old seed comps D" and "walk_linked g seed n"
  shows "marked g cid old seed (comps[cy n * gwidth g + cx n := cid]) (insert n D)"
proof -
  have "contains_cell g n" using linked_open [OF assms(2)] by (simp add: walkable_contained)
  with assms show ?thesis by (auto simp: marked_def label_update)
qed

definition zeros :: "u8 list \<Rightarrow> nat" where
  "zeros comps = length (filter (\<lambda>v. v = 0) comps)"

lemma zeros_update:
  "i < length comps \<Longrightarrow> comps ! i = 0 \<Longrightarrow> v \<noteq> 0 \<Longrightarrow> Suc (zeros (comps[i := v])) = zeros comps"
proof (induction comps arbitrary: i)
  case (Cons a comps)
  then show ?case by (cases i) (auto simp: zeros_def)
qed simp

lemma visit_neighbors_marks:
  assumes "marked g cid old seed comps D" and "walk_linked g seed c" and "set ns \<subseteq> set (neighbors4 g c)" and "cid \<noteq> 0"
  shows "\<exists>comps' new. visit_neighbors g cid ns comps q = Some (comps', q @ new) \<and>
    marked g cid old seed comps' (D \<union> set new) \<and>
    (\<forall>n\<in>set ns. is_walkable_cell g n \<longrightarrow> label g comps' n \<noteq> 0) \<and> zeros comps' + length new = zeros comps"
  using assms(1,3)
proof (induction ns arbitrary: comps q D)
  case Nil
  then show ?case by (intro exI [of _ comps] exI [of _ "[]"]) simp
next
  case (Cons n ns)
  let ?i = "cy n * gwidth g + cx n"
  have n: "contains_cell g n" using Cons.prems(2) by (simp add: in_neighbors4)
  then have idx: "index_of g n = Some ?i" "?i < length comps"
    using index_bound [OF n] Cons.prems(1) by (simp_all add: index_of_def marked_def)
  show ?case
  proof (cases "label g comps n \<noteq> 0 \<or> \<not> is_walkable_cell g n")
    case True
    from Cons.prems(2) have sub: "set ns \<subseteq> set (neighbors4 g c)" by simp
    obtain comps' new where r: "visit_neighbors g cid ns comps q = Some (comps', q @ new)"
      "marked g cid old seed comps' (D \<union> set new)"
      "\<forall>n\<in>set ns. is_walkable_cell g n \<longrightarrow> label g comps' n \<noteq> 0" "zeros comps' + length new = zeros comps"
      using Cons.IH [OF Cons.prems(1) sub] by blast
    have "is_walkable_cell g n \<longrightarrow> label g comps' n \<noteq> 0"
      using True marked_mono [OF Cons.prems(1) r(2) _ assms(4) n] by blast
    with r True idx show ?thesis by (auto simp: label_def UNASSIGNED_COMPONENT_def)
  next
    case False
    let ?comps = "comps[?i := cid]"
    have "walk_linked g seed n" using assms(2) Cons.prems(2) False by (auto intro: linked.step)
    then have m: "marked g cid old seed ?comps (insert n D)" by (rule marked_insert [OF Cons.prems(1)])
    from Cons.prems(2) have sub: "set ns \<subseteq> set (neighbors4 g c)" by simp
    obtain comps' new where r: "visit_neighbors g cid ns ?comps (q @ [n]) = Some (comps', (q @ [n]) @ new)"
      "marked g cid old seed comps' (insert n D \<union> set new)"
      "\<forall>n\<in>set ns. is_walkable_cell g n \<longrightarrow> label g comps' n \<noteq> 0" "zeros comps' + length new = zeros ?comps"
      using Cons.IH [OF m sub, of "q @ [n]"] by blast
    have "label g comps' n \<noteq> 0" using marked_label [OF r(2) n] assms(4) by simp
    moreover have "Suc (zeros ?comps) = zeros comps"
      using zeros_update [OF idx(2)] False assms(4) by (simp add: label_def)
    ultimately show ?thesis using r idx False
      by (intro exI [of _ comps'] exI [of _ "n # new"]) (auto simp: label_def UNASSIGNED_COMPONENT_def)
  qed
qed

lemma flood_loop_Nil: "flood_loop g cid comps [] = Some (Some comps)"
  by (simp add: flood_loop.simps)

lemma flood_loop_Cons:
  "flood_loop g cid comps (c # q) =
    (case visit_neighbors g cid (neighbors4 g c) comps q of
       None \<Rightarrow> Some None
     | Some (comps', queue') \<Rightarrow> flood_loop g cid comps' queue')"
  by (subst flood_loop.simps) simp

text \<open>The flood fill ends, and labels a set that contains the seed and is closed under walkable
  neighbours that were not labelled before.\<close>

lemma flood_loop_fills:
  assumes "marked g cid old seed comps D" and "set q \<subseteq> D" and "cid \<noteq> 0"
    and "\<And>c n. c \<in> D - set q \<Longrightarrow> n \<in> set (neighbors4 g c) \<Longrightarrow> is_walkable_cell g n \<Longrightarrow> label g comps n \<noteq> 0"
  shows "\<exists>comps' D'. flood_loop g cid comps q = Some (Some comps') \<and> marked g cid old seed comps' D' \<and> D \<subseteq> D' \<and>
    (\<forall>c\<in>D'. \<forall>n\<in>set (neighbors4 g c). is_walkable_cell g n \<longrightarrow> label g comps' n \<noteq> 0)"
  using assms(1,2,4)
proof (induction "zeros comps + length q" arbitrary: comps q D rule: less_induct)
  case less
  show ?case
  proof (cases q)
    case Nil
    with less.prems show ?thesis
      by (intro exI [of _ comps] exI [of _ D]) (auto simp: flood_loop_Nil)
  next
    case (Cons c qs)
    have "c \<in> D" using less.prems(2) Cons by simp
    then have "walk_linked g seed c" using less.prems(1) by (auto simp: marked_def)
    then obtain comps1 new where v: "visit_neighbors g cid (neighbors4 g c) comps qs = Some (comps1, qs @ new)"
      "marked g cid old seed comps1 (D \<union> set new)"
      "\<forall>n\<in>set (neighbors4 g c). is_walkable_cell g n \<longrightarrow> label g comps1 n \<noteq> 0"
      "zeros comps1 + length new = zeros comps"
      using visit_neighbors_marks [OF less.prems(1) _ subset_refl assms(3)] by blast
    have closed: "label g comps1 n \<noteq> 0"
      if "e \<in> D \<union> set new - set (qs @ new)" "n \<in> set (neighbors4 g e)" "is_walkable_cell g n" for e n
    proof (cases "e = c")
      case False
      with that(1) Cons have "e \<in> D - set q" by auto
      then have "label g comps n \<noteq> 0" using less.prems(3) that(2,3) by blast
      then show ?thesis
        using marked_mono [OF less.prems(1) v(2) _ assms(3)] that(2) by (simp add: in_neighbors4)
    qed (use v(3) that(2,3) in blast)
    have smaller: "zeros comps1 + length (qs @ new) < zeros comps + length q" using v(4) Cons by simp
    have queued: "set (qs @ new) \<subseteq> D \<union> set new" using less.prems(2) Cons by auto
    have "\<exists>comps' D'. flood_loop g cid comps1 (qs @ new) = Some (Some comps') \<and> marked g cid old seed comps' D' \<and>
      D \<union> set new \<subseteq> D' \<and> (\<forall>c\<in>D'. \<forall>n\<in>set (neighbors4 g c). is_walkable_cell g n \<longrightarrow> label g comps' n \<noteq> 0)"
      by (rule less.hyps [OF smaller v(2) queued]) (rule closed)
    then obtain comps' D' where "flood_loop g cid comps1 (qs @ new) = Some (Some comps')"
      "marked g cid old seed comps' D'" "D \<union> set new \<subseteq> D'"
      "\<forall>c\<in>D'. \<forall>n\<in>set (neighbors4 g c). is_walkable_cell g n \<longrightarrow> label g comps' n \<noteq> 0" by blast
    with v(1) Cons show ?thesis
      by (intro exI [of _ comps'] exI [of _ D']) (auto simp: flood_loop_Cons)
  qed
qed

section \<open>The labelling\<close>

text \<open>
  The invariant of the scan: linked cells carry the same label, different components different ones, blocked
  cells none, and the identifiers used so far are counted by the labelled components.
\<close>

abbreviation component_of :: "TerrainFlagsGrid \<Rightarrow> GridCell \<Rightarrow> GridCell set" where
  "component_of g a \<equiv> {b. walk_linked g a b}"

definition walk_components :: "TerrainFlagsGrid \<Rightarrow> GridCell set set" where
  "walk_components g = component_of g ` {a. is_walkable_cell g a}"

definition labelled :: "TerrainFlagsGrid \<Rightarrow> u8 list \<Rightarrow> GridCell set" where
  "labelled g comps = {c. contains_cell g c \<and> label g comps c \<noteq> 0}"

definition label_inv :: "TerrainFlagsGrid \<Rightarrow> u8 list \<Rightarrow> u8 \<Rightarrow> bool" where
  "label_inv g comps next_id \<longleftrightarrow>
    length comps = gwidth g * gheight g \<and> 1 \<le> next_id \<and>
    (\<forall>c\<in>labelled g comps. is_walkable_cell g c \<and> label g comps c < next_id) \<and>
    (\<forall>a b. walk_linked g a b \<longrightarrow> label g comps a = label g comps b) \<and>
    (\<forall>a\<in>labelled g comps. \<forall>b\<in>labelled g comps. label g comps a = label g comps b \<longrightarrow> walk_linked g a b) \<and>
    int (card (component_of g ` labelled g comps)) = next_id - 1"

lemma finite_cells: "finite {c. contains_cell g c}"
  unfolding all_cells_set [symmetric] by simp

lemma finite_walkable: "finite {c. is_walkable_cell g c}"
  by (rule finite_subset [OF _ finite_cells [of g]]) (auto intro: walkable_contained)

lemma finite_labelled: "finite (labelled g comps)"
  by (rule finite_subset [OF _ finite_cells [of g]]) (auto simp: labelled_def)

lemma label_inv_start: "label_inv g (replicate (gwidth g * gheight g) UNASSIGNED_COMPONENT) 1"
proof -
  have zero: "label g (replicate (gwidth g * gheight g) UNASSIGNED_COMPONENT) c = 0" if "contains_cell g c" for c
    using index_bound [OF that] by (simp add: label_def UNASSIGNED_COMPONENT_def)
  then have none: "labelled g (replicate (gwidth g * gheight g) UNASSIGNED_COMPONENT) = {}"
    by (auto simp: labelled_def)
  have "label g (replicate (gwidth g * gheight g) UNASSIGNED_COMPONENT) a =
      label g (replicate (gwidth g * gheight g) UNASSIGNED_COMPONENT) b" if "walk_linked g a b" for a b
    using linked_open [OF that] zero by (simp add: walkable_contained)
  with none show ?thesis by (simp add: label_inv_def)
qed

text \<open>Filling from an unlabelled walkable cell labels exactly its component.\<close>

lemma flood_fill_labels:
  assumes "label_inv g comps nid" and "is_walkable_cell g seed" and "label g comps seed = 0"
    and "grid_wf g" and "nid \<noteq> 0"
  shows "\<exists>comps'. flood_fill_component g comps seed nid = Some (Some comps') \<and>
    marked g nid comps seed comps' (component_of g seed)"
proof -
  let ?i = "cy seed * gwidth g + cx seed"
  have s: "contains_cell g seed" "walk_linked g seed seed"
    using assms(2) by (auto intro: walkable_contained linked.here)
  have "marked g nid comps seed comps {}" using assms(1) by (simp add: marked_def label_inv_def)
  then have m: "marked g nid comps seed (comps[?i := nid]) {seed}" using marked_insert [OF _ s(2)] by blast
  have "\<exists>comps' D'. flood_loop g nid (comps[?i := nid]) [seed] = Some (Some comps') \<and>
    marked g nid comps seed comps' D' \<and> {seed} \<subseteq> D' \<and>
    (\<forall>c\<in>D'. \<forall>n\<in>set (neighbors4 g c). is_walkable_cell g n \<longrightarrow> label g comps' n \<noteq> 0)"
    by (rule flood_loop_fills [OF m _ assms(5)]) auto
  then obtain comps' D' where f: "flood_loop g nid (comps[?i := nid]) [seed] = Some (Some comps')"
    "marked g nid comps seed comps' D'" "seed \<in> D'"
    "\<forall>c\<in>D'. \<forall>n\<in>set (neighbors4 g c). is_walkable_cell g n \<longrightarrow> label g comps' n \<noteq> 0" by auto
  have closed: "n \<in> D'" if "c \<in> D'" "n \<in> set (neighbors4 g c)" "is_walkable_cell g n" for c n
  proof (rule ccontr)
    assume "n \<notin> D'"
    moreover have "walk_linked g seed n" using that f(2) by (auto simp: marked_def intro: linked.step)
    then have "label g comps n = 0" using assms(1,3) unfolding label_inv_def by metis
    ultimately have "label g comps' n = 0" using marked_label [OF f(2)] that(3) walkable_contained by simp
    with f(4) that show False by blast
  qed
  have "component_of g seed \<subseteq> D'"
    using walk.linked_closed [of g seed _ D'] f(3) closed by blast
  with f(2) have "D' = component_of g seed" by (auto simp: marked_def)
  with f(1,2) s(1) show ?thesis by (simp add: flood_fill_component_def index_of_def)
qed

lemma labelled_fill:
  assumes "marked g nid comps seed comps' (component_of g seed)" and "nid \<noteq> 0"
  shows "labelled g comps' = component_of g seed \<union> labelled g comps"
  using assms(2) linked_open [of "neighbors4 g" "is_walkable_cell g" seed]
  by (auto simp: labelled_def marked_label [OF assms(1)] walkable_contained split: if_splits)

lemma label_invD:
  assumes "label_inv g comps nid"
  shows "1 \<le> nid" and "c \<in> labelled g comps \<Longrightarrow> is_walkable_cell g c \<and> label g comps c < nid"
    and "walk_linked g a b \<Longrightarrow> label g comps a = label g comps b"
    and "a \<in> labelled g comps \<Longrightarrow> b \<in> labelled g comps \<Longrightarrow> label g comps a = label g comps b \<Longrightarrow> walk_linked g a b"
    and "int (card (component_of g ` labelled g comps)) = nid - 1"
  using assms unfolding label_inv_def by blast+

lemma label_inv_fill:
  assumes "label_inv g comps nid" and "is_walkable_cell g seed" and "label g comps seed = 0" and "grid_wf g"
    and m: "marked g nid comps seed comps' (component_of g seed)"
  shows "label_inv g comps' (nid + 1)"
proof -
  let ?S = "component_of g seed"
  note inv = label_invD [OF assms(1)]
  have lab: "labelled g comps' = ?S \<union> labelled g comps" using labelled_fill [OF m] inv(1) by simp
  have disj: "c \<notin> labelled g comps" if "c \<in> ?S" for c
    using inv(3) [of seed c] that assms(3) by (simp add: labelled_def)
  have new: "label g comps' c = (if c \<in> ?S then nid else label g comps c)" if "is_walkable_cell g c" for c
    using marked_label [OF m] that walkable_contained by simp
  have side: "a \<in> ?S \<longleftrightarrow> b \<in> ?S" if "walk_linked g a b" for a b
    using walk.linked_sym [OF assms(4) that] that by (auto intro: linked_trans)
  have walkable: "is_walkable_cell g c" if "c \<in> ?S \<union> labelled g comps" for c
    using that inv(2) [of c] linked_open [of "neighbors4 g" "is_walkable_cell g" seed c] by blast
  have same: "label g comps' a = label g comps' b" if "walk_linked g a b" for a b
    using new [of a] new [of b] side [OF that] inv(3) [OF that] linked_open [OF that] by presburger
  have apart: "walk_linked g a b"
    if "a \<in> labelled g comps'" "b \<in> labelled g comps'" "label g comps' a = label g comps' b" for a b
  proof (cases "a \<in> ?S")
    case True
    then have "label g comps' a = nid" using new [of a] walkable [of a] by simp
    have "b \<in> ?S"
    proof (rule ccontr)
      assume b: "b \<notin> ?S"
      then have "b \<in> labelled g comps" using that(2) lab by blast
      then have "label g comps' b < nid" using inv(2) [of b] new [of b] b by simp
      with \<open>label g comps' a = nid\<close> that(3) show False by simp
    qed
    moreover have "walk_linked g a seed" using True walk.linked_sym [OF assms(4)] by blast
    ultimately show ?thesis using linked_trans [of "neighbors4 g" "is_walkable_cell g" seed b a] by simp
  next
    case False
    then have a: "a \<in> labelled g comps" "label g comps' a = label g comps a"
      using that(1) lab new [of a] walkable [of a] by auto
    then have "label g comps' b \<noteq> nid" using that(3) inv(2) [of a] by simp
    then have "b \<notin> ?S" using new [of b] walkable [of b] by auto
    moreover from this have "b \<in> labelled g comps" using that(2) lab by blast
    ultimately have "label g comps' b = label g comps b" using new [of b] walkable [of b] by simp
    with \<open>b \<in> labelled g comps\<close> a that(3) show ?thesis by (intro inv(4)) simp_all
  qed
  have cls: "component_of g c = ?S" if "c \<in> ?S" for c
    using walk.class_eq [OF assms(4), of seed c] that by simp
  have seed: "seed \<in> ?S" using assms(2) by (auto intro: linked.here)
  have "component_of g ` ?S = {?S}"
  proof (rule set_eqI, rule iffI)
    show "X \<in> {?S}" if "X \<in> component_of g ` ?S" for X using that cls by blast
    show "X \<in> component_of g ` ?S" if "X \<in> {?S}" for X using that cls [OF seed] seed by blast
  qed
  then have img: "component_of g ` labelled g comps' = insert ?S (component_of g ` labelled g comps)"
    by (simp add: lab image_Un)
  have "?S \<notin> component_of g ` labelled g comps"
  proof
    assume "?S \<in> component_of g ` labelled g comps"
    then obtain c where c: "c \<in> labelled g comps" "component_of g c = ?S" by blast
    then have "c \<in> ?S" using inv(2) [OF c(1)] linked.here [of "is_walkable_cell g" c] by blast
    with disj c(1) show False by blast
  qed
  then have count: "int (card (component_of g ` labelled g comps')) = nid"
    using inv(1,5) finite_labelled by (simp add: img)
  have low: "is_walkable_cell g c \<and> label g comps' c < nid + 1" if "c \<in> labelled g comps'" for c
    using that lab walkable [of c] new [of c] inv(2) [of c] by (cases "c \<in> ?S") auto
  have "length comps' = gwidth g * gheight g" "1 \<le> nid + 1" "int (card (component_of g ` labelled g comps')) = nid + 1 - 1"
    using m inv(1) count by (simp_all add: marked_def)
  with low same apart show ?thesis unfolding label_inv_def by blast
qed

lemma label_cells_total:
  assumes "grid_wf g" and "label_inv g comps nid" and "nid \<le> 255" and "\<forall>c\<in>set cs. contains_cell g c"
  shows "case label_cells g cs comps nid of
      None \<Rightarrow> False
    | Some None \<Rightarrow> 255 \<le> card (walk_components g)
    | Some (Some comps') \<Rightarrow> (\<exists>nid'\<le>255. label_inv g comps' nid' \<and>
        {c. is_walkable_cell g c \<and> (c \<in> set cs \<or> label g comps c \<noteq> 0)} \<subseteq> labelled g comps')"
  using assms(2-)
proof (induction cs arbitrary: comps nid)
  case Nil
  then show ?case by (auto simp: labelled_def walkable_contained)
next
  case (Cons c cs)
  let ?i = "cy c * gwidth g + cx c"
  have idx: "index_of g c = Some ?i" using Cons.prems by (simp add: index_of_def)
  have rest: "\<forall>c\<in>set cs. contains_cell g c" using Cons.prems by simp
  show ?case
  proof (cases "label g comps c \<noteq> 0 \<or> \<not> is_walkable_cell g c")
    case True
    then have "label_cells g (c # cs) comps nid = label_cells g cs comps nid"
      by (auto simp: idx label_def UNASSIGNED_COMPONENT_def)
    moreover have "{e. is_walkable_cell g e \<and> (e \<in> set (c # cs) \<or> label g comps e \<noteq> 0)} =
        {e. is_walkable_cell g e \<and> (e \<in> set cs \<or> label g comps e \<noteq> 0)}" using True by auto
    ultimately show ?thesis using Cons.IH [OF Cons.prems(1,2) rest] by (simp only:)
  next
    case False
    have pos: "nid \<noteq> 0" using label_invD(1) [OF Cons.prems(1)] by simp
    obtain comps1 where f: "flood_fill_component g comps c nid = Some (Some comps1)"
      "marked g nid comps c comps1 (component_of g c)"
      using flood_fill_labels [OF Cons.prems(1) _ _ assms(1) pos] False by blast
    have inv1: "label_inv g comps1 (nid + 1)"
      using label_inv_fill [OF Cons.prems(1) _ _ assms(1) f(2)] False by blast
    have step: "label_cells g (c # cs) comps nid =
        (if nid + 1 \<le> 255 then label_cells g cs comps1 (nid + 1) else Some None)"
      using False f(1) idx by (simp add: label_def UNASSIGNED_COMPONENT_def)
    show ?thesis
    proof (cases "nid + 1 \<le> 255")
      case True
      have lab: "labelled g comps1 = component_of g c \<union> labelled g comps" by (rule labelled_fill [OF f(2) pos])
      have "label g comps1 e \<noteq> 0" if "is_walkable_cell g e" "e = c \<or> label g comps e \<noteq> 0" for e
      proof -
        have "e \<in> labelled g comps1"
          unfolding lab using that walkable_contained [OF that(1)] linked.here [of "is_walkable_cell g" e]
          by (auto simp: labelled_def)
        then show ?thesis by (simp add: labelled_def)
      qed
      then have "{e. is_walkable_cell g e \<and> (e \<in> set (c # cs) \<or> label g comps e \<noteq> 0)} \<subseteq>
          {e. is_walkable_cell g e \<and> (e \<in> set cs \<or> label g comps1 e \<noteq> 0)}" by auto
      then show ?thesis using Cons.IH [OF inv1 True rest] step True
        by (auto split: option.splits)
    next
      case over: False
      have "component_of g ` labelled g comps1 \<subseteq> walk_components g"
        unfolding walk_components_def using label_invD(2) [OF inv1] by blast
      then have "card (component_of g ` labelled g comps1) \<le> card (walk_components g)"
        by (rule card_mono [rotated]) (simp add: walk_components_def finite_walkable)
      moreover have "255 \<le> card (component_of g ` labelled g comps1)"
        using label_invD(5) [OF inv1] over by simp
      ultimately show ?thesis using step over by simp
    qed
  qed
qed

lemma reachability_new_cases:
  assumes "grid_wf g"
  shows "case reachability_new g of
      None \<Rightarrow> False
    | Some None \<Rightarrow> 255 \<le> card (walk_components g)
    | Some (Some r) \<Rightarrow> card (walk_components g) < 255 \<and> rwidth r = gwidth g \<and> rheight r = gheight g \<and>
        labelled g (components r) = {c. is_walkable_cell g c} \<and> (\<exists>nid. label_inv g (components r) nid)"
proof -
  note total = label_cells_total [OF assms label_inv_start, of "all_cells g"]
  obtain res where res: "label_cells g (all_cells g) (replicate (gwidth g * gheight g) UNASSIGNED_COMPONENT) 1 = Some res"
    using total by (auto simp: all_cells_set split: option.splits)
  show ?thesis
  proof (cases res)
    case None
    then show ?thesis using total res by (simp add: reachability_new_def all_cells_set)
  next
    case (Some comps)
    then obtain nid where n: "nid \<le> 255" "label_inv g comps nid"
      "{c. is_walkable_cell g c \<and> c \<in> set (all_cells g)} \<subseteq> labelled g comps"
      using total res by (auto simp: all_cells_set)
    have "labelled g comps = {c. is_walkable_cell g c}"
      using n(3) label_invD(2) [OF n(2)] walkable_contained by (auto simp: all_cells_set)
    moreover from this have "int (card (walk_components g)) = nid - 1"
      using label_invD(5) [OF n(2)] by (simp add: walk_components_def)
    ultimately show ?thesis using Some res n(1,2) by (auto simp: reachability_new_def)
  qed
qed

lemma component_for_cell_label:
  "rwidth r = gwidth g \<Longrightarrow> rheight r = gheight g \<Longrightarrow> component_for_cell r c =
    (if c \<in> labelled g (components r) then Some (label g (components r) c) else None)"
  by (auto simp: component_for_cell_def labelled_def contains_cell_def label_def UNASSIGNED_COMPONENT_def Let_def)

text \<open>
  C32. The labelling is exact: the reachability grid built for a terrain grid reports two cells as
  being in the same component exactly when a path of walkable cells, each one of the four neighbours of
  the one before, leads from the first to the second.
\<close>

theorem same_component_iff_path:
  assumes "grid_new size_ok w h flags = Some g" and "reachability_new g = Some (Some r)"
  shows "same_component r a b \<longleftrightarrow> walk_linked g a b"
proof -
  have r: "rwidth r = gwidth g" "rheight r = gheight g" "labelled g (components r) = {c. is_walkable_cell g c}"
    and inv: "\<exists>nid. label_inv g (components r) nid"
    using reachability_new_cases [OF grid_new_wf [OF assms(1)]] assms(2) by simp_all
  obtain nid where nid: "label_inv g (components r) nid" using inv by blast
  have "same_component r a b \<longleftrightarrow>
      is_walkable_cell g a \<and> is_walkable_cell g b \<and> label g (components r) a = label g (components r) b"
    by (simp add: same_component_def component_for_cell_label [OF r(1,2)] r(3))
  also have "\<dots> \<longleftrightarrow> walk_linked g a b"
    using label_invD(3,4) [OF nid] r(3) linked_open [of "neighbors4 g" "is_walkable_cell g" a b] by blast
  finally show ?thesis .
qed

text \<open>
  C33. Building the reachability grid always ends, with a grid or a panic, and it panics exactly when the terrain
  has 255 or more connected components: the identifier counter is incremented once more after the last
  component, so 255 components already overflow it although all of them could be labelled.
\<close>

theorem reachability_panics_iff:
  assumes "grid_new size_ok w h flags = Some g"
  shows "\<exists>res. reachability_new g = Some res \<and> (res = None \<longleftrightarrow> 255 \<le> card (walk_components g))"
  using reachability_new_cases [OF grid_new_wf [OF assms]] by (auto split: option.splits)

section \<open>An example\<close>

text \<open>A three by two grid whose middle column is blocked, by terrain in one row and an object in the other.\<close>

definition example_flags :: "u8 list" where "example_flags = [0, 1, 0, 4, 128, 2]"

definition example_grid :: TerrainFlagsGrid where
  "example_grid = \<lparr>gwidth = 3, gheight = 2, gflags = example_flags\<rparr>"

lemma example_grid_new: "grid_new True 3 2 example_flags = Some example_grid"
  by (simp add: grid_new_def example_grid_def example_flags_def checked_mul_def)

lemma example_reachability:
  "reachability_new example_grid = Some (Some \<lparr>rwidth = 3, rheight = 2, components = [1, 0, 2, 1, 0, 2]\<rparr>)"
  by (simp add: reachability_new_def example_grid_def example_flags_def all_cells_def upt_rec index_of_def
      contains_cell_def is_walkable_cell_def flags_at_def is_walkable_def blocks_movement_def BLOCK_def OBJECT_def
      UNASSIGNED_COMPONENT_def flood_fill_component_def flood_loop_Nil flood_loop_Cons neighbors4_def
      checked_sub_def checked_add_def List.map_filter_simps numeral_2_eq_2) (simp add: numeral_eq_Suc)

theorem same_component_iff_path_witness:
  "walk_linked example_grid \<lparr>cx = 2, cy = 0\<rparr> \<lparr>cx = 2, cy = 1\<rparr> \<and>
   \<not> walk_linked example_grid \<lparr>cx = 0, cy = 0\<rparr> \<lparr>cx = 2, cy = 0\<rparr>"
  using same_component_iff_path [OF example_grid_new example_reachability, of "\<lparr>cx = 2, cy = 0\<rparr>" "\<lparr>cx = 2, cy = 1\<rparr>"]
    same_component_iff_path [OF example_grid_new example_reachability, of "\<lparr>cx = 0, cy = 0\<rparr>" "\<lparr>cx = 2, cy = 0\<rparr>"]
  by (simp add: same_component_def component_for_cell_def UNASSIGNED_COMPONENT_def)

theorem reachability_panics_iff_witness:
  "(\<exists>r. reachability_new example_grid = Some (Some r)) \<and> \<not> 255 \<le> card (walk_components example_grid)"
  using reachability_panics_iff [OF example_grid_new] by (simp add: example_reachability)

end
