(* ===== verification/Recovery.thy ===== *)
theory Recovery
  imports Stat_Core
begin

text \<open>
  Passive recovery and stamina (\<^verbatim>\<open>zohar-gameplay/src/stats/game/recovery.rs\<close>): per-second rates accrued
  over ticks of arbitrary length with an integer remainder, and the stamina state machine that drives
  the client's stamina timer and the forced walk of an exhausted player.
\<close>

section \<open>Accrual\<close>

record DurationRate =
  dr_amount :: i64
  dr_per :: duration

record RateAccumulator =
  remainder :: i128

abbreviation i128_MAX :: int where "i128_MAX \<equiv> 170141183460469231731687303715884105727"

definition accumulator_default :: RateAccumulator where
  "accumulator_default = \<lparr>remainder = 0\<rparr>"

definition duration_nanos :: "duration \<Rightarrow> i128" where
  "duration_nanos d = min d i128_MAX"

definition accrue :: "RateAccumulator \<Rightarrow> DurationRate \<Rightarrow> duration \<Rightarrow> i64 \<times> RateAccumulator" where
  "accrue acc rate elapsed =
    (let period_nanos = duration_nanos (dr_per rate) in
     if dr_amount rate \<le> 0 \<or> period_nanos \<le> 0 then (0, acc\<lparr>remainder := 0\<rparr>)
     else let elapsed_nanos = duration_nanos elapsed in
       if elapsed_nanos \<le> 0 then (0, acc)
       else let accrued = sat_s 128 (dr_amount rate * elapsed_nanos);
                total = sat_s 128 (remainder acc + accrued);
                whole = total sdiv period_nanos
            in (wrap_s 64 (min whole i64_MAX), acc\<lparr>remainder := total smod period_nanos\<rparr>))"

definition acc_reset :: "RateAccumulator \<Rightarrow> RateAccumulator" where
  "acc_reset acc = acc\<lparr>remainder := 0\<rparr>"

record PlayerPassiveHpRecoveryState =
  hp_accumulator :: RateAccumulator

record PlayerPassiveSpRecoveryState =
  sp_accumulator :: RateAccumulator

record PlayerStaminaState =
  st_accumulator :: RateAccumulator
  consuming :: bool

section \<open>What the player has been doing\<close>

datatype PlayerMovementActivity = Moving | Stopped duration | Idle

record PlayerStatActivity =
  movement :: PlayerMovementActivity
  since_walk_started :: "duration option"
  since_attack :: "duration option"

datatype MovementAnimation = Run | Walk

fun movement_recent :: "PlayerMovementActivity \<Rightarrow> duration \<Rightarrow> bool" where
  "movement_recent Moving threshold = True"
| "movement_recent (Stopped since_finished) threshold = (since_finished < threshold)"
| "movement_recent Idle threshold = False"

fun stopped_for_at_least :: "PlayerMovementActivity \<Rightarrow> duration \<Rightarrow> bool" where
  "stopped_for_at_least Moving threshold = False"
| "stopped_for_at_least (Stopped since_finished) threshold = (threshold \<le> since_finished)"
| "stopped_for_at_least Idle threshold = True"

datatype PlayerSpRecoveryProfile = Standard | Caster

definition happened_recently :: "duration option \<Rightarrow> duration \<Rightarrow> bool" where
  "happened_recently since threshold = (case since of Some d \<Rightarrow> d < threshold | None \<Rightarrow> False)"

definition moved_recently :: "PlayerStatActivity \<Rightarrow> duration \<Rightarrow> bool" where
  "moved_recently activity threshold = movement_recent (movement activity) threshold"

section \<open>Rates\<close>

type_synonym FractionalShare = i64

definition BASIS_POINTS_DENOMINATOR :: i64 where "BASIS_POINTS_DENOMINATOR = 10000"

definition from_basis_points :: "i64 \<Rightarrow> FractionalShare" where
  "from_basis_points v = v"

definition from_percent :: "i64 \<Rightarrow> FractionalShare" where
  "from_percent pct = from_basis_points (pct * 100)"

definition of_resource :: "FractionalShare \<Rightarrow> i32 \<Rightarrow> i64" where
  "of_resource share max_resource = sat_s 64 (max_resource * share) sdiv BASIS_POINTS_DENOMINATOR"

definition passive_hp_rate :: "i32 \<Rightarrow> PlayerStatActivity \<Rightarrow> DurationRate" where
  "passive_hp_rate max_hp activity =
    (let (hp_base, hp_max_share) =
       (if moved_recently activity (from_secs 3) then (15, from_percent 1) else (15, from_percent 5))
     in \<lparr>dr_amount = sat_s 64 (hp_base + of_resource hp_max_share max_hp), dr_per = from_secs 3\<rparr>)"

definition passive_sp_rate ::
  "i32 \<Rightarrow> i32 \<Rightarrow> i32 \<Rightarrow> PlayerStatActivity \<Rightarrow> PlayerSpRecoveryProfile \<Rightarrow> DurationRate" where
  "passive_sp_rate hp max_hp max_sp activity profile =
    (let moved = moved_recently activity (from_secs 3);
         attacked = happened_recently (since_attack activity) (from_secs 3);
         is_full_hp = max_hp \<le> hp;
         (sp_base, sp_max_share) =
           (case profile of
              Caster \<Rightarrow>
                (if attacked then (2, from_basis_points 50)
                 else if moved then (3, from_percent 2)
                 else (10, from_percent 3))
            | Standard \<Rightarrow>
                (if attacked then (2, from_basis_points 50)
                 else if moved \<or> \<not> is_full_hp then (2, from_percent 1)
                 else (9, from_percent 1)))
     in \<lparr>dr_amount = sat_s 64 (sp_base + of_resource sp_max_share max_sp), dr_per = from_secs 3\<rparr>)"

section \<open>Passive recovery\<close>

definition accrue_passive_hp ::
  "PlayerPassiveHpRecoveryState \<Rightarrow> i32 \<Rightarrow> i32 \<Rightarrow> PlayerStatActivity \<Rightarrow> duration \<Rightarrow> i32 option \<times> PlayerPassiveHpRecoveryState" where
  "accrue_passive_hp st hp max_hp activity elapsed =
    (let missing = sat_s 32 (max_hp - hp) in
     if missing \<le> 0 then (None, st\<lparr>hp_accumulator := acc_reset (hp_accumulator st)\<rparr>)
     else let (accrued, acc) = accrue (hp_accumulator st) (passive_hp_rate max_hp activity) elapsed;
              st1 = st\<lparr>hp_accumulator := acc\<rparr>
          in if accrued \<le> 0 then (None, st1)
             else let amount = wrap_s 32 (min (min accrued missing) i32_MAX);
                      st2 = (if missing \<le> amount then st1\<lparr>hp_accumulator := acc_reset (hp_accumulator st1)\<rparr> else st1)
                  in (if 0 < amount then Some amount else None, st2))"

definition accrue_passive_sp ::
  "PlayerPassiveSpRecoveryState \<Rightarrow> i32 \<Rightarrow> i32 \<Rightarrow> i32 \<Rightarrow> i32 \<Rightarrow> PlayerStatActivity \<Rightarrow> PlayerSpRecoveryProfile \<Rightarrow> duration
   \<Rightarrow> i32 option \<times> PlayerPassiveSpRecoveryState" where
  "accrue_passive_sp st hp max_hp sp max_sp activity profile elapsed =
    (let missing = sat_s 32 (max_sp - sp) in
     if missing \<le> 0 then (None, st\<lparr>sp_accumulator := acc_reset (sp_accumulator st)\<rparr>)
     else let (accrued, acc) = accrue (sp_accumulator st) (passive_sp_rate hp max_hp max_sp activity profile) elapsed;
              st1 = st\<lparr>sp_accumulator := acc\<rparr>
          in if accrued \<le> 0 then (None, st1)
             else let amount = wrap_s 32 (min (min accrued missing) i32_MAX);
                      st2 = (if missing \<le> amount then st1\<lparr>sp_accumulator := acc_reset (sp_accumulator st1)\<rparr> else st1)
                  in (if 0 < amount then Some amount else None, st2))"

definition tick_player_passive_hp_recovery ::
  "PlayerPassiveHpRecoveryState \<Rightarrow> i32 \<Rightarrow> i32 \<Rightarrow> PlayerStatActivity \<Rightarrow> duration
   \<Rightarrow> ResourceApplication option \<times> PlayerPassiveHpRecoveryState" where
  "tick_player_passive_hp_recovery st hp max_hp activity elapsed =
    (let (amount, st') = accrue_passive_hp st hp max_hp activity elapsed
     in (map_option (ra_restore Hp) amount, st'))"

definition tick_player_passive_sp_recovery ::
  "PlayerPassiveSpRecoveryState \<Rightarrow> i32 \<Rightarrow> i32 \<Rightarrow> i32 \<Rightarrow> i32 \<Rightarrow> PlayerStatActivity \<Rightarrow> PlayerSpRecoveryProfile \<Rightarrow> duration
   \<Rightarrow> ResourceApplication option \<times> PlayerPassiveSpRecoveryState" where
  "tick_player_passive_sp_recovery st hp max_hp sp max_sp activity profile elapsed =
    (let (amount, st') = accrue_passive_sp st hp max_hp sp max_sp activity profile elapsed
     in (map_option (ra_restore Sp) amount, st'))"

section \<open>Stamina\<close>

datatype PlayerStaminaTimerCommand = Start i32 | Stop

datatype PlayerStaminaMovementOverride = ForceWalk | RevertToPreferred

record PlayerStaminaOutput =
  so_application :: "ResourceApplication option"
  so_timer :: "PlayerStaminaTimerCommand option"
  so_movement_override :: "PlayerStaminaMovementOverride option"

datatype LegacyStaminaRestore = RestoreWalking i32 bool | RestoreStopped i32 bool

fun restore_amount :: "LegacyStaminaRestore \<Rightarrow> i32" where
  "restore_amount (RestoreWalking amount depleted) = amount"
| "restore_amount (RestoreStopped amount depleted) = amount"

fun depleted_before_restore :: "LegacyStaminaRestore \<Rightarrow> bool" where
  "depleted_before_restore (RestoreWalking amount depleted) = depleted"
| "depleted_before_restore (RestoreStopped amount depleted) = depleted"

definition restore_application :: "LegacyStaminaRestore \<Rightarrow> ResourceApplication" where
  "restore_application r = ra_restore Stamina (restore_amount r)"

definition restore_movement_override :: "LegacyStaminaRestore \<Rightarrow> PlayerStaminaMovementOverride option" where
  "restore_movement_override r = (if depleted_before_restore r then Some RevertToPreferred else None)"

datatype LegacyStaminaMoveMode = ModeRun | ModeWalk "duration option"

definition move_mode_new :: "PlayerStatActivity \<Rightarrow> MovementAnimation \<Rightarrow> i32 \<Rightarrow> LegacyStaminaMoveMode" where
  "move_mode_new activity movement_mode current_stamina =
    (if movement_mode = Walk \<or> current_stamina \<le> 0 then ModeWalk (since_walk_started activity) else ModeRun)"

definition move_mode_restore :: "LegacyStaminaMoveMode \<Rightarrow> i32 \<Rightarrow> bool \<Rightarrow> LegacyStaminaRestore option" where
  "move_mode_restore mode amount depleted =
    (case mode of
       ModeRun \<Rightarrow> None
     | ModeWalk since_started \<Rightarrow>
         (if (case since_started of None \<Rightarrow> True | Some since \<Rightarrow> from_secs 5 < since)
          then Some (RestoreWalking amount depleted) else None))"

datatype LegacyStaminaMovement = LsMoving LegacyStaminaMoveMode | LsStopped PlayerMovementActivity

definition stamina_movement_new :: "PlayerStatActivity \<Rightarrow> MovementAnimation \<Rightarrow> i32 \<Rightarrow> LegacyStaminaMovement" where
  "stamina_movement_new activity movement_mode current_stamina =
    (case movement activity of
       Moving \<Rightarrow> LsMoving (move_mode_new activity movement_mode current_stamina)
     | m \<Rightarrow> LsStopped m)"

definition is_combat_run :: "LegacyStaminaMovement \<Rightarrow> bool" where
  "is_combat_run m \<longleftrightarrow> m = LsMoving ModeRun"

fun stamina_movement_restore :: "LegacyStaminaMovement \<Rightarrow> i32 \<Rightarrow> bool \<Rightarrow> LegacyStaminaRestore option" where
  "stamina_movement_restore (LsMoving mode) amount depleted = move_mode_restore mode amount depleted"
| "stamina_movement_restore (LsStopped m) amount depleted =
    (if stopped_for_at_least m (from_secs 3) then Some (RestoreStopped amount depleted) else None)"

record LegacyStaminaSnapshot =
  ls_current :: i32
  ls_max :: i32
  ls_movement :: LegacyStaminaMovement
  inside_combat_window :: bool

definition stamina_snapshot_new ::
  "i32 \<Rightarrow> i32 \<Rightarrow> PlayerStatActivity \<Rightarrow> MovementAnimation \<Rightarrow> LegacyStaminaSnapshot" where
  "stamina_snapshot_new current max_st activity movement_mode =
    \<lparr>ls_current = current, ls_max = max_st,
     ls_movement = stamina_movement_new activity movement_mode current,
     inside_combat_window = happened_recently (since_attack activity) (from_secs 20)\<rparr>"

definition should_consume :: "LegacyStaminaSnapshot \<Rightarrow> bool" where
  "should_consume s \<longleftrightarrow> inside_combat_window s \<and> is_combat_run (ls_movement s)"

definition is_depleted :: "LegacyStaminaSnapshot \<Rightarrow> bool" where
  "is_depleted s \<longleftrightarrow> ls_current s \<le> 0"

definition stamina_restore :: "LegacyStaminaSnapshot \<Rightarrow> LegacyStaminaRestore option" where
  "stamina_restore s =
    (if ls_max s \<le> ls_current s then None
     else stamina_movement_restore (ls_movement s) (ls_max s) (is_depleted s))"

definition STAMINA_CONSUME_PER_SECOND :: i32 where "STAMINA_CONSUME_PER_SECOND = 25"

definition start_stamina_consumption ::
  "PlayerStaminaState \<Rightarrow> i32 \<Rightarrow> PlayerStaminaTimerCommand option \<times> PlayerStaminaState" where
  "start_stamina_consumption st consume_per_second =
    (if consuming st then (None, st) else (Some (Start consume_per_second), st\<lparr>consuming := True\<rparr>))"

definition stop_stamina_consumption ::
  "PlayerStaminaState \<Rightarrow> PlayerStaminaTimerCommand option \<times> PlayerStaminaState" where
  "stop_stamina_consumption st =
    (let st1 = st\<lparr>st_accumulator := acc_reset (st_accumulator st)\<rparr> in
     if \<not> consuming st1 then (None, st1) else (Some Stop, st1\<lparr>consuming := False\<rparr>))"

definition consume_running_stamina ::
  "PlayerStaminaState \<Rightarrow> i32 \<Rightarrow> duration \<Rightarrow> PlayerStaminaOutput \<times> PlayerStaminaState" where
  "consume_running_stamina st current_stamina elapsed =
    (let (raw, acc) = accrue (st_accumulator st)
           \<lparr>dr_amount = STAMINA_CONSUME_PER_SECOND, dr_per = from_secs 1\<rparr> elapsed;
         st1 = st\<lparr>st_accumulator := acc\<rparr>;
         spend = wrap_s 32 (min (min (max raw 0) current_stamina) i32_MAX);
         will_deplete = sat_s 32 (current_stamina - spend) \<le> 0;
         (timer, st2) =
           (if will_deplete
            then (if consuming st1 then Some Stop else None,
                  st1\<lparr>consuming := False, st_accumulator := acc_reset (st_accumulator st1)\<rparr>)
            else start_stamina_consumption st1 STAMINA_CONSUME_PER_SECOND)
     in (\<lparr>so_application = (if 0 < spend then Some (ra_spend Stamina spend) else None), so_timer = timer,
          so_movement_override = (if will_deplete then Some ForceWalk else None)\<rparr>, st2))"

definition tick_stamina ::
  "PlayerStaminaState \<Rightarrow> i32 \<Rightarrow> i32 \<Rightarrow> PlayerStatActivity \<Rightarrow> MovementAnimation \<Rightarrow> duration
   \<Rightarrow> PlayerStaminaOutput \<times> PlayerStaminaState" where
  "tick_stamina st current max_st activity movement_mode elapsed =
    (let stamina = stamina_snapshot_new current max_st activity movement_mode in
     if should_consume stamina then consume_running_stamina st (ls_current stamina) elapsed
     else let (timer, st1) = stop_stamina_consumption st;
              restore = stamina_restore stamina
          in (\<lparr>so_application = map_option restore_application restore, so_timer = timer,
               so_movement_override = (case restore of None \<Rightarrow> None | Some r \<Rightarrow> restore_movement_override r)\<rparr>, st1))"

text \<open>\<^verbatim>\<open>PlayerStaminaEffect\<close> has the fields of the output; the public entry point copies them.\<close>

type_synonym PlayerStaminaEffect = PlayerStaminaOutput

definition tick_player_stamina ::
  "PlayerStaminaState \<Rightarrow> i32 \<Rightarrow> i32 \<Rightarrow> PlayerStatActivity \<Rightarrow> MovementAnimation \<Rightarrow> duration
   \<Rightarrow> PlayerStaminaEffect \<times> PlayerStaminaState" where
  "tick_player_stamina st stamina max_stamina activity movement_mode elapsed =
    (let (output, st') = tick_stamina st stamina max_stamina activity movement_mode elapsed
     in (\<lparr>so_application = so_application output, so_timer = so_timer output,
          so_movement_override = so_movement_override output\<rparr>, st'))"

section \<open>Accrual is independent of the tick length\<close>

lemma smod_nonneg: "0 \<le> a \<Longrightarrow> 0 < b \<Longrightarrow> a smod b = (a mod b :: int)"
  by (cases "a = 0") (simp_all add: signed_modulo_int_def sgn_1_pos)

definition acc_ok :: "RateAccumulator \<Rightarrow> duration \<Rightarrow> bool" where
  "acc_ok acc per \<longleftrightarrow> 0 \<le> remainder acc \<and> remainder acc < per"

text \<open>The range in which neither the saturation of the products nor the cap of the result is reached.\<close>

definition accrual_fits :: "RateAccumulator \<Rightarrow> DurationRate \<Rightarrow> duration \<Rightarrow> bool" where
  "accrual_fits acc rate elapsed \<longleftrightarrow>
    0 < dr_amount rate \<and> 0 < dr_per rate \<and> dr_per rate \<le> i64_MAX \<and> 0 \<le> elapsed \<and> acc_ok acc (dr_per rate) \<and>
    remainder acc + dr_amount rate * elapsed < dr_per rate * i64_MAX"

lemma accrue_exact:
  assumes "accrual_fits acc rate elapsed"
  shows "accrue acc rate elapsed =
    ((remainder acc + dr_amount rate * elapsed) div dr_per rate,
     acc\<lparr>remainder := (remainder acc + dr_amount rate * elapsed) mod dr_per rate\<rparr>)"
proof -
  let ?t = "remainder acc + dr_amount rate * elapsed"
  note f = assms [unfolded accrual_fits_def acc_ok_def]
  have cap: "dr_per rate * i64_MAX \<le> i64_MAX * i64_MAX" using f by (intro mult_right_mono) simp_all
  have lo: "0 \<le> dr_amount rate * elapsed" "elapsed \<le> dr_amount rate * elapsed"
    using f mult_right_mono [of 1 "dr_amount rate" elapsed] by simp_all
  then have bounds: "0 \<le> ?t" "?t < i128_MAX" "dr_amount rate * elapsed < i128_MAX" "elapsed \<le> i128_MAX"
    using f cap by linarith+
  have exact: "sat_s 128 (dr_amount rate * elapsed) = dr_amount rate * elapsed" "sat_s 128 ?t = ?t"
    using bounds lo by (simp_all add: sat_s_def)
  have nanos: "duration_nanos elapsed = elapsed" "duration_nanos (dr_per rate) = dr_per rate"
    using bounds f by (simp_all add: duration_nanos_def)
  have "dr_per rate * (?t div dr_per rate) \<le> ?t"
    using f pos_mod_sign [of "dr_per rate" ?t] mult_div_mod_eq [of "dr_per rate" ?t] by linarith
  then have "dr_per rate * (?t div dr_per rate) < dr_per rate * i64_MAX" using f by linarith
  then have "?t div dr_per rate < i64_MAX" using f mult_less_cancel_left_pos by blast
  moreover have "0 \<le> ?t div dr_per rate" using bounds f by (simp add: pos_imp_zdiv_nonneg_iff)
  ultimately have whole: "wrap_s 64 (min (?t div dr_per rate) i64_MAX) = ?t div dr_per rate"
    by (simp add: wrap_s_id in_s_def)
  show ?thesis
  proof (cases "elapsed = 0")
    case True
    then show ?thesis using f by (simp add: accrue_def Let_def nanos duration_nanos_def)
  next
    case False
    with f bounds(1) show ?thesis
      by (simp add: accrue_def Let_def nanos exact sdiv_nonneg smod_nonneg whole)
  qed
qed

fun accrue_all :: "RateAccumulator \<Rightarrow> DurationRate \<Rightarrow> duration list \<Rightarrow> i64 \<times> RateAccumulator" where
  "accrue_all acc rate [] = (0, acc)"
| "accrue_all acc rate (e # es) =
    (let (a, acc1) = accrue acc rate e; (b, acc2) = accrue_all acc1 rate es in (a + b, acc2))"

lemma accrue_all_exact:
  assumes "accrual_fits acc rate (sum_list es)" and "list_all (\<lambda>e. 0 \<le> e) es"
  shows "accrue_all acc rate es =
    ((remainder acc + dr_amount rate * sum_list es) div dr_per rate,
     acc\<lparr>remainder := (remainder acc + dr_amount rate * sum_list es) mod dr_per rate\<rparr>)"
  using assms
proof (induction es arbitrary: acc)
  case Nil
  then show ?case by (simp add: accrual_fits_def acc_ok_def)
next
  case (Cons e es)
  let ?a = "dr_amount rate" and ?p = "dr_per rate"
  let ?t = "remainder acc + ?a * e"
  let ?acc = "acc\<lparr>remainder := ?t mod ?p\<rparr>"
  note f = Cons.prems(1) [unfolded accrual_fits_def acc_ok_def]
  have nonneg: "0 \<le> e" "0 \<le> sum_list es" using Cons.prems(2) by (auto simp: list_all_iff intro: sum_list_nonneg)
  then have parts: "0 \<le> ?a * e" "0 \<le> ?a * sum_list es" using f by simp_all
  have split: "?a * sum_list (e # es) = ?a * e + ?a * sum_list es" by (simp add: distrib_left)
  have fe: "accrual_fits acc rate e" unfolding accrual_fits_def acc_ok_def
    using f nonneg parts unfolding split by linarith
  have "?t mod ?p \<le> ?t" using f parts by (simp add: zmod_le_nonneg_dividend)
  then have fes: "accrual_fits ?acc rate (sum_list es)"
    unfolding accrual_fits_def acc_ok_def using f nonneg parts unfolding split
    by (auto simp: pos_mod_bound)
  have "accrue_all ?acc rate es = ((?t mod ?p + ?a * sum_list es) div ?p,
      ?acc\<lparr>remainder := (?t mod ?p + ?a * sum_list es) mod ?p\<rparr>)"
    using Cons.IH [OF fes] Cons.prems(2) by simp
  moreover have "(?t mod ?p + ?a * sum_list es + ?t div ?p * ?p) div ?p =
      ?t div ?p + (?t mod ?p + ?a * sum_list es) div ?p"
    using f by (intro div_mult_self1) simp
  moreover have "?t mod ?p + ?a * sum_list es + ?t div ?p * ?p = ?t + ?a * sum_list es" by simp
  moreover have "(?t mod ?p + ?a * sum_list es) mod ?p = (?t + ?a * sum_list es) mod ?p" by (rule mod_add_left_eq)
  ultimately show ?case
    using accrue_exact [OF fe] by (simp only: accrue_all.simps Let_def split prod.case)
      (simp add: add.assoc split)
qed

text \<open>
  Recovery does not depend on how time is cut into ticks: accruing a rate over any sequence of tick
  lengths gives in total exactly the whole units contained in the elapsed time, and carries the exact
  fraction, as long as the accumulated amount stays within the range of the result.
\<close>

theorem accrual_ignores_tick_lengths:
  assumes "accrual_fits acc rate (sum_list es)" and "list_all (\<lambda>e. 0 \<le> e) es"
  shows "accrue_all acc rate es =
    ((remainder acc + dr_amount rate * sum_list es) div dr_per rate,
     acc\<lparr>remainder := (remainder acc + dr_amount rate * sum_list es) mod dr_per rate\<rparr>)"
  using assms by (rule accrue_all_exact)

section \<open>Passive recovery against its specification\<close>

text \<open>Hit points and spell points share one routine: accrue, hand out at most what is missing, and drop the
  remainder once the resource is full.\<close>

definition accrue_missing :: "RateAccumulator \<Rightarrow> DurationRate \<Rightarrow> i32 \<Rightarrow> duration \<Rightarrow> i32 option \<times> RateAccumulator" where
  "accrue_missing acc rate missing elapsed =
    (if missing \<le> 0 then (None, acc_reset acc)
     else let (accrued, acc1) = accrue acc rate elapsed in
       if accrued \<le> 0 then (None, acc1)
       else let amount = wrap_s 32 (min (min accrued missing) i32_MAX)
            in (if 0 < amount then Some amount else None, if missing \<le> amount then acc_reset acc1 else acc1))"

lemma accrue_passive_hp_eq:
  "accrue_passive_hp st hp max_hp activity elapsed =
    (let (r, acc) = accrue_missing (hp_accumulator st) (passive_hp_rate max_hp activity) (sat_s 32 (max_hp - hp)) elapsed
     in (r, st\<lparr>hp_accumulator := acc\<rparr>))"
  by (simp add: accrue_passive_hp_def accrue_missing_def Let_def split: prod.splits)

lemma accrue_passive_sp_eq:
  "accrue_passive_sp st hp max_hp sp max_sp activity profile elapsed =
    (let (r, acc) = accrue_missing (sp_accumulator st) (passive_sp_rate hp max_hp max_sp activity profile)
       (sat_s 32 (max_sp - sp)) elapsed
     in (r, st\<lparr>sp_accumulator := acc\<rparr>))"
  by (simp add: accrue_passive_sp_def accrue_missing_def Let_def split: prod.splits)

text \<open>What recovery should do, in unbounded integers.\<close>

definition recovery_spec :: "RateAccumulator \<Rightarrow> int \<Rightarrow> int \<Rightarrow> duration \<Rightarrow> int option \<times> RateAccumulator" where
  "recovery_spec acc amount_per_3s missing elapsed =
    (let total = remainder acc + amount_per_3s * elapsed; whole = total div from_secs 3 in
     if missing \<le> 0 then (None, acc\<lparr>remainder := 0\<rparr>)
     else if whole = 0 then (None, acc\<lparr>remainder := total\<rparr>)
     else if missing \<le> whole then (Some missing, acc\<lparr>remainder := 0\<rparr>)
     else (Some whole, acc\<lparr>remainder := total mod from_secs 3\<rparr>))"

lemma accrue_missing_spec:
  assumes "accrual_fits acc rate elapsed" and "dr_per rate = from_secs 3" and "missing \<le> i32_MAX"
  shows "accrue_missing acc rate missing elapsed = recovery_spec acc (dr_amount rate) missing elapsed"
proof (cases "missing \<le> 0")
  case True
  then show ?thesis by (simp add: accrue_missing_def recovery_spec_def acc_reset_def Let_def)
next
  case False
  let ?t = "remainder acc + dr_amount rate * elapsed" and ?p = "from_secs 3"
  have p: "0 < ?p" by (simp add: from_secs_def)
  have t: "0 \<le> ?t" using assms(1) by (simp add: accrual_fits_def acc_ok_def)
  then have whole: "0 \<le> ?t div ?p" using p by (simp add: pos_imp_zdiv_nonneg_iff)
  have small: "?t div ?p = 0 \<Longrightarrow> ?t mod ?p = ?t" using div_mult_mod_eq [of ?t ?p] by simp
  have "wrap_s 32 (min (min (?t div ?p) missing) i32_MAX) = min (?t div ?p) missing"
    using False whole assms(3) by (simp add: wrap_i32_id in_i32_iff)
  then show ?thesis
    using False whole small accrue_exact [OF assms(1)]
    by (auto simp: accrue_missing_def recovery_spec_def assms(2) acc_reset_def Let_def min_def)
qed

lemma of_resource_percent:
  assumes "0 \<le> m" and "m \<le> i32_MAX" and "0 \<le> share" and "share \<le> 500"
  shows "of_resource share m = m * share div 10000"
proof -
  have "m * share \<le> i32_MAX * 500" using assms by (intro mult_mono) simp_all
  moreover have "0 \<le> m * share" using assms by simp
  ultimately show ?thesis
    by (simp add: of_resource_def BASIS_POINTS_DENOMINATOR_def sdiv_nonneg sat_s_def)
qed

text \<open>A rate of at most fifteen plus five percent of a resource, over any tick of at most a century, fits.\<close>

definition century :: duration where "century = from_secs 3155760000"

lemma share_bound: "0 \<le> m \<Longrightarrow> m \<le> i32_MAX \<Longrightarrow> 0 \<le> share \<Longrightarrow> share \<le> 500 \<Longrightarrow>
    0 \<le> m * share div 10000 \<and> m * share div 10000 \<le> (107374183 :: int)"
proof -
  assume m: "0 \<le> m" "m \<le> i32_MAX" "0 \<le> share" "share \<le> 500"
  have "m * share \<le> i32_MAX * 500" "0 \<le> m * share"
    using m mult_mono [of m i32_MAX share 500] by simp_all
  then have "m * share div 10000 \<le> i32_MAX * 500 div 10000" "0 \<le> m * share div 10000"
    by (auto intro: zdiv_mono1 simp: pos_imp_zdiv_nonneg_iff)
  then show ?thesis by simp
qed

lemma passive_rate_fits:
  assumes "0 \<le> m" and "m \<le> i32_MAX" and "0 \<le> share" and "share \<le> 500" and "1 \<le> base" and "base \<le> 15"
    and "0 \<le> elapsed" and "elapsed \<le> century" and "acc_ok acc (from_secs 3)"
  shows "dr_amount \<lparr>dr_amount = sat_s 64 (base + of_resource share m), dr_per = from_secs 3\<rparr> = base + m * share div 10000"
    and "accrual_fits acc \<lparr>dr_amount = sat_s 64 (base + of_resource share m), dr_per = from_secs 3\<rparr> elapsed"
proof -
  let ?a = "base + m * share div 10000"
  have a: "1 \<le> ?a" "?a \<le> 107374198" using share_bound [OF assms(1-4)] assms(5,6) by linarith+
  show eq: "dr_amount \<lparr>dr_amount = sat_s 64 (base + of_resource share m), dr_per = from_secs 3\<rparr> = ?a"
    using a by (simp add: of_resource_percent [OF assms(1-4)] sat_s_def)
  have "?a * elapsed \<le> 107374198 * century" using a assms(7,8) by (intro mult_mono) (simp_all add: century_def from_secs_def)
  then show "accrual_fits acc \<lparr>dr_amount = sat_s 64 (base + of_resource share m), dr_per = from_secs 3\<rparr> elapsed"
    using a assms(7,9) eq
    by (simp add: accrual_fits_def acc_ok_def from_secs_def century_def)
qed

text \<open>
  C34. Passive hit point recovery, for every tick length up to a century and every maximum: nothing and a fresh
  accumulator when no hit points are missing; otherwise 15 plus one percent of the maximum per three seconds
  (five percent when the player has not moved for three seconds), rounded down with the fraction kept,
  and never more than what is missing, with the fraction dropped once the player is full.
\<close>

theorem passive_hp_recovery_spec:
  assumes "0 \<le> max_hp" and "max_hp \<le> i32_MAX" and "max_hp - hp \<le> i32_MAX" and "i32_MIN \<le> max_hp - hp"
    and "acc_ok (hp_accumulator st) (from_secs 3)" and "0 \<le> elapsed" and "elapsed \<le> century"
  shows "tick_player_passive_hp_recovery st hp max_hp activity elapsed =
    (let share = (if moved_recently activity (from_secs 3) then 1 else 5);
         (r, acc) = recovery_spec (hp_accumulator st) (15 + max_hp * share div 100) (max_hp - hp) elapsed
     in (map_option (ra_restore Hp) r, st\<lparr>hp_accumulator := acc\<rparr>))"
proof -
  let ?pct = "(if moved_recently activity (from_secs 3) then 100 else 500) :: int"
  let ?share = "(if moved_recently activity (from_secs 3) then 1 else 5) :: int"
  have rate: "passive_hp_rate max_hp activity = \<lparr>dr_amount = sat_s 64 (15 + of_resource ?pct max_hp), dr_per = from_secs 3\<rparr>"
    by (simp add: passive_hp_rate_def from_percent_def from_basis_points_def)
  note fits = passive_rate_fits [OF assms(1,2) _ _ _ _ assms(6,7,5), of ?pct 15]
  have pct: "max_hp * ?pct div 10000 = max_hp * ?share div 100"
    using zdiv_zmult2_eq [of 100 "max_hp * ?pct" 100] by simp
  have missing: "sat_s 32 (max_hp - hp) = max_hp - hp" using assms(3,4) by (simp add: sat_i32_eq)
  have "accrue_missing (hp_accumulator st) (passive_hp_rate max_hp activity) (max_hp - hp) elapsed =
      recovery_spec (hp_accumulator st) (15 + max_hp * ?share div 100) (max_hp - hp) elapsed"
    unfolding rate pct [symmetric] using accrue_missing_spec [OF fits(2) _ assms(3)] fits(1) by simp
  then show ?thesis
    by (simp add: tick_player_passive_hp_recovery_def accrue_passive_hp_eq missing Let_def split: prod.splits)
qed

section \<open>Stamina\<close>

text \<open>A client's stamina timer: \<open>None\<close> when it is told to start while running or to stop while stopped.\<close>

fun client_timer :: "bool \<Rightarrow> PlayerStaminaTimerCommand list \<Rightarrow> bool option" where
  "client_timer running [] = Some running"
| "client_timer running (Start rate # cmds) = (if running then None else client_timer True cmds)"
| "client_timer running (Stop # cmds) = (if running then client_timer False cmds else None)"

text \<open>One tick as the runtime issues it: the stamina values and the activity at that moment.\<close>

record StaminaTick =
  tk_stamina :: i32
  tk_max :: i32
  tk_activity :: PlayerStatActivity
  tk_mode :: MovementAnimation
  tk_elapsed :: duration

definition run_tick :: "PlayerStaminaState \<Rightarrow> StaminaTick \<Rightarrow> PlayerStaminaEffect \<times> PlayerStaminaState" where
  "run_tick st k = tick_player_stamina st (tk_stamina k) (tk_max k) (tk_activity k) (tk_mode k) (tk_elapsed k)"

lemma consume_timer:
  assumes "consume_running_stamina st current elapsed = (out, st')"
  shows "client_timer (consuming st) ((case so_timer out of None \<Rightarrow> [] | Some c \<Rightarrow> [c]) @ cmds) =
    client_timer (consuming st') cmds"
  using assms
  by (auto simp: consume_running_stamina_def start_stamina_consumption_def Let_def split: prod.splits if_splits)

lemma tick_stamina_timer:
  assumes "tick_stamina st current mx activity mode elapsed = (out, st')"
  shows "client_timer (consuming st) ((case so_timer out of None \<Rightarrow> [] | Some c \<Rightarrow> [c]) @ cmds) =
    client_timer (consuming st') cmds"
proof (cases "should_consume (stamina_snapshot_new current mx activity mode)")
  case True
  with assms show ?thesis by (intro consume_timer) (simp add: tick_stamina_def Let_def)
next
  case False
  with assms show ?thesis
    by (auto simp: tick_stamina_def stop_stamina_consumption_def Let_def split: if_splits prod.splits)
qed

text \<open>The stamina after a tick's application, as the resource rules apply it.\<close>

definition stamina_after :: "i32 \<Rightarrow> i32 \<Rightarrow> ResourceApplication option \<Rightarrow> i32" where
  "stamina_after current mx app =
    (case app of None \<Rightarrow> current
     | Some a \<Rightarrow> max (ra_min_value a) (if ra_clamp_to_cap a then min mx (current + ra_delta a) else current + ra_delta a))"

lemma should_consume_iff:
  "should_consume (stamina_snapshot_new current mx activity mode) \<longleftrightarrow>
    happened_recently (since_attack activity) (from_secs 20) \<and> movement activity = Moving \<and> mode = Run \<and> 0 < current"
  by (cases "movement activity"; cases mode)
    (auto simp: should_consume_def stamina_snapshot_new_def is_combat_run_def stamina_movement_new_def move_mode_new_def)

text \<open>
  Exhaustion and recovery are announced exactly when they happen: for a stamina within its bounds, a
  tick forces the player to walk exactly when its spending brings the stamina from above zero to zero,
  gives the preferred movement back exactly when it refills an empty stamina to its maximum, and keeps the
  stamina within its bounds in every case.
\<close>

theorem stamina_overrides_exact:
  assumes "0 \<le> current" and "current \<le> mx" and "0 < mx" and "mx \<le> i32_MAX"
  shows "let effect = fst (tick_player_stamina st current mx activity mode elapsed);
             after = stamina_after current mx (so_application effect)
         in 0 \<le> after \<and> after \<le> mx \<and>
            (so_movement_override effect = Some ForceWalk \<longleftrightarrow> 0 < current \<and> after = 0) \<and>
            (so_movement_override effect = Some RevertToPreferred \<longleftrightarrow> current = 0 \<and> after = mx)"
proof (cases "should_consume (stamina_snapshot_new current mx activity mode)")
  case True
  then have pos: "0 < current" by (simp add: should_consume_iff)
  obtain raw acc where acc: "accrue (st_accumulator st) \<lparr>dr_amount = STAMINA_CONSUME_PER_SECOND, dr_per = from_secs 1\<rparr> elapsed = (raw, acc)"
    by (cases "accrue (st_accumulator st) \<lparr>dr_amount = STAMINA_CONSUME_PER_SECOND, dr_per = from_secs 1\<rparr> elapsed") simp
  define spend where "spend = min (max raw 0) current"
  have spend: "0 \<le> spend" "spend \<le> current" using pos by (auto simp: spend_def)
  have "in_i32 spend" "in_i32 (- spend)" "in_i32 (current - spend)" "min spend i32_MAX = spend"
    using spend assms by (simp_all add: in_i32_iff)
  then have exact: "wrap_s 32 (min (min (max raw 0) current) i32_MAX) = spend" "wrap_s 32 (- spend) = - spend"
    "sat_s 32 (current - spend) = current - spend"
    by (simp_all add: wrap_i32_id sat_s_id flip: spend_def)
  have out: "so_application (fst (tick_player_stamina st current mx activity mode elapsed)) =
        (if 0 < spend then Some (ra_spend Stamina spend) else None)"
    "so_movement_override (fst (tick_player_stamina st current mx activity mode elapsed)) =
        (if current - spend \<le> 0 then Some ForceWalk else None)"
    using True
    by (simp_all add: tick_player_stamina_def tick_stamina_def consume_running_stamina_def acc exact Let_def
        stamina_snapshot_new_def split: prod.splits)
  show ?thesis
    unfolding Let_def out using spend pos assms
    by (auto simp: stamina_after_def ra_spend_def ra_new_def exact)
next
  case False
  have "stamina_restore (stamina_snapshot_new current mx activity mode) = None \<or>
    (\<exists>r. stamina_restore (stamina_snapshot_new current mx activity mode) = Some r \<and> current < mx \<and>
       restore_amount r = mx \<and> depleted_before_restore r = (current \<le> 0))"
    by (auto simp: stamina_restore_def stamina_snapshot_new_def is_depleted_def stamina_movement_new_def
        move_mode_restore_def split: PlayerMovementActivity.splits LegacyStaminaMoveMode.splits option.splits)
  then show ?thesis
  proof (elim disjE exE conjE)
    assume "stamina_restore (stamina_snapshot_new current mx activity mode) = None"
    with False show ?thesis using assms
      by (auto simp: tick_player_stamina_def tick_stamina_def Let_def stamina_after_def split: prod.splits)
  next
    fix r
    assume "stamina_restore (stamina_snapshot_new current mx activity mode) = Some r" "current < mx"
      "restore_amount r = mx" "depleted_before_restore r = (current \<le> 0)"
    with False show ?thesis using assms
      by (auto simp: tick_player_stamina_def tick_stamina_def Let_def stamina_after_def restore_application_def
          restore_movement_override_def ra_restore_def ra_new_def split: prod.splits)
  qed
qed

section \<open>Examples\<close>

definition resting :: PlayerStatActivity where
  "resting = \<lparr>movement = Idle, since_walk_started = None, since_attack = None\<rparr>"

theorem accrual_ignores_tick_lengths_witness:
  "accrue_all accumulator_default \<lparr>dr_amount = 65, dr_per = from_secs 3\<rparr> [from_secs 1, 500000000, from_secs 2] =
    (75, \<lparr>remainder = 2500000000\<rparr>)"
proof -
  have "accrual_fits accumulator_default \<lparr>dr_amount = 65, dr_per = from_secs 3\<rparr> (sum_list [from_secs 1, 500000000, from_secs 2])"
    by (simp add: accrual_fits_def acc_ok_def accumulator_default_def from_secs_def)
  from accrual_ignores_tick_lengths [OF this] show ?thesis
    by (simp add: accumulator_default_def from_secs_def)
qed

theorem passive_hp_recovery_spec_witness:
  "tick_player_passive_hp_recovery \<lparr>hp_accumulator = accumulator_default\<rparr> 500 1000 resting (from_secs 3) =
    (Some (ra_restore Hp 65), \<lparr>hp_accumulator = accumulator_default\<rparr>)"
proof -
  have "acc_ok (hp_accumulator \<lparr>hp_accumulator = accumulator_default\<rparr>) (from_secs 3)" "0 \<le> from_secs 3" "from_secs 3 \<le> century"
    by (simp_all add: acc_ok_def accumulator_default_def from_secs_def century_def)
  from passive_hp_recovery_spec [of 1000 500, OF _ _ _ _ this] show ?thesis
    by (simp add: recovery_spec_def moved_recently_def resting_def accumulator_default_def from_secs_def Let_def)
qed

theorem stamina_overrides_exact_witness:
  "so_movement_override (fst (tick_player_stamina \<lparr>st_accumulator = accumulator_default, consuming = True\<rparr> 20 800
     \<lparr>movement = Moving, since_walk_started = None, since_attack = Some 0\<rparr> Run (from_secs 1))) = Some ForceWalk"
proof -
  let ?e = "fst (tick_player_stamina \<lparr>st_accumulator = accumulator_default, consuming = True\<rparr> 20 800
     \<lparr>movement = Moving, since_walk_started = None, since_attack = Some 0\<rparr> Run (from_secs 1))"
  have "stamina_after 20 800 (so_application ?e) = 0" by code_simp
  then show ?thesis
    using stamina_overrides_exact [of 20 800 "\<lparr>st_accumulator = accumulator_default, consuming = True\<rparr>"
        "\<lparr>movement = Moving, since_walk_started = None, since_attack = Some 0\<rparr>" Run "from_secs 1"]
    by (simp add: Let_def)
qed

end
