(* ===== verification/Replication.thy ===== *)
theory Replication
  imports Rust_Prelude
begin

text \<open>
  The replication graph (\<^verbatim>\<open>zohar-sim/src/replication.rs\<close>): which observer currently holds a replicated view of
  which entity, kept as two hash maps that mirror each other.  A \<^verbatim>\<open>HashMap\<close> is a partial map and a
  \<^verbatim>\<open>HashSet\<close> a finite set; the order in which a hash set is iterated is unspecified, so it is the argument
  \<open>iter\<close>, of which \<open>iterates\<close> states what the standard library promises: every element once.
\<close>

type_synonym EntityId = u32
type_synonym index = "EntityId \<rightharpoonup> EntityId set"
type_synonym iteration = "EntityId set \<Rightarrow> EntityId list"

definition iterates :: "iteration \<Rightarrow> bool" where
  "iterates iter \<longleftrightarrow> (\<forall>S. finite S \<longrightarrow> set (iter S) = S \<and> distinct (iter S))"

section \<open>Hash maps of hash sets\<close>

definition index_row :: "index \<Rightarrow> EntityId \<Rightarrow> EntityId set" where
  "index_row m k = (case m k of None \<Rightarrow> {} | Some s \<Rightarrow> s)"

definition entry_insert :: "index \<Rightarrow> EntityId \<Rightarrow> EntityId \<Rightarrow> index" where
  "entry_insert m k x = m(k \<mapsto> insert x (index_row m k))"

definition entry_remove :: "index \<Rightarrow> EntityId \<Rightarrow> EntityId \<Rightarrow> index" where
  "entry_remove m k x =
    (case m k of None \<Rightarrow> m
     | Some s \<Rightarrow> let s' = s - {x} in if s' = {} then m(k := None) else m(k \<mapsto> s'))"

section \<open>The graph\<close>

record VisibilityDiff =
  entered :: "EntityId list"
  left :: "EntityId list"

record ReplicationGraph =
  visible_by_observer :: index
  observers_by_target :: index

definition graph_default :: ReplicationGraph where
  "graph_default = \<lparr>visible_by_observer = (\<lambda>_. None), observers_by_target = (\<lambda>_. None)\<rparr>"

definition reconcile_observer ::
  "iteration \<Rightarrow> ReplicationGraph \<Rightarrow> EntityId \<Rightarrow> EntityId set \<Rightarrow> EntityId set \<Rightarrow> VisibilityDiff \<times> ReplicationGraph" where
  "reconcile_observer iter g observer spawn_candidates retain_candidates =
    (let old_visible = index_row (visible_by_observer g) observer;
         new_visible = (old_visible \<inter> retain_candidates) \<union> spawn_candidates;
         ent = iter (new_visible - old_visible);
         lft = iter (old_visible - new_visible);
         obs1 = foldl (\<lambda>m target. entry_insert m target observer) (observers_by_target g) ent;
         obs2 = foldl (\<lambda>m target. entry_remove m target observer) obs1 lft;
         vis = (if new_visible = {} then (visible_by_observer g)(observer := None)
                else (visible_by_observer g)(observer \<mapsto> new_visible))
     in (\<lparr>entered = ent, left = lft\<rparr>, \<lparr>visible_by_observer = vis, observers_by_target = obs2\<rparr>))"

definition remove_observer :: "iteration \<Rightarrow> ReplicationGraph \<Rightarrow> EntityId \<Rightarrow> EntityId list \<times> ReplicationGraph" where
  "remove_observer iter g observer =
    (case visible_by_observer g observer of
       None \<Rightarrow> ([], g)
     | Some targets \<Rightarrow>
         (iter targets,
          \<lparr>visible_by_observer = (visible_by_observer g)(observer := None),
           observers_by_target = foldl (\<lambda>m target. entry_remove m target observer) (observers_by_target g) (iter targets)\<rparr>))"

definition remove_target :: "iteration \<Rightarrow> ReplicationGraph \<Rightarrow> EntityId \<Rightarrow> EntityId list \<times> ReplicationGraph" where
  "remove_target iter g target =
    (case observers_by_target g target of
       None \<Rightarrow> ([], g)
     | Some observers \<Rightarrow>
         (iter observers,
          \<lparr>visible_by_observer = foldl (\<lambda>m observer. entry_remove m observer target) (visible_by_observer g) (iter observers),
           observers_by_target = (observers_by_target g)(target := None)\<rparr>))"

definition remove_visibility :: "ReplicationGraph \<Rightarrow> EntityId \<Rightarrow> EntityId \<Rightarrow> bool \<times> ReplicationGraph" where
  "remove_visibility g observer target =
    (let removed = (case visible_by_observer g observer of None \<Rightarrow> False | Some targets \<Rightarrow> target \<in> targets)
     in (removed,
         \<lparr>visible_by_observer = entry_remove (visible_by_observer g) observer target,
          observers_by_target =
            (if removed then entry_remove (observers_by_target g) target observer else observers_by_target g)\<rparr>))"

definition observers_for :: "iteration \<Rightarrow> ReplicationGraph \<Rightarrow> EntityId \<Rightarrow> EntityId list" where
  "observers_for iter g target = (case observers_by_target g target of None \<Rightarrow> [] | Some s \<Rightarrow> iter s)"

definition targets_for :: "iteration \<Rightarrow> ReplicationGraph \<Rightarrow> EntityId \<Rightarrow> EntityId list" where
  "targets_for iter g observer = (case visible_by_observer g observer of None \<Rightarrow> [] | Some s \<Rightarrow> iter s)"

definition is_visible :: "ReplicationGraph \<Rightarrow> EntityId \<Rightarrow> EntityId \<Rightarrow> bool" where
  "is_visible g observer target =
    (case visible_by_observer g observer of None \<Rightarrow> False | Some targets \<Rightarrow> target \<in> targets)"

section \<open>The contract of an index\<close>

text \<open>
  What the graph needs of an index: inserting and removing one edge changes exactly one row, and both keep the
  index well formed.  Bulk updates follow for every index with these laws.
\<close>

locale edge_index =
  fixes wf_index :: "'m \<Rightarrow> bool" and row :: "'m \<Rightarrow> 'k \<Rightarrow> 'x set"
    and ins :: "'m \<Rightarrow> 'k \<Rightarrow> 'x \<Rightarrow> 'm" and del :: "'m \<Rightarrow> 'k \<Rightarrow> 'x \<Rightarrow> 'm"
  assumes row_ins: "row (ins m k x) j = (if j = k then insert x (row m j) else row m j)"
    and row_del: "row (del m k x) j = (if j = k then row m j - {x} else row m j)"
    and wf_ins: "wf_index m \<Longrightarrow> wf_index (ins m k x)"
    and wf_del: "wf_index m \<Longrightarrow> wf_index (del m k x)"
begin

lemma row_ins_all: "row (foldl (\<lambda>m k. ins m k x) m ks) j = (if j \<in> set ks then insert x (row m j) else row m j)"
  by (induction ks arbitrary: m) (auto simp: row_ins)

lemma row_del_all: "row (foldl (\<lambda>m k. del m k x) m ks) j = (if j \<in> set ks then row m j - {x} else row m j)"
  by (induction ks arbitrary: m) (auto simp: row_del)

lemma wf_ins_all: "wf_index m \<Longrightarrow> wf_index (foldl (\<lambda>m k. ins m k x) m ks)"
  by (induction ks arbitrary: m) (auto intro: wf_ins)

lemma wf_del_all: "wf_index m \<Longrightarrow> wf_index (foldl (\<lambda>m k. del m k x) m ks)"
  by (induction ks arbitrary: m) (auto intro: wf_del)

end

text \<open>An index holds no empty and no infinite row.\<close>

definition index_wf :: "index \<Rightarrow> bool" where
  "index_wf m \<longleftrightarrow> (\<forall>k s. m k = Some s \<longrightarrow> s \<noteq> {} \<and> finite s)"

interpretation idx: edge_index index_wf index_row entry_insert entry_remove
proof
  show "index_row (entry_insert m k x) j = (if j = k then insert x (index_row m j) else index_row m j)" for m k x j
    by (simp add: index_row_def entry_insert_def)
  show "index_row (entry_remove m k x) j = (if j = k then index_row m j - {x} else index_row m j)" for m k x j
    by (auto simp: index_row_def entry_remove_def Let_def split: option.splits)
  show "index_wf (entry_insert m k x)" if "index_wf m" for m k x
    using that by (auto simp: index_wf_def entry_insert_def index_row_def split: option.splits)
  show "index_wf (entry_remove m k x)" if "index_wf m" for m k x
    using that by (auto simp: index_wf_def entry_remove_def Let_def split: option.splits if_splits)
qed

lemma index_row_None: "index_wf m \<Longrightarrow> m k = None \<longleftrightarrow> index_row m k = {}"
  by (auto simp: index_wf_def index_row_def split: option.splits)

lemma finite_row: "index_wf m \<Longrightarrow> finite (index_row m k)"
  by (auto simp: index_wf_def index_row_def split: option.splits)

lemma index_row_put: "index_row (m(k := v)) j = (if j = k then (case v of None \<Rightarrow> {} | Some s \<Rightarrow> s) else index_row m j)"
  by (simp add: index_row_def)

lemma index_wf_put: "index_wf m \<Longrightarrow> (\<And>s. v = Some s \<Longrightarrow> s \<noteq> {} \<and> finite s) \<Longrightarrow> index_wf (m(k := v))"
  by (auto simp: index_wf_def)

lemma index_wf_clear: "index_wf m \<Longrightarrow> index_wf (m(k := None))"
  by (rule index_wf_put) simp_all

section \<open>The graph as a relation\<close>

definition edges :: "ReplicationGraph \<Rightarrow> (EntityId \<times> EntityId) set" where
  "edges g = {(ob, t). t \<in> index_row (visible_by_observer g) ob}"

definition graph_inv :: "ReplicationGraph \<Rightarrow> bool" where
  "graph_inv g \<longleftrightarrow> index_wf (visible_by_observer g) \<and> index_wf (observers_by_target g) \<and>
    (\<forall>ob t. t \<in> index_row (visible_by_observer g) ob \<longleftrightarrow> ob \<in> index_row (observers_by_target g) t)"

lemma graph_invD:
  assumes "graph_inv g"
  shows "index_wf (visible_by_observer g)" and "index_wf (observers_by_target g)"
    and "ob \<in> index_row (observers_by_target g) t \<longleftrightarrow> t \<in> index_row (visible_by_observer g) ob"
  using assms by (simp_all add: graph_inv_def)

lemma is_visible_edges: "is_visible g ob t \<longleftrightarrow> (ob, t) \<in> edges g"
  by (simp add: is_visible_def edges_def index_row_def split: option.splits)

lemma graph_default_inv: "graph_inv graph_default" and edges_default: "edges graph_default = {}"
  by (simp_all add: graph_inv_def graph_default_def edges_def index_wf_def index_row_def)

lemma targets_row: "targets_for iter g ob = (if index_row (visible_by_observer g) ob = {} then [] else iter (index_row (visible_by_observer g) ob))"
  if "graph_inv g"
  using graph_invD(1) [OF that] by (auto simp: targets_for_def index_row_def index_wf_def split: option.splits)

lemma observers_row: "observers_for iter g t = (if index_row (observers_by_target g) t = {} then [] else iter (index_row (observers_by_target g) t))"
  if "graph_inv g"
  using graph_invD(2) [OF that] by (auto simp: observers_for_def index_row_def index_wf_def split: option.splits)

text \<open>The abstract operations: an edge is an observer and a target it sees.\<close>

datatype GraphOp =
    Reconcile EntityId "EntityId set" "EntityId set"
  | RemoveObserver EntityId
  | RemoveTarget EntityId
  | RemoveVisibility EntityId EntityId

fun graph_step :: "iteration \<Rightarrow> ReplicationGraph \<Rightarrow> GraphOp \<Rightarrow> ReplicationGraph" where
  "graph_step iter g (Reconcile ob spawn retain) = snd (reconcile_observer iter g ob spawn retain)"
| "graph_step iter g (RemoveObserver ob) = snd (remove_observer iter g ob)"
| "graph_step iter g (RemoveTarget t) = snd (remove_target iter g t)"
| "graph_step iter g (RemoveVisibility ob t) = snd (remove_visibility g ob t)"

fun edge_step :: "(EntityId \<times> EntityId) set \<Rightarrow> GraphOp \<Rightarrow> (EntityId \<times> EntityId) set" where
  "edge_step E (Reconcile ob spawn retain) =
    {(o', t). if o' = ob then t \<in> spawn \<or> (t \<in> retain \<and> (ob, t) \<in> E) else (o', t) \<in> E}"
| "edge_step E (RemoveObserver ob) = {(o', t). o' \<noteq> ob \<and> (o', t) \<in> E}"
| "edge_step E (RemoveTarget t) = {(ob, t'). t' \<noteq> t \<and> (ob, t') \<in> E}"
| "edge_step E (RemoveVisibility ob t) = E - {(ob, t)}"

text \<open>The candidate sets of a call are hash sets, hence finite.\<close>

fun op_finite :: "GraphOp \<Rightarrow> bool" where
  "op_finite (Reconcile ob spawn retain) = (finite spawn \<and> finite retain)"
| "op_finite op = True"

section \<open>Every operation keeps the indexes in step\<close>

lemma iteratesD: "iterates iter \<Longrightarrow> finite S \<Longrightarrow> set (iter S) = S \<and> distinct (iter S)"
  by (simp add: iterates_def)

lemma reconcile_simulates:
  assumes "graph_inv g" and it: "iterates iter" and fin: "finite spawn"
  shows "graph_inv (snd (reconcile_observer iter g ob spawn retain)) \<and>
    edges (snd (reconcile_observer iter g ob spawn retain)) = edge_step (edges g) (Reconcile ob spawn retain)"
proof -
  note inv = graph_invD [OF assms(1)]
  let ?old = "index_row (visible_by_observer g) ob"
  let ?new = "(?old \<inter> retain) \<union> spawn"
  have f: "finite ?old" "finite ?new" using inv(1) fin by (simp_all add: finite_row)
  then have sets: "set (iter (?new - ?old)) = ?new - ?old" "set (iter (?old - ?new)) = ?old - ?new"
    using it by (simp_all add: iteratesD)
  let ?g = "snd (reconcile_observer iter g ob spawn retain)"
  have vis: "index_row (visible_by_observer ?g) o' = (if o' = ob then ?new else index_row (visible_by_observer g) o')" for o'
    by (simp add: reconcile_observer_def Let_def index_row_put)
  have obs: "index_row (observers_by_target ?g) t =
      (if t \<in> ?old - ?new then index_row (observers_by_target g) t - {ob}
       else if t \<in> ?new - ?old then insert ob (index_row (observers_by_target g) t)
       else index_row (observers_by_target g) t)" for t
    by (auto simp: reconcile_observer_def Let_def idx.row_ins_all idx.row_del_all sets)
  have "index_wf (visible_by_observer ?g)"
    using inv(1) f(2) by (auto simp: reconcile_observer_def Let_def intro!: index_wf_put)
  moreover have "index_wf (observers_by_target ?g)"
    using inv(2) by (simp add: reconcile_observer_def Let_def idx.wf_ins_all idx.wf_del_all)
  moreover have "t \<in> index_row (visible_by_observer ?g) o' \<longleftrightarrow> o' \<in> index_row (observers_by_target ?g) t" for o' t
    unfolding vis obs using inv(3) [of o' t] inv(3) [of ob t] by auto
  moreover have "edges ?g = edge_step (edges g) (Reconcile ob spawn retain)"
    unfolding edges_def vis by (auto split: if_splits)
  ultimately show ?thesis by (simp add: graph_inv_def)
qed

lemma remove_observer_simulates:
  assumes "graph_inv g" and it: "iterates iter"
  shows "graph_inv (snd (remove_observer iter g ob)) \<and>
    edges (snd (remove_observer iter g ob)) = edge_step (edges g) (RemoveObserver ob)"
proof (cases "visible_by_observer g ob")
  case None
  then show ?thesis using assms(1) by (auto simp: remove_observer_def edges_def index_row_def)
next
  case (Some targets)
  note inv = graph_invD [OF assms(1)]
  have "finite targets" using Some inv(1) by (auto simp: index_wf_def)
  then have sets: "set (iter targets) = targets" using it by (simp add: iteratesD)
  have row: "index_row (visible_by_observer g) ob = targets" by (simp add: index_row_def Some)
  let ?g = "snd (remove_observer iter g ob)"
  have vis: "index_row (visible_by_observer ?g) o' = (if o' = ob then {} else index_row (visible_by_observer g) o')" for o'
    by (simp add: remove_observer_def Some index_row_put)
  have obs: "index_row (observers_by_target ?g) t =
      (if t \<in> targets then index_row (observers_by_target g) t - {ob} else index_row (observers_by_target g) t)" for t
    by (simp add: remove_observer_def Some idx.row_del_all sets)
  have "index_wf (visible_by_observer ?g)" "index_wf (observers_by_target ?g)"
    using inv(1,2) by (simp_all add: remove_observer_def Some idx.wf_del_all index_wf_clear)
  moreover have "t \<in> index_row (visible_by_observer ?g) o' \<longleftrightarrow> o' \<in> index_row (observers_by_target ?g) t" for o' t
    unfolding vis obs using inv(3) [of o' t] row by auto
  moreover have "edges ?g = edge_step (edges g) (RemoveObserver ob)"
    unfolding edges_def vis by (auto split: if_splits)
  ultimately show ?thesis by (simp add: graph_inv_def)
qed

lemma remove_target_simulates:
  assumes "graph_inv g" and it: "iterates iter"
  shows "graph_inv (snd (remove_target iter g t)) \<and>
    edges (snd (remove_target iter g t)) = edge_step (edges g) (RemoveTarget t)"
proof (cases "observers_by_target g t")
  case None
  then have "index_row (observers_by_target g) t = {}" by (simp add: index_row_def)
  then have "t \<notin> index_row (visible_by_observer g) ob" for ob using graph_invD(3) [OF assms(1)] by blast
  then show ?thesis using assms(1) None by (auto simp: remove_target_def edges_def)
next
  case (Some observers)
  note inv = graph_invD [OF assms(1)]
  have "finite observers" using Some inv(2) by (auto simp: index_wf_def)
  then have sets: "set (iter observers) = observers" using it by (simp add: iteratesD)
  have row: "index_row (observers_by_target g) t = observers" by (simp add: index_row_def Some)
  let ?g = "snd (remove_target iter g t)"
  have obs: "index_row (observers_by_target ?g) u = (if u = t then {} else index_row (observers_by_target g) u)" for u
    by (simp add: remove_target_def Some index_row_put)
  have vis: "index_row (visible_by_observer ?g) ob =
      (if ob \<in> observers then index_row (visible_by_observer g) ob - {t} else index_row (visible_by_observer g) ob)" for ob
    by (simp add: remove_target_def Some idx.row_del_all sets)
  have "index_wf (visible_by_observer ?g)" "index_wf (observers_by_target ?g)"
    using inv(1,2) by (simp_all add: remove_target_def Some idx.wf_del_all index_wf_clear)
  moreover have "u \<in> index_row (visible_by_observer ?g) ob \<longleftrightarrow> ob \<in> index_row (observers_by_target ?g) u" for ob u
    unfolding vis obs using inv(3) [of ob u] row by auto
  moreover have "edges ?g = edge_step (edges g) (RemoveTarget t)"
    unfolding edges_def vis using inv(3) [of _ t] row by (auto split: if_splits)
  ultimately show ?thesis by (simp add: graph_inv_def)
qed

lemma remove_visibility_simulates:
  assumes "graph_inv g"
  shows "graph_inv (snd (remove_visibility g ob t)) \<and>
    edges (snd (remove_visibility g ob t)) = edge_step (edges g) (RemoveVisibility ob t) \<and>
    (fst (remove_visibility g ob t) \<longleftrightarrow> (ob, t) \<in> edges g)"
proof -
  note inv = graph_invD [OF assms]
  let ?g = "snd (remove_visibility g ob t)"
  have removed: "fst (remove_visibility g ob t) \<longleftrightarrow> t \<in> index_row (visible_by_observer g) ob"
    by (simp add: remove_visibility_def Let_def index_row_def split: option.splits)
  have vis: "index_row (visible_by_observer ?g) o' = (if o' = ob then index_row (visible_by_observer g) o' - {t} else index_row (visible_by_observer g) o')" for o'
    by (simp add: remove_visibility_def Let_def idx.row_del)
  have obs: "index_row (observers_by_target ?g) u =
      (if u = t \<and> t \<in> index_row (visible_by_observer g) ob then index_row (observers_by_target g) u - {ob} else index_row (observers_by_target g) u)" for u
    using removed by (auto simp: remove_visibility_def Let_def idx.row_del)
  have "index_wf (visible_by_observer ?g)" "index_wf (observers_by_target ?g)"
    using inv(1,2) by (simp_all add: remove_visibility_def Let_def idx.wf_del)
  moreover have "u \<in> index_row (visible_by_observer ?g) o' \<longleftrightarrow> o' \<in> index_row (observers_by_target ?g) u" for o' u
    unfolding vis obs using inv(3) [of o' u] by auto
  moreover have "edges ?g = edge_step (edges g) (RemoveVisibility ob t)"
    unfolding edges_def vis by (auto split: if_splits)
  ultimately show ?thesis using removed by (simp add: graph_inv_def) (simp add: edges_def)
qed

lemma graph_step_simulates:
  assumes "graph_inv g" and "iterates iter" and "op_finite op"
  shows "graph_inv (graph_step iter g op) \<and> edges (graph_step iter g op) = edge_step (edges g) op"
  using assms reconcile_simulates remove_observer_simulates remove_target_simulates remove_visibility_simulates
  by (cases op) simp_all

text \<open>
  C36. The replication graph implements the visibility relation: after any sequence of operations, in whatever
  order hash sets are iterated, the graph holds exactly the edges of the specification (hysteresis on
  reconciliation: spawn candidates become visible, visible targets stay while they are retain
  candidates), and the two indexes list every observer and every target of an edge exactly once.
\<close>

theorem replication_implements_visibility:
  assumes "iterates iter" and "list_all op_finite ops" and "g = foldl (graph_step iter) graph_default ops"
  shows "edges g = foldl edge_step {} ops \<and>
    set (targets_for iter g ob) = {u. (ob, u) \<in> edges g} \<and> distinct (targets_for iter g ob) \<and>
    set (observers_for iter g t) = {w. (w, t) \<in> edges g} \<and> distinct (observers_for iter g t) \<and>
    (is_visible g ob t \<longleftrightarrow> (ob, t) \<in> edges g)"
proof -
  have run: "graph_inv (foldl (graph_step iter) h ops) \<and> edges (foldl (graph_step iter) h ops) = foldl edge_step (edges h) ops"
    if "graph_inv h" for h
    using assms(2) that graph_step_simulates [OF _ assms(1)] by (induction ops arbitrary: h) simp_all
  have g: "graph_inv g" "edges g = foldl edge_step {} ops"
    using run [OF graph_default_inv] by (simp_all add: assms(3) edges_default)
  note inv = graph_invD [OF g(1)]
  have "finite (index_row (visible_by_observer g) ob)" "finite (index_row (observers_by_target g) t)"
    using inv(1,2) by (simp_all add: finite_row)
  then have "set (targets_for iter g ob) = index_row (visible_by_observer g) ob" "distinct (targets_for iter g ob)"
    "set (observers_for iter g t) = index_row (observers_by_target g) t" "distinct (observers_for iter g t)"
    using iteratesD [OF assms(1)] by (simp_all add: targets_row [OF g(1)] observers_row [OF g(1)])
  moreover have "{u. (ob, u) \<in> edges g} = index_row (visible_by_observer g) ob"
    "{w. (w, t) \<in> edges g} = index_row (observers_by_target g) t"
    using inv(3) by (auto simp: edges_def)
  ultimately show ?thesis using g(2) by (simp add: is_visible_edges)
qed

text \<open>
  What the operations tell their caller: reconciling an observer reports as entered exactly the targets that
  became visible to it and as left exactly those that stopped being visible, each once; removing an
  observer or a target returns exactly the other ends of its edges.
\<close>

theorem replication_reports_changes:
  assumes "graph_inv g" and "iterates iter" and "finite spawn"
    and "reconcile_observer iter g ob spawn retain = (diff, g')"
  shows "set (entered diff) = {t. (ob, t) \<in> edges g' - edges g} \<and> distinct (entered diff) \<and>
    set (left diff) = {t. (ob, t) \<in> edges g - edges g'} \<and> distinct (left diff) \<and>
    set (fst (remove_observer iter g ob)) = {t. (ob, t) \<in> edges g} \<and>
    set (fst (remove_target iter g t)) = {w. (w, t) \<in> edges g}"
proof -
  note inv = graph_invD [OF assms(1)]
  let ?old = "index_row (visible_by_observer g) ob"
  let ?new = "(?old \<inter> retain) \<union> spawn"
  have f: "finite ?old" "finite ?new" "finite (index_row (observers_by_target g) t)"
    using inv(1,2) assms(3) by (simp_all add: finite_row)
  have d: "entered diff = iter (?new - ?old)" "left diff = iter (?old - ?new)"
    using assms(4) by (auto simp: reconcile_observer_def Let_def)
  have "edges g' = edge_step (edges g) (Reconcile ob spawn retain)"
    using reconcile_simulates [OF assms(1-3), of ob retain] assms(4) by simp
  then have new: "{t. (ob, t) \<in> edges g'} = ?new" by (auto simp: edges_def)
  have old: "{t. (ob, t) \<in> edges g} = ?old" by (simp add: edges_def)
  have "set (fst (remove_observer iter g ob)) = ?old"
    using f(1) iteratesD [OF assms(2)] by (auto simp: remove_observer_def index_row_def split: option.splits)
  moreover have "set (fst (remove_target iter g t)) = index_row (observers_by_target g) t"
    using f(3) iteratesD [OF assms(2)] by (auto simp: remove_target_def index_row_def split: option.splits)
  ultimately show ?thesis
    using f iteratesD [OF assms(2)] new old inv(3) by (auto simp: d edges_def)
qed

section \<open>Examples\<close>

lemma iterates_sorted: "iterates sorted_list_of_set"
  by (simp add: iterates_def)

theorem replication_implements_visibility_witness:
  "edges (foldl (graph_step sorted_list_of_set) graph_default
     [Reconcile 1 {2, 3} {2, 3}, Reconcile 1 {} {2}, Reconcile 4 {2} {2}, RemoveVisibility 4 2]) = {(1, 2)}"
proof -
  let ?ops = "[Reconcile 1 {2, 3} {2, 3}, Reconcile 1 {} {2}, Reconcile 4 {2} {2}, RemoveVisibility 4 2]"
  have "edges (foldl (graph_step sorted_list_of_set) graph_default ?ops) = foldl edge_step {} ?ops"
    using replication_implements_visibility [OF iterates_sorted, of ?ops] by simp
  also have "\<dots> = {(1, 2)}" by auto
  finally show ?thesis .
qed

theorem replication_reports_changes_witness:
  "set (entered (fst (reconcile_observer sorted_list_of_set graph_default 1 {2, 3} {2, 3}))) = {2, 3}"
proof -
  obtain diff g' where r: "reconcile_observer sorted_list_of_set graph_default 1 {2, 3} {2, 3} = (diff, g')"
    by (cases "reconcile_observer sorted_list_of_set graph_default 1 {2, 3} {2, 3}") simp
  have "edges g' = {(1, 2), (1, 3)}"
    using reconcile_simulates [OF graph_default_inv iterates_sorted, of "{2, 3}" 1 "{2, 3}"] r
    by (auto simp: edges_default split: if_splits)
  then show ?thesis
    using replication_reports_changes [OF graph_default_inv iterates_sorted _ r] r by (auto simp: edges_default)
qed

end
