(* ===== verification/Outbox.thy ===== *)
theory Outbox
  imports Replication
begin

text \<open>
  The outbox of one player (\<^verbatim>\<open>zohar-sim/src/outbox.rs\<close>): reliable events in order, the latest prioritised
  movement per entity, and a queue of remote movement, flushed into a bounded channel.

  The channel is \<^verbatim>\<open>tokio::sync::mpsc\<close>; it is the argument \<open>try_send\<close>, acting on an abstract state that the
  receiver may also change between two calls.  \<open>channel_ok\<close> states what the library documents: an accepted event is
  appended to what the receiver will see, a refused one is not, and a closed channel stays closed.  Positions
  are floating-point pairs: they are the type parameter, and their comparison is the argument \<open>pos_eq\<close>.
  Of the events only the movement event matters here.
\<close>

datatype MovementKind = Wait | Move | Attack | Combo

record 'p MovementEvent =
  mv_entity_id :: EntityId
  mv_kind :: MovementKind
  mv_arg :: u8
  mv_facing :: u8
  mv_position :: 'p
  mv_client_ts :: u32
  mv_duration :: u32

datatype ('e, 'p) PlayerEvent = EntityMove "'p MovementEvent" | OtherEvent 'e

definition movement_eq :: "('p \<Rightarrow> 'p \<Rightarrow> bool) \<Rightarrow> 'p MovementEvent \<Rightarrow> 'p MovementEvent \<Rightarrow> bool" where
  "movement_eq pos_eq a b \<longleftrightarrow>
    mv_entity_id a = mv_entity_id b \<and> mv_kind a = mv_kind b \<and> mv_arg a = mv_arg b \<and> mv_facing a = mv_facing b \<and>
    pos_eq (mv_position a) (mv_position b) \<and> mv_client_ts a = mv_client_ts b \<and> mv_duration a = mv_duration b"

section \<open>The channel\<close>

datatype SendResult = Sent | Full | Closed

type_synonym ('e, 'p, 't) channel = "'t \<Rightarrow> ('e, 'p) PlayerEvent \<Rightarrow> SendResult \<times> 't"

definition channel_ok ::
  "('e, 'p, 't) channel \<Rightarrow> ('t \<Rightarrow> ('e, 'p) PlayerEvent list) \<Rightarrow> ('t \<Rightarrow> bool) \<Rightarrow> bool" where
  "channel_ok try_send accepted closed \<longleftrightarrow>
    (\<forall>t e. accepted (snd (try_send t e)) = accepted t @ (if fst (try_send t e) = Sent then [e] else []) \<and>
      (fst (try_send t e) = Closed \<longrightarrow> closed (snd (try_send t e))) \<and> (closed t \<longrightarrow> closed (snd (try_send t e))))"

section \<open>The outbox\<close>

record ('e, 'p) PlayerOutbox =
  owner_player_id :: "i64 option"
  events :: "('e, 'p) PlayerEvent list"
  movement_latest_player :: "EntityId \<rightharpoonup> 'p MovementEvent"
  movement_remote :: "'p MovementEvent list"

record PlayerOutboxStats =
  sent_reliable :: nat
  sent_movement :: nat
  total_events :: nat

datatype MovementFlushOutcome = FlushComplete | FlushFull | FlushClosed

definition outbox_new :: "('e, 'p) PlayerOutbox" where
  "outbox_new = \<lparr>owner_player_id = None, events = [], movement_latest_player = (\<lambda>_. None), movement_remote = []\<rparr>"

definition set_owner_player_id :: "('e, 'p) PlayerOutbox \<Rightarrow> i64 \<Rightarrow> ('e, 'p) PlayerOutbox" where
  "set_owner_player_id ob player_id = ob\<lparr>owner_player_id := Some player_id\<rparr>"

definition push_reliable :: "('e, 'p) PlayerOutbox \<Rightarrow> ('e, 'p) PlayerEvent \<Rightarrow> ('e, 'p) PlayerOutbox" where
  "push_reliable ob event = ob\<lparr>events := events ob @ [event]\<rparr>"

definition push_remote_movement_update ::
  "('p \<Rightarrow> 'p \<Rightarrow> bool) \<Rightarrow> ('e, 'p) PlayerOutbox \<Rightarrow> 'p MovementEvent \<Rightarrow> ('e, 'p) PlayerOutbox" where
  "push_remote_movement_update pos_eq ob m =
    (if movement_remote ob \<noteq> [] \<and> movement_eq pos_eq (last (movement_remote ob)) m then ob
     else ob\<lparr>movement_remote := movement_remote ob @ [m]\<rparr>)"

definition push_remote_movement ::
  "('p \<Rightarrow> 'p \<Rightarrow> bool) \<Rightarrow> ('e, 'p) PlayerOutbox \<Rightarrow> 'p MovementEvent \<Rightarrow> ('e, 'p) PlayerOutbox" where
  "push_remote_movement pos_eq ob m = push_remote_movement_update pos_eq ob m"

definition set_latest_movement_with_priority ::
  "('p \<Rightarrow> 'p \<Rightarrow> bool) \<Rightarrow> ('e, 'p) PlayerOutbox \<Rightarrow> 'p MovementEvent \<Rightarrow> bool \<Rightarrow> ('e, 'p) PlayerOutbox" where
  "set_latest_movement_with_priority pos_eq ob m prioritize =
    (if prioritize
     then ob\<lparr>movement_remote := filter (\<lambda>queued. mv_entity_id queued \<noteq> mv_entity_id m) (movement_remote ob),
             movement_latest_player := (movement_latest_player ob)(mv_entity_id m \<mapsto> m)\<rparr>
     else push_remote_movement_update pos_eq
            (ob\<lparr>movement_latest_player := (movement_latest_player ob)(mv_entity_id m := None)\<rparr>) m)"

text \<open>The loop over the reliable events: how it ended, what is left, the channel and the number sent.\<close>

fun flush_reliable ::
  "('e, 'p, 't) channel \<Rightarrow> 't \<Rightarrow> ('e, 'p) PlayerEvent list \<Rightarrow> MovementFlushOutcome \<times> ('e, 'p) PlayerEvent list \<times> 't \<times> nat" where
  "flush_reliable try_send tx [] = (FlushComplete, [], tx, 0)"
| "flush_reliable try_send tx (e # es) =
    (case try_send tx e of
       (Sent, tx') \<Rightarrow> (let (out, rest, tx'', n) = flush_reliable try_send tx' es in (out, rest, tx'', Suc n))
     | (Full, tx') \<Rightarrow> (FlushFull, e # es, tx', 0)
     | (Closed, tx') \<Rightarrow> (FlushClosed, es, tx', 0))"

text \<open>The loop over the drained bucket; unsent updates go back under their own entity.\<close>

fun flush_bucket_loop ::
  "('e, 'p, 't) channel \<Rightarrow> 't \<Rightarrow> 'p MovementEvent list \<Rightarrow> MovementFlushOutcome \<times> (EntityId \<rightharpoonup> 'p MovementEvent) \<times> 't \<times> nat" where
  "flush_bucket_loop try_send tx [] = (FlushComplete, (\<lambda>_. None), tx, 0)"
| "flush_bucket_loop try_send tx (m # ms) =
    (case try_send tx (EntityMove m) of
       (Sent, tx') \<Rightarrow> (let (out, rest, tx'', n) = flush_bucket_loop try_send tx' ms in (out, rest, tx'', Suc n))
     | (Full, tx') \<Rightarrow> (FlushFull, foldl (\<lambda>b r. b(mv_entity_id r \<mapsto> r)) (\<lambda>_. None) (m # ms), tx', 0)
     | (Closed, tx') \<Rightarrow> (FlushClosed, (\<lambda>_. None), tx', 0))"

definition bucket_list :: "iteration \<Rightarrow> (EntityId \<rightharpoonup> 'p MovementEvent) \<Rightarrow> 'p MovementEvent list" where
  "bucket_list iter b = map (\<lambda>k. the (b k)) (iter (dom b))"

definition flush_movement_bucket ::
  "iteration \<Rightarrow> ('e, 'p, 't) channel \<Rightarrow> 't \<Rightarrow> ('e, 'p) PlayerOutbox \<Rightarrow> MovementFlushOutcome \<times> ('e, 'p) PlayerOutbox \<times> 't \<times> nat" where
  "flush_movement_bucket iter try_send tx ob =
    (let (out, rest, tx', n) = flush_bucket_loop try_send tx (bucket_list iter (movement_latest_player ob))
     in (out, ob\<lparr>movement_latest_player := rest\<rparr>, tx', n))"

fun flush_remote_loop ::
  "('e, 'p, 't) channel \<Rightarrow> 't \<Rightarrow> 'p MovementEvent list \<Rightarrow> MovementFlushOutcome \<times> 'p MovementEvent list \<times> 't \<times> nat" where
  "flush_remote_loop try_send tx [] = (FlushComplete, [], tx, 0)"
| "flush_remote_loop try_send tx (m # ms) =
    (case try_send tx (EntityMove m) of
       (Sent, tx') \<Rightarrow> (let (out, rest, tx'', n) = flush_remote_loop try_send tx' ms in (out, rest, tx'', Suc n))
     | (Full, tx') \<Rightarrow> (FlushFull, m # ms, tx', 0)
     | (Closed, tx') \<Rightarrow> (FlushClosed, [], tx', 0))"

definition flush_remote_movement_queue ::
  "('e, 'p, 't) channel \<Rightarrow> 't \<Rightarrow> ('e, 'p) PlayerOutbox \<Rightarrow> MovementFlushOutcome \<times> ('e, 'p) PlayerOutbox \<times> 't \<times> nat" where
  "flush_remote_movement_queue try_send tx ob =
    (let (out, rest, tx', n) = flush_remote_loop try_send tx (movement_remote ob)
     in (out, ob\<lparr>movement_remote := rest\<rparr>, tx', n))"

definition stats_of :: "nat \<Rightarrow> nat \<Rightarrow> PlayerOutboxStats" where
  "stats_of r m = \<lparr>sent_reliable = r, sent_movement = m, total_events = r + m\<rparr>"

definition clear_movement :: "('e, 'p) PlayerOutbox \<Rightarrow> ('e, 'p) PlayerOutbox" where
  "clear_movement ob = ob\<lparr>movement_latest_player := (\<lambda>_. None), movement_remote := []\<rparr>"

definition flush ::
  "iteration \<Rightarrow> ('e, 'p, 't) channel \<Rightarrow> 't \<Rightarrow> ('e, 'p) PlayerOutbox \<Rightarrow> PlayerOutboxStats \<times> ('e, 'p) PlayerOutbox \<times> 't" where
  "flush iter try_send tx ob =
    (let (out, rest, tx1, r) = flush_reliable try_send tx (events ob); ob1 = ob\<lparr>events := rest\<rparr> in
     if out = FlushClosed then (stats_of r 0, clear_movement (ob1\<lparr>events := []\<rparr>), tx1)
     else let (out2, ob2, tx2, m) = flush_movement_bucket iter try_send tx1 ob1 in
       case out2 of
         FlushFull \<Rightarrow> (stats_of r m, ob2, tx2)
       | FlushClosed \<Rightarrow> (stats_of r m, clear_movement ob2, tx2)
       | FlushComplete \<Rightarrow>
           (let (out3, ob3, tx3, k) = flush_remote_movement_queue try_send tx2 ob2 in
            case out3 of
              FlushClosed \<Rightarrow> (stats_of r (m + k), clear_movement ob3, tx3)
            | _ \<Rightarrow> (stats_of r (m + k), ob3, tx3)))"

definition pending_movement_count :: "('e, 'p) PlayerOutbox \<Rightarrow> nat" where
  "pending_movement_count ob = card (dom (movement_latest_player ob)) + length (movement_remote ob)"

section \<open>Nothing is lost, nothing is repeated\<close>

text \<open>The bucket holds each update under its own entity, and finitely many of them.\<close>

definition outbox_wf :: "('e, 'p) PlayerOutbox \<Rightarrow> bool" where
  "outbox_wf ob \<longleftrightarrow> finite (dom (movement_latest_player ob)) \<and>
    (\<forall>k m. movement_latest_player ob k = Some m \<longrightarrow> mv_entity_id m = k)"

lemma channel_okD:
  assumes "channel_ok try_send accepted closed" and "try_send tx e = (r, tx')"
  shows "accepted tx' = accepted tx @ (if r = Sent then [e] else [])" and "r = Closed \<Longrightarrow> closed tx'"
    and "closed tx \<Longrightarrow> closed tx'"
  using assms(1) [unfolded channel_ok_def, rule_format, of tx e] assms(2) by auto

lemma flush_reliable_sends:
  assumes ch: "channel_ok try_send accepted closed" and "flush_reliable try_send tx es = (out, rest, tx', n)" and "\<not> closed tx'"
  shows "\<not> closed tx \<and> out \<noteq> FlushClosed \<and> (\<exists>sent. es = sent @ rest \<and> accepted tx' = accepted tx @ sent \<and> n = length sent)"
  using assms(2)
proof (induction es arbitrary: tx n)
  case Nil
  then show ?case using assms(3) by auto
next
  case (Cons e es)
  obtain r tx1 where s: "try_send tx e = (r, tx1)" by (cases "try_send tx e")
  note law = channel_okD [OF ch s]
  show ?case
  proof (cases r)
    case Sent
    then obtain n' where r: "flush_reliable try_send tx1 es = (out, rest, tx', n')" "n = Suc n'"
      using Cons.prems s by (auto split: prod.splits)
    from Cons.IH [OF r(1)] obtain sent where i: "\<not> closed tx1" "out \<noteq> FlushClosed" "es = sent @ rest"
      "accepted tx' = accepted tx1 @ sent" "n' = length sent" by blast
    then show ?thesis using law Sent r(2) by (intro conjI exI [of _ "e # sent"]) auto
  qed (use Cons.prems s law assms(3) in auto)
qed

lemma flush_remote_sends:
  assumes ch: "channel_ok try_send accepted closed" and "flush_remote_loop try_send tx ms = (out, rest, tx', n)" and "\<not> closed tx'"
  shows "\<not> closed tx \<and> out \<noteq> FlushClosed \<and>
    (\<exists>sent. ms = sent @ rest \<and> accepted tx' = accepted tx @ map EntityMove sent \<and> n = length sent)"
  using assms(2)
proof (induction ms arbitrary: tx n)
  case Nil
  then show ?case using assms(3) by auto
next
  case (Cons m ms)
  obtain r tx1 where s: "try_send tx (EntityMove m) = (r, tx1)" by (cases "try_send tx (EntityMove m)")
  note law = channel_okD [OF ch s]
  show ?case
  proof (cases r)
    case Sent
    then obtain n' where r: "flush_remote_loop try_send tx1 ms = (out, rest, tx', n')" "n = Suc n'"
      using Cons.prems s by (auto split: prod.splits)
    from Cons.IH [OF r(1)] obtain sent where i: "\<not> closed tx1" "out \<noteq> FlushClosed" "ms = sent @ rest"
      "accepted tx' = accepted tx1 @ map EntityMove sent" "n' = length sent" by blast
    then show ?thesis using law Sent r(2) by (intro conjI exI [of _ "m # sent"]) auto
  qed (use Cons.prems s law assms(3) in auto)
qed

lemma flush_bucket_sends:
  assumes ch: "channel_ok try_send accepted closed" and "flush_bucket_loop try_send tx ms = (out, rest, tx', n)" and "\<not> closed tx'"
  shows "\<not> closed tx \<and> out \<noteq> FlushClosed \<and>
    (\<exists>sent unsent. ms = sent @ unsent \<and> rest = foldl (\<lambda>b r. b(mv_entity_id r \<mapsto> r)) (\<lambda>_. None) unsent \<and>
      accepted tx' = accepted tx @ map EntityMove sent \<and> n = length sent \<and> (out = FlushComplete \<longrightarrow> unsent = []))"
  using assms(2)
proof (induction ms arbitrary: tx n)
  case Nil
  then show ?case using assms(3) by auto
next
  case (Cons m ms)
  obtain r tx1 where s: "try_send tx (EntityMove m) = (r, tx1)" by (cases "try_send tx (EntityMove m)")
  note law = channel_okD [OF ch s]
  show ?case
  proof (cases r)
    case Sent
    then obtain n' where r: "flush_bucket_loop try_send tx1 ms = (out, rest, tx', n')" "n = Suc n'"
      using Cons.prems s by (auto split: prod.splits)
    from Cons.IH [OF r(1)] obtain sent unsent where i: "\<not> closed tx1" "out \<noteq> FlushClosed" "ms = sent @ unsent"
      "rest = foldl (\<lambda>b r. b(mv_entity_id r \<mapsto> r)) (\<lambda>_. None) unsent"
      "accepted tx' = accepted tx1 @ map EntityMove sent" "n' = length sent" "out = FlushComplete \<longrightarrow> unsent = []" by blast
    have "m # ms = (m # sent) @ unsent" "accepted tx' = accepted tx @ map EntityMove (m # sent)" "n = length (m # sent)"
      using i law(1) Sent r(2) by simp_all
    moreover have "\<not> closed tx" using i(1) law(3) by blast
    ultimately show ?thesis using i(2,4,7) by blast
  next
    case Full
    then have "out = FlushFull" "rest = foldl (\<lambda>b r. b(mv_entity_id r \<mapsto> r)) (\<lambda>_. None) (m # ms)" "tx' = tx1" "n = 0"
      using Cons.prems s by simp_all
    moreover have "accepted tx1 = accepted tx @ map EntityMove []" "\<not> closed tx" "m # ms = [] @ (m # ms)"
      using law Full assms(3) \<open>tx' = tx1\<close> by auto
    ultimately show ?thesis
      by (intro conjI) (simp, simp, rule exI [of _ "[]"], rule exI [of _ "m # ms"], simp add: fun_upd_def)
  qed (use Cons.prems s law assms(3) in auto)
qed

text \<open>Putting updates of different entities back restores exactly their entries.\<close>

lemma foldl_upd:
  "distinct (map mv_entity_id ms) \<Longrightarrow>
    foldl (\<lambda>b r. b(mv_entity_id r \<mapsto> r)) b ms k =
      (case filter (\<lambda>r. mv_entity_id r = k) ms of [] \<Rightarrow> b k | m # _ \<Rightarrow> Some m)"
proof (induction ms arbitrary: b)
  case (Cons m ms)
  have "mv_entity_id m = k \<Longrightarrow> filter (\<lambda>r. mv_entity_id r = k) ms = []"
    using Cons.prems by (simp add: filter_empty_conv image_iff) metis
  with Cons show ?case by (cases "mv_entity_id m = k") (auto split: list.splits)
qed simp

lemma bucket_list_props:
  assumes "outbox_wf ob" and "iterates iter"
  shows "set (bucket_list iter (movement_latest_player ob)) = ran (movement_latest_player ob)"
    and "distinct (map mv_entity_id (bucket_list iter (movement_latest_player ob)))"
proof -
  let ?b = "movement_latest_player ob"
  have it: "set (iter (dom ?b)) = dom ?b" "distinct (iter (dom ?b))"
    using iteratesD [OF assms(2)] assms(1) by (simp_all add: outbox_wf_def)
  show "set (bucket_list iter ?b) = ran ?b"
    unfolding bucket_list_def using it(1) by (force simp: ran_def dom_def image_iff)
  have "map mv_entity_id (bucket_list iter ?b) = iter (dom ?b)"
    unfolding bucket_list_def map_map by (rule map_idI) (use it(1) assms(1) in \<open>auto simp: outbox_wf_def dom_def\<close>)
  with it(2) show "distinct (map mv_entity_id (bucket_list iter ?b))" by simp
qed

lemma bucket_split:
  assumes "outbox_wf ob" and "iterates iter" and "bucket_list iter (movement_latest_player ob) = sent @ unsent"
  shows "foldl (\<lambda>b r. b(mv_entity_id r \<mapsto> r)) (\<lambda>_. None) unsent = (movement_latest_player ob) |` (- mv_entity_id ` set sent)"
    and "\<forall>m\<in>set sent. movement_latest_player ob (mv_entity_id m) = Some m" and "distinct (map mv_entity_id sent)"
proof -
  let ?b = "movement_latest_player ob"
  note props = bucket_list_props [OF assms(1,2), unfolded assms(3)]
  have entry: "?b k = Some m \<longleftrightarrow> m \<in> set sent \<union> set unsent \<and> mv_entity_id m = k" for k m
    using props(1) assms(1) unfolding outbox_wf_def ran_def by auto
  have d: "distinct (map mv_entity_id unsent)" "mv_entity_id ` set sent \<inter> mv_entity_id ` set unsent = {}"
    "distinct (map mv_entity_id sent)" using props(2) by auto
  then show "distinct (map mv_entity_id sent)" by simp
  show "\<forall>m\<in>set sent. ?b (mv_entity_id m) = Some m" using entry by blast
  show "foldl (\<lambda>b r. b(mv_entity_id r \<mapsto> r)) (\<lambda>_. None) unsent = ?b |` (- mv_entity_id ` set sent)"
  proof
    fix k
    show "foldl (\<lambda>b r. b(mv_entity_id r \<mapsto> r)) (\<lambda>_. None) unsent k = (?b |` (- mv_entity_id ` set sent)) k"
    proof (cases "filter (\<lambda>r. mv_entity_id r = k) unsent")
      case Nil
      then have "\<forall>m\<in>set unsent. mv_entity_id m \<noteq> k" by (simp add: filter_empty_conv)
      then have "(?b |` (- mv_entity_id ` set sent)) k = None"
        using entry [of k "the (?b k)"] by (cases "?b k") (auto simp: restrict_map_def)
      then show ?thesis using foldl_upd [OF d(1), of "\<lambda>_. None" k] Nil by simp
    next
      case (Cons m ms)
      then have m: "m \<in> set unsent" "mv_entity_id m = k" by (auto dest!: arg_cong [where f = set])
      then have "k \<notin> mv_entity_id ` set sent" "?b k = Some m" using d(2) entry [of k m] by auto
      then show ?thesis using foldl_upd [OF d(1), of "\<lambda>_. None" k] Cons by (simp add: restrict_map_def)
    qed
  qed
qed

text \<open>
  C37. Flushing loses and repeats nothing: as long as the receiver has not gone away, the channel gets a prefix of
  the reliable events, then movement updates of the bucket, each of them the latest of its entity, then a prefix
  of the remote movement and only once the bucket is empty; exactly the rest stays queued, in order,
  and the counters say how much was sent.
\<close>

theorem outbox_flush_exact:
  assumes "channel_ok try_send accepted closed" and "iterates iter" and "outbox_wf ob"
    and "flush iter try_send tx ob = (stats, ob', tx')" and "\<not> closed tx'"
  shows "\<exists>rel mv rem. accepted tx' = accepted tx @ rel @ map EntityMove (mv @ rem) \<and>
    events ob = rel @ events ob' \<and> movement_remote ob = rem @ movement_remote ob' \<and>
    distinct (map mv_entity_id mv) \<and> (\<forall>m\<in>set mv. movement_latest_player ob (mv_entity_id m) = Some m) \<and>
    movement_latest_player ob' = movement_latest_player ob |` (- mv_entity_id ` set mv) \<and>
    (rem \<noteq> [] \<longrightarrow> movement_latest_player ob' = (\<lambda>_. None)) \<and>
    stats = \<lparr>sent_reliable = length rel, sent_movement = length mv + length rem,
      total_events = length rel + (length mv + length rem)\<rparr>"
proof -
  note ch = assms(1)
  obtain out1 rest1 tx1 r where f1: "flush_reliable try_send tx (events ob) = (out1, rest1, tx1, r)"
    by (cases "flush_reliable try_send tx (events ob)")
  let ?bl = "bucket_list iter (movement_latest_player ob)"
  obtain out2 rest2 tx2 m where f2: "flush_bucket_loop try_send tx1 ?bl = (out2, rest2, tx2, m)"
    by (cases "flush_bucket_loop try_send tx1 ?bl")
  obtain out3 rest3 tx3 k where f3: "flush_remote_loop try_send tx2 (movement_remote ob) = (out3, rest3, tx3, k)"
    by (cases "flush_remote_loop try_send tx2 (movement_remote ob)")
  have end_open: "\<not> closed tx1 \<and> out1 \<noteq> FlushClosed \<and> \<not> closed tx2 \<and> out2 \<noteq> FlushClosed \<and>
      (out2 = FlushComplete \<longrightarrow> \<not> closed tx3 \<and> out3 \<noteq> FlushClosed)"
  proof (cases "out1 = FlushClosed")
    case True
    then have "tx' = tx1" using assms(4) f1 by (simp add: flush_def Let_def)
    then show ?thesis using flush_reliable_sends [OF ch f1] assms(5) True by simp
  next
    case False
    then have "tx' = (if out2 = FlushComplete then tx3 else tx2)"
      using assms(4) f1 f2 f3
      by (auto simp: flush_def Let_def flush_movement_bucket_def flush_remote_movement_queue_def
          split: MovementFlushOutcome.splits)
    then show ?thesis
      using assms(5) flush_remote_sends [OF ch f3] flush_bucket_sends [OF ch f2] flush_reliable_sends [OF ch f1]
      by (auto split: if_splits)
  qed
  obtain rel where rel: "events ob = rel @ rest1" "accepted tx1 = accepted tx @ rel" "r = length rel"
    using flush_reliable_sends [OF ch f1] end_open by blast
  obtain mv unsent where mv: "?bl = mv @ unsent" "rest2 = foldl (\<lambda>b r. b(mv_entity_id r \<mapsto> r)) (\<lambda>_. None) unsent"
    "accepted tx2 = accepted tx1 @ map EntityMove mv" "m = length mv" "out2 = FlushComplete \<longrightarrow> unsent = []"
    using flush_bucket_sends [OF ch f2] end_open by blast
  note split = bucket_split [OF assms(3,2) mv(1)]
  show ?thesis
  proof (cases out2)
    case FlushComplete
    then obtain rem where rem: "movement_remote ob = rem @ rest3" "accepted tx3 = accepted tx2 @ map EntityMove rem" "k = length rem"
      using flush_remote_sends [OF ch f3] end_open by blast
    have "ob' = ob\<lparr>events := rest1, movement_latest_player := rest2, movement_remote := rest3\<rparr>" "tx' = tx3"
      "stats = stats_of r (m + k)"
      using assms(4) f1 f2 f3 end_open FlushComplete
      by (auto simp: flush_def Let_def flush_movement_bucket_def flush_remote_movement_queue_def
          split: MovementFlushOutcome.splits)
    with rel mv rem split FlushComplete show ?thesis
      by (intro exI [of _ rel] exI [of _ mv] exI [of _ rem]) (simp add: stats_of_def)
  next
    case FlushFull
    then have "ob' = ob\<lparr>events := rest1, movement_latest_player := rest2\<rparr>" "tx' = tx2" "stats = stats_of r m"
      using assms(4) f1 f2 end_open by (auto simp: flush_def Let_def flush_movement_bucket_def)
    with rel mv split show ?thesis
      by (intro exI [of _ rel] exI [of _ mv] exI [of _ "[]"]) (simp add: stats_of_def)
  qed (use end_open in simp)
qed

definition pending_for :: "('e, 'p) PlayerOutbox \<Rightarrow> EntityId \<Rightarrow> 'p MovementEvent list" where
  "pending_for ob k = (case movement_latest_player ob k of None \<Rightarrow> [] | Some m \<Rightarrow> [m]) @
    filter (\<lambda>m. mv_entity_id m = k) (movement_remote ob)"

text \<open>
  Coalescing: a prioritised update leaves itself as the only pending movement of its entity, an update
  without priority takes the entity out of the bucket and ends the remote queue, an immediate repetition is
  not queued twice, and the pending movements of all other entities stay as they are, in order.
\<close>

theorem outbox_coalesces:
  assumes "pos_eq (mv_position m) (mv_position m)"
  shows "pending_for (set_latest_movement_with_priority pos_eq ob m True) k =
      (if k = mv_entity_id m then [m] else pending_for ob k) \<and>
    (let ob' = set_latest_movement_with_priority pos_eq ob m False in
      movement_latest_player ob' (mv_entity_id m) = None \<and> movement_remote ob' \<noteq> [] \<and>
      movement_eq pos_eq (last (movement_remote ob')) m \<and> pending_for ob' k =
        (if k = mv_entity_id m then filter (\<lambda>q. mv_entity_id q = k) (movement_remote ob') else pending_for ob k) \<and>
      push_remote_movement pos_eq ob' m = ob')"
proof
  have filters: "filter (\<lambda>q. mv_entity_id q = k) (filter (\<lambda>q. mv_entity_id q \<noteq> mv_entity_id m) qs) =
      (if k = mv_entity_id m then [] else filter (\<lambda>q. mv_entity_id q = k) qs)" for qs :: "'a MovementEvent list"
    by (induction qs) auto
  show "pending_for (set_latest_movement_with_priority pos_eq ob m True) k =
      (if k = mv_entity_id m then [m] else pending_for ob k)"
    by (simp add: set_latest_movement_with_priority_def pending_for_def filters del: filter_filter)
  have refl: "movement_eq pos_eq m m" using assms by (simp add: movement_eq_def)
  show "let ob' = set_latest_movement_with_priority pos_eq ob m False in
      movement_latest_player ob' (mv_entity_id m) = None \<and> movement_remote ob' \<noteq> [] \<and>
      movement_eq pos_eq (last (movement_remote ob')) m \<and> pending_for ob' k =
        (if k = mv_entity_id m then filter (\<lambda>q. mv_entity_id q = k) (movement_remote ob') else pending_for ob k) \<and>
      push_remote_movement pos_eq ob' m = ob'"
    using refl by (simp add: set_latest_movement_with_priority_def push_remote_movement_def
        push_remote_movement_update_def pending_for_def Let_def)
qed

section \<open>Examples\<close>

text \<open>A channel of bounded capacity that nobody reads, as in a test.\<close>

definition bounded_send :: "nat \<Rightarrow> ('e, 'p, ('e, 'p) PlayerEvent list) channel" where
  "bounded_send cap q e = (if length q < cap then (Sent, q @ [e]) else (Full, q))"

lemma bounded_channel_ok: "channel_ok (bounded_send cap) (\<lambda>q. q) (\<lambda>_. False)"
  by (simp add: channel_ok_def bounded_send_def)

definition step_of :: "EntityId \<Rightarrow> u32 \<Rightarrow> nat MovementEvent" where
  "step_of e ts = \<lparr>mv_entity_id = e, mv_kind = Move, mv_arg = 0, mv_facing = 0, mv_position = 1, mv_client_ts = ts, mv_duration = 80\<rparr>"

definition example_outbox :: "(string, nat) PlayerOutbox" where
  "example_outbox = set_latest_movement_with_priority (=)
     (push_reliable outbox_new (OtherEvent ''chat'')) (step_of 101 1000) True"

theorem outbox_flush_exact_witness:
  "\<exists>rel mv rem. snd (snd (flush sorted_list_of_set (bounded_send 1) [] example_outbox)) = rel @ map EntityMove (mv @ rem) \<and>
    events example_outbox = rel @ events (fst (snd (flush sorted_list_of_set (bounded_send 1) [] example_outbox)))"
proof -
  have w: "outbox_wf example_outbox"
    by (auto simp: outbox_wf_def example_outbox_def set_latest_movement_with_priority_def push_reliable_def outbox_new_def step_of_def)
  obtain stats ob' tx' where f: "flush sorted_list_of_set (bounded_send 1) [] example_outbox = (stats, ob', tx')"
    by (cases "flush sorted_list_of_set (bounded_send 1) [] example_outbox")
  show ?thesis using outbox_flush_exact [OF bounded_channel_ok iterates_sorted w f] f by auto
qed

theorem outbox_coalesces_witness:
  "pending_for (set_latest_movement_with_priority (=) example_outbox (step_of 101 2000) True) 101 = [step_of 101 2000]"
  using outbox_coalesces [of "(=)" "step_of 101 2000" example_outbox 101] by (simp add: step_of_def)

end
