(* ===== verification/Token.thy ===== *)
theory Token
  imports Wire_Format
begin

text \<open>
  Login tokens (\<^verbatim>\<open>zohar-protocol/src/token.rs\<close>): the authentication server issues a 32-bit token bound to the
  user name, the client key and a time slot, and the game server accepts the tokens of the current slot
  and its two neighbours.  HMAC-SHA256 is code of other packages: it is the argument \<open>mac\<close>, from a secret and a
  message to the digest, and no property of it is assumed.  The system clock is the argument \<open>now\<close>, in
  nanoseconds since the Unix epoch.
\<close>

type_synonym mac = "u8 list \<Rightarrow> u8 list \<Rightarrow> u8 list"

record TokenSigner =
  signer_secret :: "u8 list"
  signer_window :: duration

definition as_secs :: "duration \<Rightarrow> u64" where
  "as_secs d = d div 1000000000"

definition signer_new :: "u8 list \<Rightarrow> duration \<Rightarrow> TokenSigner" where
  "signer_new secret window = \<lparr>signer_secret = secret, signer_window = (if window = 0 then from_secs 1 else window)\<rparr>"

text \<open>A clock before the epoch counts as the epoch (\<^verbatim>\<open>unwrap_or_default\<close>).\<close>

definition current_slot :: "int \<Rightarrow> duration \<Rightarrow> u64" where
  "current_slot now window = as_secs (max 0 now) div max (as_secs window) 1"

definition token_for_slot :: "mac \<Rightarrow> u8 list \<Rightarrow> u8 list \<Rightarrow> u8 list \<Rightarrow> u64 \<Rightarrow> u32" where
  "token_for_slot mac secret username enc_key slot =
    le_value (take 4 (mac secret (username @ enc_key @ le_bytes 8 slot)))"

definition issue :: "mac \<Rightarrow> TokenSigner \<Rightarrow> int \<Rightarrow> u8 list \<Rightarrow> u8 list \<Rightarrow> u32" where
  "issue mac signer now username enc_key =
    token_for_slot mac (signer_secret signer) username enc_key (current_slot now (signer_window signer))"

definition verify :: "mac \<Rightarrow> TokenSigner \<Rightarrow> int \<Rightarrow> u8 list \<Rightarrow> u8 list \<Rightarrow> u32 \<Rightarrow> bool" where
  "verify mac signer now username enc_key token =
    (let slot = current_slot now (signer_window signer);
         current = token_for_slot mac (signer_secret signer) username enc_key slot
     in if token = current then True
        else if 0 < slot \<and> token = token_for_slot mac (signer_secret signer) username enc_key (slot - 1) then True
        else token = token_for_slot mac (signer_secret signer) username enc_key (wrap_u 64 (slot + 1)))"

section \<open>How long a token is good for\<close>

text \<open>The window in whole seconds.\<close>

definition window_secs :: "TokenSigner \<Rightarrow> int" where
  "window_secs signer = max (as_secs (signer_window signer)) 1"

text \<open>A clock of the supported range: a number of seconds that fits the \<open>u64\<close> of the source with room for one slot.\<close>

definition clock_ok :: "int \<Rightarrow> bool" where
  "clock_ok now \<longleftrightarrow> 0 \<le> now \<and> as_secs now < 2 ^ 63"

lemma slot_bounds:
  assumes "clock_ok now"
  shows "current_slot now (signer_window s) = as_secs now div window_secs s"
    and "0 \<le> current_slot now (signer_window s)" and "current_slot now (signer_window s) < 2 ^ 63"
proof -
  show eq: "current_slot now (signer_window s) = as_secs now div window_secs s"
    using assms by (simp add: current_slot_def window_secs_def clock_ok_def)
  have n: "0 \<le> as_secs now" "as_secs now < 2 ^ 63" "0 < window_secs s"
    using assms by (simp_all add: clock_ok_def as_secs_def window_secs_def pos_imp_zdiv_nonneg_iff)
  then show "0 \<le> current_slot now (signer_window s)" by (simp add: eq pos_imp_zdiv_nonneg_iff)
  have "as_secs now div window_secs s \<le> as_secs now" using n by (simp add: int_div_le_self)
  with n show "current_slot now (signer_window s) < 2 ^ 63" by (simp add: eq)
qed

lemma verify_iff:
  assumes "clock_ok now"
  shows "verify mac s now username enc_key token \<longleftrightarrow>
    (\<exists>slot\<ge>0. \<bar>slot - current_slot now (signer_window s)\<bar> \<le> 1 \<and>
      token = token_for_slot mac (signer_secret s) username enc_key slot)"
proof -
  let ?n = "current_slot now (signer_window s)"
  let ?t = "token_for_slot mac (signer_secret s) username enc_key"
  have n: "0 \<le> ?n" "wrap_u 64 (?n + 1) = ?n + 1"
    using slot_bounds [OF assms, of s] by (simp_all add: wrap_u_def)
  have near: "0 \<le> slot \<and> \<bar>slot - ?n\<bar> \<le> 1 \<longleftrightarrow> slot = ?n \<or> slot = ?n + 1 \<or> (0 < ?n \<and> slot = ?n - 1)" for slot
    using n(1) by auto
  have "verify mac s now username enc_key token \<longleftrightarrow> token = ?t ?n \<or> token = ?t (?n + 1) \<or> (0 < ?n \<and> token = ?t (?n - 1))"
    unfolding verify_def Let_def n(2) by auto
  also have "\<dots> \<longleftrightarrow> (\<exists>slot. (0 \<le> slot \<and> \<bar>slot - ?n\<bar> \<le> 1) \<and> token = ?t slot)" unfolding near by blast
  finally show ?thesis by auto
qed

lemma div_near:
  fixes a b w :: int
  assumes "0 < w" and "\<bar>a - b\<bar> \<le> w"
  shows "\<bar>a div w - b div w\<bar> \<le> 1"
proof -
  have "a div w \<le> (b + w) div w" "b div w \<le> (a + w) div w"
    using assms by (auto intro: zdiv_mono1)
  moreover have "(b + w) div w = b div w + 1" "(a + w) div w = a div w + 1"
    using assms(1) by (simp_all add: div_add_self2)
  ultimately show ?thesis by linarith
qed

lemma div_apart:
  fixes a b w :: int
  assumes "0 < w" and "2 * w \<le> \<bar>a - b\<bar>"
  shows "2 \<le> \<bar>a div w - b div w\<bar>"
proof -
  have "2 \<le> x div w - y div w" if "y + 2 * w \<le> x" for x y
  proof -
    have "(y + 2 * w) div w \<le> x div w" using that assms(1) by (intro zdiv_mono1)
    moreover have "(y + 2 * w) div w = y div w + 2" using assms(1) by simp
    ultimately show ?thesis by simp
  qed
  from this [of a b] this [of b a] show ?thesis using assms(2) by linarith
qed

text \<open>
  C38. The life of a login token.  A token issued at one time is accepted, for the same user and key, at every time
  at most one window away, so servers whose clocks differ by up to a window understand each other.  Two windows or more
  away it is refused, unless the keyed hash, cut to 32 bits, collides: one of the at most three slots the checking server
  accepts, none of them the slot of issue, must give the very same token.  The messages hashed for the two slots differ.
\<close>

theorem token_window:
  fixes mac :: mac and s :: TokenSigner and username enc_key :: "u8 list" and issued checked :: int
  assumes "clock_ok issued" and "clock_ok checked"
  defines "t \<equiv> token_for_slot mac (signer_secret s) username enc_key"
    and "i \<equiv> current_slot issued (signer_window s)" and "c \<equiv> current_slot checked (signer_window s)"
  shows "(\<bar>as_secs issued - as_secs checked\<bar> \<le> window_secs s \<longrightarrow>
      verify mac s checked username enc_key (issue mac s issued username enc_key)) \<and>
    (2 * window_secs s \<le> \<bar>as_secs issued - as_secs checked\<bar> \<longrightarrow>
      (verify mac s checked username enc_key (issue mac s issued username enc_key) \<longleftrightarrow>
        (\<exists>slot. \<bar>slot - c\<bar> \<le> 1 \<and> 0 \<le> slot \<and> slot < 2 ^ 64 \<and> slot \<noteq> i \<and> le_bytes 8 slot \<noteq> le_bytes 8 i \<and> t slot = t i)))"
proof (intro conjI impI)
  have w: "0 < window_secs s" by (simp add: window_secs_def)
  have i: "i = as_secs issued div window_secs s" "0 \<le> i" "i < 2 ^ 63"
    and c: "c = as_secs checked div window_secs s" "0 \<le> c" "c < 2 ^ 63"
    unfolding i_def c_def using slot_bounds [OF assms(1), of s] slot_bounds [OF assms(2), of s] by simp_all
  have v: "verify mac s checked username enc_key (issue mac s issued username enc_key) \<longleftrightarrow>
      (\<exists>slot\<ge>0. \<bar>slot - c\<bar> \<le> 1 \<and> t i = t slot)"
    unfolding verify_iff [OF assms(2)] issue_def t_def i_def c_def by simp
  show "verify mac s checked username enc_key (issue mac s issued username enc_key)"
    if near: "\<bar>as_secs issued - as_secs checked\<bar> \<le> window_secs s"
    unfolding v using div_near [OF w near] i c by auto
  assume far: "2 * window_secs s \<le> \<bar>as_secs issued - as_secs checked\<bar>"
  have apart: "2 \<le> \<bar>i - c\<bar>" using div_apart [OF w far] by (simp add: i c)
  have bytes: "le_bytes 8 slot \<noteq> le_bytes 8 i" if "\<bar>slot - c\<bar> \<le> 1" "0 \<le> slot" for slot
  proof
    assume eq: "le_bytes 8 slot = le_bytes 8 i"
    have "slot < 2 ^ 64" using that c(3) by simp
    then have "slot = i" using arg_cong [OF eq, of le_value] i(2,3) that(2) by (simp add: le_value_bytes)
    then show False using apart that(1) by simp
  qed
  have "slot < 2 ^ 64" "slot \<noteq> i" if "\<bar>slot - c\<bar> \<le> 1" for slot using that apart c(3) by auto
  then show "verify mac s checked username enc_key (issue mac s issued username enc_key) \<longleftrightarrow>
      (\<exists>slot. \<bar>slot - c\<bar> \<le> 1 \<and> 0 \<le> slot \<and> slot < 2 ^ 64 \<and> slot \<noteq> i \<and> le_bytes 8 slot \<noteq> le_bytes 8 i \<and> t slot = t i)"
    unfolding v using bytes by metis
qed

text \<open>A keyed hash to try the functions on: the sum of the bytes.\<close>

definition sum_mac :: mac where "sum_mac secret message = le_bytes 32 (sum_list secret + sum_list message)"

text \<open>A token is accepted 29 seconds later and refused 100 seconds later, with a window of 30 seconds.\<close>

theorem token_window_witness:
  "verify sum_mac (signer_new [7] (from_secs 30)) (from_secs 1000) [65, 66] [1, 2]
     (issue sum_mac (signer_new [7] (from_secs 30)) (from_secs 1029) [65, 66] [1, 2]) \<and>
   \<not> verify sum_mac (signer_new [7] (from_secs 30)) (from_secs 1100) [65, 66] [1, 2]
     (issue sum_mac (signer_new [7] (from_secs 30)) (from_secs 1000) [65, 66] [1, 2])"
proof
  let ?s = "signer_new [7] (from_secs 30)"
  show "verify sum_mac ?s (from_secs 1000) [65, 66] [1, 2] (issue sum_mac ?s (from_secs 1029) [65, 66] [1, 2])"
    using token_window [of "from_secs 1029" "from_secs 1000" ?s sum_mac "[65, 66]" "[1, 2]"]
    by (simp add: clock_ok_def as_secs_def from_secs_def window_secs_def signer_new_def)
  have slots: "current_slot (from_secs 1000) (signer_window ?s) = 33" "current_slot (from_secs 1100) (signer_window ?s) = 36"
    by (simp_all add: current_slot_def as_secs_def from_secs_def signer_new_def)
  have "token_for_slot sum_mac (signer_secret ?s) [65, 66] [1, 2] slot \<noteq> token_for_slot sum_mac (signer_secret ?s) [65, 66] [1, 2] 33"
    if "\<bar>slot - 36\<bar> \<le> 1" for slot
  proof -
    have "slot = 35 \<or> slot = 36 \<or> slot = 37" using that by arith
    moreover have "token_for_slot sum_mac (signer_secret ?s) [65, 66] [1, 2] 35 \<noteq> token_for_slot sum_mac (signer_secret ?s) [65, 66] [1, 2] 33"
      "token_for_slot sum_mac (signer_secret ?s) [65, 66] [1, 2] 36 \<noteq> token_for_slot sum_mac (signer_secret ?s) [65, 66] [1, 2] 33"
      "token_for_slot sum_mac (signer_secret ?s) [65, 66] [1, 2] 37 \<noteq> token_for_slot sum_mac (signer_secret ?s) [65, 66] [1, 2] 33"
      by code_simp+
    ultimately show ?thesis by blast
  qed
  then show "\<not> verify sum_mac ?s (from_secs 1100) [65, 66] [1, 2] (issue sum_mac ?s (from_secs 1000) [65, 66] [1, 2])"
    using token_window [of "from_secs 1000" "from_secs 1100" ?s sum_mac "[65, 66]" "[1, 2]"]
    unfolding slots by (auto simp: clock_ok_def as_secs_def from_secs_def window_secs_def signer_new_def)
qed

end
