(* ===== verification/Wire_Combinators.thy ===== *)
theory Wire_Combinators
  imports Auth_Packets
begin

text \<open>
  Declarative wire formats.  The packet types of \<^verbatim>\<open>zohar-protocol/src/game_pkt\<close> are declared with the \<^verbatim>\<open>binrw\<close>
  derive macros: a struct is the sequence of its fields, a field-less enum its discriminant, an enum with
  \<^verbatim>\<open>magic\<close> opcodes a list of variants tried in order, \<^verbatim>\<open>bw(calc = 0)\<close> and padding are bytes that are written as
  zero and ignored when read.  Each of these constructs is a combinator on formats here, and each
  combinator keeps the contract \<open>wire_format\<close>; the laws are collected in \<open>wire_laws\<close>, so that the
  contract of a packet follows from its declaration.  The generic wire types of \<^verbatim>\<open>game_pkt.rs\<close> are at the end.
\<close>

named_theorems wire_laws \<open>every format combinator keeps the wire contract\<close>

record ('c, 'a) fmt =
  fmt_ok :: "'a \<Rightarrow> bool"
  fmt_rd :: "('c, 'a) reader"
  fmt_wr :: "'a \<Rightarrow> u8 list"

definition fmt_law :: "('c, 'a) fmt \<Rightarrow> bool" where
  "fmt_law f \<longleftrightarrow> wire_format (fmt_ok f) (fmt_rd f) (fmt_wr f)"

section \<open>Fields\<close>

definition unit_fmt :: "('c, unit) fmt" where
  "unit_fmt = \<lparr>fmt_ok = (\<lambda>_. True), fmt_rd = rpure (), fmt_wr = (\<lambda>_. [])\<rparr>"

definition uint_fmt :: "nat \<Rightarrow> ('c, int) fmt" where
  "uint_fmt n = \<lparr>fmt_ok = (\<lambda>v. 0 \<le> v \<and> v < 256 ^ n),
     fmt_rd = rbind (read_exact n) (\<lambda>bs. rpure (le_value bs)), fmt_wr = le_bytes n\<rparr>"

definition sint_fmt :: "nat \<Rightarrow> ('c, int) fmt" where
  "sint_fmt n = \<lparr>fmt_ok = in_s (8 * n),
     fmt_rd = rbind (read_exact n) (\<lambda>bs. rpure (wrap_s (8 * n) (le_value bs))), fmt_wr = le_bytes n\<rparr>"

abbreviation u8_fmt :: "('c, u8) fmt" where "u8_fmt \<equiv> uint_fmt 1"
abbreviation u16_fmt :: "('c, int) fmt" where "u16_fmt \<equiv> uint_fmt 2"
abbreviation u32_fmt :: "('c, u32) fmt" where "u32_fmt \<equiv> uint_fmt 4"
abbreviation u64_fmt :: "('c, u64) fmt" where "u64_fmt \<equiv> uint_fmt 8"
abbreviation i16_fmt :: "('c, int) fmt" where "i16_fmt \<equiv> sint_fmt 2"
abbreviation i32_fmt :: "('c, i32) fmt" where "i32_fmt \<equiv> sint_fmt 4"

text \<open>\<^verbatim>\<open>[u8; n]\<close>.\<close>

definition bytes_fmt :: "nat \<Rightarrow> ('c, u8 list) fmt" where
  "bytes_fmt n = \<lparr>fmt_ok = (\<lambda>bs. length bs = n), fmt_rd = read_exact n, fmt_wr = (\<lambda>bs. bs)\<rparr>"

text \<open>\<^verbatim>\<open>#[bw(calc = 0)]\<close> fields and \<^verbatim>\<open>pad_before\<close>: written as zeros, ignored when read.\<close>

definition reserved_fmt :: "nat \<Rightarrow> ('c, unit) fmt" where
  "reserved_fmt n = \<lparr>fmt_ok = (\<lambda>_. True), fmt_rd = rbind (read_exact n) (\<lambda>_. rpure ()), fmt_wr = (\<lambda>_. replicate n 0)\<rparr>"

definition pair_fmt :: "('c, 'a) fmt \<Rightarrow> ('c, 'b) fmt \<Rightarrow> ('c, 'a \<times> 'b) fmt" where
  "pair_fmt f g =
    \<lparr>fmt_ok = (\<lambda>(a, b). fmt_ok f a \<and> fmt_ok g b),
     fmt_rd = rbind (fmt_rd f) (\<lambda>a. rbind (fmt_rd g) (\<lambda>b. rpure (a, b))),
     fmt_wr = (\<lambda>(a, b). fmt_wr f a @ fmt_wr g b)\<rparr>"

text \<open>A value built from the field values, and taken apart again for writing.\<close>

definition map_fmt :: "('x \<Rightarrow> 'a) \<Rightarrow> ('a \<Rightarrow> 'x) \<Rightarrow> ('c, 'x) fmt \<Rightarrow> ('c, 'a) fmt" where
  "map_fmt mk un f =
    \<lparr>fmt_ok = (\<lambda>a. fmt_ok f (un a) \<and> mk (un a) = a),
     fmt_rd = rbind (fmt_rd f) (\<lambda>x. rpure (mk x)), fmt_wr = (\<lambda>a. fmt_wr f (un a))\<rparr>"

text \<open>\<^verbatim>\<open>try_map\<close>: a field whose value may be rejected after reading, with a custom error.\<close>

definition try_map_fmt :: "'c \<Rightarrow> ('x \<Rightarrow> 'a option) \<Rightarrow> ('a \<Rightarrow> 'x) \<Rightarrow> ('c, 'x) fmt \<Rightarrow> ('c, 'a) fmt" where
  "try_map_fmt err mk un f =
    \<lparr>fmt_ok = (\<lambda>a. fmt_ok f (un a) \<and> mk (un a) = Some a),
     fmt_rd = rbind (fmt_rd f) (\<lambda>x. case mk x of Some a \<Rightarrow> rpure a | None \<Rightarrow> rfail (CustomError err)),
     fmt_wr = (\<lambda>a. fmt_wr f (un a))\<rparr>"

text \<open>\<^verbatim>\<open>#[brw(repr = u8)]\<close>: a field-less enum is its discriminant.\<close>

definition code_of :: "(u8 \<times> 'a) list \<Rightarrow> 'a \<Rightarrow> u8" where
  "code_of table a = (case find (\<lambda>(c, b). b = a) table of Some (c, _) \<Rightarrow> c | None \<Rightarrow> 0)"

definition repr_fmt :: "(u8 \<times> 'a) list \<Rightarrow> ('c, 'a) fmt" where
  "repr_fmt table =
    \<lparr>fmt_ok = (\<lambda>a. a \<in> snd ` set table \<and> map_of table (code_of table a) = Some a),
     fmt_rd = rbind read_u8 (\<lambda>c. case map_of table c of Some a \<Rightarrow> rpure a | None \<Rightarrow> rfail NoVariantMatch),
     fmt_wr = (\<lambda>a. [code_of table a])\<rparr>"

text \<open>\<^verbatim>\<open>[T; n]\<close>, and \<^verbatim>\<open>#[br(count = size)] Vec<T>\<close> behind a computed \<^verbatim>\<open>u32\<close> size.\<close>

fun read_many :: "nat \<Rightarrow> ('c, 'a) reader \<Rightarrow> ('c, 'a list) reader" where
  "read_many 0 rd = rpure []"
| "read_many (Suc n) rd = rbind rd (\<lambda>a. rbind (read_many n rd) (\<lambda>as. rpure (a # as)))"

definition array_fmt :: "nat \<Rightarrow> ('c, 'a) fmt \<Rightarrow> ('c, 'a list) fmt" where
  "array_fmt n f =
    \<lparr>fmt_ok = (\<lambda>as. length as = n \<and> list_all (fmt_ok f) as), fmt_rd = read_many n (fmt_rd f),
     fmt_wr = (\<lambda>as. concat (map (fmt_wr f) as))\<rparr>"

definition counted_fmt :: "('c, 'a) fmt \<Rightarrow> ('c, 'a list) fmt" where
  "counted_fmt f =
    \<lparr>fmt_ok = (\<lambda>as. int (length as) < 256 ^ 4 \<and> list_all (fmt_ok f) as),
     fmt_rd = rbind read_u32 (\<lambda>size. read_many (nat size) (fmt_rd f)),
     fmt_wr = (\<lambda>as. write_u32 (wrap_u 32 (int (length as))) @ concat (map (fmt_wr f) as))\<rparr>"

text \<open>
  A byte vector whose \<^verbatim>\<open>u16\<close> size, written
  before the other fields, counts the header as well: the size is truncated to 16 bits when written and
  \<^verbatim>\<open>size.saturating_sub(header)\<close> bytes are read.
\<close>

definition sized_fmt :: "nat \<Rightarrow> ('c, 'a) fmt \<Rightarrow> ('c, 'a \<times> u8 list) fmt" where
  "sized_fmt hlen f =
    \<lparr>fmt_ok = (\<lambda>(a, message). fmt_ok f a \<and> length message + hlen < 65536),
     fmt_rd = rbind (fmt_rd u16_fmt) (\<lambda>size. fmt_rd (pair_fmt f (bytes_fmt (nat (max 0 (size - int hlen)))))),
     fmt_wr = (\<lambda>(a, message). le_bytes 2 (wrap_u 16 (int (length message + hlen))) @ fmt_wr f a @ message)\<rparr>"

text \<open>A field-less enum kept as its discriminant: only the listed values are read.\<close>

definition discriminant_fmt :: "u8 list \<Rightarrow> ('c, u8) fmt" where
  "discriminant_fmt codes =
    \<lparr>fmt_ok = (\<lambda>c. c \<in> set codes),
     fmt_rd = rbind read_u8 (\<lambda>c. if c \<in> set codes then rpure c else rfail NoVariantMatch), fmt_wr = (\<lambda>c. [c])\<rparr>"

section \<open>Enums with opcodes\<close>

text \<open>A variant: its magic byte, whether a value is of this variant, and the format of what follows the magic.\<close>

type_synonym ('c, 'a) variant = "u8 \<times> ('a \<Rightarrow> bool) \<times> ('c, 'a) fmt"

definition read_variant :: "('c, 'a) variant \<Rightarrow> ('c, 'a) reader" where
  "read_variant v = rbind read_u8 (\<lambda>b. if b = fst v then fmt_rd (snd (snd v)) else rfail (BadMagic 0))"

text \<open>The variants are tried in order; if none matches, the errors of all of them are returned.\<close>

fun try_variants :: "('c, 'a) variant list \<Rightarrow> u8 list \<Rightarrow> 'c BinError list + ('a \<times> u8 list)" where
  "try_variants [] bs = Inl []"
| "try_variants (v # vs) bs =
    (case read_variant v bs of
       Inr r \<Rightarrow> Inr r
     | Inl e \<Rightarrow> (case try_variants vs bs of Inr r \<Rightarrow> Inr r | Inl es \<Rightarrow> Inl (e # es)))"

definition variant_of :: "('c, 'a) variant list \<Rightarrow> 'a \<Rightarrow> ('c, 'a) variant option" where
  "variant_of vs a = find (\<lambda>v. fst (snd v) a) vs"

definition enum_fmt :: "('c, 'a) variant list \<Rightarrow> ('c, 'a) fmt" where
  "enum_fmt vs =
    \<lparr>fmt_ok = (\<lambda>a. case variant_of vs a of Some (m, _, f) \<Rightarrow> fmt_ok f a | None \<Rightarrow> False),
     fmt_rd = (\<lambda>bs. case try_variants vs bs of Inr r \<Rightarrow> Inr r | Inl es \<Rightarrow> Inl (EnumErrors es)),
     fmt_wr = (\<lambda>a. case variant_of vs a of Some (m, _, f) \<Rightarrow> m # fmt_wr f a | None \<Rightarrow> [])\<rparr>"

text \<open>\<^verbatim>\<open>route_packets!\<close>: opcodes, whether a value takes this route, and the format of the routed packet.\<close>

type_synonym ('c, 'a) route = "u8 list \<times> ('a \<Rightarrow> bool) \<times> ('c, 'a) fmt"

definition route_table :: "('c, 'a) route list \<Rightarrow> u8 \<Rightarrow> ('c, 'a) reader option" where
  "route_table rs opcode =
    map_option (\<lambda>r. fmt_rd (snd (snd r))) (find (\<lambda>r. opcode \<in> set (fst r)) rs)"

definition route_fmt :: "('c, 'a) route list \<Rightarrow> ('c, 'a) fmt" where
  "route_fmt rs =
    \<lparr>fmt_ok = (\<lambda>a. case find (\<lambda>r. fst (snd r) a) rs of Some (_, _, f) \<Rightarrow> fmt_ok f a | None \<Rightarrow> False),
     fmt_rd = route_read (route_table rs),
     fmt_wr = (\<lambda>a. case find (\<lambda>r. fst (snd r) a) rs of Some (_, _, f) \<Rightarrow> fmt_wr f a | None \<Rightarrow> [])\<rparr>"

section \<open>The laws\<close>

lemmas fmt_law_defs = fmt_law_def unit_fmt_def uint_fmt_def sint_fmt_def bytes_fmt_def reserved_fmt_def

lemma fmt_lawI:
  assumes "\<And>a rest. fmt_ok f a \<Longrightarrow> fmt_rd f (fmt_wr f a @ rest) = Inr (a, rest)"
    and "\<And>a k. fmt_ok f a \<Longrightarrow> k < length (fmt_wr f a) \<Longrightarrow> ends_early (fmt_rd f (take k (fmt_wr f a)))"
  shows "fmt_law f"
  unfolding fmt_law_def by unfold_locales (use assms in blast)+

lemma fmt_law_read: "fmt_law f \<Longrightarrow> fmt_ok f a \<Longrightarrow> fmt_rd f (fmt_wr f a @ rest) = Inr (a, rest)"
  unfolding fmt_law_def by (rule wire_format.read_written)

lemma fmt_law_short: "fmt_law f \<Longrightarrow> fmt_ok f a \<Longrightarrow> k < length (fmt_wr f a) \<Longrightarrow> ends_early (fmt_rd f (take k (fmt_wr f a)))"
  unfolding fmt_law_def by (rule wire_format.read_short)

lemma unit_law [wire_laws]: "fmt_law unit_fmt"
  by (rule fmt_lawI) (simp_all add: unit_fmt_def rpure_def)

lemma uint_law [wire_laws]: "fmt_law (uint_fmt n)"
  unfolding fmt_law_defs by simp (rule wire_format_map_exact, simp add: le_value_bytes)

lemma wrap_s_mod: "0 < n \<Longrightarrow> in_s n v \<Longrightarrow> wrap_s n (v mod 2 ^ n) = v"
  using wrap_s_id [of n v] unfolding wrap_s_def by (simp add: mod_simps)

lemma sint_law [wire_laws]: "0 < n \<Longrightarrow> fmt_law (sint_fmt n)"
proof -
  assume n: "0 < n"
  have "(256 :: int) ^ n = 2 ^ (8 * n)" by (simp add: power_mult)
  then show ?thesis
    unfolding fmt_law_defs using n
    by simp (rule wire_format_map_exact, simp add: le_value_bytes wrap_s_mod)
qed

lemma bytes_law [wire_laws]: "fmt_law (bytes_fmt n)"
  unfolding fmt_law_defs by (simp add: wire_format_exact)

lemma reserved_law [wire_laws]: "fmt_law (reserved_fmt n)"
  unfolding fmt_law_defs by simp (rule wire_format_map_exact, simp)

lemma pair_law [wire_laws]:
  assumes "fmt_law f" and "fmt_law g"
  shows "fmt_law (pair_fmt f g)"
proof (rule fmt_lawI)
  show "fmt_rd (pair_fmt f g) (fmt_wr (pair_fmt f g) a @ rest) = Inr (a, rest)" if "fmt_ok (pair_fmt f g) a" for a rest
    using that fmt_law_read [OF assms(1)] fmt_law_read [OF assms(2)]
    by (cases a) (simp add: pair_fmt_def rbind_def rpure_def)
  show "ends_early (fmt_rd (pair_fmt f g) (take k (fmt_wr (pair_fmt f g) a)))"
    if "fmt_ok (pair_fmt f g) a" "k < length (fmt_wr (pair_fmt f g) a)" for a k
  proof (cases a)
    case (Pair x y)
    then have x: "fmt_ok f x" and y: "fmt_ok g y" using that(1) by (simp_all add: pair_fmt_def)
    show ?thesis
    proof (cases "k < length (fmt_wr f x)")
      case True
      then show ?thesis using fmt_law_short [OF assms(1) x] by (simp add: pair_fmt_def Pair ends_early_rbind)
    next
      case False
      let ?j = "k - length (fmt_wr f x)"
      have "ends_early (fmt_rd g (take ?j (fmt_wr g y)))"
        using False that(2) fmt_law_short [OF assms(2) y, of ?j] by (simp add: pair_fmt_def Pair)
      then have "ends_early (rbind (fmt_rd g) (\<lambda>b. rpure (x, b)) (take ?j (fmt_wr g y)))" by (rule ends_early_rbind)
      then show ?thesis using False fmt_law_read [OF assms(1) x] by (simp add: pair_fmt_def Pair rbind_def)
    qed
  qed
qed

lemma map_law [wire_laws]: "fmt_law f \<Longrightarrow> fmt_law (map_fmt mk un f)"
  by (rule fmt_lawI)
    (auto simp: map_fmt_def rbind_def rpure_def fmt_law_read intro: ends_early_rbind [unfolded rbind_def] fmt_law_short)

lemma try_map_law [wire_laws]: "fmt_law f \<Longrightarrow> fmt_law (try_map_fmt err mk un f)"
  by (rule fmt_lawI)
    (auto simp: try_map_fmt_def rbind_def rpure_def fmt_law_read intro: ends_early_rbind [unfolded rbind_def] fmt_law_short)

lemma repr_law [wire_laws]: "fmt_law (repr_fmt table)"
  by (rule fmt_lawI) (auto simp: repr_fmt_def rbind_def rpure_def read_u8_def)

lemma read_many_all:
  assumes "fmt_law f" and "list_all (fmt_ok f) as"
  shows "read_many (length as) (fmt_rd f) (concat (map (fmt_wr f) as) @ rest) = Inr (as, rest)"
  using assms(2) by (induction as arbitrary: rest) (simp_all add: rbind_def rpure_def fmt_law_read [OF assms(1)])

lemma read_many_short:
  assumes "fmt_law f" and "list_all (fmt_ok f) as" and "k < length (concat (map (fmt_wr f) as))"
  shows "ends_early (read_many (length as) (fmt_rd f) (take k (concat (map (fmt_wr f) as))))"
  using assms(2,3)
proof (induction as arbitrary: k)
  case (Cons a as)
  show ?case
  proof (cases "k < length (fmt_wr f a)")
    case True
    then show ?thesis using fmt_law_short [OF assms(1), of a k] Cons.prems by (simp add: ends_early_rbind)
  next
    case False
    let ?j = "k - length (fmt_wr f a)"
    have "ends_early (read_many (length as) (fmt_rd f) (take ?j (concat (map (fmt_wr f) as))))"
      using Cons False by simp
    then have "ends_early (rbind (read_many (length as) (fmt_rd f)) (\<lambda>as. rpure (a # as)) (take ?j (concat (map (fmt_wr f) as))))"
      by (rule ends_early_rbind)
    then show ?thesis using False Cons.prems fmt_law_read [OF assms(1), of a] by (simp add: rbind_def)
  qed
qed simp

lemma array_law [wire_laws]: "fmt_law f \<Longrightarrow> fmt_law (array_fmt n f)"
  by (rule fmt_lawI) (auto simp: array_fmt_def read_many_all read_many_short)

lemma counted_law [wire_laws]:
  assumes "fmt_law f"
  shows "fmt_law (counted_fmt f)"
proof (rule fmt_lawI)
  fix as rest k
  assume "fmt_ok (counted_fmt f) as"
  then have as: "list_all (fmt_ok f) as" and n: "in_u32 (wrap_u 32 (int (length as)))" "nat (wrap_u 32 (int (length as))) = length as"
    by (simp_all add: counted_fmt_def wrap_u_def in_u_def)
  show "fmt_rd (counted_fmt f) (fmt_wr (counted_fmt f) as @ rest) = Inr (as, rest)"
    using n(2) by (simp add: counted_fmt_def rbind_def u32_wire.read_written [OF n(1)] read_many_all [OF assms as])
  assume k: "k < length (fmt_wr (counted_fmt f) as)"
  let ?h = "write_u32 (wrap_u 32 (int (length as)))"
  show "ends_early (fmt_rd (counted_fmt f) (take k (fmt_wr (counted_fmt f) as)))"
  proof (cases "k < length ?h")
    case True
    then show ?thesis by (simp add: counted_fmt_def ends_early_rbind u32_wire.read_short [OF n(1)])
  next
    case False
    then show ?thesis
      using k n(2) read_many_short [OF assms as, of "k - length ?h"]
      by (simp add: counted_fmt_def rbind_def u32_wire.read_written [OF n(1)])
  qed
qed

lemma discriminant_law [wire_laws]: "fmt_law (discriminant_fmt codes)"
  by (rule fmt_lawI) (auto simp: discriminant_fmt_def rbind_def rpure_def read_u8_def)

lemma sized_law [wire_laws]:
  fixes f :: "('c, 'a) fmt" and hlen :: nat
  assumes "fmt_law f"
  shows "fmt_law (sized_fmt hlen f)"
proof -
  let ?n = "\<lambda>x :: 'a \<times> u8 list. wrap_u 16 (int (length (snd x) + hlen))"
  have u16: "wire_format (\<lambda>v. 0 \<le> v \<and> v < 65536) (fmt_rd u16_fmt :: ('c, int) reader) (le_bytes 2)"
    using uint_law [of 2] by (simp add: fmt_law_def uint_fmt_def)
  show ?thesis
    unfolding fmt_law_def sized_fmt_def fmt.simps
  proof (rule wire_format_bind [OF u16, where part = ?n and
        snd_ok = "\<lambda>size. fmt_ok (pair_fmt f (bytes_fmt (nat (max 0 (size - int hlen)))))" and
        wr_snd = "\<lambda>size. fmt_wr (pair_fmt f (bytes_fmt (nat (max 0 (size - int hlen)))))"])
    fix size :: int
    show "wire_format (fmt_ok (pair_fmt f (bytes_fmt (nat (max 0 (size - int hlen))))))
      (fmt_rd (pair_fmt f (bytes_fmt (nat (max 0 (size - int hlen))))))
      (fmt_wr (pair_fmt f (bytes_fmt (nat (max 0 (size - int hlen))))))"
      using pair_law [OF assms bytes_law] by (simp add: fmt_law_def)
  next
    fix x :: "'a \<times> u8 list"
    assume "case x of (a, message) \<Rightarrow> fmt_ok f a \<and> length message + hlen < 65536"
    then show "(0 \<le> ?n x \<and> ?n x < 65536) \<and> fmt_ok (pair_fmt f (bytes_fmt (nat (max 0 (?n x - int hlen))))) x \<and>
      (case x of (a, message) \<Rightarrow> le_bytes 2 (wrap_u 16 (int (length message + hlen))) @ fmt_wr f a @ message) =
      le_bytes 2 (?n x) @ fmt_wr (pair_fmt f (bytes_fmt (nat (max 0 (?n x - int hlen))))) x"
      by (cases x) (simp add: uint_fmt_def pair_fmt_def bytes_fmt_def wrap_u_def)
  qed
qed

text \<open>Enums: the magics must differ.\<close>

lemma read_variant_other: "b \<noteq> fst v \<Longrightarrow> read_variant v (b # bs) = Inl (BadMagic 0)"
  by (simp add: read_variant_def rbind_def read_u8_def rfail_def)

lemma read_variant_own: "read_variant v (fst v # bs) = fmt_rd (snd (snd v)) bs"
  by (simp add: read_variant_def rbind_def read_u8_def)

lemma try_variants_own:
  assumes "v \<in> set vs" and "distinct (map fst vs)"
  shows "case fmt_rd (snd (snd v)) bs of
      Inr r \<Rightarrow> try_variants vs (fst v # bs) = Inr r
    | Inl e \<Rightarrow> (\<exists>es. try_variants vs (fst v # bs) = Inl es \<and> e \<in> set es)"
  using assms
proof (induction vs)
  case (Cons w vs)
  show ?case
  proof (cases "w = v")
    case True
    have "\<exists>es. try_variants vs (fst v # bs) = Inl es"
      using Cons.prems(2) True by (induction vs) (auto simp: read_variant_other)
    then show ?thesis using True by (auto simp: read_variant_own split: sum.splits)
  next
    case False
    then have "v \<in> set vs" "fst v \<noteq> fst w" using Cons.prems by (auto simp: image_iff)
    with Cons show ?thesis by (auto simp: read_variant_other split: sum.splits)
  qed
qed simp

lemma try_variants_empty: "\<exists>es. try_variants vs [] = Inl es \<and> length es = length vs \<and> (\<forall>e\<in>set es. e = IoUnexpectedEof)"
  by (induction vs) (auto simp: read_variant_def rbind_def read_u8_def)

lemma variant_ofD: "variant_of vs a = Some v \<Longrightarrow> v \<in> set vs"
  by (auto simp: variant_of_def find_Some_iff)

lemma enum_law [wire_laws]:
  assumes "distinct (map fst vs)" and "list_all (\<lambda>v. fmt_law (snd (snd v))) vs"
  shows "fmt_law (enum_fmt vs)"
proof (rule fmt_lawI)
  fix a rest k
  assume "fmt_ok (enum_fmt vs) a"
  then obtain v where v: "variant_of vs a = Some v" "fmt_ok (snd (snd v)) a"
    by (auto simp: enum_fmt_def split: option.splits)
  note vs = variant_ofD [OF v(1)]
  have law: "fmt_law (snd (snd v))" using assms(2) vs by (auto simp: list_all_iff)
  have w: "fmt_wr (enum_fmt vs) a = fst v # fmt_wr (snd (snd v)) a"
    using v(1) by (simp add: enum_fmt_def split: prod.splits)
  show "fmt_rd (enum_fmt vs) (fmt_wr (enum_fmt vs) a @ rest) = Inr (a, rest)"
    using try_variants_own [OF vs assms(1), of "fmt_wr (snd (snd v)) a @ rest"] fmt_law_read [OF law v(2)]
    unfolding w by (simp add: enum_fmt_def)
  assume k: "k < length (fmt_wr (enum_fmt vs) a)"
  show "ends_early (fmt_rd (enum_fmt vs) (take k (fmt_wr (enum_fmt vs) a)))"
  proof (cases k)
    case 0
    obtain es where es: "try_variants vs [] = Inl es" "length es = length vs" "\<forall>e\<in>set es. e = IoUnexpectedEof"
      using try_variants_empty [of vs] by blast
    moreover have "vs \<noteq> []" using vs by auto
    ultimately have "\<exists>e\<in>set es. eof_error e" by (cases es) auto
    with es(1) 0 show ?thesis by (simp add: enum_fmt_def)
  next
    case (Suc j)
    then have "ends_early (fmt_rd (snd (snd v)) (take j (fmt_wr (snd (snd v)) a)))"
      using fmt_law_short [OF law v(2)] k w by simp
    then obtain e where e: "fmt_rd (snd (snd v)) (take j (fmt_wr (snd (snd v)) a)) = Inl e" "eof_error e"
      by (rule ends_earlyE)
    then obtain es where "try_variants vs (fst v # take j (fmt_wr (snd (snd v)) a)) = Inl es" "e \<in> set es"
      using try_variants_own [OF vs assms(1), of "take j (fmt_wr (snd (snd v)) a)"] by auto
    with e(2) show ?thesis unfolding w Suc by (auto simp: enum_fmt_def)
  qed
qed

text \<open>Routes: what a route's packets start with decides the route.\<close>

definition fmt_heads :: "('c, 'a) fmt \<Rightarrow> u8 list \<Rightarrow> bool" where
  "fmt_heads f ops \<longleftrightarrow> (\<forall>a. fmt_ok f a \<longrightarrow> fmt_wr f a \<noteq> [] \<and> hd (fmt_wr f a) \<in> set ops)"

lemma enum_heads [wire_laws]: "set (map fst vs) \<subseteq> set ops \<Longrightarrow> fmt_heads (enum_fmt vs) ops"
  by (auto simp: fmt_heads_def enum_fmt_def split: option.splits dest!: variant_ofD)

lemma repr_heads [wire_laws]: "set (map fst table) \<subseteq> set ops \<Longrightarrow> fmt_heads (repr_fmt table) ops"
  unfolding fmt_heads_def repr_fmt_def by (auto dest!: map_of_SomeD)

lemma map_heads [wire_laws]: "fmt_heads f ops \<Longrightarrow> fmt_heads (map_fmt mk un f) ops"
  by (auto simp: fmt_heads_def map_fmt_def)

lemma route_law [wire_laws]:
  assumes "distinct (concat (map fst rs))" and "list_all (\<lambda>r. fmt_law (snd (snd r))) rs"
    and "list_all (\<lambda>r. fmt_heads (snd (snd r)) (fst r)) rs"
  shows "fmt_law (route_fmt rs)"
proof (rule fmt_lawI)
  fix a rest k
  assume "fmt_ok (route_fmt rs) a"
  then obtain r where r: "find (\<lambda>r. fst (snd r) a) rs = Some r" "fmt_ok (snd (snd r)) a"
    by (auto simp: route_fmt_def split: option.splits)
  have mem: "r \<in> set rs" using r(1) by (auto simp: find_Some_iff)
  have law: "fmt_law (snd (snd r))" and heads: "fmt_heads (snd (snd r)) (fst r)"
    using assms(2,3) mem by (auto simp: list_all_iff)
  have w: "fmt_wr (route_fmt rs) a = fmt_wr (snd (snd r)) a" using r(1) by (simp add: route_fmt_def split: prod.splits)
  obtain opcode body where ob: "fmt_wr (snd (snd r)) a = opcode # body" "opcode \<in> set (fst r)"
    using heads r(2) by (cases "fmt_wr (snd (snd r)) a") (auto simp: fmt_heads_def)
  have "find (\<lambda>r. opcode \<in> set (fst r)) rs = Some r"
    using assms(1) mem ob(2) by (induction rs) auto
  then have t: "route_table rs opcode = Some (fmt_rd (snd (snd r)))" by (simp add: route_table_def)
  show "fmt_rd (route_fmt rs) (fmt_wr (route_fmt rs) a @ rest) = Inr (a, rest)"
    using t ob(1) fmt_law_read [OF law r(2), of rest] unfolding w by (simp add: route_fmt_def route_read_def read_u8_def)
  assume k: "k < length (fmt_wr (route_fmt rs) a)"
  show "ends_early (fmt_rd (route_fmt rs) (take k (fmt_wr (route_fmt rs) a)))"
  proof (cases k)
    case 0
    then show ?thesis by (simp add: route_fmt_def route_read_def read_u8_def)
  next
    case (Suc j)
    then show ?thesis
      using t ob(1) fmt_law_short [OF law r(2), of k] k unfolding w by (simp add: route_fmt_def route_read_def read_u8_def)
  qed
qed

lemma route_heads: "list_all (\<lambda>r. fmt_heads (snd (snd r)) (fst r)) rs \<Longrightarrow> fmt_ok (route_fmt rs) a \<Longrightarrow> fmt_wr (route_fmt rs) a \<noteq> []"
proof -
  assume h: "list_all (\<lambda>r. fmt_heads (snd (snd r)) (fst r)) rs" and "fmt_ok (route_fmt rs) a"
  then obtain r where r: "find (\<lambda>r. fst (snd r) a) rs = Some r" "fmt_ok (snd (snd r)) a"
    by (auto simp: route_fmt_def split: option.splits)
  then have "fmt_heads (snd (snd r)) (fst r)" using h by (auto simp: list_all_iff find_Some_iff)
  with r show ?thesis by (cases r) (auto simp: route_fmt_def fmt_heads_def)
qed

section \<open>Wire types of \<open>game_pkt.rs\<close>\<close>

text \<open>\<^verbatim>\<open>FixedString<N>\<close>: a buffer of \<open>N\<close> bytes and the length of its content.\<close>

record FixedString =
  fs_buf :: "u8 list"
  fs_len :: nat

definition fixed_string_default :: "nat \<Rightarrow> FixedString" where
  "fixed_string_default n = \<lparr>fs_buf = replicate n 0, fs_len = 0\<rparr>"

text \<open>\<^verbatim>\<open>FixedString::new\<close>, on the UTF-8 bytes of the string.\<close>

definition fixed_string_new :: "nat \<Rightarrow> u8 list \<Rightarrow> FixedString" where
  "fixed_string_new n bytes =
    (let max_content = n - 1; copy_len = min (length bytes) max_content
     in \<lparr>fs_buf = take copy_len bytes @ replicate (n - copy_len) 0, fs_len = copy_len\<rparr>)"

definition content_len :: "u8 list \<Rightarrow> nat" where
  "content_len buf = length (takeWhile (\<lambda>b. b \<noteq> 0) buf)"

definition fixed_string_fmt :: "nat \<Rightarrow> ('c, FixedString) fmt" where
  "fixed_string_fmt n =
    \<lparr>fmt_ok = (\<lambda>s. length (fs_buf s) = n \<and> fs_len s = content_len (fs_buf s)),
     fmt_rd = rbind (read_exact n) (\<lambda>buf. rpure \<lparr>fs_buf = buf, fs_len = content_len buf\<rparr>), fmt_wr = fs_buf\<rparr>"

definition fixed_string_content :: "FixedString \<Rightarrow> u8 list" where
  "fixed_string_content s = take (fs_len s) (fs_buf s)"

lemma fixed_string_law [wire_laws]: "fmt_law (fixed_string_fmt n)"
  unfolding fmt_law_def fixed_string_fmt_def by simp (rule wire_format_map_exact, simp)

text \<open>A string without zero bytes that leaves room for its terminator survives; a longer one is cut.\<close>

lemma fixed_string_new_ok:
  assumes "0 \<notin> set bytes" and "0 < n"
  shows "fmt_ok (fixed_string_fmt n) (fixed_string_new n bytes)"
    and "fixed_string_content (fixed_string_new n bytes) = take (n - 1) bytes"
proof -
  let ?c = "take (min (length bytes) (n - 1)) bytes"
  have c: "\<forall>b\<in>set ?c. b \<noteq> 0" using assms(1) by (metis in_set_takeD)
  have "takeWhile (\<lambda>b. b \<noteq> 0) (?c @ replicate (n - min (length bytes) (n - 1)) 0) = ?c"
    using c by (simp add: takeWhile_append takeWhile_replicate)
  then show "fmt_ok (fixed_string_fmt n) (fixed_string_new n bytes)"
    using assms(2) by (simp add: fixed_string_fmt_def fixed_string_new_def Let_def content_len_def min_def)
  show "fixed_string_content (fixed_string_new n bytes) = take (n - 1) bytes"
    by (simp add: fixed_string_content_def fixed_string_new_def Let_def min_def)
qed

text \<open>\<^verbatim>\<open>ZeroOpt<T>\<close>: zero on the wire is \<^verbatim>\<open>None\<close>, any other primitive must convert to \<open>T\<close>.\<close>

definition zero_opt_fmt :: "(int \<Rightarrow> 'a option) \<Rightarrow> ('a \<Rightarrow> int) \<Rightarrow> ('c, int) fmt \<Rightarrow> ('c, 'a option) fmt" where
  "zero_opt_fmt try_from into prim =
    \<lparr>fmt_ok = (\<lambda>v. case v of None \<Rightarrow> fmt_ok prim 0
       | Some a \<Rightarrow> fmt_ok prim (into a) \<and> into a \<noteq> 0 \<and> try_from (into a) = Some a),
     fmt_rd = rbind (fmt_rd prim) (\<lambda>raw. if raw = 0 then rpure None
       else case try_from raw of Some a \<Rightarrow> rpure (Some a) | None \<Rightarrow> rfail AssertFail),
     fmt_wr = (\<lambda>v. fmt_wr prim (case v of None \<Rightarrow> 0 | Some a \<Rightarrow> into a))\<rparr>"

lemma zero_opt_law [wire_laws]: "fmt_law prim \<Longrightarrow> fmt_law (zero_opt_fmt try_from into prim)"
  by (rule fmt_lawI)
    (auto simp: zero_opt_fmt_def rbind_def rpure_def fmt_law_read split: option.splits
      intro: ends_early_rbind [unfolded rbind_def] fmt_law_short)

type_synonym NetId = u32

abbreviation net_id_fmt :: "('c, NetId) fmt" where "net_id_fmt \<equiv> u32_fmt"
abbreviation opt_net_id_fmt :: "('c, NetId option) fmt" where "opt_net_id_fmt \<equiv> zero_opt_fmt Some (\<lambda>v. v) u32_fmt"

record WireWorldPos =
  x_cm :: i32
  y_cm :: i32

definition world_pos_fmt :: "('c, WireWorldPos) fmt" where
  "world_pos_fmt = map_fmt (\<lambda>(x, y). \<lparr>x_cm = x, y_cm = y\<rparr>) (\<lambda>p. (x_cm p, y_cm p)) (pair_fmt i32_fmt i32_fmt)"

record WireServerAddr =
  srv_ipv4_addr :: i32
  srv_port :: int

definition UNROUTABLE :: WireServerAddr where "UNROUTABLE = \<lparr>srv_ipv4_addr = 0, srv_port = 0\<rparr>"

definition server_addr_fmt :: "('c, WireServerAddr) fmt" where
  "server_addr_fmt = map_fmt (\<lambda>(a, p). \<lparr>srv_ipv4_addr = a, srv_port = p\<rparr>) (\<lambda>s. (srv_ipv4_addr s, srv_port s))
     (pair_fmt i32_fmt u16_fmt)"

text \<open>\<^verbatim>\<open>from_socket_addr\<close> on the octets of an IPv4 address, or of an IPv6 address that may be a mapped one.\<close>

datatype IpAddr = V4 "u8 list" | V6 "u8 list"

definition to_ipv4_mapped :: "u8 list \<Rightarrow> u8 list option" where
  "to_ipv4_mapped segs = (if take 12 segs = replicate 10 0 @ [255, 255] then Some (drop 12 segs) else None)"

definition from_socket_addr :: "IpAddr \<Rightarrow> int \<Rightarrow> WireServerAddr option" where
  "from_socket_addr ip port =
    map_option (\<lambda>octets. \<lparr>srv_ipv4_addr = wrap_s 32 (le_value octets), srv_port = port\<rparr>)
      (case ip of V4 octets \<Rightarrow> Some octets | V6 segs \<Rightarrow> to_ipv4_mapped segs)"

datatype SkillBranch = BranchA | BranchB

definition skill_branch_codes :: "(u8 \<times> SkillBranch) list" where
  "skill_branch_codes = [(1, BranchA), (2, BranchB)]"

datatype PlayerClassGendered =
    WarriorMale | NinjaFemale | SuraMale | ShamanFemale | WarriorFemale | NinjaMale | SuraFemale | ShamanMale

definition class_gendered_codes :: "(u8 \<times> PlayerClassGendered) list" where
  "class_gendered_codes =
    [(0, WarriorMale), (1, NinjaFemale), (2, SuraMale), (3, ShamanFemale), (4, WarriorFemale), (5, NinjaMale),
     (6, SuraFemale), (7, ShamanMale)]"

datatype Empire = Red | Yellow | Blue

definition empire_codes :: "(u8 \<times> Empire) list" where
  "empire_codes = [(1, Red), (2, Yellow), (3, Blue)]"

text \<open>\<^verbatim>\<open>ZeroOpt\<close> of an enum with a \<^verbatim>\<open>u8\<close> representation.\<close>

definition opt_repr_fmt :: "(u8 \<times> 'a) list \<Rightarrow> ('c, 'a option) fmt" where
  "opt_repr_fmt table = zero_opt_fmt (map_of table) (code_of table) u8_fmt"

lemma world_pos_law [wire_laws]: "fmt_law world_pos_fmt"
  unfolding world_pos_fmt_def by (intro wire_laws) simp_all

lemma server_addr_law [wire_laws]: "fmt_law server_addr_fmt"
  unfolding server_addr_fmt_def by (intro wire_laws) simp_all

lemma opt_repr_law [wire_laws]: "fmt_law (opt_repr_fmt table)"
  unfolding opt_repr_fmt_def by (intro wire_laws)

end
