(* ===== verification/Game_Packets.thy ===== *)
theory Game_Packets
  imports Wire_Combinators
begin

text \<open>
  The packets of the game server, phase by phase, as the \<^verbatim>\<open>binrw\<close> declarations of \<^verbatim>\<open>zohar-protocol/src/game_pkt\<close> give
  them: handshake, login (client side), character selection, loading and in-game (movement, chat, combat,
  system, stats, world).  Every packet type is a datatype with the constructors and fields of the source and
  a format built by the combinators; its contract follows from the declaration.  Large field-less enums
  (skills, stat points) are kept as their discriminants.  At the end the codec is instantiated with the client
  packets of every phase.
\<close>

text \<open>A variant of an enum with its magic, and a route of \<^verbatim>\<open>route_packets!\<close> with its opcodes.\<close>

definition magic_variant :: "u8 \<Rightarrow> ('a \<Rightarrow> bool) \<Rightarrow> ('x \<Rightarrow> 'a) \<Rightarrow> ('a \<Rightarrow> 'x) \<Rightarrow> ('c, 'x) fmt \<Rightarrow> ('c, 'a) variant" where
  "magic_variant m is_it mk un f = (m, is_it, map_fmt mk un f)"

definition route_to :: "u8 list \<Rightarrow> ('a \<Rightarrow> bool) \<Rightarrow> ('x \<Rightarrow> 'a) \<Rightarrow> ('a \<Rightarrow> 'x) \<Rightarrow> ('c, 'x) fmt \<Rightarrow> ('c, 'a) route" where
  "route_to ops is_it tag untag f = (ops, is_it, map_fmt tag untag f)"

definition control_c2s_fmt :: "('c, ControlC2s) fmt" where
  "control_c2s_fmt = \<lparr>fmt_ok = c2s_ok, fmt_rd = read_control_c2s, fmt_wr = write_control_c2s\<rparr>"

definition control_s2c_fmt :: "('c, ControlS2c) fmt" where
  "control_s2c_fmt = \<lparr>fmt_ok = s2c_ok, fmt_rd = read_control_s2c, fmt_wr = write_control_s2c\<rparr>"

section \<open>Handshake phase\<close>

datatype HandshakeGameC2sSpecific = FetchChannelList

definition handshake_game_c2s_specific_fmt :: "('c, HandshakeGameC2sSpecific) fmt" where
  "handshake_game_c2s_specific_fmt = repr_fmt [(0xCE, FetchChannelList)]"

datatype ServerStatus = Offline | Online | OnlineBusy | ServerFull

definition server_status_codes :: "(u8 \<times> ServerStatus) list" where
  "server_status_codes = [(0, Offline), (1, Online), (2, OnlineBusy), (3, ServerFull)]"

datatype ServerInfo = ServerInfo (si_srv_port: int) (si_status: ServerStatus)

definition server_info_fmt :: "('c, ServerInfo) fmt" where
  "server_info_fmt = map_fmt (\<lambda>(p, s). ServerInfo p s) (\<lambda>i. (si_srv_port i, si_status i))
     (pair_fmt u16_fmt (repr_fmt server_status_codes))"

datatype HandshakeGameS2cSpecific = ChannelListResponse (statuses: "ServerInfo list") (is_ok: u8)

definition handshake_game_s2c_specific_fmt :: "('c, HandshakeGameS2cSpecific) fmt" where
  "handshake_game_s2c_specific_fmt = enum_fmt
    [magic_variant 0xD2 (\<lambda>_. True) (\<lambda>(ss, k). ChannelListResponse ss k) (\<lambda>p. (statuses p, is_ok p))
       (pair_fmt (counted_fmt server_info_fmt) u8_fmt)]"

datatype HandshakeGameC2s =
    is_HgcControl: HgcControl (hgc_control: ControlC2s)
  | is_HgcSpecific: HgcSpecific (hgc_specific: HandshakeGameC2sSpecific)

definition handshake_game_c2s_fmt :: "(CustomErr, HandshakeGameC2s) fmt" where
  "handshake_game_c2s_fmt = route_fmt
    [route_to [0xFE, 0xFF, 0xFC] is_HgcControl HgcControl hgc_control control_c2s_fmt,
     route_to [0xCE] is_HgcSpecific HgcSpecific hgc_specific handshake_game_c2s_specific_fmt]"

datatype HandshakeGameS2c =
    is_HgsControl: HgsControl (hgs_control: ControlS2c)
  | is_HgsSpecific: HgsSpecific (hgs_specific: HandshakeGameS2cSpecific)

definition handshake_game_s2c_fmt :: "(CustomErr, HandshakeGameS2c) fmt" where
  "handshake_game_s2c_fmt = route_fmt
    [route_to [0x2C, 0xFF, 0xFC, 0xFD] is_HgsControl HgsControl hgs_control control_s2c_fmt,
     route_to [0xD2] is_HgsSpecific HgsSpecific hgs_specific handshake_game_s2c_specific_fmt]"

section \<open>Login phase\<close>

datatype LoginC2sSpecific = RequestTokenLogin (tl_username: "u8 list") (tl_token: u32) (tl_enc_key: "u8 list")

definition login_c2s_specific_fmt :: "('c, LoginC2sSpecific) fmt" where
  "login_c2s_specific_fmt = enum_fmt
    [magic_variant 0x6D (\<lambda>_. True) (\<lambda>(u, t, k). RequestTokenLogin u t k) (\<lambda>p. (tl_username p, tl_token p, tl_enc_key p))
       (pair_fmt (bytes_fmt 31) (pair_fmt u32_fmt (bytes_fmt 16)))]"

datatype LoginC2s =
    is_LoginControl: LoginControl (login_control: ControlC2s)
  | is_LoginSpecific: LoginSpecific (login_specific: LoginC2sSpecific)

definition login_c2s_fmt :: "(CustomErr, LoginC2s) fmt" where
  "login_c2s_fmt = route_fmt
    [route_to [0xFE, 0xFF, 0xFC] is_LoginControl LoginControl login_control control_c2s_fmt,
     route_to [0x6D] is_LoginSpecific LoginSpecific login_specific login_c2s_specific_fmt]"

section \<open>Select phase\<close>

datatype PlayerSelectSlot = First | Second | Third | Fourth

definition select_slot_codes :: "(u8 \<times> PlayerSelectSlot) list" where
  "select_slot_codes = [(0, First), (1, Second), (2, Third), (3, Fourth)]"

datatype PlayerBaseAppearance = VariantA | VariantB

definition base_appearance_codes :: "(u8 \<times> PlayerBaseAppearance) list" where
  "base_appearance_codes = [(0, VariantA), (1, VariantB)]"

datatype CreatePlayerError = GenericFailure | NameAlreadyExists

definition create_player_error_codes :: "(u8 \<times> CreatePlayerError) list" where
  "create_player_error_codes = [(0, GenericFailure), (1, NameAlreadyExists)]"

definition entity_name_fmt :: "('c, FixedString) fmt" where
  "entity_name_fmt = fixed_string_fmt 25"

record Player =
  pl_db_id :: u32
  pl_name :: FixedString
  pl_class_gendered :: PlayerClassGendered
  pl_level :: u8
  pl_playtime_minutes :: u32
  pl_stats :: "u8 list"
  pl_body_part :: int
  pl_changed_name :: u8
  pl_hair_part :: int
  pl_server_addr :: WireServerAddr

text \<open>The four core stats \<^verbatim>\<open>stat_str\<close>, \<^verbatim>\<open>stat_vit\<close>, \<^verbatim>\<open>stat_dex\<close>, \<^verbatim>\<open>stat_int\<close> are consecutive bytes, kept as a list of four.\<close>

definition player_fmt :: "('c, Player) fmt" where
  "player_fmt = map_fmt
    (\<lambda>(i, n, cg, lv, pt, st, bp, cn, hp, _, _, sa, _).
      \<lparr>pl_db_id = i, pl_name = n, pl_class_gendered = cg, pl_level = lv, pl_playtime_minutes = pt, pl_stats = st,
       pl_body_part = bp, pl_changed_name = cn, pl_hair_part = hp, pl_server_addr = sa\<rparr>)
    (\<lambda>p. (pl_db_id p, pl_name p, pl_class_gendered p, pl_level p, pl_playtime_minutes p, pl_stats p, pl_body_part p,
      pl_changed_name p, pl_hair_part p, (), (), pl_server_addr p, ()))
    (pair_fmt u32_fmt (pair_fmt entity_name_fmt (pair_fmt (repr_fmt class_gendered_codes) (pair_fmt u8_fmt
      (pair_fmt u32_fmt (pair_fmt (array_fmt 4 u8_fmt) (pair_fmt u16_fmt (pair_fmt u8_fmt (pair_fmt u16_fmt
      (pair_fmt (reserved_fmt 4) (pair_fmt (reserved_fmt 8) (pair_fmt server_addr_fmt (reserved_fmt 1)))))))))))))"

definition player_empty :: Player where
  "player_empty =
    \<lparr>pl_db_id = 0, pl_name = fixed_string_default 25, pl_class_gendered = WarriorMale, pl_level = 0, pl_playtime_minutes = 0,
     pl_stats = [0, 0, 0, 0], pl_body_part = 0, pl_changed_name = 0, pl_hair_part = 0, pl_server_addr = UNROUTABLE\<rparr>"

datatype SelectC2sSpecific =
    is_SubmitEmpireChoice: SubmitEmpireChoice (sec_empire: Empire)
  | is_RequestCreatePlayer: RequestCreatePlayer (rcp_slot: PlayerSelectSlot) (rcp_name: "u8 list")
      (rcp_class_gender: PlayerClassGendered) (rcp_reserved: u8) (rcp_appearance: PlayerBaseAppearance) (rcp_reserved_stats: u32)
  | is_RequestDeletePlayer: RequestDeletePlayer (rdp_slot: PlayerSelectSlot) (rdp_code: "u8 list") (rdp_reserved: u8)
  | is_SubmitPlayerChoice: SubmitPlayerChoice (spc_slot: PlayerSelectSlot)

definition select_c2s_specific_fmt :: "('c, SelectC2sSpecific) fmt" where
  "select_c2s_specific_fmt = enum_fmt
    [magic_variant 0x5A is_SubmitEmpireChoice SubmitEmpireChoice sec_empire (repr_fmt empire_codes),
     magic_variant 0x04 is_RequestCreatePlayer (\<lambda>(s, n, cg, r, a, rs). RequestCreatePlayer s n cg r a rs)
       (\<lambda>p. (rcp_slot p, rcp_name p, rcp_class_gender p, rcp_reserved p, rcp_appearance p, rcp_reserved_stats p))
       (pair_fmt (repr_fmt select_slot_codes) (pair_fmt (bytes_fmt 25) (pair_fmt (repr_fmt class_gendered_codes)
         (pair_fmt u8_fmt (pair_fmt (repr_fmt base_appearance_codes) u32_fmt))))),
     magic_variant 0x05 is_RequestDeletePlayer (\<lambda>(s, c, r). RequestDeletePlayer s c r)
       (\<lambda>p. (rdp_slot p, rdp_code p, rdp_reserved p))
       (pair_fmt (repr_fmt select_slot_codes) (pair_fmt (bytes_fmt 7) u8_fmt)),
     magic_variant 0x06 is_SubmitPlayerChoice SubmitPlayerChoice spc_slot (repr_fmt select_slot_codes)]"

datatype SelectS2cSpecific =
    is_SetAccountEmpire: SetAccountEmpire (sae_empire: Empire)
  | is_SetPlayerChoices: SetPlayerChoices (sp_players: "Player list") (sp_guild_ids: "u32 list") (sp_guild_names: "FixedString list")
  | is_CreatePlayerResultOk: CreatePlayerResultOk (cpo_slot: PlayerSelectSlot) (cpo_new_player: Player)
  | is_CreatePlayerResultFail: CreatePlayerResultFail (cpf_error: CreatePlayerError)
  | is_DeletePlayerResultOk: DeletePlayerResultOk (dpo_slot: PlayerSelectSlot)
  | is_DeletePlayerResultFail: DeletePlayerResultFail

definition select_s2c_specific_fmt :: "('c, SelectS2cSpecific) fmt" where
  "select_s2c_specific_fmt = enum_fmt
    [magic_variant 0x5A is_SetAccountEmpire SetAccountEmpire sae_empire (repr_fmt empire_codes),
     magic_variant 0x20 is_SetPlayerChoices (\<lambda>(ps, gi, gn, _). SetPlayerChoices ps gi gn)
       (\<lambda>p. (sp_players p, sp_guild_ids p, sp_guild_names p, ()))
       (pair_fmt (array_fmt 4 player_fmt) (pair_fmt (array_fmt 4 u32_fmt)
         (pair_fmt (array_fmt 4 (fixed_string_fmt 13)) (reserved_fmt 8)))),
     magic_variant 0x08 is_CreatePlayerResultOk (\<lambda>(s, p). CreatePlayerResultOk s p) (\<lambda>p. (cpo_slot p, cpo_new_player p))
       (pair_fmt (repr_fmt select_slot_codes) player_fmt),
     magic_variant 0x09 is_CreatePlayerResultFail CreatePlayerResultFail cpf_error (repr_fmt create_player_error_codes),
     magic_variant 0x0A is_DeletePlayerResultOk DeletePlayerResultOk dpo_slot (repr_fmt select_slot_codes),
     magic_variant 0x0B is_DeletePlayerResultFail (\<lambda>_. DeletePlayerResultFail) (\<lambda>_. ()) unit_fmt]"

datatype SelectC2s =
    is_SelcControl: SelcControl (selc_control: ControlC2s)
  | is_SelcSpecific: SelcSpecific (selc_specific: SelectC2sSpecific)

definition select_c2s_fmt :: "(CustomErr, SelectC2s) fmt" where
  "select_c2s_fmt = route_fmt
    [route_to [0xFE, 0xFF, 0xFC] is_SelcControl SelcControl selc_control control_c2s_fmt,
     route_to [0x5A, 0x04, 0x05, 0x06] is_SelcSpecific SelcSpecific selc_specific select_c2s_specific_fmt]"

datatype SelectS2c =
    is_SelsControl: SelsControl (sels_control: ControlS2c)
  | is_SelsSpecific: SelsSpecific (sels_specific: SelectS2cSpecific)

definition select_s2c_fmt :: "(CustomErr, SelectS2c) fmt" where
  "select_s2c_fmt = route_fmt
    [route_to [0x2C, 0xFF, 0xFC, 0xFD] is_SelsControl SelsControl sels_control control_s2c_fmt,
     route_to [0x5A, 0x20, 0x08, 0x09, 0x0A, 0x0B] is_SelsSpecific SelsSpecific sels_specific select_s2c_specific_fmt]"

section \<open>In-game phase: client packets\<close>

datatype WireMovementKind = WireWait | WireMove | WireAttack | WireCombo

definition wire_movement_codes :: "(u8 \<times> WireMovementKind) list" where
  "wire_movement_codes = [(0, WireWait), (1, WireMove), (2, WireAttack), (3, WireCombo)]"

datatype WireMovementAnimation = WireRun | WireWalk

definition wire_animation_codes :: "(u8 \<times> WireMovementAnimation) list" where
  "wire_animation_codes = [(0, WireRun), (1, WireWalk)]"

datatype MovementC2s =
  InputMovement (im_kind: WireMovementKind) (im_arg: u8) (im_rot: u8) (im_pos: WireWorldPos) (im_ts: u32)

definition movement_c2s_fmt :: "('c, MovementC2s) fmt" where
  "movement_c2s_fmt = enum_fmt
    [magic_variant 0x07 (\<lambda>_. True) (\<lambda>(k, a, r, p, t). InputMovement k a r p t)
       (\<lambda>m. (im_kind m, im_arg m, im_rot m, im_pos m, im_ts m))
       (pair_fmt (repr_fmt wire_movement_codes) (pair_fmt u8_fmt (pair_fmt u8_fmt (pair_fmt world_pos_fmt u32_fmt))))]"

datatype ChatKind = Speak | Info | Notice | Command | Shout

definition chat_kind_codes :: "(u8 \<times> ChatKind) list" where
  "chat_kind_codes = [(0, Speak), (1, Info), (2, Notice), (5, Command), (6, Shout)]"

datatype ChatC2s = SubmitChatMessage (scm_kind: ChatKind) (scm_message: "u8 list")

definition chat_c2s_fmt :: "('c, ChatC2s) fmt" where
  "chat_c2s_fmt = enum_fmt
    [magic_variant 0x03 (\<lambda>_. True) (\<lambda>(k, m). SubmitChatMessage k m) (\<lambda>p. (scm_kind p, scm_message p))
       (sized_fmt 4 (repr_fmt chat_kind_codes))]"

text \<open>The discriminants of \<^verbatim>\<open>Skill\<close>.\<close>

definition skill_codes :: "u8 list" where
  "skill_codes =
    [1, 2, 3, 4, 5, 6, 16, 17, 18, 19, 20, 21, 31, 32, 33, 34, 35, 36, 46, 47, 48, 49, 50, 51, 61, 62, 63, 64, 65, 66,
     76, 77, 78, 79, 80, 81, 91, 92, 93, 94, 95, 96, 106, 107, 108, 109, 110, 111, 121, 122, 123, 124, 126, 127, 128, 129,
     130, 131, 137, 138, 139, 140, 141, 142, 151, 152, 153, 154, 155, 156, 157, 158, 159]"

definition opt_skill_fmt :: "('c, u8 option) fmt" where
  "opt_skill_fmt = zero_opt_fmt (\<lambda>c. if c \<in> set skill_codes then Some c else None) (\<lambda>c. c) u8_fmt"

datatype CombatC2s =
    is_InputAttack: InputAttack (ia_attack_type: "u8 option") (ia_target: NetId) (ia_unknown: int)
  | is_SignalTargetSwitch: SignalTargetSwitch (sts_target: NetId)

definition combat_c2s_fmt :: "('c, CombatC2s) fmt" where
  "combat_c2s_fmt = enum_fmt
    [magic_variant 0x02 is_InputAttack (\<lambda>(a, t, u). InputAttack a t u) (\<lambda>p. (ia_attack_type p, ia_target p, ia_unknown p))
       (pair_fmt opt_skill_fmt (pair_fmt net_id_fmt u16_fmt)),
     magic_variant 0x3D is_SignalTargetSwitch SignalTargetSwitch sts_target net_id_fmt]"

datatype InGameC2s =
    is_IgControl: IgControl (ig_control: ControlC2s)
  | is_IgMove: IgMove (ig_move: MovementC2s)
  | is_IgChat: IgChat (ig_chat: ChatC2s)
  | is_IgCombat: IgCombat (ig_combat: CombatC2s)

text \<open>Opcode \<^verbatim>\<open>0x06\<close> is routed to the movement packets as well, none of which starts with it.\<close>

definition ingame_c2s_fmt :: "(CustomErr, InGameC2s) fmt" where
  "ingame_c2s_fmt = route_fmt
    [route_to [0xFE, 0xFF, 0xFC] is_IgControl IgControl ig_control control_c2s_fmt,
     route_to [0x06, 0x07] is_IgMove IgMove ig_move movement_c2s_fmt,
     route_to [0x03] is_IgChat IgChat ig_chat chat_c2s_fmt,
     route_to [0x02, 0x3D] is_IgCombat IgCombat ig_combat combat_c2s_fmt]"

datatype LoadingC2sSpecific =
    is_SubmitClientVersion: SubmitClientVersion (scv_client: "u8 list") (scv_version: "u8 list")
  | is_SignalLoadingComplete: SignalLoadingComplete

definition loading_c2s_specific_fmt :: "('c, LoadingC2sSpecific) fmt" where
  "loading_c2s_specific_fmt = enum_fmt
    [magic_variant 0xF1 is_SubmitClientVersion (\<lambda>(c, v). SubmitClientVersion c v) (\<lambda>p. (scv_client p, scv_version p))
       (pair_fmt (bytes_fmt 33) (bytes_fmt 33)),
     magic_variant 0x0A is_SignalLoadingComplete (\<lambda>_. SignalLoadingComplete) (\<lambda>_. ()) unit_fmt]"

datatype LoadingC2s =
    is_LoadControl: LoadControl (load_control: ControlC2s)
  | is_LoadSpecific: LoadSpecific (load_specific: LoadingC2sSpecific)

definition loading_c2s_fmt :: "(CustomErr, LoadingC2s) fmt" where
  "loading_c2s_fmt = route_fmt
    [route_to [0xFE, 0xFF, 0xFC] is_LoadControl LoadControl load_control control_c2s_fmt,
     route_to [0xF1, 0x0A] is_LoadSpecific LoadSpecific load_specific loading_c2s_specific_fmt]"

section \<open>The contracts\<close>

lemmas decl_defs = magic_variant_def route_to_def

lemma control_c2s_fmt_law [wire_laws]: "fmt_law control_c2s_fmt" "fmt_heads control_c2s_fmt [0xFE, 0xFF, 0xFC]"
  using control_opcode control_c2s_wire.wire_format_axioms by (simp_all add: fmt_law_def fmt_heads_def control_c2s_fmt_def)

lemma control_s2c_fmt_law [wire_laws]: "fmt_law control_s2c_fmt" "fmt_heads control_s2c_fmt [0x2C, 0xFF, 0xFC, 0xFD]"
proof -
  have "s2c_opcode c \<in> set [0x2C, 0xFF, 0xFC, 0xFD]" for c by (cases c) (simp_all add: opcode_defs)
  then show "fmt_law control_s2c_fmt" "fmt_heads control_s2c_fmt [0x2C, 0xFF, 0xFC, 0xFD]"
    using control_s2c_wire.wire_format_axioms by (simp_all add: fmt_law_def fmt_heads_def control_s2c_fmt_def write_control_s2c_def)
qed

lemma handshake_game_laws [wire_laws]:
  "fmt_law handshake_game_c2s_specific_fmt" "fmt_heads handshake_game_c2s_specific_fmt [0xCE]"
  "fmt_law handshake_game_s2c_specific_fmt" "fmt_heads handshake_game_s2c_specific_fmt [0xD2]"
  by (simp_all add: handshake_game_c2s_specific_fmt_def handshake_game_s2c_specific_fmt_def server_info_fmt_def decl_defs wire_laws)

lemma login_specific_laws [wire_laws]: "fmt_law login_c2s_specific_fmt" "fmt_heads login_c2s_specific_fmt [0x6D]"
  by (simp_all add: login_c2s_specific_fmt_def decl_defs wire_laws)

lemma player_law [wire_laws]: "fmt_law player_fmt"
  by (simp add: player_fmt_def entity_name_fmt_def wire_laws)

lemma select_specific_laws [wire_laws]:
  "fmt_law select_c2s_specific_fmt" "fmt_heads select_c2s_specific_fmt [0x5A, 0x04, 0x05, 0x06]"
  "fmt_law select_s2c_specific_fmt" "fmt_heads select_s2c_specific_fmt [0x5A, 0x20, 0x08, 0x09, 0x0A, 0x0B]"
  by (simp_all add: select_c2s_specific_fmt_def select_s2c_specific_fmt_def decl_defs wire_laws)

lemma loading_specific_laws [wire_laws]: "fmt_law loading_c2s_specific_fmt" "fmt_heads loading_c2s_specific_fmt [0xF1, 0x0A]"
  by (simp_all add: loading_c2s_specific_fmt_def decl_defs wire_laws)

lemma ingame_client_laws [wire_laws]:
  "fmt_law movement_c2s_fmt" "fmt_heads movement_c2s_fmt [0x06, 0x07]"
  "fmt_law chat_c2s_fmt" "fmt_heads chat_c2s_fmt [0x03]"
  "fmt_law combat_c2s_fmt" "fmt_heads combat_c2s_fmt [0x02, 0x3D]"
  by (simp_all add: movement_c2s_fmt_def chat_c2s_fmt_def combat_c2s_fmt_def opt_skill_fmt_def decl_defs wire_laws)

section \<open>What the client may send in the game\<close>

fun ingame_c2s_ok :: "InGameC2s \<Rightarrow> bool" where
  "ingame_c2s_ok (IgControl c) = c2s_ok c"
| "ingame_c2s_ok (IgMove (InputMovement kind arg rot pos ts)) =
    (0 \<le> arg \<and> arg < 256 \<and> 0 \<le> rot \<and> rot < 256 \<and> in_i32 (x_cm pos) \<and> in_i32 (y_cm pos) \<and> in_u32 ts)"
| "ingame_c2s_ok (IgChat (SubmitChatMessage kind message)) = (length message < 65532)"
| "ingame_c2s_ok (IgCombat (InputAttack attack target unknown)) =
    ((\<forall>s. attack = Some s \<longrightarrow> s \<in> set skill_codes) \<and> in_u32 target \<and> 0 \<le> unknown \<and> unknown < 65536)"
| "ingame_c2s_ok (IgCombat (SignalTargetSwitch target)) = in_u32 target"

lemma repr_ok_movement: "fmt_ok (repr_fmt wire_movement_codes) k"
  by (cases k) (simp_all add: repr_fmt_def wire_movement_codes_def code_of_def)

lemma repr_ok_chat: "fmt_ok (repr_fmt chat_kind_codes) k"
  by (cases k) (simp_all add: repr_fmt_def chat_kind_codes_def code_of_def)

lemma skill_range: "s \<in> set skill_codes \<Longrightarrow> 0 < s \<and> s < 256"
  by (auto simp: skill_codes_def)

lemma opt_skill_ok: "fmt_ok opt_skill_fmt a \<longleftrightarrow> (\<forall>s. a = Some s \<longrightarrow> s \<in> set skill_codes)"
  by (auto simp: opt_skill_fmt_def zero_opt_fmt_def uint_fmt_def dest: skill_range split: option.splits)

text \<open>The declared format accepts exactly the packets whose fields are in range.\<close>

lemma ingame_c2s_ok_iff: "fmt_ok ingame_c2s_fmt p \<longleftrightarrow> ingame_c2s_ok p"
  by (cases p rule: ingame_c2s_ok.cases)
    (simp_all add: ingame_c2s_fmt_def route_fmt_def route_to_def map_fmt_def movement_c2s_fmt_def chat_c2s_fmt_def combat_c2s_fmt_def
      magic_variant_def enum_fmt_def variant_of_def pair_fmt_def repr_ok_movement repr_ok_chat opt_skill_ok control_c2s_fmt_def
      sized_fmt_def uint_fmt_def sint_fmt_def world_pos_fmt_def in_u_def)

section \<open>The codec over the client packets of every phase\<close>

lemma route_packet_stream:
  assumes "distinct (concat (map fst rs))" and "list_all (\<lambda>r. fmt_law (snd (snd r))) rs"
    and "list_all (\<lambda>r. fmt_heads (snd (snd r)) (fst r)) rs"
  shows "packet_stream (fmt_ok (route_fmt rs)) (fmt_rd (route_fmt rs)) (fmt_wr (route_fmt rs))"
  using route_law [OF assms] route_heads [OF assms(3)] by (simp add: packet_stream_def packet_stream_axioms_def fmt_law_def)

interpretation handshake_game_stream: packet_stream "fmt_ok handshake_game_c2s_fmt" "fmt_rd handshake_game_c2s_fmt" "fmt_wr handshake_game_c2s_fmt"
  unfolding handshake_game_c2s_fmt_def by (rule route_packet_stream) (simp_all add: decl_defs wire_laws)

interpretation login_stream: packet_stream "fmt_ok login_c2s_fmt" "fmt_rd login_c2s_fmt" "fmt_wr login_c2s_fmt"
  unfolding login_c2s_fmt_def by (rule route_packet_stream) (simp_all add: decl_defs wire_laws)

interpretation select_stream: packet_stream "fmt_ok select_c2s_fmt" "fmt_rd select_c2s_fmt" "fmt_wr select_c2s_fmt"
  unfolding select_c2s_fmt_def by (rule route_packet_stream) (simp_all add: decl_defs wire_laws)

interpretation loading_stream: packet_stream "fmt_ok loading_c2s_fmt" "fmt_rd loading_c2s_fmt" "fmt_wr loading_c2s_fmt"
  unfolding loading_c2s_fmt_def by (rule route_packet_stream) (simp_all add: decl_defs wire_laws)

interpretation ingame_stream: packet_stream "fmt_ok ingame_c2s_fmt" "fmt_rd ingame_c2s_fmt" "fmt_wr ingame_c2s_fmt"
  unfolding ingame_c2s_fmt_def by (rule route_packet_stream) (simp_all add: decl_defs wire_laws)

text \<open>
  C39. The in-game session: whatever movement, chat, combat and control packets a client sends, with every field in
  its range, and however they are split into chunks, the server's codec delivers exactly these packets in order, with
  their sequence bytes, without an error and without a panic; when everything has arrived and the codec has
  nothing more to give, all packets have been delivered.
\<close>

theorem ingame_session_delivers_all:
  assumes "recv_run is_eof (fmt_rd ingame_c2s_fmt) (sequencer_default raw) arrived s buf out"
    and "\<forall>p\<in>set ps. ingame_c2s_ok p" and "raw \<noteq> []" and "is_eof IoUnexpectedEof"
    and "arrived @ ys = stream (sequencer_default raw) (map (fmt_wr ingame_c2s_fmt) ps)"
  shows "(\<exists>rest. ps = out @ rest) \<and>
    (\<exists>r s' buf'. decode_sequenced is_eof (fmt_rd ingame_c2s_fmt) s buf = Some (Inr r, s', buf') \<and> (ys = [] \<and> r = None \<longrightarrow> out = ps))"
proof -
  have "seq_ok (sequencer_default raw)" using assms(3) by (simp add: seq_ok_def sequencer_default_def)
  moreover have "\<forall>p\<in>set ps. fmt_ok ingame_c2s_fmt p" using assms(2) by (simp add: ingame_c2s_ok_iff)
  ultimately show ?thesis using ingame_stream.receive_stream [OF assms(1)] assms(4,5) by blast
qed

definition example_attack :: InGameC2s where
  "example_attack = IgCombat (InputAttack (Some 16) 7 0)"

theorem ingame_session_delivers_all_witness:
  "\<exists>s buf. recv_run eof_only (fmt_rd ingame_c2s_fmt) (sequencer_default example_raw)
     (stream (sequencer_default example_raw) (map (fmt_wr ingame_c2s_fmt) [example_attack])) s buf [example_attack]"
proof -
  let ?s = "sequencer_default example_raw" and ?rd = "fmt_rd ingame_c2s_fmt"
  let ?bs = "stream ?s (map (fmt_wr ingame_c2s_fmt) [example_attack])"
  have run: "recv_run eof_only ?rd ?s ?bs ?s ?bs []"
    using recv_run.arrive [OF recv_run.start, of eof_only ?rd ?s ?bs] by simp
  have h: "\<forall>p\<in>set [example_attack]. ingame_c2s_ok p" "example_raw \<noteq> []" "eof_only IoUnexpectedEof" "?bs @ [] = ?bs"
    by (simp_all add: example_attack_def example_raw_def eof_only_def skill_codes_def in_u_def)
  from ingame_session_delivers_all [OF run h]
  obtain q s' buf' where d: "decode_sequenced eof_only ?rd ?s ?bs = Some (Inr (Some q), s', buf')"
    by (metis not_Cons_self2 option.exhaust)
  from recv_run.deliver [OF run d] have r2: "recv_run eof_only ?rd ?s ?bs s' buf' [q]" by simp
  from ingame_session_delivers_all [OF r2 h] have "q = example_attack" by auto
  with r2 show ?thesis by blast
qed

end
