(* ===== verification/Server_Packets.thy ===== *)
theory Server_Packets
  imports Game_Packets
begin

text \<open>
  The packets the game server sends while a character loads and plays (\<^verbatim>\<open>zohar-protocol/src/game_pkt/loading.rs\<close> and
  \<^verbatim>\<open>game_pkt/ingame/\<close>): movement, chat, combat, system, stats and world packets, with the codes they carry (entity
  kinds, body parts, races), and the wire contract of every one of them.  Floating-point fields are kept as their 32 bits.
\<close>

section \<open>Movement, chat and system packets\<close>

datatype MovementS2c =
    is_SyncEntityMovement: SyncEntityMovement (sm_kind: WireMovementKind) (sm_arg: u8) (sm_rot: u8) (sm_net_id: NetId)
      (sm_pos: WireWorldPos) (sm_ts: u32) (sm_duration: u32)
  | is_SetEntityMovementAnimation: SetEntityMovementAnimation (sa_net_id: NetId) (sa_animation: WireMovementAnimation)

definition movement_s2c_fmt :: "('c, MovementS2c) fmt" where
  "movement_s2c_fmt = enum_fmt
    [magic_variant 0x03 is_SyncEntityMovement (\<lambda>(k, a, r, n, p, t, d). SyncEntityMovement k a r n p t d)
       (\<lambda>m. (sm_kind m, sm_arg m, sm_rot m, sm_net_id m, sm_pos m, sm_ts m, sm_duration m))
       (pair_fmt (repr_fmt wire_movement_codes) (pair_fmt u8_fmt (pair_fmt u8_fmt (pair_fmt net_id_fmt
         (pair_fmt world_pos_fmt (pair_fmt u32_fmt u32_fmt)))))),
     magic_variant 0x6F is_SetEntityMovementAnimation (\<lambda>(n, a). SetEntityMovementAnimation n a) (\<lambda>m. (sa_net_id m, sa_animation m))
       (pair_fmt net_id_fmt (repr_fmt wire_animation_codes))]"

datatype ChatS2c =
  NotifyChatMessage (ncm_kind: ChatKind) (ncm_net_id: "NetId option") (ncm_empire: "Empire option") (ncm_message: "u8 list")

definition chat_s2c_fmt :: "(CustomErr, ChatS2c) fmt" where
  "chat_s2c_fmt = enum_fmt
    [magic_variant 0x04 (\<lambda>_. True) (\<lambda>((k, n, e), m). NotifyChatMessage k n e m)
       (\<lambda>p. ((ncm_kind p, ncm_net_id p, ncm_empire p), ncm_message p))
       (sized_fmt 9 (pair_fmt (repr_fmt chat_kind_codes) (pair_fmt opt_net_id_fmt (opt_repr_fmt empire_codes))))]"

datatype SystemS2c =
    is_InitServerHandoff: InitServerHandoff (ish_destination_addr: WireServerAddr)
  | is_SetServerTime: SetServerTime (sst_time: u32)
  | is_SetChannelInfo: SetChannelInfo (sci_channel_id: u8)

definition system_s2c_fmt :: "('c, SystemS2c) fmt" where
  "system_s2c_fmt = enum_fmt
    [magic_variant 0x41 is_InitServerHandoff (\<lambda>(_, a). InitServerHandoff a) (\<lambda>p. ((), ish_destination_addr p))
       (pair_fmt (reserved_fmt 8) server_addr_fmt),
     magic_variant 0x6A is_SetServerTime SetServerTime sst_time u32_fmt,
     magic_variant 0x79 is_SetChannelInfo SetChannelInfo sci_channel_id u8_fmt]"

section \<open>Combat packets\<close>

datatype ProjectileKind =
    PkExperience | PkHpSmall | PkHpMedium | PkHpLarge | PkSpSmall | PkSpMedium | PkSpLarge | PkFireworkA | PkFireworkB
  | PkFireworkC | PkFireworkD | PkFireworkE | PkFireworkF | PkFireworkG | PkLightningClaw | PkFlameSpirit

definition projectile_codes :: "(u8 \<times> ProjectileKind) list" where
  "projectile_codes =
    [(1, PkExperience), (15, PkHpSmall), (2, PkHpMedium), (3, PkHpLarge), (4, PkSpSmall), (5, PkSpMedium), (6, PkSpLarge),
     (7, PkFireworkA), (8, PkFireworkB), (9, PkFireworkC), (10, PkFireworkD), (11, PkFireworkE), (12, PkFireworkF),
     (13, PkFireworkG), (14, PkLightningClaw), (16, PkFlameSpirit)]"

datatype SpecialEffectKind =
    RedSurge | BlueSurge | GreenSurge | PurpleSurge | CriticalStrike | PiercingStrike | BlockedStrike | DodgedStrike
  | RedSurgeAlt | BlueSurgeAlt

definition special_effect_codes :: "(u8 \<times> SpecialEffectKind) list" where
  "special_effect_codes =
    [(1, RedSurge), (2, BlueSurge), (3, GreenSurge), (4, PurpleSurge), (5, CriticalStrike), (6, PiercingStrike),
     (7, BlockedStrike), (8, DodgedStrike), (19, RedSurgeAlt), (20, BlueSurgeAlt)]"

datatype ProjectileTarget = ProjectileTarget (pt_caster: NetId) (pt_target: "NetId option") (pt_fallback_target: WireWorldPos)

definition projectile_target_fmt :: "('c, ProjectileTarget) fmt" where
  "projectile_target_fmt = map_fmt (\<lambda>(c, t, f). ProjectileTarget c t f) (\<lambda>p. (pt_caster p, pt_target p, pt_fallback_target p))
     (pair_fmt net_id_fmt (pair_fmt opt_net_id_fmt world_pos_fmt))"

datatype CombatS2c =
    is_SetEntityStunned: SetEntityStunned (stun_target: NetId)
  | is_SetEntityDead: SetEntityDead (dead_target: NetId)
  | is_SyncEntityHealthBar: SyncEntityHealthBar (bar_target: NetId) (bar_hp_pct: u8)
  | is_TriggerFloatingDamage: TriggerFloatingDamage (fd_target: NetId) (fd_flags: u8) (fd_damage: i32)
  | is_TriggerSpecialEffect: TriggerSpecialEffect (se_kind: SpecialEffectKind) (se_target: NetId)
  | is_TriggerProjectileEffect: TriggerProjectileEffect (pe_kind: ProjectileKind) (pe_from: NetId) (pe_to: NetId)
  | is_SetProjectileTarget: SetProjectileTarget (spt_target: ProjectileTarget)
  | is_AddProjectileTarget: AddProjectileTarget (apt_target: ProjectileTarget)

definition combat_s2c_fmt :: "('c, CombatS2c) fmt" where
  "combat_s2c_fmt = enum_fmt
    [magic_variant 0x0D is_SetEntityStunned SetEntityStunned stun_target net_id_fmt,
     magic_variant 0x0E is_SetEntityDead SetEntityDead dead_target net_id_fmt,
     magic_variant 0x3F is_SyncEntityHealthBar (\<lambda>(t, p). SyncEntityHealthBar t p) (\<lambda>c. (bar_target c, bar_hp_pct c))
       (pair_fmt net_id_fmt u8_fmt),
     magic_variant 0x87 is_TriggerFloatingDamage (\<lambda>(t, f, d). TriggerFloatingDamage t f d) (\<lambda>c. (fd_target c, fd_flags c, fd_damage c))
       (pair_fmt net_id_fmt (pair_fmt u8_fmt i32_fmt)),
     magic_variant 0x72 is_TriggerSpecialEffect (\<lambda>(k, t). TriggerSpecialEffect k t) (\<lambda>c. (se_kind c, se_target c))
       (pair_fmt (repr_fmt special_effect_codes) net_id_fmt),
     magic_variant 0x46 is_TriggerProjectileEffect (\<lambda>(k, f, t). TriggerProjectileEffect k f t) (\<lambda>c. (pe_kind c, pe_from c, pe_to c))
       (pair_fmt (repr_fmt projectile_codes) (pair_fmt net_id_fmt net_id_fmt)),
     magic_variant 0x47 is_SetProjectileTarget SetProjectileTarget spt_target projectile_target_fmt,
     magic_variant 0x45 is_AddProjectileTarget AddProjectileTarget apt_target projectile_target_fmt]"

section \<open>Stats packets\<close>

text \<open>The discriminants of \<^verbatim>\<open>WireStatPoint\<close>: 1 to 137 without 31.\<close>

definition wire_stat_points :: "u8 list" where
  "wire_stat_points = filter (\<lambda>c. c \<noteq> 31) [1..137]"

type_synonym WireStatSnapshot = "u32 list"

definition STATS_COUNT :: nat where "STATS_COUNT = 255"

definition wire_snapshot_default :: WireStatSnapshot where
  "wire_snapshot_default = replicate STATS_COUNT 0"

text \<open>Indexing panics out of range: \<open>None\<close>.\<close>

definition wire_snapshot_get :: "WireStatSnapshot \<Rightarrow> u8 \<Rightarrow> u32 exec" where
  "wire_snapshot_get s p = (if nat p < length s then Some (s ! nat p) else None)"

definition wire_snapshot_set :: "WireStatSnapshot \<Rightarrow> u8 \<Rightarrow> u32 \<Rightarrow> WireStatSnapshot exec" where
  "wire_snapshot_set s p v = (if nat p < length s then Some (s[nat p := v]) else None)"

datatype StatsS2c =
    is_SetMainCharacterStats: SetMainCharacterStats (smc_stats: WireStatSnapshot)
  | is_SyncEntityStat: SyncEntityStat (ses_net_id: NetId) (ses_stat_id: u8) (ses_absolute: i32)

definition stats_s2c_fmt :: "('c, StatsS2c) fmt" where
  "stats_s2c_fmt = enum_fmt
    [magic_variant 0x10 is_SetMainCharacterStats SetMainCharacterStats smc_stats (array_fmt STATS_COUNT u32_fmt),
     magic_variant 0x11 is_SyncEntityStat (\<lambda>(_, n, s, _, a). SyncEntityStat n s a) (\<lambda>p. ((), ses_net_id p, ses_stat_id p, (), ses_absolute p))
       (pair_fmt (reserved_fmt 3) (pair_fmt net_id_fmt (pair_fmt (discriminant_fmt wire_stat_points)
         (pair_fmt (reserved_fmt 4) i32_fmt))))]"

section \<open>World packets\<close>

datatype EntityType = EtMonster | EtNpc | EtStone | EtWarp | EtPlayer | EtGoto

definition entity_type_codes :: "(u8 \<times> EntityType) list" where
  "entity_type_codes = [(0, EtMonster), (1, EtNpc), (2, EtStone), (3, EtWarp), (6, EtPlayer), (9, EtGoto)]"

datatype NonPlayerEntityType = NpMonster | NpNpc | NpStone | NpWarp | NpGoto

fun non_player_type :: "NonPlayerEntityType \<Rightarrow> EntityType" where
  "non_player_type NpMonster = EtMonster"
| "non_player_type NpNpc = EtNpc"
| "non_player_type NpStone = EtStone"
| "non_player_type NpWarp = EtWarp"
| "non_player_type NpGoto = EtGoto"

text \<open>\<^verbatim>\<open>NonPlayerEntityType::try_from\<close> on the code of an entity type.\<close>

fun try_non_player :: "EntityType \<Rightarrow> NonPlayerEntityType option" where
  "try_non_player EtMonster = Some NpMonster"
| "try_non_player EtNpc = Some NpNpc"
| "try_non_player EtStone = Some NpStone"
| "try_non_player EtWarp = Some NpWarp"
| "try_non_player EtGoto = Some NpGoto"
| "try_non_player EtPlayer = None"

datatype EntityKindCode = KindPlayer PlayerClassGendered | KindNonPlayer NonPlayerEntityType u32

fun kind_entity_type :: "EntityKindCode \<Rightarrow> EntityType" where
  "kind_entity_type (KindPlayer _) = EtPlayer"
| "kind_entity_type (KindNonPlayer t _) = non_player_type t"

text \<open>A race is a 16-bit code: the 32-bit id of a mob template is truncated.\<close>

fun kind_race_code :: "EntityKindCode \<Rightarrow> int" where
  "kind_race_code (KindPlayer cg) = code_of class_gendered_codes cg"
| "kind_race_code (KindNonPlayer _ race) = wrap_u 16 race"

definition kind_try_from_wire :: "EntityType \<times> int \<Rightarrow> EntityKindCode option" where
  "kind_try_from_wire w = (case w of (t, race) \<Rightarrow>
    (case t of
       EtPlayer \<Rightarrow> map_option KindPlayer (map_of class_gendered_codes (wrap_u 8 race))
     | _ \<Rightarrow> map_option (\<lambda>np. KindNonPlayer np race) (try_non_player t)))"

definition entity_kind_fmt :: "(CustomErr, EntityKindCode) fmt" where
  "entity_kind_fmt = try_map_fmt OtherCustom kind_try_from_wire (\<lambda>k. (kind_entity_type k, kind_race_code k))
     (pair_fmt (repr_fmt entity_type_codes) u16_fmt)"

datatype BodyPart = BodyBase PlayerBaseAppearance | BodyWedding | BodyEquipped u32

definition body_part_semantics :: "int \<Rightarrow> BodyPart" where
  "body_part_semantics v =
    (if v = 0 then BodyBase VariantA else if v = 1 then BodyBase VariantB else if v = 2 then BodyWedding else BodyEquipped v)"

fun body_part_code :: "BodyPart \<Rightarrow> int" where
  "body_part_code (BodyBase b) = code_of base_appearance_codes b"
| "body_part_code BodyWedding = 2"
| "body_part_code (BodyEquipped i) = wrap_u 16 i"

datatype EntityVisualParts = EntityVisualParts (vp_body: int) (vp_weapon: "int option") (vp_hair: "int option")

definition opt_u16_fmt :: "('c, int option) fmt" where
  "opt_u16_fmt = zero_opt_fmt Some (\<lambda>v. v) u16_fmt"

definition opt_mob_template_fmt :: "('c, u32 option) fmt" where
  "opt_mob_template_fmt = zero_opt_fmt Some (\<lambda>v. v) u32_fmt"

definition visual_parts_fmt :: "('c, EntityVisualParts) fmt" where
  "visual_parts_fmt = map_fmt (\<lambda>(b, w, _, h). EntityVisualParts b w h) (\<lambda>p. (vp_body p, vp_weapon p, (), vp_hair p))
     (pair_fmt u16_fmt (pair_fmt opt_u16_fmt (pair_fmt (reserved_fmt 2) opt_u16_fmt)))"

datatype WorldS2c =
    is_SpawnEntity: SpawnEntity (sp_net_id: NetId) (sp_angle: u32) (sp_pos: WireWorldPos) (sp_entity: EntityKindCode)
      (sp_move_speed: u8) (sp_attack_speed: u8) (sp_state_flags: u8) (sp_buff_flags: u64)
  | is_SetEntityProfile: SetEntityProfile (pr_net_id: NetId) (pr_name: FixedString) (pr_parts: EntityVisualParts)
      (pr_empire: "Empire option") (pr_guild_id: u32) (pr_level: u32) (pr_rank_pts: int) (pr_pvp_mode: u8) (pr_mount_id: "u32 option")
  | is_SyncEntity: SyncEntity (sy_net_id: NetId) (sy_parts: EntityVisualParts) (sy_move_speed: u8) (sy_attack_speed: u8)
      (sy_state_flags: u8) (sy_buff_flags: u64) (sy_guild_id: u32) (sy_rank_pts: int) (sy_pvp_mode: u8) (sy_mount_id: "u32 option")
  | is_DestroyEntity: DestroyEntity (de_net_id: NetId)

definition world_s2c_fmt :: "(CustomErr, WorldS2c) fmt" where
  "world_s2c_fmt = enum_fmt
    [magic_variant 0x01 is_SpawnEntity (\<lambda>(n, a, p, _, e, ms, as, sf, bf). SpawnEntity n a p e ms as sf bf)
       (\<lambda>w. (sp_net_id w, sp_angle w, sp_pos w, (), sp_entity w, sp_move_speed w, sp_attack_speed w, sp_state_flags w, sp_buff_flags w))
       (pair_fmt net_id_fmt (pair_fmt u32_fmt (pair_fmt world_pos_fmt (pair_fmt (reserved_fmt 4) (pair_fmt entity_kind_fmt
         (pair_fmt u8_fmt (pair_fmt u8_fmt (pair_fmt u8_fmt u64_fmt)))))))),
     magic_variant 0x88 is_SetEntityProfile (\<lambda>(n, nm, p, e, g, l, r, v, m). SetEntityProfile n nm p e g l r v m)
       (\<lambda>w. (pr_net_id w, pr_name w, pr_parts w, pr_empire w, pr_guild_id w, pr_level w, pr_rank_pts w, pr_pvp_mode w, pr_mount_id w))
       (pair_fmt net_id_fmt (pair_fmt entity_name_fmt (pair_fmt visual_parts_fmt (pair_fmt (opt_repr_fmt empire_codes)
         (pair_fmt u32_fmt (pair_fmt u32_fmt (pair_fmt i16_fmt (pair_fmt u8_fmt opt_mob_template_fmt)))))))),
     magic_variant 0x13 is_SyncEntity (\<lambda>(n, p, ms, as, sf, bf, g, r, v, m). SyncEntity n p ms as sf bf g r v m)
       (\<lambda>w. (sy_net_id w, sy_parts w, sy_move_speed w, sy_attack_speed w, sy_state_flags w, sy_buff_flags w, sy_guild_id w,
         sy_rank_pts w, sy_pvp_mode w, sy_mount_id w))
       (pair_fmt net_id_fmt (pair_fmt visual_parts_fmt (pair_fmt u8_fmt (pair_fmt u8_fmt (pair_fmt u8_fmt (pair_fmt u64_fmt
         (pair_fmt u32_fmt (pair_fmt i16_fmt (pair_fmt u8_fmt opt_mob_template_fmt))))))))),
     magic_variant 0x02 is_DestroyEntity DestroyEntity de_net_id net_id_fmt]"

section \<open>Loading and in-game phases\<close>

datatype LoadingS2cSpecific =
  SetMainCharacter (mc_net_id: NetId) (mc_class_gender: PlayerClassGendered) (mc_name: FixedString) (mc_pos: WireWorldPos)
    (mc_empire: Empire) (mc_skill_branch: "SkillBranch option")

definition loading_s2c_specific_fmt :: "('c, LoadingS2cSpecific) fmt" where
  "loading_s2c_specific_fmt = enum_fmt
    [magic_variant 0x71 (\<lambda>_. True) (\<lambda>(n, cg, _, nm, p, _, e, b). SetMainCharacter n cg nm p e b)
       (\<lambda>m. (mc_net_id m, mc_class_gender m, (), mc_name m, mc_pos m, (), mc_empire m, mc_skill_branch m))
       (pair_fmt net_id_fmt (pair_fmt (repr_fmt class_gendered_codes) (pair_fmt (reserved_fmt 1) (pair_fmt entity_name_fmt
         (pair_fmt world_pos_fmt (pair_fmt (reserved_fmt 4) (pair_fmt (repr_fmt empire_codes) (opt_repr_fmt skill_branch_codes))))))))]"

datatype LoadingS2c =
    is_LdsControl: LdsControl (lds_control: ControlS2c)
  | is_LdsSpecific: LdsSpecific (lds_specific: LoadingS2cSpecific)
  | is_LdsStats: LdsStats (lds_stats: StatsS2c)

definition loading_s2c_fmt :: "(CustomErr, LoadingS2c) fmt" where
  "loading_s2c_fmt = route_fmt
    [route_to [0x2C, 0xFF, 0xFC, 0xFD] is_LdsControl LdsControl lds_control control_s2c_fmt,
     route_to [0x71] is_LdsSpecific LdsSpecific lds_specific loading_s2c_specific_fmt,
     route_to [0x10, 0x11] is_LdsStats LdsStats lds_stats stats_s2c_fmt]"

datatype InGameS2c =
    is_IgsControl: IgsControl (igs_control: ControlS2c)
  | is_IgsSystem: IgsSystem (igs_system: SystemS2c)
  | is_IgsMove: IgsMove (igs_move: MovementS2c)
  | is_IgsChat: IgsChat (igs_chat: ChatS2c)
  | is_IgsWorld: IgsWorld (igs_world: WorldS2c)
  | is_IgsStats: IgsStats (igs_stats: StatsS2c)
  | is_IgsCombat: IgsCombat (igs_combat: CombatS2c)

definition ingame_s2c_fmt :: "(CustomErr, InGameS2c) fmt" where
  "ingame_s2c_fmt = route_fmt
    [route_to [0x2C, 0xFF, 0xFC, 0xFD] is_IgsControl IgsControl igs_control control_s2c_fmt,
     route_to [0x41, 0x6A, 0x79] is_IgsSystem IgsSystem igs_system system_s2c_fmt,
     route_to [0x03, 0x6F] is_IgsMove IgsMove igs_move movement_s2c_fmt,
     route_to [0x04] is_IgsChat IgsChat igs_chat chat_s2c_fmt,
     route_to [0x01, 0x02, 0x13, 0x88] is_IgsWorld IgsWorld igs_world world_s2c_fmt,
     route_to [0x10, 0x11] is_IgsStats IgsStats igs_stats stats_s2c_fmt,
     route_to [0x0D, 0x0E, 0x3F, 0x45, 0x46, 0x47, 0x72, 0x87] is_IgsCombat IgsCombat igs_combat combat_s2c_fmt]"

section \<open>The contracts\<close>

lemma ingame_server_laws [wire_laws]:
  "fmt_law movement_s2c_fmt" "fmt_heads movement_s2c_fmt [0x03, 0x6F]"
  "fmt_law chat_s2c_fmt" "fmt_heads chat_s2c_fmt [0x04]"
  "fmt_law system_s2c_fmt" "fmt_heads system_s2c_fmt [0x41, 0x6A, 0x79]"
  "fmt_law stats_s2c_fmt" "fmt_heads stats_s2c_fmt [0x10, 0x11]"
  by (simp_all add: movement_s2c_fmt_def chat_s2c_fmt_def system_s2c_fmt_def stats_s2c_fmt_def decl_defs wire_laws)

lemma combat_server_laws [wire_laws]:
  "fmt_law combat_s2c_fmt" "fmt_heads combat_s2c_fmt [0x0D, 0x0E, 0x3F, 0x45, 0x46, 0x47, 0x72, 0x87]"
  by (simp_all add: combat_s2c_fmt_def projectile_target_fmt_def decl_defs wire_laws)

lemma world_parts_laws [wire_laws]: "fmt_law visual_parts_fmt" "fmt_law entity_kind_fmt" "fmt_law opt_mob_template_fmt"
  by (simp_all add: visual_parts_fmt_def entity_kind_fmt_def opt_u16_fmt_def opt_mob_template_fmt_def wire_laws)

lemma world_server_laws [wire_laws]:
  "fmt_law world_s2c_fmt" "fmt_heads world_s2c_fmt [0x01, 0x02, 0x13, 0x88]"
  by (simp_all add: world_s2c_fmt_def entity_name_fmt_def decl_defs wire_laws)

lemma loading_server_laws [wire_laws]: "fmt_law loading_s2c_specific_fmt" "fmt_heads loading_s2c_specific_fmt [0x71]"
  by (simp_all add: loading_s2c_specific_fmt_def entity_name_fmt_def decl_defs wire_laws)

lemma server_phase_laws:
  "fmt_law handshake_game_s2c_fmt" "fmt_law select_s2c_fmt" "fmt_law loading_s2c_fmt" "fmt_law ingame_s2c_fmt"
  by (simp_all add: handshake_game_s2c_fmt_def select_s2c_fmt_def loading_s2c_fmt_def ingame_s2c_fmt_def decl_defs wire_laws)

section \<open>What the server may send in the game\<close>

text \<open>An optional field uses zero for its absence, so a present value is not zero.\<close>

definition opt_in :: "int \<Rightarrow> int option \<Rightarrow> bool" where
  "opt_in bound v \<longleftrightarrow> (case v of None \<Rightarrow> True | Some x \<Rightarrow> 0 < x \<and> x < bound)"

definition u_in :: "nat \<Rightarrow> int \<Rightarrow> bool" where
  "u_in bytes v \<longleftrightarrow> 0 \<le> v \<and> v < 256 ^ bytes"

definition pos_ok :: "WireWorldPos \<Rightarrow> bool" where
  "pos_ok p \<longleftrightarrow> in_i32 (x_cm p) \<and> in_i32 (y_cm p)"

definition name_ok :: "FixedString \<Rightarrow> bool" where
  "name_ok s \<longleftrightarrow> length (fs_buf s) = 25 \<and> fs_len s = content_len (fs_buf s)"

definition parts_ok :: "EntityVisualParts \<Rightarrow> bool" where
  "parts_ok p \<longleftrightarrow> u_in 2 (vp_body p) \<and> opt_in 65536 (vp_weapon p) \<and> opt_in 65536 (vp_hair p)"

fun kind_ok :: "EntityKindCode \<Rightarrow> bool" where
  "kind_ok (KindPlayer _) = True"
| "kind_ok (KindNonPlayer _ race) = u_in 2 race"

definition target_ok :: "ProjectileTarget \<Rightarrow> bool" where
  "target_ok p \<longleftrightarrow> u_in 4 (pt_caster p) \<and> opt_in 4294967296 (pt_target p) \<and> pos_ok (pt_fallback_target p)"

fun system_ok :: "SystemS2c \<Rightarrow> bool" where
  "system_ok (InitServerHandoff a) = (in_i32 (srv_ipv4_addr a) \<and> u_in 2 (srv_port a))"
| "system_ok (SetServerTime t) = u_in 4 t"
| "system_ok (SetChannelInfo c) = u_in 1 c"

fun movement_ok :: "MovementS2c \<Rightarrow> bool" where
  "movement_ok (SyncEntityMovement k a r n p t d) = (u_in 1 a \<and> u_in 1 r \<and> u_in 4 n \<and> pos_ok p \<and> u_in 4 t \<and> u_in 4 d)"
| "movement_ok (SetEntityMovementAnimation n a) = u_in 4 n"

fun chat_ok :: "ChatS2c \<Rightarrow> bool" where
  "chat_ok (NotifyChatMessage k n e m) = (opt_in 4294967296 n \<and> length m \<le> 65526)"

fun world_ok :: "WorldS2c \<Rightarrow> bool" where
  "world_ok (SpawnEntity n a p e ms as sf bf) =
    (u_in 4 n \<and> u_in 4 a \<and> pos_ok p \<and> kind_ok e \<and> u_in 1 ms \<and> u_in 1 as \<and> u_in 1 sf \<and> u_in 8 bf)"
| "world_ok (SetEntityProfile n nm p e g l r v m) =
    (u_in 4 n \<and> name_ok nm \<and> parts_ok p \<and> u_in 4 g \<and> u_in 4 l \<and> in_s 16 r \<and> u_in 1 v \<and> opt_in 4294967296 m)"
| "world_ok (SyncEntity n p ms as sf bf g r v m) =
    (u_in 4 n \<and> parts_ok p \<and> u_in 1 ms \<and> u_in 1 as \<and> u_in 1 sf \<and> u_in 8 bf \<and> u_in 4 g \<and> in_s 16 r \<and> u_in 1 v \<and> opt_in 4294967296 m)"
| "world_ok (DestroyEntity n) = u_in 4 n"

fun stats_ok :: "StatsS2c \<Rightarrow> bool" where
  "stats_ok (SetMainCharacterStats s) = (length s = STATS_COUNT \<and> list_all (u_in 4) s)"
| "stats_ok (SyncEntityStat n s a) = (u_in 4 n \<and> s \<in> set wire_stat_points \<and> in_i32 a)"

fun combat_ok :: "CombatS2c \<Rightarrow> bool" where
  "combat_ok (SetEntityStunned t) = u_in 4 t"
| "combat_ok (SetEntityDead t) = u_in 4 t"
| "combat_ok (SyncEntityHealthBar t p) = (u_in 4 t \<and> u_in 1 p)"
| "combat_ok (TriggerFloatingDamage t f d) = (u_in 4 t \<and> u_in 1 f \<and> in_i32 d)"
| "combat_ok (TriggerSpecialEffect k t) = u_in 4 t"
| "combat_ok (TriggerProjectileEffect k f t) = (u_in 4 f \<and> u_in 4 t)"
| "combat_ok (SetProjectileTarget p) = target_ok p"
| "combat_ok (AddProjectileTarget p) = target_ok p"

fun ingame_s2c_ok :: "InGameS2c \<Rightarrow> bool" where
  "ingame_s2c_ok (IgsControl c) = s2c_ok c"
| "ingame_s2c_ok (IgsSystem p) = system_ok p"
| "ingame_s2c_ok (IgsMove p) = movement_ok p"
| "ingame_s2c_ok (IgsChat p) = chat_ok p"
| "ingame_s2c_ok (IgsWorld p) = world_ok p"
| "ingame_s2c_ok (IgsStats p) = stats_ok p"
| "ingame_s2c_ok (IgsCombat p) = combat_ok p"

lemma uint_ok: "fmt_ok (uint_fmt n) = u_in n"
  by (simp add: uint_fmt_def u_in_def fun_eq_iff)

lemmas fmt_ok_defs = enum_fmt_def variant_of_def magic_variant_def map_fmt_def pair_fmt_def uint_ok sint_fmt_def reserved_fmt_def
  world_pos_fmt_def server_addr_fmt_def pos_ok_def

lemma repr_ok_animation: "fmt_ok (repr_fmt wire_animation_codes) a"
  by (cases a) (simp_all add: repr_fmt_def code_of_def wire_animation_codes_def)

lemma repr_ok_projectile: "fmt_ok (repr_fmt projectile_codes) k"
  by (cases k) (simp_all add: repr_fmt_def code_of_def projectile_codes_def)

lemma repr_ok_effect: "fmt_ok (repr_fmt special_effect_codes) e"
  by (cases e) (simp_all add: repr_fmt_def code_of_def special_effect_codes_def)

lemma repr_ok_type: "fmt_ok (repr_fmt entity_type_codes) t"
  by (cases t) (simp_all add: repr_fmt_def code_of_def entity_type_codes_def)

lemmas repr_ok_all = repr_ok_animation repr_ok_projectile repr_ok_effect repr_ok_type

lemma opt_empire_ok: "fmt_ok (opt_repr_fmt empire_codes) e"
proof (cases e)
  case (Some x)
  then show ?thesis
    by (cases x) (simp_all add: opt_repr_fmt_def zero_opt_fmt_def uint_fmt_def code_of_def empire_codes_def)
qed (simp add: opt_repr_fmt_def zero_opt_fmt_def uint_fmt_def)

lemma opt_uint_ok: "fmt_ok (zero_opt_fmt Some (\<lambda>v. v) (uint_fmt n)) v = opt_in (256 ^ n) v"
  by (cases v) (auto simp: zero_opt_fmt_def uint_fmt_def opt_in_def)

lemma world_parts_ok:
  "fmt_ok visual_parts_fmt p = parts_ok p" "fmt_ok opt_mob_template_fmt m = opt_in 4294967296 m" "fmt_ok entity_name_fmt s = name_ok s"
  by (simp_all add: visual_parts_fmt_def opt_u16_fmt_def opt_mob_template_fmt_def opt_uint_ok parts_ok_def fmt_ok_defs
      entity_name_fmt_def fixed_string_fmt_def name_ok_def)

lemma entity_kind_ok: "fmt_ok entity_kind_fmt k = kind_ok k"
proof (cases k)
  case (KindPlayer cg)
  then show ?thesis
    by (cases cg) (simp_all add: entity_kind_fmt_def try_map_fmt_def fmt_ok_defs repr_ok_all kind_try_from_wire_def
        code_of_def class_gendered_codes_def wrap_u_def u_in_def)
next
  case (KindNonPlayer t race)
  then show ?thesis
    by (cases t) (auto simp: entity_kind_fmt_def try_map_fmt_def fmt_ok_defs repr_ok_all kind_try_from_wire_def wrap_u_def u_in_def)
qed

lemma system_ok_iff: "fmt_ok system_s2c_fmt p = system_ok p"
  by (cases p) (simp_all add: system_s2c_fmt_def fmt_ok_defs)

lemma movement_ok_iff: "fmt_ok movement_s2c_fmt p = movement_ok p"
  by (cases p) (simp_all add: movement_s2c_fmt_def fmt_ok_defs repr_ok_movement repr_ok_all)

lemma chat_ok_iff: "fmt_ok chat_s2c_fmt p = chat_ok p"
  by (cases p) (auto simp: chat_s2c_fmt_def fmt_ok_defs sized_fmt_def repr_ok_chat opt_empire_ok opt_uint_ok)

lemma world_ok_iff: "fmt_ok world_s2c_fmt p = world_ok p"
  by (cases p) (simp_all add: world_s2c_fmt_def fmt_ok_defs world_parts_ok entity_kind_ok opt_empire_ok)

lemma stats_ok_iff: "fmt_ok stats_s2c_fmt p = stats_ok p"
  by (cases p) (simp_all add: stats_s2c_fmt_def fmt_ok_defs array_fmt_def discriminant_fmt_def)

lemma combat_ok_iff: "fmt_ok combat_s2c_fmt p = combat_ok p"
  by (cases p) (simp_all add: combat_s2c_fmt_def projectile_target_fmt_def target_ok_def opt_uint_ok repr_ok_all fmt_ok_defs)

text \<open>The declared format accepts exactly the packets whose fields are in range.\<close>

lemma ingame_s2c_ok_iff: "fmt_ok ingame_s2c_fmt p \<longleftrightarrow> ingame_s2c_ok p"
  by (cases p) (simp_all add: ingame_s2c_fmt_def route_fmt_def route_to_def map_fmt_def control_s2c_fmt_def
      system_ok_iff movement_ok_iff chat_ok_iff world_ok_iff stats_ok_iff combat_ok_iff)

text \<open>
  The server's side of the in-game protocol: any sequence of packets with every field in its range, written
  one after the other, is read back packet by packet, whatever follows; and whenever the stream is cut
  short, reading the sequence ends with an early end of input, never with other packets.
\<close>

theorem ingame_server_stream:
  assumes "\<forall>p\<in>set ps. ingame_s2c_ok p"
  defines "bytes \<equiv> concat (map (fmt_wr ingame_s2c_fmt) ps)"
  shows "read_many (length ps) (fmt_rd ingame_s2c_fmt) (bytes @ rest) = Inr (ps, rest) \<and>
    (\<forall>k<length bytes. ends_early (read_many (length ps) (fmt_rd ingame_s2c_fmt) (take k bytes)))"
proof -
  have "list_all (fmt_ok ingame_s2c_fmt) ps" using assms(1) by (simp add: list_all_iff ingame_s2c_ok_iff)
  then show ?thesis unfolding bytes_def using read_many_all read_many_short server_phase_laws(4) by blast
qed

definition example_spawn :: "InGameS2c list" where
  "example_spawn =
    [IgsWorld (SpawnEntity 9 0 \<lparr>x_cm = 100, y_cm = - 5\<rparr> (KindNonPlayer NpMonster 101) 100 100 0 0),
     IgsChat (NotifyChatMessage Speak (Some 9) (Some Red) [104, 105, 0])]"

theorem ingame_server_stream_witness:
  "read_many 2 (fmt_rd ingame_s2c_fmt) (concat (map (fmt_wr ingame_s2c_fmt) example_spawn) @ [0x2C]) = Inr (example_spawn, [0x2C])"
proof -
  have "\<forall>p\<in>set example_spawn. ingame_s2c_ok p"
    by (simp add: example_spawn_def u_in_def opt_in_def pos_ok_def in_i32_iff)
  from ingame_server_stream [OF this, of "[0x2C]"] show ?thesis by (simp add: example_spawn_def numeral_2_eq_2)
qed

end
