(* ===== verification/Talking_Chat.thy ===== *)
theory Talking_Chat
  imports Server_Packets
begin

text \<open>
  Local chat (\<^verbatim>\<open>zohar-sim/src/runtime/spatial.rs\<close> and \<^verbatim>\<open>runtime/net/replication.rs\<close>): how the text of a player becomes the message that
  each player around receives, and how the packet carries it.  A player of another empire reads a garbled
  text: the random rolls that decide which characters are changed are a parameter, the \<open>n\<close>-th roll being the \<open>n\<close>-th
  value drawn from the generator.
\<close>

section \<open>The text of a message\<close>

definition text_of :: "u8 list \<Rightarrow> u8 list" where
  "text_of message_bytes = takeWhile (\<lambda>b. b \<noteq> 0) message_bytes"

definition format_talking_message :: "u8 list \<Rightarrow> u8 list \<Rightarrow> u8 list" where
  "format_talking_message from_name message_bytes = from_name @ [0x20, 0x3A, 0x20] @ text_of message_bytes @ [0]"

section \<open>Garbling for another empire\<close>

definition is_ascii_lowercase :: "u8 \<Rightarrow> bool" where
  "is_ascii_lowercase b \<longleftrightarrow> 97 \<le> b \<and> b \<le> 122"

definition is_ascii_uppercase :: "u8 \<Rightarrow> bool" where
  "is_ascii_uppercase b \<longleftrightarrow> 65 \<le> b \<and> b \<le> 90"

definition is_ascii_alphabetic :: "u8 \<Rightarrow> bool" where
  "is_ascii_alphabetic b \<longleftrightarrow> is_ascii_lowercase b \<or> is_ascii_uppercase b"

definition resolve_cross_empire_preserve_pct :: u8 where
  "resolve_cross_empire_preserve_pct = 10"

definition should_convert :: "int \<Rightarrow> u8 \<Rightarrow> bool" where
  "should_convert rolled preserve_pct \<longleftrightarrow> preserve_pct < rolled"

fun empire_shift :: "Empire \<Rightarrow> u8" where
  "empire_shift Red = 5"
| "empire_shift Yellow = 11"
| "empire_shift Blue = 17"

definition remap_ascii_letter_by_empire :: "Empire \<Rightarrow> u8 \<Rightarrow> u8" where
  "remap_ascii_letter_by_empire source_empire letter =
    (let base = (if is_ascii_lowercase letter then 97 else 65)
     in (letter - base + empire_shift source_empire) mod 26 + base)"

text \<open>One pass over the bytes, two at a time where two bytes of a wide character follow each other; one roll per letter or
wide character.  The second component is the position in the rolls afterwards.\<close>

function garble :: "(nat \<Rightarrow> int) \<Rightarrow> nat \<Rightarrow> Empire \<Rightarrow> u8 \<Rightarrow> u8 list \<Rightarrow> u8 list \<times> nat" where
  "garble rolls n source_empire pct [] = ([], n)"
| "garble rolls n source_empire pct (byte # rest) =
    (if is_ascii_alphabetic byte then
       let (out, n') = garble rolls (n + 1) source_empire pct rest
       in ((if should_convert (rolls n) pct then remap_ascii_letter_by_empire source_empire byte else byte) # out, n')
     else if 128 \<le> byte then
       let is_pair = rest \<noteq> [] \<and> 128 \<le> hd rest;
           wide = (if is_pair then [byte, hd rest] else [byte]);
           (out, n') = garble rolls (n + 1) source_empire pct (if is_pair then tl rest else rest)
       in ((if should_convert (rolls n) pct then map (\<lambda>_. 0x3F) wide else wide) @ out, n')
     else let (out, n') = garble rolls n source_empire pct rest in (byte # out, n'))"
  by pat_completeness auto

termination
  by (relation "measure (\<lambda>(_, _, _, _, bytes). length bytes)") auto

definition obfuscate_cross_empire_talking_body :: "(nat \<Rightarrow> int) \<Rightarrow> nat \<Rightarrow> Empire \<Rightarrow> u8 list \<Rightarrow> u8 \<Rightarrow> u8 list \<times> nat" where
  "obfuscate_cross_empire_talking_body rolls n source_empire body_bytes preserve_pct =
    garble rolls n source_empire (min preserve_pct 100) body_bytes"

section \<open>The message for a recipient\<close>

record PendingLocalChat =
  speaker_entity_id :: u32
  speaker_empire :: Empire
  chat_channel :: ChatKind
  speaker_name :: "u8 list"
  chat_message :: "u8 list"

definition local_chat_message_for :: "(nat \<Rightarrow> int) \<Rightarrow> nat \<Rightarrow> PendingLocalChat \<Rightarrow> Empire \<Rightarrow> u8 \<Rightarrow> u8 list \<times> nat" where
  "local_chat_message_for rolls n pending recipient_empire preserve_pct =
    (let message = format_talking_message (speaker_name pending) (chat_message pending);
         body_start = length (speaker_name pending) + 3;
         body_end = length message - 1
     in if recipient_empire \<noteq> speaker_empire pending \<and> body_start < body_end
        then let (body, n') = obfuscate_cross_empire_talking_body rolls n (speaker_empire pending)
                   (take (body_end - body_start) (drop body_start message)) preserve_pct
             in (take body_start message @ body @ drop body_end message, n')
        else (message, n))"

text \<open>\<^verbatim>\<open>encode_chat_event\<close> on the event that \<^verbatim>\<open>push_local_chat_event\<close> queues.\<close>

definition encode_local_chat :: "PendingLocalChat \<Rightarrow> u8 list \<Rightarrow> ChatS2c" where
  "encode_local_chat pending message =
    NotifyChatMessage (chat_channel pending) (Some (speaker_entity_id pending)) (Some (speaker_empire pending)) message"

section \<open>What garbling keeps\<close>

lemma remap_keeps_case:
  assumes "is_ascii_alphabetic b"
  shows "is_ascii_lowercase (remap_ascii_letter_by_empire e b) = is_ascii_lowercase b"
    and "is_ascii_alphabetic (remap_ascii_letter_by_empire e b)"
  using assms pos_mod_bound [of 26 "b - 97 + empire_shift e"] pos_mod_bound [of 26 "b - 65 + empire_shift e"]
    pos_mod_sign [of 26 "b - 97 + empire_shift e"] pos_mod_sign [of 26 "b - 65 + empire_shift e"]
  unfolding remap_ascii_letter_by_empire_def Let_def is_ascii_alphabetic_def is_ascii_lowercase_def is_ascii_uppercase_def
  by (auto split: if_splits)

definition same_shape :: "u8 \<Rightarrow> u8 \<Rightarrow> bool" where
  "same_shape b b' \<longleftrightarrow> (if is_ascii_alphabetic b then is_ascii_alphabetic b' \<and> is_ascii_lowercase b' = is_ascii_lowercase b
     else b' = b \<or> (128 \<le> b \<and> b' = 0x3F))"

lemma same_shape_refl [simp]: "same_shape b b"
  by (simp add: same_shape_def)

lemma same_shape_letter [simp]: "is_ascii_alphabetic b \<Longrightarrow> same_shape b (remap_ascii_letter_by_empire e b)"
  by (simp add: same_shape_def remap_keeps_case)

lemma same_shape_wide [simp]: "128 \<le> b \<Longrightarrow> same_shape b 0x3F"
  by (simp add: same_shape_def is_ascii_alphabetic_def is_ascii_lowercase_def is_ascii_uppercase_def)

text \<open>Byte by byte, letters stay letters of the same case, bytes of wide characters stay or become question marks, and
everything else stays.\<close>

lemma garble_shape: "list_all2 same_shape bytes (fst (garble rolls n e pct bytes))"
proof (induction rolls n e pct bytes rule: garble.induct)
  case (2 rolls n e pct byte rest)
  show ?case
  proof (cases "is_ascii_alphabetic byte")
    case True
    then show ?thesis using "2.IH"(1) by (auto split: prod.splits)
  next
    case alpha: False
    show ?thesis
    proof (cases "128 \<le> byte \<and> rest \<noteq> [] \<and> 128 \<le> hd rest")
      case True
      then obtain c cs where r: "rest = c # cs" "128 \<le> c" by (cases rest) auto
      then show ?thesis using "2.IH"(2) alpha True by (auto simp: Let_def split: prod.splits)
    next
      case False
      then show ?thesis using "2.IH"(2,3) alpha by (auto simp: Let_def split: prod.splits)
    qed
  qed
qed simp

lemma garble_length [simp]: "length (fst (garble rolls n e pct bytes)) = length bytes"
  using garble_shape list_all2_lengthD by metis

lemma local_chat_message_form:
  obtains body where "fst (local_chat_message_for rolls n c e pct) = speaker_name c @ [0x20, 0x3A, 0x20] @ body @ [0]"
    and "list_all2 same_shape (text_of (chat_message c)) body" and "e = speaker_empire c \<Longrightarrow> body = text_of (chat_message c)"
proof (cases "e \<noteq> speaker_empire c \<and> text_of (chat_message c) \<noteq> []")
  case True
  let ?body = "fst (garble rolls n (speaker_empire c) (min pct 100) (text_of (chat_message c)))"
  have "fst (local_chat_message_for rolls n c e pct) = speaker_name c @ [0x20, 0x3A, 0x20] @ ?body @ [0]"
    using True by (simp add: local_chat_message_for_def format_talking_message_def obfuscate_cross_empire_talking_body_def Let_def
        numeral_3_eq_3 split: prod.splits)
  then show ?thesis using that [of ?body] garble_shape True by blast
next
  case False
  then have "fst (local_chat_message_for rolls n c e pct) = speaker_name c @ [0x20, 0x3A, 0x20] @ text_of (chat_message c) @ [0]"
    by (auto simp: local_chat_message_for_def format_talking_message_def Let_def)
  then show ?thesis using that [of "text_of (chat_message c)"] by (simp add: list_all2_refl)
qed

lemma chat_read_back:
  assumes "opt_in 4294967296 net" and "length m \<le> 131062"
  shows "fmt_rd chat_s2c_fmt (fmt_wr chat_s2c_fmt (NotifyChatMessage k net em m) @ rest) =
    (if length m \<le> 65526 then Inr (NotifyChatMessage k net em m, rest)
     else Inr (NotifyChatMessage k net em (take (length m - 65536) m), drop (length m - 65536) m @ rest))"
proof (cases "length m \<le> 65526")
  case True
  then show ?thesis using fmt_law_read [OF ingame_server_laws(3)] chat_ok_iff assms(1) by simp
next
  case False
  let ?f = "pair_fmt (repr_fmt chat_kind_codes) (pair_fmt opt_net_id_fmt (opt_repr_fmt empire_codes)) ::
    (CustomErr, ChatKind \<times> NetId option \<times> Empire option) fmt"
  let ?size = "wrap_u 16 (int (length m + 9))"
  have f: "fmt_law ?f" by (simp add: wire_laws)
  have f_ok: "fmt_ok ?f (k, net, em)" using assms(1) by (simp add: pair_fmt_def repr_ok_chat opt_empire_ok opt_uint_ok)
  have size: "?size = int (length m) + 9 - 65536" using False assms(2) unfolding wrap_u_def
    by (simp add: mod_pos_geq [of 65536] zmod_trivial_iff)
  have u: "fmt_rd (u16_fmt :: (CustomErr, int) fmt) (le_bytes 2 ?size @ bs) = Inr (?size, bs)" for bs
    using fmt_law_read [OF uint_law, of "2" ?size bs] size False assms(2) by (simp add: uint_fmt_def)
  have "nat (max 0 (?size - 9)) = length m - 65536" unfolding size by simp
  then have "fmt_rd (sized_fmt 9 ?f) (fmt_wr (sized_fmt 9 ?f) ((k, net, em), m) @ rest) =
      fmt_rd (pair_fmt ?f (bytes_fmt (length m - 65536))) (fmt_wr ?f (k, net, em) @ m @ rest)"
    by (simp add: sized_fmt_def rbind_def u [simplified])
  also have "\<dots> = Inr (((k, net, em), take (length m - 65536) m), drop (length m - 65536) m @ rest)"
    using False fmt_law_read [OF f f_ok] by (simp add: pair_fmt_def [of ?f] rbind_def rpure_def bytes_fmt_def read_exact_def)
  finally show ?thesis
    using False by (simp add: chat_s2c_fmt_def enum_fmt_def variant_of_def magic_variant_def map_fmt_def read_variant_def rbind_def
        rpure_def read_u8_def)
qed

text \<open>
  C40. Local chat, from the text a player typed to what the client of a listener reads: the message is the speaker's
  name, the separator, the text up to its first zero byte and a terminator; a listener of the same empire gets
  the text itself, another one a text of the same length in which letters stay letters of their case, wide
  characters become question marks at most and everything else stays.  The packet delivers the whole message
  if it has at most 65526 bytes; a longer one makes the 16-bit size wrap, so the client reads only the first
  bytes of it and takes the rest for the next packets.
\<close>

theorem local_chat_delivery:
  assumes "0 < speaker_entity_id c" and "speaker_entity_id c < 4294967296" and "length m \<le> 131062"
    and "m = fst (local_chat_message_for rolls n c e pct)"
  shows "(\<exists>body. m = speaker_name c @ [0x20, 0x3A, 0x20] @ body @ [0] \<and> list_all2 same_shape (text_of (chat_message c)) body \<and>
      (e = speaker_empire c \<longrightarrow> body = text_of (chat_message c))) \<and>
    fmt_rd chat_s2c_fmt (fmt_wr chat_s2c_fmt (encode_local_chat c m) @ rest) =
      (if length m \<le> 65526 then Inr (encode_local_chat c m, rest)
       else Inr (encode_local_chat c (take (length m - 65536) m), drop (length m - 65536) m @ rest))"
proof
  show "\<exists>body. m = speaker_name c @ [0x20, 0x3A, 0x20] @ body @ [0] \<and> list_all2 same_shape (text_of (chat_message c)) body \<and>
      (e = speaker_empire c \<longrightarrow> body = text_of (chat_message c))"
    unfolding assms(4) by (metis local_chat_message_form)
  show "fmt_rd chat_s2c_fmt (fmt_wr chat_s2c_fmt (encode_local_chat c m) @ rest) =
      (if length m \<le> 65526 then Inr (encode_local_chat c m, rest)
       else Inr (encode_local_chat c (take (length m - 65536) m), drop (length m - 65536) m @ rest))"
    unfolding encode_local_chat_def using assms(1-3) by (intro chat_read_back) (simp_all add: opt_in_def)
qed

definition long_chat :: PendingLocalChat where
  "long_chat = \<lparr>speaker_entity_id = 7, speaker_empire = Red, chat_channel = Speak, speaker_name = [90, 111, 101],
     chat_message = replicate 65525 97\<rparr>"

text \<open>A text of 65525 bytes, which a client can send, gives a listener an empty message and 65532 stray bytes.\<close>

theorem local_chat_delivery_witness:
  "\<exists>m rest. ingame_c2s_ok (IgChat (SubmitChatMessage Speak (chat_message long_chat))) \<and>
     m = fst (local_chat_message_for (\<lambda>_. 50) 0 long_chat Red 10) \<and> length m = 65532 \<and> length rest = 65532 \<and>
     fmt_rd chat_s2c_fmt (fmt_wr chat_s2c_fmt (encode_local_chat long_chat m)) = Inr (encode_local_chat long_chat [], rest)"
proof -
  let ?m = "fst (local_chat_message_for (\<lambda>_. 50) 0 long_chat Red 10)"
  have t: "length (text_of (chat_message long_chat)) = 65525"
    by (simp only: long_chat_def text_of_def PendingLocalChat.simps takeWhile_replicate) simp
  obtain body where b: "?m = speaker_name long_chat @ [0x20, 0x3A, 0x20] @ body @ [0]"
    "list_all2 same_shape (text_of (chat_message long_chat)) body" by (rule local_chat_message_form)
  have len: "length ?m = 65532" using t list_all2_lengthD [OF b(2)] unfolding b(1) by (simp add: long_chat_def)
  have id: "0 < speaker_entity_id long_chat" "speaker_entity_id long_chat < 4294967296" by (simp_all add: long_chat_def)
  have "fmt_rd chat_s2c_fmt (fmt_wr chat_s2c_fmt (encode_local_chat long_chat ?m)) = Inr (encode_local_chat long_chat [], ?m)"
    using local_chat_delivery [OF id _ refl, of "\<lambda>_. 50" 0 Red 10 "[]"] len by simp
  moreover have "ingame_c2s_ok (IgChat (SubmitChatMessage Speak (chat_message long_chat)))" by (simp add: long_chat_def)
  ultimately show ?thesis using len by blast
qed

end
