(* ===== verification/Sql_Table.thy ===== *)
theory Sql_Table
  imports Rust_Prelude
begin

text \<open>
  The part of SQL the queries of \<^verbatim>\<open>zohar-db/src/postgres_backend/queries.rs\<close> are written in.  A table is the
  list of its rows; a statement is evaluated at one point of the history of the database, as a single
  PostgreSQL statement or a transaction is, on the tables it names.  A nullable column is an \<open>option\<close>, and a
  comparison with a null column is not true, so \<open>WHERE server_id = $2\<close> is the test \<open>server_id r = Some s\<close>.
  A \<^verbatim>\<open>TIMESTAMPTZ\<close> is its number of microseconds, and \<^verbatim>\<open>NOW()\<close> is the argument \<open>now\<close>.

  The locale \<open>keyed_table\<close> is what the clients use of a table with a primary key: looking a row up after a
  statement that inserts one or updates some.  It is interpreted for each table of the schema.
\<close>

named_theorems sql_keyed \<open>facts about lookups by primary key\<close>

type_synonym 'r table = "'r list"
type_synonym timestamptz = int

definition interval_secs :: "int \<Rightarrow> int" where
  "interval_secs s = s * 1000000"

definition sql_update :: "('r \<Rightarrow> bool) \<Rightarrow> ('r \<Rightarrow> 'r) \<Rightarrow> 'r table \<Rightarrow> 'r table" where
  "sql_update P f t = map (\<lambda>r. if P r then f r else r) t"

definition sql_rows_affected :: "('r \<Rightarrow> bool) \<Rightarrow> 'r table \<Rightarrow> nat" where
  "sql_rows_affected P t = length (filter P t)"

definition sql_exists :: "('r \<Rightarrow> bool) \<Rightarrow> 'r table \<Rightarrow> bool" where
  "sql_exists P t \<longleftrightarrow> list_ex P t"

text \<open>\<^verbatim>\<open>SELECT ... WHERE P LIMIT 1\<close> with \<^verbatim>\<open>fetch_optional\<close>.\<close>

definition sql_first :: "('r \<Rightarrow> bool) \<Rightarrow> 'r table \<Rightarrow> 'r option" where
  "sql_first P t = find P t"

text \<open>\<^verbatim>\<open>INSERT ... ON CONFLICT(key) DO UPDATE SET ...\<close>: \<open>merge\<close> makes the new contents of the existing row.\<close>

definition sql_upsert :: "('r \<Rightarrow> 'k) \<Rightarrow> 'r \<Rightarrow> ('r \<Rightarrow> 'r) \<Rightarrow> 'r table \<Rightarrow> 'r table" where
  "sql_upsert key new merge t =
    (if sql_exists (\<lambda>r. key r = key new) t then sql_update (\<lambda>r. key r = key new) merge t else t @ [new])"

definition row_of :: "('r \<Rightarrow> 'k) \<Rightarrow> 'r table \<Rightarrow> 'k \<Rightarrow> 'r option" where
  "row_of key t k = sql_first (\<lambda>r. key r = k) t"

definition primary_key :: "('r \<Rightarrow> 'k) \<Rightarrow> 'r table \<Rightarrow> bool" where
  "primary_key key t \<longleftrightarrow> distinct (map key t)"

section \<open>Lists as tables\<close>

lemma set_sql_update: "set (sql_update P f t) = f ` {r \<in> set t. P r} \<union> {r \<in> set t. \<not> P r}"
  by (auto simp: sql_update_def)

lemma sql_exists_iff [simp]: "sql_exists P t \<longleftrightarrow> (\<exists>r \<in> set t. P r)"
  by (auto simp: sql_exists_def list_ex_iff)

lemma rows_affected_pos [simp]: "0 < sql_rows_affected P t \<longleftrightarrow> (\<exists>r \<in> set t. P r)"
  by (auto simp: sql_rows_affected_def filter_empty_conv)

lemma sql_update_none: "\<forall>r \<in> set t. \<not> P r \<Longrightarrow> sql_update P f t = t"
  by (simp add: sql_update_def map_idI)

lemma set_sql_upsert:
  "set (sql_upsert key new merge t) =
    (if \<exists>r \<in> set t. key r = key new then merge ` {r \<in> set t. key r = key new} \<union> {r \<in> set t. key r \<noteq> key new} else insert new (set t))"
  by (simp add: sql_upsert_def set_sql_update)

lemma map_key_update: "(\<And>r. P r \<Longrightarrow> key (f r) = key r) \<Longrightarrow> map key (sql_update P f t) = map key t"
  by (simp add: sql_update_def)

lemma row_of_Some: "primary_key key t \<Longrightarrow> row_of key t k = Some r \<longleftrightarrow> r \<in> set t \<and> key r = k"
proof (induction t)
  case Nil
  then show ?case by (simp add: row_of_def sql_first_def)
next
  case (Cons a t)
  then have "key a \<notin> key ` set t" and "primary_key key t" by (auto simp: primary_key_def)
  with Cons.IH show ?case by (auto simp: row_of_def sql_first_def)
qed

lemma row_of_None: "row_of key t k = None \<longleftrightarrow> (\<forall>r \<in> set t. key r \<noteq> k)"
  by (auto simp: row_of_def sql_first_def find_None_iff)

lemma row_of_append: "row_of key (t @ [r]) k = (case row_of key t k of Some x \<Rightarrow> Some x | None \<Rightarrow> if key r = k then Some r else None)"
  by (induction t) (auto simp: row_of_def sql_first_def)

lemma row_of_in: "row_of key t k = Some r \<Longrightarrow> r \<in> set t \<and> key r = k"
  unfolding row_of_def sql_first_def by (auto simp: find_Some_iff)

lemma row_of_update:
  assumes "\<And>r. P r \<Longrightarrow> key (f r) = key r"
  shows "row_of key (sql_update P f t) k = map_option (\<lambda>r. if P r then f r else r) (row_of key t k)"
  using assms by (induction t) (auto simp: row_of_def sql_first_def sql_update_def)

lemma affected_row_of:
  assumes "primary_key key t" and "\<And>r. P r \<Longrightarrow> key r = k"
  shows "(\<exists>r \<in> set t. P r) \<longleftrightarrow> (\<exists>r. row_of key t k = Some r \<and> P r)"
  using row_of_Some [OF assms(1)] assms(2) by metis

section \<open>Tables with a primary key\<close>

locale keyed_table =
  fixes rowof :: "'t \<Rightarrow> 'k \<Rightarrow> 'r option"
    and upd :: "('r \<Rightarrow> bool) \<Rightarrow> ('r \<Rightarrow> 'r) \<Rightarrow> 't \<Rightarrow> 't"
    and upsert :: "'r \<Rightarrow> ('r \<Rightarrow> 'r) \<Rightarrow> 't \<Rightarrow> 't"
    and affected :: "('r \<Rightarrow> bool) \<Rightarrow> 't \<Rightarrow> nat"
    and inv :: "'t \<Rightarrow> bool"
    and key :: "'r \<Rightarrow> 'k"
  assumes key_of_row: "inv t \<Longrightarrow> rowof t k = Some r \<Longrightarrow> key r = k"
    and row_upd: "inv t \<Longrightarrow> (\<And>r. P r \<Longrightarrow> key (f r) = key r) \<Longrightarrow>
      rowof (upd P f t) k = map_option (\<lambda>r. if P r then f r else r) (rowof t k)"
    and row_upsert: "inv t \<Longrightarrow> (\<And>r. key r = key new \<Longrightarrow> key (merge r) = key r) \<Longrightarrow>
      rowof (upsert new merge t) k =
        (if k = key new then Some (case rowof t k of None \<Rightarrow> new | Some r \<Rightarrow> merge r) else rowof t k)"
    and affected_iff: "inv t \<Longrightarrow> (\<And>r. P r \<Longrightarrow> key r = k) \<Longrightarrow> 0 < affected P t \<longleftrightarrow> (\<exists>r. rowof t k = Some r \<and> P r)"
    and affected_le: "inv t \<Longrightarrow> (\<And>r. P r \<Longrightarrow> key r = k) \<Longrightarrow> affected P t \<le> 1"
    and inv_upd: "inv t \<Longrightarrow> (\<And>r. P r \<Longrightarrow> key (f r) = key r) \<Longrightarrow> inv (upd P f t)"
    and inv_upsert: "inv t \<Longrightarrow> (\<And>r. key r = key new \<Longrightarrow> key (merge r) = key r) \<Longrightarrow> inv (upsert new merge t)"
begin

text \<open>A statement that names one key leaves the other rows alone.\<close>

lemma other_rows:
  assumes "inv t" and "\<And>r. P r \<Longrightarrow> key r = k" and "\<And>r. P r \<Longrightarrow> key (f r) = key r" and "k' \<noteq> k"
  shows "rowof (upd P f t) k' = rowof t k'"
proof -
  have "\<not> P r" if "rowof t k' = Some r" for r
    using key_of_row [OF assms(1) that] assms(2) [of r] assms(4) by auto
  then show ?thesis using row_upd [OF assms(1), of P f k'] assms(3) by (cases "rowof t k'") auto
qed

lemma affected_one_iff:
  assumes "inv t" and "\<And>r. P r \<Longrightarrow> key r = k"
  shows "affected P t = 1 \<longleftrightarrow> (\<exists>r. rowof t k = Some r \<and> P r)"
proof -
  have "0 < affected P t \<longleftrightarrow> (\<exists>r. rowof t k = Some r \<and> P r)" using assms by (rule affected_iff)
  moreover have "affected P t \<le> 1" using assms by (rule affected_le)
  moreover from this have "affected P t = 1 \<longleftrightarrow> 0 < affected P t" by linarith
  ultimately show ?thesis by simp
qed

end

lemma filter_key_le: "primary_key key t \<Longrightarrow> (\<And>r. P r \<Longrightarrow> key r = k) \<Longrightarrow> length (filter P t) \<le> 1"
proof (induction t)
  case (Cons a t)
  then have rest: "key a \<notin> key ` set t" and pk: "primary_key key t" by (auto simp: primary_key_def)
  show ?case
  proof (cases "P a")
    case True
    with Cons.prems(2) rest have "\<forall>r \<in> set t. \<not> P r" by (metis imageI)
    then show ?thesis using True by simp
  next
    case False
    then show ?thesis using Cons.IH [OF pk Cons.prems(2)] by simp
  qed
qed simp

lemma pk_upsert:
  assumes "primary_key key t" and "\<And>r. key r = key new \<Longrightarrow> key (merge r) = key r"
  shows "primary_key key (sql_upsert key new merge t)"
proof (cases "sql_exists (\<lambda>r. key r = key new) t")
  case True
  then show ?thesis
    using assms(1) map_key_update [of "\<lambda>r. key r = key new" key merge t, OF assms(2)]
    by (simp add: sql_upsert_def primary_key_def)
next
  case False
  then show ?thesis using assms(1) by (auto simp: sql_upsert_def primary_key_def)
qed

lemma row_of_upsert:
  assumes "primary_key key t" and "\<And>r. key r = key new \<Longrightarrow> key (merge r) = key r"
  shows "row_of key (sql_upsert key new merge t) k =
    (if k = key new then Some (case row_of key t k of None \<Rightarrow> new | Some r \<Rightarrow> merge r) else row_of key t k)"
proof (cases "sql_exists (\<lambda>r. key r = key new) t")
  case True
  then have "row_of key t (key new) \<noteq> None" by (auto simp: row_of_None)
  then show ?thesis
    using True row_of_update [of "\<lambda>r. key r = key new" key merge t k, OF assms(2)] row_of_in [of key t k]
    by (cases "row_of key t k") (auto simp: sql_upsert_def)
next
  case False
  then have "row_of key t (key new) = None" by (simp add: row_of_None)
  then show ?thesis using False by (auto simp: sql_upsert_def row_of_append split: option.splits)
qed

text \<open>Every table of rows with distinct keys is a keyed table.\<close>

lemma keyed_rows: "keyed_table (row_of key) sql_update (sql_upsert key) sql_rows_affected (primary_key key) key"
proof
  fix t :: "'a list" and P f
  assume "primary_key key t" and "\<And>r. P r \<Longrightarrow> key (f r) = key r"
  then show "primary_key key (sql_update P f t)" by (simp add: primary_key_def map_key_update)
next
  fix t :: "'a list" and P k
  assume pk: "primary_key key t" and P: "\<And>r. P r \<Longrightarrow> key r = k"
  show "0 < sql_rows_affected P t \<longleftrightarrow> (\<exists>r. row_of key t k = Some r \<and> P r)"
    unfolding rows_affected_pos by (rule affected_row_of [OF pk P])
  show "sql_rows_affected P t \<le> 1" unfolding sql_rows_affected_def by (rule filter_key_le [OF pk P])
qed (auto dest: row_of_in simp: row_of_update row_of_upsert pk_upsert)

end
