(* ===== verification/Session_Store.thy ===== *)
theory Session_Store
  imports Sql_Table
begin

text \<open>
  The table \<^verbatim>\<open>game.sessions\<close> and the statements that change it (\<^verbatim>\<open>acquire_session\<close>,
  \<^verbatim>\<open>resume_session_with_token\<close>, \<^verbatim>\<open>set_session_login_token\<close>, \<^verbatim>\<open>validate_login_token\<close>,
  \<^verbatim>\<open>mark_session_stale\<close>, \<^verbatim>\<open>release_session\<close> and \<^verbatim>\<open>update_session_heartbeat\<close> of
  \<^verbatim>\<open>zohar-db/src/postgres_backend/queries.rs\<close>), each with every guard of its \<^verbatim>\<open>WHERE\<close> clause and
  every branch of its \<^verbatim>\<open>CASE\<close> expressions, and the error type of the crate.

  The session row is the lock that keeps an account on one connection at a time.  The theorems: a row is
  active exactly when it names an owner, whatever statements ran, so reading the owner back never meets a null;
  and as long as heartbeats arrive within the threshold no statement of another connection takes the row away.
\<close>

section \<open>Errors\<close>

datatype DbError =
  Sqlx string | SqlxMigrate string | IntConversion string | ParseEnum string string | Invariant string | Migration string string

type_synonym 'a DbResult = "DbError + 'a"

definition db_invariant :: "'a option \<Rightarrow> string \<Rightarrow> 'a DbResult" where
  "db_invariant x message = (case x of Some v \<Rightarrow> Inr v | None \<Rightarrow> Inl (Invariant message))"

text \<open>\<^verbatim>\<open>row.try_get::<String>(...)\<close> of a nullable column: decoding a null fails.\<close>

definition try_get_text :: "'a option \<Rightarrow> string \<Rightarrow> 'a DbResult" where
  "try_get_text column context = (case column of Some v \<Rightarrow> Inr v | None \<Rightarrow> Inl (Sqlx context))"

section \<open>Rows\<close>

datatype SessionState = AUTHED | ACTIVE

record SessionRow =
  se_username :: string
  se_server_id :: "string option"
  se_connection_id :: "string option"
  last_heartbeat :: timestamptz
  login_token :: "int option"
  login_issued_at :: "timestamptz option"
  peer_ip :: "string option"
  se_state :: SessionState

datatype AcquireSessionResult = Acquired | AlreadyOnOtherServer string

section \<open>Statements\<close>

text \<open>The guard repeated in every \<^verbatim>\<open>CASE\<close> of the upsert.\<close>

definition takeover :: "timestamptz \<Rightarrow> int \<Rightarrow> SessionRow \<Rightarrow> bool" where
  "takeover now stale_threshold_secs r \<longleftrightarrow>
    se_state r = AUTHED \<or> last_heartbeat r < now - interval_secs stale_threshold_secs"

definition acquire_session ::
  "timestamptz \<Rightarrow> string \<Rightarrow> string \<Rightarrow> string \<Rightarrow> int \<Rightarrow> SessionRow table \<Rightarrow> AcquireSessionResult DbResult \<times> SessionRow table" where
  "acquire_session now username server_id connection_id stale_threshold_secs t =
    (let excluded = \<lparr>se_username = username, se_server_id = Some server_id, se_connection_id = Some connection_id,
           last_heartbeat = now, login_token = None, login_issued_at = None, peer_ip = None, se_state = ACTIVE\<rparr>;
         t' = sql_upsert se_username excluded
           (\<lambda>r. r\<lparr>se_server_id := if takeover now stale_threshold_secs r then se_server_id excluded else se_server_id r,
                   se_connection_id := if takeover now stale_threshold_secs r then se_connection_id excluded else se_connection_id r,
                   last_heartbeat := if takeover now stale_threshold_secs r then last_heartbeat excluded else last_heartbeat r,
                   se_state := if takeover now stale_threshold_secs r then ACTIVE else se_state r\<rparr>) t
     in (case row_of se_username t' username of
           None \<Rightarrow> Inl (Sqlx ''acquire session'')
         | Some row \<Rightarrow>
             (case try_get_text (se_connection_id row) ''read connection_id'' of
                Inl e \<Rightarrow> Inl e
              | Inr result_connection_id \<Rightarrow>
                  if result_connection_id = connection_id then Inr Acquired
                  else (case try_get_text (se_server_id row) ''read server_id'' of
                          Inl e \<Rightarrow> Inl e
                        | Inr sid \<Rightarrow> Inr (AlreadyOnOtherServer sid))), t'))"

text \<open>The part of the two token statements that checks the token itself.\<close>

definition token_usable :: "timestamptz \<Rightarrow> int \<Rightarrow> int \<Rightarrow> string \<Rightarrow> SessionRow \<Rightarrow> bool" where
  "token_usable now token idle_ttl_secs ip r \<longleftrightarrow>
    login_token r = Some token \<and>
    (case login_issued_at r of None \<Rightarrow> False | Some issued \<Rightarrow> now - interval_secs (max idle_ttl_secs 0) \<le> issued) \<and>
    (peer_ip r = None \<or> peer_ip r = Some ip)"

definition resume_session_with_token ::
  "timestamptz \<Rightarrow> string \<Rightarrow> u32 \<Rightarrow> string \<Rightarrow> string \<Rightarrow> int \<Rightarrow> int \<Rightarrow> string \<Rightarrow> SessionRow table \<Rightarrow> bool DbResult \<times> SessionRow table" where
  "resume_session_with_token now username token server_id connection_id stale_threshold_secs idle_ttl_secs ip t =
    (let P = (\<lambda>r. se_username r = username \<and> token_usable now token idle_ttl_secs ip r \<and>
           (se_state r = AUTHED \<or>
            last_heartbeat r < now - interval_secs (max stale_threshold_secs 0) \<or>
            (se_server_id r = Some server_id \<and> se_connection_id r = Some connection_id)))
     in (Inr (0 < sql_rows_affected P t),
         sql_update P (\<lambda>r. r\<lparr>se_server_id := Some server_id, se_connection_id := Some connection_id,
           last_heartbeat := now, se_state := ACTIVE, login_issued_at := Some now, peer_ip := Some ip\<rparr>) t))"

text \<open>The guard of the four \<^verbatim>\<open>CASE\<close> expressions of \<^verbatim>\<open>set_session_login_token\<close>.\<close>

definition actively_owned :: "SessionRow \<Rightarrow> bool" where
  "actively_owned r \<longleftrightarrow> se_state r = ACTIVE \<and> se_server_id r \<noteq> None \<and> se_connection_id r \<noteq> None"

definition set_session_login_token :: "timestamptz \<Rightarrow> string \<Rightarrow> u32 \<Rightarrow> SessionRow table \<Rightarrow> unit DbResult \<times> SessionRow table" where
  "set_session_login_token now username token t =
    (let excluded = \<lparr>se_username = username, se_server_id = None, se_connection_id = None, last_heartbeat = now,
           login_token = Some token, login_issued_at = Some now, peer_ip = None, se_state = AUTHED\<rparr>
     in (Inr (),
         sql_upsert se_username excluded
           (\<lambda>r. r\<lparr>login_token := login_token excluded, login_issued_at := login_issued_at excluded, peer_ip := None,
                   se_state := if actively_owned r then se_state r else AUTHED,
                   se_server_id := if actively_owned r then se_server_id r else None,
                   se_connection_id := if actively_owned r then se_connection_id r else None,
                   last_heartbeat := if actively_owned r then last_heartbeat r else last_heartbeat excluded\<rparr>) t))"

definition validate_login_token ::
  "timestamptz \<Rightarrow> string \<Rightarrow> u32 \<Rightarrow> int \<Rightarrow> string \<Rightarrow> SessionRow table \<Rightarrow> bool DbResult \<times> SessionRow table" where
  "validate_login_token now username token idle_ttl_secs ip t =
    (let P = (\<lambda>r. se_username r = username \<and> se_state r = AUTHED \<and> token_usable now token idle_ttl_secs ip r)
     in (Inr (0 < sql_rows_affected P t),
         sql_update P (\<lambda>r. r\<lparr>login_issued_at := Some now, peer_ip := Some ip\<rparr>) t))"

text \<open>\<^verbatim>\<open>WHERE username = $1 AND server_id = $2 AND connection_id = $3\<close>.\<close>

definition owned_by :: "string \<Rightarrow> string \<Rightarrow> string \<Rightarrow> SessionRow \<Rightarrow> bool" where
  "owned_by username server_id connection_id r \<longleftrightarrow>
    se_username r = username \<and> se_server_id r = Some server_id \<and> se_connection_id r = Some connection_id"

definition mark_session_stale :: "timestamptz \<Rightarrow> string \<Rightarrow> string \<Rightarrow> string \<Rightarrow> int \<Rightarrow> SessionRow table \<Rightarrow> unit DbResult \<times> SessionRow table" where
  "mark_session_stale now username server_id connection_id stale_threshold_secs t =
    (Inr (), sql_update (owned_by username server_id connection_id)
      (\<lambda>r. r\<lparr>last_heartbeat := now - interval_secs (max stale_threshold_secs 0 + 1), se_state := ACTIVE\<rparr>) t)"

definition release_update :: "string \<Rightarrow> string \<Rightarrow> string \<Rightarrow> SessionRow table \<Rightarrow> SessionRow table" where
  "release_update username server_id connection_id t =
    sql_update (owned_by username server_id connection_id)
      (\<lambda>r. r\<lparr>se_server_id := None, se_connection_id := None, se_state := AUTHED\<rparr>) t"

definition release_session :: "string \<Rightarrow> string \<Rightarrow> string \<Rightarrow> SessionRow table \<Rightarrow> bool DbResult \<times> SessionRow table" where
  "release_session username server_id connection_id t =
    (Inr (0 < sql_rows_affected (owned_by username server_id connection_id) t), release_update username server_id connection_id t)"

definition update_session_heartbeat :: "timestamptz \<Rightarrow> string \<Rightarrow> SessionRow table \<Rightarrow> unit DbResult \<times> SessionRow table" where
  "update_session_heartbeat now username t =
    (Inr (), sql_update (\<lambda>r. se_username r = username \<and> se_state r = ACTIVE) (\<lambda>r. r\<lparr>last_heartbeat := now\<rparr>) t)"

section \<open>A history of statements\<close>

datatype SessionStmt =
    SAcquire string string string int
  | SResume string u32 string string int int string
  | SSetToken string u32
  | SValidate string u32 int string
  | SMarkStale string string string int
  | SRelease string string string
  | SHeartbeat string

fun run_stmt :: "timestamptz \<Rightarrow> SessionStmt \<Rightarrow> SessionRow table \<Rightarrow> SessionRow table" where
  "run_stmt now (SAcquire u s c thr) t = snd (acquire_session now u s c thr t)"
| "run_stmt now (SResume u tok s c thr ttl ip) t = snd (resume_session_with_token now u tok s c thr ttl ip t)"
| "run_stmt now (SSetToken u tok) t = snd (set_session_login_token now u tok t)"
| "run_stmt now (SValidate u tok ttl ip) t = snd (validate_login_token now u tok ttl ip t)"
| "run_stmt now (SMarkStale u s c thr) t = snd (mark_session_stale now u s c thr t)"
| "run_stmt now (SRelease u s c) t = snd (release_session u s c t)"
| "run_stmt now (SHeartbeat u) t = snd (update_session_heartbeat now u t)"

fun run_stmts :: "(timestamptz \<times> SessionStmt) list \<Rightarrow> SessionRow table \<Rightarrow> SessionRow table" where
  "run_stmts [] t = t"
| "run_stmts ((now, st) # rest) t = run_stmts rest (run_stmt now st t)"

text \<open>A row is active exactly when it names an owner.\<close>

definition session_row_ok :: "SessionRow \<Rightarrow> bool" where
  "session_row_ok r \<longleftrightarrow>
    (case se_state r of
       ACTIVE \<Rightarrow> se_server_id r \<noteq> None \<and> se_connection_id r \<noteq> None
     | AUTHED \<Rightarrow> se_server_id r = None \<and> se_connection_id r = None)"

definition sessions_ok :: "SessionRow table \<Rightarrow> bool" where
  "sessions_ok t \<longleftrightarrow> primary_key se_username t \<and> (\<forall>r \<in> set t. session_row_ok r)"

interpretation ss: keyed_table "row_of se_username" sql_update "sql_upsert se_username" sql_rows_affected
  "primary_key se_username" se_username
  by (rule keyed_rows)

lemmas session_stmt_defs = acquire_session_def resume_session_with_token_def set_session_login_token_def
  validate_login_token_def mark_session_stale_def release_session_def release_update_def update_session_heartbeat_def

lemma ok_update:
  assumes "sessions_ok t" and "\<And>r. P r \<Longrightarrow> se_username (f r) = se_username r" and "\<And>r. P r \<Longrightarrow> session_row_ok r \<Longrightarrow> session_row_ok (f r)"
  shows "sessions_ok (sql_update P f t)"
  using assms ss.inv_upd [of t P f] by (auto simp: sessions_ok_def set_sql_update)

lemma ok_upsert:
  assumes "sessions_ok t" and "\<And>r. se_username r = se_username new \<Longrightarrow> se_username (merge r) = se_username r"
    and "\<And>r. session_row_ok r \<Longrightarrow> session_row_ok (merge r)" and "session_row_ok new"
  shows "sessions_ok (sql_upsert se_username new merge t)"
  using assms ss.inv_upsert [of t new merge] by (auto simp: sessions_ok_def set_sql_update sql_upsert_def)

lemma ok_run_stmt: "sessions_ok t \<Longrightarrow> sessions_ok (run_stmt now st t)"
  by (cases st)
    (auto simp: session_stmt_defs Let_def session_row_ok_def owned_by_def actively_owned_def takeover_def
      intro!: ok_update ok_upsert split: SessionState.splits)

lemma ok_run_stmts: "sessions_ok t \<Longrightarrow> sessions_ok (run_stmts h t)"
  by (induction h t rule: run_stmts.induct) (auto simp: ok_run_stmt)

section \<open>What each statement does to one row\<close>

lemma row_acquire:
  "primary_key se_username t \<Longrightarrow> row_of se_username (snd (acquire_session now u s c thr t)) u' =
    (if u' = u then
       Some (case row_of se_username t u of
          None \<Rightarrow> \<lparr>se_username = u, se_server_id = Some s, se_connection_id = Some c, last_heartbeat = now,
                   login_token = None, login_issued_at = None, peer_ip = None, se_state = ACTIVE\<rparr>
        | Some r \<Rightarrow> if takeover now thr r then r\<lparr>se_server_id := Some s, se_connection_id := Some c, last_heartbeat := now, se_state := ACTIVE\<rparr>
                    else r)
     else row_of se_username t u')"
  by (simp add: acquire_session_def Let_def ss.row_upsert split: option.splits)

lemma row_set_token:
  "primary_key se_username t \<Longrightarrow> row_of se_username (snd (set_session_login_token now u tok t)) u' =
    (if u' = u then
       Some (case row_of se_username t u of
          None \<Rightarrow> \<lparr>se_username = u, se_server_id = None, se_connection_id = None, last_heartbeat = now,
                   login_token = Some tok, login_issued_at = Some now, peer_ip = None, se_state = AUTHED\<rparr>
        | Some r \<Rightarrow> if actively_owned r then r\<lparr>login_token := Some tok, login_issued_at := Some now, peer_ip := None\<rparr>
                    else r\<lparr>login_token := Some tok, login_issued_at := Some now, peer_ip := None, se_state := AUTHED,
                           se_server_id := None, se_connection_id := None, last_heartbeat := now\<rparr>)
     else row_of se_username t u')"
  by (simp add: set_session_login_token_def Let_def ss.row_upsert split: option.splits)

definition resumable :: "timestamptz \<Rightarrow> u32 \<Rightarrow> string \<Rightarrow> string \<Rightarrow> int \<Rightarrow> int \<Rightarrow> string \<Rightarrow> SessionRow \<Rightarrow> bool" where
  "resumable now tok s c thr ttl ip r \<longleftrightarrow> token_usable now tok ttl ip r \<and>
    (se_state r = AUTHED \<or> last_heartbeat r < now - interval_secs (max thr 0) \<or>
     (se_server_id r = Some s \<and> se_connection_id r = Some c))"

lemma row_resume:
  assumes "primary_key se_username t"
  shows "row_of se_username (snd (resume_session_with_token now u tok s c thr ttl ip t)) u' =
    map_option (\<lambda>r. if u' = u \<and> resumable now tok s c thr ttl ip r
      then r\<lparr>se_server_id := Some s, se_connection_id := Some c, last_heartbeat := now, se_state := ACTIVE,
             login_issued_at := Some now, peer_ip := Some ip\<rparr> else r) (row_of se_username t u')"
  using ss.key_of_row [OF assms, of u'] assms
  by (cases "row_of se_username t u'") (auto simp: resume_session_with_token_def Let_def ss.row_upd resumable_def)

lemma resume_answer:
  assumes "primary_key se_username t"
  shows "fst (resume_session_with_token now u tok s c thr ttl ip t) =
    Inr (\<exists>r. row_of se_username t u = Some r \<and> resumable now tok s c thr ttl ip r)"
  using ss.affected_iff [OF assms, where P = "\<lambda>r. se_username r = u \<and> resumable now tok s c thr ttl ip r" and k = u]
    ss.key_of_row [OF assms, of u]
  unfolding resume_session_with_token_def Let_def fst_conv resumable_def by auto

lemma row_update_stmts:
  assumes "primary_key se_username t"
  shows "row_of se_username (snd (validate_login_token now u tok ttl ip t)) u' =
      map_option (\<lambda>r. if se_username r = u \<and> se_state r = AUTHED \<and> token_usable now tok ttl ip r
        then r\<lparr>login_issued_at := Some now, peer_ip := Some ip\<rparr> else r) (row_of se_username t u')"
    and "row_of se_username (snd (mark_session_stale now u s c thr t)) u' =
      map_option (\<lambda>r. if owned_by u s c r
        then r\<lparr>last_heartbeat := now - interval_secs (max thr 0 + 1), se_state := ACTIVE\<rparr> else r) (row_of se_username t u')"
    and "row_of se_username (release_update u s c t) u' =
      map_option (\<lambda>r. if owned_by u s c r
        then r\<lparr>se_server_id := None, se_connection_id := None, se_state := AUTHED\<rparr> else r) (row_of se_username t u')"
    and "row_of se_username (snd (update_session_heartbeat now u t)) u' =
      map_option (\<lambda>r. if se_username r = u \<and> se_state r = ACTIVE then r\<lparr>last_heartbeat := now\<rparr> else r) (row_of se_username t u')"
  using assms by (simp_all add: session_stmt_defs Let_def ss.row_upd)

section \<open>Ownership\<close>

text \<open>Connection \<open>c\<close> of server \<open>s\<close> holds the account, with a heartbeat no older than \<open>hb\<close>.\<close>

definition held :: "string \<Rightarrow> string \<Rightarrow> string \<Rightarrow> timestamptz \<Rightarrow> SessionRow table \<Rightarrow> bool" where
  "held u s c hb t \<longleftrightarrow> sessions_ok t \<and>
    (case row_of se_username t u of None \<Rightarrow> False
     | Some r \<Rightarrow> se_state r = ACTIVE \<and> se_server_id r = Some s \<and> se_connection_id r = Some c \<and> hb \<le> last_heartbeat r)"

text \<open>
  A history in which the owner neither gives the session up nor falls silent: statements come in the order of
  their clocks, the owner does not release the session or mark it stale, and every attempt of another connection
  comes within the threshold it uses of the last heartbeat.
\<close>

fun undisturbed :: "string \<Rightarrow> string \<Rightarrow> string \<Rightarrow> timestamptz \<Rightarrow> (timestamptz \<times> SessionStmt) list \<Rightarrow> bool" where
  "undisturbed u s c hb [] \<longleftrightarrow> True"
| "undisturbed u s c hb ((now, st) # rest) \<longleftrightarrow> hb \<le> now \<and>
    (case st of
       SHeartbeat u' \<Rightarrow> undisturbed u s c (if u' = u then now else hb) rest
     | SAcquire u' s' c' thr \<Rightarrow> (u' = u \<longrightarrow> now \<le> hb + interval_secs thr) \<and> undisturbed u s c hb rest
     | SResume u' tok s' c' thr ttl ip \<Rightarrow>
         (u' = u \<longrightarrow> now \<le> hb + interval_secs (max thr 0)) \<and> undisturbed u s c hb rest
     | SMarkStale u' s' c' thr \<Rightarrow> (u', s', c') \<noteq> (u, s, c) \<and> undisturbed u s c hb rest
     | SRelease u' s' c' \<Rightarrow> (u', s', c') \<noteq> (u, s, c) \<and> undisturbed u s c hb rest
     | _ \<Rightarrow> undisturbed u s c hb rest)"

lemma heldD:
  assumes "held u s c hb t"
  obtains r where "primary_key se_username t" "row_of se_username t u = Some r" "se_state r = ACTIVE"
    "se_server_id r = Some s" "se_connection_id r = Some c" "hb \<le> last_heartbeat r" "se_username r = u"
  using assms ss.key_of_row [of t u] unfolding held_def sessions_ok_def by (auto split: option.splits)

text \<open>One statement that the owner survives keeps the row the owner's.\<close>

definition last_beat :: "string \<Rightarrow> timestamptz \<Rightarrow> timestamptz \<Rightarrow> SessionStmt \<Rightarrow> timestamptz" where
  "last_beat u hb now st = (case st of SHeartbeat u' \<Rightarrow> if u' = u then now else hb | _ \<Rightarrow> hb)"

lemma undisturbed_Cons:
  "undisturbed u s c hb ((now, st) # rest) \<longleftrightarrow> undisturbed u s c hb [(now, st)] \<and> undisturbed u s c (last_beat u hb now st) rest"
  by (cases st) (auto simp: last_beat_def)

lemma held_step:
  assumes "held u s c hb t" and "undisturbed u s c hb [(now, st)]"
  shows "held u s c (last_beat u hb now st) (run_stmt now st t)"
proof -
  obtain r where pk: "primary_key se_username t" and r: "row_of se_username t u = Some r" "se_state r = ACTIVE"
    "se_server_id r = Some s" "se_connection_id r = Some c" "hb \<le> last_heartbeat r" "se_username r = u"
    using assms(1) by (rule heldD)
  have "sessions_ok (run_stmt now st t)" using assms(1) by (simp add: held_def ok_run_stmt)
  then show ?thesis unfolding held_def
    using assms(2) r
    by (cases st)
      (auto simp: last_beat_def row_acquire [OF pk] row_set_token [OF pk] row_resume [OF pk] row_update_stmts [OF pk]
        release_session_def takeover_def resumable_def actively_owned_def owned_by_def)
qed

lemma held_run: "held u s c hb t \<Longrightarrow> undisturbed u s c hb h \<Longrightarrow> \<exists>hb'. held u s c hb' (run_stmts h t)"
proof (induction h arbitrary: hb t)
  case (Cons a h)
  then show ?case using held_step undisturbed_Cons by (cases a) (metis run_stmts.simps(2))
qed auto

lemma held_run_last:
  assumes "held u s c hb t" and "undisturbed u s c hb (h @ [(now, st)])"
  shows "\<exists>hb'. held u s c hb' (run_stmts h t) \<and> undisturbed u s c hb' [(now, st)]"
  using assms
proof (induction h arbitrary: hb t)
  case (Cons a h)
  then show ?case using held_step undisturbed_Cons by (cases a) (metis append_Cons run_stmts.simps(2))
qed (metis append_Nil run_stmts.simps(1))

lemma held_answers:
  assumes "held u s c hb t"
  shows "now \<le> hb + interval_secs thr \<Longrightarrow> c' \<noteq> c \<Longrightarrow>
      fst (acquire_session now u s' c' thr t) = Inr (AlreadyOnOtherServer s)"
    and "now \<le> hb + interval_secs (max thr 0) \<Longrightarrow> (s', c') \<noteq> (s, c) \<Longrightarrow>
      fst (resume_session_with_token now u tok s' c' thr ttl ip t) = Inr False"
proof -
  obtain r where pk: "primary_key se_username t" and r: "row_of se_username t u = Some r" "se_state r = ACTIVE"
    "se_server_id r = Some s" "se_connection_id r = Some c" "hb \<le> last_heartbeat r" "se_username r = u"
    using assms(1) by (rule heldD)
  show "fst (acquire_session now u s' c' thr t) = Inr (AlreadyOnOtherServer s)"
    if "now \<le> hb + interval_secs thr" "c' \<noteq> c"
  proof -
    have "\<not> takeover now thr r" using that(1) r by (simp add: takeover_def)
    then show ?thesis using row_acquire [OF pk, of now u s' c' thr u] r that(2)
      by (simp add: acquire_session_def Let_def try_get_text_def)
  qed
  show "fst (resume_session_with_token now u tok s' c' thr ttl ip t) = Inr False"
    if "now \<le> hb + interval_secs (max thr 0)" "(s', c') \<noteq> (s, c)"
    using that r by (auto simp: resume_answer [OF pk] resumable_def)
qed

section \<open>Properties\<close>

text \<open>
  Whatever statements ran since the table was empty, no username has two rows, a row is active exactly when
  it names a server and a connection, and reading the owner back after an \<^verbatim>\<open>acquire_session\<close> never meets
  a null: the call answers.
\<close>

theorem session_rows_well_typed:
  "sessions_ok (run_stmts h []) \<and> (\<exists>res. fst (acquire_session now u s c thr (run_stmts h [])) = Inr res)"
proof
  show ok: "sessions_ok (run_stmts h [])" by (rule ok_run_stmts) (simp add: sessions_ok_def primary_key_def)
  let ?t = "snd (acquire_session now u s c thr (run_stmts h []))"
  have ok': "sessions_ok ?t" using ok_run_stmt [OF ok, of now "SAcquire u s c thr"] by simp
  obtain r where r: "row_of se_username ?t u = Some r"
    using row_acquire [of "run_stmts h []" now u s c thr u] ok by (auto simp: sessions_ok_def)
  have "se_state r = ACTIVE"
    using r row_acquire [of "run_stmts h []" now u s c thr u] ok
    by (auto simp: sessions_ok_def takeover_def split: option.splits if_splits) (metis SessionState.exhaust)
  moreover have "session_row_ok r" using ok' row_of_in [OF r] by (simp add: sessions_ok_def)
  ultimately show "\<exists>res. fst (acquire_session now u s c thr (run_stmts h [])) = Inr res"
    using r by (auto simp: session_row_ok_def acquire_session_def Let_def try_get_text_def)
qed

text \<open>
  C3. An account is on one connection at a time.  While the owner keeps its heartbeats within the threshold and
  does not give the session up, whatever statements the servers run: the owner keeps the row, every
  \<^verbatim>\<open>acquire_session\<close> of another connection is answered with the owner's server, and every
  \<^verbatim>\<open>resume_session_with_token\<close> of another connection is refused, even with the right token.
\<close>

theorem session_is_exclusive:
  assumes "held u s c hb t" and "undisturbed u s c hb (h @ [(now, st)])"
  shows "(\<exists>hb'. held u s c hb' (run_stmts h t)) \<and>
    (case st of
       SAcquire u' s' c' thr \<Rightarrow> u' = u \<and> c' \<noteq> c \<longrightarrow>
         fst (acquire_session now u s' c' thr (run_stmts h t)) = Inr (AlreadyOnOtherServer s)
     | SResume u' tok s' c' thr ttl ip \<Rightarrow> u' = u \<and> (s', c') \<noteq> (s, c) \<longrightarrow>
         fst (resume_session_with_token now u tok s' c' thr ttl ip (run_stmts h t)) = Inr False
     | _ \<Rightarrow> True)"
proof -
  obtain hb' where h: "held u s c hb' (run_stmts h t)" and next_ok: "undisturbed u s c hb' [(now, st)]"
    using held_run_last [OF assms] by blast
  from next_ok show ?thesis
    using h held_answers [OF h, of now] by (cases st) auto
qed

text \<open>Two servers, two connections: the second connection is refused while heartbeats arrive, with any token.\<close>

theorem session_is_exclusive_witness:
  "fst (resume_session_with_token 100000000 ''ann'' 7 ''ch2'' ''b'' 60 600 ''10.0.0.2''
     (run_stmts [(30000000, SAcquire ''ann'' ''ch2'' ''b'' 60), (50000000, SHeartbeat ''ann''), (90000000, SSetToken ''ann'' 7)]
       (snd (acquire_session 0 ''ann'' ''ch1'' ''a'' 60 [])))) = Inr False"
proof -
  have "held ''ann'' ''ch1'' ''a'' 0 (snd (acquire_session 0 ''ann'' ''ch1'' ''a'' 60 []))"
    by code_simp
  from session_is_exclusive [OF this,
      of "[(30000000, SAcquire ''ann'' ''ch2'' ''b'' 60), (50000000, SHeartbeat ''ann''), (90000000, SSetToken ''ann'' 7)]"
        100000000 "SResume ''ann'' 7 ''ch2'' ''b'' 60 600 ''10.0.0.2''"]
  show ?thesis by (simp add: interval_secs_def)
qed

end
