(* ===== verification/Player_Store.thy ===== *)
theory Player_Store
  imports Session_Store Player_Rules Game_Packets
begin

text \<open>
  The player tables of the game database (\<^verbatim>\<open>game.profiles\<close>, \<^verbatim>\<open>game.players\<close>,
  \<^verbatim>\<open>game.player_progression\<close>, \<^verbatim>\<open>game.player_runtime_state\<close>) and the queries of
  \<^verbatim>\<open>zohar-db/src/postgres_backend/queries.rs\<close> over them, with the constraints of the schema: a violated
  \<^verbatim>\<open>CHECK\<close> or foreign key fails the statement, a conflict with the partial unique indexes is what
  \<^verbatim>\<open>ON CONFLICT DO NOTHING\<close> skips, and an identity value is consumed even by an insert that is then undone.
  A failed statement or transaction leaves the tables as they were.  An \<^verbatim>\<open>f32\<close> column is its bit pattern.
\<close>

section \<open>Domain values\<close>

type_synonym PlayerId = i64
type_synonym f32 = u32

datatype PlayerGender = Male | Female

record PlayerRuntimeSnapshot =
  ps_id :: PlayerId
  ps_runtime_epoch :: i64
  ps_map_key :: string
  ps_local_pos :: "f32 \<times> f32"
  ps_playtime :: duration
  ps_current_hp :: "i32 option"
  ps_current_sp :: "i32 option"
  ps_current_stamina :: "i32 option"

record PlayerProgressionSnapshot =
  ps_level :: i32
  ps_exp_in_level :: i64
  ps_core_stat_allocations :: CoreStatAllocations
  ps_stat_reset_count :: i32

record PlayerSnapshot =
  snap_runtime :: PlayerRuntimeSnapshot
  snap_progression :: PlayerProgressionSnapshot

definition snapshot_player_id :: "PlayerSnapshot \<Rightarrow> PlayerId" where
  "snapshot_player_id s = ps_id (snap_runtime s)"

definition playtime_as_secs_i64 :: "duration \<Rightarrow> i64" where
  "playtime_as_secs_i64 d = (let secs = d div 1000000000 in if in_i64 secs then secs else i64_MAX)"

section \<open>Text columns that hold enumerations\<close>

text \<open>\<^verbatim>\<open>strum\<close>'s case-insensitive parser compares the text with each name, letter case aside.\<close>

definition ascii_upper :: "char \<Rightarrow> char" where
  "ascii_upper c = (let n = (of_char c :: nat) in if 97 \<le> n \<and> n \<le> 122 then char_of (n - 32) else c)"

definition eq_ignore_ascii_case :: "string \<Rightarrow> string \<Rightarrow> bool" where
  "eq_ignore_ascii_case a b \<longleftrightarrow> map ascii_upper a = map ascii_upper b"

definition db_empires :: "(string \<times> Empire) list" where
  "db_empires = [(''RED'', Red), (''YELLOW'', Yellow), (''BLUE'', Blue)]"

definition db_classes :: "(string \<times> PlayerClass) list" where
  "db_classes = [(''WARRIOR'', Warrior), (''NINJA'', Ninja), (''SURA'', Sura), (''SHAMAN'', Shaman)]"

definition db_genders :: "(string \<times> PlayerGender) list" where
  "db_genders = [(''M'', Male), (''F'', Female)]"

definition db_appearances :: "(string \<times> PlayerBaseAppearance) list" where
  "db_appearances = [(''A'', VariantA), (''B'', VariantB)]"

definition parse_enum :: "(string \<times> 'a) list \<Rightarrow> string \<Rightarrow> string \<Rightarrow> 'a DbResult" where
  "parse_enum names kind raw =
    (case find (\<lambda>(n, _). eq_ignore_ascii_case n raw) names of Some (_, v) \<Rightarrow> Inr v | None \<Rightarrow> Inl (ParseEnum kind raw))"

definition enum_text :: "(string \<times> 'a) list \<Rightarrow> 'a \<Rightarrow> string" where
  "enum_text names v = (case find (\<lambda>(_, x). x = v) names of Some (n, _) \<Rightarrow> n | None \<Rightarrow> [])"

section \<open>Rows\<close>

record ProfileData =
  pf_username :: string
  pf_empire :: "string option"
  pf_delete_code :: string
  pf_banned_until :: "timestamptz option"

record PlayerData =
  p_id :: PlayerId
  p_username :: string
  p_slot :: i32
  p_name :: string
  p_class_name :: string
  p_gender :: string
  p_appearance :: string
  p_deleted_at :: "timestamptz option"

record ProgressionData =
  prog_player_id :: PlayerId
  prog_level :: i32
  prog_exp_in_level :: i64
  prog_allocated :: CoreStatAllocations
  prog_stat_reset_count :: i32
  prog_playtime_secs :: i64

record RuntimeData =
  rt_player_id :: PlayerId
  rt_map_key :: "string option"
  rt_local_x :: "f32 option"
  rt_local_y :: "f32 option"
  rt_current_hp :: "i32 option"
  rt_current_sp :: "i32 option"
  rt_current_stamina :: "i32 option"
  rt_runtime_epoch :: i64

record GameDb =
  db_profiles :: "ProfileData table"
  db_players :: "PlayerData table"
  db_players_id_seq :: i64
  db_progression :: "ProgressionData table"
  db_runtime_state :: "RuntimeData table"
  db_sessions :: "SessionRow table"

record ProfileRow =
  pr_username :: string
  pr_empire :: "Empire option"
  pr_delete_code :: string
  pr_is_banned :: bool

record PlayerSummaryRow =
  sr_id :: PlayerId
  sr_username :: string
  sr_slot :: i32
  sr_name :: string
  sr_class :: PlayerClass
  sr_gender :: PlayerGender
  sr_appearance :: PlayerBaseAppearance
  sr_level :: i32
  sr_playtime_secs :: i64
  sr_core_stat_allocations :: CoreStatAllocations

record PlayerStatsBootstrapRow = PlayerSummaryRow +
  br_exp_in_level :: i64
  br_stat_reset_count :: i32
  br_current_hp :: "i32 option"
  br_current_sp :: "i32 option"
  br_current_stamina :: "i32 option"

datatype PlayerWriteOutcome = Saved | StaleOwner
datatype CreatePlayerOutcome = Created PlayerSummaryRow | NameTaken
datatype PlayerExitKind = Disconnect | Handoff

section \<open>Profiles\<close>

definition find_profile_by_username :: "timestamptz \<Rightarrow> string \<Rightarrow> GameDb \<Rightarrow> ProfileRow option DbResult" where
  "find_profile_by_username now u db =
    (case row_of pf_username (db_profiles db) u of
       None \<Rightarrow> Inr None
     | Some row \<Rightarrow>
         (case (case pf_empire row of None \<Rightarrow> Inr None
                | Some raw \<Rightarrow> (case parse_enum db_empires ''empire'' raw of Inl e \<Rightarrow> Inl e | Inr v \<Rightarrow> Inr (Some v))) of
            Inl e \<Rightarrow> Inl e
          | Inr empire \<Rightarrow> Inr (Some \<lparr>pr_username = pf_username row, pr_empire = empire, pr_delete_code = pf_delete_code row,
              pr_is_banned = (case pf_banned_until row of None \<Rightarrow> False | Some t \<Rightarrow> now < t)\<rparr>)))"

definition get_or_create_profile :: "timestamptz \<Rightarrow> string \<Rightarrow> GameDb \<Rightarrow> ProfileRow DbResult \<times> GameDb" where
  "get_or_create_profile now u db =
    (let db' = db\<lparr>db_profiles := sql_upsert pf_username
           \<lparr>pf_username = u, pf_empire = None, pf_delete_code = ''1234567'', pf_banned_until = None\<rparr> (\<lambda>r. r) (db_profiles db)\<rparr>
     in (case find_profile_by_username now u db' of
           Inl e \<Rightarrow> Inl e
         | Inr p \<Rightarrow> db_invariant p ''profile should exist after insert'', db'))"

definition update_profile_empire :: "string \<Rightarrow> Empire \<Rightarrow> GameDb \<Rightarrow> unit DbResult \<times> GameDb" where
  "update_profile_empire u empire db =
    (Inr (), db\<lparr>db_profiles := sql_update (\<lambda>r. pf_username r = u) (\<lambda>r. r\<lparr>pf_empire := Some (enum_text db_empires empire)\<rparr>)
       (db_profiles db)\<rparr>)"

definition get_delete_code :: "string \<Rightarrow> GameDb \<Rightarrow> string option DbResult" where
  "get_delete_code u db = Inr (map_option pf_delete_code (row_of pf_username (db_profiles db) u))"

section \<open>Characters\<close>

definition parse_player_summary_row :: "PlayerData \<Rightarrow> ProgressionData \<Rightarrow> PlayerSummaryRow DbResult" where
  "parse_player_summary_row p prog =
    (case parse_enum db_classes ''class'' (p_class_name p) of Inl e \<Rightarrow> Inl e | Inr cl \<Rightarrow>
     case parse_enum db_genders ''gender'' (p_gender p) of Inl e \<Rightarrow> Inl e | Inr ge \<Rightarrow>
     case parse_enum db_appearances ''appearance'' (p_appearance p) of Inl e \<Rightarrow> Inl e | Inr ap \<Rightarrow>
       Inr \<lparr>sr_id = p_id p, sr_username = p_username p, sr_slot = p_slot p, sr_name = p_name p, sr_class = cl,
            sr_gender = ge, sr_appearance = ap, sr_level = prog_level prog, sr_playtime_secs = prog_playtime_secs prog,
            sr_core_stat_allocations = prog_allocated prog\<rparr>)"

text \<open>\<^verbatim>\<open>iter().map(f).collect::<Result<Vec<_>>>()\<close>: the first error wins.\<close>

fun collect_results :: "('a \<Rightarrow> 'b DbResult) \<Rightarrow> 'a list \<Rightarrow> 'b list DbResult" where
  "collect_results f [] = Inr []"
| "collect_results f (x # xs) =
    (case f x of Inl e \<Rightarrow> Inl e
     | Inr y \<Rightarrow> (case collect_results f xs of Inl e \<Rightarrow> Inl e | Inr ys \<Rightarrow> Inr (y # ys)))"

definition active_of :: "string \<Rightarrow> PlayerData \<Rightarrow> bool" where
  "active_of u p \<longleftrightarrow> p_username p = u \<and> p_deleted_at p = None"

text \<open>\<^verbatim>\<open>FROM game.players p JOIN ... ON key = p.id WHERE ... ORDER BY p.slot\<close>, the joined column being a primary key.\<close>

definition join_players :: "(PlayerData \<Rightarrow> bool) \<Rightarrow> ('r \<Rightarrow> PlayerId) \<Rightarrow> 'r table \<Rightarrow> GameDb \<Rightarrow> (PlayerData \<times> 'r) list" where
  "join_players P key t db =
    List.map_filter (\<lambda>p. map_option (Pair p) (row_of key t (p_id p))) (filter P (db_players db))"

definition list_player_summaries_for_user :: "string \<Rightarrow> GameDb \<Rightarrow> PlayerSummaryRow list DbResult" where
  "list_player_summaries_for_user u db =
    collect_results (\<lambda>(p, prog). parse_player_summary_row p prog)
      (sort_key (\<lambda>(p, _). p_slot p) (join_players (active_of u) prog_player_id (db_progression db) db))"

definition fetch_optional :: "('a \<Rightarrow> 'b DbResult) \<Rightarrow> 'a list \<Rightarrow> 'b option DbResult" where
  "fetch_optional f rows =
    (case rows of [] \<Rightarrow> Inr None | row # _ \<Rightarrow> (case f row of Inl e \<Rightarrow> Inl e | Inr v \<Rightarrow> Inr (Some v)))"

definition find_player_summary_by_slot :: "string \<Rightarrow> u8 \<Rightarrow> GameDb \<Rightarrow> PlayerSummaryRow option DbResult" where
  "find_player_summary_by_slot u slot db =
    fetch_optional (\<lambda>(p, prog). parse_player_summary_row p prog)
      (join_players (\<lambda>p. active_of u p \<and> p_slot p = slot) prog_player_id (db_progression db) db)"

definition parse_player_stats_bootstrap_row ::
  "PlayerData \<Rightarrow> ProgressionData \<Rightarrow> RuntimeData option \<Rightarrow> PlayerStatsBootstrapRow DbResult" where
  "parse_player_stats_bootstrap_row p prog rt =
    (case parse_player_summary_row p prog of Inl e \<Rightarrow> Inl e
     | Inr s \<Rightarrow> Inr (PlayerSummaryRow.extend s (PlayerStatsBootstrapRow.fields (prog_exp_in_level prog)
         (prog_stat_reset_count prog) (Option.bind rt rt_current_hp) (Option.bind rt rt_current_sp)
         (Option.bind rt rt_current_stamina))))"

definition find_player_stats_bootstrap_by_id :: "PlayerId \<Rightarrow> GameDb \<Rightarrow> PlayerStatsBootstrapRow option DbResult" where
  "find_player_stats_bootstrap_by_id i db =
    fetch_optional (\<lambda>(p, prog). parse_player_stats_bootstrap_row p prog (row_of rt_player_id (db_runtime_state db) (p_id p)))
      (join_players (\<lambda>p. p_id p = i \<and> p_deleted_at p = None) prog_player_id (db_progression db) db)"

text \<open>The conflicts the unique indexes over the active characters and the primary key can raise.\<close>

definition player_conflict :: "PlayerData \<Rightarrow> PlayerData \<Rightarrow> bool" where
  "player_conflict new p \<longleftrightarrow> p_id p = p_id new \<or>
    (p_deleted_at p = None \<and> (p_name p = p_name new \<or> (p_username p = p_username new \<and> p_slot p = p_slot new)))"

definition new_player :: "PlayerId \<Rightarrow> string \<Rightarrow> u8 \<Rightarrow> string \<Rightarrow> PlayerClass \<Rightarrow> PlayerGender \<Rightarrow> PlayerBaseAppearance \<Rightarrow> PlayerData" where
  "new_player i u slot nam cl ge ap =
    \<lparr>p_id = i, p_username = u, p_slot = slot, p_name = nam, p_class_name = enum_text db_classes cl,
     p_gender = enum_text db_genders ge, p_appearance = enum_text db_appearances ap, p_deleted_at = None\<rparr>"

definition new_progression :: "PlayerId \<Rightarrow> ProgressionData" where
  "new_progression i =
    \<lparr>prog_player_id = i, prog_level = 1, prog_exp_in_level = 0,
     prog_allocated = \<lparr>allocated_str = 0, allocated_vit = 0, allocated_dex = 0, allocated_int = 0\<rparr>,
     prog_stat_reset_count = 0, prog_playtime_secs = 0\<rparr>"

definition new_runtime :: "PlayerId \<Rightarrow> RuntimeData" where
  "new_runtime i =
    \<lparr>rt_player_id = i, rt_map_key = None, rt_local_x = None, rt_local_y = None, rt_current_hp = None,
     rt_current_sp = None, rt_current_stamina = None, rt_runtime_epoch = 0\<rparr>"

definition create_player ::
  "string \<Rightarrow> u8 \<Rightarrow> string \<Rightarrow> PlayerClass \<Rightarrow> PlayerGender \<Rightarrow> PlayerBaseAppearance \<Rightarrow> GameDb \<Rightarrow> CreatePlayerOutcome DbResult \<times> GameDb" where
  "create_player u slot nam cl ge ap db0 =
    (let new_id = db_players_id_seq db0;
         db = db0\<lparr>db_players_id_seq := new_id + 1\<rparr>;
         p = new_player new_id u slot nam cl ge ap;
         prog = new_progression new_id;
         rt = new_runtime new_id
     in if \<not> (0 \<le> slot \<and> slot < 4) then (Inl (Sqlx ''insert player identity''), db)
        else if sql_exists (player_conflict p) (db_players db) then (Inr NameTaken, db)
        else if row_of pf_username (db_profiles db) u = None then (Inl (Sqlx ''insert player identity''), db)
        else if row_of prog_player_id (db_progression db) new_id \<noteq> None then (Inl (Sqlx ''insert player progression''), db)
        else if row_of rt_player_id (db_runtime_state db) new_id \<noteq> None then (Inl (Sqlx ''insert player runtime state''), db)
        else (case parse_player_summary_row p prog of Inl e \<Rightarrow> Inl e | Inr s \<Rightarrow> Inr (Created s),
              db\<lparr>db_players := db_players db @ [p], db_progression := db_progression db @ [prog],
                 db_runtime_state := db_runtime_state db @ [rt]\<rparr>))"

definition delete_player_with_code :: "timestamptz \<Rightarrow> string \<Rightarrow> u8 \<Rightarrow> string \<Rightarrow> GameDb \<Rightarrow> bool DbResult \<times> GameDb" where
  "delete_player_with_code now u slot code db =
    (let P = (\<lambda>p. active_of u p \<and> p_slot p = slot \<and>
           (case row_of pf_username (db_profiles db) u of None \<Rightarrow> False | Some pf \<Rightarrow> pf_delete_code pf = code))
     in (Inr (sql_exists P (db_players db)),
         db\<lparr>db_players := sql_update P (\<lambda>p. p\<lparr>p_deleted_at := Some now\<rparr>) (db_players db)\<rparr>))"

section \<open>Runtime state\<close>

definition list_player_runtime_states_for_user :: "string \<Rightarrow> GameDb \<Rightarrow> RuntimeData list DbResult" where
  "list_player_runtime_states_for_user u db =
    Inr (map snd (sort_key (\<lambda>(p, _). p_slot p) (join_players (active_of u) rt_player_id (db_runtime_state db) db)))"

definition find_player_runtime_state_by_player_id :: "PlayerId \<Rightarrow> GameDb \<Rightarrow> RuntimeData option DbResult" where
  "find_player_runtime_state_by_player_id i db =
    fetch_optional (\<lambda>(_, rt). Inr rt)
      (join_players (\<lambda>p. p_id p = i \<and> p_deleted_at p = None) rt_player_id (db_runtime_state db) db)"

definition runtime_set :: "PlayerRuntimeSnapshot \<Rightarrow> RuntimeData \<Rightarrow> RuntimeData" where
  "runtime_set s r = r\<lparr>rt_map_key := Some (ps_map_key s), rt_local_x := Some (fst (ps_local_pos s)),
     rt_local_y := Some (snd (ps_local_pos s)), rt_current_hp := ps_current_hp s, rt_current_sp := ps_current_sp s,
     rt_current_stamina := ps_current_stamina s\<rparr>"

definition progression_set :: "PlayerSnapshot \<Rightarrow> ProgressionData \<Rightarrow> ProgressionData" where
  "progression_set s g =
    (let q = snap_progression s in
     g\<lparr>prog_playtime_secs := max (prog_playtime_secs g) (playtime_as_secs_i64 (ps_playtime (snap_runtime s))),
       prog_level := ps_level q, prog_exp_in_level := ps_exp_in_level q, prog_allocated := ps_core_stat_allocations q,
       prog_stat_reset_count := ps_stat_reset_count q\<rparr>)"

text \<open>The \<^verbatim>\<open>CHECK\<close> constraints of \<^verbatim>\<open>game.player_progression\<close>.\<close>

definition progression_check :: "ProgressionData \<Rightarrow> bool" where
  "progression_check g \<longleftrightarrow> 1 \<le> prog_level g \<and> 0 \<le> prog_exp_in_level g \<and> 0 \<le> prog_playtime_secs g \<and>
    0 \<le> allocated_str (prog_allocated g) \<and> 0 \<le> allocated_vit (prog_allocated g) \<and>
    0 \<le> allocated_dex (prog_allocated g) \<and> 0 \<le> allocated_int (prog_allocated g)"

definition active_player :: "GameDb \<Rightarrow> PlayerId \<Rightarrow> bool" where
  "active_player db i \<longleftrightarrow> sql_exists (\<lambda>p. p_id p = i \<and> p_deleted_at p = None) (db_players db)"

text \<open>The two data-modifying parts of the statement run whether or not \<^verbatim>\<open>target\<close> has a row.\<close>

definition save_player_snapshot :: "PlayerSnapshot \<Rightarrow> GameDb \<Rightarrow> PlayerWriteOutcome DbResult \<times> GameDb" where
  "save_player_snapshot s db =
    (let i = ps_id (snap_runtime s);
         player_exists = active_player db i \<and> sql_exists (\<lambda>r. rt_player_id r = i) (db_runtime_state db);
         U = (\<lambda>r. rt_player_id r = i \<and> rt_runtime_epoch r = ps_runtime_epoch (snap_runtime s));
         runtime_updated = sql_exists U (db_runtime_state db);
         G = (\<lambda>g. runtime_updated \<and> prog_player_id g = i);
         updated = sql_exists G (db_progression db);
         prog' = sql_update G (progression_set s) (db_progression db)
     in if list_ex (\<lambda>g. G g \<and> \<not> progression_check (progression_set s g)) (db_progression db)
        then (Inl (Sqlx ''save player snapshot''), db)
        else (if \<not> player_exists then Inl (Invariant ''active player should exist when saving player snapshot'')
              else if updated then Inr Saved else Inr StaleOwner,
              db\<lparr>db_runtime_state := sql_update U (runtime_set (snap_runtime s)) (db_runtime_state db), db_progression := prog'\<rparr>))"

definition commit_player_exit ::
  "PlayerExitKind \<Rightarrow> string \<Rightarrow> string \<Rightarrow> string \<Rightarrow> PlayerSnapshot \<Rightarrow> GameDb \<Rightarrow> unit DbResult \<times> GameDb" where
  "commit_player_exit exit_kind u server_id connection_id s db =
    (let i = ps_id (snap_runtime s);
         U = (\<lambda>r. rt_player_id r = i \<and> active_player db i \<and> rt_runtime_epoch r = ps_runtime_epoch (snap_runtime s));
         runtime_updated = sql_exists U (db_runtime_state db);
         G = (\<lambda>g. runtime_updated \<and> prog_player_id g = i)
     in if list_ex (\<lambda>r. U r \<and> \<not> in_i64 (rt_runtime_epoch r + 1)) (db_runtime_state db) \<or>
           list_ex (\<lambda>g. G g \<and> \<not> progression_check (progression_set s g)) (db_progression db)
        then (Inl (Sqlx ''save player runtime state during player exit''), db)
        else if sql_rows_affected G (db_progression db) \<noteq> 1
        then (Inl (Invariant ''active player should exist and own the runtime version when committing player exit''), db)
        else if sql_rows_affected (owned_by u server_id connection_id) (db_sessions db) \<noteq> 1
        then (Inl (Invariant ''active session should exist when committing player exit''), db)
        else (Inr (),
              db\<lparr>db_runtime_state := sql_update U
                   (\<lambda>r. (runtime_set (snap_runtime s) r)\<lparr>rt_runtime_epoch := rt_runtime_epoch r + 1\<rparr>) (db_runtime_state db),
                 db_progression := sql_update G (progression_set s) (db_progression db),
                 db_sessions := release_update u server_id connection_id (db_sessions db)\<rparr>))"

section \<open>Histories and the invariant of the schema\<close>

datatype DbStmt =
    QProfile timestamptz string
  | QEmpire string Empire
  | QCreate string u8 string PlayerClass PlayerGender PlayerBaseAppearance
  | QDelete timestamptz string u8 string
  | QSave PlayerSnapshot
  | QExit PlayerExitKind string string string PlayerSnapshot
  | QSession timestamptz SessionStmt

fun run_db_stmt :: "DbStmt \<Rightarrow> GameDb \<Rightarrow> GameDb" where
  "run_db_stmt (QProfile now u) db = snd (get_or_create_profile now u db)"
| "run_db_stmt (QEmpire u e) db = snd (update_profile_empire u e db)"
| "run_db_stmt (QCreate u slot nam cl ge ap) db = snd (create_player u slot nam cl ge ap db)"
| "run_db_stmt (QDelete now u slot code) db = snd (delete_player_with_code now u slot code db)"
| "run_db_stmt (QSave s) db = snd (save_player_snapshot s db)"
| "run_db_stmt (QExit k u s c snap) db = snd (commit_player_exit k u s c snap db)"
| "run_db_stmt (QSession now st) db = db\<lparr>db_sessions := run_stmt now st (db_sessions db)\<rparr>"

definition run_db :: "DbStmt list \<Rightarrow> GameDb \<Rightarrow> GameDb" where
  "run_db h db = fold run_db_stmt h db"

definition profile_ok :: "ProfileData \<Rightarrow> bool" where
  "profile_ok pf \<longleftrightarrow> (case pf_empire pf of None \<Rightarrow> True | Some raw \<Rightarrow> raw \<in> fst ` set db_empires)"

definition player_columns_ok :: "PlayerData \<Rightarrow> bool" where
  "player_columns_ok p \<longleftrightarrow> 0 \<le> p_slot p \<and> p_slot p < 4 \<and> p_class_name p \<in> fst ` set db_classes \<and>
    p_gender p \<in> fst ` set db_genders \<and> p_appearance p \<in> fst ` set db_appearances"

text \<open>Two active characters share neither a name nor a slot of an account.\<close>

definition players_distinct :: "PlayerData table \<Rightarrow> bool" where
  "players_distinct t \<longleftrightarrow> (\<forall>p \<in> set t. \<forall>q \<in> set t. p_deleted_at p = None \<longrightarrow> p_deleted_at q = None \<longrightarrow>
     p_name p = p_name q \<or> (p_username p = p_username q \<and> p_slot p = p_slot q) \<longrightarrow> p_id p = p_id q)"

definition players_ok :: "GameDb \<Rightarrow> bool" where
  "players_ok db \<longleftrightarrow> primary_key p_id (db_players db) \<and> players_distinct (db_players db) \<and>
    (\<forall>p \<in> set (db_players db). player_columns_ok p \<and> p_id p < db_players_id_seq db \<and>
       row_of prog_player_id (db_progression db) (p_id p) \<noteq> None \<and>
       row_of rt_player_id (db_runtime_state db) (p_id p) \<noteq> None)"

definition progression_ok :: "GameDb \<Rightarrow> bool" where
  "progression_ok db \<longleftrightarrow> primary_key prog_player_id (db_progression db) \<and>
    (\<forall>g \<in> set (db_progression db). progression_check g \<and> prog_player_id g < db_players_id_seq db)"

definition runtime_ok :: "GameDb \<Rightarrow> bool" where
  "runtime_ok db \<longleftrightarrow> primary_key rt_player_id (db_runtime_state db) \<and>
    (\<forall>r \<in> set (db_runtime_state db). rt_player_id r < db_players_id_seq db)"

definition profiles_ok :: "GameDb \<Rightarrow> bool" where
  "profiles_ok db \<longleftrightarrow> primary_key pf_username (db_profiles db) \<and> (\<forall>pf \<in> set (db_profiles db). profile_ok pf)"

definition store_ok :: "GameDb \<Rightarrow> bool" where
  "store_ok db \<longleftrightarrow> profiles_ok db \<and> players_ok db \<and> progression_ok db \<and> runtime_ok db \<and> sessions_ok (db_sessions db)"

interpretation pft: keyed_table "row_of pf_username" sql_update "sql_upsert pf_username" sql_rows_affected
  "primary_key pf_username" pf_username
  by (rule keyed_rows)

interpretation plt: keyed_table "row_of p_id" sql_update "sql_upsert p_id" sql_rows_affected "primary_key p_id" p_id
  by (rule keyed_rows)

interpretation pgt: keyed_table "row_of prog_player_id" sql_update "sql_upsert prog_player_id" sql_rows_affected
  "primary_key prog_player_id" prog_player_id
  by (rule keyed_rows)

interpretation rtt: keyed_table "row_of rt_player_id" sql_update "sql_upsert rt_player_id" sql_rows_affected
  "primary_key rt_player_id" rt_player_id
  by (rule keyed_rows)

section \<open>Every statement keeps the invariant\<close>

lemma enum_text_names [simp]:
  "enum_text db_empires e \<in> fst ` set db_empires" "enum_text db_classes cl \<in> fst ` set db_classes"
  "enum_text db_genders ge \<in> fst ` set db_genders" "enum_text db_appearances ap \<in> fst ` set db_appearances"
proof -
  show "enum_text db_empires e \<in> fst ` set db_empires" by (cases e) (simp_all add: enum_text_def db_empires_def)
  show "enum_text db_classes cl \<in> fst ` set db_classes" by (cases cl) (simp_all add: enum_text_def db_classes_def)
  show "enum_text db_genders ge \<in> fst ` set db_genders" by (cases ge) (simp_all add: enum_text_def db_genders_def)
  show "enum_text db_appearances ap \<in> fst ` set db_appearances"
    by (cases ap) (simp_all add: enum_text_def db_appearances_def)
qed

lemma set_keys [simp]:
  "prog_player_id (progression_set s g) = prog_player_id g" "rt_player_id (runtime_set q r) = rt_player_id r"
  "rt_runtime_epoch (runtime_set q r) = rt_runtime_epoch r"
  by (simp_all add: progression_set_def runtime_set_def Let_def)

lemma run_db_Nil [simp]: "run_db [] db = db"
  by (simp add: run_db_def)

lemma run_db_Cons [simp]: "run_db (q # h) db = run_db h (run_db_stmt q db)"
  by (simp add: run_db_def)

lemma profiles_ok_step: "profiles_ok db \<Longrightarrow> profiles_ok (snd (get_or_create_profile now u db))"
  using pft.inv_upsert [of "db_profiles db"
      "\<lparr>pf_username = u, pf_empire = None, pf_delete_code = ''1234567'', pf_banned_until = None\<rparr>" "\<lambda>r. r"]
  by (auto simp: profiles_ok_def get_or_create_profile_def Let_def set_sql_upsert profile_ok_def)

lemma profiles_ok_empire: "profiles_ok db \<Longrightarrow> profiles_ok (snd (update_profile_empire u e db))"
  unfolding profiles_ok_def update_profile_empire_def snd_conv
  using pft.inv_upd [of "db_profiles db"] by (auto simp: set_sql_update profile_ok_def)

text \<open>An update of the progression or runtime table that keeps its keys.\<close>

lemma progression_ok_update:
  assumes "progression_ok db" and "\<And>g. G g \<Longrightarrow> prog_player_id (f g) = prog_player_id g"
    and "\<And>g. g \<in> set (db_progression db) \<Longrightarrow> G g \<Longrightarrow> progression_check (f g)"
  shows "progression_ok (db\<lparr>db_progression := sql_update G f (db_progression db)\<rparr>)"
  using assms pgt.inv_upd [of "db_progression db" G f] by (auto simp: progression_ok_def set_sql_update)

lemma runtime_ok_update:
  assumes "runtime_ok db" and "\<And>r. U r \<Longrightarrow> rt_player_id (f r) = rt_player_id r"
  shows "runtime_ok (db\<lparr>db_runtime_state := sql_update U f (db_runtime_state db)\<rparr>)"
  using assms rtt.inv_upd [of "db_runtime_state db" U f] by (auto simp: runtime_ok_def set_sql_update)

lemma row_update_None:
  assumes "\<And>r. P r \<Longrightarrow> key (f r) = key r"
  shows "row_of key (sql_update P f t) k = None \<longleftrightarrow> row_of key t k = None"
  using row_of_update [of P key f t k, OF assms] by simp

lemma store_ok_write:
  assumes "store_ok db" and "\<And>g. g \<in> set (db_progression db) \<Longrightarrow> G g \<Longrightarrow> progression_check (progression_set s g)"
    and "sessions_ok t" and "\<And>r. U r \<Longrightarrow> rt_player_id (f r) = rt_player_id r"
  shows "store_ok (db\<lparr>db_runtime_state := sql_update U f (db_runtime_state db),
                      db_progression := sql_update G (progression_set s) (db_progression db), db_sessions := t\<rparr>)"
proof -
  from assms(1) have ok: "progression_ok db" "runtime_ok db" "profiles_ok db" "players_ok db" by (simp_all add: store_ok_def)
  have "progression_ok (db\<lparr>db_progression := sql_update G (progression_set s) (db_progression db)\<rparr>)"
    using ok(1) assms(2) by (intro progression_ok_update) simp_all
  moreover have "runtime_ok (db\<lparr>db_runtime_state := sql_update U f (db_runtime_state db)\<rparr>)"
    using ok(2) assms(4) by (rule runtime_ok_update)
  ultimately show ?thesis using ok(3,4) assms(3,4)
    by (simp add: store_ok_def progression_ok_def runtime_ok_def profiles_ok_def players_ok_def row_update_None)
qed

lemma store_ok_write_tables:
  assumes "store_ok db" and "\<And>g. g \<in> set (db_progression db) \<Longrightarrow> G g \<Longrightarrow> progression_check (progression_set s g)"
    and "\<And>r. U r \<Longrightarrow> rt_player_id (f r) = rt_player_id r"
  shows "store_ok (db\<lparr>db_runtime_state := sql_update U f (db_runtime_state db),
                      db_progression := sql_update G (progression_set s) (db_progression db)\<rparr>)"
  using store_ok_write [of db G s "db_sessions db" U f] assms by (simp add: store_ok_def [of db])

lemma store_ok_save: "store_ok db \<Longrightarrow> store_ok (snd (save_player_snapshot s db))"
  by (auto simp: save_player_snapshot_def Let_def list_ex_iff intro!: store_ok_write_tables)

lemma store_ok_exit:
  assumes "store_ok db"
  shows "store_ok (snd (commit_player_exit k u sid c s db))"
proof -
  have "sessions_ok (release_update u sid c (db_sessions db))"
    using assms ok_run_stmt [of "db_sessions db" 0 "SRelease u sid c"] by (simp add: store_ok_def release_session_def)
  then show ?thesis
    using assms by (auto simp: commit_player_exit_def Let_def list_ex_iff intro!: store_ok_write)
qed

lemma row_of_snoc_other: "row_of key t k \<noteq> None \<Longrightarrow> row_of key (t @ [r]) k \<noteq> None"
  by (auto simp: row_of_append)

lemma pk_snoc: "primary_key key t \<Longrightarrow> row_of key t (key r) = None \<Longrightarrow> primary_key key (t @ [r])"
  by (auto simp: primary_key_def row_of_None)

lemma players_distinct_snoc:
  assumes "players_distinct t" and "\<not> sql_exists (player_conflict p) t"
  shows "players_distinct (t @ [p])"
  unfolding players_distinct_def
proof (intro ballI impI)
  fix q r
  assume in_t: "q \<in> set (t @ [p])" "r \<in> set (t @ [p])" and active: "p_deleted_at q = None" "p_deleted_at r = None"
    and clash: "p_name q = p_name r \<or> p_username q = p_username r \<and> p_slot q = p_slot r"
  have free: "\<not> player_conflict p x" if "x \<in> set t" for x using assms(2) that by simp
  show "p_id q = p_id r"
  proof (cases "q = p \<or> r = p")
    case True
    then have "q = p \<and> r = p"
      using in_t active clash free [of q] free [of r] unfolding player_conflict_def by auto
    then show ?thesis by simp
  next
    case False
    with in_t have "q \<in> set t" "r \<in> set t" by simp_all
    then show ?thesis using assms(1) active clash unfolding players_distinct_def by blast
  qed
qed

lemma store_ok_seq: "store_ok db \<Longrightarrow> store_ok (db\<lparr>db_players_id_seq := db_players_id_seq db + 1\<rparr>)"
  by (simp add: store_ok_def profiles_ok_def players_ok_def progression_ok_def runtime_ok_def less_imp_le)

lemma new_rows [simp]:
  "p_id (new_player i u slot nam cl ge ap) = i" "prog_player_id (new_progression i) = i" "rt_player_id (new_runtime i) = i"
  "progression_check (new_progression i)"
  "player_columns_ok (new_player i u slot nam cl ge ap) \<longleftrightarrow> 0 \<le> slot \<and> slot < 4"
  by (simp_all add: new_player_def new_progression_def new_runtime_def progression_check_def player_columns_ok_def)

lemma store_ok_insert:
  assumes "store_ok db" and "p_id p < db_players_id_seq db" "prog_player_id g = p_id p" "rt_player_id r = p_id p"
    and "\<not> sql_exists (player_conflict p) (db_players db)" "player_columns_ok p" "progression_check g"
    and "row_of prog_player_id (db_progression db) (p_id p) = None" "row_of rt_player_id (db_runtime_state db) (p_id p) = None"
  shows "store_ok (db\<lparr>db_players := db_players db @ [p], db_progression := db_progression db @ [g],
                      db_runtime_state := db_runtime_state db @ [r]\<rparr>)"
proof -
  from assms(1) have ok: "progression_ok db" "runtime_ok db" "profiles_ok db" "players_ok db" "sessions_ok (db_sessions db)"
    by (simp_all add: store_ok_def)
  have "row_of p_id (db_players db) (p_id p) = None" using assms(5) by (auto simp: row_of_None player_conflict_def)
  then have "primary_key p_id (db_players db @ [p])" using ok(4) by (simp add: players_ok_def pk_snoc)
  moreover have "primary_key prog_player_id (db_progression db @ [g])"
    using ok(1) assms(3,8) by (simp add: progression_ok_def pk_snoc)
  moreover have "primary_key rt_player_id (db_runtime_state db @ [r])"
    using ok(2) assms(4,9) by (simp add: runtime_ok_def pk_snoc)
  moreover have "players_distinct (db_players db @ [p])"
    using ok(4) assms(5) by (simp add: players_ok_def players_distinct_snoc del: sql_exists_iff)
  ultimately show ?thesis using ok assms(2,3,4,6,7)
    by (auto simp: store_ok_def players_ok_def progression_ok_def runtime_ok_def profiles_ok_def row_of_append
        split: option.splits)
qed

lemma store_ok_create: "store_ok db \<Longrightarrow> store_ok (snd (create_player u slot nam cl ge ap db))"
  using store_ok_seq [of db] store_ok_insert [of "db\<lparr>db_players_id_seq := db_players_id_seq db + 1\<rparr>"
    "new_player (db_players_id_seq db) u slot nam cl ge ap" "new_progression (db_players_id_seq db)" "new_runtime (db_players_id_seq db)"]
  by (simp add: create_player_def Let_def del: sql_exists_iff)

lemma players_distinct_mono:
  "players_distinct t \<Longrightarrow> (\<And>p. p \<in> set t' \<Longrightarrow> p_deleted_at p = None \<Longrightarrow> p \<in> set t) \<Longrightarrow> players_distinct t'"
  unfolding players_distinct_def by blast

lemma store_ok_delete:
  assumes "store_ok db"
  shows "store_ok (snd (delete_player_with_code now u slot code db))"
proof -
  let ?P = "\<lambda>p. active_of u p \<and> p_slot p = slot \<and>
    (case row_of pf_username (db_profiles db) u of None \<Rightarrow> False | Some pf \<Rightarrow> pf_delete_code pf = code)"
  let ?t = "sql_update ?P (\<lambda>p. p\<lparr>p_deleted_at := Some now\<rparr>) (db_players db)"
  have "primary_key p_id ?t" using assms plt.inv_upd [of "db_players db"] by (simp add: store_ok_def players_ok_def)
  moreover have "players_distinct ?t"
    by (rule players_distinct_mono [of "db_players db"])
      (use assms in \<open>auto simp: store_ok_def players_ok_def set_sql_update\<close>)
  moreover have "\<forall>p \<in> set ?t. player_columns_ok p \<and> p_id p < db_players_id_seq db \<and>
       row_of prog_player_id (db_progression db) (p_id p) \<noteq> None \<and>
       row_of rt_player_id (db_runtime_state db) (p_id p) \<noteq> None"
    using assms by (auto simp: store_ok_def players_ok_def set_sql_update player_columns_ok_def)
  ultimately show ?thesis using assms
    by (simp add: delete_player_with_code_def Let_def store_ok_def players_ok_def progression_ok_def runtime_ok_def profiles_ok_def)
qed

lemma store_ok_step: "store_ok db \<Longrightarrow> store_ok (run_db_stmt q db)"
proof (cases q)
  case (QProfile now u)
  assume "store_ok db"
  then show ?thesis using QProfile profiles_ok_step [of db now u]
    by (simp add: store_ok_def players_ok_def progression_ok_def runtime_ok_def get_or_create_profile_def Let_def)
next
  case (QEmpire u e)
  assume "store_ok db"
  then show ?thesis using QEmpire profiles_ok_empire [of db u e]
    by (simp add: store_ok_def players_ok_def progression_ok_def runtime_ok_def update_profile_empire_def)
next
  case (QSession now st)
  assume "store_ok db"
  then show ?thesis using QSession ok_run_stmt [of "db_sessions db" now st]
    by (simp add: store_ok_def players_ok_def progression_ok_def runtime_ok_def profiles_ok_def)
qed (simp_all add: store_ok_create store_ok_delete store_ok_save store_ok_exit)

lemma store_ok_run: "store_ok db \<Longrightarrow> store_ok (run_db h db)"
  by (induction h arbitrary: db) (simp_all add: store_ok_step)

section \<open>Reading rows back\<close>

lemma parse_enum_db:
  "raw \<in> fst ` set db_empires \<Longrightarrow> \<exists>v. parse_enum db_empires kind raw = Inr v"
  "raw \<in> fst ` set db_classes \<Longrightarrow> \<exists>v. parse_enum db_classes kind raw = Inr v"
  "raw \<in> fst ` set db_genders \<Longrightarrow> \<exists>v. parse_enum db_genders kind raw = Inr v"
  "raw \<in> fst ` set db_appearances \<Longrightarrow> \<exists>v. parse_enum db_appearances kind raw = Inr v"
  by (auto simp: parse_enum_def db_empires_def db_classes_def db_genders_def db_appearances_def eq_ignore_ascii_case_def)

lemma parse_enum_text:
  "parse_enum db_empires kind (enum_text db_empires e) = Inr e"
  "parse_enum db_classes kind (enum_text db_classes cl) = Inr cl"
  "parse_enum db_genders kind (enum_text db_genders ge) = Inr ge"
  "parse_enum db_appearances kind (enum_text db_appearances ap) = Inr ap"
proof -
  show "parse_enum db_empires kind (enum_text db_empires e) = Inr e"
    by (cases e) (simp_all add: enum_text_def parse_enum_def db_empires_def eq_ignore_ascii_case_def ascii_upper_def Let_def)
  show "parse_enum db_classes kind (enum_text db_classes cl) = Inr cl"
    by (cases cl) (simp_all add: enum_text_def parse_enum_def db_classes_def eq_ignore_ascii_case_def ascii_upper_def Let_def)
  show "parse_enum db_genders kind (enum_text db_genders ge) = Inr ge"
    by (cases ge) (simp_all add: enum_text_def parse_enum_def db_genders_def eq_ignore_ascii_case_def ascii_upper_def Let_def)
  show "parse_enum db_appearances kind (enum_text db_appearances ap) = Inr ap"
    by (cases ap) (simp_all add: enum_text_def parse_enum_def db_appearances_def eq_ignore_ascii_case_def ascii_upper_def Let_def)
qed

lemma parse_summary_ok:
  assumes "player_columns_ok p"
  obtains s where "parse_player_summary_row p g = Inr s" "sr_slot s = p_slot p" "sr_username s = p_username p" "sr_id s = p_id p"
    "sr_name s = p_name p" "sr_level s = prog_level g" "sr_playtime_secs s = prog_playtime_secs g"
    "sr_core_stat_allocations s = prog_allocated g"
proof -
  obtain cl ge ap where "parse_enum db_classes ''class'' (p_class_name p) = Inr cl"
    "parse_enum db_genders ''gender'' (p_gender p) = Inr ge" "parse_enum db_appearances ''appearance'' (p_appearance p) = Inr ap"
    using assms parse_enum_db unfolding player_columns_ok_def by meson
  then show thesis by (intro that) (auto simp: parse_player_summary_row_def)
qed

lemma list_all2_image: "list_all2 R xs ys \<Longrightarrow> (\<And>x y. R x y \<Longrightarrow> g y = f x) \<Longrightarrow> map g ys = map f xs"
  by (induction rule: list_all2_induct) auto

lemma list_all2_ex: "list_all2 R xs ys \<Longrightarrow> y \<in> set ys \<Longrightarrow> \<exists>x \<in> set xs. R x y"
  by (induction rule: list_all2_induct) auto

lemma collect_results_ok:
  "(\<And>x. x \<in> set xs \<Longrightarrow> \<exists>y. f x = Inr y \<and> R x y) \<Longrightarrow> \<exists>ys. collect_results f xs = Inr ys \<and> list_all2 R xs ys"
proof (induction xs)
  case (Cons a xs)
  obtain y ys where "f a = Inr y" "R a y" "collect_results f xs = Inr ys" "list_all2 R xs ys"
    using Cons.prems [of a] Cons.IH [OF Cons.prems] by auto
  then show ?case by simp
qed simp

text \<open>With the invariant, the join of the characters with a table that has a row for each of them drops none.\<close>

lemma map_filter_Pair:
  "\<forall>p \<in> set xs. f p \<noteq> None \<Longrightarrow> List.map_filter (\<lambda>p. map_option (Pair p) (f p)) xs = map (\<lambda>p. (p, the (f p))) xs"
  by (induction xs) (auto simp: map_filter_simps)

lemma join_all:
  assumes "\<forall>p \<in> set (db_players db). row_of key t (p_id p) \<noteq> None"
  shows "join_players P key t db = map (\<lambda>p. (p, the (row_of key t (p_id p)))) (filter P (db_players db))"
  unfolding join_players_def using assms by (intro map_filter_Pair) simp

lemma filter_pk_one:
  "primary_key p_id t \<Longrightarrow> p \<in> set t \<Longrightarrow> Q p \<Longrightarrow> filter (\<lambda>q. p_id q = p_id p \<and> Q q) t = [p]"
proof (induction t)
  case (Cons a t)
  then have pk: "primary_key p_id t" and new: "p_id a \<notin> p_id ` set t" by (auto simp: primary_key_def)
  show ?case
  proof (cases "a = p")
    case True
    then have "\<forall>q \<in> set t. p_id q \<noteq> p_id p" using new by (metis imageI)
    then show ?thesis using True Cons.prems(3) by (simp add: filter_empty_conv)
  next
    case False
    then have "p \<in> set t" using Cons.prems(2) by simp
    then show ?thesis using Cons.IH [OF pk _ Cons.prems(3)] new by force
  qed
qed simp

section \<open>The roster\<close>

lemma slots_inj:
  assumes "store_ok db"
  shows "inj_on p_slot (set (filter (active_of u) (db_players db)))" and "distinct (filter (active_of u) (db_players db))"
proof -
  from assms have pk: "primary_key p_id (db_players db)" and dis: "players_distinct (db_players db)"
    by (simp_all add: store_ok_def players_ok_def)
  show "distinct (filter (active_of u) (db_players db))"
    using pk by (simp add: primary_key_def distinct_map)
  show "inj_on p_slot (set (filter (active_of u) (db_players db)))"
  proof (rule inj_onI)
    fix p q
    assume pq: "p \<in> set (filter (active_of u) (db_players db))" "q \<in> set (filter (active_of u) (db_players db))" "p_slot p = p_slot q"
    then have "p \<in> set (db_players db)" "q \<in> set (db_players db)" "p_deleted_at p = None" "p_deleted_at q = None"
      "p_username p = p_username q" by (auto simp: active_of_def)
    then have "p_id p = p_id q" using dis pq(3) unfolding players_distinct_def by blast
    then show "p = q" using pk \<open>p \<in> set (db_players db)\<close> \<open>q \<in> set (db_players db)\<close>
      unfolding primary_key_def distinct_map by (blast dest: inj_onD)
  qed
qed

lemma slots_of_roster:
  assumes "store_ok db"
  shows "\<exists>rows. list_player_summaries_for_user u db = Inr rows \<and> sorted_wrt (<) (map sr_slot rows) \<and>
    (\<forall>s \<in> set rows. sr_username s = u \<and> 0 \<le> sr_slot s \<and> sr_slot s < 4)"
proof -
  let ?ps = "filter (active_of u) (db_players db)"
  let ?rows = "sort_key (\<lambda>(p, _). p_slot p) (map (\<lambda>p. (p, the (row_of prog_player_id (db_progression db) (p_id p)))) ?ps)"
  have ok: "\<forall>p \<in> set (db_players db). player_columns_ok p \<and> row_of prog_player_id (db_progression db) (p_id p) \<noteq> None"
    using assms by (simp add: store_ok_def players_ok_def)
  then have join: "list_player_summaries_for_user u db = collect_results (\<lambda>(p, g). parse_player_summary_row p g) ?rows"
    unfolding list_player_summaries_for_user_def by (subst join_all) simp_all
  define R where "R = (\<lambda>(x :: PlayerData \<times> ProgressionData) (s :: PlayerSummaryRow).
    sr_slot s = p_slot (fst x) \<and> sr_username s = p_username (fst x))"
  have in_rows: "fst x \<in> set ?ps" if "x \<in> set ?rows" for x using that by auto
  have "\<exists>y. (\<lambda>(p, g). parse_player_summary_row p g) x = Inr y \<and> R x y" if x: "x \<in> set ?rows" for x
  proof -
    have "player_columns_ok (fst x)" using in_rows [OF x] ok by simp
    then obtain s where "parse_player_summary_row (fst x) (snd x) = Inr s" "sr_slot s = p_slot (fst x)"
      "sr_username s = p_username (fst x)" by (rule parse_summary_ok)
    then show ?thesis by (simp add: R_def case_prod_unfold)
  qed
  then obtain rows where rows: "list_player_summaries_for_user u db = Inr rows" and all: "list_all2 R ?rows rows"
    unfolding join using collect_results_ok [of ?rows _ R] by blast
  have slots: "map sr_slot rows = map (\<lambda>x. p_slot (fst x)) ?rows"
    using all by (rule list_all2_image) (simp add: R_def)
  have "distinct (map (\<lambda>x. p_slot (fst x)) (map (\<lambda>p. (p, the (row_of prog_player_id (db_progression db) (p_id p)))) ?ps))"
    using slots_inj [OF assms, of u] by (simp add: comp_def distinct_map)
  then have "distinct (map (\<lambda>x. p_slot (fst x)) ?rows)" unfolding distinct_map distinct_sort set_sort .
  moreover have "sorted (map (\<lambda>x. p_slot (fst x)) ?rows)"
    using sorted_sort_key [of "\<lambda>(p, _). p_slot p"] by (simp add: case_prod_unfold)
  ultimately have "sorted_wrt (<) (map sr_slot rows)" unfolding slots by (simp add: strict_sorted_iff)
  moreover have "sr_username s = u \<and> 0 \<le> sr_slot s \<and> sr_slot s < 4" if s: "s \<in> set rows" for s
  proof -
    obtain x where x: "x \<in> set ?rows" "R x s" using list_all2_ex [OF all s] by blast
    then show ?thesis using in_rows [OF x(1)] ok by (auto simp: active_of_def player_columns_ok_def R_def)
  qed
  ultimately show ?thesis using rows by blast
qed

text \<open>
  C9. The character list of an account can always be read.  After any history of statements on a database that
  satisfies its schema, \<^verbatim>\<open>list_player_summaries_for_user\<close> succeeds (every enumeration column parses), its
  rows belong to the account, and their slots are strictly increasing numbers from 0 to 3: no slot is used twice and
  there are at most four characters.
\<close>

theorem roster_well_formed:
  assumes "store_ok db"
  shows "\<exists>rows. list_player_summaries_for_user u (run_db h db) = Inr rows \<and> sorted_wrt (<) (map sr_slot rows) \<and>
    (\<forall>s \<in> set rows. sr_username s = u \<and> 0 \<le> sr_slot s \<and> sr_slot s < 4)"
  using slots_of_roster [OF store_ok_run [OF assms]] .

section \<open>The runtime epoch\<close>

text \<open>
  A server writes a character with the epoch it read when the character entered the world; a committed exit raises
  the epoch, so what that server still has queued for the character no longer matches.
\<close>

definition epoch_of :: "GameDb \<Rightarrow> PlayerId \<Rightarrow> i64 option" where
  "epoch_of db i = map_option rt_runtime_epoch (row_of rt_player_id (db_runtime_state db) i)"

lemma epoch_row_iff:
  "store_ok db \<Longrightarrow> (\<exists>r \<in> set (db_runtime_state db). rt_player_id r = i \<and> rt_runtime_epoch r = e) \<longleftrightarrow> epoch_of db i = Some e"
  using affected_row_of [of rt_player_id "db_runtime_state db" "\<lambda>r. rt_player_id r = i \<and> rt_runtime_epoch r = e" i]
    rtt.key_of_row [of "db_runtime_state db" i]
  by (auto simp: store_ok_def runtime_ok_def epoch_of_def)

lemma active_rows:
  assumes "store_ok db" and "active_player db i"
  shows "\<exists>g \<in> set (db_progression db). prog_player_id g = i" and "\<exists>r \<in> set (db_runtime_state db). rt_player_id r = i"
proof -
  obtain p where "p \<in> set (db_players db)" "p_id p = i" using assms(2) by (auto simp: active_player_def)
  then have "row_of prog_player_id (db_progression db) i \<noteq> None" "row_of rt_player_id (db_runtime_state db) i \<noteq> None"
    using assms(1) unfolding store_ok_def players_ok_def by blast+
  then show "\<exists>g \<in> set (db_progression db). prog_player_id g = i" "\<exists>r \<in> set (db_runtime_state db). rt_player_id r = i"
    by (auto simp: row_of_None)
qed

lemma no_epoch_row:
  assumes "store_ok db" and "epoch_of db i \<noteq> Some e"
  shows "(\<exists>r \<in> set (db_runtime_state db). rt_player_id r = i \<and> rt_runtime_epoch r = e) = False"
    and "sql_update (\<lambda>r. rt_player_id r = i \<and> rt_runtime_epoch r = e) f (db_runtime_state db) = db_runtime_state db"
proof -
  show none: "(\<exists>r \<in> set (db_runtime_state db). rt_player_id r = i \<and> rt_runtime_epoch r = e) = False"
    using epoch_row_iff [OF assms(1)] assms(2) by simp
  then show "sql_update (\<lambda>r. rt_player_id r = i \<and> rt_runtime_epoch r = e) f (db_runtime_state db) = db_runtime_state db"
    by (intro sql_update_none) blast
qed

lemma sql_update_False [simp]: "sql_update (\<lambda>r. False) f t = t"
  by (simp add: sql_update_def)

lemma stale_save:
  assumes "store_ok db" and "epoch_of db (ps_id (snap_runtime s)) \<noteq> Some (ps_runtime_epoch (snap_runtime s))"
  shows "snd (save_player_snapshot s db) = db" and "fst (save_player_snapshot s db) \<noteq> Inr Saved"
    and "active_player db (ps_id (snap_runtime s)) \<Longrightarrow> fst (save_player_snapshot s db) = Inr StaleOwner"
proof -
  note none = no_epoch_row [OF assms]
  show "snd (save_player_snapshot s db) = db" and "fst (save_player_snapshot s db) \<noteq> Inr Saved"
    by (simp_all add: save_player_snapshot_def Let_def list_ex_iff none)
  assume act: "active_player db (ps_id (snap_runtime s))"
  then show "fst (save_player_snapshot s db) = Inr StaleOwner"
    using active_rows(2) [OF assms(1) act] by (simp add: save_player_snapshot_def Let_def list_ex_iff none)
qed

text \<open>The conditions a committed exit has passed.\<close>

lemma exit_committed:
  assumes "fst (commit_player_exit k u sid c s db) = Inr ()"
  shows "active_player db (ps_id (snap_runtime s))"
    and "\<exists>r \<in> set (db_runtime_state db). rt_player_id r = ps_id (snap_runtime s) \<and> rt_runtime_epoch r = ps_runtime_epoch (snap_runtime s)"
proof -
  let ?U = "\<lambda>r. rt_player_id r = ps_id (snap_runtime s) \<and> active_player db (ps_id (snap_runtime s)) \<and>
    rt_runtime_epoch r = ps_runtime_epoch (snap_runtime s)"
  define G where "G = (\<lambda>g :: ProgressionData. sql_exists ?U (db_runtime_state db) \<and> prog_player_id g = ps_id (snap_runtime s))"
  have "sql_rows_affected G (db_progression db) = 1"
    using assms unfolding commit_player_exit_def Let_def G_def by (simp split: if_splits)
  then have "\<exists>g \<in> set (db_progression db). G g" by (simp flip: rows_affected_pos)
  then have "\<exists>r \<in> set (db_runtime_state db). ?U r" unfolding G_def sql_exists_iff by blast
  then show "active_player db (ps_id (snap_runtime s))"
    "\<exists>r \<in> set (db_runtime_state db). rt_player_id r = ps_id (snap_runtime s) \<and> rt_runtime_epoch r = ps_runtime_epoch (snap_runtime s)"
    by blast+
qed

lemma exit_refused: "fst (commit_player_exit k u sid c s db) \<noteq> Inr () \<Longrightarrow> snd (commit_player_exit k u sid c s db) = db"
  by (auto simp: commit_player_exit_def Let_def split: if_splits)

lemma stale_exit:
  assumes "store_ok db" and "epoch_of db (ps_id (snap_runtime s)) \<noteq> Some (ps_runtime_epoch (snap_runtime s))"
  shows "snd (commit_player_exit k u sid c s db) = db" and "fst (commit_player_exit k u sid c s db) \<noteq> Inr ()"
proof -
  show "fst (commit_player_exit k u sid c s db) \<noteq> Inr ()" using exit_committed(2) no_epoch_row(1) [OF assms] by blast
  then show "snd (commit_player_exit k u sid c s db) = db" by (rule exit_refused)
qed

lemma epoch_after_save: "store_ok db \<Longrightarrow> epoch_of (snd (save_player_snapshot s db)) i = epoch_of db i"
  by (auto simp: epoch_of_def save_player_snapshot_def Let_def row_of_update option.map_comp comp_def intro!: option.map_cong0)

lemma epoch_after_exit:
  assumes "store_ok db"
  shows "epoch_of (snd (commit_player_exit k u sid c s db)) i =
    (if fst (commit_player_exit k u sid c s db) = Inr () \<and> i = ps_id (snap_runtime s)
     then Some (ps_runtime_epoch (snap_runtime s) + 1) else epoch_of db i)"
proof (cases "fst (commit_player_exit k u sid c s db) = Inr ()")
  case True
  then have ep: "epoch_of db (ps_id (snap_runtime s)) = Some (ps_runtime_epoch (snap_runtime s))"
    using stale_exit(2) [OF assms, of s k u sid c] by blast
  have act: "active_player db (ps_id (snap_runtime s))" using True by (rule exit_committed(1))
  have "db_runtime_state (snd (commit_player_exit k u sid c s db)) =
    sql_update (\<lambda>r. rt_player_id r = ps_id (snap_runtime s) \<and> active_player db (ps_id (snap_runtime s)) \<and>
        rt_runtime_epoch r = ps_runtime_epoch (snap_runtime s))
      (\<lambda>r. (runtime_set (snap_runtime s) r)\<lparr>rt_runtime_epoch := rt_runtime_epoch r + 1\<rparr>) (db_runtime_state db)"
    using True by (simp add: commit_player_exit_def Let_def split: if_splits)
  then show ?thesis using True ep act rtt.key_of_row [of "db_runtime_state db" i] assms
    by (cases "row_of rt_player_id (db_runtime_state db) i")
      (auto simp: epoch_of_def row_of_update store_ok_def runtime_ok_def)
next
  case False
  then show ?thesis using exit_refused [OF False] by simp
qed

lemma epoch_step:
  assumes "store_ok db" and "epoch_of db i = Some e"
  shows "\<exists>e'. e \<le> e' \<and> epoch_of (run_db_stmt q db) i = Some e'"
proof (cases q)
  case (QSave s)
  then show ?thesis using assms epoch_after_save by simp
next
  case (QExit k u sid c s)
  have "e = ps_runtime_epoch (snap_runtime s)"
    if "fst (commit_player_exit k u sid c s db) = Inr ()" "i = ps_id (snap_runtime s)"
    using that assms(2) stale_exit(2) [OF assms(1), of s k u sid c] by auto
  then show ?thesis using QExit assms(2) epoch_after_exit [OF assms(1), of k u sid c s i] by auto
next
  case (QCreate u slot nam cl ge ap)
  then show ?thesis using assms
    by (auto simp: create_player_def Let_def epoch_of_def row_of_append simp del: sql_exists_iff split: option.splits)
qed (use assms in \<open>auto simp: epoch_of_def get_or_create_profile_def update_profile_empire_def
       delete_player_with_code_def Let_def\<close>)

lemma epoch_run: "store_ok db \<Longrightarrow> epoch_of db i = Some e \<Longrightarrow> \<exists>e'. e \<le> e' \<and> epoch_of (run_db h db) i = Some e'"
proof (induction h arbitrary: db e)
  case (Cons q h)
  obtain e1 where "e \<le> e1" "epoch_of (run_db_stmt q db) i = Some e1" using epoch_step [OF Cons.prems] by blast
  then show ?case using Cons.IH [OF store_ok_step [OF Cons.prems(1)]] by fastforce
qed auto

text \<open>
  C4. A committed exit is final.  Once \<^verbatim>\<open>commit_player_exit\<close> has stored a character, then after any further
  history, a save or an exit carrying the epoch that was committed (or an older one) changes nothing: the save is
  not reported as saved and the exit fails.  What the old server still has queued cannot overwrite the progress made
  since.
\<close>

theorem committed_exit_is_final:
  assumes "store_ok db" and "fst (commit_player_exit k u sid c s db) = Inr ()"
    and "ps_id (snap_runtime late) = ps_id (snap_runtime s)"
    and "ps_runtime_epoch (snap_runtime late) \<le> ps_runtime_epoch (snap_runtime s)"
  shows "(let db' = run_db h (snd (commit_player_exit k u sid c s db)) in
      snd (save_player_snapshot late db') = db' \<and> fst (save_player_snapshot late db') \<noteq> Inr Saved \<and>
      snd (commit_player_exit k' u' sid' c' late db') = db' \<and> fst (commit_player_exit k' u' sid' c' late db') \<noteq> Inr ())"
proof -
  let ?db = "snd (commit_player_exit k u sid c s db)"
  have ok: "store_ok ?db" using assms(1) by (rule store_ok_exit)
  have "epoch_of ?db (ps_id (snap_runtime s)) = Some (ps_runtime_epoch (snap_runtime s) + 1)"
    using epoch_after_exit [OF assms(1)] assms(2) by simp
  from epoch_run [OF ok this, of h] have "epoch_of (run_db h ?db) (ps_id (snap_runtime late)) \<noteq> Some (ps_runtime_epoch (snap_runtime late))"
    using assms(3,4) by auto
  then show ?thesis
    using stale_save(1,2) [OF store_ok_run [OF ok], where s = late] stale_exit [OF store_ok_run [OF ok], where s = late] unfolding Let_def by blast
qed

section \<open>Saving and loading\<close>

lemma save_saved_iff:
  assumes "store_ok db"
  shows "fst (save_player_snapshot s db) = Inr Saved \<longleftrightarrow>
    active_player db (ps_id (snap_runtime s)) \<and>
    epoch_of db (ps_id (snap_runtime s)) = Some (ps_runtime_epoch (snap_runtime s)) \<and>
    (\<forall>g \<in> set (db_progression db). prog_player_id g = ps_id (snap_runtime s) \<longrightarrow> progression_check (progression_set s g))"
proof (cases "epoch_of db (ps_id (snap_runtime s)) = Some (ps_runtime_epoch (snap_runtime s))")
  case True
  then have ex: "\<exists>r \<in> set (db_runtime_state db). rt_player_id r = ps_id (snap_runtime s) \<and> rt_runtime_epoch r = ps_runtime_epoch (snap_runtime s)"
    using epoch_row_iff [OF assms] by blast
  have "\<exists>g \<in> set (db_progression db). prog_player_id g = ps_id (snap_runtime s)" if "active_player db (ps_id (snap_runtime s))"
    using active_rows(1) [OF assms that] .
  then show ?thesis using True ex by (auto simp: save_player_snapshot_def Let_def list_ex_iff)
next
  case False
  then show ?thesis using stale_save(2) [OF assms False] by simp
qed

lemma saved_tables:
  assumes "store_ok db" and "fst (save_player_snapshot s db) = Inr Saved"
  shows "row_of rt_player_id (db_runtime_state (snd (save_player_snapshot s db))) (ps_id (snap_runtime s)) =
      map_option (runtime_set (snap_runtime s)) (row_of rt_player_id (db_runtime_state db) (ps_id (snap_runtime s)))"
    and "row_of prog_player_id (db_progression (snd (save_player_snapshot s db))) (ps_id (snap_runtime s)) =
      map_option (progression_set s) (row_of prog_player_id (db_progression db) (ps_id (snap_runtime s)))"
    and "db_players (snd (save_player_snapshot s db)) = db_players db"
proof -
  let ?i = "ps_id (snap_runtime s)" and ?e = "ps_runtime_epoch (snap_runtime s)"
  from assms have ep: "epoch_of db ?i = Some ?e"
    and chk: "\<forall>g \<in> set (db_progression db). prog_player_id g = ?i \<longrightarrow> progression_check (progression_set s g)"
    by (simp_all add: save_saved_iff)
  then have ex: "\<exists>r \<in> set (db_runtime_state db). rt_player_id r = ?i \<and> rt_runtime_epoch r = ?e"
    using epoch_row_iff [OF assms(1)] by blast
  have db': "snd (save_player_snapshot s db) =
    db\<lparr>db_runtime_state := sql_update (\<lambda>r. rt_player_id r = ?i \<and> rt_runtime_epoch r = ?e) (runtime_set (snap_runtime s)) (db_runtime_state db),
       db_progression := sql_update (\<lambda>g. prog_player_id g = ?i) (progression_set s) (db_progression db)\<rparr>"
    using ex chk by (auto simp: save_player_snapshot_def Let_def list_ex_iff)
  have keys: "rt_player_id r = ?i \<and> rt_runtime_epoch r = ?e" if "row_of rt_player_id (db_runtime_state db) ?i = Some r" for r
    using row_of_in [OF that] ep that by (simp add: epoch_of_def)
  show "row_of rt_player_id (db_runtime_state (snd (save_player_snapshot s db))) ?i =
      map_option (runtime_set (snap_runtime s)) (row_of rt_player_id (db_runtime_state db) ?i)"
    using keys by (cases "row_of rt_player_id (db_runtime_state db) ?i") (simp_all add: db' row_of_update)
  show "row_of prog_player_id (db_progression (snd (save_player_snapshot s db))) ?i =
      map_option (progression_set s) (row_of prog_player_id (db_progression db) ?i)"
    using row_of_in [of prog_player_id "db_progression db" ?i]
    by (cases "row_of prog_player_id (db_progression db) ?i") (simp_all add: db' row_of_update)
  show "db_players (snd (save_player_snapshot s db)) = db_players db" by (simp add: db')
qed

text \<open>
  C10. Saving and loading.  When a save is reported as saved, the two queries that load the character return exactly
  the snapshot: position, current values, level, experience, allocations and resets, with the larger of the stored
  and the saved playtime and an unchanged epoch.
\<close>

theorem saved_snapshot_is_loaded:
  assumes "store_ok db" and "fst (save_player_snapshot s db) = Inr Saved"
  shows "\<exists>rt b g. find_player_runtime_state_by_player_id (ps_id (snap_runtime s)) (snd (save_player_snapshot s db)) = Inr (Some rt) \<and>
    find_player_stats_bootstrap_by_id (ps_id (snap_runtime s)) (snd (save_player_snapshot s db)) = Inr (Some b) \<and>
    row_of prog_player_id (db_progression db) (ps_id (snap_runtime s)) = Some g \<and>
    rt = \<lparr>rt_player_id = ps_id (snap_runtime s), rt_map_key = Some (ps_map_key (snap_runtime s)),
          rt_local_x = Some (fst (ps_local_pos (snap_runtime s))), rt_local_y = Some (snd (ps_local_pos (snap_runtime s))),
          rt_current_hp = ps_current_hp (snap_runtime s), rt_current_sp = ps_current_sp (snap_runtime s),
          rt_current_stamina = ps_current_stamina (snap_runtime s), rt_runtime_epoch = ps_runtime_epoch (snap_runtime s)\<rparr> \<and>
    sr_level b = ps_level (snap_progression s) \<and> br_exp_in_level b = ps_exp_in_level (snap_progression s) \<and>
    sr_core_stat_allocations b = ps_core_stat_allocations (snap_progression s) \<and>
    br_stat_reset_count b = ps_stat_reset_count (snap_progression s) \<and>
    br_current_hp b = ps_current_hp (snap_runtime s) \<and> br_current_sp b = ps_current_sp (snap_runtime s) \<and>
    br_current_stamina b = ps_current_stamina (snap_runtime s) \<and>
    sr_playtime_secs b = max (prog_playtime_secs g) (playtime_as_secs_i64 (ps_playtime (snap_runtime s)))"
proof -
  let ?i = "ps_id (snap_runtime s)" and ?db = "snd (save_player_snapshot s db)"
  from assms have ep: "epoch_of db ?i = Some (ps_runtime_epoch (snap_runtime s))" and act: "active_player db ?i"
    by (simp_all add: save_saved_iff)
  note saved = saved_tables [OF assms]
  obtain p where p: "p \<in> set (db_players db)" "p_id p = ?i" "p_deleted_at p = None"
    using act by (auto simp: active_player_def)
  from p(1) assms(1) have pk: "primary_key p_id (db_players db)" and cols: "player_columns_ok p"
    by (simp_all add: store_ok_def players_ok_def)
  have one: "filter (\<lambda>q. p_id q = ?i \<and> p_deleted_at q = None) (db_players db) = [p]"
    using filter_pk_one [OF pk p(1), of "\<lambda>q. p_deleted_at q = None"] p(2,3) by simp
  obtain g r where rows: "row_of prog_player_id (db_progression db) ?i = Some g" "row_of rt_player_id (db_runtime_state db) ?i = Some r"
    using p(1,2) assms(1) by (fastforce simp: store_ok_def players_ok_def)
  have r: "rt_player_id r = ?i" "rt_runtime_epoch r = ps_runtime_epoch (snap_runtime s)"
    using row_of_in [OF rows(2)] ep rows(2) by (simp_all add: epoch_of_def)
  obtain b where b: "parse_player_summary_row p (progression_set s g) = Inr b" "sr_level b = prog_level (progression_set s g)"
    "sr_playtime_secs b = prog_playtime_secs (progression_set s g)" "sr_core_stat_allocations b = prog_allocated (progression_set s g)"
    using cols by (rule parse_summary_ok)
  have join: "join_players (\<lambda>q. p_id q = ?i \<and> p_deleted_at q = None) key t ?db = (case row_of key t ?i of None \<Rightarrow> [] | Some x \<Rightarrow> [(p, x)])"
    for key and t :: "'r table"
    using p(2) by (simp add: join_players_def saved(3) one map_filter_simps split: option.splits)
  show ?thesis
    using rows r b p(2)
    by (simp add: find_player_runtime_state_by_player_id_def find_player_stats_bootstrap_by_id_def join saved(1,2) fetch_optional_def
        parse_player_stats_bootstrap_row_def runtime_set_def progression_set_def Let_def PlayerSummaryRow.defs PlayerStatsBootstrapRow.defs)
qed

section \<open>Deleting and creating\<close>

lemma create_created:
  assumes "store_ok db" and "0 \<le> slot" "slot < 4" and "row_of pf_username (db_profiles db) u \<noteq> None"
    and "\<forall>q \<in> set (db_players db). p_deleted_at q = None \<longrightarrow> p_name q \<noteq> nam \<and> \<not> (p_username q = u \<and> p_slot q = slot)"
  shows "\<exists>row. fst (create_player u slot nam cl ge ap db) = Inr (Created row) \<and> sr_id row = db_players_id_seq db \<and>
    sr_username row = u \<and> sr_slot row = slot \<and> sr_name row = nam \<and> sr_class row = cl \<and> sr_gender row = ge \<and> sr_appearance row = ap"
proof -
  have ids: "\<forall>q \<in> set (db_players db). p_id q < db_players_id_seq db" "\<forall>g \<in> set (db_progression db). prog_player_id g < db_players_id_seq db"
    "\<forall>r \<in> set (db_runtime_state db). rt_player_id r < db_players_id_seq db"
    using assms(1) by (simp_all add: store_ok_def players_ok_def progression_ok_def runtime_ok_def)
  then have none: "row_of prog_player_id (db_progression db) (db_players_id_seq db) = None"
      "row_of rt_player_id (db_runtime_state db) (db_players_id_seq db) = None"
    by (auto simp: row_of_None)
  have free: "(\<exists>r \<in> set (db_players db). player_conflict (new_player (db_players_id_seq db) u slot nam cl ge ap) r) = False"
    using ids(1) assms(5) by (fastforce simp: player_conflict_def new_player_def)
  show ?thesis using assms(2-4) none
    by (auto simp: create_player_def Let_def free) (auto simp: parse_player_summary_row_def new_player_def parse_enum_text)
qed

text \<open>
  Deletion frees the slot and the name.  \<^verbatim>\<open>delete_player_with_code\<close> deletes exactly when the account
  has an active character in that slot and the code is the profile's; afterwards the slot reads as empty, and creating
  a character there, under the deleted character's own name, succeeds with a new identity.
\<close>

theorem deleted_slot_is_reusable:
  assumes "store_ok db" and "fst (delete_player_with_code now u slot code db) = Inr True"
  shows "\<exists>p \<in> set (db_players db). active_of u p \<and> p_slot p = slot \<and> get_delete_code u db = Inr (Some code) \<and>
    find_player_summary_by_slot u slot (snd (delete_player_with_code now u slot code db)) = Inr None \<and>
    (\<exists>row. fst (create_player u slot (p_name p) cl ge ap (snd (delete_player_with_code now u slot code db))) = Inr (Created row) \<and>
       sr_id row \<noteq> p_id p \<and> sr_slot row = slot \<and> sr_class row = cl)"
proof -
  let ?P = "\<lambda>p. active_of u p \<and> p_slot p = slot \<and>
    (case row_of pf_username (db_profiles db) u of None \<Rightarrow> False | Some pf \<Rightarrow> pf_delete_code pf = code)"
  let ?db = "snd (delete_player_with_code now u slot code db)"
  obtain p where p: "p \<in> set (db_players db)" "?P p"
    using assms(2) by (auto simp: delete_player_with_code_def Let_def)
  have db': "?db = db\<lparr>db_players := sql_update ?P (\<lambda>p. p\<lparr>p_deleted_at := Some now\<rparr>) (db_players db)\<rparr>"
    by (simp add: delete_player_with_code_def Let_def)
  have code: "row_of pf_username (db_profiles db) u \<noteq> None" "get_delete_code u db = Inr (Some code)"
    using p(2) by (auto simp: get_delete_code_def split: option.splits)
  have slot: "0 \<le> slot" "slot < 4" and seq: "p_id p < db_players_id_seq db" and dis: "players_distinct (db_players db)"
    using p assms(1) by (auto simp: store_ok_def players_ok_def player_columns_ok_def)
  have kept: "q \<in> set (db_players db) \<and> \<not> ?P q" if "q \<in> set (db_players ?db)" "p_deleted_at q = None" for q
    using that unfolding db' by (auto simp: set_sql_update)
  have empty: "\<not> (active_of u q \<and> p_slot q = slot)" if "q \<in> set (db_players ?db)" for q
    using kept [OF that] p(2) by (auto simp: active_of_def)
  have free: "\<forall>q \<in> set (db_players ?db). p_deleted_at q = None \<longrightarrow> p_name q \<noteq> p_name p \<and> \<not> (p_username q = u \<and> p_slot q = slot)"
  proof (intro ballI impI conjI)
    fix q
    assume q: "q \<in> set (db_players ?db)" "p_deleted_at q = None"
    show "\<not> (p_username q = u \<and> p_slot q = slot)" using empty [OF q(1)] q(2) by (auto simp: active_of_def)
    show "p_name q \<noteq> p_name p"
    proof
      assume same: "p_name q = p_name p"
      have "p_deleted_at p = None" using p(2) by (simp add: active_of_def)
      then have "p_id q = p_id p" using dis kept [OF q] p(1) q(2) same unfolding players_distinct_def by blast
      then have "q = p" using kept [OF q] p(1) assms(1) row_of_Some [of p_id "db_players db" "p_id p"]
        by (metis option.inject players_ok_def store_ok_def)
      then show False using kept [OF q] p(2) by blast
    qed
  qed
  have "store_ok ?db" using assms(1) by (rule store_ok_delete)
  from create_created [OF this slot _ free, of cl ge ap] code seq
  have "\<exists>row. fst (create_player u slot (p_name p) cl ge ap ?db) = Inr (Created row) \<and> sr_id row \<noteq> p_id p \<and> sr_slot row = slot \<and> sr_class row = cl"
    by (auto simp: db')
  moreover have "find_player_summary_by_slot u slot ?db = Inr None"
    using empty by (simp add: find_player_summary_by_slot_def join_players_def fetch_optional_def filter_False map_filter_simps)
  ultimately show ?thesis using p code(2) by blast
qed

section \<open>Gaps\<close>

text \<open>
  A save for a deleted character whose epoch still matches is answered with an error, but the rows are written: the
  two data-modifying parts of the statement do not ask whether the character is active.
\<close>

theorem save_writes_deleted_character:
  assumes "store_ok db" and "\<not> active_player db (ps_id (snap_runtime s))"
    and "row_of rt_player_id (db_runtime_state db) (ps_id (snap_runtime s)) = Some r"
    and "rt_runtime_epoch r = ps_runtime_epoch (snap_runtime s)"
    and "\<forall>g \<in> set (db_progression db). prog_player_id g = ps_id (snap_runtime s) \<longrightarrow> progression_check (progression_set s g)"
  shows "\<exists>e. fst (save_player_snapshot s db) = Inl e \<and>
    row_of rt_player_id (db_runtime_state (snd (save_player_snapshot s db))) (ps_id (snap_runtime s)) = Some (runtime_set (snap_runtime s) r)"
  using assms row_of_in [OF assms(3)] by (auto simp: save_player_snapshot_def Let_def list_ex_iff row_of_update)

text \<open>
  Taking over a session that went silent does not raise the epoch: whatever session statements run, a save of the
  previous owner is answered as before.
\<close>

theorem takeover_keeps_epoch:
  "fst (save_player_snapshot s (run_db_stmt (QSession now st) db)) = fst (save_player_snapshot s db) \<and>
   epoch_of (run_db_stmt (QSession now st) db) i = epoch_of db i"
  by (simp add: save_player_snapshot_def Let_def active_player_def epoch_of_def)

section \<open>The seeded database\<close>

text \<open>The rows the migrations insert, with an account that is in the world on \<open>ch1\<close>.\<close>

definition seed_player :: "PlayerId \<Rightarrow> string \<Rightarrow> string \<Rightarrow> string \<Rightarrow> string \<Rightarrow> string \<Rightarrow> PlayerData" where
  "seed_player i u nam cl ge ap = \<lparr>p_id = i, p_username = u, p_slot = 0, p_name = nam, p_class_name = cl, p_gender = ge,
     p_appearance = ap, p_deleted_at = None\<rparr>"

definition seed_db :: GameDb where
  "seed_db = \<lparr>
     db_profiles = [\<lparr>pf_username = ''admin'', pf_empire = Some ''BLUE'', pf_delete_code = ''1234567'', pf_banned_until = None\<rparr>,
                    \<lparr>pf_username = ''guest'', pf_empire = Some ''BLUE'', pf_delete_code = ''1234567'', pf_banned_until = None\<rparr>],
     db_players = [seed_player 1 ''admin'' ''Admin'' ''WARRIOR'' ''M'' ''A'', seed_player 2 ''guest'' ''Guest'' ''SHAMAN'' ''F'' ''B''],
     db_players_id_seq = 3,
     db_progression = [(new_progression 1)\<lparr>prog_level := 99\<rparr>, (new_progression 2)\<lparr>prog_level := 35\<rparr>],
     db_runtime_state = [(new_runtime 1)\<lparr>rt_map_key := Some ''metin2_map_c1''\<rparr>, (new_runtime 2)\<lparr>rt_map_key := Some ''metin2_map_c1''\<rparr>],
     db_sessions = snd (acquire_session 0 ''guest'' ''ch1'' ''a'' 60 [])\<rparr>"

definition seed_snapshot :: "i64 \<Rightarrow> PlayerSnapshot" where
  "seed_snapshot e = \<lparr>
     snap_runtime = \<lparr>ps_id = 2, ps_runtime_epoch = e, ps_map_key = ''metin2_map_c1'', ps_local_pos = (7, 8),
       ps_playtime = from_secs 90, ps_current_hp = Some 10, ps_current_sp = None, ps_current_stamina = None\<rparr>,
     snap_progression = \<lparr>ps_level = 36, ps_exp_in_level = 5,
       ps_core_stat_allocations = \<lparr>allocated_str = 1, allocated_vit = 0, allocated_dex = 0, allocated_int = 0\<rparr>, ps_stat_reset_count = 0\<rparr>\<rparr>"

lemma store_ok_seed: "store_ok seed_db"
  by code_simp

lemma seed_save: "fst (save_player_snapshot (seed_snapshot 0) seed_db) = Inr Saved"
  by code_simp

lemma seed_exit: "fst (commit_player_exit Disconnect ''guest'' ''ch1'' ''a'' (seed_snapshot 0) seed_db) = Inr ()"
  by code_simp

lemma seed_delete: "fst (delete_player_with_code 9 ''guest'' 0 ''1234567'' seed_db) = Inr True"
  by code_simp

theorem roster_well_formed_witness:
  "\<exists>rows. list_player_summaries_for_user ''guest'' (run_db [QCreate ''guest'' 2 ''Second'' Sura Male VariantA] seed_db) = Inr rows \<and>
    sorted_wrt (<) (map sr_slot rows)"
  using roster_well_formed [OF store_ok_seed] by blast

theorem committed_exit_is_final_witness:
  "snd (save_player_snapshot (seed_snapshot 0)
      (run_db [QSession 5 (SResume ''guest'' 1 ''ch2'' ''b'' 60 60 ''ip''), QSave (seed_snapshot 1)]
        (snd (commit_player_exit Disconnect ''guest'' ''ch1'' ''a'' (seed_snapshot 0) seed_db)))) =
    run_db [QSession 5 (SResume ''guest'' 1 ''ch2'' ''b'' 60 60 ''ip''), QSave (seed_snapshot 1)]
      (snd (commit_player_exit Disconnect ''guest'' ''ch1'' ''a'' (seed_snapshot 0) seed_db))"
  using committed_exit_is_final [OF store_ok_seed seed_exit refl order_refl] unfolding Let_def by blast

theorem saved_snapshot_is_loaded_witness:
  "\<exists>rt. find_player_runtime_state_by_player_id 2 (snd (save_player_snapshot (seed_snapshot 0) seed_db)) = Inr (Some rt) \<and>
    rt_local_x rt = Some 7 \<and> rt_current_hp rt = Some 10"
  using saved_snapshot_is_loaded [OF store_ok_seed seed_save] by (auto simp: seed_snapshot_def)

theorem deleted_slot_is_reusable_witness:
  "\<exists>p \<in> set (db_players seed_db). active_of ''guest'' p \<and>
    (\<exists>row. fst (create_player ''guest'' 0 (p_name p) Ninja Male VariantA (snd (delete_player_with_code 9 ''guest'' 0 ''1234567'' seed_db))) =
       Inr (Created row))"
  using deleted_slot_is_reusable [OF store_ok_seed seed_delete, of Ninja Male VariantA] by blast

end
