(* ===== verification/Login_Session.thy ===== *)
theory Login_Session
  imports Player_Store Token
begin

text \<open>
  How a connection of the game server gets, keeps and gives back the session of an account: the token login
  (\<^verbatim>\<open>zohar-gamesrv/src/handlers/login.rs\<close>) over the session and profile statements, the liveness tracker of a
  connection with the heartbeats it sends to the database (\<^verbatim>\<open>handlers/session_health.rs\<close> and the tick handlers of
  the select, loading and in-game phases), and what happens to the lease when a connection ends
  (\<^verbatim>\<open>handlers.rs\<close>, \<^verbatim>\<open>handlers/runtime.rs\<close>, \<^verbatim>\<open>handlers/types.rs\<close>).

  Each statement reads its own \<^verbatim>\<open>NOW()\<close>: the clock is a function from the position of the statement in the
  handler to a time.  The bytes the token signer hashes are those of the user name.
\<close>

section \<open>Token login\<close>

record TokenLoginInput =
  li_username :: string
  li_token :: u32
  li_enc_key :: "u8 list"

datatype PersistedCheckMode = ClaimActive string string int | ValidateOnly

datatype LoginFailReason = InvalidCredentials | AlreadyLoggedIn | BlockedAccount

datatype AuthDecision = Accepted string "Empire option" | Rejected LoginFailReason

record LoginDeps =
  ld_signer :: TokenSigner
  ld_peer_ip :: string
  ld_idle_ttl_secs :: int
  ld_mode :: PersistedCheckMode

definition username_bytes :: "string \<Rightarrow> u8 list" where
  "username_bytes u = map of_char u"

definition try_persisted_login :: "timestamptz \<Rightarrow> LoginDeps \<Rightarrow> TokenLoginInput \<Rightarrow> GameDb \<Rightarrow> bool DbResult \<times> GameDb" where
  "try_persisted_login now deps input db =
    (case ld_mode deps of
       ClaimActive server_id connection_id stale_threshold_secs \<Rightarrow>
         (case resume_session_with_token now (li_username input) (li_token input) server_id connection_id stale_threshold_secs
                 (ld_idle_ttl_secs deps) (ld_peer_ip deps) (db_sessions db) of
            (res, t) \<Rightarrow> (res, db\<lparr>db_sessions := t\<rparr>))
     | ValidateOnly \<Rightarrow>
         (case validate_login_token now (li_username input) (li_token input) (ld_idle_ttl_secs deps) (ld_peer_ip deps) (db_sessions db) of
            (res, t) \<Rightarrow> (res, db\<lparr>db_sessions := t\<rparr>)))"

definition try_totp_bootstrap ::
  "mac \<Rightarrow> int \<Rightarrow> timestamptz \<Rightarrow> timestamptz \<Rightarrow> LoginDeps \<Rightarrow> TokenLoginInput \<Rightarrow> GameDb \<Rightarrow> bool DbResult \<times> GameDb" where
  "try_totp_bootstrap mac system_now now now' deps input db =
    (if \<not> verify mac (ld_signer deps) system_now (username_bytes (li_username input)) (li_enc_key input) (li_token input)
     then (Inr False, db)
     else (case set_session_login_token now (li_username input) (li_token input) (db_sessions db) of
             (Inl e, t) \<Rightarrow> (Inl e, db\<lparr>db_sessions := t\<rparr>)
           | (Inr _, t) \<Rightarrow> try_persisted_login now' deps input (db\<lparr>db_sessions := t\<rparr>)))"

definition authenticate_token_login ::
  "mac \<Rightarrow> int \<Rightarrow> (nat \<Rightarrow> timestamptz) \<Rightarrow> LoginDeps \<Rightarrow> TokenLoginInput \<Rightarrow> GameDb \<Rightarrow> AuthDecision DbResult \<times> GameDb" where
  "authenticate_token_login mac system_now clk deps input db =
    (let (res, db1) =
       (case try_persisted_login (clk 0) deps input db of
          (Inl e, db') \<Rightarrow> (Inl e, db')
        | (Inr True, db') \<Rightarrow> (Inr True, db')
        | (Inr False, db') \<Rightarrow> try_totp_bootstrap mac system_now (clk 1) (clk 2) deps input db')
     in case res of
          Inl e \<Rightarrow> (Inl e, db1)
        | Inr False \<Rightarrow> (Inr (Rejected InvalidCredentials), db1)
        | Inr True \<Rightarrow>
            (case get_or_create_profile (clk 3) (li_username input) db1 of
               (Inl e, db2) \<Rightarrow> (Inl e, db2)
             | (Inr profile, db2) \<Rightarrow>
                 (if pr_is_banned profile then Inr (Rejected BlockedAccount) else Inr (Accepted (li_username input) (pr_empire profile)), db2)))"

section \<open>Liveness of a connection\<close>

datatype SessionTick = SendHeartbeat | TimedOut

record SessionTracker =
  last_rx :: int
  heartbeat_interval :: duration
  timeout :: duration

definition duration_max_from_secs :: duration where
  "duration_max_from_secs = from_secs (2 ^ 64 - 1)"

text \<open>\<^verbatim>\<open>Duration::checked_mul\<close> fails when the number of whole seconds leaves the \<open>u64\<close> range.\<close>

definition tracker_new :: "int \<Rightarrow> duration \<Rightarrow> SessionTracker" where
  "tracker_new now interval =
    \<lparr>last_rx = now, heartbeat_interval = interval,
     timeout = (if 3 * interval div 1000000000 < 2 ^ 64 then 3 * interval else duration_max_from_secs)\<rparr>"

definition mark_rx :: "int \<Rightarrow> SessionTracker \<Rightarrow> SessionTracker" where
  "mark_rx now s = s\<lparr>last_rx := now\<rparr>"

definition on_tick :: "int \<Rightarrow> SessionTracker \<Rightarrow> SessionTick option" where
  "on_tick now s =
    (let since_rx = max 0 (now - last_rx s)
     in if timeout s \<le> since_rx then Some TimedOut
        else if heartbeat_interval s \<le> since_rx then Some SendHeartbeat
        else None)"

text \<open>
  What a connected phase does with the tracker: a packet marks it; the tick handler writes the heartbeat to the
  database only when the tick asks the client for one, and disconnects on a timeout.  The history of a
  connection is a list of events with their times; its heartbeats are the statements it has run.
\<close>

datatype ConnEvent = PacketRx int | IntervalTick int

fun conn_heartbeats :: "string \<Rightarrow> SessionTracker \<Rightarrow> ConnEvent list \<Rightarrow> (timestamptz \<times> SessionStmt) list" where
  "conn_heartbeats u s [] = []"
| "conn_heartbeats u s (PacketRx t # es) = conn_heartbeats u (mark_rx t s) es"
| "conn_heartbeats u s (IntervalTick t # es) =
    (case on_tick t s of
       Some SendHeartbeat \<Rightarrow> (t div 1000, SHeartbeat u) # conn_heartbeats u s es
     | Some TimedOut \<Rightarrow> []
     | None \<Rightarrow> conn_heartbeats u s es)"

section \<open>The end of a connection\<close>

datatype SessionLeaseAction = LeaseRelease | AlreadyReleased | RetainUntilStale

datatype SessionEnd = BeforeLogin | AfterLogin string SessionLeaseAction | EndHandoff string

datatype DisconnectDisposition = Standard | HandoffPrepared

definition session_end_for_disconnect :: "SessionEnd \<Rightarrow> DisconnectDisposition \<Rightarrow> SessionEnd" where
  "session_end_for_disconnect se d =
    (case d of Standard \<Rightarrow> se
     | HandoffPrepared \<Rightarrow> (case se of AfterLogin u _ \<Rightarrow> EndHandoff u | other \<Rightarrow> other))"

definition on_session_end :: "string \<Rightarrow> string \<Rightarrow> string \<Rightarrow> GameDb \<Rightarrow> GameDb" where
  "on_session_end server_id u conn_id db = db\<lparr>db_sessions := snd (release_session u server_id conn_id (db_sessions db))\<rparr>"

definition finish_connection :: "string \<Rightarrow> string \<Rightarrow> SessionEnd \<Rightarrow> GameDb \<Rightarrow> GameDb" where
  "finish_connection server_id conn_id se db =
    (case se of
       AfterLogin u action \<Rightarrow>
         (case action of LeaseRelease \<Rightarrow> on_session_end server_id u conn_id db
          | AlreadyReleased \<Rightarrow> db
          | RetainUntilStale \<Rightarrow> db)
     | EndHandoff u \<Rightarrow> db
     | BeforeLogin \<Rightarrow> db)"

section \<open>Who gets in\<close>

text \<open>The account is free for this connection: nobody holds it, its holder went silent, or the holder is this connection.\<close>

definition lease_free :: "timestamptz \<Rightarrow> int \<Rightarrow> string \<Rightarrow> string \<Rightarrow> SessionRow option \<Rightarrow> bool" where
  "lease_free now thr s c row \<longleftrightarrow>
    (case row of None \<Rightarrow> True
     | Some r \<Rightarrow> se_state r = AUTHED \<or> last_heartbeat r < now - interval_secs (max thr 0) \<or>
                 (se_server_id r = Some s \<and> se_connection_id r = Some c))"

text \<open>
  The game servers claim the account for a connection; the gateway only asks whether the token is good, of an account
  nobody holds.
\<close>

definition account_free :: "timestamptz \<Rightarrow> PersistedCheckMode \<Rightarrow> SessionRow option \<Rightarrow> bool" where
  "account_free now mode row \<longleftrightarrow>
    (case mode of
       ClaimActive s c thr \<Rightarrow> lease_free now thr s c row
     | ValidateOnly \<Rightarrow> (case row of None \<Rightarrow> True | Some r \<Rightarrow> se_state r = AUTHED))"

text \<open>What an accepted login leaves: the connection holds the account, or, at the gateway, still nobody does.\<close>

definition login_leaves :: "PersistedCheckMode \<Rightarrow> string \<Rightarrow> SessionRow table \<Rightarrow> bool" where
  "login_leaves mode u t \<longleftrightarrow>
    (case mode of
       ClaimActive s c thr \<Rightarrow> \<exists>hb. held u s c hb t
     | ValidateOnly \<Rightarrow> \<exists>r. row_of se_username t u = Some r \<and> se_state r = AUTHED)"

definition persisted_token_ok :: "timestamptz \<Rightarrow> LoginDeps \<Rightarrow> TokenLoginInput \<Rightarrow> SessionRow option \<Rightarrow> bool" where
  "persisted_token_ok now deps input row \<longleftrightarrow>
    (case row of None \<Rightarrow> False | Some r \<Rightarrow> token_usable now (li_token input) (ld_idle_ttl_secs deps) (ld_peer_ip deps) r)"

definition banned :: "timestamptz \<Rightarrow> string \<Rightarrow> GameDb \<Rightarrow> bool" where
  "banned now u db \<longleftrightarrow>
    (case row_of pf_username (db_profiles db) u of None \<Rightarrow> False
     | Some pf \<Rightarrow> (case pf_banned_until pf of None \<Rightarrow> False | Some t \<Rightarrow> now < t))"

lemma profile_readable:
  assumes "profiles_ok db"
  shows "\<exists>p. fst (get_or_create_profile now u db) = Inr p \<and> pr_is_banned p = banned now u db"
proof -
  let ?new = "\<lparr>pf_username = u, pf_empire = None, pf_delete_code = ''1234567'', pf_banned_until = None\<rparr>"
  let ?t = "sql_upsert pf_username ?new (\<lambda>r. r) (db_profiles db)"
  have pk: "primary_key pf_username (db_profiles db)" using assms by (simp add: profiles_ok_def)
  have row: "row_of pf_username ?t u = Some (case row_of pf_username (db_profiles db) u of None \<Rightarrow> ?new | Some r \<Rightarrow> r)"
    using pft.row_upsert [OF pk, of ?new "\<lambda>r. r" u] by simp
  show ?thesis
  proof (cases "row_of pf_username (db_profiles db) u")
    case None
    then show ?thesis using row
      by (simp add: get_or_create_profile_def Let_def find_profile_by_username_def db_invariant_def banned_def)
  next
    case (Some r)
    then have "profile_ok r" using assms row_of_in [OF Some] by (simp add: profiles_ok_def)
    then show ?thesis using row Some parse_enum_db(1) [of _ "''empire''"]
      by (cases "pf_empire r")
        (fastforce simp: get_or_create_profile_def Let_def find_profile_by_username_def db_invariant_def banned_def profile_ok_def)+
  qed
qed

lemma validate_answer:
  assumes "primary_key se_username t"
  shows "fst (validate_login_token now u tok ttl ip t) =
    Inr (\<exists>r. row_of se_username t u = Some r \<and> se_state r = AUTHED \<and> token_usable now tok ttl ip r)"
  using ss.affected_iff [OF assms, where P = "\<lambda>r. se_username r = u \<and> se_state r = AUTHED \<and> token_usable now tok ttl ip r" and k = u]
    ss.key_of_row [OF assms, of u]
  unfolding validate_login_token_def Let_def fst_conv by auto

lemma persisted_steps:
  "try_persisted_login now deps input db =
    (case ld_mode deps of
       ClaimActive s c thr \<Rightarrow>
         (fst (resume_session_with_token now (li_username input) (li_token input) s c thr (ld_idle_ttl_secs deps) (ld_peer_ip deps) (db_sessions db)),
          db\<lparr>db_sessions := run_stmt now (SResume (li_username input) (li_token input) s c thr (ld_idle_ttl_secs deps) (ld_peer_ip deps)) (db_sessions db)\<rparr>)
     | ValidateOnly \<Rightarrow>
         (fst (validate_login_token now (li_username input) (li_token input) (ld_idle_ttl_secs deps) (ld_peer_ip deps) (db_sessions db)),
          db\<lparr>db_sessions := run_stmt now (SValidate (li_username input) (li_token input) (ld_idle_ttl_secs deps) (ld_peer_ip deps)) (db_sessions db)\<rparr>))"
  by (simp add: try_persisted_login_def split_beta split: PersistedCheckMode.splits)

lemma claim_result:
  assumes "sessions_ok (db_sessions db)"
  shows "fst (try_persisted_login now deps input db) =
    Inr (persisted_token_ok now deps input (row_of se_username (db_sessions db) (li_username input)) \<and>
         account_free now (ld_mode deps) (row_of se_username (db_sessions db) (li_username input)))"
proof -
  have pk: "primary_key se_username (db_sessions db)" using assms by (simp add: sessions_ok_def)
  show ?thesis
    by (auto simp: persisted_steps resume_answer [OF pk] validate_answer [OF pk] persisted_token_ok_def account_free_def lease_free_def
        resumable_def split: option.splits PersistedCheckMode.splits)
qed

lemma claim_leaves:
  assumes "sessions_ok (db_sessions db)" and "fst (try_persisted_login now deps input db) = Inr True"
  shows "login_leaves (ld_mode deps) (li_username input) (db_sessions (snd (try_persisted_login now deps input db)))"
proof -
  have pk: "primary_key se_username (db_sessions db)" using assms(1) by (simp add: sessions_ok_def)
  show ?thesis
  proof (cases "ld_mode deps")
    case (ClaimActive s c thr)
    let ?st = "SResume (li_username input) (li_token input) s c thr (ld_idle_ttl_secs deps) (ld_peer_ip deps)"
    obtain r where r: "row_of se_username (db_sessions db) (li_username input) = Some r"
      "resumable now (li_token input) s c thr (ld_idle_ttl_secs deps) (ld_peer_ip deps) r"
      using assms(2) resume_answer [OF pk] by (auto simp: persisted_steps ClaimActive)
    have "held (li_username input) s c now (run_stmt now ?st (db_sessions db))"
      using ok_run_stmt [OF assms(1), of now ?st] r by (simp add: held_def row_resume [OF pk])
    then show ?thesis by (auto simp: login_leaves_def persisted_steps ClaimActive)
  next
    case ValidateOnly
    then obtain r where "row_of se_username (db_sessions db) (li_username input) = Some r" "se_state r = AUTHED"
      using assms(2) by (auto simp: persisted_steps validate_answer [OF pk])
    then show ?thesis by (simp add: login_leaves_def persisted_steps ValidateOnly row_update_stmts(1) [OF pk])
  qed
qed

lemma totp_result:
  assumes "sessions_ok (db_sessions db)"
  shows "fst (try_totp_bootstrap mac system_now now now' deps input db) =
    Inr (verify mac (ld_signer deps) system_now (username_bytes (li_username input)) (li_enc_key input) (li_token input) \<and>
      now' - interval_secs (max (ld_idle_ttl_secs deps) 0) \<le> now \<and>
      account_free now' (ld_mode deps) (row_of se_username (db_sessions db) (li_username input)))" (is "_ = Inr (?v \<and> ?t \<and> ?f)")
    and "fst (try_totp_bootstrap mac system_now now now' deps input db) = Inr True \<Longrightarrow>
      login_leaves (ld_mode deps) (li_username input) (db_sessions (snd (try_totp_bootstrap mac system_now now now' deps input db)))"
proof -
  let ?A = "fst (try_totp_bootstrap mac system_now now now' deps input db)"
  let ?u = "li_username input"
  let ?db = "db\<lparr>db_sessions := snd (set_session_login_token now ?u (li_token input) (db_sessions db))\<rparr>"
  have pk: "primary_key se_username (db_sessions db)" using assms(1) by (simp add: sessions_ok_def)
  have ok: "sessions_ok (db_sessions ?db)" using ok_run_stmt [OF assms(1), of now "SSetToken ?u (li_token input)"] by simp
  have step: "try_totp_bootstrap mac system_now now now' deps input db = (if ?v then try_persisted_login now' deps input ?db else (Inr False, db))"
    by (simp add: try_totp_bootstrap_def set_session_login_token_def Let_def)
  have row: "\<forall>r. row_of se_username (db_sessions db) ?u = Some r \<longrightarrow> session_row_ok r"
    using assms(1) row_of_in [of se_username "db_sessions db" ?u] by (auto simp: sessions_ok_def)
  have "persisted_token_ok now' deps input (row_of se_username (db_sessions ?db) ?u) \<longleftrightarrow> ?t"
    by (simp add: row_set_token [OF pk] persisted_token_ok_def token_usable_def split: option.splits)
  moreover have "account_free now' (ld_mode deps) (row_of se_username (db_sessions ?db) ?u) \<longleftrightarrow> ?f"
    using row by (cases "row_of se_username (db_sessions db) ?u"; cases "ld_mode deps")
      (auto simp: row_set_token [OF pk] account_free_def lease_free_def actively_owned_def session_row_ok_def split: SessionState.splits)
  ultimately have claim: "fst (try_persisted_login now' deps input ?db) = Inr (?t \<and> ?f)"
    using claim_result [OF ok, of now' deps input] by simp
  then show "?A = Inr (?v \<and> ?t \<and> ?f)" unfolding step by simp
  then show "login_leaves (ld_mode deps) ?u (db_sessions (snd (try_totp_bootstrap mac system_now now now' deps input db)))" if "?A = Inr True"
    using claim_leaves [OF ok, of now' deps input] that unfolding step by (auto split: if_splits)
qed

lemma refused_claim_row:
  assumes "fst (try_persisted_login now deps input db) = Inr False"
  shows "snd (try_persisted_login now deps input db) = db"
proof -
  have none: "sql_update P f t = t" if "Inr (0 < sql_rows_affected P t) = (Inr False :: bool DbResult)" for P f and t :: "SessionRow table"
    using that by (intro sql_update_none) (auto simp: sql_rows_affected_def filter_empty_conv)
  have same: "db_sessions (snd (try_persisted_login now deps input db)) = db_sessions db"
  proof (cases "ld_mode deps")
    case (ClaimActive s c thr)
    then show ?thesis using assms none
      by (simp add: persisted_steps resume_session_with_token_def Let_def del: sum.inject not_gr_zero)
  next
    case ValidateOnly
    then show ?thesis using assms none
      by (simp add: persisted_steps validate_login_token_def Let_def del: sum.inject not_gr_zero)
  qed
  moreover obtain t where "snd (try_persisted_login now deps input db) = db\<lparr>db_sessions := t\<rparr>"
    by (cases "ld_mode deps") (simp_all add: persisted_steps)
  ultimately show ?thesis by simp
qed

text \<open>The first two steps of the login: who is let in before the profile is looked at.\<close>

definition login_opens :: "mac \<Rightarrow> int \<Rightarrow> (nat \<Rightarrow> timestamptz) \<Rightarrow> LoginDeps \<Rightarrow> TokenLoginInput \<Rightarrow> SessionRow option \<Rightarrow> bool" where
  "login_opens mac system_now clk deps input row \<longleftrightarrow>
    (persisted_token_ok (clk 0) deps input row \<and> account_free (clk 0) (ld_mode deps) row) \<or>
    (verify mac (ld_signer deps) system_now (username_bytes (li_username input)) (li_enc_key input) (li_token input) \<and>
     clk 2 - interval_secs (max (ld_idle_ttl_secs deps) 0) \<le> clk 1 \<and> account_free (clk 2) (ld_mode deps) row)"

lemma db_profiles_login [simp]:
  "db_profiles (snd (try_persisted_login now deps input db)) = db_profiles db"
  "db_profiles (snd (try_totp_bootstrap mac sn now now' deps input db)) = db_profiles db"
proof -
  show a: "db_profiles (snd (try_persisted_login now deps input db)) = db_profiles db" for now db
    by (simp add: try_persisted_login_def split_beta split: PersistedCheckMode.splits)
  show "db_profiles (snd (try_totp_bootstrap mac sn now now' deps input db)) = db_profiles db"
    by (simp add: try_totp_bootstrap_def set_session_login_token_def Let_def a)
qed

lemma sessions_after_profile: "db_sessions (snd (get_or_create_profile now u db)) = db_sessions db"
  by (simp add: get_or_create_profile_def Let_def)

text \<open>What the first two steps leave: the answer, and the lease when the answer is yes.\<close>

lemma login_steps:
  assumes "store_ok db"
  obtains db1 where "authenticate_token_login mac system_now clk deps input db =
      (if login_opens mac system_now clk deps input (row_of se_username (db_sessions db) (li_username input))
       then (case get_or_create_profile (clk 3) (li_username input) db1 of
               (Inl e, db2) \<Rightarrow> (Inl e, db2)
             | (Inr profile, db2) \<Rightarrow>
                 (if pr_is_banned profile then Inr (Rejected BlockedAccount) else Inr (Accepted (li_username input) (pr_empire profile)), db2))
       else (Inr (Rejected InvalidCredentials), db1))"
    and "db_profiles db1 = db_profiles db"
    and "login_opens mac system_now clk deps input (row_of se_username (db_sessions db) (li_username input)) \<Longrightarrow>
      login_leaves (ld_mode deps) (li_username input) (db_sessions db1)"
proof -
  have sok: "sessions_ok (db_sessions db)" using assms(1) by (simp add: store_ok_def)
  let ?p = "try_persisted_login (clk 0) deps input db"
  show thesis
  proof (cases "fst ?p = Inr True")
    case True
    then have "login_opens mac system_now clk deps input (row_of se_username (db_sessions db) (li_username input))"
      using claim_result [OF sok, of "clk 0" deps input] by (simp add: login_opens_def)
    moreover obtain db1 where p: "?p = (Inr True, db1)" using True by (cases ?p) simp
    moreover have "db_profiles db1 = db_profiles db" using db_profiles_login(1) [of "clk 0" deps input db] p by simp
    moreover have "login_leaves (ld_mode deps) (li_username input) (db_sessions db1)" using claim_leaves [OF sok True] p by simp
    ultimately show ?thesis by (intro that [of db1]) (auto simp: authenticate_token_login_def)
  next
    case False
    then have no: "fst ?p = Inr False" using claim_result [OF sok, of "clk 0" deps input] by simp
    then have p: "?p = (Inr False, db)" using refused_claim_row [OF no] by (simp add: prod_eq_iff)
    let ?q = "try_totp_bootstrap mac system_now (clk 1) (clk 2) deps input db"
    have op: "fst ?q = Inr (login_opens mac system_now clk deps input (row_of se_username (db_sessions db) (li_username input)))"
      using totp_result(1) [OF sok] no claim_result [OF sok, of "clk 0" deps input] by (auto simp: login_opens_def)
    then obtain db1 where q: "?q = (Inr (login_opens mac system_now clk deps input (row_of se_username (db_sessions db) (li_username input))), db1)"
      by (cases ?q) simp
    show ?thesis
    proof (rule that [of db1])
      show "login_leaves (ld_mode deps) (li_username input) (db_sessions db1)"
        if "login_opens mac system_now clk deps input (row_of se_username (db_sessions db) (li_username input))"
        using totp_result(2) [OF sok, of mac system_now "clk 1" "clk 2" deps input] that q by auto
      show "db_profiles db1 = db_profiles db"
        using db_profiles_login(2) [of mac system_now "clk 1" "clk 2" deps input db] unfolding q snd_conv .
    qed (use p q in \<open>auto simp: authenticate_token_login_def\<close>)
  qed
qed

text \<open>
  C7. Who can log in, at a game server (which claims the account) and at the gateway (which only validates).  On a
  database that satisfies its schema the token login always answers, and it accepts exactly when the account is not banned
  and either the stored token is presented, still within its idle time and from its address, while the account is free, or
  the signed token verifies and the account is free.  For a game server ``free'' means that nobody holds the account, or its
  holder has sent no heartbeat for the threshold, or the holder is this very connection, and an accepted connection then
  holds the account; for the gateway it means that nobody holds it, and an accepted login leaves it so.
\<close>

theorem login_accepted_iff:
  assumes "store_ok db"
  shows "(\<exists>d. fst (authenticate_token_login mac system_now clk deps input db) = Inr d) \<and>
    ((\<exists>e. fst (authenticate_token_login mac system_now clk deps input db) = Inr (Accepted (li_username input) e)) \<longleftrightarrow>
      login_opens mac system_now clk deps input (row_of se_username (db_sessions db) (li_username input)) \<and>
      \<not> banned (clk 3) (li_username input) db) \<and>
    ((\<exists>e. fst (authenticate_token_login mac system_now clk deps input db) = Inr (Accepted (li_username input) e)) \<longrightarrow>
      login_leaves (ld_mode deps) (li_username input) (db_sessions (snd (authenticate_token_login mac system_now clk deps input db))))"
proof -
  obtain db1 where steps: "authenticate_token_login mac system_now clk deps input db =
      (if login_opens mac system_now clk deps input (row_of se_username (db_sessions db) (li_username input))
       then (case get_or_create_profile (clk 3) (li_username input) db1 of
               (Inl e, db2) \<Rightarrow> (Inl e, db2)
             | (Inr profile, db2) \<Rightarrow>
                 (if pr_is_banned profile then Inr (Rejected BlockedAccount) else Inr (Accepted (li_username input) (pr_empire profile)), db2))
       else (Inr (Rejected InvalidCredentials), db1))"
    and pf: "db_profiles db1 = db_profiles db"
    and hld: "login_opens mac system_now clk deps input (row_of se_username (db_sessions db) (li_username input)) \<Longrightarrow>
      login_leaves (ld_mode deps) (li_username input) (db_sessions db1)"
    using login_steps [OF assms] by blast
  have "profiles_ok db1" using assms pf by (simp add: store_ok_def profiles_ok_def)
  then obtain p where p: "fst (get_or_create_profile (clk 3) (li_username input) db1) = Inr p"
    "pr_is_banned p = banned (clk 3) (li_username input) db1" using profile_readable by blast
  then obtain db2 where pair: "get_or_create_profile (clk 3) (li_username input) db1 = (Inr p, db2)"
    by (cases "get_or_create_profile (clk 3) (li_username input) db1") simp
  have keep: "db_sessions db2 = db_sessions db1" using sessions_after_profile [of "clk 3" "li_username input" db1] pair by simp
  have ban: "pr_is_banned p = banned (clk 3) (li_username input) db" using p(2) pf by (simp add: banned_def)
  show ?thesis unfolding steps pair using hld ban keep by (auto split: if_splits)
qed

text \<open>A second connection presents the right, freshly signed token while the first is silent for longer than the threshold.\<close>

definition login_deps_example :: LoginDeps where
  "login_deps_example = \<lparr>ld_signer = signer_new [7] (from_secs 30), ld_peer_ip = ''ip'', ld_idle_ttl_secs = 600,
     ld_mode = ClaimActive ''ch2'' ''b'' 90\<rparr>"

definition login_input_example :: TokenLoginInput where
  "login_input_example = \<lparr>li_username = ''guest'', li_token = issue sum_mac (signer_new [7] (from_secs 30)) (from_secs 1000)
     (username_bytes ''guest'') [1, 2], li_enc_key = [1, 2]\<rparr>"

theorem login_accepted_iff_witness:
  "\<exists>e. fst (authenticate_token_login sum_mac (from_secs 1000) (\<lambda>_. 91000000) login_deps_example login_input_example seed_db) =
    Inr (Accepted ''guest'' e)"
proof -
  have mode: "ld_mode login_deps_example = ClaimActive ''ch2'' ''b'' 90" by (simp add: login_deps_example_def)
  have v: "verify sum_mac (ld_signer login_deps_example) (from_secs 1000) (username_bytes (li_username login_input_example))
      (li_enc_key login_input_example) (li_token login_input_example)"
    by (simp add: verify_def Let_def issue_def login_deps_example_def login_input_example_def)
  have row: "row_of se_username (db_sessions seed_db) (li_username login_input_example) =
      Some \<lparr>se_username = ''guest'', se_server_id = Some ''ch1'', se_connection_id = Some ''a'', last_heartbeat = 0,
        login_token = None, login_issued_at = None, peer_ip = None, se_state = ACTIVE\<rparr>"
    unfolding login_input_example_def by code_simp
  have free: "lease_free 91000000 90 ''ch2'' ''b'' (row_of se_username (db_sessions seed_db) (li_username login_input_example))"
    unfolding row by (simp add: lease_free_def interval_secs_def)
  have "\<not> banned 91000000 (li_username login_input_example) seed_db"
    unfolding login_input_example_def by code_simp
  moreover have "login_opens sum_mac (from_secs 1000) (\<lambda>_. 91000000) login_deps_example login_input_example
      (row_of se_username (db_sessions seed_db) (li_username login_input_example))"
    unfolding login_opens_def using v free by (simp add: interval_secs_def account_free_def mode)
  ultimately show ?thesis
    using login_accepted_iff [OF store_ok_seed, of sum_mac "from_secs 1000" "\<lambda>_. 91000000" login_deps_example login_input_example]
    by (simp add: login_input_example_def)
qed

section \<open>Keeping the lease\<close>

lemma on_tick_spec:
  assumes "0 < interval" and "3 * interval div 1000000000 < 2 ^ 64" and "rx \<le> now"
  shows "on_tick now (mark_rx rx (tracker_new t0 interval)) =
    (if now - rx < interval then None else if now - rx < 3 * interval then Some SendHeartbeat else Some TimedOut)"
  using assms by (simp add: on_tick_def mark_rx_def tracker_new_def Let_def)

text \<open>A client that is never silent for a whole interval when the tick comes.\<close>

fun busy :: "SessionTracker \<Rightarrow> ConnEvent list \<Rightarrow> bool" where
  "busy s [] \<longleftrightarrow> True"
| "busy s (PacketRx t # es) \<longleftrightarrow> busy (mark_rx t s) es"
| "busy s (IntervalTick t # es) \<longleftrightarrow> t - last_rx s < heartbeat_interval s \<and> busy s es"

lemma busy_no_heartbeat:
  assumes "0 < heartbeat_interval s" and "heartbeat_interval s \<le> timeout s" and "busy s es"
  shows "conn_heartbeats u s es = []"
  using assms by (induction u s es rule: conn_heartbeats.induct) (auto simp: on_tick_def mark_rx_def Let_def)

text \<open>
  C8. The database lease is refreshed only when a tick finds the client silent for a whole heartbeat interval, so a
  client that keeps sending packets never refreshes it: after the stale threshold, another connection that presents
  the account's token takes the session over while the first is still connected and playing.
\<close>

theorem busy_client_loses_lease:
  assumes "0 < interval" and "3 * interval div 1000000000 < 2 ^ 64" and "busy (tracker_new t0 interval) es"
    and "primary_key se_username t" and "row_of se_username t u = Some r" and "token_usable now tok ttl ip r"
    and "last_heartbeat r + interval_secs (max thr 0) < now"
  shows "fst (resume_session_with_token now u tok s' c' thr ttl ip
    (run_stmts (conn_heartbeats u (tracker_new t0 interval) es) t)) = Inr True"
proof -
  have "conn_heartbeats u (tracker_new t0 interval) es = []"
    using assms(1-3) by (intro busy_no_heartbeat) (auto simp: tracker_new_def)
  then show ?thesis using assms(5-7) by (simp add: resume_answer [OF assms(4)] resumable_def)
qed

text \<open>With the default settings (30 s and 90 s): a client that sends a packet every 20 s is taken over after 100 s.\<close>

theorem busy_client_loses_lease_witness:
  "fst (resume_session_with_token 100000000 ''ann'' 7 ''ch2'' ''b'' 90 600 ''10.0.0.1''
    (run_stmts (conn_heartbeats ''ann'' (tracker_new 0 (from_secs 30))
        [PacketRx (from_secs 20), IntervalTick (from_secs 30), PacketRx (from_secs 40), IntervalTick (from_secs 60),
         PacketRx (from_secs 80), IntervalTick (from_secs 90), PacketRx (from_secs 100)])
      (snd (resume_session_with_token 1 ''ann'' 7 ''ch1'' ''a'' 90 600 ''10.0.0.1'' (snd (set_session_login_token 0 ''ann'' 7 [])))))) = Inr True"
proof -
  let ?t = "snd (resume_session_with_token 1 ''ann'' 7 ''ch1'' ''a'' 90 600 ''10.0.0.1'' (snd (set_session_login_token 0 ''ann'' 7 [])))"
  let ?r = "\<lparr>se_username = ''ann'', se_server_id = Some ''ch1'', se_connection_id = Some ''a'', last_heartbeat = 1,
    login_token = Some 7, login_issued_at = Some 1, peer_ip = Some ''10.0.0.1'', se_state = ACTIVE\<rparr>"
  have pk: "primary_key se_username ?t" by code_simp
  have row: "row_of se_username ?t ''ann'' = Some ?r" by code_simp
  show ?thesis
    by (rule busy_client_loses_lease [OF _ _ _ pk row])
      (simp_all add: from_secs_def tracker_new_def mark_rx_def token_usable_def interval_secs_def)
qed

end
