(* ===== verification/Persistence_Lanes.thy ===== *)
theory Persistence_Lanes
  imports Player_Store Replication
begin

text \<open>
  The persistence worker (\<^verbatim>\<open>zohar-core/src/runtime/player_persistence.rs\<close>) with the requests of
  \<^verbatim>\<open>zohar-sim/src/persistence.rs\<close>: one lane per player, in which saves coalesce and an exit supersedes them, a
  pool of at most eight database calls, priorities and retries.

  The calls the worker spawns run beside it, against the database of \<open>Player_Store\<close>: the state of the model is the
  worker together with its spawned tasks and the database, and a history interleaves requests, tasks taking effect or
  failing, completions and timers in any order, with other servers' statements in between.  A reply channel is a value of
  the type \<open>'r\<close>; dropping its sender, which the receiver sees as an error, is the output \<open>Dropped\<close>.  The order in which
  the hash map is iterated is the argument \<open>iter\<close>, as in \<open>Replication\<close>; since it is arbitrary, sorting stably covers
  what the unstable sort may do.  An \<^verbatim>\<open>Instant\<close> is a number of nanoseconds.
\<close>

section \<open>Requests\<close>

datatype SaveUrgency = Autosave | FlushNow

type_synonym PlayerPersistenceResult = "string + unit"

datatype 'r PlayerPersistenceRequest =
    SaveSnapshot PlayerSnapshot SaveUrgency "'r option"
  | CommitPlayerExit PlayerExitKind string string string PlayerSnapshot 'r

section \<open>Lanes\<close>

record 'r PendingSave =
  sv_snapshot :: PlayerSnapshot
  sv_urgency :: SaveUrgency
  sv_reply :: "'r option"

record 'r PendingExit =
  ex_kind :: PlayerExitKind
  ex_username :: string
  ex_server_id :: string
  ex_connection_id :: string
  ex_snapshot :: PlayerSnapshot
  ex_reply :: 'r

record 'r PlayerPersistenceLane =
  in_flight :: bool
  pending_save :: "'r PendingSave option"
  pending_exit :: "'r PendingExit option"
  retry_at :: "int option"

datatype 'r DispatchKind = DSave PlayerSnapshot SaveUrgency "'r option" | DExit "'r PendingExit"

record 'r DispatchOp =
  op_player_id :: PlayerId
  op_kind :: "'r DispatchKind"

type_synonym 'r lanes = "PlayerId \<rightharpoonup> 'r PlayerPersistenceLane"

datatype 'r wk_output =
    Sent 'r PlayerPersistenceResult
  | Dropped 'r
  | Started PlayerId PlayerSnapshot
  | Wrote PlayerSnapshot

definition lane_default :: "'r PlayerPersistenceLane" where
  "lane_default = \<lparr>in_flight = False, pending_save = None, pending_exit = None, retry_at = None\<rparr>"

definition lane_entry :: "'r lanes \<Rightarrow> PlayerId \<Rightarrow> 'r PlayerPersistenceLane" where
  "lane_entry lanes p = (case lanes p of Some l \<Rightarrow> l | None \<Rightarrow> lane_default)"

definition dropped :: "'r option \<Rightarrow> 'r wk_output list" where
  "dropped reply = (case reply of None \<Rightarrow> [] | Some r \<Rightarrow> [Dropped r])"

definition is_idle :: "'r PlayerPersistenceLane \<Rightarrow> bool" where
  "is_idle l \<longleftrightarrow> \<not> in_flight l \<and> pending_save l = None \<and> pending_exit l = None"

definition next_dispatch :: "'r PlayerPersistenceLane \<Rightarrow> 'r DispatchOp option \<times> 'r PlayerPersistenceLane" where
  "next_dispatch l =
    (case pending_exit l of
       Some ex \<Rightarrow> (Some \<lparr>op_player_id = snapshot_player_id (ex_snapshot ex), op_kind = DExit ex\<rparr>, l\<lparr>pending_exit := None\<rparr>)
     | None \<Rightarrow>
         (case pending_save l of
            Some sv \<Rightarrow> (Some \<lparr>op_player_id = snapshot_player_id (sv_snapshot sv),
                             op_kind = DSave (sv_snapshot sv) (sv_urgency sv) (sv_reply sv)\<rparr>, l\<lparr>pending_save := None\<rparr>)
          | None \<Rightarrow> (None, l)))"

section \<open>Handling a request\<close>

definition merge_save :: "PlayerSnapshot \<Rightarrow> SaveUrgency \<Rightarrow> 'r option \<Rightarrow> 'r PendingSave \<Rightarrow> 'r wk_output list \<times> 'r PendingSave" where
  "merge_save snapshot urgency reply pending =
    (case urgency of
       Autosave \<Rightarrow> (dropped reply, pending\<lparr>sv_snapshot := snapshot\<rparr>)
     | FlushNow \<Rightarrow>
         (let p = pending\<lparr>sv_snapshot := snapshot, sv_urgency := FlushNow\<rparr>
          in case reply of
               None \<Rightarrow> ([], p)
             | Some r \<Rightarrow> if sv_reply pending \<noteq> None then ([Sent r (Inl ''player flush is already pending'')], p)
                         else ([], p\<lparr>sv_reply := Some r\<rparr>)))"

fun handle_request :: "'r PlayerPersistenceRequest \<Rightarrow> 'r lanes \<Rightarrow> 'r wk_output list \<times> 'r lanes" where
  "handle_request (SaveSnapshot snapshot urgency reply) lanes =
    (let p = snapshot_player_id snapshot; lane = lane_entry lanes p
     in if pending_exit lane \<noteq> None
        then (case reply of None \<Rightarrow> [] | Some r \<Rightarrow> [Sent r (Inl ''player exit is already pending'')], lanes(p \<mapsto> lane))
        else (case pending_save lane of
                Some pending \<Rightarrow>
                  (case merge_save snapshot urgency reply pending of
                     (out, pending') \<Rightarrow> (out, lanes(p \<mapsto> lane\<lparr>retry_at := None, pending_save := Some pending'\<rparr>)))
              | None \<Rightarrow> ([], lanes(p \<mapsto> lane\<lparr>retry_at := None,
                  pending_save := Some \<lparr>sv_snapshot = snapshot, sv_urgency = urgency, sv_reply = reply\<rparr>\<rparr>))))"
| "handle_request (CommitPlayerExit exit_kind username server_id connection_id snapshot reply) lanes =
    (let p = snapshot_player_id snapshot; lane = lane_entry lanes p
     in (dropped (Option.bind (pending_save lane) sv_reply) @ dropped (map_option ex_reply (pending_exit lane)),
         lanes(p \<mapsto> lane\<lparr>pending_save := None, retry_at := None,
           pending_exit := Some \<lparr>ex_kind = exit_kind, ex_username = username, ex_server_id = server_id,
             ex_connection_id = connection_id, ex_snapshot = snapshot, ex_reply = reply\<rparr>\<rparr>)))"

section \<open>Dispatching\<close>

definition MAX_CONCURRENT_SAVES :: nat where
  "MAX_CONCURRENT_SAVES = 8"

definition AUTOSAVE_RETRY_DELAY :: duration where
  "AUTOSAVE_RETRY_DELAY = from_secs 1"

definition lane_priority :: "int \<Rightarrow> 'r PlayerPersistenceLane \<Rightarrow> nat option" where
  "lane_priority now lane =
    (if in_flight lane then None
     else if pending_exit lane \<noteq> None then Some 0
     else case pending_save lane of
            None \<Rightarrow> None
          | Some save \<Rightarrow>
              (case sv_urgency save of
                 FlushNow \<Rightarrow> Some 1
               | Autosave \<Rightarrow> if (case retry_at lane of None \<Rightarrow> False | Some t \<Rightarrow> now < t) then None else Some 2))"

definition ready_player_ids :: "iteration \<Rightarrow> 'r lanes \<Rightarrow> int \<Rightarrow> PlayerId list" where
  "ready_player_ids iter lanes now =
    map snd (sort_key fst (List.map_filter
      (\<lambda>p. case lanes p of None \<Rightarrow> None | Some lane \<Rightarrow> map_option (\<lambda>k. (k, p)) (lane_priority now lane)) (iter (dom lanes))))"

definition next_retry_deadline :: "iteration \<Rightarrow> 'r lanes \<Rightarrow> int option" where
  "next_retry_deadline iter lanes =
    (let ds = List.map_filter
       (\<lambda>p. case lanes p of None \<Rightarrow> None
            | Some lane \<Rightarrow> if \<not> in_flight lane \<and> pending_exit lane = None then retry_at lane else None) (iter (dom lanes))
     in if ds = [] then None else Some (Min (set ds)))"

text \<open>A spawned task: its operation, and the result once its database call has ended.\<close>

type_synonym 'r task = "'r DispatchOp \<times> PlayerPersistenceResult option"

definition op_snapshot :: "'r DispatchKind \<Rightarrow> PlayerSnapshot" where
  "op_snapshot k = (case k of DSave s _ _ \<Rightarrow> s | DExit ex \<Rightarrow> ex_snapshot ex)"

fun dispatch_loop :: "PlayerId list \<Rightarrow> 'r lanes \<Rightarrow> 'r task list \<Rightarrow> 'r wk_output list \<times> 'r lanes \<times> 'r task list" where
  "dispatch_loop [] lanes tasks = ([], lanes, tasks)"
| "dispatch_loop (p # ps) lanes tasks =
    (if MAX_CONCURRENT_SAVES \<le> length tasks then ([], lanes, tasks)
     else case lanes p of
       None \<Rightarrow> dispatch_loop ps lanes tasks
     | Some lane \<Rightarrow>
         (case next_dispatch lane of
            (None, lane') \<Rightarrow> dispatch_loop ps (lanes(p \<mapsto> lane')) tasks
          | (Some op, lane') \<Rightarrow>
              (case dispatch_loop ps (lanes(p \<mapsto> lane'\<lparr>in_flight := True\<rparr>)) (tasks @ [(op, None)]) of
                 (out, rest) \<Rightarrow> (Started (op_player_id op) (op_snapshot (op_kind op)) # out, rest))))"

definition dispatch_ready_ops :: "iteration \<Rightarrow> int \<Rightarrow> 'r lanes \<Rightarrow> 'r task list \<Rightarrow> 'r wk_output list \<times> 'r lanes \<times> 'r task list" where
  "dispatch_ready_ops iter now lanes tasks =
    (if MAX_CONCURRENT_SAVES \<le> length tasks then ([], lanes, tasks)
     else dispatch_loop (ready_player_ids iter lanes now) lanes tasks)"

section \<open>The spawned database call\<close>

definition db_error_text :: "DbError \<Rightarrow> string" where
  "db_error_text e =
    (case e of Sqlx c \<Rightarrow> c | SqlxMigrate c \<Rightarrow> c | IntConversion c \<Rightarrow> c | ParseEnum k v \<Rightarrow> ''parse '' @ k
     | Invariant m \<Rightarrow> ''database invariant violated: '' @ m | Migration n a \<Rightarrow> ''migration '' @ n)"

definition run_op :: "'r DispatchKind \<Rightarrow> GameDb \<Rightarrow> PlayerPersistenceResult \<times> GameDb" where
  "run_op k db =
    (case k of
       DSave snapshot urgency _ \<Rightarrow>
         (case save_player_snapshot snapshot db of
            (Inl e, db') \<Rightarrow> (Inl (db_error_text e), db')
          | (Inr outcome, db') \<Rightarrow>
              (case (urgency, outcome) of
                 (Autosave, Saved) \<Rightarrow> Inr ()
               | (Autosave, StaleOwner) \<Rightarrow> Inr ()
               | (FlushNow, Saved) \<Rightarrow> Inr ()
               | (FlushNow, StaleOwner) \<Rightarrow> Inl ''owned player state flush rejected because runtime ownership moved'', db'))
     | DExit ex \<Rightarrow>
         (case commit_player_exit (ex_kind ex) (ex_username ex) (ex_server_id ex) (ex_connection_id ex) (ex_snapshot ex) db of
            (Inl e, db') \<Rightarrow> (Inl (db_error_text e), db')
          | (Inr _, db') \<Rightarrow> (Inr (), db')))"

text \<open>Whether the call stored its snapshot.\<close>

definition op_stored :: "'r DispatchKind \<Rightarrow> GameDb \<Rightarrow> bool" where
  "op_stored k db =
    (case k of
       DSave snapshot _ _ \<Rightarrow> fst (save_player_snapshot snapshot db) = Inr Saved
     | DExit ex \<Rightarrow> fst (commit_player_exit (ex_kind ex) (ex_username ex) (ex_server_id ex) (ex_connection_id ex) (ex_snapshot ex) db) = Inr ())"

section \<open>Handling a completion\<close>

definition finish_lane :: "int \<Rightarrow> 'r DispatchKind \<Rightarrow> PlayerPersistenceResult \<Rightarrow> 'r PlayerPersistenceLane \<Rightarrow> 'r wk_output list \<times> 'r PlayerPersistenceLane" where
  "finish_lane now kind result lane =
    (case kind of
       DSave snapshot urgency reply \<Rightarrow>
         (case urgency of
            Autosave \<Rightarrow>
              (case result of
                 Inl _ \<Rightarrow>
                   (if pending_exit lane \<noteq> None \<or> pending_save lane \<noteq> None then (dropped reply, lane\<lparr>retry_at := None\<rparr>)
                    else ([], lane\<lparr>pending_save := Some \<lparr>sv_snapshot = snapshot, sv_urgency = urgency, sv_reply = reply\<rparr>,
                                   retry_at := Some (now + AUTOSAVE_RETRY_DELAY)\<rparr>))
               | Inr _ \<Rightarrow> (dropped reply, lane\<lparr>retry_at := None\<rparr>))
          | FlushNow \<Rightarrow> (case reply of None \<Rightarrow> [] | Some r \<Rightarrow> [Sent r result], lane))
     | DExit ex \<Rightarrow> ([Sent (ex_reply ex) result], lane))"

definition handle_completed_dispatch ::
  "int \<Rightarrow> 'r DispatchOp \<Rightarrow> PlayerPersistenceResult \<Rightarrow> 'r lanes \<Rightarrow> 'r wk_output list \<times> 'r lanes" where
  "handle_completed_dispatch now op result lanes =
    (case lanes (op_player_id op) of
       None \<Rightarrow> ([], lanes)
     | Some lane \<Rightarrow>
         (case finish_lane now (op_kind op) result (lane\<lparr>in_flight := False\<rparr>) of
            (out, lane') \<Rightarrow> (out, if is_idle lane' then lanes(op_player_id op := None) else lanes(op_player_id op \<mapsto> lane'))))"

section \<open>The worker beside its tasks\<close>

record 'r world =
  w_lanes :: "'r lanes"
  w_tasks :: "'r task list"
  w_receiver_closed :: bool
  w_db :: GameDb

text \<open>
  A database call may be answered, may fail before it took effect, or may take effect although its answer is lost.
\<close>

datatype fault = NoFault | FailedBefore string | FailedAfter string

datatype 'r event =
    Request "'r PlayerPersistenceRequest"
  | Closed
  | Joined nat
  | Timer
  | Execute nat fault
  | Foreign DbStmt

definition dispatch :: "iteration \<Rightarrow> int \<Rightarrow> 'r world \<Rightarrow> 'r wk_output list \<times> 'r world" where
  "dispatch iter now w =
    (case dispatch_ready_ops iter now (w_lanes w) (w_tasks w) of (out, lanes, tasks) \<Rightarrow> (out, w\<lparr>w_lanes := lanes, w_tasks := tasks\<rparr>))"

definition remove_nth :: "nat \<Rightarrow> 'a list \<Rightarrow> 'a list" where
  "remove_nth i xs = take i xs @ drop (Suc i) xs"

definition execute :: "nat \<Rightarrow> fault \<Rightarrow> 'r world \<Rightarrow> 'r wk_output list \<times> 'r world" where
  "execute i f w =
    (if i < length (w_tasks w) \<and> snd (w_tasks w ! i) = None
     then let op = fst (w_tasks w ! i); (res, db') = run_op (op_kind op) (w_db w);
              wrote = (if op_stored (op_kind op) (w_db w) then [Wrote (op_snapshot (op_kind op))] else [])
          in case f of
               NoFault \<Rightarrow> (wrote, w\<lparr>w_tasks := (w_tasks w)[i := (op, Some res)], w_db := db'\<rparr>)
             | FailedBefore m \<Rightarrow> ([], w\<lparr>w_tasks := (w_tasks w)[i := (op, Some (Inl m))]\<rparr>)
             | FailedAfter m \<Rightarrow> (wrote, w\<lparr>w_tasks := (w_tasks w)[i := (op, Some (Inl m))], w_db := db'\<rparr>)
     else ([], w))"

text \<open>
  A finished task is joined.  Tasks end with a result here: they only call the database, and the branch of the code for
  a task that panicked, which it ignores, is left out.
\<close>

definition join_task :: "int \<Rightarrow> nat \<Rightarrow> 'r world \<Rightarrow> 'r wk_output list \<times> 'r world" where
  "join_task now i w =
    (if i < length (w_tasks w)
     then case w_tasks w ! i of
            (op, Some res) \<Rightarrow>
              (case handle_completed_dispatch now op res (w_lanes w) of
                 (out, lanes) \<Rightarrow> (out, w\<lparr>w_lanes := lanes, w_tasks := remove_nth i (w_tasks w)\<rparr>))
          | (op, None) \<Rightarrow> ([], w)
     else ([], w))"

text \<open>One branch of the worker's \<^verbatim>\<open>select!\<close>, after the dispatch at the top of its loop; tasks and other servers run beside it.\<close>

fun world_step :: "iteration \<Rightarrow> int \<Rightarrow> 'r event \<Rightarrow> 'r world \<Rightarrow> 'r wk_output list \<times> 'r world" where
  "world_step iter now (Execute i f) w = execute i f w"
| "world_step iter now (Foreign q) w = ([], w\<lparr>w_db := run_db_stmt q (w_db w)\<rparr>)"
| "world_step iter now (Request req) w =
    (case dispatch iter now w of (out, w1) \<Rightarrow>
       if w_receiver_closed w1 then (out, w1)
       else case handle_request req (w_lanes w1) of (out', lanes) \<Rightarrow> (out @ out', w1\<lparr>w_lanes := lanes\<rparr>))"
| "world_step iter now Closed w = (case dispatch iter now w of (out, w1) \<Rightarrow> (out, w1\<lparr>w_receiver_closed := True\<rparr>))"
| "world_step iter now (Joined i) w =
    (case dispatch iter now w of (out, w1) \<Rightarrow> case join_task now i w1 of (out', w2) \<Rightarrow> (out @ out', w2))"
| "world_step iter now Timer w = dispatch iter now w"

fun world_run :: "iteration \<Rightarrow> (int \<times> 'r event) list \<Rightarrow> 'r world \<Rightarrow> 'r wk_output list \<times> 'r world" where
  "world_run iter [] w = ([], w)"
| "world_run iter ((now, e) # es) w =
    (case world_step iter now e w of (out, w1) \<Rightarrow> case world_run iter es w1 of (out', w2) \<Rightarrow> (out @ out', w2))"

definition world_start :: "GameDb \<Rightarrow> 'r world" where
  "world_start db = \<lparr>w_lanes = (\<lambda>_. None), w_tasks = [], w_receiver_closed = False, w_db = db\<rparr>"

text \<open>The condition under which the loop returns, tested after the dispatch.\<close>

definition worker_returns :: "'r world \<Rightarrow> bool" where
  "worker_returns w \<longleftrightarrow> w_receiver_closed w \<and> w_tasks w = [] \<and> dom (w_lanes w) = {}"

section \<open>The invariant\<close>

text \<open>
  Ages order the snapshots of a player by the time they were taken.  \<open>B p\<close> bounds the ages requested for \<open>p\<close>, \<open>T p\<close>
  those already dispatched, and \<open>asked r\<close> is the snapshot a reply channel was handed in with.
\<close>

definition op_reply :: "'r DispatchKind \<Rightarrow> 'r option" where
  "op_reply k = (case k of DSave _ _ r \<Rightarrow> r | DExit ex \<Rightarrow> Some (ex_reply ex))"

definition save_kind :: "'r PendingSave \<Rightarrow> 'r DispatchKind" where
  "save_kind sv = DSave (sv_snapshot sv) (sv_urgency sv) (sv_reply sv)"

type_synonym age = "PlayerSnapshot \<Rightarrow> nat"

definition job_ok :: "age \<Rightarrow> ('r \<Rightarrow> PlayerSnapshot) \<Rightarrow> (PlayerId \<Rightarrow> nat) \<Rightarrow> (PlayerId \<Rightarrow> nat) \<Rightarrow> PlayerId \<Rightarrow> 'r DispatchKind \<Rightarrow> bool" where
  "job_ok age asked B T p k \<longleftrightarrow>
    snapshot_player_id (op_snapshot k) = p \<and> T p \<le> age (op_snapshot k) \<and> age (op_snapshot k) \<le> B p \<and>
    (\<forall>r. op_reply k = Some r \<longrightarrow> snapshot_player_id (asked r) = p \<and> age (asked r) \<le> age (op_snapshot k))"

definition lane_ok :: "('r DispatchKind \<Rightarrow> bool) \<Rightarrow> 'r PlayerPersistenceLane \<Rightarrow> bool" where
  "lane_ok P l \<longleftrightarrow> \<not> is_idle l \<and> (pending_exit l = None \<or> pending_save l = None) \<and>
    (\<forall>sv. pending_save l = Some sv \<longrightarrow> P (save_kind sv)) \<and> (\<forall>ex. pending_exit l = Some ex \<longrightarrow> P (DExit ex))"

definition task_players :: "'r task list \<Rightarrow> PlayerId list" where
  "task_players tasks = map (\<lambda>t. op_player_id (fst t)) tasks"

definition lanes_ok :: "(PlayerId \<Rightarrow> 'r DispatchKind \<Rightarrow> bool) \<Rightarrow> 'r lanes \<Rightarrow> 'r task list \<Rightarrow> bool" where
  "lanes_ok P lanes tasks \<longleftrightarrow> finite (dom lanes) \<and>
    (\<forall>p l. lanes p = Some l \<longrightarrow> lane_ok (P p) l \<and> (in_flight l \<longleftrightarrow> p \<in> set (task_players tasks))) \<and>
    set (task_players tasks) \<subseteq> dom lanes \<and> distinct (task_players tasks) \<and> length tasks \<le> MAX_CONCURRENT_SAVES \<and>
    (\<forall>(op, res) \<in> set tasks. P (op_player_id op) (op_kind op))"

lemma lanes_okD:
  assumes "lanes_ok P lanes tasks"
  shows "finite (dom lanes)" "lanes p = Some l \<Longrightarrow> lane_ok (P p) l"
    "lanes p = Some l \<Longrightarrow> in_flight l \<longleftrightarrow> p \<in> set (task_players tasks)"
    "set (task_players tasks) \<subseteq> dom lanes" "distinct (task_players tasks)" "length tasks \<le> MAX_CONCURRENT_SAVES"
    "(op, res) \<in> set tasks \<Longrightarrow> P (op_player_id op) (op_kind op)"
  using assms unfolding lanes_ok_def by blast+

lemma lane_ok_mono: "lane_ok P l \<Longrightarrow> (\<And>k. P k \<Longrightarrow> P' k) \<Longrightarrow> lane_ok P' l"
  unfolding lane_ok_def by auto

text \<open>Changing one lane.\<close>

lemma lanes_ok_upd:
  assumes "lanes_ok P lanes tasks" and "\<And>q k. q \<noteq> p \<Longrightarrow> P q k \<Longrightarrow> P' q k" and "lane_ok (P' p) l"
    and "in_flight l \<longleftrightarrow> p \<in> set (task_players tasks)" and "\<And>op res. (op, res) \<in> set tasks \<Longrightarrow> op_player_id op = p \<Longrightarrow> P' p (op_kind op)"
  shows "lanes_ok P' (lanes(p \<mapsto> l)) tasks"
proof -
  note D = lanes_okD [OF assms(1)]
  have lane: "lane_ok (P' q) l' \<and> (in_flight l' \<longleftrightarrow> q \<in> set (task_players tasks))" if "(lanes(p \<mapsto> l)) q = Some l'" for q l'
  proof (cases "q = p")
    case True
    then show ?thesis using that assms(3,4) by simp
  next
    case False
    then have "lanes q = Some l'" using that by simp
    from lane_ok_mono [OF D(2) [OF this] assms(2) [OF False]] D(3) [OF this] show ?thesis by simp
  qed
  have task: "P' (op_player_id op) (op_kind op)" if "(op, res) \<in> set tasks" for op res
  proof (cases "op_player_id op = p")
    case True
    then show ?thesis using assms(5) [OF that True] by simp
  next
    case False
    show ?thesis by (rule assms(2) [OF False D(7) [OF that]])
  qed
  have "finite (dom (lanes(p \<mapsto> l)))" using D(1) by simp
  moreover have "set (task_players tasks) \<subseteq> dom (lanes(p \<mapsto> l))" using D(4) by auto
  moreover have "\<forall>(op, res) \<in> set tasks. P' (op_player_id op) (op_kind op)" using task by auto
  moreover note D(5,6)
  ultimately show ?thesis unfolding lanes_ok_def using lane by simp
qed

section \<open>Requests keep it\<close>

definition req_snapshot :: "'r PlayerPersistenceRequest \<Rightarrow> PlayerSnapshot" where
  "req_snapshot req = (case req of SaveSnapshot s _ _ \<Rightarrow> s | CommitPlayerExit _ _ _ _ s _ \<Rightarrow> s)"

definition req_reply :: "'r PlayerPersistenceRequest \<Rightarrow> 'r option" where
  "req_reply req = (case req of SaveSnapshot _ _ r \<Rightarrow> r | CommitPlayerExit _ _ _ _ _ r \<Rightarrow> Some r)"

text \<open>An output that neither starts an operation, nor writes, nor acknowledges one.\<close>

definition silent :: "'r wk_output \<Rightarrow> bool" where
  "silent out \<longleftrightarrow> (case out of Sent r (Inl _) \<Rightarrow> True | Dropped _ \<Rightarrow> True | _ \<Rightarrow> False)"

lemma silent_simps [simp]: "silent (Sent r (Inl m))" "silent (Dropped r)" "\<not> silent (Sent r (Inr u))" "\<not> silent (Started p s)" "\<not> silent (Wrote s)"
  by (simp_all add: silent_def)

lemma silent_dropped [simp]: "\<forall>x \<in> set (dropped r). silent x"
  by (cases r) (auto simp: dropped_def silent_def)

lemma lane_entry_cases:
  assumes "lanes_ok P lanes tasks"
  shows "in_flight (lane_entry lanes p) \<longleftrightarrow> p \<in> set (task_players tasks)"
    "pending_save (lane_entry lanes p) = Some sv \<Longrightarrow> P p (save_kind sv)"
    "pending_exit (lane_entry lanes p) = Some ex \<Longrightarrow> P p (DExit ex)"
    "pending_exit (lane_entry lanes p) = None \<or> pending_save (lane_entry lanes p) = None"
    "pending_exit (lane_entry lanes p) = Some ex \<Longrightarrow> lane_ok (P p) (lane_entry lanes p)"
proof -
  note D = lanes_okD [OF assms]
  show "in_flight (lane_entry lanes p) \<longleftrightarrow> p \<in> set (task_players tasks)"
    using D(3,4) by (cases "lanes p") (auto simp: lane_entry_def lane_default_def)
  show "pending_save (lane_entry lanes p) = Some sv \<Longrightarrow> P p (save_kind sv)"
    "pending_exit (lane_entry lanes p) = Some ex \<Longrightarrow> P p (DExit ex)"
    "pending_exit (lane_entry lanes p) = None \<or> pending_save (lane_entry lanes p) = None"
    "pending_exit (lane_entry lanes p) = Some ex \<Longrightarrow> lane_ok (P p) (lane_entry lanes p)"
    using D(2) [of p] by (cases "lanes p"; force simp: lane_entry_def lane_default_def lane_ok_def)+
qed

lemma job_ok_mono:
  "job_ok age asked B T p k \<Longrightarrow> B p \<le> B' p \<Longrightarrow> job_ok age asked B' T p k"
  by (auto simp: job_ok_def)

lemma merge_save_ok:
  assumes "merge_save s u reply pending = (out, pending')" and "job_ok age asked B T p (save_kind pending)"
    and "snapshot_player_id s = p" "B p \<le> age s" and "\<And>r. reply = Some r \<Longrightarrow> asked r = s"
  shows "job_ok age asked (B(p := age s)) T p (save_kind pending') \<and> (\<forall>x \<in> set out. silent x)"
proof -
  have old: "T p \<le> age s" "\<And>r. sv_reply pending = Some r \<Longrightarrow> snapshot_player_id (asked r) = p \<and> age (asked r) \<le> age s"
    using assms(2,4) by (auto simp: job_ok_def save_kind_def op_snapshot_def op_reply_def)
  have "sv_snapshot pending' = s \<and> (sv_reply pending' = sv_reply pending \<or> sv_reply pending' = reply) \<and> (\<forall>x \<in> set out. silent x)"
    using assms(1) by (cases u; cases reply) (auto simp: merge_save_def Let_def dropped_def split: if_splits)
  then show ?thesis using old assms(3,5) by (auto simp: job_ok_def save_kind_def op_snapshot_def op_reply_def)
qed

lemma new_save_ok:
  assumes "snapshot_player_id s = p" "B p \<le> age s" "T p \<le> B p" and "\<And>r. reply = Some r \<Longrightarrow> asked r = s"
  shows "job_ok age asked (B(p := age s)) T p (save_kind \<lparr>sv_snapshot = s, sv_urgency = u, sv_reply = reply\<rparr>)"
  using assms by (auto simp: job_ok_def save_kind_def op_snapshot_def op_reply_def)

lemma handle_request_ok:
  fixes asked :: "'r \<Rightarrow> PlayerSnapshot"
  assumes ok: "lanes_ok (job_ok age asked B T) lanes tasks" and le: "\<And>p. T p \<le> B p"
    and p: "snapshot_player_id (req_snapshot req) = p" and new: "B p \<le> age (req_snapshot req)"
    and asked: "\<And>r. req_reply req = Some r \<Longrightarrow> asked r = req_snapshot req"
    and step: "handle_request req lanes = (out, lanes')"
  shows "lanes_ok (job_ok age asked (B(p := age (req_snapshot req))) T) lanes' tasks \<and> (\<forall>x \<in> set out. silent x)"
proof -
  let ?B = "B(p := age (req_snapshot req))"
  note E = lane_entry_cases [OF ok, of p]
  have other: "job_ok age asked ?B T q k" if "q \<noteq> p" "job_ok age asked B T q k" for q k
    using that by (auto simp: job_ok_def)
  have more: "job_ok age asked ?B T p k" if "job_ok age asked B T p k" for k
    using that new by (auto simp: job_ok_def)
  have tasks: "job_ok age asked ?B T p (op_kind op)" if "(op, res) \<in> set tasks" "op_player_id op = p" for op res
    using more lanes_okD(7) [OF ok that(1)] that(2) by simp
  have upd: "lanes_ok (job_ok age asked ?B T) (lanes(p \<mapsto> l)) tasks"
    if "lane_ok (job_ok age asked ?B T p) l" "in_flight l \<longleftrightarrow> p \<in> set (task_players tasks)" for l
    by (rule lanes_ok_upd [where P = "job_ok age asked B T", OF ok]) (fact other that tasks)+
  show ?thesis
  proof (cases req)
    case (CommitPlayerExit ek un si ci s r)
    then have "asked r = s" "snapshot_player_id s = p" "B p \<le> age s" "T p \<le> B p"
      using asked p new le by (simp_all add: req_snapshot_def req_reply_def)
    then have "lane_ok (job_ok age asked ?B T p) ((lane_entry lanes p)\<lparr>pending_save := None, retry_at := None,
        pending_exit := Some \<lparr>ex_kind = ek, ex_username = un, ex_server_id = si, ex_connection_id = ci, ex_snapshot = s, ex_reply = r\<rparr>\<rparr>)"
      using CommitPlayerExit by (auto simp: req_snapshot_def job_ok_def op_snapshot_def op_reply_def lane_ok_def is_idle_def)
    from upd [OF this] show ?thesis
      using CommitPlayerExit step E(1) \<open>snapshot_player_id s = p\<close> by (auto simp: Let_def)
  next
    case (SaveSnapshot s u reply)
    then have s: "snapshot_player_id s = p" "B p \<le> age s" "T p \<le> B p" "\<And>r. reply = Some r \<Longrightarrow> asked r = s" "req_snapshot req = s"
      using asked p new le by (simp_all add: req_snapshot_def req_reply_def)
    show ?thesis
    proof (cases "pending_exit (lane_entry lanes p)")
      case (Some ex)
      have "lane_ok (job_ok age asked ?B T p) (lane_entry lanes p)"
        using E(5) [OF Some] more by (rule lane_ok_mono)
      from upd [OF this E(1)] show ?thesis
        using step SaveSnapshot Some s(1) by (auto simp: Let_def split: option.splits)
    next
      case None
      show ?thesis
      proof (cases "pending_save (lane_entry lanes p)")
        case None2: None
        have "lane_ok (job_ok age asked ?B T p) ((lane_entry lanes p)\<lparr>retry_at := None,
            pending_save := Some \<lparr>sv_snapshot = s, sv_urgency = u, sv_reply = reply\<rparr>\<rparr>)"
          using new_save_ok [where B = B and T = T and age = age and u = u and reply = reply and asked = asked, OF s(1-4)] None s(5) by (simp add: lane_ok_def is_idle_def)
        from upd [OF this] show ?thesis using step SaveSnapshot None None2 s(1) E(1) by (auto simp: Let_def)
      next
        case (Some pending)
        obtain out' pending' where m: "merge_save s u reply pending = (out', pending')" by fastforce
        have mk: "job_ok age asked ?B T p (save_kind pending') \<and> (\<forall>x \<in> set out'. silent x)"
          using merge_save_ok [OF m E(2) [OF Some] s(1,2,4)] s(5) by simp
        then have "lane_ok (job_ok age asked ?B T p) ((lane_entry lanes p)\<lparr>retry_at := None, pending_save := Some pending'\<rparr>)"
          using None by (simp add: lane_ok_def is_idle_def)
        from upd [OF this] show ?thesis using step SaveSnapshot None Some m mk s(1) E(1) by (auto simp: Let_def)
      qed
    qed
  qed
qed

section \<open>Dispatching keeps it, in order\<close>

fun started :: "PlayerId \<Rightarrow> 'r wk_output list \<Rightarrow> PlayerSnapshot list" where
  "started p [] = []"
| "started p (Started q s # out) = (if q = p then s # started p out else started p out)"
| "started p (_ # out) = started p out"

definition ordered :: "age \<Rightarrow> (PlayerId \<Rightarrow> nat) \<Rightarrow> 'r wk_output list \<Rightarrow> (PlayerId \<Rightarrow> nat) \<Rightarrow> bool" where
  "ordered age T out T' \<longleftrightarrow>
    (\<forall>p. T p \<le> T' p \<and> sorted (map age (started p out)) \<and> (\<forall>s \<in> set (started p out). T p \<le> age s \<and> age s \<le> T' p))"

lemma started_append [simp]: "started p (out @ out') = started p out @ started p out'"
  by (induction p out rule: started.induct) auto

lemma started_silent: "\<forall>x \<in> set out. silent x \<Longrightarrow> started p out = []"
  by (induction p out rule: started.induct) auto

lemma ordered_refl: "(\<And>p. started p out = []) \<Longrightarrow> ordered age T out T"
  by (simp add: ordered_def)

lemma ordered_append:
  assumes "ordered age T out T1" and "ordered age T1 out' T2"
  shows "ordered age T (out @ out') T2"
  using assms unfolding ordered_def by (fastforce simp: sorted_append intro: order_trans)

lemma next_dispatch_ok:
  assumes "lane_ok P l" and "next_dispatch l = (Some op, l')"
  shows "P (op_kind op)" "pending_save l' = None" "pending_exit l' = None" "op_player_id op = snapshot_player_id (op_snapshot (op_kind op))"
  using assms by (auto simp: next_dispatch_def lane_ok_def save_kind_def op_snapshot_def split: option.splits)

lemma dispatch_one:
  assumes ok: "lanes_ok P lanes tasks" and l: "lanes p = Some l" and free: "p \<notin> set (task_players tasks)"
    and room: "length tasks < MAX_CONCURRENT_SAVES" and d: "next_dispatch l = (Some op, l')" and op: "op_player_id op = p"
    and mono: "\<And>q k. q \<noteq> p \<Longrightarrow> P q k \<Longrightarrow> P' q k" and P': "P' p (op_kind op)"
  shows "lanes_ok P' (lanes(p \<mapsto> l'\<lparr>in_flight := True\<rparr>)) (tasks @ [(op, None)])"
proof -
  note D = lanes_okD [OF ok]
  have tp: "task_players (tasks @ [(op, None)]) = task_players tasks @ [p]" using op by (simp add: task_players_def)
  have new: "lane_ok (P' p) (l'\<lparr>in_flight := True\<rparr>)"
    using next_dispatch_ok [OF D(2) [OF l] d] by (simp add: lane_ok_def is_idle_def)
  have lane: "lane_ok (P' q) m \<and> (in_flight m \<longleftrightarrow> q \<in> set (task_players (tasks @ [(op, None)])))"
    if "(lanes(p \<mapsto> l'\<lparr>in_flight := True\<rparr>)) q = Some m" for q m
  proof (cases "q = p")
    case True
    then show ?thesis using that new tp by auto
  next
    case False
    then have "lanes q = Some m" using that by simp
    from lane_ok_mono [OF D(2) [OF this] mono [OF False]] D(3) [OF this] show ?thesis using False tp by simp
  qed
  have task: "P' (op_player_id o') (op_kind o')" if "(o', res) \<in> set tasks" for o' res
  proof -
    have "op_player_id o' \<noteq> p" using that free by (force simp: task_players_def)
    from mono [OF this D(7) [OF that]] show ?thesis .
  qed
  have "finite (dom (lanes(p \<mapsto> l'\<lparr>in_flight := True\<rparr>)))" using D(1) by simp
  moreover have "set (task_players (tasks @ [(op, None)])) \<subseteq> dom (lanes(p \<mapsto> l'\<lparr>in_flight := True\<rparr>))" using D(4) tp by auto
  moreover have "distinct (task_players (tasks @ [(op, None)]))" using D(5) tp free by simp
  moreover have "length (tasks @ [(op, None)]) \<le> MAX_CONCURRENT_SAVES" using room by simp
  moreover have "\<forall>(o', res) \<in> set (tasks @ [(op, None)]). P' (op_player_id o') (op_kind o')" using task P' op by auto
  ultimately show ?thesis unfolding lanes_ok_def using lane by simp
qed

lemma next_dispatch_None: "next_dispatch l = (None, l') \<Longrightarrow> l' = l"
  by (auto simp: next_dispatch_def split: option.splits)

lemma dispatch_loop_ok:
  assumes "lanes_ok (job_ok age asked B T) lanes tasks" and "distinct ps" and "set ps \<inter> set (task_players tasks) = {}"
    and "\<And>p. T p \<le> B p" and "dispatch_loop ps lanes tasks = (out, lanes', tasks')"
  shows "\<exists>T'. lanes_ok (job_ok age asked B T') lanes' tasks' \<and> ordered age T out T' \<and> (\<forall>p. T' p \<le> B p) \<and>
    (\<forall>x \<in> set out. \<exists>p s. x = Started p s) \<and> (\<forall>op r. (op, Some r) \<in> set tasks' \<longrightarrow> (op, Some r) \<in> set tasks)"
  using assms
proof (induction ps arbitrary: T lanes tasks out)
  case Nil
  then show ?case by (intro exI [of _ T]) (auto intro: ordered_refl)
next
  case (Cons p ps)
  note loop = Cons.prems(5)
  show ?case
  proof (cases "MAX_CONCURRENT_SAVES \<le> length tasks")
    case True
    then show ?thesis using Cons.prems by (intro exI [of _ T]) (auto intro: ordered_refl)
  next
    case room: False
    show ?thesis
    proof (cases "lanes p")
      case None
      then show ?thesis using Cons.IH [OF Cons.prems(1) _ _ Cons.prems(4)] Cons.prems room by auto
    next
      case (Some l)
      obtain o' l' where d: "next_dispatch l = (o', l')" by fastforce
      show ?thesis
      proof (cases o')
        case None
        then have "lanes(p \<mapsto> l') = lanes" using next_dispatch_None d Some by (auto simp: fun_upd_idem_iff)
        then show ?thesis using Cons.IH [OF Cons.prems(1) _ _ Cons.prems(4)] Cons.prems room Some d None by auto
      next
        case op: (Some op)
        note N = next_dispatch_ok [OF lanes_okD(2) [OF Cons.prems(1) Some] d [unfolded op]]
        have pid: "op_player_id op = p" using N(1,4) by (simp add: job_ok_def)
        let ?T = "T(p := age (op_snapshot (op_kind op)))"
        let ?lanes = "lanes(p \<mapsto> l'\<lparr>in_flight := True\<rparr>)" and ?tasks = "tasks @ [(op, None)]"
        have ok1: "lanes_ok (job_ok age asked B ?T) ?lanes ?tasks"
          by (rule dispatch_one [where P = "job_ok age asked B T", OF Cons.prems(1) Some _ _ d [unfolded op] pid])
            (use Cons.prems(3) room N(1) in \<open>auto simp: job_ok_def\<close>)
        obtain out1 where loop1: "dispatch_loop ps ?lanes ?tasks = (out1, lanes', tasks')"
          and out: "out = Started p (op_snapshot (op_kind op)) # out1"
          using loop room Some d op pid by (auto split: prod.splits)
        have "distinct ps" "set ps \<inter> set (task_players ?tasks) = {}" "\<And>q. ?T q \<le> B q"
          using Cons.prems(2,3,4) pid N(1) by (auto simp: task_players_def job_ok_def)
        from Cons.IH [OF ok1 this loop1] obtain T' where T': "lanes_ok (job_ok age asked B T') lanes' tasks'" "ordered age ?T out1 T'"
          "\<forall>q. T' q \<le> B q" "\<forall>x \<in> set out1. \<exists>p s. x = Started p s" "\<forall>op' r. (op', Some r) \<in> set tasks' \<longrightarrow> (op', Some r) \<in> set ?tasks"
          by blast
        have "ordered age T [Started p (op_snapshot (op_kind op))] ?T" using N(1) by (simp add: ordered_def job_ok_def)
        from ordered_append [OF this T'(2)] have "ordered age T out T'" by (simp add: out)
        then show ?thesis using T'(1,3,4,5) out by (intro exI [of _ T']) auto
      qed
    qed
  qed
qed

lemma distinct_map_filter:
  "distinct xs \<Longrightarrow> (\<And>x y. f x = Some y \<Longrightarrow> g y = x) \<Longrightarrow> distinct (map g (List.map_filter f xs)) \<and> set (map g (List.map_filter f xs)) \<subseteq> set xs"
proof (induction xs)
  case (Cons a xs)
  then show ?case by (cases "f a") (auto simp: map_filter_simps)
qed (simp add: map_filter_simps)

lemma in_map_filter: "y \<in> set (List.map_filter f xs) \<longleftrightarrow> (\<exists>x \<in> set xs. f x = Some y)"
  by (induction xs) (auto simp: map_filter_simps split: option.splits)

lemma ready_ids:
  assumes "iterates iter" and "finite (dom lanes)"
  shows "distinct (ready_player_ids iter lanes now)"
    and "p \<in> set (ready_player_ids iter lanes now) \<longleftrightarrow> (\<exists>l k. lanes p = Some l \<and> lane_priority now l = Some k)"
proof -
  let ?f = "\<lambda>p. case lanes p of None \<Rightarrow> None | Some lane \<Rightarrow> map_option (\<lambda>k. (k, p)) (lane_priority now lane)"
  have it: "set (iter (dom lanes)) = dom lanes" "distinct (iter (dom lanes))" using assms by (simp_all add: iterates_def)
  have snd_f: "\<And>x y. ?f x = Some y \<Longrightarrow> snd y = x" by (auto split: option.splits)
  have "distinct (map snd (List.map_filter ?f (iter (dom lanes))))"
    using distinct_map_filter [OF it(2), of ?f snd] snd_f by blast
  then show "distinct (ready_player_ids iter lanes now)"
    unfolding ready_player_ids_def distinct_map distinct_sort set_sort .
  have "p \<in> set (ready_player_ids iter lanes now) \<longleftrightarrow> (\<exists>k. (k, p) \<in> set (List.map_filter ?f (iter (dom lanes))))"
    by (force simp: ready_player_ids_def)
  also have "\<dots> \<longleftrightarrow> (\<exists>l k. lanes p = Some l \<and> lane_priority now l = Some k)"
    unfolding in_map_filter it(1) by (force split: option.splits)
  finally show "p \<in> set (ready_player_ids iter lanes now) \<longleftrightarrow> (\<exists>l k. lanes p = Some l \<and> lane_priority now l = Some k)" .
qed

text \<open>The invariant of the whole: lanes and tasks, and a stored snapshot behind every completed call that will be acknowledged.\<close>

definition acknowledges :: "'r DispatchKind \<Rightarrow> bool" where
  "acknowledges k = (case k of DSave _ u _ \<Rightarrow> u = FlushNow | DExit _ \<Rightarrow> True)"

definition stored_ok :: "PlayerSnapshot set \<Rightarrow> 'r task list \<Rightarrow> bool" where
  "stored_ok L tasks \<longleftrightarrow> (\<forall>op. (op, Some (Inr ())) \<in> set tasks \<and> acknowledges (op_kind op) \<longrightarrow> op_snapshot (op_kind op) \<in> L)"

definition worker_ok :: "age \<Rightarrow> ('r \<Rightarrow> PlayerSnapshot) \<Rightarrow> (PlayerId \<Rightarrow> nat) \<Rightarrow> (PlayerId \<Rightarrow> nat) \<Rightarrow> PlayerSnapshot set \<Rightarrow> 'r world \<Rightarrow> bool" where
  "worker_ok age asked B T L w \<longleftrightarrow>
    lanes_ok (job_ok age asked B T) (w_lanes w) (w_tasks w) \<and> (\<forall>p. T p \<le> B p) \<and> stored_ok L (w_tasks w)"

fun written :: "'r wk_output list \<Rightarrow> PlayerSnapshot set" where
  "written [] = {}"
| "written (Wrote s # out) = insert s (written out)"
| "written (_ # out) = written out"

text \<open>Every acknowledgement comes after a write of a snapshot at least as new as the one it acknowledges.\<close>

fun acked :: "age \<Rightarrow> ('r \<Rightarrow> PlayerSnapshot) \<Rightarrow> PlayerSnapshot set \<Rightarrow> 'r wk_output list \<Rightarrow> bool" where
  "acked age asked L [] \<longleftrightarrow> True"
| "acked age asked L (Wrote s # out) \<longleftrightarrow> acked age asked (insert s L) out"
| "acked age asked L (Sent r (Inr u) # out) \<longleftrightarrow>
    (\<exists>s \<in> L. snapshot_player_id s = snapshot_player_id (asked r) \<and> age (asked r) \<le> age s) \<and> acked age asked L out"
| "acked age asked L (_ # out) \<longleftrightarrow> acked age asked L out"

lemma written_append [simp]: "written (out @ out') = written out \<union> written out'"
  by (induction out rule: written.induct) auto

lemma acked_append [simp]: "acked age asked L (out @ out') \<longleftrightarrow> acked age asked L out \<and> acked age asked (L \<union> written out) out'"
  by (induction age asked L out rule: acked.induct) auto

lemma silent_out: "\<forall>x \<in> set out. silent x \<Longrightarrow> acked age asked L out \<and> written out = {}"
  by (induction age asked L out rule: acked.induct) auto

lemma started_out: "\<forall>x \<in> set out. \<exists>p s. x = Started p s \<Longrightarrow> acked age asked L out \<and> written out = {}"
  by (induction age asked L out rule: acked.induct) auto

text \<open>What one step has to give.\<close>

definition step_ok :: "age \<Rightarrow> ('r \<Rightarrow> PlayerSnapshot) \<Rightarrow> (PlayerId \<Rightarrow> nat) \<Rightarrow> (PlayerId \<Rightarrow> nat) \<Rightarrow> PlayerSnapshot set \<Rightarrow> 'r wk_output list \<times> 'r world \<Rightarrow> bool" where
  "step_ok age asked B T L res \<longleftrightarrow>
    (\<exists>T'. worker_ok age asked B T' (L \<union> written (fst res)) (snd res) \<and> ordered age T (fst res) T' \<and> acked age asked L (fst res))"

lemma step_okI:
  "worker_ok age asked B T' (L \<union> written out) w \<Longrightarrow> ordered age T out T' \<Longrightarrow> acked age asked L out \<Longrightarrow> step_ok age asked B T L (out, w)"
  unfolding step_ok_def by auto

lemma dispatch_ok:
  assumes "iterates iter" and "worker_ok age asked B T L w"
  shows "step_ok age asked B T L (dispatch iter now w)"
proof -
  from assms(2) have ok: "lanes_ok (job_ok age asked B T) (w_lanes w) (w_tasks w)" and le: "\<And>p. T p \<le> B p" and st: "stored_ok L (w_tasks w)"
    by (simp_all add: worker_ok_def)
  show ?thesis
  proof (cases "MAX_CONCURRENT_SAVES \<le> length (w_tasks w)")
    case True
    then have "dispatch iter now w = ([], w)" by (simp add: dispatch_def dispatch_ready_ops_def)
    then show ?thesis using assms(2) by (auto intro!: step_okI ordered_refl)
  next
    case False
    obtain out lanes' tasks' where d: "dispatch_loop (ready_player_ids iter (w_lanes w) now) (w_lanes w) (w_tasks w) = (out, lanes', tasks')"
      using prod_cases3 by blast
    note R = ready_ids [where now = now, OF assms(1) lanes_okD(1) [OF ok]]
    have "p \<notin> set (task_players (w_tasks w))" if "p \<in> set (ready_player_ids iter (w_lanes w) now)" for p
      using that lanes_okD(3) [OF ok] unfolding R(2) by (auto simp: lane_priority_def split: if_splits)
    then have "set (ready_player_ids iter (w_lanes w) now) \<inter> set (task_players (w_tasks w)) = {}" by blast
    from dispatch_loop_ok [OF ok R(1) this le d]
    obtain T' where T': "lanes_ok (job_ok age asked B T') lanes' tasks'" "ordered age T out T'" "\<forall>p. T' p \<le> B p"
      "\<forall>x \<in> set out. \<exists>p s. x = Started p s" "\<forall>op r. (op, Some r) \<in> set tasks' \<longrightarrow> (op, Some r) \<in> set (w_tasks w)" by blast
    have "stored_ok L tasks'" using st T'(5) by (auto simp: stored_ok_def)
    then have "worker_ok age asked B T' (L \<union> written out) (w\<lparr>w_lanes := lanes', w_tasks := tasks'\<rparr>)"
      using T'(1,3) started_out [OF T'(4)] by (simp add: worker_ok_def)
    then show ?thesis using T'(2) started_out [OF T'(4)] False d
      by (auto simp: dispatch_def dispatch_ready_ops_def intro: step_okI)
  qed
qed

section \<open>Completing keeps it\<close>

lemma finish_lane_ok:
  assumes "finish_lane now k res l = (out, l')" and "\<not> in_flight l" and "P k"
    and "pending_exit l = None \<or> pending_save l = None" "\<forall>sv. pending_save l = Some sv \<longrightarrow> P (save_kind sv)"
    "\<forall>ex. pending_exit l = Some ex \<longrightarrow> P (DExit ex)"
  shows "\<not> in_flight l'" "\<not> is_idle l' \<longrightarrow> lane_ok P l'"
    "\<forall>x \<in> set out. silent x \<or> (\<exists>r. x = Sent r res \<and> op_reply k = Some r \<and> acknowledges k)"
  using assms
  by (auto simp: finish_lane_def lane_ok_def is_idle_def op_reply_def acknowledges_def save_kind_def
      split: DispatchKind.splits SaveUrgency.splits sum.splits option.splits if_splits)

lemma remove_nth_players:
  assumes "i < length tasks" and "distinct (task_players tasks)" and "tasks ! i = (op, res)"
  shows "set (task_players (remove_nth i tasks)) = set (task_players tasks) - {op_player_id op}"
    and "distinct (task_players (remove_nth i tasks))" and "set (remove_nth i tasks) \<subseteq> set tasks"
    and "length (remove_nth i tasks) \<le> length tasks"
proof -
  have split: "tasks = take i tasks @ (op, res) # drop (Suc i) tasks" using assms(1,3) by (metis id_take_nth_drop)
  then have tp: "task_players tasks = task_players (take i tasks) @ op_player_id op # task_players (drop (Suc i) tasks)"
    by (metis (no_types, lifting) fst_conv list.simps(9) map_append task_players_def)
  have rm: "task_players (remove_nth i tasks) = task_players (take i tasks) @ task_players (drop (Suc i) tasks)"
    by (simp add: remove_nth_def task_players_def)
  show "set (task_players (remove_nth i tasks)) = set (task_players tasks) - {op_player_id op}"
    "distinct (task_players (remove_nth i tasks))" using assms(2) unfolding rm unfolding tp by auto
  show "set (remove_nth i tasks) \<subseteq> set tasks" unfolding remove_nth_def using set_take_subset set_drop_subset by fastforce
  show "length (remove_nth i tasks) \<le> length tasks" by (simp add: remove_nth_def)
qed

lemma completed_ok:
  assumes ok: "lanes_ok P lanes tasks" and i: "i < length tasks" "tasks ! i = (op, Some res)"
    and step: "handle_completed_dispatch now op res lanes = (out, lanes')"
  shows "lanes_ok P lanes' (remove_nth i tasks)"
    and "\<forall>x \<in> set out. silent x \<or> (\<exists>r. x = Sent r res \<and> op_reply (op_kind op) = Some r \<and> acknowledges (op_kind op))"
proof -
  note D = lanes_okD [OF ok] and R = remove_nth_players [OF i(1) lanes_okD(5) [OF ok] i(2)]
  let ?p = "op_player_id op"
  have mem: "(op, Some res) \<in> set tasks" using i by (metis nth_mem)
  then have "?p \<in> set (task_players tasks)" by (force simp: task_players_def)
  then obtain l where l: "lanes ?p = Some l" using D(4) by blast
  obtain l' where f: "finish_lane now (op_kind op) res (l\<lparr>in_flight := False\<rparr>) = (out, l')"
    and lanes': "lanes' = (if is_idle l' then lanes(?p := None) else lanes(?p \<mapsto> l'))"
    using step l by (auto simp: handle_completed_dispatch_def split: prod.splits)
  have lok: "pending_exit (l\<lparr>in_flight := False\<rparr>) = None \<or> pending_save (l\<lparr>in_flight := False\<rparr>) = None"
      "\<forall>sv. pending_save (l\<lparr>in_flight := False\<rparr>) = Some sv \<longrightarrow> P ?p (save_kind sv)"
      "\<forall>ex. pending_exit (l\<lparr>in_flight := False\<rparr>) = Some ex \<longrightarrow> P ?p (DExit ex)"
    using D(2) [OF l] by (simp_all add: lane_ok_def)
  note F = finish_lane_ok [where P = "P ?p", OF f _ D(7) [OF mem] lok, simplified]
  show "\<forall>x \<in> set out. silent x \<or> (\<exists>r. x = Sent r res \<and> op_reply (op_kind op) = Some r \<and> acknowledges (op_kind op))"
    using F(3) .
  have lane: "lane_ok (P q) m \<and> (in_flight m \<longleftrightarrow> q \<in> set (task_players (remove_nth i tasks)))" if "lanes' q = Some m" for q m
  proof (cases "q = ?p")
    case True
    then have "\<not> is_idle l'" "m = l'" using that lanes' by (auto split: if_splits)
    then show ?thesis using F(1,2) True R(1) by simp
  next
    case False
    then have "lanes q = Some m" using that lanes' by (auto split: if_splits)
    then show ?thesis using D(2,3) False R(1) by auto
  qed
  have "finite (dom lanes')" using D(1) unfolding lanes' by simp
  moreover have "set (task_players (remove_nth i tasks)) \<subseteq> dom lanes'" using R(1) D(4) lanes' by auto
  moreover have "\<forall>(o', r) \<in> set (remove_nth i tasks). P (op_player_id o') (op_kind o')" using D(7) R(3) by blast
  moreover have "length (remove_nth i tasks) \<le> MAX_CONCURRENT_SAVES" using R(4) D(6) by linarith
  ultimately show "lanes_ok P lanes' (remove_nth i tasks)" unfolding lanes_ok_def using lane R(2) by simp
qed

lemma out_of_completion:
  assumes "\<forall>x \<in> set out. silent x \<or> (\<exists>r. x = Sent r res \<and> op_reply k = Some r \<and> acknowledges k)"
    and "res = Inr () \<Longrightarrow> acknowledges k \<Longrightarrow> op_snapshot k \<in> L" and "job_ok age asked B T p k"
  shows "acked age asked L out \<and> written out = {} \<and> started q out = []"
  using assms(1)
proof (induction out)
  case (Cons x out)
  then have "silent x \<or> (\<exists>r. x = Sent r res \<and> op_reply k = Some r \<and> acknowledges k)" by simp
  then consider "silent x" | r where "x = Sent r res" "op_reply k = Some r" "acknowledges k" by blast
  then show ?case
  proof cases
    case 1
    then show ?thesis using Cons by (cases x) (auto simp: silent_def split: sum.splits)
  next
    case 2
    then show ?thesis using Cons assms(2,3) by (cases res) (auto simp: job_ok_def)
  qed
qed simp

lemma join_ok:
  assumes "worker_ok age asked B T L w"
  shows "step_ok age asked B T L (join_task now i w)"
proof -
  from assms have ok: "lanes_ok (job_ok age asked B T) (w_lanes w) (w_tasks w)" and le: "\<forall>p. T p \<le> B p" and st: "stored_ok L (w_tasks w)"
    by (simp_all add: worker_ok_def)
  have idle: "step_ok age asked B T L ([], w)" using assms by (auto intro!: step_okI ordered_refl)
  show ?thesis
  proof (cases "i < length (w_tasks w) \<and> snd (w_tasks w ! i) \<noteq> None")
    case True
    then obtain op res where i: "i < length (w_tasks w)" "w_tasks w ! i = (op, Some res)" by (metis option.exhaust prod.collapse)
    obtain out lanes' where h: "handle_completed_dispatch now op res (w_lanes w) = (out, lanes')" by fastforce
    note C = completed_ok [OF ok i h]
    have mem: "(op, Some res) \<in> set (w_tasks w)" using i by (metis nth_mem)
    then have "res = Inr () \<Longrightarrow> acknowledges (op_kind op) \<Longrightarrow> op_snapshot (op_kind op) \<in> L"
      using st unfolding stored_ok_def by blast
    then have out: "acked age asked L out \<and> written out = {} \<and> started q out = []" for q
      using out_of_completion [OF C(2) _ lanes_okD(7) [OF ok mem]] by blast
    have "stored_ok L (remove_nth i (w_tasks w))"
      using st remove_nth_players(3) [OF i(1) lanes_okD(5) [OF ok] i(2)] unfolding stored_ok_def by blast
    then have "worker_ok age asked B T (L \<union> written out) (w\<lparr>w_lanes := lanes', w_tasks := remove_nth i (w_tasks w)\<rparr>)"
      using C(1) le out by (simp add: worker_ok_def)
    then show ?thesis using i h out by (simp add: join_task_def) (auto intro!: step_okI ordered_refl)
  next
    case False
    then have "join_task now i w = ([], w)" by (auto simp: join_task_def split: prod.splits option.splits)
    then show ?thesis using idle by simp
  qed
qed

lemma run_op_acknowledged: "fst (run_op k db) = Inr () \<Longrightarrow> acknowledges k \<Longrightarrow> op_stored k db"
  by (auto simp: run_op_def op_stored_def acknowledges_def split: DispatchKind.splits sum.splits prod.splits PlayerWriteOutcome.splits SaveUrgency.splits)

lemma lanes_ok_result:
  assumes "lanes_ok P lanes tasks" and "i < length tasks" and "tasks ! i = (op, x)"
  shows "lanes_ok P lanes (tasks[i := (op, y)])"
proof -
  have tp: "task_players (tasks[i := (op, y)]) = task_players tasks"
    using assms(2,3) by (simp add: task_players_def map_update list_update_same_conv)
  have "P (op_player_id o') (op_kind o')" if "(o', r) \<in> set (tasks[i := (op, y)])" for o' r
  proof -
    have "(op, x) \<in> set tasks" using assms(2,3) by (metis nth_mem)
    moreover have "(o', r) = (op, y) \<or> (o', r) \<in> set tasks" using that set_update_subset_insert [of tasks i "(op, y)"] by blast
    ultimately show ?thesis using lanes_okD(7) [OF assms(1)] by blast
  qed
  then have "\<forall>(o', r) \<in> set (tasks[i := (op, y)]). P (op_player_id o') (op_kind o')" by blast
  then show ?thesis using assms(1) unfolding lanes_ok_def tp by simp
qed

lemma execute_ok:
  assumes "worker_ok age asked B T L w"
  shows "step_ok age asked B T L (execute i f w)"
proof (cases "i < length (w_tasks w) \<and> snd (w_tasks w ! i) = None")
  case True
  from assms have ok: "lanes_ok (job_ok age asked B T) (w_lanes w) (w_tasks w)" and le: "\<forall>p. T p \<le> B p" and st: "stored_ok L (w_tasks w)"
    by (simp_all add: worker_ok_def)
  obtain op where i: "i < length (w_tasks w)" "w_tasks w ! i = (op, None)" using True by (metis prod.collapse)
  obtain res db' where r: "run_op (op_kind op) (w_db w) = (res, db')" by fastforce
  let ?wrote = "if op_stored (op_kind op) (w_db w) then [Wrote (op_snapshot (op_kind op))] else []"
  have stored: "stored_ok L' ((w_tasks w)[i := (op, Some y)])" if "L \<subseteq> L'" "y = Inr () \<Longrightarrow> acknowledges (op_kind op) \<Longrightarrow> op_snapshot (op_kind op) \<in> L'" for L' y
    using st that set_update_subset_insert [of "w_tasks w" i "(op, Some y)"] unfolding stored_ok_def by blast
  have ok': "lanes_ok (job_ok age asked B T) (w_lanes w) ((w_tasks w)[i := (op, y)])" for y
    using ok i by (rule lanes_ok_result)
  have out: "ordered age T ?wrote T" "acked age asked L ?wrote" by (auto intro: ordered_refl)
  have done_ok: "worker_ok age asked B T (L \<union> written ?wrote) (w\<lparr>w_tasks := (w_tasks w)[i := (op, Some res)], w_db := db'\<rparr>)"
    using ok' le stored [of "L \<union> written ?wrote" res] run_op_acknowledged [of "op_kind op" "w_db w"] r by (auto simp: worker_ok_def)
  have fail_ok: "worker_ok age asked B T (L \<union> X) (w\<lparr>w_tasks := (w_tasks w)[i := (op, Some (Inl m))], w_db := d\<rparr>)" for X m d
    using ok' le stored [of "L \<union> X" "Inl m"] by (simp add: worker_ok_def)
  show ?thesis
  proof (cases f)
    case NoFault
    then show ?thesis using i r done_ok out by (auto simp: execute_def Let_def intro!: step_okI)
  next
    case (FailedBefore m)
    have "worker_ok age asked B T L (w\<lparr>w_tasks := (w_tasks w)[i := (op, Some (Inl m))]\<rparr>)"
      using ok' le stored [of L "Inl m"] by (simp add: worker_ok_def)
    then show ?thesis using FailedBefore i r by (auto simp: execute_def Let_def intro!: step_okI ordered_refl)
  next
    case (FailedAfter m)
    then show ?thesis using i r fail_ok out by (auto simp: execute_def Let_def intro!: step_okI)
  qed
next
  case False
  then have "execute i f w = ([], w)" by (auto simp: execute_def)
  then show ?thesis using assms by (auto intro!: step_okI ordered_refl)
qed

section \<open>Histories\<close>

text \<open>
  The requests of a history: those of one player come with non-decreasing ages, and each reply channel is handed in
  with the snapshot it asks for.
\<close>

fun requests_ok :: "age \<Rightarrow> ('r \<Rightarrow> PlayerSnapshot) \<Rightarrow> (PlayerId \<Rightarrow> nat) \<Rightarrow> (int \<times> 'r event) list \<Rightarrow> bool" where
  "requests_ok age asked B [] \<longleftrightarrow> True"
| "requests_ok age asked B ((_, e) # es) \<longleftrightarrow>
    (case e of
       Request req \<Rightarrow> B (snapshot_player_id (req_snapshot req)) \<le> age (req_snapshot req) \<and>
         (case req_reply req of None \<Rightarrow> True | Some r \<Rightarrow> asked r = req_snapshot req) \<and>
         requests_ok age asked (B(snapshot_player_id (req_snapshot req) := age (req_snapshot req))) es
     | _ \<Rightarrow> requests_ok age asked B es)"

lemma step_ok_append:
  assumes "ordered age T out T1" "acked age asked L out" and "step_ok age asked B' T1 (L \<union> written out) (out', w2)"
  shows "step_ok age asked B' T L (out @ out', w2)"
proof -
  obtain T2 where "worker_ok age asked B' T2 (L \<union> written (out @ out')) w2" "ordered age T1 out' T2" "acked age asked (L \<union> written out) out'"
    using assms(3) by (auto simp: step_ok_def Un_assoc)
  then show ?thesis using assms(2) ordered_append [OF assms(1)] by (intro step_okI) auto
qed

lemma step_ok_then:
  assumes "step_ok age asked B T L (out, w1)" and "\<And>T' L'. worker_ok age asked B T' L' w1 \<Longrightarrow> step_ok age asked B' T' L' (out', w2)"
  shows "step_ok age asked B' T L (out @ out', w2)"
proof -
  obtain T1 where 1: "worker_ok age asked B T1 (L \<union> written out) w1" "ordered age T out T1" "acked age asked L out"
    using assms(1) by (auto simp: step_ok_def)
  show ?thesis using 1(2,3) assms(2) [OF 1(1)] by (rule step_ok_append)
qed

lemma request_ok:
  assumes "worker_ok age asked B T L w" and "B (snapshot_player_id (req_snapshot req)) \<le> age (req_snapshot req)"
    and "case req_reply req of None \<Rightarrow> True | Some r \<Rightarrow> asked r = req_snapshot req" and "handle_request req (w_lanes w) = (out, lanes)"
  shows "step_ok age asked (B(snapshot_player_id (req_snapshot req) := age (req_snapshot req))) T L (out, w\<lparr>w_lanes := lanes\<rparr>)"
proof -
  from assms(1) have ok: "lanes_ok (job_ok age asked B T) (w_lanes w) (w_tasks w)" and le: "\<And>p. T p \<le> B p" and st: "stored_ok L (w_tasks w)"
    by (simp_all add: worker_ok_def)
  have "\<And>r. req_reply req = Some r \<Longrightarrow> asked r = req_snapshot req" using assms(3) by simp
  from handle_request_ok [OF ok le refl assms(2) this assms(4)]
  have H: "lanes_ok (job_ok age asked (B(snapshot_player_id (req_snapshot req) := age (req_snapshot req))) T) lanes (w_tasks w)"
    "\<forall>x \<in> set out. silent x" by simp_all
  have "\<forall>p. T p \<le> (B(snapshot_player_id (req_snapshot req) := age (req_snapshot req))) p" using le order_trans [OF le assms(2)] by simp
  then show ?thesis using H st silent_out [OF H(2)] by (auto simp: worker_ok_def started_silent intro!: step_okI ordered_refl)
qed

lemma worker_ok_same: "worker_ok age asked B T L w \<Longrightarrow> w_lanes w' = w_lanes w \<Longrightarrow> w_tasks w' = w_tasks w \<Longrightarrow> step_ok age asked B T L ([], w')"
  by (auto simp: worker_ok_def intro!: step_okI ordered_refl)

lemma worker_ok_bound: "worker_ok age asked B T L w \<Longrightarrow> \<forall>p. B p \<le> B' p \<Longrightarrow> worker_ok age asked B' T L w"
  unfolding worker_ok_def lanes_ok_def
  by (auto intro: order_trans lane_ok_mono job_ok_mono)

text \<open>One event; \<open>next_bound\<close> is the bound on the requested ages after it.\<close>

definition next_bound :: "age \<Rightarrow> (PlayerId \<Rightarrow> nat) \<Rightarrow> 'r event \<Rightarrow> PlayerId \<Rightarrow> nat" where
  "next_bound age B e = (case e of Request req \<Rightarrow> B(snapshot_player_id (req_snapshot req) := age (req_snapshot req)) | _ \<Rightarrow> B)"

lemma requests_ok_Cons: "requests_ok age asked B ((now, e) # es) \<longleftrightarrow> requests_ok age asked B [(now, e)] \<and> requests_ok age asked (next_bound age B e) es"
  by (cases e) (auto simp: next_bound_def)

lemma world_step_ok:
  assumes "iterates iter" and "worker_ok age asked B T L w" and "requests_ok age asked B [(now, e)]"
  shows "step_ok age asked (next_bound age B e) T L (world_step iter now e w)"
proof -
  obtain out w1 where d: "dispatch iter now w = (out, w1)" by fastforce
  have D: "step_ok age asked B T L (out, w1)" using dispatch_ok [OF assms(1,2), of now] d by simp
  show ?thesis
  proof (cases e)
    case (Execute i f)
    then show ?thesis using execute_ok [OF assms(2)] by (simp add: next_bound_def)
  next
    case (Foreign q)
    then show ?thesis using worker_ok_same [OF assms(2)] by (simp add: next_bound_def)
  next
    case Timer
    then show ?thesis using D d by (simp add: next_bound_def)
  next
    case Closed
    have "step_ok age asked B T L (out @ [], w1\<lparr>w_receiver_closed := True\<rparr>)"
      using D by (rule step_ok_then) (rule worker_ok_same, simp_all)
    then show ?thesis using Closed d by (simp add: next_bound_def)
  next
    case (Joined i)
    obtain out' w2 where j: "join_task now i w1 = (out', w2)" by fastforce
    have "step_ok age asked B T L (out @ out', w2)"
      using D by (rule step_ok_then) (use join_ok [where now = now and i = i] j in metis)
    then show ?thesis using Joined d j by (simp add: next_bound_def)
  next
    case (Request req)
    let ?B = "B(snapshot_player_id (req_snapshot req) := age (req_snapshot req))"
    from Request assms(3) have new: "B (snapshot_player_id (req_snapshot req)) \<le> age (req_snapshot req)"
      and asked: "case req_reply req of None \<Rightarrow> True | Some r \<Rightarrow> asked r = req_snapshot req" by simp_all
    show ?thesis
    proof (cases "w_receiver_closed w1")
      case True
      obtain T' where "worker_ok age asked B T' (L \<union> written out) w1" "ordered age T out T'" "acked age asked L out"
        using D by (auto simp: step_ok_def)
      moreover have "worker_ok age asked ?B T' (L \<union> written out) w1" using calculation(1) new by (auto intro: worker_ok_bound)
      ultimately show ?thesis using True Request d by (auto simp: next_bound_def intro: step_okI)
    next
      case False
      obtain out' lanes where h: "handle_request req (w_lanes w1) = (out', lanes)" by fastforce
      have "step_ok age asked ?B T L (out @ out', w1\<lparr>w_lanes := lanes\<rparr>)"
        using D by (rule step_ok_then) (rule request_ok [where B = B and age = age, OF _ new asked h])
      then show ?thesis using False Request d h by (simp add: next_bound_def)
    qed
  qed
qed

lemma world_run_ok:
  assumes "iterates iter" and "worker_ok age asked B T L w" and "requests_ok age asked B es"
  shows "\<exists>B'. step_ok age asked B' T L (world_run iter es w)"
  using assms(2,3)
proof (induction es arbitrary: B T L w)
  case Nil
  then show ?case by (auto intro!: step_okI ordered_refl)
next
  case (Cons a es)
  obtain now e where a: "a = (now, e)" by fastforce
  have r: "requests_ok age asked B [(now, e)]" "requests_ok age asked (next_bound age B e) es"
    using Cons.prems(2) unfolding a requests_ok_Cons [of age asked B now e es] by simp_all
  obtain out w1 where s: "world_step iter now e w = (out, w1)" by fastforce
  obtain out' w2 where rest: "world_run iter es w1 = (out', w2)" by fastforce
  obtain T1 where 1: "worker_ok age asked (next_bound age B e) T1 (L \<union> written out) w1" "ordered age T out T1" "acked age asked L out"
    using world_step_ok [OF assms(1) Cons.prems(1) r(1)] s by (auto simp: step_ok_def)
  obtain B2 where "step_ok age asked B2 T1 (L \<union> written out) (out', w2)" using Cons.IH [OF 1(1) r(2)] rest by auto
  with 1(2,3) have "step_ok age asked B2 T L (out @ out', w2)" by (rule step_ok_append)
  then show ?case using a s rest by auto
qed

lemma world_start_ok: "worker_ok age asked (\<lambda>_. 0) (\<lambda>_. 0) {} (world_start db)"
  by (simp add: worker_ok_def world_start_def lanes_ok_def stored_ok_def task_players_def)

lemma world_reach:
  assumes "iterates iter" and "requests_ok age asked (\<lambda>_. 0) es" and "world_run iter es (world_start db) = (out, w)"
  obtains B T where "worker_ok age asked B T (written out) w" "ordered age (\<lambda>_. 0) out T" "acked age asked {} out"
  using world_run_ok [OF assms(1) world_start_ok assms(2), of db] assms(3) that by (auto simp: step_ok_def)

section \<open>Properties\<close>

text \<open>
  C6. The worker's lanes.  Whatever requests, completions, failures and timers come, in whatever order: a player has
  at most one database call in flight, at most eight calls are in flight in all, and the operations started for a
  player never go back to an older snapshot, retries included.
\<close>

theorem saves_run_in_order:
  assumes "iterates iter" and "requests_ok age asked (\<lambda>_. 0) es" and "world_run iter es (world_start db) = (out, w)"
  shows "distinct (task_players (w_tasks w)) \<and> length (w_tasks w) \<le> 8 \<and> sorted (map age (started p out))"
proof -
  obtain B T where "worker_ok age asked B T (written out) w" "ordered age (\<lambda>_. 0) out T" using world_reach [OF assms] .
  then show ?thesis by (auto simp: worker_ok_def lanes_ok_def ordered_def MAX_CONCURRENT_SAVES_def)
qed

lemma acked_before: "acked age asked L (pre @ Sent r (Inr u) # post) \<Longrightarrow>
    \<exists>s \<in> L \<union> written pre. snapshot_player_id s = snapshot_player_id (asked r) \<and> age (asked r) \<le> age s"
  by simp

lemma written_Wrote: "s \<in> written out \<Longrightarrow> Wrote s \<in> set out"
  by (induction out rule: written.induct) auto

text \<open>
  C5. An acknowledged flush or exit is on disk.  Whenever the worker answers a request with success, the
  database has before that accepted a write, for the same player, of a snapshot at least as new as the one of the
  request, even if calls fail or lose their answers in between.
\<close>

theorem acknowledged_save_is_stored:
  assumes "iterates iter" and "requests_ok age asked (\<lambda>_. 0) es"
    and "fst (world_run iter es (world_start db)) = pre @ Sent r (Inr ()) # post"
  shows "\<exists>s. Wrote s \<in> set pre \<and> snapshot_player_id s = snapshot_player_id (asked r) \<and> age (asked r) \<le> age s"
proof -
  obtain out w where run: "world_run iter es (world_start db) = (out, w)" by fastforce
  obtain B T where "acked age asked {} out" using world_reach [OF assms(1,2) run] .
  then have "acked age asked {} (pre @ Sent r (Inr ()) # post)" using assms(3) run by simp
  from acked_before [OF this] show ?thesis using written_Wrote by fastforce
qed

text \<open>A lane with nothing in flight is ready, unless it waits for its retry.\<close>

lemma lane_ready:
  assumes "lane_ok P l" and "\<not> in_flight l" and "pending_exit l \<noteq> None \<or> retry_at l = None \<or> (\<exists>t. retry_at l = Some t \<and> t \<le> now)"
  shows "\<exists>k. lane_priority now l = Some k"
  using assms by (auto simp: lane_ok_def is_idle_def lane_priority_def split: option.splits SaveUrgency.splits)

lemma deadline_lane:
  assumes "iterates iter" and "finite (dom lanes)"
  shows "next_retry_deadline iter lanes = Some d \<Longrightarrow>
      \<exists>p l. lanes p = Some l \<and> \<not> in_flight l \<and> pending_exit l = None \<and> retry_at l = Some d"
    and "next_retry_deadline iter lanes = None \<Longrightarrow> lanes p = Some l \<Longrightarrow> \<not> in_flight l \<Longrightarrow> pending_exit l = None \<Longrightarrow> retry_at l = None"
proof -
  let ?f = "\<lambda>p. case lanes p of None \<Rightarrow> None
    | Some lane \<Rightarrow> if \<not> in_flight lane \<and> pending_exit lane = None then retry_at lane else None"
  let ?ds = "List.map_filter ?f (iter (dom lanes))"
  have it: "set (iter (dom lanes)) = dom lanes" using assms by (simp add: iterates_def)
  show "\<exists>p l. lanes p = Some l \<and> \<not> in_flight l \<and> pending_exit l = None \<and> retry_at l = Some d" if "next_retry_deadline iter lanes = Some d"
  proof -
    have "?ds \<noteq> []" "d = Min (set ?ds)" using that by (auto simp: next_retry_deadline_def Let_def split: if_splits)
    then have "d \<in> set ?ds" using Min_in [of "set ?ds"] by simp
    then obtain p where "?f p = Some d" unfolding in_map_filter by blast
    then show ?thesis by (auto split: option.splits if_splits)
  qed
  show "retry_at l = None" if "next_retry_deadline iter lanes = None" "lanes p = Some l" "\<not> in_flight l" "pending_exit l = None"
  proof (rule ccontr)
    assume "retry_at l \<noteq> None"
    then obtain d where "retry_at l = Some d" by blast
    then have "?f p = Some d" using that by simp
    then have "d \<in> set ?ds" unfolding in_map_filter it using that(2) by blast
    then show False using that(1) by (auto simp: next_retry_deadline_def Let_def split: if_splits)
  qed
qed

lemma dispatch_starts:
  assumes "lanes_ok P lanes []" and "\<And>p k. P p k \<Longrightarrow> snapshot_player_id (op_snapshot k) = p" and "lanes p = Some l" and "ps = p # qs"
  shows "\<exists>s. Started p s \<in> set (fst (dispatch_loop ps lanes []))"
proof -
  note D = lanes_okD [OF assms(1)]
  have nf: "\<not> in_flight l" using D(3) [OF assms(3)] by (simp add: task_players_def)
  obtain op l' where d: "next_dispatch l = (Some op, l')"
    using D(2) [OF assms(3)] nf by (auto simp: lane_ok_def is_idle_def next_dispatch_def split: option.splits)
  have "op_player_id op = p" using next_dispatch_ok [OF D(2) [OF assms(3)] d] assms(2) by simp
  then show ?thesis using d assms(3,4) by (auto simp: MAX_CONCURRENT_SAVES_def split: prod.splits)
qed

text \<open>
  C11. The worker is never stuck.  In every reachable state with something to persist and no call in flight, the
  dispatch at the top of the loop starts an operation as soon as the retry deadline it sleeps on, if there is one,
  has passed.
\<close>

theorem worker_not_stuck:
  assumes "iterates iter" and "requests_ok age asked (\<lambda>_. 0) es" and "world_run iter es (world_start db) = (out, w)"
    and "w_tasks w = []" and "dom (w_lanes w) \<noteq> {}"
    and "case next_retry_deadline iter (w_lanes w) of None \<Rightarrow> True | Some d \<Rightarrow> d \<le> now"
  shows "\<exists>p s. Started p s \<in> set (fst (dispatch iter now w))"
proof -
  obtain B T where "worker_ok age asked B T (written out) w" using world_reach [OF assms(1-3)] .
  then have ok: "lanes_ok (job_ok age asked B T) (w_lanes w) []" using assms(4) by (simp add: worker_ok_def)
  note D = lanes_okD [OF ok]
  have nf: "\<not> in_flight l" if "w_lanes w p = Some l" for p l using D(3) [OF that] by (simp add: task_players_def)
  have "\<exists>p l k. w_lanes w p = Some l \<and> lane_priority now l = Some k"
  proof (cases "next_retry_deadline iter (w_lanes w)")
    case (Some d)
    then obtain p l where "w_lanes w p = Some l" "\<not> in_flight l" "retry_at l = Some d"
      using deadline_lane(1) [OF assms(1) D(1) Some] by blast
    then show ?thesis using lane_ready [OF D(2)] assms(6) Some by fastforce
  next
    case None
    obtain p l where l: "w_lanes w p = Some l" using assms(5) by blast
    have "pending_exit l \<noteq> None \<or> retry_at l = None" using deadline_lane(2) [OF assms(1) D(1) None l nf [OF l]] by (cases "pending_exit l") auto
    then show ?thesis using lane_ready [OF D(2) [OF l] nf [OF l], of now] l by blast
  qed
  then obtain q where "q \<in> set (ready_player_ids iter (w_lanes w) now)" unfolding ready_ids(2) [OF assms(1) D(1), symmetric] by blast
  then obtain p qs where ps: "ready_player_ids iter (w_lanes w) now = p # qs" by (cases "ready_player_ids iter (w_lanes w) now") auto
  then obtain l where "w_lanes w p = Some l" using ready_ids(2) [OF assms(1) D(1), of p now] by auto
  from dispatch_starts [OF ok _ this ps] obtain s where "Started p s \<in> set (fst (dispatch_loop (ready_player_ids iter (w_lanes w) now) (w_lanes w) []))"
    by (auto simp: job_ok_def)
  moreover have "fst (dispatch iter now w) = fst (dispatch_loop (ready_player_ids iter (w_lanes w) now) (w_lanes w) [])"
    using assms(4) by (simp add: dispatch_def dispatch_ready_ops_def MAX_CONCURRENT_SAVES_def split: prod.splits)
  ultimately show ?thesis by auto
qed

text \<open>
  With the pool full, a retry deadline that has passed is not served and is not cleared either: the timer branch is
  ready at once and changes nothing, so the loop spins until a call completes.
\<close>

theorem full_pool_spins:
  assumes "MAX_CONCURRENT_SAVES \<le> length (w_tasks w)" and "next_retry_deadline iter (w_lanes w) = Some d" and "d \<le> now"
  shows "world_step iter now Timer w = ([], w) \<and> next_retry_deadline iter (w_lanes (snd (world_step iter now Timer w))) = Some d"
  using assms by (simp add: dispatch_def dispatch_ready_ops_def)

section \<open>A flush that overtakes a failing autosave\<close>

definition flush_history :: "(int \<times> nat event) list" where
  "flush_history =
    [(0, Request (SaveSnapshot (seed_snapshot 0) Autosave None)), (1, Timer), (2, Execute 0 (FailedBefore ''connection reset'')),
     (3, Request (SaveSnapshot (seed_snapshot 0) FlushNow (Some 7))), (4, Joined 0), (5, Timer), (6, Execute 0 NoFault), (7, Joined 0)]"

lemma iterates_sorted_ids: "iterates sorted_list_of_set"
  by (simp add: iterates_def)

lemma flush_history_ok: "requests_ok (\<lambda>_. 0) (\<lambda>_. seed_snapshot 0) (\<lambda>_. 0) flush_history"
  by (simp add: flush_history_def req_snapshot_def req_reply_def)

lemma seed_pid [simp]: "snapshot_player_id (seed_snapshot e) = 2"
  by (simp add: snapshot_player_id_def seed_snapshot_def)

lemma seed_run_flush: "fst (run_op (DSave (seed_snapshot 0) FlushNow r) seed_db) = Inr ()" "op_stored (DSave (seed_snapshot 0) FlushNow r) seed_db"
  using seed_save by (auto simp: run_op_def op_stored_def split: prod.splits sum.splits)

lemmas worker_defs = dispatch_def dispatch_ready_ops_def ready_player_ids_def lane_priority_def MAX_CONCURRENT_SAVES_def
  next_dispatch_def lane_entry_def lane_default_def merge_save_def execute_def join_task_def handle_completed_dispatch_def
  finish_lane_def is_idle_def remove_nth_def op_snapshot_def map_filter_simps

lemma flush_history_run:
  "\<exists>w. world_run sorted_list_of_set flush_history (world_start seed_db) =
    ([Started 2 (seed_snapshot 0), Started 2 (seed_snapshot 0), Wrote (seed_snapshot 0), Sent 7 (Inr ())], w) \<and> w_tasks w = []"
proof -
  obtain db' where "run_op (DSave (seed_snapshot 0) FlushNow (Some (7 :: nat))) seed_db = (Inr (), db')"
    using seed_run_flush(1) by (metis prod.collapse)
  then show ?thesis using seed_run_flush(2) [of "Some (7 :: nat)"]
    by (simp add: flush_history_def world_start_def worker_defs dropped_def Let_def)
qed

theorem saves_run_in_order_witness:
  "sorted (map (\<lambda>_. 0 :: nat) (started 2 (fst (world_run sorted_list_of_set flush_history (world_start seed_db)))))"
  using flush_history_run saves_run_in_order [OF iterates_sorted_ids flush_history_ok, of seed_db _ _ 2] by auto

theorem acknowledged_save_is_stored_witness:
  "\<exists>s. Wrote s \<in> set [Started 2 (seed_snapshot 0), Started 2 (seed_snapshot 0), Wrote (seed_snapshot 0) :: nat wk_output] \<and>
    snapshot_player_id s = 2"
  using flush_history_run acknowledged_save_is_stored [OF iterates_sorted_ids flush_history_ok,
      of seed_db "[Started 2 (seed_snapshot 0), Started 2 (seed_snapshot 0), Wrote (seed_snapshot 0)]" 7 "[]"] by auto

definition autosave_history :: "(int \<times> nat event) list" where
  "autosave_history =
    [(0, Request (SaveSnapshot (seed_snapshot 0) Autosave None)), (1, Timer), (2, Execute 0 (FailedBefore ''connection reset'')), (4, Joined 0)]"

text \<open>A failed autosave waits for its retry, and is started again a second later.\<close>

theorem worker_not_stuck_witness:
  "\<exists>w p s. world_run sorted_list_of_set autosave_history (world_start seed_db) = ([Started 2 (seed_snapshot 0)], w) \<and>
    next_retry_deadline sorted_list_of_set (w_lanes w) = Some 1000000004 \<and>
    Started p s \<in> set (fst (dispatch sorted_list_of_set 1000000004 w))"
proof -
  have "requests_ok (\<lambda>_. 0) (\<lambda>_. seed_snapshot 0) (\<lambda>_. 0) autosave_history"
    by (simp add: autosave_history_def req_snapshot_def req_reply_def)
  moreover obtain w where run: "world_run sorted_list_of_set autosave_history (world_start seed_db) = ([Started 2 (seed_snapshot 0)], w)"
    and idle: "w_tasks w = []" "dom (w_lanes w) \<noteq> {}" and d: "next_retry_deadline sorted_list_of_set (w_lanes w) = Some 1000000004"
    by (auto simp: autosave_history_def world_start_def worker_defs dropped_def Let_def next_retry_deadline_def
        AUTOSAVE_RETRY_DELAY_def from_secs_def split: prod.splits)
  ultimately have "\<exists>p s. Started p s \<in> set (fst (dispatch sorted_list_of_set 1000000004 w))"
    using worker_not_stuck [OF iterates_sorted_ids _ run idle, of "\<lambda>_. 0" "\<lambda>_. seed_snapshot 0" 1000000004] by simp
  then show ?thesis using run d by blast
qed

end
