(* ===== verification/Sim_Time.thy ===== *)
theory Sim_Time
  imports Recovery
begin

text \<open>
  Simulation time (\<^verbatim>\<open>zohar-sim/src/runtime/time.rs\<close>): instants and durations are milliseconds in a
  \<^verbatim>\<open>u64\<close> with saturating arithmetic, and a ticker clock says when periodic work of an entity is due and
  how much time passed since it ran last.  The loop that moves the due time past the present has no bound in the
  code, so it is a \<open>partial_function\<close> whose value is \<open>None\<close> when it does not end.

  The laws every periodic system relies on are the locale \<open>ticker\<close>: the time handed out over any sequence of
  polls adds up to the time that passed.  It is interpreted on the clock of the code.
\<close>

section \<open>Instants and durations\<close>

type_synonym SimInstant = u64
type_synonym SimDuration = u64

abbreviation u64_MAX :: int where "u64_MAX \<equiv> 18446744073709551615"

lemma in_u64_iff: "in_u 64 x \<longleftrightarrow> 0 \<le> x \<and> x \<le> u64_MAX"
  by (auto simp: in_u_def)

lemma sat_u64_eq: "sat_u 64 x = max 0 (min u64_MAX x)"
  by (simp add: sat_u_def)

text \<open>\<^verbatim>\<open>std::time::Duration\<close> counts nanoseconds; both conversions cap at the largest \<^verbatim>\<open>u64\<close>.\<close>

definition from_elapsed :: "duration \<Rightarrow> SimInstant" where
  "from_elapsed elapsed = min (elapsed div 1000000) u64_MAX"

definition sim_add :: "SimInstant \<Rightarrow> SimDuration \<Rightarrow> SimInstant" where
  "sim_add t d = sat_u 64 (t + d)"

definition sim_sub :: "SimInstant \<Rightarrow> SimInstant \<Rightarrow> SimDuration" where
  "sim_sub t earlier = sat_u 64 (t - earlier)"

definition overflowing_sub :: "SimInstant \<Rightarrow> SimInstant \<Rightarrow> SimDuration \<times> bool" where
  "overflowing_sub t earlier = (wrap_u 64 (t - earlier), t < earlier)"

definition to_client_timestamp :: "SimInstant \<Rightarrow> u32" where
  "to_client_timestamp t = min t u32_MAX"

definition as_duration :: "SimDuration \<Rightarrow> duration" where
  "as_duration d = d * 1000000"

definition elapsed_since :: "SimInstant \<Rightarrow> SimInstant option \<Rightarrow> duration option" where
  "elapsed_since t event =
    (case event of None \<Rightarrow> None
     | Some e \<Rightarrow> (let (sim_duration, did_underflow) = overflowing_sub t e
                  in if did_underflow then None else Some (as_duration sim_duration)))"

definition sim_duration_of :: "duration \<Rightarrow> SimDuration" where
  "sim_duration_of d = min (d div 1000000) u64_MAX"

definition from_packet_duration :: "u32 \<Rightarrow> SimDuration" where
  "from_packet_duration v = v"

lemma sim_add_exact: "0 \<le> t \<Longrightarrow> 0 \<le> d \<Longrightarrow> t + d \<le> u64_MAX \<Longrightarrow> sim_add t d = t + d"
  by (simp add: sim_add_def sat_u64_eq)

lemma sim_add_min: "0 \<le> t \<Longrightarrow> 0 \<le> d \<Longrightarrow> sim_add t d = min u64_MAX (t + d)"
  by (simp add: sim_add_def sat_u64_eq)

lemma sim_sub_exact: "in_u 64 t \<Longrightarrow> 0 \<le> e \<Longrightarrow> e \<le> t \<Longrightarrow> sim_sub t e = t - e"
  by (simp add: sim_sub_def sat_u64_eq in_u64_iff)

lemma sim_sub_past: "t \<le> e \<Longrightarrow> sim_sub t e = 0"
  by (simp add: sim_sub_def sat_u64_eq)

lemma elapsed_since_Some:
  assumes "in_u 64 t" "in_u 64 e"
  shows "elapsed_since t (Some e) = (if e \<le> t then Some ((t - e) * 1000000) else None)"
  using assms by (simp add: elapsed_since_def overflowing_sub_def wrap_u_def as_duration_def in_u64_iff)

section \<open>The ticker clock\<close>

record SimTickerClock =
  last_processed_at :: SimInstant
  next_due_at :: SimInstant
  cadence :: SimDuration

text \<open>The assertion on the cadence is a panic.\<close>

definition scheduled :: "SimInstant \<Rightarrow> SimInstant \<Rightarrow> SimDuration \<Rightarrow> SimTickerClock exec" where
  "scheduled last_at due_at cad =
    (if 0 < cad then Some \<lparr>last_processed_at = last_at, next_due_at = due_at, cadence = cad\<rparr> else None)"

definition phased :: "i64 \<Rightarrow> SimInstant \<Rightarrow> SimDuration \<Rightarrow> SimTickerClock exec" where
  "phased seed now cad =
    (if 0 < cad
     then let phase_ms = \<bar>seed\<bar> mod cad;
              now_phase = now mod cad;
              delay_ms = (if now_phase < phase_ms then phase_ms - now_phase else cad - (now_phase - phase_ms))
          in scheduled now (sim_add now (max delay_ms 1)) cad
     else None)"

definition is_due :: "SimTickerClock \<Rightarrow> SimInstant \<Rightarrow> bool" where
  "is_due c now \<longleftrightarrow> next_due_at c \<le> now"

partial_function (option) due_after :: "SimDuration \<Rightarrow> SimInstant \<Rightarrow> SimInstant \<Rightarrow> SimInstant option" where
  "due_after cad due now = (if due \<le> now then due_after cad (sim_add due cad) now else Some due)"

lemmas [code] = due_after.simps

definition advance_past :: "SimTickerClock \<Rightarrow> SimInstant \<Rightarrow> SimTickerClock exec" where
  "advance_past c now = map_option (\<lambda>due. c\<lparr>next_due_at := due\<rparr>) (due_after (cadence c) (next_due_at c) now)"

definition advance_due :: "SimTickerClock \<Rightarrow> SimInstant \<Rightarrow> (SimDuration option \<times> SimTickerClock) exec" where
  "advance_due c now =
    (if \<not> is_due c now then Some (None, c)
     else map_option (Pair (Some (sim_sub now (last_processed_at c))))
            (advance_past (c\<lparr>last_processed_at := now\<rparr>) now))"

definition retry_after :: "SimTickerClock \<Rightarrow> SimInstant \<Rightarrow> SimDuration \<Rightarrow> SimTickerClock" where
  "retry_after c now delay = c\<lparr>last_processed_at := now, next_due_at := sim_add now delay\<rparr>"

section \<open>The loop of the clock\<close>

text \<open>The number of steps the loop needs is the number of cadences that fit between the due time and now.\<close>

lemma due_after_unfold_past: "due \<le> now \<Longrightarrow> due_after cad due now = due_after cad (sim_add due cad) now"
  by (subst due_after.simps) simp

lemma due_after_future: "now < due \<Longrightarrow> due_after cad due now = Some due"
  by (subst due_after.simps) simp

lemma due_after_exact:
  assumes "0 < cad" "0 \<le> due" "due \<le> now" "now < u64_MAX"
  shows "due_after cad due now = Some (min u64_MAX (due + ((now - due) div cad + 1) * cad))"
  using assms(2,3)
proof (induction "nat (now - due)" arbitrary: due rule: less_induct)
  case less
  let ?n = "sim_add due cad"
  have n: "?n = min u64_MAX (due + cad)" using less assms by (simp add: sim_add_min)
  show ?case
  proof (cases "due + cad \<le> now")
    case True
    with n assms(4) have "?n = due + cad" by simp
    moreover have "(now - (due + cad)) div cad = (now - due) div cad - 1"
      using assms(1) div_pos_geq [of cad "now - due"] True by (simp add: algebra_simps)
    ultimately show ?thesis
      using less.hyps [of "due + cad"] True less.prems assms(1)
      by (simp add: due_after_unfold_past algebra_simps)
  next
    case False
    then have "(now - due) div cad = 0" using less.prems assms(1) by (simp add: div_pos_pos_trivial)
    with False n assms(4) less.prems show ?thesis
      by (simp add: due_after_unfold_past due_after_future)
  qed
qed

text \<open>At the largest instant the saturated due time never passes the present: the loop does not end.\<close>

lemma sim_add_in_u64 [simp]: "in_u 64 (sim_add t d)"
  by (simp add: sim_add_def)

lemma sim_add_le_max [simp]: "sim_add t d \<le> u64_MAX"
  using sim_add_in_u64 [of t d] unfolding in_u64_iff by simp

lemma due_after_SomeD: "due_after cad due now = Some y \<Longrightarrow> due \<le> u64_MAX \<longrightarrow> now \<noteq> u64_MAX"
  by (erule due_after.raw_induct [rotated]) (fastforce split: if_splits)

lemma due_after_stuck: "due \<le> u64_MAX \<Longrightarrow> due_after cad due u64_MAX = None"
  using due_after_SomeD by (cases "due_after cad due u64_MAX") blast+

section \<open>Schedules\<close>

definition clock_ok :: "SimTickerClock \<Rightarrow> bool" where
  "clock_ok c \<longleftrightarrow> 0 < cadence c \<and> in_u 64 (cadence c) \<and> in_u 64 (last_processed_at c) \<and> in_u 64 (next_due_at c)"

lemma advance_due_cases:
  assumes "clock_ok c" "0 \<le> now" "now < u64_MAX"
  shows "advance_due c now =
    (if next_due_at c \<le> now
     then Some (Some (max 0 (now - last_processed_at c)),
                c\<lparr>last_processed_at := now,
                  next_due_at := min u64_MAX (next_due_at c + ((now - next_due_at c) div cadence c + 1) * cadence c)\<rparr>)
     else Some (None, c))"
  using assms
  by (simp add: advance_due_def advance_past_def is_due_def due_after_exact clock_ok_def in_u64_iff sim_sub_def sat_u64_eq)

lemma next_multiple:
  fixes c :: int
  assumes "0 < c" "due \<le> now"
  shows "now < due + ((now - due) div c + 1) * c" "due + ((now - due) div c + 1) * c \<le> now + c"
proof -
  have "(now - due) div c * c + (now - due) mod c = now - due" by simp
  then have "((now - due) div c + 1) * c = now - due - (now - due) mod c + c" by (simp add: algebra_simps)
  moreover have "0 \<le> (now - due) mod c" "(now - due) mod c < c" using assms(1) by simp_all
  ultimately show "now < due + ((now - due) div c + 1) * c" "due + ((now - due) div c + 1) * c \<le> now + c" by simp_all
qed

lemma clock_ok_advance:
  assumes "clock_ok c" "0 \<le> now" "now < u64_MAX" "advance_due c now = Some (r, c')"
  shows "clock_ok c'"
  using assms next_multiple [of "cadence c" "next_due_at c" now]
  by (auto simp: advance_due_cases clock_ok_def in_u64_iff split: if_splits)

lemma clock_ok_phased: "phased seed now cad = Some c \<Longrightarrow> in_u 64 now \<Longrightarrow> in_u 64 cad \<Longrightarrow> clock_ok c"
  by (auto simp: phased_def scheduled_def clock_ok_def Let_def split: if_splits)

lemma clock_ok_retry: "clock_ok c \<Longrightarrow> in_u 64 now \<Longrightarrow> clock_ok (retry_after c now delay)"
  by (simp add: clock_ok_def retry_after_def)

text \<open>The phase of a clock is its due time modulo the cadence; it is the seed of a phased clock and advancing keeps it.\<close>

lemma phased_due:
  assumes "0 < cad" "0 \<le> now" "now + cad \<le> u64_MAX"
  shows "\<exists>c. phased seed now cad = Some c \<and> last_processed_at c = now \<and> cadence c = cad \<and>
    now < next_due_at c \<and> next_due_at c \<le> now + cad \<and> next_due_at c mod cad = \<bar>seed\<bar> mod cad"
proof -
  define p q where "p = \<bar>seed\<bar> mod cad" and "q = now mod cad"
  define delay where "delay = (if q < p then p - q else cad - (q - p))"
  have r: "0 \<le> p" "p < cad" "0 \<le> q" "q < cad" using assms(1) by (simp_all add: p_def q_def)
  then have d: "1 \<le> delay" "delay \<le> cad" by (auto simp: delay_def)
  have "(now + delay) mod cad = (q + delay) mod cad" by (simp add: q_def mod_add_left_eq)
  also have "\<dots> = p" using r by (auto simp: delay_def)
  finally have "(now + delay) mod cad = p" .
  moreover have "sim_add now (max delay 1) = now + delay" using d assms by (simp add: sim_add_exact)
  ultimately show ?thesis
    using d assms(1) by (auto simp: phased_def scheduled_def Let_def p_def [symmetric] q_def [symmetric] delay_def)
qed

lemma sorted_last_ge: "sorted xs \<Longrightarrow> x \<in> set xs \<Longrightarrow> x \<le> List.last (xs :: int list)"
  by (induction xs) auto

section \<open>The contract of a ticker\<close>

text \<open>
  What the periodic systems rely on: a poll before the due time changes nothing, a poll at or after it hands out
  exactly the time since the last one that did and moves the due time into the future.
\<close>

locale ticker =
  fixes advance :: "'c \<Rightarrow> int \<Rightarrow> (int option \<times> 'c) option"
    and processed :: "'c \<Rightarrow> int"
    and due :: "'c \<Rightarrow> int"
    and good :: "'c \<Rightarrow> bool"
    and horizon :: int
  assumes early: "good c \<Longrightarrow> processed c \<le> now \<Longrightarrow> now < horizon \<Longrightarrow> now < due c \<Longrightarrow> advance c now = Some (None, c)"
    and late: "good c \<Longrightarrow> processed c \<le> now \<Longrightarrow> now < horizon \<Longrightarrow> due c \<le> now \<Longrightarrow>
      \<exists>c'. advance c now = Some (Some (now - processed c), c') \<and> good c' \<and> processed c' = now \<and> now < due c'"
begin

text \<open>Polls at given times, collecting the elapsed times that are handed out.\<close>

fun run :: "'c \<Rightarrow> int list \<Rightarrow> (int list \<times> 'c) option" where
  "run c [] = Some ([], c)"
| "run c (now # nows) =
    (case advance c now of
       None \<Rightarrow> None
     | Some (r, c') \<Rightarrow> map_option (\<lambda>(es, c''). (case r of None \<Rightarrow> es | Some e \<Rightarrow> e # es, c'')) (run c' nows))"

lemma run_sum:
  assumes "good c" "sorted (processed c # nows)" "\<forall>t\<in>set nows. t < horizon"
  shows "\<exists>es c'. run c nows = Some (es, c') \<and> good c' \<and> list_all (\<lambda>e. 0 \<le> e) es \<and>
    sum_list es = processed c' - processed c \<and> processed c' \<in> set (processed c # nows) \<and>
    (nows \<noteq> [] \<longrightarrow> List.last nows < due c')"
  using assms
proof (induction nows arbitrary: c)
  case Nil
  then show ?case by simp
next
  case (Cons now nows)
  show ?case
  proof (cases "now < due c")
    case True
    with Cons.prems have "advance c now = Some (None, c)" by (intro early) simp_all
    moreover obtain es c' where "run c nows = Some (es, c')" "good c'" "list_all (\<lambda>e. 0 \<le> e) es"
      "sum_list es = processed c' - processed c" "processed c' \<in> set (processed c # nows)"
      "nows \<noteq> [] \<longrightarrow> List.last nows < due c'" "nows = [] \<longrightarrow> c' = c"
      using Cons.IH [of c] Cons.prems by (cases "nows = []") (force, force)
    ultimately show ?thesis using True by auto
  next
    case False
    with Cons.prems late [of c now] obtain c1 where c1: "advance c now = Some (Some (now - processed c), c1)"
      "good c1" "processed c1 = now" "now < due c1" by auto
    moreover obtain es c' where "run c1 nows = Some (es, c')" "good c'" "list_all (\<lambda>e. 0 \<le> e) es"
      "sum_list es = processed c' - now" "processed c' \<in> set (now # nows)"
      "nows \<noteq> [] \<longrightarrow> List.last nows < due c'" "nows = [] \<longrightarrow> c' = c1"
      using Cons.IH [of c1] Cons.prems c1 by (cases "nows = []") (force, force)
    ultimately show ?thesis using Cons.prems by auto
  qed
qed

end

interpretation tk: ticker advance_due last_processed_at next_due_at clock_ok u64_MAX
proof unfold_locales
  fix c :: SimTickerClock and now
  assume a: "clock_ok c" "last_processed_at c \<le> now" "now < u64_MAX"
  then have now: "0 \<le> now" by (simp add: clock_ok_def in_u64_iff)
  show "advance_due c now = Some (None, c)" if "now < next_due_at c" using that by (simp add: advance_due_def is_due_def)
  show "\<exists>c'. advance_due c now = Some (Some (now - last_processed_at c), c') \<and> clock_ok c' \<and>
      last_processed_at c' = now \<and> now < next_due_at c'" if "next_due_at c \<le> now"
    using a that now clock_ok_advance [OF a(1) now a(3)] next_multiple [of "cadence c" "next_due_at c" now]
    by (auto simp: advance_due_cases clock_ok_def)
qed

section \<open>Properties\<close>

text \<open>
  A ticker keeps its phase: a phased clock first fires within one cadence at the phase given by its seed, and each
  poll that is due moves the due time to the first later instant of the same phase, at most one cadence away, however
  many periods were missed.
\<close>

theorem ticker_keeps_phase:
  assumes "clock_ok c" "next_due_at c \<le> now" "now + cadence c \<le> u64_MAX" "now < u64_MAX"
  shows "\<exists>c'. advance_due c now = Some (Some (sim_sub now (last_processed_at c)), c') \<and> last_processed_at c' = now \<and>
    cadence c' = cadence c \<and> now < next_due_at c' \<and> next_due_at c' \<le> now + cadence c \<and>
    next_due_at c' mod cadence c = next_due_at c mod cadence c"
proof -
  have "0 \<le> now" using assms by (simp add: clock_ok_def in_u64_iff)
  moreover have "min u64_MAX (next_due_at c + ((now - next_due_at c) div cadence c + 1) * cadence c)
      = next_due_at c + ((now - next_due_at c) div cadence c + 1) * cadence c"
    using next_multiple(2) [of "cadence c" "next_due_at c" now] assms by (simp add: clock_ok_def)
  ultimately show ?thesis
    using assms next_multiple [of "cadence c" "next_due_at c" now]
    by (simp add: advance_due_cases clock_ok_def sim_sub_def sat_u64_eq in_u64_iff)
qed

text \<open>
  The clock's loop ends exactly when the present is not the largest instant: the due time saturates there and the
  comparison never turns false.
\<close>

theorem clock_spins_iff_time_exhausted:
  assumes "clock_ok c" "in_u 64 now"
  shows "advance_due c now = None \<longleftrightarrow> now = u64_MAX"
proof (cases "now = u64_MAX")
  case True
  with assms have "next_due_at c \<le> now" by (simp add: clock_ok_def in_u64_iff)
  with True assms show ?thesis by (simp add: advance_due_def advance_past_def is_due_def due_after_stuck)
next
  case False
  with assms show ?thesis by (simp add: advance_due_cases in_u64_iff)
qed

text \<open>
  C29. Periodic recovery is exact: polled at any non-decreasing times, a ticker drives the accrual of a rate so that the
  total handed out is the whole units contained in the time between the clock's start and the last poll that was due,
  and that poll is never more than one due time behind.
\<close>

theorem ticker_accrual_exact:
  assumes "clock_ok c" "sorted (last_processed_at c # nows)" "\<forall>t\<in>set nows. t < u64_MAX" "acc_ok acc (dr_per rate)"
    and "0 < dr_amount rate" "dr_per rate \<le> i64_MAX"
    and "remainder acc + dr_amount rate * as_duration (List.last (last_processed_at c # nows) - last_processed_at c)
      < dr_per rate * i64_MAX"
  shows "\<exists>es c'. tk.run c nows = Some (es, c') \<and> last_processed_at c' \<in> set (last_processed_at c # nows) \<and>
    (nows \<noteq> [] \<longrightarrow> List.last nows < next_due_at c') \<and>
    fst (accrue_all acc rate (map as_duration es)) =
      (remainder acc + dr_amount rate * as_duration (last_processed_at c' - last_processed_at c)) div dr_per rate"
proof -
  obtain es c' where run: "tk.run c nows = Some (es, c')" "list_all (\<lambda>e. 0 \<le> e) es"
    "sum_list es = last_processed_at c' - last_processed_at c" "last_processed_at c' \<in> set (last_processed_at c # nows)"
    "nows \<noteq> [] \<longrightarrow> List.last nows < next_due_at c'"
    using tk.run_sum [OF assms(1-3)] by blast
  let ?d = "last_processed_at c' - last_processed_at c"
  have sum: "sum_list (map as_duration es) = as_duration ?d"
    unfolding run(3) [symmetric] by (induction es) (simp_all add: as_duration_def)
  have nonneg: "list_all (\<lambda>e. 0 \<le> e) (map as_duration es)" using run(2) by (auto simp: list_all_iff as_duration_def)
  have le: "last_processed_at c' \<le> List.last (last_processed_at c # nows)"
    using run(4) assms(2) by (intro sorted_last_ge)
  have "0 \<le> ?d" using run(3) run(2) by (simp add: list_all_iff sum_list_nonneg flip: run(3))
  moreover have "dr_amount rate * as_duration ?d \<le> dr_amount rate * as_duration (List.last (last_processed_at c # nows) - last_processed_at c)"
    using le assms(5) by (simp add: as_duration_def)
  moreover have "0 \<le> as_duration ?d" using calculation(1) by (simp add: as_duration_def)
  ultimately have "accrual_fits acc rate (as_duration ?d)"
    using assms(4-7) unfolding accrual_fits_def acc_ok_def by linarith
  with sum have "accrual_fits acc rate (sum_list (map as_duration es))" by simp
  from accrue_all_exact [OF this nonneg] run sum show ?thesis by auto
qed

section \<open>Witnesses\<close>

definition ten_ms_clock :: SimTickerClock where
  "ten_ms_clock = \<lparr>last_processed_at = 0, next_due_at = 10, cadence = 7\<rparr>"

lemma ten_ms_clock_ok: "clock_ok ten_ms_clock"
  by (simp add: ten_ms_clock_def clock_ok_def in_u_def)

theorem ticker_keeps_phase_witness:
  "\<exists>c'. advance_due ten_ms_clock 40 = Some (Some 40, c') \<and> 40 < next_due_at c' \<and> next_due_at c' \<le> 47 \<and> next_due_at c' mod 7 = 3"
  using ticker_keeps_phase [OF ten_ms_clock_ok, of 40]
  by (auto simp: ten_ms_clock_def sim_sub_def sat_u_def)

theorem clock_spins_iff_time_exhausted_witness:
  "advance_due ten_ms_clock u64_MAX = None \<and> advance_due ten_ms_clock 9 \<noteq> None"
  using clock_spins_iff_time_exhausted [OF ten_ms_clock_ok, of u64_MAX] clock_spins_iff_time_exhausted [OF ten_ms_clock_ok, of 9]
  by (simp add: in_u_def)

theorem ticker_accrual_exact_witness:
  "\<exists>es c'. tk.run ten_ms_clock [4, 12, 3000, 3001] = Some (es, c') \<and> 3001 < next_due_at c' \<and>
    fst (accrue_all accumulator_default \<lparr>dr_amount = 65, dr_per = from_secs 3\<rparr> (map as_duration es)) =
      65 * as_duration (last_processed_at c') div from_secs 3"
  using ticker_accrual_exact [OF ten_ms_clock_ok, of "[4, 12, 3000, 3001]" accumulator_default "\<lparr>dr_amount = 65, dr_per = from_secs 3\<rparr>"]
  by (auto simp: ten_ms_clock_def accumulator_default_def acc_ok_def from_secs_def as_duration_def)

end
