(* ===== verification/Map_World.thy ===== *)
theory Map_World
  imports Sim_Time Outbox Player_Store Stats_Resources Talking_Chat
begin

text \<open>
  The state of one map runtime (\<^verbatim>\<open>zohar-sim/src/runtime/\<close>: \<^verbatim>\<open>common.rs\<close>, \<^verbatim>\<open>player.rs\<close>,
  \<^verbatim>\<open>mob.rs\<close>, \<^verbatim>\<open>facts.rs\<close>, \<^verbatim>\<open>resources.rs\<close>, \<^verbatim>\<open>fanout.rs\<close>,
  \<^verbatim>\<open>actor_stats.rs\<close>).  The entity-component store of the code is a record with one map per component,
  from entities to the component's value, and the list of the live entities in the order in which a query visits
  them; resources are further fields, and the components of the single map entity (replication graph, spatial index,
  pending queues, spawn rules) are fields too.  Systems are functions on this record; a system that calls into the
  stat engine is in the option type, where \<open>None\<close> is a panic.

  Positions are pairs of \<^verbatim>\<open>f32\<close> bit patterns; no system modelled here computes with them.  A reply channel is
  a number that names it.  The spatial index is seen through its handle table, as the position stored per entity.
\<close>

section \<open>Values\<close>

type_synonym Entity = nat
type_synonym LocalPos = "f32 \<times> f32"
type_synonym MobId = u32
type_synonym reply = nat

record ActorRef =
  ar_entity :: Entity
  ar_id :: EntityId

datatype ActorLifePhase =
    Alive
  | Dying (entered_at: SimInstant) (dead_at: SimInstant)
  | Dead (entered_at: SimInstant) (restart_here_allowed_at: "SimInstant option")
      (restart_town_allowed_at: "SimInstant option") (forced_respawn_at: "SimInstant option")
      (cleanup_at: "SimInstant option")

record LocalTransform =
  tf_pos :: LocalPos
  tf_rot :: u8

record PlayerMotionState =
  segment_start_pos :: LocalPos
  segment_end_pos :: LocalPos
  segment_start_ts :: u32
  segment_end_ts :: u32
  last_client_ts :: u32

record MobMotionState =
  mob_start_pos :: LocalPos
  mob_end_pos :: LocalPos
  mob_start_at :: SimInstant
  mob_end_at :: SimInstant

record PlayerActivity =
  last_movement_start_at :: "SimInstant option"
  last_attack_at :: "SimInstant option"
  last_walk_started_at :: "SimInstant option"
  preferred_movement_animation :: MovementAnimation

record 't PlayerTicker =
  clock :: SimTickerClock
  tick_state :: 't

record PlayerStatTickers =
  passive_hp :: "PlayerPassiveHpRecoveryState PlayerTicker"
  passive_sp :: "PlayerPassiveSpRecoveryState PlayerTicker"
  tick_stamina_of :: "PlayerStaminaState PlayerTicker"

record PlayerPersistenceState =
  pst_dirty :: bool
  pst_runtime_epoch :: i64
  persisted_playtime :: duration
  entered_map_at :: SimInstant
  autosave :: SimTickerClock

record PlayerAppearance =
  ap_name :: "u8 list"
  ap_class :: PlayerClass
  ap_gender :: PlayerGender
  ap_empire :: Empire
  ap_body_part :: u32
  ap_level :: u32
  ap_guild_id :: u32
  ap_move_speed :: u8
  ap_attack_speed :: u8

datatype MobBrainMode = BrainIdle | Pursuit | BrainReturn | AttackWindup

record MobBrainState =
  brain_mode :: MobBrainMode
  brain_target :: "EntityId option"
  next_attack_at :: SimInstant
  attack_windup_until :: SimInstant
  next_rethink_at :: SimInstant
  wander_next_decision_at :: SimInstant
  wander_wait_until :: "SimInstant option"

datatype MobAggro = ProvokedBy (attacker: EntityId)

section \<open>Commands and events of the map port\<close>

type_synonym SkillId = u32

datatype AttackIntent = BasicAttack | SkillAttack SkillId

datatype PlayerCommand =
    CmdMove (cmd_kind: MovementKind) (cmd_arg: u8) (cmd_rot: u8) (cmd_target: LocalPos) (cmd_ts: u32)
  | CmdSetMovementAnimation MovementAnimation
  | CmdAttack EntityId AttackIntent
  | CmdSelectTarget EntityId

datatype CoreStatKind = CoreSt | CoreHt | CoreDx | CoreIq

datatype PlayerProgressionIntent = CoreStatIntent CoreStatKind int | SkillLevelIntent SkillId int

datatype PlayerRestartIntent = RestartIntentHere | RestartIntentTown

record ChatIntent =
  ci_channel :: ChatKind
  ci_message :: "u8 list"

datatype PortalBehavior = PortalMapTransfer | PortalLocalReposition

datatype MobKind = MkMonster | MkNpc | MkStone | MkPortal PortalBehavior

datatype EntityKind = KindPlayer PlayerClass PlayerGender | KindMob MobId MobKind

record EntityNameplate =
  np_name :: "u8 list"
  np_empire :: "Empire option"
  np_level :: u32

record EntityPublicState =
  eps_body_part :: int
  eps_weapon_part :: int
  eps_hair_part :: int
  eps_move_speed :: u8
  eps_attack_speed :: u8
  eps_state_flags :: u8
  eps_buff_flags :: u64
  eps_guild_id :: u32
  eps_rank_pts :: int
  eps_pvp_mode :: u8
  eps_mount_id :: u32

record EntitySnapshot =
  es_entity_id :: EntityId
  es_facing :: u8
  es_pos :: LocalPos
  es_kind :: EntityKind
  es_public_state :: EntityPublicState
  es_nameplate :: "EntityNameplate option"

datatype ProjectileEffectKind = EffectExp

datatype SpecialEffectType = EffectCritical | EffectPenetrate

datatype PortalDestination = MapTransfer LocalPos | LocalReposition LocalPos

text \<open>What a player is sent, movement apart: movement events go through the movement buckets of the outbox.\<close>

datatype MapEvent =
    EvEntitySpawn EntitySnapshot
  | EvSetEntityStats EntityId "(Stat \<times> i32) list"
  | EvSyncEntityHealthBar EntityId u8
  | EvDamageInfo EntityId u8 i32
  | EvCreateProjectileEffect ProjectileEffectKind EntityId EntityId
  | EvSetProjectileTarget EntityId EntityId LocalPos bool
  | EvSpecialEffect SpecialEffectType EntityId
  | EvEntityStunned EntityId
  | EvEntityDead EntityId
  | EvEntityPublicStateChanged EntityId EntityPublicState
  | EvSetEntityMovementAnimation EntityId MovementAnimation
  | EvEntityDespawn EntityId
  | EvChat ChatKind "EntityId option" "Empire option" "u8 list"
  | EvRestartTown
  | EvPortalEntered PortalDestination

type_synonym Outbox = "(MapEvent, LocalPos) PlayerOutbox"

section \<open>Frame facts\<close>

record ActorDamaged =
  ad_attacker :: ActorRef
  ad_victim :: ActorRef
  ad_damage :: i32
  ad_flags :: u8

record ActorResourceChanged =
  rc_actor :: ActorRef
  rc_stat :: Stat
  rc_previous :: i32
  rc_current :: i32

record ActorHpDepleted =
  hd_victim :: ActorRef
  hd_killer :: "ActorRef option"

record ActorDespawned =
  dsp_actor_id :: EntityId
  dsp_recipients :: "Entity list"

record PlayerStaminaTimerChanged =
  stc_player :: ActorRef
  stc_command :: PlayerStaminaTimerCommand
  stc_current :: i32

datatype PointVisualEffect = LevelStepEffect ActorRef | LevelUpEffect ActorRef i32

datatype ActorSpecialEffectKind = CriticalKind | PiercingKind

record FrameFacts =
  f_damaged :: "ActorDamaged list"
  f_hp_depleted :: "ActorHpDepleted list"
  f_changed :: "ActorResourceChanged list"
  f_dying_started :: "ActorRef list"
  f_death_finalized :: "ActorRef list"
  f_cleanup_due :: "ActorRef list"
  f_despawned :: "ActorDespawned list"
  f_player_dirty :: "Entity list"
  f_stamina_timer :: "PlayerStaminaTimerChanged list"
  f_projectile_targets :: "(ActorRef \<times> ActorRef) list"
  f_projectile_effects :: "(ActorRef \<times> ActorRef) list"
  f_point_effects :: "PointVisualEffect list"
  f_special_effects :: "(ActorRef \<times> ActorSpecialEffectKind) list"

definition facts_default :: FrameFacts where
  "facts_default = \<lparr>f_damaged = [], f_hp_depleted = [], f_changed = [], f_dying_started = [], f_death_finalized = [],
    f_cleanup_due = [], f_despawned = [], f_player_dirty = [], f_stamina_timer = [], f_projectile_targets = [],
    f_projectile_effects = [], f_point_effects = [], f_special_effects = []\<rparr>"

section \<open>Spawn rules and prototypes\<close>

datatype SpawnTemplate = TmMob MobId | TmGroup "MobId list" | TmGroupGroup "(MobId list \<times> u32) list"

record SpawnRule =
  sr_template :: SpawnTemplate
  sr_max_count :: nat
  sr_regen_time :: duration

record SpawnRuleState =
  rs_rule :: SpawnRule
  active_instances :: nat
  rs_entities :: "EntityId set"
  respawn_at :: "SimInstant option"

text \<open>The binary heap of pending spawns with the smallest time on top is the sorted list of its entries.\<close>

record MapSpawnRules =
  rules :: "SpawnRuleState list"
  scheduled_spawns :: "(SimInstant \<times> nat) list"

record MobPrototype =
  mp_kind :: MobKind
  mp_name :: "u8 list"
  mp_empire :: "Empire option"
  mp_level :: u32
  mp_move_speed :: u8
  mp_attack_speed :: u8
  mp_strength :: i32
  mp_dexterity :: i32
  mp_vitality :: i32
  mp_intelligence :: i32
  mp_max_hp :: i32
  mp_defense :: i32
  mp_can_wander :: bool
  mp_damage_min :: i32
  mp_damage_max :: i32
  mp_damage_multiplier :: f32
  mp_experience :: i64

record SharedConfig =
  sc_mobs :: "MobId \<rightharpoonup> MobPrototype"
  sc_player_stats :: PlayerStatRules
  sc_pause_idle_min :: duration
  sc_pause_idle_max :: duration

record PendingMovement =
  pm_mover_player_id :: "PlayerId option"
  pm_movement :: "LocalPos MovementEvent"
  pm_reliable :: bool

datatype AttackCommand = PlayerBasicAttack Entity Entity | MobBasicAttack Entity Entity

record FlyTiming =
  init_vel_units_per_sec :: u32
  forward_accel_units_per_sec2 :: u32
  bomb_range_units :: u32

datatype DelayedAttackKind = Resolve AttackCommand | ReleaseProjectile AttackCommand FlyTiming

record DelayedAttackCommand =
  da_due_at :: SimInstant
  da_kind :: DelayedAttackKind

datatype AttackDamageSchedule = Immediate | Delayed SimDuration | Projectile SimDuration FlyTiming

datatype Action =
    PlayerMotionAction (act_entity: Entity) (act_player: PlayerId) (act_id: EntityId) (act_kind: MovementKind) (act_arg: u8)
      (act_rot: u8) (act_end_pos: LocalPos) (act_ts: u32) (act_duration: u32) (act_motion: PlayerMotionState)
  | PlayerAttackAction (act_entity: Entity) (act_id: EntityId) (act_target: Entity) (act_pos: LocalPos) (act_rot: u8)
      (act_attack: AttackIntent) (act_ts: u32) (act_duration: u32)
  | MobMotionAction (act_entity: Entity) (act_id: EntityId) (act_start_pos: LocalPos) (act_end_pos: LocalPos) (act_rot: u8)
      (act_kind: MovementKind) (act_ts: u32) (act_duration: u32) (act_brain: MobBrainState)
  | MobAttackAction (act_entity: Entity) (act_id: EntityId) (act_target: Entity) (act_pos: LocalPos) (act_rot: u8)
      (act_ts: u32) (act_duration: u32) (act_schedule: AttackDamageSchedule) (act_set_target: bool)
      (act_brain: MobBrainState)

section \<open>The world\<close>

record World =
  entities :: "Entity list"
  c_player :: "Entity \<rightharpoonup> PlayerId"
  c_net :: "Entity \<rightharpoonup> EntityId"
  c_transform :: "Entity \<rightharpoonup> LocalTransform"
  c_life :: "Entity \<rightharpoonup> ActorLifePhase"
  c_motion :: "Entity \<rightharpoonup> PlayerMotionState"
  c_animation :: "Entity \<rightharpoonup> MovementAnimation"
  c_activity :: "Entity \<rightharpoonup> PlayerActivity"
  c_tickers :: "Entity \<rightharpoonup> PlayerStatTickers"
  c_target :: "Entity \<rightharpoonup> EntityId option"
  c_stats :: "Entity \<rightharpoonup> ActorStatsRuntime"
  c_outbox :: "Entity \<rightharpoonup> Outbox"
  c_appearance :: "Entity \<rightharpoonup> PlayerAppearance"
  c_progression :: "Entity \<rightharpoonup> PlayerGameplayBootstrap"
  c_persistence :: "Entity \<rightharpoonup> PlayerPersistenceState"
  c_flush :: "Entity \<rightharpoonup> reply option"
  c_commands :: "Entity \<rightharpoonup> PlayerCommand list"
  c_chat :: "Entity \<rightharpoonup> ChatIntent list"
  c_progression_intents :: "Entity \<rightharpoonup> PlayerProgressionIntent list"
  c_restart_intents :: "Entity \<rightharpoonup> PlayerRestartIntent list"
  c_mob :: "Entity \<rightharpoonup> MobId"
  c_mob_stats :: "Entity \<rightharpoonup> ActorStatsRuntime"
  c_mob_motion :: "Entity \<rightharpoonup> MobMotionState"
  c_pack :: "Entity \<rightharpoonup> u32"
  c_home :: "Entity \<rightharpoonup> LocalPos"
  c_brain :: "Entity \<rightharpoonup> MobBrainState"
  c_aggro :: "Entity \<rightharpoonup> MobAggro list"
  c_claim :: "Entity \<rightharpoonup> ActorRef"
  facts :: FrameFacts
  sim_now :: SimInstant
  next_net_id :: u32
  next_pack_id :: u32
  rng_pos :: nat
  map_ready :: bool
  map_empire :: "Empire option"
  world_dirty :: bool
  player_index :: "PlayerId \<rightharpoonup> Entity"
  net_index :: "EntityId \<rightharpoonup> Entity"
  player_count :: u32
  action_buffer :: "Action list"
  attack_buffer :: "AttackCommand list"
  delayed_attacks :: "DelayedAttackCommand list"
  aggro_dispatches :: "(Entity \<times> MobAggro) list"
  replication :: ReplicationGraph
  spatial :: "EntityId \<rightharpoonup> LocalPos"
  pending_movements :: "PendingMovement list"
  pending_chats :: "(PlayerId \<times> PendingLocalChat) list"
  dirty_public_states :: "EntityId list"
  map_spawns :: MapSpawnRules

text \<open>The world before the map is set up: no entities, and every resource at its default.\<close>

definition empty_world :: World where
  "empty_world = \<lparr>
    entities = [], c_player = Map.empty, c_net = Map.empty, c_transform = Map.empty, c_life = Map.empty,
    c_motion = Map.empty, c_animation = Map.empty, c_activity = Map.empty, c_tickers = Map.empty,
    c_target = Map.empty, c_stats = Map.empty, c_outbox = Map.empty, c_appearance = Map.empty,
    c_progression = Map.empty, c_persistence = Map.empty, c_flush = Map.empty, c_commands = Map.empty,
    c_chat = Map.empty, c_progression_intents = Map.empty, c_restart_intents = Map.empty, c_mob = Map.empty,
    c_mob_stats = Map.empty, c_mob_motion = Map.empty, c_pack = Map.empty, c_home = Map.empty,
    c_brain = Map.empty, c_aggro = Map.empty, c_claim = Map.empty, facts = facts_default, sim_now = 0,
    next_net_id = 0, next_pack_id = 0, rng_pos = 0, map_ready = False, map_empire = None, world_dirty = False,
    player_index = Map.empty, net_index = Map.empty, player_count = 0, action_buffer = [], attack_buffer = [],
    delayed_attacks = [], aggro_dispatches = [], replication = graph_default, spatial = Map.empty,
    pending_movements = [], pending_chats = [], dirty_public_states = [],
    map_spawns = \<lparr>rules = [], scheduled_spawns = []\<rparr>\<rparr>"

section \<open>Entities\<close>

definition contains :: "World \<Rightarrow> Entity \<Rightarrow> bool" where
  "contains w e \<longleftrightarrow> e \<in> set (entities w)"

text \<open>\<^verbatim>\<open>World::despawn\<close> without the observers that react to it: the entity and all its components go.\<close>

definition clear_entity :: "World \<Rightarrow> Entity \<Rightarrow> World" where
  "clear_entity w e = w\<lparr>
    entities := removeAll e (entities w),
    c_player := (c_player w)(e := None), c_net := (c_net w)(e := None), c_transform := (c_transform w)(e := None),
    c_life := (c_life w)(e := None), c_motion := (c_motion w)(e := None), c_animation := (c_animation w)(e := None),
    c_activity := (c_activity w)(e := None), c_tickers := (c_tickers w)(e := None), c_target := (c_target w)(e := None),
    c_stats := (c_stats w)(e := None), c_outbox := (c_outbox w)(e := None), c_appearance := (c_appearance w)(e := None),
    c_progression := (c_progression w)(e := None), c_persistence := (c_persistence w)(e := None),
    c_flush := (c_flush w)(e := None), c_commands := (c_commands w)(e := None), c_chat := (c_chat w)(e := None),
    c_progression_intents := (c_progression_intents w)(e := None),
    c_restart_intents := (c_restart_intents w)(e := None), c_mob := (c_mob w)(e := None),
    c_mob_stats := (c_mob_stats w)(e := None), c_mob_motion := (c_mob_motion w)(e := None),
    c_pack := (c_pack w)(e := None), c_home := (c_home w)(e := None),
    c_brain := (c_brain w)(e := None), c_aggro := (c_aggro w)(e := None),
    c_claim := (c_claim w)(e := None)\<rparr>"

text \<open>A query over one component visits the live entities that have it.\<close>

definition having :: "World \<Rightarrow> (Entity \<rightharpoonup> 'c) \<Rightarrow> Entity list" where
  "having w c = filter (\<lambda>e. c e \<noteq> None) (entities w)"

definition player_entities_on_map :: "World \<Rightarrow> Entity list" where
  "player_entities_on_map w = having w (c_player w)"

text \<open>A loop over a list whose body may panic.\<close>

fun for_each :: "('a \<Rightarrow> 's \<Rightarrow> 's exec) \<Rightarrow> 'a list \<Rightarrow> 's \<Rightarrow> 's exec" where
  "for_each f [] s = Some s"
| "for_each f (x # xs) s = (case f x s of None \<Rightarrow> None | Some s' \<Rightarrow> for_each f xs s')"

lemma for_each_append: "for_each f (xs @ ys) s = Option.bind (for_each f xs s) (for_each f ys)"
  by (induction xs arbitrary: s) (auto split: option.splits)

lemma for_each_inv:
  assumes "for_each f xs s = Some s'" "I s" "\<And>x s s'. x \<in> set xs \<Longrightarrow> I s \<Longrightarrow> f x s = Some s' \<Longrightarrow> I s'"
  shows "I s'"
  using assms
proof (induction xs arbitrary: s)
  case (Cons x xs)
  from Cons.prems(1) obtain s1 where s1: "f x s = Some s1" "for_each f xs s1 = Some s'" by (auto split: option.splits)
  have "I s1" by (rule Cons.prems(3) [OF _ Cons.prems(2) s1(1)]) simp
  with s1(2) show ?case by (rule Cons.IH) (rule Cons.prems(3), simp_all)
qed simp

lemma for_each_total:
  assumes "I s" "\<And>x s. x \<in> set xs \<Longrightarrow> I s \<Longrightarrow> \<exists>s'. f x s = Some s' \<and> I s'"
  shows "\<exists>s'. for_each f xs s = Some s' \<and> I s'"
  using assms
proof (induction xs arbitrary: s)
  case (Cons x xs)
  then obtain s1 where "f x s = Some s1" "I s1" by (meson list.set_intros(1))
  with Cons show ?case by simp
qed simp

section \<open>Facts\<close>

definition facts_mark_player_dirty :: "Entity \<Rightarrow> FrameFacts \<Rightarrow> FrameFacts" where
  "facts_mark_player_dirty e f = (if e \<in> set (f_player_dirty f) then f else f\<lparr>f_player_dirty := f_player_dirty f @ [e]\<rparr>)"

definition mark_player_dirty :: "World \<Rightarrow> Entity \<Rightarrow> World" where
  "mark_player_dirty w e = w\<lparr>facts := facts_mark_player_dirty e (facts w)\<rparr>"

definition mark_dirty_public_state :: "EntityId \<Rightarrow> EntityId list \<Rightarrow> EntityId list" where
  "mark_dirty_public_state entity_id xs = (if entity_id \<in> set xs then xs else xs @ [entity_id])"

definition reset_frame_facts :: "World \<Rightarrow> World" where
  "reset_frame_facts w = w\<lparr>facts := facts_default\<rparr>"

definition packet_now :: "World \<Rightarrow> u32" where
  "packet_now w = to_client_timestamp (sim_now w)"

definition next_entity_id :: "World \<Rightarrow> EntityId \<times> World" where
  "next_entity_id w =
    (let n = wrap_u 32 (next_net_id w + 1); n' = (if n = 0 then 1 else n)
     in (n', w\<lparr>next_net_id := n'\<rparr>))"

section \<open>Fan-out\<close>

text \<open>\<^verbatim>\<open>world.entity_mut(e)\<close> panics for an entity that does not exist.\<close>

definition push_reliable_to :: "Entity \<Rightarrow> MapEvent \<Rightarrow> World \<Rightarrow> World exec" where
  "push_reliable_to e ev w =
    (if \<not> contains w e then None
     else case c_outbox w e of None \<Rightarrow> Some w
          | Some ob \<Rightarrow> Some (w\<lparr>c_outbox := (c_outbox w)(e \<mapsto> push_reliable ob (OtherEvent ev))\<rparr>))"

datatype ActorAudience = Observers | ViewAndSelf

text \<open>Sorting by the identifier and removing adjacent duplicates makes the order of the hash sets irrelevant.\<close>

definition actor_audience_recipients :: "iteration \<Rightarrow> World \<Rightarrow> EntityId \<Rightarrow> ActorAudience \<Rightarrow> Entity list" where
  "actor_audience_recipients iter w actor_id audience =
    (if \<not> map_ready w then []
     else let ids = observers_for iter (replication w) actor_id @ (if audience = ViewAndSelf then [actor_id] else [])
          in List.map_filter (net_index w) (remdups_adj (sort ids)))"

definition broadcast_actor_event :: "iteration \<Rightarrow> EntityId \<Rightarrow> ActorAudience \<Rightarrow> (EntityId \<Rightarrow> MapEvent) \<Rightarrow> World \<Rightarrow> World exec" where
  "broadcast_actor_event iter actor_id audience make_event w =
    for_each (\<lambda>e. push_reliable_to e (make_event actor_id)) (actor_audience_recipients iter w actor_id audience) w"

section \<open>Resources of actors\<close>

definition resource_api :: "ResourceApplication \<Rightarrow> ActorStatsRuntime \<Rightarrow>
    ((StatWriteError + ResourceApplicationResult) \<times> ActorStatsRuntime) exec" where
  "resource_api a rt = with_api_mut rt (\<lambda>src st. apply_resource st a)"

definition record_resource_change :: "ActorRef \<Rightarrow> StatWriteError + ResourceApplicationResult \<Rightarrow> World \<Rightarrow> World" where
  "record_resource_change actor r w =
    (case r of
       Inr res \<Rightarrow>
         (if rar_is_noop res then w
          else w\<lparr>facts := (facts w)\<lparr>f_changed := f_changed (facts w) @
            [\<lparr>rc_actor = actor, rc_stat = rar_stat res, rc_previous = rar_previous res, rc_current = rar_current res\<rparr>]\<rparr>\<rparr>)
     | Inl _ \<Rightarrow> w)"

definition apply_actor_resource :: "ActorRef \<Rightarrow> ResourceApplication \<Rightarrow> World \<Rightarrow>
    ((StatWriteError + ResourceApplicationResult option) \<times> World) exec" where
  "apply_actor_resource actor a w =
    (let e = ar_entity actor in
     if \<not> contains w e then None
     else case c_stats w e of
       Some rt \<Rightarrow> do {
         (r, rt') \<leftarrow> resource_api a rt;
         Some (map_sum id Some r, record_resource_change actor r (w\<lparr>c_stats := (c_stats w)(e \<mapsto> rt')\<rparr>))
       }
     | None \<Rightarrow>
         (case c_mob_stats w e of
            Some rt \<Rightarrow> do {
              (r, rt') \<leftarrow> resource_api a rt;
              Some (map_sum id Some r, record_resource_change actor r (w\<lparr>c_mob_stats := (c_mob_stats w)(e \<mapsto> rt')\<rparr>))
            }
          | None \<Rightarrow> Some (Inr None, w)))"

end
