(* ===== verification/Actor_Life.thy ===== *)
theory Actor_Life
  imports Map_World
begin

text \<open>
  Life and death of actors (\<^verbatim>\<open>zohar-sim/src/runtime/life.rs\<close>): the phases alive, dying and dead of one actor
  with the times they carry, and the systems that move the actors of a map through them.  Every function here looks
  an entity up before it touches it, so none can panic.
\<close>

section \<open>The phases of one actor\<close>

definition DYING_TO_DEAD_DELAY :: SimDuration where "DYING_TO_DEAD_DELAY = 3000"
definition PLAYER_RESTART_HERE_DELAY :: SimDuration where "PLAYER_RESTART_HERE_DELAY = 10000"
definition PLAYER_RESTART_TOWN_DELAY :: SimDuration where "PLAYER_RESTART_TOWN_DELAY = 7000"
definition PLAYER_FORCED_RESPAWN_DELAY :: SimDuration where "PLAYER_FORCED_RESPAWN_DELAY = 180000"
definition MOB_CORPSE_MIN_DELAY :: SimDuration where "MOB_CORPSE_MIN_DELAY = 6000"
definition MOB_CORPSE_JITTER_MS :: u64 where "MOB_CORPSE_JITTER_MS = 4000"

lemmas life_delays = DYING_TO_DEAD_DELAY_def PLAYER_RESTART_HERE_DELAY_def PLAYER_RESTART_TOWN_DELAY_def
  PLAYER_FORCED_RESPAWN_DELAY_def MOB_CORPSE_MIN_DELAY_def MOB_CORPSE_JITTER_MS_def

datatype RestartReadiness = Ready | Waiting (retry_in: SimDuration)

definition is_alive :: "ActorLifePhase \<Rightarrow> bool" where
  "is_alive p = (case p of Alive \<Rightarrow> True | _ \<Rightarrow> False)"

definition is_dying :: "ActorLifePhase \<Rightarrow> bool" where
  "is_dying p = (case p of Dying _ _ \<Rightarrow> True | _ \<Rightarrow> False)"

definition is_dead :: "ActorLifePhase \<Rightarrow> bool" where
  "is_dead p = (case p of Dead _ _ _ _ _ \<Rightarrow> True | _ \<Rightarrow> False)"

definition can_act :: "ActorLifePhase \<Rightarrow> bool" where
  "can_act p = is_alive p"

definition can_be_combat_target :: "ActorLifePhase \<Rightarrow> bool" where
  "can_be_combat_target p = (\<not> is_dead p)"

definition can_take_combat_damage :: "ActorLifePhase \<Rightarrow> bool" where
  "can_take_combat_damage p = is_alive p"

definition can_regenerate :: "ActorLifePhase \<Rightarrow> bool" where
  "can_regenerate p = is_alive p"

definition restart_readiness :: "SimInstant \<Rightarrow> SimInstant option \<Rightarrow> RestartReadiness option" where
  "restart_readiness now allowed_at =
    (case allowed_at of None \<Rightarrow> None
     | Some t \<Rightarrow> if t \<le> now then Some Ready else Some (Waiting (sim_sub t now)))"

definition restart_here_allowed_of :: "ActorLifePhase \<Rightarrow> SimInstant option" where
  "restart_here_allowed_of p = (case p of Dead _ here _ _ _ \<Rightarrow> here | _ \<Rightarrow> None)"

definition restart_town_allowed_of :: "ActorLifePhase \<Rightarrow> SimInstant option" where
  "restart_town_allowed_of p = (case p of Dead _ _ town _ _ \<Rightarrow> town | _ \<Rightarrow> None)"

definition restart_here_readiness :: "ActorLifePhase \<Rightarrow> SimInstant \<Rightarrow> RestartReadiness option" where
  "restart_here_readiness p now = restart_readiness now (restart_here_allowed_of p)"

definition restart_town_readiness :: "ActorLifePhase \<Rightarrow> SimInstant \<Rightarrow> RestartReadiness option" where
  "restart_town_readiness p now = restart_readiness now (restart_town_allowed_of p)"

definition forced_respawn_due :: "ActorLifePhase \<Rightarrow> SimInstant \<Rightarrow> bool" where
  "forced_respawn_due p now = (case p of Dead _ _ _ (Some at) _ \<Rightarrow> at \<le> now | _ \<Rightarrow> False)"

definition life_restart :: "ActorLifePhase \<Rightarrow> bool \<times> ActorLifePhase" where
  "life_restart p = (if \<not> is_dead p then (False, p) else (True, Alive))"

definition begin_dying :: "ActorLifePhase \<Rightarrow> SimInstant \<Rightarrow> bool \<times> ActorLifePhase" where
  "begin_dying p now = (if \<not> is_alive p then (False, p) else (True, Dying now (sim_add now DYING_TO_DEAD_DELAY)))"

definition mob_cleanup_at :: "SimInstant \<Rightarrow> EntityId \<Rightarrow> SimInstant" where
  "mob_cleanup_at now entity_id =
    (let jitter = entity_id mod MOB_CORPSE_JITTER_MS in sim_add (sim_add now MOB_CORPSE_MIN_DELAY) jitter)"

definition death_phase :: "SimInstant \<Rightarrow> EntityId \<Rightarrow> bool \<Rightarrow> bool \<Rightarrow> ActorLifePhase" where
  "death_phase now entity_id is_player is_mob =
    Dead now
      (if is_player then Some (sim_add now PLAYER_RESTART_HERE_DELAY) else None)
      (if is_player then Some (sim_add now PLAYER_RESTART_TOWN_DELAY) else None)
      (if is_player then Some (sim_add now PLAYER_FORCED_RESPAWN_DELAY) else None)
      (if is_mob then Some (mob_cleanup_at now entity_id) else None)"

lemmas life_defs = is_alive_def is_dying_def is_dead_def can_act_def can_be_combat_target_def
  can_take_combat_damage_def can_regenerate_def

section \<open>Guards of the other systems\<close>

definition actor_can_act :: "World \<Rightarrow> Entity \<Rightarrow> bool" where
  "actor_can_act w e = (case c_life w e of None \<Rightarrow> True | Some p \<Rightarrow> can_act p)"

definition actor_can_take_combat_damage :: "World \<Rightarrow> Entity \<Rightarrow> bool" where
  "actor_can_take_combat_damage w e = (case c_life w e of None \<Rightarrow> True | Some p \<Rightarrow> can_take_combat_damage p)"

definition actor_is_dying :: "World \<Rightarrow> Entity \<Rightarrow> bool" where
  "actor_is_dying w e = (case c_life w e of None \<Rightarrow> False | Some p \<Rightarrow> is_dying p)"

definition actor_can_be_combat_target :: "World \<Rightarrow> Entity \<Rightarrow> bool" where
  "actor_can_be_combat_target w e = (case c_life w e of None \<Rightarrow> True | Some p \<Rightarrow> can_be_combat_target p)"

section \<open>Systems\<close>

text \<open>A reference is current when its entity exists and still has the network identifier it was made with.\<close>

definition ref_current :: "World \<Rightarrow> ActorRef \<Rightarrow> bool" where
  "ref_current w actor \<longleftrightarrow> contains w (ar_entity actor) \<and> c_net w (ar_entity actor) = Some (ar_id actor)"

definition stop_brain :: "MobBrainState \<Rightarrow> MobBrainState" where
  "stop_brain b = b\<lparr>brain_mode := BrainIdle, brain_target := None, attack_windup_until := 0, next_rethink_at := 0\<rparr>"

definition stop_mob_motion :: "SimInstant \<Rightarrow> MobMotionState \<Rightarrow> MobMotionState" where
  "stop_mob_motion now m =
    m\<lparr>mob_start_pos := mob_end_pos m, mob_end_pos := mob_end_pos m, mob_start_at := now, mob_end_at := now\<rparr>"

definition stop_actor_activity_for_dying :: "World \<Rightarrow> Entity \<Rightarrow> SimInstant \<Rightarrow> World" where
  "stop_actor_activity_for_dying w e now =
    (if \<not> contains w e then w
     else w\<lparr>c_brain := (c_brain w)(e := map_option stop_brain (c_brain w e)),
            c_aggro := (c_aggro w)(e := map_option (\<lambda>_. []) (c_aggro w e)),
            c_mob_motion := (c_mob_motion w)(e := map_option (stop_mob_motion now) (c_mob_motion w e))\<rparr>)"

definition begin_actor_dying :: "ActorRef \<Rightarrow> World \<Rightarrow> bool \<times> World" where
  "begin_actor_dying actor w =
    (let now = sim_now w; e = ar_entity actor in
     if \<not> ref_current w actor then (False, w)
     else case c_life w e of
       None \<Rightarrow> (False, w)
     | Some life \<Rightarrow>
         (let (began_dying, life') = begin_dying life now;
              w1 = w\<lparr>c_life := (c_life w)(e \<mapsto> life')\<rparr>
          in if \<not> began_dying then (False, w1)
             else (True, stop_actor_activity_for_dying
                    (w1\<lparr>facts := (facts w1)\<lparr>f_dying_started := f_dying_started (facts w1) @ [actor]\<rparr>\<rparr>) e now)))"

definition process_life_events :: "World \<Rightarrow> World" where
  "process_life_events w = foldl (\<lambda>w actor. snd (begin_actor_dying actor w)) w (map hd_victim (f_hp_depleted (facts w)))"

definition finalize_dying_actor_death :: "ActorRef \<Rightarrow> World \<Rightarrow> bool \<times> World" where
  "finalize_dying_actor_death actor w =
    (let now = sim_now w; e = ar_entity actor in
     if \<not> ref_current w actor then (False, w)
     else case c_life w e of
       None \<Rightarrow> (False, w)
     | Some life \<Rightarrow>
         if \<not> is_dying life then (False, w)
         else (True, w\<lparr>c_life := (c_life w)(e \<mapsto> death_phase now (ar_id actor) (c_player w e \<noteq> None) (c_mob w e \<noteq> None)),
                       facts := (facts w)\<lparr>f_death_finalized := f_death_finalized (facts w) @ [actor]\<rparr>\<rparr>))"

text \<open>
  One pass over the actors.  The query visits every entity with a network identifier and a life component once; what
  it collects is appended to the facts afterwards.
\<close>

definition lifecycle_actors :: "World \<Rightarrow> ActorRef list" where
  "lifecycle_actors w =
    map (\<lambda>e. \<lparr>ar_entity = e, ar_id = the (c_net w e)\<rparr>) (filter (\<lambda>e. c_net w e \<noteq> None \<and> c_life w e \<noteq> None) (entities w))"

definition death_due :: "World \<Rightarrow> ActorRef \<Rightarrow> bool" where
  "death_due w a = (case c_life w (ar_entity a) of Some (Dying _ at) \<Rightarrow> at \<le> sim_now w | _ \<Rightarrow> False)"

definition corpse_due :: "World \<Rightarrow> ActorRef \<Rightarrow> bool" where
  "corpse_due w a =
    (case c_life w (ar_entity a) of
       Some (Dead _ _ _ _ (Some at)) \<Rightarrow> c_mob w (ar_entity a) \<noteq> None \<and> at \<le> sim_now w | _ \<Rightarrow> False)"

definition die :: "World \<Rightarrow> ActorRef \<Rightarrow> World" where
  "die w a = w\<lparr>c_life := (c_life w)(ar_entity a \<mapsto>
    death_phase (sim_now w) (ar_id a) (c_player w (ar_entity a) \<noteq> None) (c_mob w (ar_entity a) \<noteq> None))\<rparr>"

definition process_actor_lifecycle :: "World \<Rightarrow> World" where
  "process_actor_lifecycle w =
    (let newly_dead = filter (death_due w) (lifecycle_actors w);
         cleanup = filter (corpse_due w) (lifecycle_actors w);
         w1 = foldl die w newly_dead
     in w1\<lparr>facts := (facts w1)\<lparr>f_death_finalized := f_death_finalized (facts w1) @ newly_dead,
                              f_cleanup_due := f_cleanup_due (facts w1) @ cleanup\<rparr>\<rparr>)"

section \<open>What one pass does\<close>

definition in_lifecycle :: "World \<Rightarrow> ActorRef \<Rightarrow> bool" where
  "in_lifecycle w a \<longleftrightarrow> contains w (ar_entity a) \<and> c_net w (ar_entity a) = Some (ar_id a) \<and> c_life w (ar_entity a) \<noteq> None"

lemma set_lifecycle_actors: "set (lifecycle_actors w) = {a. in_lifecycle w a}"
  by (auto simp: lifecycle_actors_def in_lifecycle_def contains_def intro!: image_eqI)

definition died :: "World \<Rightarrow> ActorRef \<Rightarrow> ActorLifePhase" where
  "died w a = death_phase (sim_now w) (ar_id a) (c_player w (ar_entity a) \<noteq> None) (c_mob w (ar_entity a) \<noteq> None)"

lemma foldl_die_frame [simp]:
  "entities (foldl die w as) = entities w" "c_net (foldl die w as) = c_net w" "c_player (foldl die w as) = c_player w"
  "c_mob (foldl die w as) = c_mob w" "facts (foldl die w as) = facts w" "sim_now (foldl die w as) = sim_now w"
  by (induction as arbitrary: w) (simp_all add: die_def)

lemma foldl_die_other: "e \<notin> ar_entity ` set as \<Longrightarrow> c_life (foldl die w as) e = c_life w e"
  by (induction as arbitrary: w) (auto simp: die_def)

lemma died_die [simp]: "died (die w b) a = died w a"
  by (simp add: died_def die_def)

lemma foldl_die_life:
  "a \<in> set as \<Longrightarrow> inj_on ar_entity (set as) \<Longrightarrow> c_life (foldl die w as) (ar_entity a) = Some (died w a)"
proof (induction as arbitrary: w)
  case (Cons b as)
  show ?case
  proof (cases "a \<in> set as")
    case True
    with Cons show ?thesis by (simp add: inj_on_def)
  next
    case False
    with Cons.prems have "a = b" "ar_entity a \<notin> ar_entity ` set as" by (auto simp: inj_on_def)
    then show ?thesis by (simp add: foldl_die_other) (simp add: die_def died_def)
  qed
qed simp

lemma lifecycle_life:
  assumes "in_lifecycle w a"
  shows "c_life (process_actor_lifecycle w) (ar_entity a) =
    (if death_due w a then Some (died w a) else c_life w (ar_entity a))"
proof -
  let ?d = "filter (death_due w) (lifecycle_actors w)"
  have inj: "inj_on ar_entity (set ?d)"
    by (auto simp: inj_on_def set_lifecycle_actors in_lifecycle_def)
  show ?thesis
  proof (cases "death_due w a")
    case True
    with assms foldl_die_life [OF _ inj, of a] show ?thesis
      by (simp add: process_actor_lifecycle_def set_lifecycle_actors Let_def)
  next
    case False
    have "ar_entity a \<notin> ar_entity ` set ?d"
      using False by (auto simp: death_due_def)
    then show ?thesis using False by (simp add: process_actor_lifecycle_def Let_def foldl_die_other)
  qed
qed

lemma lifecycle_frame [simp]:
  "entities (process_actor_lifecycle w) = entities w" "c_net (process_actor_lifecycle w) = c_net w"
  "c_player (process_actor_lifecycle w) = c_player w" "c_mob (process_actor_lifecycle w) = c_mob w"
  "sim_now (process_actor_lifecycle w) = sim_now w"
  by (simp_all add: process_actor_lifecycle_def Let_def)

lemma lifecycle_facts:
  "f_death_finalized (facts (process_actor_lifecycle w)) = f_death_finalized (facts w) @ filter (death_due w) (lifecycle_actors w)"
  "f_cleanup_due (facts (process_actor_lifecycle w)) = f_cleanup_due (facts w) @ filter (corpse_due w) (lifecycle_actors w)"
  by (simp_all add: process_actor_lifecycle_def Let_def)

lemma mob_cleanup_window:
  assumes "0 \<le> now" "now + 10000 \<le> u64_MAX"
  shows "now + 6000 \<le> mob_cleanup_at now n \<and> mob_cleanup_at now n < now + 10000"
proof -
  have "0 \<le> n mod 4000" "n mod 4000 < 4000" by simp_all
  then show ?thesis using assms by (simp add: mob_cleanup_at_def life_delays Let_def sim_add_exact)
qed

section \<open>The start of a death\<close>

lemma begin_actor_dying_frame [simp]:
  "entities (snd (begin_actor_dying a w)) = entities w" "c_net (snd (begin_actor_dying a w)) = c_net w"
  "sim_now (snd (begin_actor_dying a w)) = sim_now w" "f_hp_depleted (facts (snd (begin_actor_dying a w))) = f_hp_depleted (facts w)"
  by (simp_all add: begin_actor_dying_def begin_dying_def stop_actor_activity_for_dying_def Let_def split: option.splits)

lemma ref_current_begin [simp]: "ref_current (snd (begin_actor_dying b w)) a = ref_current w a"
  by (simp add: ref_current_def contains_def)

lemma begin_actor_dying_life:
  "c_life (snd (begin_actor_dying a w)) e =
    (if ref_current w a \<and> e = ar_entity a \<and> c_life w e = Some Alive
     then Some (Dying (sim_now w) (sim_add (sim_now w) DYING_TO_DEAD_DELAY)) else c_life w e)"
  by (auto simp: begin_actor_dying_def begin_dying_def is_alive_def stop_actor_activity_for_dying_def Let_def
      split: option.splits ActorLifePhase.splits)

lemma begin_actor_dying_started:
  "f_dying_started (facts (snd (begin_actor_dying a w))) =
    f_dying_started (facts w) @ (if ref_current w a \<and> c_life w (ar_entity a) = Some Alive then [a] else [])"
  by (auto simp: begin_actor_dying_def begin_dying_def is_alive_def stop_actor_activity_for_dying_def Let_def
      split: option.splits ActorLifePhase.splits)

definition dying_victims :: "World \<Rightarrow> ActorRef list \<Rightarrow> ActorRef set" where
  "dying_victims w as = {a \<in> set as. ref_current w a \<and> c_life w (ar_entity a) = Some Alive}"

lemma dying_victims_Cons:
  "dying_victims (snd (begin_actor_dying a w)) as =
    {b \<in> dying_victims w as. \<not> (ref_current w a \<and> c_life w (ar_entity a) = Some Alive \<and> ar_entity b = ar_entity a)}"
  by (auto simp: dying_victims_def begin_actor_dying_life)

lemma ref_current_unique: "ref_current w a \<Longrightarrow> ref_current w b \<Longrightarrow> ar_entity a = ar_entity b \<Longrightarrow> a = b"
  by (auto simp: ref_current_def)

lemma begin_dying_fold:
  fixes w :: World
  defines "f \<equiv> (\<lambda>w a. snd (begin_actor_dying a w))"
  shows "\<exists>ds. f_dying_started (facts (foldl f w as)) = f_dying_started (facts w) @ ds \<and> distinct ds \<and>
    set ds = dying_victims w as \<and>
    (\<forall>e. c_life (foldl f w as) e = (if e \<in> ar_entity ` dying_victims w as
      then Some (Dying (sim_now w) (sim_add (sim_now w) DYING_TO_DEAD_DELAY)) else c_life w e))"
proof (induction as arbitrary: w)
  case Nil
  then show ?case by (simp add: dying_victims_def)
next
  case (Cons a as)
  let ?w1 = "f w a" and ?t = "ref_current w a \<and> c_life w (ar_entity a) = Some Alive"
  have now: "sim_now ?w1 = sim_now w" by (simp add: f_def)
  obtain ds where ds: "f_dying_started (facts (foldl f ?w1 as)) = f_dying_started (facts ?w1) @ ds" "distinct ds"
    "set ds = dying_victims ?w1 as"
    "\<forall>e. c_life (foldl f ?w1 as) e = (if e \<in> ar_entity ` dying_victims ?w1 as
      then Some (Dying (sim_now w) (sim_add (sim_now w) DYING_TO_DEAD_DELAY)) else c_life ?w1 e)"
    using Cons.IH [of ?w1] unfolding now by blast
  have v: "dying_victims w (a # as) = (if ?t then insert a (dying_victims ?w1 as) else dying_victims ?w1 as)"
    unfolding f_def dying_victims_Cons by (auto simp: dying_victims_def dest: ref_current_unique)
  have new: "?t \<Longrightarrow> a \<notin> dying_victims ?w1 as" unfolding f_def dying_victims_Cons by simp
  show ?case
  proof (intro exI [of _ "(if ?t then [a] else []) @ ds"] conjI allI)
    show "f_dying_started (facts (foldl f w (a # as))) = f_dying_started (facts w) @ (if ?t then [a] else []) @ ds"
      using ds(1) by (simp add: f_def begin_actor_dying_started)
    show "distinct ((if ?t then [a] else []) @ ds)" using ds(2,3) new by auto
    show "set ((if ?t then [a] else []) @ ds) = dying_victims w (a # as)" using ds(3) v by auto
    show "c_life (foldl f w (a # as)) e = (if e \<in> ar_entity ` dying_victims w (a # as)
      then Some (Dying (sim_now w) (sim_add (sim_now w) DYING_TO_DEAD_DELAY)) else c_life w e)" for e
      using ds(4) v by (auto simp: f_def begin_actor_dying_life)
  qed
qed

text \<open>
  An actor whose hit points ran out starts dying exactly once: after the system has run, every referenced actor that
  was alive is dying with three seconds to go, nobody else's phase changed, and each of them is announced once, in
  whatever order and however often the facts name it.
\<close>

theorem dying_starts_once:
  "\<exists>ds. f_dying_started (facts (process_life_events w)) = f_dying_started (facts w) @ ds \<and> distinct ds \<and>
    set ds = dying_victims w (map hd_victim (f_hp_depleted (facts w))) \<and>
    (\<forall>e. c_life (process_life_events w) e =
      (if e \<in> ar_entity ` set ds then Some (Dying (sim_now w) (sim_add (sim_now w) DYING_TO_DEAD_DELAY)) else c_life w e))"
  using begin_dying_fold [of w "map hd_victim (f_hp_depleted (facts w))"] unfolding process_life_events_def by force

end
