(* ===== verification/Mob_Spawn.thy ===== *)
theory Mob_Spawn
  imports Map_World Stats_Recompute "HOL-Library.Product_Lexorder"
begin

text \<open>
  Spawn rules (\<^verbatim>\<open>zohar-sim/src/runtime/mob/spawn.rs\<close>), the removal of corpses (\<^verbatim>\<open>runtime/cleanup.rs\<close>) and
  the choice of a group (\<^verbatim>\<open>runtime/spatial.rs\<close>).  The bookkeeping of one map's rules is a record of its own,
  and the systems on the world are composed from functions on it.

  The random number generator, the floating-point sampling of a position and the allocation of an entity are not code
  of the repository or not arithmetic the model has: they are the fields of \<open>SpawnEnv\<close>, which act on a position in the
  random stream.  \<open>env_ok\<close> states what their documentation promises.
\<close>

section \<open>The environment\<close>

record SpawnEnv =
  env_ticket :: "nat \<Rightarrow> u32 \<Rightarrow> u32 \<times> nat"
  env_place :: "nat \<Rightarrow> SpawnRule \<Rightarrow> LocalPos option \<Rightarrow> (LocalPos \<times> u8) option \<times> nat"
  env_between :: "nat \<Rightarrow> u64 \<Rightarrow> u64 \<Rightarrow> u64 \<times> nat"
  env_fresh :: "World \<Rightarrow> Entity"
  env_roll :: roll

definition env_ok :: "SpawnEnv \<Rightarrow> bool" where
  "env_ok env \<longleftrightarrow>
    (\<forall>n total. 1 \<le> total \<longrightarrow> 1 \<le> fst (env_ticket env n total) \<and> fst (env_ticket env n total) \<le> total) \<and>
    (\<forall>w. env_fresh env w \<notin> set (entities w))"

section \<open>Choosing what to spawn\<close>

definition choice_weight :: "'a \<times> u32 \<Rightarrow> u32" where
  "choice_weight c = max (snd c) 1"

fun pick_by_ticket :: "u32 \<Rightarrow> ('a \<times> u32) list \<Rightarrow> ('a \<times> u32) option" where
  "pick_by_ticket ticket [] = None"
| "pick_by_ticket ticket (c # cs) =
    (if ticket \<le> choice_weight c then Some c else pick_by_ticket (ticket - choice_weight c) cs)"

definition pick_group_group_choice :: "SpawnEnv \<Rightarrow> ('a \<times> u32) list \<Rightarrow> nat \<Rightarrow> ('a \<times> u32) option \<times> nat" where
  "pick_group_group_choice env choices n =
    (let total_weight = wrap_u 32 (sum_list (map choice_weight choices)) in
     if total_weight = 0 then (None, n)
     else let (ticket, n') = env_ticket env n total_weight
          in (case pick_by_ticket ticket choices of
                Some c \<Rightarrow> (Some c, n')
              | None \<Rightarrow> (if choices = [] then None else Some (last choices), n')))"

definition expand_spawn_template :: "SpawnEnv \<Rightarrow> SpawnTemplate \<Rightarrow> nat \<Rightarrow> MobId list \<times> nat" where
  "expand_spawn_template env template n =
    (case template of
       TmMob mob_id \<Rightarrow> ([mob_id], n)
     | TmGroup members \<Rightarrow> (members, n)
     | TmGroupGroup choices \<Rightarrow>
         (let (choice, n') = pick_group_group_choice env choices n
          in (case choice of Some c \<Rightarrow> fst c | None \<Rightarrow> [], n')))"

section \<open>Spawning mobs\<close>

definition mob_source_from_proto :: "MobPrototype \<Rightarrow> ActorStatSource" where
  "mob_source_from_proto proto =
    SMob \<lparr>ms_level = min (mp_level proto) i32_MAX,
          ms_core = \<lparr>csb_st = mp_strength proto, csb_ht = mp_vitality proto, csb_dx = mp_dexterity proto, csb_iq = mp_intelligence proto\<rparr>,
          ms_max_hp = max (mp_max_hp proto) 1, ms_def_grade_flat = max (mp_defense proto) 0,
          ms_balance = default_mob_balance_rules,
          ms_speeds = \<lparr>move_speed = mp_move_speed proto, attack_speed = mp_attack_speed proto,
                       casting_speed = mp_attack_speed proto\<rparr>\<rparr>"

definition mob_stats_from_proto :: "roll \<Rightarrow> MobPrototype \<Rightarrow> ActorStatsRuntime exec" where
  "mob_stats_from_proto roll proto = do {
     (_, rt) \<leftarrow> with_api_mut (runtime_new (mob_source_from_proto proto) (state_new KMob)) (\<lambda>src st. do {
       (_, st1) \<leftarrow> api_sync roll src st;
       max_hp \<leftarrow> read_limited src st1 MaxHp;
       (_, st2) \<leftarrow> set_resource st1 Hp max_hp;
       Some ((), st2)
     });
     Some rt
   }"

definition brain_default :: MobBrainState where
  "brain_default = \<lparr>brain_mode = BrainIdle, brain_target = None, next_attack_at = 0, attack_windup_until = 0,
    next_rethink_at = 0, wander_next_decision_at = 0, wander_wait_until = None\<rparr>"

definition random_duration_between_ms :: "SpawnEnv \<Rightarrow> nat \<Rightarrow> duration \<Rightarrow> duration \<Rightarrow> SimDuration \<times> nat" where
  "random_duration_between_ms env n mn mx =
    (let min_ms = sim_duration_of mn; max_ms = sim_duration_of mx
     in env_between env n (min min_ms max_ms) (max min_ms max_ms))"

definition insert_mob :: "Entity \<Rightarrow> EntityId \<Rightarrow> MobId \<Rightarrow> ActorStatsRuntime \<Rightarrow> LocalPos \<Rightarrow> u8 \<Rightarrow> SimInstant \<Rightarrow> u32 option \<Rightarrow> World \<Rightarrow> World" where
  "insert_mob e entity_id mob_id rt pos rot wander_at pack_id w =
    w\<lparr>spatial := (spatial w)(entity_id \<mapsto> pos), entities := entities w @ [e],
      c_net := (c_net w)(e \<mapsto> entity_id), c_mob := (c_mob w)(e \<mapsto> mob_id),
      c_mob_stats := (c_mob_stats w)(e \<mapsto> rt), c_life := (c_life w)(e \<mapsto> Alive),
      c_transform := (c_transform w)(e \<mapsto> \<lparr>tf_pos = pos, tf_rot = rot\<rparr>),
      c_mob_motion := (c_mob_motion w)(e \<mapsto> \<lparr>mob_start_pos = pos, mob_end_pos = pos, mob_start_at = 0, mob_end_at = 0\<rparr>),
      c_aggro := (c_aggro w)(e \<mapsto> []), c_home := (c_home w)(e \<mapsto> pos),
      c_brain := (c_brain w)(e \<mapsto> brain_default\<lparr>wander_next_decision_at := wander_at\<rparr>),
      c_pack := (c_pack w)(e := pack_id), net_index := (net_index w)(entity_id \<mapsto> e)\<rparr>"

definition first_wander :: "SpawnEnv \<Rightarrow> SharedConfig \<Rightarrow> MobPrototype \<Rightarrow> World \<Rightarrow> SimInstant \<times> World" where
  "first_wander env shared proto w =
    (if mp_can_wander proto
     then let (delay, n) = random_duration_between_ms env (rng_pos w) (sc_pause_idle_min shared) (sc_pause_idle_max shared)
          in (sim_add (sim_now w) delay, w\<lparr>rng_pos := n\<rparr>)
     else (0, w))"

definition spawn_one_mob :: "SpawnEnv \<Rightarrow> SharedConfig \<Rightarrow> MobId \<Rightarrow> LocalPos \<Rightarrow> u8 \<Rightarrow> u32 option \<Rightarrow> World \<Rightarrow> (EntityId option \<times> World) exec" where
  "spawn_one_mob env shared mob_id pos rot pack_id w =
    (case sc_mobs shared mob_id of
       None \<Rightarrow> Some (None, w)
     | Some proto \<Rightarrow>
         (case mob_stats_from_proto (env_roll env) proto of
            None \<Rightarrow> None
          | Some rt \<Rightarrow>
              (let (entity_id, w1) = next_entity_id w;
                   (wander_at, w2) = first_wander env shared proto w1
               in Some (Some entity_id, insert_mob (env_fresh env w2) entity_id mob_id rt pos rot wander_at pack_id w2))))"

definition next_pack :: "World \<Rightarrow> u32 \<times> World" where
  "next_pack w =
    (let n = wrap_u 32 (next_pack_id w + 1); n' = (if n = 0 then 1 else n)
     in (n', w\<lparr>next_pack_id := n'\<rparr>))"

text \<open>A member that cannot be placed or has no prototype is skipped, unless it would be the first: then the attempt ends.\<close>

fun spawn_members :: "SpawnEnv \<Rightarrow> SharedConfig \<Rightarrow> SpawnRule \<Rightarrow> u32 option \<Rightarrow> MobId list \<Rightarrow> LocalPos option \<Rightarrow> EntityId list \<Rightarrow>
    World \<Rightarrow> (EntityId list \<times> World) exec" where
  "spawn_members env shared rule pack_id [] previous spawned w = Some (spawned, w)"
| "spawn_members env shared rule pack_id (mob_id # mob_ids) previous spawned w =
    (let (point, n) = env_place env (rng_pos w) rule previous; w1 = w\<lparr>rng_pos := n\<rparr> in
     case point of
       None \<Rightarrow> (if previous = None then Some ([], w1)
                else spawn_members env shared rule pack_id mob_ids previous spawned w1)
     | Some (pos, rot) \<Rightarrow>
         (case spawn_one_mob env shared mob_id pos rot pack_id w1 of
            None \<Rightarrow> None
          | Some (None, w2) \<Rightarrow> (if previous = None then Some ([], w2)
                               else spawn_members env shared rule pack_id mob_ids previous spawned w2)
          | Some (Some entity_id, w2) \<Rightarrow>
              spawn_members env shared rule pack_id mob_ids (Some pos) (spawned @ [entity_id]) w2))"

definition spawn_one_template :: "SpawnEnv \<Rightarrow> SharedConfig \<Rightarrow> SpawnRule \<Rightarrow> World \<Rightarrow> (EntityId list \<times> World) exec" where
  "spawn_one_template env shared rule w =
    (let (mob_ids, n) = expand_spawn_template env (sr_template rule) (rng_pos w);
         w1 = w\<lparr>rng_pos := n\<rparr>;
         (pack_id, w2) = (if 1 < length mob_ids then map_prod Some id (next_pack w1) else (None, w1))
     in spawn_members env shared rule pack_id mob_ids None [] w2)"

section \<open>The bookkeeping of the rules\<close>

definition push_spawn :: "SimInstant \<Rightarrow> nat \<Rightarrow> MapSpawnRules \<Rightarrow> MapSpawnRules" where
  "push_spawn at idx ms = ms\<lparr>scheduled_spawns := insort (at, idx) (scheduled_spawns ms)\<rparr>"

definition set_rule :: "nat \<Rightarrow> SpawnRuleState \<Rightarrow> MapSpawnRules \<Rightarrow> MapSpawnRules" where
  "set_rule idx r ms = ms\<lparr>rules := (rules ms)[idx := r]\<rparr>"

text \<open>
  The head of the schedule when it is due: it is popped, and says whether its rule is to spawn.  An entry whose time is
  not the one its rule now waits for is stale; a rule that is full forgets its time.
\<close>

definition take_due :: "SimInstant \<Rightarrow> MapSpawnRules \<Rightarrow> ((nat \<times> bool) \<times> MapSpawnRules) option" where
  "take_due now ms =
    (case scheduled_spawns ms of
       [] \<Rightarrow> None
     | (at, idx) # rest \<Rightarrow>
         if now < at then None
         else let ms1 = ms\<lparr>scheduled_spawns := rest\<rparr> in
           if length (rules ms1) \<le> idx then Some ((idx, False), ms1)
           else let r = rules ms1 ! idx in
             if respawn_at r \<noteq> Some at then Some ((idx, False), ms1)
             else if sr_max_count (rs_rule r) \<le> active_instances r
             then Some ((idx, False), set_rule idx (r\<lparr>respawn_at := None\<rparr>) ms1)
             else Some ((idx, True), ms1))"

definition add_instance :: "nat \<Rightarrow> EntityId list \<Rightarrow> MapSpawnRules \<Rightarrow> MapSpawnRules" where
  "add_instance idx ids ms =
    (let r = rules ms ! idx
     in set_rule idx (r\<lparr>rs_entities := rs_entities r \<union> set ids, active_instances := active_instances r + 1\<rparr>) ms)"

definition settle_rule :: "nat \<Rightarrow> SimInstant \<Rightarrow> MapSpawnRules \<Rightarrow> MapSpawnRules" where
  "settle_rule idx now ms =
    (let r = rules ms ! idx in
     if active_instances r < sr_max_count (rs_rule r)
     then let retry_at = sim_add now 1 in push_spawn retry_at idx (set_rule idx (r\<lparr>respawn_at := Some retry_at\<rparr>) ms)
     else set_rule idx (r\<lparr>respawn_at := None\<rparr>) ms)"

fun release_from :: "SimInstant \<Rightarrow> EntityId \<Rightarrow> nat \<Rightarrow> SpawnRuleState list \<Rightarrow> (SpawnRuleState list \<times> (SimInstant \<times> nat)) option" where
  "release_from now entity_id idx [] = None"
| "release_from now entity_id idx (r # rs) =
    (if entity_id \<notin> rs_entities r
     then map_option (\<lambda>(rs', s). (r # rs', s)) (release_from now entity_id (idx + 1) rs)
     else let at = sim_add now (sim_duration_of (sr_regen_time (rs_rule r)))
          in Some (r\<lparr>rs_entities := rs_entities r - {entity_id}, active_instances := active_instances r - 1,
                    respawn_at := Some at\<rparr> # rs, (at, idx)))"

definition release_mob_spawn_slot :: "EntityId \<Rightarrow> SimInstant \<Rightarrow> MapSpawnRules \<Rightarrow> MapSpawnRules" where
  "release_mob_spawn_slot entity_id now ms =
    (case release_from now entity_id 0 (rules ms) of
       None \<Rightarrow> ms
     | Some (rs, (at, idx)) \<Rightarrow> push_spawn at idx (ms\<lparr>rules := rs\<rparr>))"

section \<open>Systems\<close>

text \<open>Spawning one template after the other until the budget is used or nothing could be spawned.\<close>

fun fill_rule :: "SpawnEnv \<Rightarrow> SharedConfig \<Rightarrow> nat \<Rightarrow> SpawnRule \<Rightarrow> nat \<Rightarrow> World \<Rightarrow> World exec" where
  "fill_rule env shared idx rule 0 w = Some w"
| "fill_rule env shared idx rule (Suc budget) w =
    (case spawn_one_template env shared rule w of
       None \<Rightarrow> None
     | Some (ids, w1) \<Rightarrow>
         if ids = [] then Some w1
         else fill_rule env shared idx rule budget (w1\<lparr>map_spawns := add_instance idx ids (map_spawns w1)\<rparr>))"

definition spawn_rule_now :: "SpawnEnv \<Rightarrow> SharedConfig \<Rightarrow> nat \<Rightarrow> World \<Rightarrow> World exec" where
  "spawn_rule_now env shared idx w =
    (let r = rules (map_spawns w) ! idx
     in map_option (\<lambda>w1. w1\<lparr>map_spawns := settle_rule idx (sim_now w1) (map_spawns w1), world_dirty := True\<rparr>)
          (fill_rule env shared idx (rs_rule r) (sr_max_count (rs_rule r) - active_instances r) w))"

partial_function (option) spawn_rules_loop :: "SpawnEnv \<Rightarrow> SharedConfig \<Rightarrow> World \<Rightarrow> World option" where
  "spawn_rules_loop env shared w =
    (case take_due (sim_now w) (map_spawns w) of
       None \<Rightarrow> Some w
     | Some ((idx, should_spawn), ms) \<Rightarrow>
         (let w1 = w\<lparr>map_spawns := ms\<rparr> in
          Option.bind (if should_spawn then spawn_rule_now env shared idx w1 else Some w1)
            (spawn_rules_loop env shared)))"

definition spawn_rules :: "SpawnEnv \<Rightarrow> SharedConfig \<Rightarrow> World \<Rightarrow> World exec" where
  "spawn_rules env shared w = (if map_ready w then spawn_rules_loop env shared w else Some w)"

text \<open>At start-up every rule is filled to its cap and the schedule is dropped.\<close>

definition preload_rule :: "SpawnEnv \<Rightarrow> SharedConfig \<Rightarrow> nat \<Rightarrow> World \<Rightarrow> World exec" where
  "preload_rule env shared idx w =
    (let r = rules (map_spawns w) ! idx
     in fill_rule env shared idx (rs_rule r) (sr_max_count (rs_rule r) - active_instances r) w)"

definition preload_map_to_spawn_cap_world :: "SpawnEnv \<Rightarrow> SharedConfig \<Rightarrow> World \<Rightarrow> World exec" where
  "preload_map_to_spawn_cap_world env shared w =
    (if \<not> map_ready w then Some w
     else map_option (\<lambda>w1. w1\<lparr>map_spawns := \<lparr>rules = map (respawn_at_update (\<lambda>_. None)) (rules (map_spawns w1)),
                                          scheduled_spawns = []\<rparr>\<rparr>)
            (for_each (preload_rule env shared) [0..<length (rules (map_spawns w))] w))"

definition initial_rule :: "SimInstant \<Rightarrow> SpawnRule \<Rightarrow> SpawnRuleState" where
  "initial_rule now r = \<lparr>rs_rule = r, active_instances = 0, rs_entities = {}, respawn_at = Some now\<rparr>"

definition bootstrap_map_runtime :: "SpawnEnv \<Rightarrow> SharedConfig \<Rightarrow> SpawnRule list \<Rightarrow> World \<Rightarrow> World exec" where
  "bootstrap_map_runtime env shared rs w =
    preload_map_to_spawn_cap_world env shared
      (w\<lparr>map_spawns := \<lparr>rules = map (initial_rule (sim_now w)) rs,
                       scheduled_spawns = foldl (\<lambda>h i. insort (sim_now w, i) h) [] [0..<length rs]\<rparr>,
         spatial := Map.empty, replication := graph_default, pending_chats := [], pending_movements := [],
         dirty_public_states := [], map_ready := True\<rparr>)"

section \<open>Removal of corpses\<close>

definition destroy_mob_entity :: "iteration \<Rightarrow> World \<Rightarrow> ActorRef \<Rightarrow> World" where
  "destroy_mob_entity iter w actor =
    (if \<not> contains w (ar_entity actor) \<or> \<not> map_ready w then w
     else let (observers, g) = remove_target iter (replication w) (ar_id actor);
              w1 = w\<lparr>replication := g, spatial := (spatial w)(ar_id actor := None),
                     pending_movements := filter (\<lambda>m. mv_entity_id (pm_movement m) \<noteq> ar_id actor) (pending_movements w),
                     dirty_public_states := filter (\<lambda>i. i \<noteq> ar_id actor) (dirty_public_states w),
                     map_spawns := release_mob_spawn_slot (ar_id actor) (sim_now w) (map_spawns w)\<rparr>;
              recipients = List.map_filter (net_index w1) observers;
              w2 = w1\<lparr>facts := (facts w1)\<lparr>f_despawned := f_despawned (facts w1) @
                     [\<lparr>dsp_actor_id = ar_id actor, dsp_recipients = recipients\<rparr>]\<rparr>,
                   net_index := (net_index w1)(ar_id actor := None)\<rparr>
          in (clear_entity w2 (ar_entity actor))\<lparr>world_dirty := True\<rparr>)"

definition process_cleanup_events :: "iteration \<Rightarrow> World \<Rightarrow> World" where
  "process_cleanup_events iter w = foldl (destroy_mob_entity iter) w (f_cleanup_due (facts w))"

section \<open>Spawning leaves the bookkeeping alone\<close>

definition same_spawns :: "World \<Rightarrow> World \<Rightarrow> bool" where
  "same_spawns w w' \<longleftrightarrow> map_spawns w' = map_spawns w \<and> sim_now w' = sim_now w \<and> map_ready w' = map_ready w"

lemma same_spawns_refl [simp]: "same_spawns w w"
  by (simp add: same_spawns_def)

lemma same_spawns_trans: "same_spawns a b \<Longrightarrow> same_spawns b c \<Longrightarrow> same_spawns a c"
  by (simp add: same_spawns_def)

lemma same_spawns_rng [simp]: "same_spawns w (w\<lparr>rng_pos := n\<rparr>)" "same_spawns w (w\<lparr>next_pack_id := i\<rparr>)"
  by (simp_all add: same_spawns_def)

lemma insert_mob_spawns [simp]: "same_spawns w (insert_mob e i m rt pos rot t p w)"
  by (simp add: insert_mob_def same_spawns_def)

lemma next_entity_id_spawns: "next_entity_id w = (i, w') \<Longrightarrow> same_spawns w w'"
  by (auto simp: next_entity_id_def same_spawns_def Let_def)

lemma first_wander_spawns: "first_wander env shared proto w = (t, w') \<Longrightarrow> same_spawns w w'"
  by (auto simp: first_wander_def split: if_splits prod.splits)

lemma spawn_one_mob_spawns: "spawn_one_mob env shared mob_id pos rot pack_id w = Some (r, w') \<Longrightarrow> same_spawns w w'"
  unfolding spawn_one_mob_def
  by (auto split: option.splits prod.splits dest!: next_entity_id_spawns first_wander_spawns
      intro: same_spawns_trans)

text \<open>One step of the loop over the members.\<close>

lemma spawn_members_cases:
  assumes "spawn_members env shared rule pack_id (m # ms) previous spawned w = Some (ids, w')"
  obtains n where "same_spawns w w'" "ids = []"
  | w1 where "same_spawns w w1" "spawn_members env shared rule pack_id ms previous spawned w1 = Some (ids, w')"
  | w1 pos i where "same_spawns w w1" "spawn_members env shared rule pack_id ms (Some pos) (spawned @ [i]) w1 = Some (ids, w')"
proof -
  obtain point n where place: "env_place env (rng_pos w) rule previous = (point, n)" by fastforce
  let ?w1 = "w\<lparr>rng_pos := n\<rparr>"
  have w1: "same_spawns w ?w1" by simp
  show thesis
  proof (cases point)
    case None
    show thesis
    proof (cases "previous = None")
      case True
      with None assms place that(1) show thesis by (auto simp: Let_def)
    next
      case False
      with None assms place have "spawn_members env shared rule pack_id ms previous spawned ?w1 = Some (ids, w')"
        by (simp add: Let_def)
      with w1 show thesis by (rule that(2))
    qed
  next
    case (Some pr)
    obtain pos rot where pr: "pr = (pos, rot)" by fastforce
    obtain r w2 where one: "spawn_one_mob env shared m pos rot pack_id ?w1 = Some (r, w2)"
      using assms place Some pr by (auto simp: Let_def split: option.splits)
    have "same_spawns w w2" using w1 spawn_one_mob_spawns [OF one] by (rule same_spawns_trans)
    with assms place Some pr one that show thesis
      by (cases r; cases "previous = None") (simp_all add: Let_def)
  qed
qed

lemma spawn_members_spawns:
  "spawn_members env shared rule pack_id mob_ids previous spawned w = Some (ids, w') \<Longrightarrow> same_spawns w w'"
proof (induction mob_ids arbitrary: previous spawned w)
  case (Cons m ms)
  from Cons.prems show ?case
    by (cases rule: spawn_members_cases) (auto dest: Cons.IH intro: same_spawns_trans)
qed simp

lemma spawn_one_template_spawns: "spawn_one_template env shared rule w = Some (ids, w') \<Longrightarrow> same_spawns w w'"
  unfolding spawn_one_template_def next_pack_def Let_def
  by (auto split: prod.splits if_splits dest!: spawn_members_spawns simp: same_spawns_def)

text \<open>A template of a single mob yields at most one entity.\<close>

definition single :: "SpawnTemplate \<Rightarrow> bool" where
  "single t = (case t of TmMob _ \<Rightarrow> True | TmGroup ms \<Rightarrow> length ms \<le> 1 | TmGroupGroup cs \<Rightarrow> (\<forall>c \<in> set cs. length (fst c) \<le> 1))"

lemma pick_by_ticket_in: "pick_by_ticket t cs = Some c \<Longrightarrow> c \<in> set cs"
  by (induction cs arbitrary: t) (auto split: if_splits)

lemma pick_choice_in: "pick_group_group_choice env cs n = (Some c, n') \<Longrightarrow> c \<in> set cs"
  by (auto simp: pick_group_group_choice_def Let_def dest: pick_by_ticket_in split: if_splits option.splits prod.splits)

lemma expand_single: "single t \<Longrightarrow> expand_spawn_template env t n = (ids, n') \<Longrightarrow> length ids \<le> 1"
  by (cases t) (auto simp: single_def expand_spawn_template_def dest!: pick_choice_in split: option.splits prod.splits)

lemma spawn_members_length:
  "spawn_members env shared rule pack_id mob_ids previous spawned w = Some (ids, w') \<Longrightarrow> length ids \<le> length spawned + length mob_ids"
proof (induction mob_ids arbitrary: previous spawned w)
  case (Cons m ms)
  from Cons.prems show ?case
    by (cases rule: spawn_members_cases) (auto dest!: Cons.IH)
qed simp

lemma spawn_single:
  assumes "single (sr_template rule)" "spawn_one_template env shared rule w = Some (ids, w')"
  shows "length ids \<le> 1"
proof -
  obtain mob_ids n where e: "expand_spawn_template env (sr_template rule) (rng_pos w) = (mob_ids, n)" by fastforce
  with assms(1) have "length mob_ids \<le> 1" by (auto dest: expand_single)
  with assms(2) e show ?thesis
    by (auto simp: spawn_one_template_def Let_def split: prod.splits if_splits dest!: spawn_members_length)
qed

section \<open>The population of a rule\<close>

definition rule_ok :: "SpawnRuleState \<Rightarrow> bool" where
  "rule_ok r \<longleftrightarrow> finite (rs_entities r) \<and> active_instances r \<le> sr_max_count (rs_rule r) \<and>
    (single (sr_template (rs_rule r)) \<longrightarrow> card (rs_entities r) \<le> active_instances r)"

definition spawns_ok :: "MapSpawnRules \<Rightarrow> bool" where
  "spawns_ok ms \<longleftrightarrow> list_all rule_ok (rules ms)"

text \<open>The rules themselves, which nothing changes.\<close>

definition rule_defs :: "MapSpawnRules \<Rightarrow> SpawnRule list" where
  "rule_defs ms = map rs_rule (rules ms)"

lemma spawns_ok_set_rule: "spawns_ok ms \<Longrightarrow> rule_ok r \<Longrightarrow> spawns_ok (set_rule idx r ms)"
  by (auto simp: spawns_ok_def set_rule_def list_all_iff dest: set_update_subset_insert [THEN subsetD])

lemma spawns_ok_nth: "spawns_ok ms \<Longrightarrow> idx < length (rules ms) \<Longrightarrow> rule_ok (rules ms ! idx)"
  by (simp add: spawns_ok_def list_all_length)

lemma rule_ok_respawn [simp]: "rule_ok (r\<lparr>respawn_at := t\<rparr>) = rule_ok r"
  by (simp add: rule_ok_def)

lemma rule_defs_simps [simp]:
  "rule_defs (push_spawn at idx ms) = rule_defs ms" "rule_defs (ms\<lparr>scheduled_spawns := h\<rparr>) = rule_defs ms"
  by (simp_all add: rule_defs_def push_spawn_def)

lemma rule_defs_set_rule [simp]: "rs_rule r = rs_rule (rules ms ! idx) \<Longrightarrow> rule_defs (set_rule idx r ms) = rule_defs ms"
  by (cases "idx < length (rules ms)") (simp_all add: rule_defs_def set_rule_def map_update list_update_same_conv list_update_beyond)

lemma spawns_ok_simps [simp]:
  "spawns_ok (push_spawn at idx ms) = spawns_ok ms" "spawns_ok (ms\<lparr>scheduled_spawns := h\<rparr>) = spawns_ok ms"
  by (simp_all add: spawns_ok_def push_spawn_def)

lemma take_due_ok:
  assumes "spawns_ok ms" "take_due now ms = Some ((idx, b), ms')"
  shows "spawns_ok ms' \<and> rule_defs ms' = rule_defs ms \<and> (b \<longrightarrow> idx < length (rules ms') \<and>
    active_instances (rules ms' ! idx) < sr_max_count (rs_rule (rules ms' ! idx)))"
  using assms
  by (auto simp: take_due_def Let_def not_le spawns_ok_nth intro!: spawns_ok_set_rule split: list.splits if_splits)

lemma length_rules_set_rule [simp]: "length (rules (set_rule idx r ms)) = length (rules ms)"
  by (simp add: set_rule_def)

lemma add_instance_ok:
  assumes "spawns_ok ms" "idx < length (rules ms)" "active_instances (rules ms ! idx) < sr_max_count (rs_rule (rules ms ! idx))"
    and "single (sr_template (rs_rule (rules ms ! idx))) \<longrightarrow> length ids \<le> 1"
  shows "spawns_ok (add_instance idx ids ms)" "rule_defs (add_instance idx ids ms) = rule_defs ms"
    "length (rules (add_instance idx ids ms)) = length (rules ms)"
    "active_instances (rules (add_instance idx ids ms) ! idx) = active_instances (rules ms ! idx) + 1"
proof -
  let ?r = "rules ms ! idx"
  have r: "rule_ok ?r" using assms by (simp add: spawns_ok_nth)
  have "card (rs_entities ?r \<union> set ids) \<le> card (rs_entities ?r) + length ids"
    by (rule order_trans [OF card_Un_le]) (simp add: card_length)
  with r assms(3,4) have "rule_ok (?r\<lparr>rs_entities := rs_entities ?r \<union> set ids, active_instances := active_instances ?r + 1\<rparr>)"
    by (auto simp: rule_ok_def)
  with assms(1) show "spawns_ok (add_instance idx ids ms)" by (simp add: add_instance_def spawns_ok_set_rule Let_def)
  show "rule_defs (add_instance idx ids ms) = rule_defs ms" by (simp add: add_instance_def Let_def)
  show "length (rules (add_instance idx ids ms)) = length (rules ms)" by (simp add: add_instance_def Let_def)
  show "active_instances (rules (add_instance idx ids ms) ! idx) = active_instances (rules ms ! idx) + 1"
    using assms(2) by (simp add: add_instance_def set_rule_def Let_def)
qed

lemma rule_defs_length: "rule_defs ms = rule_defs ms' \<Longrightarrow> length (rules ms) = length (rules ms')"
  unfolding rule_defs_def by (rule map_eq_imp_length_eq)

lemma rule_defs_nth: "rule_defs ms = rule_defs ms' \<Longrightarrow> idx < length (rules ms) \<Longrightarrow> rs_rule (rules ms ! idx) = rs_rule (rules ms' ! idx)"
  using rule_defs_length [of ms ms'] by (metis nth_map rule_defs_def)

lemma fill_rule_ok:
  assumes "fill_rule env shared idx rule budget w = Some w'" "spawns_ok (map_spawns w)" "idx < length (rules (map_spawns w))"
    and "rs_rule (rules (map_spawns w) ! idx) = rule"
    and "active_instances (rules (map_spawns w) ! idx) + budget \<le> sr_max_count rule"
  shows "spawns_ok (map_spawns w') \<and> rule_defs (map_spawns w') = rule_defs (map_spawns w) \<and> sim_now w' = sim_now w \<and> map_ready w' = map_ready w"
  using assms
proof (induction budget arbitrary: w)
  case (Suc budget)
  from Suc.prems(1) obtain ids w1 where one: "spawn_one_template env shared rule w = Some (ids, w1)"
    and next': "(if ids = [] then Some w1
         else fill_rule env shared idx rule budget (w1\<lparr>map_spawns := add_instance idx ids (map_spawns w1)\<rparr>)) = Some w'"
    by (auto split: option.splits)
  have same: "map_spawns w1 = map_spawns w" "sim_now w1 = sim_now w" "map_ready w1 = map_ready w"
    using spawn_one_template_spawns [OF one] by (simp_all add: same_spawns_def)
  show ?case
  proof (cases "ids = []")
    case True
    with next' same Suc.prems show ?thesis by simp
  next
    case False
    let ?ms = "add_instance idx ids (map_spawns w)"
    have len: "single (sr_template (rs_rule (rules (map_spawns w) ! idx))) \<longrightarrow> length ids \<le> 1"
      using Suc.prems(4) one by (auto dest: spawn_single)
    have "active_instances (rules (map_spawns w) ! idx) < sr_max_count (rs_rule (rules (map_spawns w) ! idx))"
      using Suc.prems(4,5) by simp
    note add = add_instance_ok [OF Suc.prems(2,3) this len]
    have "fill_rule env shared idx rule budget (w1\<lparr>map_spawns := ?ms\<rparr>) = Some w'" using next' False same by simp
    from Suc.IH [OF this] add Suc.prems(3,4,5) rule_defs_nth [of ?ms "map_spawns w" idx]
    show ?thesis by (simp add: same)
  qed
qed simp

lemma settle_rule_ok:
  "spawns_ok ms \<Longrightarrow> idx < length (rules ms) \<Longrightarrow> spawns_ok (settle_rule idx now ms) \<and> rule_defs (settle_rule idx now ms) = rule_defs ms"
  by (simp add: settle_rule_def Let_def spawns_ok_set_rule spawns_ok_nth)

lemma spawn_rule_now_ok:
  assumes "spawn_rule_now env shared idx w = Some w'" "spawns_ok (map_spawns w)" "idx < length (rules (map_spawns w))"
    and "active_instances (rules (map_spawns w) ! idx) < sr_max_count (rs_rule (rules (map_spawns w) ! idx))"
  shows "spawns_ok (map_spawns w') \<and> rule_defs (map_spawns w') = rule_defs (map_spawns w) \<and> sim_now w' = sim_now w"
proof -
  from assms(1) obtain w1 where w1: "fill_rule env shared idx (rs_rule (rules (map_spawns w) ! idx))
      (sr_max_count (rs_rule (rules (map_spawns w) ! idx)) - active_instances (rules (map_spawns w) ! idx)) w = Some w1"
    "w' = w1\<lparr>map_spawns := settle_rule idx (sim_now w1) (map_spawns w1), world_dirty := True\<rparr>"
    by (auto simp: spawn_rule_now_def Let_def)
  have ok: "spawns_ok (map_spawns w1) \<and> rule_defs (map_spawns w1) = rule_defs (map_spawns w) \<and> sim_now w1 = sim_now w"
    using fill_rule_ok [OF w1(1) assms(2,3)] assms(4) by simp
  then have "idx < length (rules (map_spawns w1))" using assms(3) rule_defs_length [of "map_spawns w1"] by simp
  with ok settle_rule_ok show ?thesis unfolding w1(2) by simp
qed

lemma spawn_rules_loop_ok:
  assumes "spawn_rules_loop env shared w = Some w'" "spawns_ok (map_spawns w)"
  shows "spawns_ok (map_spawns w') \<and> rule_defs (map_spawns w') = rule_defs (map_spawns w)"
proof -
  have "spawns_ok (map_spawns w) \<longrightarrow> spawns_ok (map_spawns w') \<and> rule_defs (map_spawns w') = rule_defs (map_spawns w)"
  proof (rule spawn_rules_loop.raw_induct [OF _ assms(1), where P = "\<lambda>env shared w w'.
      spawns_ok (map_spawns w) \<longrightarrow> spawns_ok (map_spawns w') \<and> rule_defs (map_spawns w') = rule_defs (map_spawns w)"], intro impI)
    fix loop env shared w w'
    assume IH: "\<And>env shared w w'. loop env shared w = Some w' \<Longrightarrow>
        spawns_ok (map_spawns w) \<longrightarrow> spawns_ok (map_spawns w') \<and> rule_defs (map_spawns w') = rule_defs (map_spawns w)"
      and step: "(case take_due (sim_now w) (map_spawns w) of None \<Rightarrow> Some w
         | Some ((idx, should_spawn), ms) \<Rightarrow>
             (let w1 = w\<lparr>map_spawns := ms\<rparr> in
              Option.bind (if should_spawn then spawn_rule_now env shared idx w1 else Some w1) (loop env shared))) = Some w'"
      and ok: "spawns_ok (map_spawns w)"
    show "spawns_ok (map_spawns w') \<and> rule_defs (map_spawns w') = rule_defs (map_spawns w)"
    proof (cases "take_due (sim_now w) (map_spawns w)")
      case None
      with step ok show ?thesis by simp
    next
      case (Some p)
      obtain idx b ms where p: "p = ((idx, b), ms)" by (metis prod.exhaust)
      note due = take_due_ok [OF ok Some [unfolded p]]
      from step Some p obtain w2 where w2:
        "(if b then spawn_rule_now env shared idx (w\<lparr>map_spawns := ms\<rparr>) else Some (w\<lparr>map_spawns := ms\<rparr>)) = Some w2"
        "loop env shared w2 = Some w'" by (auto simp: bind_eq_Some_conv Let_def)
      have "spawns_ok (map_spawns w2) \<and> rule_defs (map_spawns w2) = rule_defs (map_spawns w)"
        using w2(1) due by (cases b) (auto dest!: spawn_rule_now_ok)
      with IH [OF w2(2)] show ?thesis by simp
    qed
  qed
  with assms(2) show ?thesis by simp
qed

lemma release_from_ok:
  "release_from now x i rs = Some (rs', s) \<Longrightarrow> list_all rule_ok rs \<Longrightarrow> list_all rule_ok rs' \<and> map rs_rule rs' = map rs_rule rs"
proof (induction rs arbitrary: i rs')
  case (Cons r rs)
  show ?case
  proof (cases "x \<in> rs_entities r")
    case True
    have "rule_ok (r\<lparr>rs_entities := rs_entities r - {x}, active_instances := active_instances r - 1, respawn_at := t\<rparr>)" for t
      using Cons.prems(2) True by (auto simp: rule_ok_def card_Diff_singleton)
    with True Cons.prems show ?thesis by (auto simp: Let_def)
  next
    case False
    with Cons show ?thesis by auto
  qed
qed simp

lemma release_ok: "spawns_ok ms \<Longrightarrow> spawns_ok (release_mob_spawn_slot x now ms) \<and> rule_defs (release_mob_spawn_slot x now ms) = rule_defs ms"
  by (auto simp: release_mob_spawn_slot_def spawns_ok_def rule_defs_def push_spawn_def dest!: release_from_ok
      split: option.splits prod.splits)

lemma destroy_ok:
  "spawns_ok (map_spawns w) \<Longrightarrow> spawns_ok (map_spawns (destroy_mob_entity iter w a)) \<and>
    rule_defs (map_spawns (destroy_mob_entity iter w a)) = rule_defs (map_spawns w)"
  using release_ok by (simp add: destroy_mob_entity_def clear_entity_def Let_def split: prod.splits)

lemma cleanup_ok:
  "spawns_ok (map_spawns w) \<Longrightarrow> spawns_ok (map_spawns (foldl (destroy_mob_entity iter) w as)) \<and>
    rule_defs (map_spawns (foldl (destroy_mob_entity iter) w as)) = rule_defs (map_spawns w)"
  by (induction as arbitrary: w) (simp_all add: destroy_ok)

lemma for_each_preload_ok:
  assumes "for_each (preload_rule env shared) idxs w = Some w'" "spawns_ok (map_spawns w)" "set idxs \<subseteq> {..<length (rules (map_spawns w))}"
  shows "spawns_ok (map_spawns w') \<and> rule_defs (map_spawns w') = rule_defs (map_spawns w)"
proof -
  have "spawns_ok (map_spawns w') \<and> rule_defs (map_spawns w') = rule_defs (map_spawns w)"
  proof (rule for_each_inv [OF assms(1)])
    fix i v v'
    assume i: "i \<in> set idxs" and v: "spawns_ok (map_spawns v) \<and> rule_defs (map_spawns v) = rule_defs (map_spawns w)"
      and step: "preload_rule env shared i v = Some v'"
    have len: "i < length (rules (map_spawns v))" using i assms(3) v rule_defs_length [of "map_spawns v" "map_spawns w"] by auto
    then have "active_instances (rules (map_spawns v) ! i) \<le> sr_max_count (rs_rule (rules (map_spawns v) ! i))"
      using v spawns_ok_nth by (auto simp: rule_ok_def)
    with fill_rule_ok [OF step [unfolded preload_rule_def Let_def] _ len] v
    show "spawns_ok (map_spawns v') \<and> rule_defs (map_spawns v') = rule_defs (map_spawns w)" by simp
  qed (simp add: assms(2))
  then show ?thesis .
qed

lemma bootstrap_ok:
  assumes "bootstrap_map_runtime env shared rs w = Some w'"
  shows "spawns_ok (map_spawns w') \<and> rule_defs (map_spawns w') = rs"
proof -
  define w0 where "w0 = w\<lparr>map_spawns := \<lparr>rules = map (initial_rule (sim_now w)) rs,
      scheduled_spawns = foldl (\<lambda>h i. insort (sim_now w, i) h) [] [0..<length rs]\<rparr>,
    spatial := Map.empty, replication := graph_default, pending_chats := [], pending_movements := [],
    dirty_public_states := [], map_ready := True\<rparr>"
  have w0: "spawns_ok (map_spawns w0)" "rule_defs (map_spawns w0) = rs" "length (rules (map_spawns w0)) = length rs"
    by (simp_all add: w0_def spawns_ok_def rule_defs_def initial_rule_def rule_ok_def list_all_iff comp_def)
  obtain w1 where w1: "for_each (preload_rule env shared) [0..<length (rules (map_spawns w0))] w0 = Some w1"
    "w' = w1\<lparr>map_spawns := \<lparr>rules = map (respawn_at_update (\<lambda>_. None)) (rules (map_spawns w1)), scheduled_spawns = []\<rparr>\<rparr>"
    using assms unfolding bootstrap_map_runtime_def w0_def [symmetric]
    by (auto simp: preload_map_to_spawn_cap_world_def w0_def split: if_splits)
  have "spawns_ok (map_spawns w1) \<and> rule_defs (map_spawns w1) = rs"
    using for_each_preload_ok [OF w1(1) w0(1)] w0(2) by (simp add: atLeast0LessThan)
  then show ?thesis unfolding w1(2)
    by (auto simp: spawns_ok_def rule_defs_def list_all_iff rule_ok_def comp_def)
qed

text \<open>
  The life of the mobs of a map: at start-up the rules are filled; then ticks follow, each spawning what is due at its
  time and removing the corpses that the tick's facts name.
\<close>

definition spawn_tick :: "SpawnEnv \<Rightarrow> iteration \<Rightarrow> SharedConfig \<Rightarrow> SimInstant \<times> ActorRef list \<Rightarrow> World \<Rightarrow> World exec" where
  "spawn_tick env iter shared tick w =
    map_option (\<lambda>w1. process_cleanup_events iter (w1\<lparr>facts := facts_default\<lparr>f_cleanup_due := snd tick\<rparr>\<rparr>))
      (spawn_rules env shared (w\<lparr>sim_now := fst tick\<rparr>))"

lemma spawn_tick_ok:
  assumes "spawn_tick env iter shared tick w = Some w'" "spawns_ok (map_spawns w)"
  shows "spawns_ok (map_spawns w') \<and> rule_defs (map_spawns w') = rule_defs (map_spawns w)"
proof -
  from assms(1) obtain w1 where w1: "spawn_rules env shared (w\<lparr>sim_now := fst tick\<rparr>) = Some w1"
    "w' = process_cleanup_events iter (w1\<lparr>facts := facts_default\<lparr>f_cleanup_due := snd tick\<rparr>\<rparr>)"
    by (auto simp: spawn_tick_def)
  have "spawns_ok (map_spawns w1) \<and> rule_defs (map_spawns w1) = rule_defs (map_spawns w)"
    using w1(1) assms(2) by (auto simp: spawn_rules_def dest!: spawn_rules_loop_ok split: if_splits)
  then show ?thesis unfolding w1(2) process_cleanup_events_def
    using cleanup_ok [of "w1\<lparr>facts := facts_default\<lparr>f_cleanup_due := snd tick\<rparr>\<rparr>"] by simp
qed

text \<open>
  C15. The population of a rule stays within its cap: whatever dies and whenever, after the start-up and any sequence of
  ticks every rule has at most as many instances as its cap allows, and a rule whose template yields one mob at a time
  has at most that many mobs.
\<close>

theorem spawn_population_within_cap:
  assumes "bootstrap_map_runtime env shared rs w0 = Some w1"
    and "for_each (spawn_tick env iter shared) ticks w1 = Some w" and "i < length rs"
  shows "active_instances (rules (map_spawns w) ! i) \<le> sr_max_count (rs ! i) \<and>
    (single (sr_template (rs ! i)) \<longrightarrow> card (rs_entities (rules (map_spawns w) ! i)) \<le> sr_max_count (rs ! i))"
proof -
  have "spawns_ok (map_spawns w) \<and> rule_defs (map_spawns w) = rs"
    by (rule for_each_inv [OF assms(2)]) (use bootstrap_ok [OF assms(1)] spawn_tick_ok in auto)
  moreover from this have "i < length (rules (map_spawns w))" using assms(3) by (metis length_map rule_defs_def)
  ultimately have "rule_ok (rules (map_spawns w) ! i)" "rs_rule (rules (map_spawns w) ! i) = rs ! i"
    by (auto simp: spawns_ok_nth rule_defs_def)
  then show ?thesis by (auto simp: rule_ok_def)
qed

section \<open>Spawning does not panic and comes to an end\<close>

lemma seed_mob: "seed_rebuild_state (state_new KMob :: (unit, unit) ActorStatState) (SMob mob) = apply_source_seed pvs_new (SMob mob)"
  by (simp add: seed_rebuild_state_def state_new_def ledger_iter_def ledger_default_def bt_values_def)

lemma mob_derived_max_hp:
  assumes "in_i32 (ms_max_hp mob)"
  shows "pvs_get (derived_store roll (SMob mob) (state_new KMob :: (unit, unit) ActorStatState)) MaxHp = ms_max_hp mob"
    "pvs_get (derived_store roll (SMob mob) (state_new KMob :: (unit, unit) ActorStatState)) MaxSp = 0"
    "pvs_get (derived_store roll (SMob mob) (state_new KMob :: (unit, unit) ActorStatState)) MaxStamina = 0"
  unfolding derived_store_def seed_mob rebuild_derived_state_def
  using assms by (simp_all add: rebuild_mob_state_def apply_source_seed_def Let_def wrap_i32_id pvs_get_set pvs_get_add)

lemma mob_public_state_defined:
  assumes "mob_view_limit (ms_balance mob) MovSpeed = Some a" "mob_view_limit (ms_balance mob) AttSpeed = Some b" "0 \<le> a" "0 \<le> b"
  shows "public_state (SMob mob) st \<noteq> None"
  using assms
  by (simp add: public_state_def public_stats_def read_limited_def apply_limit_def clamp_optional_def clamp_Some saturating_u8_def)

lemma mob_stats_defined:
  fixes proto :: MobPrototype and roll :: roll
  assumes "mp_max_hp proto \<le> i32_MAX"
  shows "\<exists>rt. mob_stats_from_proto roll proto = Some rt \<and> hp (resources (rt_state rt)) = max (mp_max_hp proto) 1"
proof -
  obtain mob where src: "mob_source_from_proto proto = SMob mob" and hp: "ms_max_hp mob = max (mp_max_hp proto) 1"
    and bal: "ms_balance mob = default_mob_balance_rules" by (simp add: mob_source_from_proto_def)
  let ?st = "state_new KMob :: (unit, unit) ActorStatState"
  have i32: "in_i32 (ms_max_hp mob)" using assms hp by (simp add: in_i32_iff)
  note caps = mob_derived_max_hp [OF i32, of roll]
  have "caps_nonneg (derived_store roll (SMob mob) ?st)" using caps hp by (simp add: caps_nonneg_def)
  then obtain rep st1 where r: "recompute_report roll (SMob mob) ?st = Some (rep, st1)" using recompute_succeeds by blast
  then obtain r' where "st1 = recomputed roll (SMob mob) ?st r'" by (rule recompute_report_SomeD)
  then have comp: "pvs_get (computed st1) MaxHp = max (mp_max_hp proto) 1" using caps hp by (simp add: recomputed_def)
  have "public_state (SMob mob) st1 \<noteq> None"
    by (rule mob_public_state_defined [where a = 250 and b = 250])
      (simp_all add: bal default_mob_balance_rules_def mob_view_limit_def limits_view_def)
  then have "build_sync (SMob mob) st1 (rep_changes rep) (rep_runtime_dirty rep) \<noteq> None"
    by (cases "rep_runtime_dirty rep \<or> public_stats_changed (rep_changes rep)") (auto simp: build_sync_def)
  then obtain sync where s: "api_sync roll (SMob mob) ?st = Some (sync, st1)"
    using r by (auto simp: api_sync_def)
  have lim: "read_limited (SMob mob) st1 MaxHp = Some (max (mp_max_hp proto) 1)"
    using comp by (simp add: read_limited_def apply_limit_def mob_view_limit_def limits_view_def read_effective_value_def)
  have "\<exists>st2. set_resource st1 Hp (max (mp_max_hp proto) 1) = Some (Inr (max (mp_max_hp proto) 1), st2) \<and> hp (resources st2) = max (mp_max_hp proto) 1"
    using comp by (simp add: set_resource_def current_resource_cap_def clamp_Some put_resource_def set_resource_stat_def resource_slot_def
        resource_put_def record_explicit_change_def)
  then show ?thesis
    using s lim src by (auto simp: mob_stats_from_proto_def with_api_mut_def runtime_new_def api_new_def state_new_def)
qed

definition shared_ok :: "SharedConfig \<Rightarrow> bool" where
  "shared_ok shared \<longleftrightarrow> (\<forall>m p. sc_mobs shared m = Some p \<longrightarrow> mp_max_hp p \<le> i32_MAX)"

lemma mob_stats_not_None: "mob_stats_from_proto roll p = None \<Longrightarrow> i32_MAX < mp_max_hp p"
  using mob_stats_defined [of p roll] by force

lemma spawn_one_mob_total: "spawn_one_mob env shared mob_id pos rot pack_id w = None \<Longrightarrow> \<not> shared_ok shared"
  by (fastforce simp: spawn_one_mob_def shared_ok_def dest: mob_stats_not_None split: option.splits prod.splits)

lemma spawn_members_total: "shared_ok shared \<Longrightarrow> spawn_members env shared rule pack_id ms previous spawned w \<noteq> None"
proof (induction ms arbitrary: previous spawned w)
  case (Cons m ms)
  then show ?case by (auto simp: Let_def dest: spawn_one_mob_total split: option.splits prod.splits)
qed simp

lemma spawn_one_template_total: "shared_ok shared \<Longrightarrow> spawn_one_template env shared rule w \<noteq> None"
  unfolding spawn_one_template_def Let_def using spawn_members_total by (auto split: prod.splits)

lemma fill_rule_total: "shared_ok shared \<Longrightarrow> fill_rule env shared idx rule budget w \<noteq> None"
proof (induction budget arbitrary: w)
  case (Suc budget)
  then show ?case using spawn_one_template_total [of shared env rule w] by (auto split: option.splits)
qed simp

lemma fill_rule_frame:
  "fill_rule env shared idx rule budget w = Some w' \<Longrightarrow>
    scheduled_spawns (map_spawns w') = scheduled_spawns (map_spawns w) \<and> sim_now w' = sim_now w"
proof (induction budget arbitrary: w)
  case (Suc budget)
  then show ?case
    by (auto simp: same_spawns_def add_instance_def set_rule_def Let_def split: option.splits if_splits
        dest!: spawn_one_template_spawns Suc.IH)
qed simp

definition due_count :: "SimInstant \<Rightarrow> MapSpawnRules \<Rightarrow> nat" where
  "due_count now ms = length (filter (\<lambda>p. fst p \<le> now) (scheduled_spawns ms))"

definition sched_ok :: "MapSpawnRules \<Rightarrow> bool" where
  "sched_ok ms \<longleftrightarrow> sorted (scheduled_spawns ms)"

lemma due_insort: "length (filter P (insort x xs)) = length (filter P xs) + (if P x then 1 else 0)"
  by (induction xs) auto

lemma settle_due:
  assumes "0 \<le> now" "now < u64_MAX"
  shows "due_count now (settle_rule idx now ms) = due_count now ms" "sched_ok ms \<Longrightarrow> sched_ok (settle_rule idx now ms)"
  using assms by (simp_all add: settle_rule_def due_count_def sched_ok_def push_spawn_def set_rule_def Let_def sim_add_exact
      due_insort sorted_insort)

lemma take_due_count:
  assumes "take_due now ms = Some ((idx, b), ms')"
  shows "due_count now ms = Suc (due_count now ms')" "sched_ok ms \<Longrightarrow> sched_ok ms'"
  using assms by (auto simp: take_due_def due_count_def sched_ok_def set_rule_def Let_def split: list.splits if_splits)

lemma take_due_None:
  assumes "take_due now ms = None" "sched_ok ms"
  shows "\<forall>p\<in>set (scheduled_spawns ms). now < fst p"
  using assms by (fastforce simp: take_due_def sched_ok_def Let_def less_eq_prod_def split: list.splits if_splits)

lemma spawn_rule_now_total:
  assumes "shared_ok shared" "0 \<le> sim_now w" "sim_now w < u64_MAX"
  shows "\<exists>w'. spawn_rule_now env shared idx w = Some w' \<and> sim_now w' = sim_now w \<and>
    due_count (sim_now w) (map_spawns w') = due_count (sim_now w) (map_spawns w) \<and>
    (sched_ok (map_spawns w) \<longrightarrow> sched_ok (map_spawns w'))"
proof -
  let ?r = "rules (map_spawns w) ! idx"
  obtain w1 where w1: "fill_rule env shared idx (rs_rule ?r) (sr_max_count (rs_rule ?r) - active_instances ?r) w = Some w1"
    using fill_rule_total [OF assms(1)] by blast
  note frame = fill_rule_frame [OF w1]
  have same: "due_count (sim_now w) (map_spawns w1) = due_count (sim_now w) (map_spawns w)" "sched_ok (map_spawns w1) = sched_ok (map_spawns w)"
    using frame by (simp_all add: due_count_def sched_ok_def)
  show ?thesis
    using w1 frame same settle_due [OF assms(2,3), where idx = idx and ms = "map_spawns w1"] by (simp add: spawn_rule_now_def Let_def)
qed

lemma preload_total:
  assumes "shared_ok shared" "map_ready w"
  shows "\<exists>w'. preload_map_to_spawn_cap_world env shared w = Some w' \<and> scheduled_spawns (map_spawns w') = []"
proof -
  have "\<exists>w'. for_each (preload_rule env shared) idxs w = Some w'" for idxs
    using for_each_total [where I = "\<lambda>_. True" and f = "preload_rule env shared"] fill_rule_total [OF assms(1)]
    by (fastforce simp: preload_rule_def Let_def)
  with assms(2) show ?thesis by (force simp: preload_map_to_spawn_cap_world_def)
qed

text \<open>
  C17. Spawning comes to an end and leaves nothing due: with prototypes whose hit points fit their type and before time is
  exhausted, the loop over the schedule returns without a panic, and every entry that is left lies in the future.
\<close>

theorem spawn_rules_returns:
  assumes "shared_ok shared" "sched_ok (map_spawns w)" "0 \<le> sim_now w" "sim_now w < u64_MAX" "map_ready w"
  shows "\<exists>w'. spawn_rules env shared w = Some w' \<and> sim_now w' = sim_now w \<and>
    sched_ok (map_spawns w') \<and> (\<forall>p\<in>set (scheduled_spawns (map_spawns w')). sim_now w < fst p)"
proof -
  have "\<exists>w'. spawn_rules_loop env shared w = Some w' \<and> sim_now w' = sim_now w \<and>
    sched_ok (map_spawns w') \<and> (\<forall>p\<in>set (scheduled_spawns (map_spawns w')). sim_now w < fst p)"
    using assms(2-4)
  proof (induction "due_count (sim_now w) (map_spawns w)" arbitrary: w rule: less_induct)
    case less
    show ?case
    proof (cases "take_due (sim_now w) (map_spawns w)")
      case None
      with take_due_None [OF None less.prems(1)] less.prems show ?thesis by (subst spawn_rules_loop.simps) simp
    next
      case (Some p)
      obtain idx b ms where p: "p = ((idx, b), ms)" by (metis prod.exhaust)
      note cnt = take_due_count [OF Some [unfolded p]]
      let ?w1 = "w\<lparr>map_spawns := ms\<rparr>"
      obtain w2 where w2: "(if b then spawn_rule_now env shared idx ?w1 else Some ?w1) = Some w2"
        "sim_now w2 = sim_now w" "due_count (sim_now w) (map_spawns w2) = due_count (sim_now w) ms" "sched_ok (map_spawns w2)"
        using spawn_rule_now_total [OF assms(1), of ?w1 env idx] less.prems cnt by (cases b) auto
      have "spawn_rules_loop env shared w = spawn_rules_loop env shared w2"
        using Some p w2(1) by (subst spawn_rules_loop.simps) (simp add: Let_def)
      with less.hyps [of w2] w2(2-4) cnt less.prems show ?thesis by simp
    qed
  qed
  with assms(5) show ?thesis by (simp add: spawn_rules_def)
qed

section \<open>Groups\<close>





section \<open>Witnesses\<close>

definition quiet_env :: SpawnEnv where
  "quiet_env = \<lparr>env_ticket = (\<lambda>n total. (1, n)), env_place = (\<lambda>n rule prev. (Some ((0, 0), 0), n)),
    env_between = (\<lambda>n lo hi. (lo, n)), env_fresh = (\<lambda>w. Suc (sum_list (entities w))), env_roll = (\<lambda>_ _ _ _. 0)\<rparr>"

definition dog :: MobPrototype where
  "dog = \<lparr>mp_kind = MkMonster, mp_name = [], mp_empire = None, mp_level = 1, mp_move_speed = 100, mp_attack_speed = 100, mp_strength = 3, mp_dexterity = 6, mp_vitality = 5,
    mp_intelligence = 2, mp_max_hp = 126, mp_defense = 4, mp_can_wander = False, mp_damage_min = 20, mp_damage_max = 24,
    mp_damage_multiplier = 0, mp_experience = 15\<rparr>"

definition dog_config :: SharedConfig where
  "dog_config = \<lparr>sc_mobs = [101 \<mapsto> dog], sc_player_stats = \<lparr>class_stats = [], level_exp = []\<rparr>,
    sc_pause_idle_min = 0, sc_pause_idle_max = 0\<rparr>"

definition dog_rule :: SpawnRule where
  "dog_rule = \<lparr>sr_template = TmMob 101, sr_max_count = 3, sr_regen_time = from_secs 10\<rparr>"

lemma quiet_env_ok: "env_ok quiet_env"
proof -
  have "Suc (sum_list xs) \<notin> set xs" for xs :: "nat list"
    using member_le_sum_list [of _ xs] by fastforce
  then show ?thesis by (simp add: env_ok_def quiet_env_def)
qed

lemma dog_config_ok: "shared_ok dog_config"
  by (simp add: shared_ok_def dog_config_def dog_def)

lemma dog_bootstrap:
  "\<exists>w. bootstrap_map_runtime quiet_env dog_config [dog_rule] empty_world = Some w \<and> scheduled_spawns (map_spawns w) = []"
  unfolding bootstrap_map_runtime_def by (rule preload_total [OF dog_config_ok]) simp

theorem spawn_rules_returns_witness:
  "\<exists>w'. spawn_rules quiet_env dog_config
     (empty_world\<lparr>map_ready := True, sim_now := 500, map_spawns := \<lparr>rules = [initial_rule 0 dog_rule], scheduled_spawns = [(0, 0), (7, 4)]\<rparr>\<rparr>) =
      Some w' \<and> (\<forall>p\<in>set (scheduled_spawns (map_spawns w')). 500 < fst p)"
  using spawn_rules_returns [OF dog_config_ok,
    of "empty_world\<lparr>map_ready := True, sim_now := 500, map_spawns := \<lparr>rules = [initial_rule 0 dog_rule], scheduled_spawns = [(0, 0), (7, 4)]\<rparr>\<rparr>" quiet_env]
  by (auto simp: sched_ok_def)

theorem spawn_population_within_cap_witness:
  "\<exists>w. bootstrap_map_runtime quiet_env dog_config [dog_rule] empty_world = Some w \<and>
    card (rs_entities (rules (map_spawns w) ! 0)) \<le> 3"
proof -
  obtain w where w: "bootstrap_map_runtime quiet_env dog_config [dog_rule] empty_world = Some w" using dog_bootstrap by blast
  from spawn_population_within_cap [OF w, of undefined "[]" w 0] have "card (rs_entities (rules (map_spawns w) ! 0)) \<le> 3"
    by (simp add: dog_rule_def single_def)
  with w show ?thesis by blast
qed



end
