(* ===== verification/F32.thy ===== *)
theory F32
  imports Complex_Main "HOL-Library.Log_Nat" Rust_Prelude
begin

text \<open>
  Single-precision arithmetic, as the sources use it: a value is a rational number, an infinity or NaN, and every
  operation rounds its exact result to the nearest of the numbers with a significand of 24 bits, ties to even, with
  gradual underflow and overflow to infinity.  The sign of a zero is not kept: no code modelled on top of this theory
  divides by a zero that could be negative.  Rounding is proved exact on integers below \<open>2 ^ 24\<close> and monotone.
\<close>

section \<open>Rounding\<close>

definition floor_log2 :: "rat \<Rightarrow> int" where
  "floor_log2 x =
    (let (n, d) = quotient_of x; e = bitlen n - bitlen d in if 2 powi e \<le> x then e else e - 1)"

definition f32_quantum :: "rat \<Rightarrow> int" where
  "f32_quantum x = max (floor_log2 x - 23) (- 149)"

definition round_even :: "rat \<Rightarrow> int" where
  "round_even q =
    (let f = \<lfloor>q\<rfloor>; r = q - of_int f
     in if r < 1 / 2 then f else if 1 / 2 < r then f + 1 else if even f then f else f + 1)"

definition f32_round :: "rat \<Rightarrow> rat" where
  "f32_round x = (if x = 0 then 0 else let u = 2 powi f32_quantum \<bar>x\<bar> in of_int (round_even (x / u)) * u)"

section \<open>Values and operations\<close>

text \<open>The flag of an infinity is its sign, true for negative.\<close>

datatype F32 = Fin rat | Inf bool | NaN

definition fin :: "rat \<Rightarrow> F32" where
  "fin x = (let y = f32_round x in if 2 ^ 128 \<le> \<bar>y\<bar> then Inf (y < 0) else Fin y)"

definition f32_of_int :: "int \<Rightarrow> F32" where
  "f32_of_int i = fin (of_int i)"

definition f32_of_bits :: "u32 \<Rightarrow> F32" where
  "f32_of_bits b =
    (let negative = (2147483648 \<le> b); ex = (b div 8388608) mod 256; man = b mod 8388608;
         sg = (if negative then - 1 else 1 :: rat)
     in if ex = 255 then (if man = 0 then Inf negative else NaN)
        else if ex = 0 then Fin (sg * of_int man * 2 powi - 149)
        else Fin (sg * of_int (8388608 + man) * 2 powi (ex - 150)))"

definition f32_neg :: "F32 \<Rightarrow> F32" where
  "f32_neg x = (case x of Fin a \<Rightarrow> Fin (- a) | Inf s \<Rightarrow> Inf (\<not> s) | NaN \<Rightarrow> NaN)"

definition f32_add :: "F32 \<Rightarrow> F32 \<Rightarrow> F32" where
  "f32_add x y =
    (case (x, y) of
       (Fin a, Fin b) \<Rightarrow> fin (a + b)
     | (NaN, _) \<Rightarrow> NaN
     | (_, NaN) \<Rightarrow> NaN
     | (Inf s, Inf t) \<Rightarrow> if s = t then Inf s else NaN
     | (Inf s, Fin _) \<Rightarrow> Inf s
     | (Fin _, Inf s) \<Rightarrow> Inf s)"

definition f32_sub :: "F32 \<Rightarrow> F32 \<Rightarrow> F32" where
  "f32_sub x y = f32_add x (f32_neg y)"

definition f32_mul :: "F32 \<Rightarrow> F32 \<Rightarrow> F32" where
  "f32_mul x y =
    (case (x, y) of
       (Fin a, Fin b) \<Rightarrow> fin (a * b)
     | (NaN, _) \<Rightarrow> NaN
     | (_, NaN) \<Rightarrow> NaN
     | (Inf s, Inf t) \<Rightarrow> Inf (s \<noteq> t)
     | (Inf s, Fin b) \<Rightarrow> if b = 0 then NaN else Inf (s \<noteq> (b < 0))
     | (Fin a, Inf s) \<Rightarrow> if a = 0 then NaN else Inf (s \<noteq> (a < 0)))"

definition f32_div :: "F32 \<Rightarrow> F32 \<Rightarrow> F32" where
  "f32_div x y =
    (case (x, y) of
       (Fin a, Fin b) \<Rightarrow> if b \<noteq> 0 then fin (a / b) else if a = 0 then NaN else Inf (a < 0)
     | (NaN, _) \<Rightarrow> NaN
     | (_, NaN) \<Rightarrow> NaN
     | (Inf s, Inf t) \<Rightarrow> NaN
     | (Inf s, Fin b) \<Rightarrow> Inf (s \<noteq> (b < 0))
     | (Fin a, Inf s) \<Rightarrow> Fin 0)"

definition f32_max :: "F32 \<Rightarrow> F32 \<Rightarrow> F32" where
  "f32_max x y =
    (case (x, y) of
       (NaN, _) \<Rightarrow> y
     | (_, NaN) \<Rightarrow> x
     | (Inf s, _) \<Rightarrow> if s then y else x
     | (_, Inf s) \<Rightarrow> if s then x else y
     | (Fin a, Fin b) \<Rightarrow> Fin (max a b))"

definition f32_is_finite :: "F32 \<Rightarrow> bool" where
  "f32_is_finite x = (case x of Fin _ \<Rightarrow> True | _ \<Rightarrow> False)"

text \<open>The cast to \<^verbatim>\<open>i32\<close> truncates and saturates; NaN becomes zero.\<close>

definition rat_trunc :: "rat \<Rightarrow> int" where
  "rat_trunc a = (if 0 \<le> a then \<lfloor>a\<rfloor> else - \<lfloor>- a\<rfloor>)"

definition f32_to_i32 :: "F32 \<Rightarrow> i32" where
  "f32_to_i32 x = (case x of Fin a \<Rightarrow> sat_s 32 (rat_trunc a) | Inf s \<Rightarrow> if s then i32_MIN else i32_MAX | NaN \<Rightarrow> 0)"

lemma f32_ops_Fin [simp]:
  "f32_add (Fin a) (Fin b) = fin (a + b)" "f32_sub (Fin a) (Fin b) = fin (a - b)" "f32_mul (Fin a) (Fin b) = fin (a * b)"
  "b \<noteq> 0 \<Longrightarrow> f32_div (Fin a) (Fin b) = fin (a / b)" "f32_max (Fin a) (Fin b) = Fin (max a b)"
  "f32_to_i32 (Fin a) = sat_s 32 (rat_trunc a)" "f32_is_finite (Fin a)"
  by (simp_all add: f32_add_def f32_sub_def f32_neg_def f32_mul_def f32_div_def f32_max_def f32_to_i32_def f32_is_finite_def)

section \<open>Facts about rounding\<close>

lemma floor_log2_bounds:
  assumes "0 < x"
  shows "2 powi floor_log2 x \<le> x" "x < 2 powi (floor_log2 x + 1)"
proof -
  obtain n d where q: "quotient_of x = (n, d)" by (cases "quotient_of x")
  have d: "0 < d" using quotient_of_denom_pos [OF q] .
  have x: "x = of_int n / of_int d" using quotient_of_div [OF q] .
  have n: "0 < n" using assms d x by (simp add: zero_less_divide_iff)
  define a b where "a = bitlen n" and "b = bitlen d"
  have ab: "1 \<le> a" "1 \<le> b" using n d by (auto simp: a_def b_def bitlen_alt_def)
  have pw: "2 powi int k = (2 ^ k :: rat)" for k by simp
  have ln: "2 powi (a - 1) \<le> (of_int n :: rat)" "of_int n < (2 powi a :: rat)"
    and ld: "2 powi (b - 1) \<le> (of_int d :: rat)" "of_int d < (2 powi b :: rat)"
  proof -
    have "2 powi (bitlen m - 1) \<le> (of_int m :: rat) \<and> of_int m < (2 powi bitlen m :: rat)" if m: "0 < m" for m
    proof -
      have 1: "1 \<le> bitlen m" using m by (auto simp: bitlen_alt_def)
      have "(2 ^ nat (bitlen m - 1) :: int) \<le> m \<and> m < 2 ^ nat (bitlen m)" using bitlen_bounds [OF m] .
      then have "(of_int (2 ^ nat (bitlen m - 1)) :: rat) \<le> of_int m \<and> of_int m < (of_int (2 ^ nat (bitlen m)) :: rat)"
        by (simp only: of_int_le_iff of_int_less_iff)
      then show ?thesis using 1 by (simp add: power_int_def)
    qed
    then show "2 powi (a - 1) \<le> (of_int n :: rat)" "of_int n < (2 powi a :: rat)"
      "2 powi (b - 1) \<le> (of_int d :: rat)" "of_int d < (2 powi b :: rat)"
      using n d by (auto simp: a_def b_def)
  qed
  have "2 powi (a - b - 1) * of_int d \<le> (2 powi (a - b - 1) * 2 powi b :: rat)"
    using ld(2) by (intro mult_left_mono) simp_all
  also have "\<dots> = 2 powi (a - 1)" by (simp flip: power_int_add)
  finally have lo: "2 powi (a - b - 1) \<le> x" using ln(1) d by (simp add: x pos_le_divide_eq)
  have "(2 powi a :: rat) = 2 powi (a - b + 1) * 2 powi (b - 1)" by (simp flip: power_int_add)
  also have "\<dots> \<le> 2 powi (a - b + 1) * of_int d" using ld(1) by (intro mult_left_mono) simp_all
  finally have hi: "x < 2 powi (a - b + 1)" using ln(2) d by (simp add: x pos_divide_less_eq)
  show "2 powi floor_log2 x \<le> x" "x < 2 powi (floor_log2 x + 1)"
    using lo hi by (auto simp: floor_log2_def q Let_def simp flip: a_def b_def)
qed

lemma round_even_bounds: "\<lfloor>q\<rfloor> \<le> round_even q \<and> round_even q \<le> \<lfloor>q\<rfloor> + 1"
  by (simp add: round_even_def Let_def)

lemma round_even_int [simp]: "round_even (of_int k) = k"
  by (simp add: round_even_def)

lemma round_even_mono: "p \<le> q \<Longrightarrow> round_even p \<le> round_even q"
proof (cases "\<lfloor>p\<rfloor> = \<lfloor>q\<rfloor>")
  case True
  assume "p \<le> q"
  with True show ?thesis by (auto simp: round_even_def Let_def)
next
  case False
  assume "p \<le> q"
  then have "\<lfloor>p\<rfloor> \<le> \<lfloor>q\<rfloor>" by (rule floor_mono)
  with False have "\<lfloor>p\<rfloor> + 1 \<le> \<lfloor>q\<rfloor>" by simp
  with round_even_bounds [of p] round_even_bounds [of q] show ?thesis by linarith
qed

lemma floor_log2_mono:
  assumes "0 < x" "x \<le> y"
  shows "floor_log2 x \<le> floor_log2 y"
proof (rule ccontr)
  assume "\<not> floor_log2 x \<le> floor_log2 y"
  then have "(2 powi (floor_log2 y + 1) :: rat) \<le> 2 powi floor_log2 x"
    by (intro power_int_increasing) auto
  with floor_log2_bounds [of x] floor_log2_bounds [of y] assms show False by linarith
qed

lemma f32_round_pos: "0 < x \<Longrightarrow> f32_round x = of_int (round_even (x / 2 powi f32_quantum x)) * 2 powi f32_quantum x"
  by (simp add: f32_round_def Let_def)

lemma f32_round_grid:
  assumes "0 < x" "x = of_int m * 2 powi f32_quantum x"
  shows "f32_round x = x"
proof -
  have "x / 2 powi f32_quantum x = of_int m" using assms(2) by (metis nonzero_mult_div_cancel_right power_int_eq_0_iff zero_neq_numeral)
  with assms show ?thesis by (simp add: f32_round_pos)
qed

lemma scaled_power: "0 \<le> n - k \<Longrightarrow> (2 powi n :: rat) / 2 powi k = of_int (2 ^ nat (n - k))"
proof -
  assume "0 \<le> n - k"
  then have "2 powi (n - k) = (of_int (2 ^ nat (n - k)) :: rat)" by (simp add: power_int_def)
  moreover have "2 powi (n - k) = (2 powi n / 2 powi k :: rat)" by (rule power_int_diff) simp
  ultimately show ?thesis by simp
qed

lemma f32_round_mono_pos:
  assumes "0 < x" "x \<le> y"
  shows "f32_round x \<le> f32_round y"
proof -
  define a b where "a = f32_quantum x" and "b = f32_quantum y"
  have y: "0 < y" using assms by simp
  have le: "a \<le> b" using floor_log2_mono [OF assms] by (simp add: a_def b_def f32_quantum_def)
  show ?thesis
  proof (cases "a = b")
    case True
    have "x / 2 powi a \<le> y / 2 powi a" using assms by (intro divide_right_mono) simp_all
    then have "round_even (x / 2 powi a) \<le> round_even (y / 2 powi a)" by (rule round_even_mono)
    then show ?thesis using True assms y by (simp add: f32_round_pos flip: a_def b_def)
  next
    case False
    let ?e = "floor_log2 y"
    have b: "b = ?e - 23" and ae: "a < ?e" "floor_log2 x < ?e"
      using False le floor_log2_mono [OF assms] by (auto simp: a_def b_def f32_quantum_def)
    have "(2 powi (floor_log2 x + 1) :: rat) \<le> 2 powi ?e" using ae by (intro power_int_increasing) auto
    then have "x / 2 powi a \<le> 2 powi ?e / 2 powi a"
      using floor_log2_bounds(2) [OF assms(1)] by (intro divide_right_mono) simp_all
    moreover have ea: "(2 powi ?e :: rat) / 2 powi a = of_int (2 ^ nat (?e - a))" using ae(1) by (intro scaled_power) simp
    ultimately have "round_even (x / 2 powi a) \<le> round_even (of_int (2 ^ nat (?e - a)))"
      by (intro round_even_mono) (simp only:)
    then have "of_int (round_even (x / 2 powi a)) \<le> (2 powi ?e :: rat) / 2 powi a"
      unfolding ea round_even_int by (simp only: of_int_le_iff)
    then have "of_int (round_even (x / 2 powi a)) * 2 powi a \<le> (2 powi ?e :: rat)" by (simp add: pos_le_divide_eq)
    moreover have "2 powi ?e \<le> of_int (round_even (y / 2 powi b)) * (2 powi b :: rat)"
    proof -
      have "(2 powi ?e :: rat) / 2 powi b \<le> y / 2 powi b"
        using floor_log2_bounds(1) [OF y] by (intro divide_right_mono) simp_all
      moreover have eb: "(2 powi ?e :: rat) / 2 powi b = of_int (2 ^ nat (?e - b))" using b by (intro scaled_power) simp
      ultimately have "round_even (of_int (2 ^ nat (?e - b))) \<le> round_even (y / 2 powi b)"
        by (intro round_even_mono) (simp only:)
      then have "(2 powi ?e :: rat) / 2 powi b \<le> of_int (round_even (y / 2 powi b))"
        unfolding eb round_even_int by (simp only: of_int_le_iff)
      then show ?thesis by (simp add: pos_divide_le_eq)
    qed
    ultimately show ?thesis using assms y by (simp add: f32_round_pos flip: a_def b_def)
  qed
qed

lemma f32_round_nonneg: "0 \<le> x \<Longrightarrow> 0 \<le> f32_round x"
proof (cases "x = 0")
  case False
  assume "0 \<le> x"
  with False have "0 < x" by simp
  moreover from this have "0 \<le> x / 2 powi f32_quantum x" by (simp add: less_imp_le)
  then have "0 \<le> round_even (x / 2 powi f32_quantum x)" using round_even_bounds [of "x / 2 powi f32_quantum x"]
    by (meson order_trans zero_le_floor)
  ultimately show ?thesis by (simp add: f32_round_pos)
qed (simp add: f32_round_def)

lemma f32_round_mono: "0 \<le> x \<Longrightarrow> x \<le> y \<Longrightarrow> f32_round x \<le> f32_round y"
  using f32_round_mono_pos [of x y] f32_round_nonneg [of y] by (cases "x = 0") (simp_all add: f32_round_def)

lemma f32_round_int:
  assumes "0 \<le> i" "i < 2 ^ 24"
  shows "f32_round (of_int i) = of_int i"
proof (cases "i = 0")
  case False
  then have pos: "(0 :: rat) < of_int i" using assms by simp
  have "floor_log2 (of_int i) < 24"
  proof (rule ccontr)
    assume "\<not> floor_log2 (of_int i) < 24"
    then have "(2 powi 24 :: rat) \<le> 2 powi floor_log2 (of_int i)" by (intro power_int_increasing) auto
    then have "(2 ^ 24 :: rat) \<le> of_int i" using floor_log2_bounds(1) [OF pos] by simp
    then show False using assms(2) by simp
  qed
  then have q: "f32_quantum (of_int i) \<le> 0" by (simp add: f32_quantum_def)
  have "(2 powi - f32_quantum (of_int i) :: rat) = of_int (2 ^ nat (- f32_quantum (of_int i)))"
    using q by (simp add: power_int_def)
  then have "of_int (2 ^ nat (- f32_quantum (of_int i))) * 2 powi f32_quantum (of_int i) =
      (2 powi - f32_quantum (of_int i) * 2 powi f32_quantum (of_int i) :: rat)" by (simp only:)
  also have "\<dots> = 1" by (simp add: power_int_minus)
  finally have "(of_int i :: rat) = of_int (i * 2 ^ nat (- f32_quantum (of_int i))) * 2 powi f32_quantum (of_int i)"
    by (simp add: mult.assoc)
  with pos show ?thesis by (rule f32_round_grid)
qed (simp add: f32_round_def)

lemma fin_small:
  assumes "0 \<le> x" "x \<le> of_int i" "i < 2 ^ 24"
  shows "fin x = Fin (f32_round x)" "f32_round x \<le> of_int i"
proof -
  have i: "0 \<le> i" using assms(1,2) by (metis of_int_0_le_iff order_trans)
  show le: "f32_round x \<le> of_int i" using f32_round_mono [OF assms(1,2)] f32_round_int [OF i assms(3)] by simp
  have "(of_int i :: rat) < 2 ^ 24" using assms(3) by (metis of_int_less_iff of_int_numeral of_int_power)
  then have "f32_round x < 2 ^ 128" using le by simp
  then show "fin x = Fin (f32_round x)" using f32_round_nonneg [OF assms(1)] by (simp add: fin_def Let_def)
qed

lemma f32_of_int_exact: "0 \<le> i \<Longrightarrow> i < 2 ^ 24 \<Longrightarrow> f32_of_int i = Fin (of_int i)"
  using fin_small(1) [of "of_int i" i] f32_round_int [of i] by (simp add: f32_of_int_def)

text \<open>Rounding is symmetric.\<close>

lemma round_even_minus: "round_even (- q) = - round_even q"
proof (cases "q = of_int \<lfloor>q\<rfloor>")
  case True
  have "\<lfloor>- q\<rfloor> = - \<lfloor>q\<rfloor>" using True by (metis floor_of_int of_int_minus)
  then show ?thesis using True by (simp add: round_even_def Let_def)
next
  case False
  then have "of_int \<lfloor>q\<rfloor> < q" using of_int_floor_le [of q] by linarith
  then have "\<lfloor>- q\<rfloor> = - \<lfloor>q\<rfloor> - 1" using floor_correct [of q] by (intro floor_unique) auto
  then show ?thesis by (auto simp: round_even_def Let_def)
qed

lemma f32_round_minus: "f32_round (- x) = - f32_round x"
  using round_even_minus [of "x / 2 powi f32_quantum \<bar>x\<bar>"] by (simp add: f32_round_def Let_def)

lemma fin_small_neg:
  assumes "0 \<le> x" "x \<le> of_int i" "i < 2 ^ 24"
  shows "fin (- x) = Fin (- f32_round x)"
  using fin_small [OF assms] f32_round_nonneg [OF assms(1)] by (simp add: fin_def Let_def f32_round_minus split: if_splits)

lemma f32_of_int_exact_neg: "0 \<le> i \<Longrightarrow> i < 2 ^ 24 \<Longrightarrow> f32_of_int (- i) = Fin (- of_int i)"
  using fin_small_neg [of "of_int i" i] f32_round_int [of i] by (simp add: f32_of_int_def)

end
