(* ===== verification/Attack_Timing.thy ===== *)
theory Attack_Timing
  imports F32 Map_World
begin

text \<open>
  When an attack of a mob takes effect (\<^verbatim>\<open>zohar-gameplay/src/combat/timing.rs\<close>,
  \<^verbatim>\<open>runtime/rules/combat.rs\<close>): the timing table built from the motions of the mobs, the timing of one attack,
  and the gate between two attacks.  The table is a map; the hash maps of the code are only iterated to fill it, and
  each entry writes a key of its own.
\<close>

section \<open>Timing of an attack\<close>

datatype MobBattleType = Melee | Range | Magic | Special | BtPower | Tanker | SuperPower | SuperTanker

datatype MobAttackProcTiming = MeleeProc (damage_delay_ms: u32) | ProjectileProc u32 FlyTiming

record MobAttackTiming =
  mat_proc :: MobAttackProcTiming
  mat_duration_ms :: u32

definition DEFAULT_PROJECTILE :: FlyTiming where
  "DEFAULT_PROJECTILE = \<lparr>init_vel_units_per_sec = 200, forward_accel_units_per_sec2 = 0, bomb_range_units = 10\<rparr>"

definition FALLBACK_PROJECTILE :: FlyTiming where
  "FALLBACK_PROJECTILE = \<lparr>init_vel_units_per_sec = 3000, forward_accel_units_per_sec2 = 0, bomb_range_units = 10\<rparr>"

definition uses_projectile_attack :: "MobBattleType \<Rightarrow> bool" where
  "uses_projectile_attack bt \<longleftrightarrow> bt = Range \<or> bt = Magic"

datatype AttackDamageTiming = TimingImmediate | TimingDelayedMs u32 | TimingProjectile u32 FlyTiming

record MobAttackEffectTiming =
  et_duration_ms :: u32
  et_damage :: AttackDamageTiming
  et_set_target :: bool

definition mob_attack_effect_timing :: "MobBattleType \<Rightarrow> MobAttackTiming option \<Rightarrow> u32 \<Rightarrow> MobAttackEffectTiming" where
  "mob_attack_effect_timing battle_type authored fallback_duration_ms =
    (case authored of
       Some timing \<Rightarrow>
         (case mat_proc timing of
            MeleeProc delay \<Rightarrow>
              \<lparr>et_duration_ms = mat_duration_ms timing,
               et_damage = (if delay = 0 then TimingImmediate else TimingDelayedMs delay),
               et_set_target = uses_projectile_attack battle_type\<rparr>
          | ProjectileProc release flight \<Rightarrow>
              \<lparr>et_duration_ms = mat_duration_ms timing, et_damage = TimingProjectile release flight, et_set_target = True\<rparr>)
     | None \<Rightarrow>
         (let windup_ms = max 200 (min 600 (fallback_duration_ms div 2))
          in if uses_projectile_attack battle_type
             then \<lparr>et_duration_ms = fallback_duration_ms, et_damage = TimingProjectile windup_ms FALLBACK_PROJECTILE,
                   et_set_target = True\<rparr>
             else \<lparr>et_duration_ms = fallback_duration_ms, et_damage = TimingDelayedMs windup_ms, et_set_target = False\<rparr>))"

definition attack_damage_schedule :: "MobAttackEffectTiming \<Rightarrow> AttackDamageSchedule" where
  "attack_damage_schedule t =
    (case et_damage t of
       TimingImmediate \<Rightarrow> Immediate
     | TimingDelayedMs delay \<Rightarrow> Delayed delay
     | TimingProjectile release flight \<Rightarrow> Projectile release flight)"

definition speed_scaled_action_duration_ms :: "int \<Rightarrow> u32 \<Rightarrow> u32" where
  "speed_scaled_action_duration_ms speed base_ms =
    (let s = max speed 1;
         duration_percent = (if s < 100 then 200 - s else if s = 100 then 100 else 10000 div s)
     in sat_u 32 (base_ms * duration_percent) div 100)"

record RuntimeAttackTiming =
  attack_gate :: SimDuration
  fallback_action_duration :: u32

definition attack_timing_for_mob :: "u8 \<Rightarrow> RuntimeAttackTiming" where
  "attack_timing_for_mob mob_attack_speed =
    \<lparr>attack_gate = speed_scaled_action_duration_ms mob_attack_speed 2000, fallback_action_duration = 2000\<rparr>"

section \<open>The table\<close>

record MobAttackMotion =
  mm_motion_id :: i64
  mm_mob_id :: MobId
  mm_weight :: i64
  mm_duration_ms :: i64

record MotionHitWindow =
  hw_motion_id :: i64
  hw_start_ms :: i64
  hw_end_ms :: "i64 option"

record MotionFlyEvent =
  fe_motion_id :: i64
  fe_release_ms :: i64
  fe_fly_file :: "u8 list option"

record MotionFlyData =
  fd_fly_file :: "u8 list"
  fd_init_vel :: F32
  fd_bomb_range :: F32
  fd_accel_y :: F32

record MotionHit =
  mh_start_ms :: u32
  mh_end_ms :: u32

record MeleeAccumulator =
  latest_start_ms :: u32
  earliest_end_ms :: "u32 option"
  weighted_start_sum :: int
  total_weight :: int
  melee_max_duration_ms :: u32

definition melee_default :: MeleeAccumulator where
  "melee_default = \<lparr>latest_start_ms = 0, earliest_end_ms = None, weighted_start_sum = 0, total_weight = 0, melee_max_duration_ms = 0\<rparr>"

definition clamp_duration :: "i64 \<Rightarrow> u32" where
  "clamp_duration d = max 0 (min u32_MAX d)"

definition melee_push :: "MeleeAccumulator \<Rightarrow> MotionHit \<times> i64 \<times> i64 \<Rightarrow> MeleeAccumulator" where
  "melee_push acc = (\<lambda>(hit, weight, duration_ms).
    (let w = max weight 1
     in acc\<lparr>latest_start_ms := max (latest_start_ms acc) (mh_start_ms hit),
            earliest_end_ms := Some (case earliest_end_ms acc of None \<Rightarrow> mh_end_ms hit | Some e \<Rightarrow> min e (mh_end_ms hit)),
            weighted_start_sum := wrap_u 128 (weighted_start_sum acc + mh_start_ms hit * w),
            total_weight := wrap_u 128 (total_weight acc + w),
            melee_max_duration_ms := max (melee_max_duration_ms acc) (clamp_duration duration_ms)\<rparr>))"

definition timing_parts :: "MeleeAccumulator \<Rightarrow> (u32 \<times> u32) option" where
  "timing_parts acc =
    (if total_weight acc = 0 then None
     else let delay = (if \<exists>e\<in>set_option (earliest_end_ms acc). latest_start_ms acc \<le> e then latest_start_ms acc
                       else min (weighted_start_sum acc div total_weight acc) u32_MAX)
          in Some (delay, melee_max_duration_ms acc))"

record MotionFly =
  mf_release_ms :: u32
  mf_flight :: FlyTiming

record ProjectileAccumulator =
  earliest_release_ms :: "u32 option"
  proj_max_duration_ms :: u32
  proj_flight :: "FlyTiming option"

definition projectile_default :: ProjectileAccumulator where
  "projectile_default = \<lparr>earliest_release_ms = None, proj_max_duration_ms = 0, proj_flight = None\<rparr>"

definition projectile_push :: "ProjectileAccumulator \<Rightarrow> MotionFly \<Rightarrow> i64 \<Rightarrow> ProjectileAccumulator" where
  "projectile_push acc fly duration_ms =
    acc\<lparr>earliest_release_ms := Some (case earliest_release_ms acc of None \<Rightarrow> mf_release_ms fly | Some r \<Rightarrow> min r (mf_release_ms fly)),
        proj_max_duration_ms := max (proj_max_duration_ms acc) (clamp_duration duration_ms),
        proj_flight := (case proj_flight acc of None \<Rightarrow> Some (mf_flight fly) | Some f \<Rightarrow> Some f)\<rparr>"

definition projectile_timing :: "ProjectileAccumulator \<Rightarrow> (u32 \<times> u32 \<times> FlyTiming) option" where
  "projectile_timing acc =
    map_option (\<lambda>r. (r, proj_max_duration_ms acc, case proj_flight acc of Some f \<Rightarrow> f | None \<Rightarrow> DEFAULT_PROJECTILE))
      (earliest_release_ms acc)"

definition hit_of_window :: "MotionHitWindow \<Rightarrow> MotionHit" where
  "hit_of_window w =
    \<lparr>mh_start_ms = min (hw_start_ms w) u32_MAX,
     mh_end_ms = min (max (case hw_end_ms w of Some e \<Rightarrow> e | None \<Rightarrow> hw_start_ms w) (hw_start_ms w)) u32_MAX\<rparr>"

definition note_hit :: "(i64 \<rightharpoonup> MotionHit) \<Rightarrow> MotionHitWindow \<Rightarrow> (i64 \<rightharpoonup> MotionHit)" where
  "note_hit acc w =
    (let hit = hit_of_window w
     in case acc (hw_motion_id w) of
          None \<Rightarrow> acc(hw_motion_id w \<mapsto> hit)
        | Some existing \<Rightarrow> if mh_start_ms hit < mh_start_ms existing then acc(hw_motion_id w \<mapsto> hit) else acc)"

definition first_hit_by_motion :: "MotionHitWindow list \<Rightarrow> (i64 \<rightharpoonup> MotionHit)" where
  "first_hit_by_motion windows = foldl note_hit Map.empty (filter (\<lambda>w. 0 \<le> hw_start_ms w) windows)"

text \<open>\<^verbatim>\<open>x.max(lo).ceil().min(u32::MAX)\<close> and the cast to \<^verbatim>\<open>u32\<close>; these \<^verbatim>\<open>f64\<close> operations are exact.\<close>

definition ceil_u32 :: "rat \<Rightarrow> F32 \<Rightarrow> u32" where
  "ceil_u32 lo x =
    (case f32_max x (Fin lo) of Fin a \<Rightarrow> min \<lceil>a\<rceil> u32_MAX | Inf s \<Rightarrow> if s then 0 else u32_MAX | NaN \<Rightarrow> 0)"

definition flight_of_data :: "MotionFlyData \<Rightarrow> FlyTiming" where
  "flight_of_data d =
    \<lparr>init_vel_units_per_sec = ceil_u32 1 (fd_init_vel d), forward_accel_units_per_sec2 = ceil_u32 0 (f32_neg (fd_accel_y d)),
     bomb_range_units = ceil_u32 0 (fd_bomb_range d)\<rparr>"

definition fly_data_by_file :: "MotionFlyData list \<Rightarrow> (u8 list \<rightharpoonup> FlyTiming)" where
  "fly_data_by_file data = foldl (\<lambda>m d. m(fd_fly_file d \<mapsto> flight_of_data d)) Map.empty data"

definition fly_of_event :: "(u8 list \<rightharpoonup> FlyTiming) \<Rightarrow> MotionFlyEvent \<Rightarrow> MotionFly" where
  "fly_of_event by_file e =
    \<lparr>mf_release_ms = min (fe_release_ms e) u32_MAX,
     mf_flight = (case Option.bind (fe_fly_file e) by_file of Some f \<Rightarrow> f | None \<Rightarrow> DEFAULT_PROJECTILE)\<rparr>"

definition note_fly :: "(u8 list \<rightharpoonup> FlyTiming) \<Rightarrow> (i64 \<rightharpoonup> MotionFly) \<Rightarrow> MotionFlyEvent \<Rightarrow> (i64 \<rightharpoonup> MotionFly)" where
  "note_fly by_file acc e =
    (let fly = fly_of_event by_file e
     in case acc (fe_motion_id e) of
          None \<Rightarrow> acc(fe_motion_id e \<mapsto> fly)
        | Some existing \<Rightarrow> if mf_release_ms fly < mf_release_ms existing then acc(fe_motion_id e \<mapsto> fly) else acc)"

definition first_fly_by_motion :: "MotionFlyEvent list \<Rightarrow> MotionFlyData list \<Rightarrow> (i64 \<rightharpoonup> MotionFly)" where
  "first_fly_by_motion fly_events data =
    foldl (note_fly (fly_data_by_file data)) Map.empty (filter (\<lambda>e. 0 \<le> fe_release_ms e) fly_events)"

definition or_default :: "('k \<rightharpoonup> 'v) \<Rightarrow> 'k \<Rightarrow> 'v \<Rightarrow> 'v" where
  "or_default m k d = (case m k of Some v \<Rightarrow> v | None \<Rightarrow> d)"

type_synonym attack_accs = "(MobId \<rightharpoonup> MeleeAccumulator) \<times> (MobId \<rightharpoonup> ProjectileAccumulator)"

definition note_motion :: "(i64 \<rightharpoonup> MotionHit) \<Rightarrow> (i64 \<rightharpoonup> MotionFly) \<Rightarrow> attack_accs \<Rightarrow> MobAttackMotion \<Rightarrow> attack_accs" where
  "note_motion hits flies accs m =
    (if mm_weight m \<le> 0 then accs
     else case hits (mm_motion_id m) of
       Some hit \<Rightarrow>
         ((fst accs)(mm_mob_id m \<mapsto> melee_push (or_default (fst accs) (mm_mob_id m) melee_default)
            (hit, mm_weight m, mm_duration_ms m)), snd accs)
     | None \<Rightarrow>
         (case flies (mm_motion_id m) of
            Some fly \<Rightarrow>
              (fst accs, (snd accs)(mm_mob_id m \<mapsto>
                 projectile_push (or_default (snd accs) (mm_mob_id m) projectile_default) fly (mm_duration_ms m)))
          | None \<Rightarrow> accs))"

definition timing_of_mob :: "attack_accs \<Rightarrow> MobId \<Rightarrow> MobAttackTiming option" where
  "timing_of_mob accs mob =
    (case Option.bind (fst accs mob) timing_parts of
       Some (delay, dur) \<Rightarrow> Some \<lparr>mat_proc = MeleeProc delay, mat_duration_ms = dur\<rparr>
     | None \<Rightarrow>
         map_option (\<lambda>(release, dur, flight). \<lparr>mat_proc = ProjectileProc release flight, mat_duration_ms = dur\<rparr>)
           (Option.bind (snd accs mob) projectile_timing))"

definition mob_attack_timings_from_motion ::
  "MobAttackMotion list \<Rightarrow> MotionHitWindow list \<Rightarrow> MotionFlyEvent list \<Rightarrow> MotionFlyData list \<Rightarrow> (MobId \<rightharpoonup> MobAttackTiming)" where
  "mob_attack_timings_from_motion motions windows fly_events data =
    timing_of_mob (foldl (note_motion (first_hit_by_motion windows) (first_fly_by_motion fly_events data)) (Map.empty, Map.empty) motions)"

section \<open>When the damage of a melee attack falls\<close>

definition melee_hits :: "(i64 \<rightharpoonup> MotionHit) \<Rightarrow> MobId \<Rightarrow> MobAttackMotion list \<Rightarrow> (MotionHit \<times> i64 \<times> i64) list" where
  "melee_hits hits mob motions =
    List.map_filter (\<lambda>m. if mm_mob_id m = mob \<and> 0 < mm_weight m
      then map_option (\<lambda>h. (h, mm_weight m, mm_duration_ms m)) (hits (mm_motion_id m)) else None) motions"

abbreviation start_of :: "MotionHit \<times> i64 \<times> i64 \<Rightarrow> int" where "start_of x \<equiv> mh_start_ms (fst x)"
abbreviation end_of :: "MotionHit \<times> i64 \<times> i64 \<Rightarrow> int" where "end_of x \<equiv> mh_end_ms (fst x)"
abbreviation weight_of :: "MotionHit \<times> i64 \<times> i64 \<Rightarrow> int" where "weight_of x \<equiv> max (fst (snd x)) 1"

definition list_of :: "'a option \<Rightarrow> 'a list" where
  "list_of x = (case x of None \<Rightarrow> [] | Some a \<Rightarrow> [a])"

lemma melee_hits_Cons: "melee_hits hits mob (m # motions) =
    (if mm_mob_id m = mob \<and> 0 < mm_weight m then map (\<lambda>h. (h, mm_weight m, mm_duration_ms m)) (list_of (hits (mm_motion_id m))) else [])
      @ melee_hits hits mob motions"
  by (cases "hits (mm_motion_id m)") (simp_all add: melee_hits_def map_filter_simps list_of_def)

lemma note_motion_melee: "fst (note_motion hits flies accs m) mob =
    (if mm_mob_id m = mob \<and> 0 < mm_weight m \<and> hits (mm_motion_id m) \<noteq> None
     then Some (melee_push (or_default (fst accs) mob melee_default) (the (hits (mm_motion_id m)), mm_weight m, mm_duration_ms m))
     else fst accs mob)"
  by (simp add: note_motion_def split: option.splits)

lemma note_motions_melee:
  "fst (foldl (note_motion hits flies) accs motions) mob =
    (if melee_hits hits mob motions = [] then fst accs mob
     else Some (foldl melee_push (or_default (fst accs) mob melee_default) (melee_hits hits mob motions)))"
proof (induction motions arbitrary: accs)
  case (Cons m motions)
  let ?here = "mm_mob_id m = mob \<and> 0 < mm_weight m \<and> hits (mm_motion_id m) \<noteq> None"
  show ?case
  proof (cases ?here)
    case True
    then show ?thesis by (auto simp: Cons melee_hits_Cons note_motion_melee or_default_def list_of_def)
  next
    case False
    then have "melee_hits hits mob (m # motions) = melee_hits hits mob motions"
      by (auto simp: melee_hits_Cons list_of_def)
    moreover have "fst (note_motion hits flies accs m) mob = fst accs mob" using False by (simp only: note_motion_melee if_False)
    ultimately show ?thesis by (simp add: Cons or_default_def)
  qed
qed (simp add: melee_hits_def map_filter_simps)

definition hit_ok :: "MotionHit \<Rightarrow> bool" where
  "hit_ok h \<longleftrightarrow> 0 \<le> mh_start_ms h \<and> mh_start_ms h \<le> mh_end_ms h \<and> mh_end_ms h \<le> u32_MAX"

lemma note_hit_ok: "0 \<le> hw_start_ms w \<Longrightarrow> \<forall>k h. acc k = Some h \<longrightarrow> hit_ok h \<Longrightarrow> \<forall>k h. note_hit acc w k = Some h \<longrightarrow> hit_ok h"
proof -
  assume "0 \<le> hw_start_ms w" and acc: "\<forall>k h. acc k = Some h \<longrightarrow> hit_ok h"
  then have "hit_ok (hit_of_window w)" by (simp add: hit_ok_def hit_of_window_def)
  then show ?thesis using acc by (simp add: note_hit_def Let_def split: option.splits)
qed

lemma note_hits_ok:
  "\<forall>w\<in>set ws. 0 \<le> hw_start_ms w \<Longrightarrow> \<forall>k h. acc k = Some h \<longrightarrow> hit_ok h \<Longrightarrow> \<forall>k h. foldl note_hit acc ws k = Some h \<longrightarrow> hit_ok h"
proof (induction ws arbitrary: acc)
  case (Cons w ws)
  have "\<forall>k h. note_hit acc w k = Some h \<longrightarrow> hit_ok h" using Cons.prems by (intro note_hit_ok) simp_all
  with Cons show ?case by simp
qed simp

lemma first_hit_range: "first_hit_by_motion windows k = Some h \<Longrightarrow> hit_ok h"
  using note_hits_ok [of "filter (\<lambda>w. 0 \<le> hw_start_ms w) windows" Map.empty] by (simp add: first_hit_by_motion_def)

lemma melee_hits_range:
  assumes "x \<in> set (melee_hits (first_hit_by_motion windows) mob motions)"
  shows "hit_ok (fst x) \<and> 0 < fst (snd x) \<and> (\<exists>m\<in>set motions. fst (snd x) = mm_weight m)"
  using assms first_hit_range by (auto simp: melee_hits_def map_filter_def split: if_splits)

lemma melee_fold_ends:
  assumes "xs \<noteq> []" "\<forall>x\<in>set xs. 0 \<le> start_of x"
  shows "(\<exists>x\<in>set xs. latest_start_ms (foldl melee_push melee_default xs) = start_of x) \<and>
    (\<forall>x\<in>set xs. start_of x \<le> latest_start_ms (foldl melee_push melee_default xs)) \<and>
    (\<exists>e. earliest_end_ms (foldl melee_push melee_default xs) = Some e \<and> (\<exists>x\<in>set xs. e = end_of x) \<and> (\<forall>x\<in>set xs. e \<le> end_of x))"
  using assms
proof (induction xs rule: rev_induct)
  case (snoc x xs)
  show ?case
  proof (cases "xs = []")
    case True
    then show ?thesis using snoc.prems by (auto simp: melee_push_def melee_default_def Let_def split: prod.splits)
  next
    case False
    with snoc obtain e where "earliest_end_ms (foldl melee_push melee_default xs) = Some e" "\<exists>x\<in>set xs. e = end_of x"
      "\<forall>x\<in>set xs. e \<le> end_of x" by auto
    with False snoc show ?thesis
      by (auto simp: melee_push_def Let_def max_def min_def split: prod.splits) (fastforce+)?
  qed
qed simp

lemma melee_push_sums:
  "weighted_start_sum (melee_push acc x) = wrap_u 128 (weighted_start_sum acc + start_of x * weight_of x)"
  "total_weight (melee_push acc x) = wrap_u 128 (total_weight acc + weight_of x)"
  by (simp_all add: melee_push_def Let_def split: prod.splits)

lemma melee_fold_sums:
  assumes "\<forall>x\<in>set xs. 0 \<le> start_of x" "sum_list (map (\<lambda>x. start_of x * weight_of x) xs) < 2 ^ 128" "sum_list (map weight_of xs) < 2 ^ 128"
  shows "weighted_start_sum (foldl melee_push melee_default xs) = sum_list (map (\<lambda>x. start_of x * weight_of x) xs) \<and>
    total_weight (foldl melee_push melee_default xs) = sum_list (map weight_of xs)"
  using assms
proof (induction xs rule: rev_induct)
  case (snoc x xs)
  have nn: "0 \<le> start_of x * weight_of x" "0 \<le> sum_list (map (\<lambda>x. start_of x * weight_of x) xs)" "0 \<le> sum_list (map weight_of xs)"
    using snoc.prems(1) by (auto intro!: sum_list_nonneg mult_nonneg_nonneg)
  have "sum_list (map (\<lambda>x. start_of x * weight_of x) xs) + start_of x * weight_of x < 2 ^ 128"
    "sum_list (map weight_of xs) + weight_of x < 2 ^ 128" using snoc.prems(2,3) by simp_all
  moreover from this nn have "sum_list (map (\<lambda>x. start_of x * weight_of x) xs) < 2 ^ 128" "sum_list (map weight_of xs) < 2 ^ 128"
    by linarith+
  ultimately show ?case using snoc.IH snoc.prems(1) nn by (simp add: melee_push_sums wrap_u_def)
qed (simp add: melee_default_def)

lemma melee_fold_duration:
  "xs \<noteq> [] \<Longrightarrow> melee_max_duration_ms (foldl melee_push melee_default xs) = Max ((\<lambda>x. clamp_duration (snd (snd x))) ` set xs)"
proof (induction xs rule: rev_induct)
  case (snoc x xs)
  show ?case
  proof (cases "xs = []")
    case True
    then show ?thesis by (simp add: melee_push_def melee_default_def Let_def clamp_duration_def split: prod.splits)
  next
    case False
    with snoc show ?thesis by (simp add: melee_push_def Let_def max.commute split: prod.splits)
  qed
qed simp

lemma weighted_mean:
  assumes "xs \<noteq> []" "\<forall>x\<in>set xs. lo \<le> f x \<and> f x \<le> hi" "\<forall>x\<in>set xs. 0 < (g x :: int)"
  shows "0 < sum_list (map g xs) \<and> lo \<le> sum_list (map (\<lambda>x. f x * g x) xs) div sum_list (map g xs) \<and>
    sum_list (map (\<lambda>x. f x * g x) xs) div sum_list (map g xs) \<le> hi"
proof -
  have pos: "0 < sum_list (map g xs)"
    using assms(1,3) by (induction xs rule: list_nonempty_induct) auto
  have "lo * sum_list (map g xs) \<le> sum_list (map (\<lambda>x. f x * g x) xs) \<and> sum_list (map (\<lambda>x. f x * g x) xs) \<le> hi * sum_list (map g xs)"
    using assms(2,3)
  proof (induction xs)
    case (Cons x xs)
    then have 1: "lo * g x \<le> f x * g x" "f x * g x \<le> hi * g x" by (auto intro!: mult_right_mono)
    have 2: "lo * sum_list (map g xs) \<le> sum_list (map (\<lambda>x. f x * g x) xs)" "sum_list (map (\<lambda>x. f x * g x) xs) \<le> hi * sum_list (map g xs)"
      using Cons by auto
    show ?case using add_mono [OF 1(1) 2(1)] add_mono [OF 1(2) 2(2)] by (simp only: list.map sum_list.Cons distrib_left)
  qed simp
  with pos show ?thesis
    by (metis div_by_0 less_irrefl nonzero_mult_div_cancel_right zdiv_mono1)
qed

lemma melee_hits_length: "length (melee_hits hits mob motions) \<le> length motions"
  by (induction motions) (auto simp: melee_hits_Cons list_of_def melee_hits_def map_filter_simps split: option.splits)

lemma sum_list_le_length:
  fixes f :: "'a \<Rightarrow> int"
  shows "\<forall>x\<in>set xs. f x \<le> b \<Longrightarrow> sum_list (map f xs) \<le> int (length xs) * b"
  by (induction xs) (auto simp: distrib_right)

text \<open>
  C27. When the damage of a melee attack falls.  For a mob with at least one attack motion that has a hit window, the table
  has a melee entry whose duration is the longest of those motions.  Its delay lies between the earliest and the latest
  start of the hit windows; and whenever some instant lies in the hit windows of all of them, so does the delay.
\<close>

theorem melee_delay_in_hit_window:
  fixes motions windows fly_events data mob
  defines "hits \<equiv> melee_hits (first_hit_by_motion windows) mob motions"
  assumes "hits \<noteq> []" "length motions < 2 ^ 32" "\<forall>m\<in>set motions. mm_weight m < 2 ^ 63"
  shows "\<exists>d. mob_attack_timings_from_motion motions windows fly_events data mob =
      Some \<lparr>mat_proc = MeleeProc d, mat_duration_ms = Max ((\<lambda>x. clamp_duration (snd (snd x))) ` set hits)\<rparr> \<and>
    (\<exists>x\<in>set hits. start_of x \<le> d) \<and> (\<exists>x\<in>set hits. d \<le> start_of x) \<and>
    ((\<exists>t. \<forall>x\<in>set hits. start_of x \<le> t \<and> t \<le> end_of x) \<longrightarrow> (\<forall>x\<in>set hits. start_of x \<le> d \<and> d \<le> end_of x))"
proof -
  let ?acc = "foldl melee_push melee_default hits"
  have ok: "\<forall>x\<in>set hits. 0 \<le> start_of x \<and> start_of x \<le> u32_MAX \<and> 0 < weight_of x \<and> weight_of x < 2 ^ 63"
  proof
    fix x assume "x \<in> set hits"
    then have "hit_ok (fst x)" "0 < fst (snd x)" "\<exists>m\<in>set motions. fst (snd x) = mm_weight m"
      using melee_hits_range by (auto simp: hits_def)
    with assms(4) show "0 \<le> start_of x \<and> start_of x \<le> u32_MAX \<and> 0 < weight_of x \<and> weight_of x < 2 ^ 63"
      by (auto simp: hit_ok_def)
  qed
  then have pos: "\<forall>x\<in>set hits. 0 \<le> start_of x" by blast
  have len: "int (length hits) \<le> 2 ^ 32" using melee_hits_length [of "first_hit_by_motion windows" mob motions] assms(3)
    by (simp add: hits_def)
  have "sum_list (map weight_of hits) \<le> int (length hits) * 2 ^ 63"
    using ok by (intro sum_list_le_length) auto
  moreover have "sum_list (map (\<lambda>x. start_of x * weight_of x) hits) \<le> int (length hits) * (2 ^ 32 * 2 ^ 63)"
  proof (intro sum_list_le_length ballI)
    fix x assume "x \<in> set hits"
    then have "start_of x \<le> 2 ^ 32" "weight_of x \<le> 2 ^ 63" "0 \<le> weight_of x" using ok by fastforce+
    then show "start_of x * weight_of x \<le> 2 ^ 32 * 2 ^ 63" by (intro mult_mono) simp_all
  qed
  ultimately have "sum_list (map weight_of hits) < 2 ^ 128" "sum_list (map (\<lambda>x. start_of x * weight_of x) hits) < 2 ^ 128"
    using len by simp_all
  then have sums: "weighted_start_sum ?acc = sum_list (map (\<lambda>x. start_of x * weight_of x) hits)"
      "total_weight ?acc = sum_list (map weight_of hits)"
    using melee_fold_sums [OF pos] by simp_all
  obtain e where late: "\<exists>x\<in>set hits. latest_start_ms ?acc = start_of x" "\<forall>x\<in>set hits. start_of x \<le> latest_start_ms ?acc"
    and e: "earliest_end_ms ?acc = Some e" "\<exists>x\<in>set hits. e = end_of x" "\<forall>x\<in>set hits. e \<le> end_of x"
    using melee_fold_ends [OF assms(2) pos] by auto
  define lo where "lo = Min (start_of ` set hits)"
  have lo: "\<forall>x\<in>set hits. lo \<le> start_of x" "\<exists>x\<in>set hits. lo = start_of x"
  proof -
    have "lo \<in> start_of ` set hits" unfolding lo_def using assms(2) by (intro Min_in) auto
    then show "\<exists>x\<in>set hits. lo = start_of x" by blast
  qed (simp add: lo_def)
  let ?mean = "weighted_start_sum ?acc div total_weight ?acc"
  have mean: "0 < total_weight ?acc" "lo \<le> ?mean" "?mean \<le> latest_start_ms ?acc"
    using weighted_mean [OF assms(2), of lo start_of "latest_start_ms ?acc" weight_of] lo(1) late(2) ok unfolding sums by auto
  define d where "d = (if latest_start_ms ?acc \<le> e then latest_start_ms ?acc else min ?mean u32_MAX)"
  have "latest_start_ms ?acc \<le> u32_MAX" using late(1) ok by auto
  then have d: "lo \<le> d" "d \<le> latest_start_ms ?acc" using mean lo late by (auto simp: d_def)
  have "fst (foldl (note_motion (first_hit_by_motion windows) (first_fly_by_motion fly_events data)) (Map.empty, Map.empty) motions) mob =
      Some ?acc"
    using assms(2) by (simp add: note_motions_melee or_default_def flip: hits_def)
  moreover have "timing_parts ?acc = Some (d, Max ((\<lambda>x. clamp_duration (snd (snd x))) ` set hits))"
    using mean(1) melee_fold_duration [OF assms(2)] e(1) by (simp add: timing_parts_def d_def)
  ultimately have "mob_attack_timings_from_motion motions windows fly_events data mob =
      Some \<lparr>mat_proc = MeleeProc d, mat_duration_ms = Max ((\<lambda>x. clamp_duration (snd (snd x))) ` set hits)\<rparr>"
    by (simp add: mob_attack_timings_from_motion_def timing_of_mob_def)
  moreover have "\<forall>x\<in>set hits. start_of x \<le> d \<and> d \<le> end_of x" if "\<exists>t. \<forall>x\<in>set hits. start_of x \<le> t \<and> t \<le> end_of x"
  proof -
    from that obtain t where t: "\<And>x. x \<in> set hits \<Longrightarrow> start_of x \<le> t \<and> t \<le> end_of x" by blast
    from late(1) e(2) obtain x y where "x \<in> set hits" "latest_start_ms ?acc = start_of x" "y \<in> set hits" "e = end_of y" by blast
    then have "latest_start_ms ?acc \<le> e" using t [of x] t [of y] by linarith
    then show ?thesis using late(2) e(3) by (fastforce simp: d_def)
  qed
  moreover have "\<exists>x\<in>set hits. start_of x \<le> d" "\<exists>x\<in>set hits. d \<le> start_of x" using d lo(2) late(1) by metis+
  ultimately show ?thesis by blast
qed

definition wolf_motions :: "MobAttackMotion list" where
  "wolf_motions = [\<lparr>mm_motion_id = 1, mm_mob_id = 101, mm_weight = 80, mm_duration_ms = 1000\<rparr>,
                   \<lparr>mm_motion_id = 2, mm_mob_id = 101, mm_weight = 20, mm_duration_ms = 1400\<rparr>]"

definition wolf_windows :: "MotionHitWindow list" where
  "wolf_windows = [\<lparr>hw_motion_id = 1, hw_start_ms = 300, hw_end_ms = Some 500\<rparr>, \<lparr>hw_motion_id = 2, hw_start_ms = 450, hw_end_ms = Some 700\<rparr>]"

lemma wolf_hits: "melee_hits (first_hit_by_motion wolf_windows) 101 wolf_motions =
    [(\<lparr>mh_start_ms = 300, mh_end_ms = 500\<rparr>, 80, 1000), (\<lparr>mh_start_ms = 450, mh_end_ms = 700\<rparr>, 20, 1400)]"
  by (simp add: wolf_motions_def wolf_windows_def melee_hits_def first_hit_by_motion_def note_hit_def hit_of_window_def
      map_filter_simps)

theorem melee_delay_in_hit_window_witness:
  "\<exists>d. mob_attack_timings_from_motion wolf_motions wolf_windows [] [] 101 =
      Some \<lparr>mat_proc = MeleeProc d, mat_duration_ms = 1400\<rparr> \<and> 450 \<le> d \<and> d \<le> 500"
proof -
  have "\<exists>t. \<forall>x\<in>set (melee_hits (first_hit_by_motion wolf_windows) 101 wolf_motions). start_of x \<le> t \<and> t \<le> end_of x"
    by (intro exI [of _ 460]) (simp add: wolf_hits)
  moreover have "Max ((\<lambda>x. clamp_duration (snd (snd x))) ` set (melee_hits (first_hit_by_motion wolf_windows) 101 wolf_motions)) = 1400"
    by (simp add: wolf_hits clamp_duration_def)
  ultimately show ?thesis
    using melee_delay_in_hit_window [of wolf_windows 101 wolf_motions "[]" "[]"]
    by (auto simp: wolf_hits) (auto simp: wolf_motions_def)
qed

end
