(* ===== verification/Command_Queue.thy ===== *)
theory Command_Queue
  imports Map_World
begin

text \<open>
  The queues between the network and the simulation (\<^verbatim>\<open>runtime/net/ingress.rs\<close>, \<^verbatim>\<open>runtime/mob/aggro.rs\<close>,
  \<^verbatim>\<open>runtime/player/chat.rs\<close>): what a client asks for is queued per player until the next tick, with limits per
  kind of command, and the aggro a mob causes is queued for its whole pack.  The command queue is proved equal to a
  reference that first drops repetitions and then keeps the latest commands of each kind, and every bounded queue is
  proved to stay within its limit under any messages.
\<close>

section \<open>Limits\<close>

definition MAX_MOVE_INTENTS_PER_TICK :: nat where "MAX_MOVE_INTENTS_PER_TICK = 64"
definition MAX_CHAT_INTENTS_PER_TICK :: nat where "MAX_CHAT_INTENTS_PER_TICK = 16"
definition MAX_ATTACK_INTENTS_PER_TICK :: nat where "MAX_ATTACK_INTENTS_PER_TICK = 16"
definition MAX_PROGRESSION_INTENTS_PER_TICK :: nat where "MAX_PROGRESSION_INTENTS_PER_TICK = 8"
definition MAX_MOB_STIMULI_PER_TICK :: nat where "MAX_MOB_STIMULI_PER_TICK = 16"

lemmas limit_defs = MAX_MOVE_INTENTS_PER_TICK_def MAX_CHAT_INTENTS_PER_TICK_def MAX_ATTACK_INTENTS_PER_TICK_def
  MAX_PROGRESSION_INTENTS_PER_TICK_def MAX_MOB_STIMULI_PER_TICK_def

section \<open>Comparing commands\<close>

text \<open>Equality of \<^verbatim>\<open>f32\<close> values given by their bit patterns: no NaN equals anything, and the zeros are equal.\<close>

definition f32_is_nan :: "f32 \<Rightarrow> bool" where
  "f32_is_nan x \<longleftrightarrow> 2139095040 < x mod 2147483648"

definition f32_eq :: "f32 \<Rightarrow> f32 \<Rightarrow> bool" where
  "f32_eq x y \<longleftrightarrow> \<not> f32_is_nan x \<and> \<not> f32_is_nan y \<and> (x = y \<or> x mod 2147483648 = 0 \<and> y mod 2147483648 = 0)"

definition pos_eq :: "LocalPos \<Rightarrow> LocalPos \<Rightarrow> bool" where
  "pos_eq p q \<longleftrightarrow> f32_eq (fst p) (fst q) \<and> f32_eq (snd p) (snd q)"

fun is_move_command :: "PlayerCommand \<Rightarrow> bool" where
  "is_move_command (CmdMove _ _ _ _ _) = True"
| "is_move_command _ = False"

fun is_attack_command :: "PlayerCommand \<Rightarrow> bool" where
  "is_attack_command (CmdAttack _ _) = True"
| "is_attack_command _ = False"

fun is_animation_command :: "PlayerCommand \<Rightarrow> bool" where
  "is_animation_command (CmdSetMovementAnimation _) = True"
| "is_animation_command _ = False"

fun player_move_commands_match :: "PlayerCommand \<Rightarrow> PlayerCommand \<Rightarrow> bool" where
  "player_move_commands_match (CmdMove k a r t s) (CmdMove k' a' r' t' s') =
    (k = k' \<and> a = a' \<and> r = r' \<and> pos_eq t t' \<and> s = s')"
| "player_move_commands_match _ _ = False"

fun player_animation_commands_match :: "PlayerCommand \<Rightarrow> PlayerCommand \<Rightarrow> bool" where
  "player_animation_commands_match (CmdSetMovementAnimation a) (CmdSetMovementAnimation b) = (a = b)"
| "player_animation_commands_match _ _ = False"

section \<open>The command queue\<close>

text \<open>The closure of \<^verbatim>\<open>Vec::retain\<close> counts down the matching commands that are too many, oldest first.\<close>

fun retain_latest :: "nat \<Rightarrow> ('c \<Rightarrow> bool) \<Rightarrow> nat \<Rightarrow> 'c list \<Rightarrow> 'c list" where
  "retain_latest max_len matches_bucket matching [] = []"
| "retain_latest max_len matches_bucket matching (c # cs) =
    (if \<not> matches_bucket c then c # retain_latest max_len matches_bucket matching cs
     else if max_len < matching then retain_latest max_len matches_bucket (matching - 1) cs
     else c # retain_latest max_len matches_bucket matching cs)"

definition trim_player_commands :: "'c list \<Rightarrow> nat \<Rightarrow> ('c \<Rightarrow> bool) \<Rightarrow> 'c list" where
  "trim_player_commands queue max_len matches_bucket =
    (let matching = length (filter matches_bucket queue)
     in if matching \<le> max_len then queue else retain_latest max_len matches_bucket matching queue)"

definition push_player_command :: "PlayerCommand list \<Rightarrow> PlayerCommand \<Rightarrow> PlayerCommand list" where
  "push_player_command queue command =
    (if is_move_command command \<and> queue \<noteq> [] \<and> player_move_commands_match (last queue) command then queue
     else if is_animation_command command \<and> queue \<noteq> [] \<and> player_animation_commands_match (last queue) command
     then queue
     else let q = queue @ [command] in
       (case command of
          CmdMove _ _ _ _ _ \<Rightarrow> trim_player_commands q MAX_MOVE_INTENTS_PER_TICK is_move_command
        | CmdAttack _ _ \<Rightarrow> trim_player_commands q MAX_ATTACK_INTENTS_PER_TICK is_attack_command
        | CmdSetMovementAnimation _ \<Rightarrow> q
        | CmdSelectTarget _ \<Rightarrow> q))"

text \<open>Pushing onto a queue that keeps its latest entries (\<^verbatim>\<open>push\<close>, then \<^verbatim>\<open>drain(0..overflow)\<close>).\<close>

definition push_bounded :: "nat \<Rightarrow> 'a list \<Rightarrow> 'a \<Rightarrow> 'a list" where
  "push_bounded max_len queue x = (let q = queue @ [x] in if max_len < length q then drop (length q - max_len) q else q)"

section \<open>Client intents\<close>

datatype ClientIntent =
    IntentMove MovementKind u8 u8 LocalPos u32
  | IntentSetMovementAnimation MovementAnimation
  | IntentChat ChatIntent
  | IntentAttack EntityId AttackIntent
  | IntentTarget EntityId
  | IntentProgression PlayerProgressionIntent
  | IntentRestart PlayerRestartIntent

record ClientIntentMsg =
  cim_player_id :: PlayerId
  cim_intent :: ClientIntent

text \<open>Changing a component through \<^verbatim>\<open>get_mut\<close> of an existing entity; without the component nothing happens.\<close>

definition queue_command :: "Entity \<Rightarrow> PlayerCommand \<Rightarrow> World \<Rightarrow> World" where
  "queue_command e command w =
    w\<lparr>c_commands := (c_commands w)(e := map_option (\<lambda>q. push_player_command q command) (c_commands w e))\<rparr>"

definition handle_client_intent :: "ClientIntentMsg \<Rightarrow> World \<Rightarrow> World exec" where
  "handle_client_intent msg w =
    (case player_index w (cim_player_id msg) of
       None \<Rightarrow> Some w
     | Some e \<Rightarrow>
         if \<not> contains w e then None
         else Some (case cim_intent msg of
             IntentMove kind arg facing target client_ts \<Rightarrow> queue_command e (CmdMove kind arg facing target client_ts) w
           | IntentSetMovementAnimation animation \<Rightarrow> queue_command e (CmdSetMovementAnimation animation) w
           | IntentChat chat \<Rightarrow>
               w\<lparr>c_chat := (c_chat w)(e := map_option (\<lambda>q. push_bounded MAX_CHAT_INTENTS_PER_TICK q chat) (c_chat w e))\<rparr>
           | IntentAttack target attack \<Rightarrow> queue_command e (CmdAttack target attack) w
           | IntentTarget target \<Rightarrow> queue_command e (CmdSelectTarget target) w
           | IntentProgression intent \<Rightarrow>
               w\<lparr>c_progression_intents := (c_progression_intents w)(e :=
                   map_option (\<lambda>q. push_bounded MAX_PROGRESSION_INTENTS_PER_TICK q intent) (c_progression_intents w e))\<rparr>
           | IntentRestart intent \<Rightarrow>
               w\<lparr>c_restart_intents := (c_restart_intents w)(e := map_option (\<lambda>_. [intent]) (c_restart_intents w e))\<rparr>))"

section \<open>Aggro of packs\<close>

definition mob_pack_members :: "World \<Rightarrow> Entity \<Rightarrow> Entity list" where
  "mob_pack_members w e =
    (case c_pack w e of None \<Rightarrow> [e] | Some p \<Rightarrow> filter (\<lambda>m. c_pack w m = Some p) (entities w))"

definition queue_mob_aggro :: "MobAggro \<Rightarrow> World \<Rightarrow> Entity \<Rightarrow> World" where
  "queue_mob_aggro aggro w e =
    w\<lparr>c_aggro := (c_aggro w)(e := map_option (\<lambda>q. push_bounded MAX_MOB_STIMULI_PER_TICK q aggro) (c_aggro w e))\<rparr>"

definition route_one_aggro :: "World \<Rightarrow> Entity \<times> MobAggro \<Rightarrow> World" where
  "route_one_aggro w d =
    (if \<not> contains w (fst d) \<or> c_mob w (fst d) = None then w
     else foldl (queue_mob_aggro (snd d)) w (mob_pack_members w (fst d)))"

definition route_mob_aggro :: "World \<Rightarrow> World" where
  "route_mob_aggro w = foldl route_one_aggro (w\<lparr>aggro_dispatches := []\<rparr>) (aggro_dispatches w)"

section \<open>Chat\<close>

definition enqueue_local_chat_intents :: "PlayerId \<Rightarrow> EntityId \<Rightarrow> Empire \<Rightarrow> u8 list \<Rightarrow> ChatIntent list \<Rightarrow> World \<Rightarrow> World" where
  "enqueue_local_chat_intents player_id entity_id empire name chats w =
    (if chats = [] \<or> \<not> map_ready w then w
     else w\<lparr>pending_chats := pending_chats w @ map (\<lambda>chat. (player_id,
            \<lparr>speaker_entity_id = entity_id, speaker_empire = empire, chat_channel = ci_channel chat, speaker_name = name,
             chat_message = ci_message chat\<rparr>)) chats\<rparr>)"

definition process_player_chat :: "World \<Rightarrow> Entity \<Rightarrow> World" where
  "process_player_chat w e =
    (case (c_player w e, c_appearance w e, c_net w e, c_chat w e) of
       (Some player_id, Some app, Some entity_id, Some chats) \<Rightarrow>
         enqueue_local_chat_intents player_id entity_id (ap_empire app) (ap_name app) chats
           (w\<lparr>c_chat := (c_chat w)(e \<mapsto> [])\<rparr>)
     | _ \<Rightarrow> w)"

definition process_chat_intents :: "World \<Rightarrow> World" where
  "process_chat_intents w = foldl process_player_chat w (player_entities_on_map w)"

section \<open>Queues that keep their latest entries\<close>

text \<open>The contract of a bounded queue: a push keeps the latest entries, at most \<open>limit\<close> of them.\<close>

locale latest_queue =
  fixes push :: "'a list \<Rightarrow> 'a \<Rightarrow> 'a list" and limit :: nat
  assumes push_latest: "push q x = drop (Suc (length q) - limit) (q @ [x])"
begin

lemma push_length: "length (push q x) = min limit (Suc (length q))"
  by (simp add: push_latest)

lemma push_all: "xs \<noteq> [] \<Longrightarrow> foldl push q xs = drop (length q + length xs - limit) (q @ xs)"
proof (induction xs rule: rev_induct)
  case (snoc x xs)
  let ?ys = "q @ xs"
  have "foldl push q (xs @ [x]) = drop (Suc (length ?ys) - limit) (?ys @ [x])"
  proof (cases "xs = []")
    case False
    then have "foldl push q (xs @ [x]) = push (drop (length ?ys - limit) ?ys) x" using snoc by simp
    also have "\<dots> = drop (Suc (length ?ys) - limit) (?ys @ [x])"
    proof -
      have "drop (length ys - limit) ys @ [x] = drop (length ys - limit) (ys @ [x])" for ys :: "'a list" by simp
      then have "push (drop (length ys - limit) ys) x =
        drop (Suc (length ys - (length ys - limit)) - limit + (length ys - limit)) (ys @ [x])" for ys :: "'a list"
        by (simp only: push_latest drop_drop length_drop)
      moreover have "Suc (n - (n - limit)) - limit + (n - limit) = Suc n - limit" for n :: nat by simp
      ultimately show ?thesis by metis
    qed
    finally show ?thesis .
  qed (simp add: push_latest)
  then show ?case by simp
qed simp

end

lemma push_bounded_latest: "push_bounded n q x = drop (Suc (length q) - n) (q @ [x])"
  by (simp add: push_bounded_def Let_def)

interpretation chat_q: latest_queue "push_bounded MAX_CHAT_INTENTS_PER_TICK" MAX_CHAT_INTENTS_PER_TICK
  by unfold_locales (rule push_bounded_latest)

interpretation progression_q: latest_queue "push_bounded MAX_PROGRESSION_INTENTS_PER_TICK" MAX_PROGRESSION_INTENTS_PER_TICK
  by unfold_locales (rule push_bounded_latest)

interpretation aggro_q: latest_queue "push_bounded MAX_MOB_STIMULI_PER_TICK" MAX_MOB_STIMULI_PER_TICK
  by unfold_locales (rule push_bounded_latest)

section \<open>The reference of the command queue\<close>

text \<open>Of the elements with the property the latest \<open>n\<close> stay, the others all stay, and the order is kept.\<close>

fun keep_latest :: "nat \<Rightarrow> ('c \<Rightarrow> bool) \<Rightarrow> 'c list \<Rightarrow> 'c list" where
  "keep_latest n p [] = []"
| "keep_latest n p (x # xs) = (if p x \<and> n \<le> length (filter p xs) then keep_latest n p xs else x # keep_latest n p xs)"

lemma keep_all: "length (filter p xs) \<le> n \<Longrightarrow> keep_latest n p xs = xs"
  by (induction xs) auto

lemma retain_few: "m \<le> n \<Longrightarrow> retain_latest n p m xs = xs"
  by (induction xs) auto

lemma retain_keep: "retain_latest n p (length (filter p xs)) xs = keep_latest n p xs"
  by (induction xs) (auto simp: retain_few keep_all)

lemma trim_keep: "trim_player_commands xs n p = keep_latest n p xs"
  by (simp add: trim_player_commands_def Let_def retain_keep keep_all)

lemma keep_filter: "filter p (keep_latest n p xs) = drop (length (filter p xs) - n) (filter p xs)"
  by (induction xs) (auto simp: keep_all Suc_diff_le)

lemma keep_filter_other: "(\<And>x. r x \<Longrightarrow> \<not> p x) \<Longrightarrow> filter r (keep_latest n p xs) = filter r xs"
  by (induction xs) auto

lemma keep_snoc_other: "\<not> p x \<Longrightarrow> keep_latest n p (xs @ [x]) = keep_latest n p xs @ [x]"
  by (induction xs) auto

lemma keep_absorb: "keep_latest n p (keep_latest n p xs @ ys) = keep_latest n p (xs @ ys)"
  by (induction xs) (auto simp: keep_all)

lemma keep_commute:
  assumes "\<And>x. p x \<Longrightarrow> \<not> r x"
  shows "keep_latest n p (keep_latest m r xs) = keep_latest m r (keep_latest n p xs)"
proof (induction xs)
  case (Cons x xs)
  have "filter p (keep_latest m r xs) = filter p xs" "filter r (keep_latest n p xs) = filter r xs"
    using assms by (auto intro!: keep_filter_other)
  then show ?case using Cons assms [of x] by auto
qed simp

lemma keep_last: "0 < n \<Longrightarrow> xs \<noteq> [] \<Longrightarrow> keep_latest n p xs \<noteq> [] \<and> last (keep_latest n p xs) = last xs"
  by (induction xs) auto

text \<open>A command that repeats the one before it, as the queue sees it, is dropped.\<close>

definition repeats :: "PlayerCommand list \<Rightarrow> PlayerCommand \<Rightarrow> bool" where
  "repeats acc c \<longleftrightarrow> acc \<noteq> [] \<and>
    (player_move_commands_match (last acc) c \<or> player_animation_commands_match (last acc) c)"

definition without_repeats :: "PlayerCommand list \<Rightarrow> PlayerCommand list" where
  "without_repeats cs = foldl (\<lambda>acc c. if repeats acc c then acc else acc @ [c]) [] cs"

definition latest_commands :: "PlayerCommand list \<Rightarrow> PlayerCommand list" where
  "latest_commands cs = keep_latest MAX_ATTACK_INTENTS_PER_TICK is_attack_command
    (keep_latest MAX_MOVE_INTENTS_PER_TICK is_move_command cs)"

lemma move_not_attack: "is_attack_command c \<Longrightarrow> \<not> is_move_command c"
  by (cases c) simp_all

lemma matching_kinds:
  "player_move_commands_match a c \<Longrightarrow> is_move_command c" "player_animation_commands_match a c \<Longrightarrow> is_animation_command c"
  by (cases a; cases c; simp)+

lemma latest_last:
  "(latest_commands cs = [] \<longleftrightarrow> cs = []) \<and> (cs \<noteq> [] \<longrightarrow> last (latest_commands cs) = last cs)"
proof (cases "cs = []")
  case False
  then have "keep_latest MAX_MOVE_INTENTS_PER_TICK is_move_command cs \<noteq> []"
    "last (keep_latest MAX_MOVE_INTENTS_PER_TICK is_move_command cs) = last cs"
    using keep_last [of MAX_MOVE_INTENTS_PER_TICK cs is_move_command] by (simp_all add: limit_defs)
  with False show ?thesis
    using keep_last [of MAX_ATTACK_INTENTS_PER_TICK _ is_attack_command] by (simp add: latest_commands_def limit_defs)
qed (simp add: latest_commands_def)

lemma latest_push_move:
  assumes "is_move_command c"
  shows "keep_latest MAX_MOVE_INTENTS_PER_TICK is_move_command (latest_commands cs @ [c]) = latest_commands (cs @ [c])"
proof -
  have "\<not> is_attack_command c" using assms move_not_attack by blast
  then have "latest_commands cs @ [c] = keep_latest MAX_ATTACK_INTENTS_PER_TICK is_attack_command
      (keep_latest MAX_MOVE_INTENTS_PER_TICK is_move_command cs @ [c])"
    by (simp add: latest_commands_def keep_snoc_other)
  then show ?thesis
    using keep_commute [of is_move_command is_attack_command] move_not_attack
    by (simp add: latest_commands_def keep_absorb) (metis keep_absorb)
qed

lemma latest_push_attack:
  assumes "is_attack_command c"
  shows "keep_latest MAX_ATTACK_INTENTS_PER_TICK is_attack_command (latest_commands cs @ [c]) = latest_commands (cs @ [c])"
  using move_not_attack [OF assms] by (simp add: latest_commands_def keep_absorb keep_snoc_other)

lemma push_latest_commands:
  "push_player_command (latest_commands acc) c = latest_commands (if repeats acc c then acc else acc @ [c])"
proof -
  have last: "acc \<noteq> [] \<Longrightarrow> last (latest_commands acc) = last acc" and empty: "latest_commands acc = [] \<longleftrightarrow> acc = []"
    using latest_last [of acc] by auto
  have skip: "repeats acc c \<longleftrightarrow> (is_move_command c \<and> latest_commands acc \<noteq> [] \<and>
      player_move_commands_match (last (latest_commands acc)) c) \<or> (is_animation_command c \<and> latest_commands acc \<noteq> [] \<and>
      player_animation_commands_match (last (latest_commands acc)) c)"
    using last empty matching_kinds by (auto simp: repeats_def)
  show ?thesis
  proof (cases "repeats acc c")
    case True
    then show ?thesis using skip by (auto simp: push_player_command_def)
  next
    case False
    then have "push_player_command (latest_commands acc) c =
      (case c of CmdMove _ _ _ _ _ \<Rightarrow> keep_latest MAX_MOVE_INTENTS_PER_TICK is_move_command (latest_commands acc @ [c])
        | CmdAttack _ _ \<Rightarrow> keep_latest MAX_ATTACK_INTENTS_PER_TICK is_attack_command (latest_commands acc @ [c])
        | _ \<Rightarrow> latest_commands acc @ [c])"
      using skip by (auto simp: push_player_command_def trim_keep Let_def split: PlayerCommand.splits)
    then show ?thesis using False
      by (cases c) (simp_all add: latest_push_move latest_push_attack, simp_all add: latest_commands_def keep_snoc_other)
  qed
qed

lemma push_all_commands: "foldl push_player_command (latest_commands acc) cs =
    latest_commands (foldl (\<lambda>acc c. if repeats acc c then acc else acc @ [c]) acc cs)"
  by (induction cs arbitrary: acc) (simp_all add: push_latest_commands)

text \<open>
  C28. The command queue of a player after any commands of a client.  It is the list of the commands with repetitions
  dropped, cut down to the latest 64 moves and the latest 16 attacks: within each kind the latest are kept in their
  order, commands of the other kinds are never dropped for room, and the order between the kinds is that of arrival.
\<close>

theorem command_queue_keeps_latest:
  defines "queue \<equiv> \<lambda>cs. foldl push_player_command [] cs" and "asked \<equiv> without_repeats"
  shows "queue cs = keep_latest 16 is_attack_command (keep_latest 64 is_move_command (asked cs)) \<and>
    filter is_move_command (queue cs) =
      drop (length (filter is_move_command (asked cs)) - 64) (filter is_move_command (asked cs)) \<and>
    filter is_attack_command (queue cs) =
      drop (length (filter is_attack_command (asked cs)) - 16) (filter is_attack_command (asked cs)) \<and>
    filter (\<lambda>c. \<not> is_move_command c \<and> \<not> is_attack_command c) (queue cs) =
      filter (\<lambda>c. \<not> is_move_command c \<and> \<not> is_attack_command c) (asked cs)"
proof -
  have "queue cs = latest_commands (asked cs)"
    using push_all_commands [of "[]" cs] by (simp add: queue_def asked_def without_repeats_def latest_commands_def)
  moreover have "\<And>c. is_move_command c \<Longrightarrow> \<not> is_attack_command c" using move_not_attack by blast
  moreover have "filter (\<lambda>c. \<not> is_move_command c \<and> \<not> is_attack_command c) (latest_commands (asked cs)) =
      filter (\<lambda>c. \<not> is_move_command c \<and> \<not> is_attack_command c) (asked cs)"
    unfolding latest_commands_def by (subst keep_filter_other, simp)+ simp
  ultimately show ?thesis
    using move_not_attack by (simp add: latest_commands_def limit_defs keep_filter keep_filter_other)
qed

section \<open>The queues stay within their limits\<close>

definition commands_ok :: "PlayerCommand list \<Rightarrow> bool" where
  "commands_ok q \<longleftrightarrow> length (filter is_move_command q) \<le> MAX_MOVE_INTENTS_PER_TICK \<and>
    length (filter is_attack_command q) \<le> MAX_ATTACK_INTENTS_PER_TICK"

definition queues_ok :: "World \<Rightarrow> bool" where
  "queues_ok w \<longleftrightarrow>
    (\<forall>e q. c_commands w e = Some q \<longrightarrow> commands_ok q) \<and>
    (\<forall>e q. c_chat w e = Some q \<longrightarrow> length q \<le> MAX_CHAT_INTENTS_PER_TICK) \<and>
    (\<forall>e q. c_progression_intents w e = Some q \<longrightarrow> length q \<le> MAX_PROGRESSION_INTENTS_PER_TICK) \<and>
    (\<forall>e q. c_restart_intents w e = Some q \<longrightarrow> length q \<le> 1) \<and>
    (\<forall>e q. c_aggro w e = Some q \<longrightarrow> length q \<le> MAX_MOB_STIMULI_PER_TICK)"

lemma commands_ok_push: "commands_ok q \<Longrightarrow> commands_ok (push_player_command q c)"
proof -
  assume q: "commands_ok q"
  have "\<And>x. is_move_command x \<Longrightarrow> \<not> is_attack_command x" using move_not_attack by blast
  with q show ?thesis
    by (cases c) (auto simp: push_player_command_def commands_ok_def trim_keep keep_filter keep_filter_other move_not_attack
        Let_def)
qed

lemma map_option_upd_ok:
  assumes "\<forall>e q. c e = Some q \<longrightarrow> P q" "\<And>q. P q \<Longrightarrow> P (f q)"
  shows "\<forall>e' q. (c(e := map_option f (c e))) e' = Some q \<longrightarrow> P q"
  using assms by (auto split: if_splits)

lemma queues_ok_commands: "queues_ok w \<Longrightarrow> queues_ok (queue_command e c w)"
  using commands_ok_push by (fastforce simp: queues_ok_def queue_command_def split: if_splits)

lemma queues_ok_intent:
  assumes "queues_ok w" "handle_client_intent msg w = Some w'"
  shows "queues_ok w'"
proof (cases "player_index w (cim_player_id msg)")
  case (Some e)
  with assms(2) have "contains w e" by (auto simp: handle_client_intent_def split: if_splits)
  with assms Some show ?thesis
    by (cases "cim_intent msg")
      (auto simp: handle_client_intent_def queues_ok_commands, auto simp: queues_ok_def chat_q.push_length
        progression_q.push_length split: if_splits)
qed (use assms in \<open>simp add: handle_client_intent_def\<close>)

lemma queues_ok_aggro: "queues_ok w \<Longrightarrow> queues_ok (queue_mob_aggro a w e)"
  by (auto simp: queues_ok_def queue_mob_aggro_def aggro_q.push_length split: if_splits)

lemma queues_ok_route: "queues_ok w \<Longrightarrow> queues_ok (route_mob_aggro w)"
proof -
  have fold: "queues_ok w \<Longrightarrow> queues_ok (foldl (queue_mob_aggro a) w es)" for a es w
    by (induction es arbitrary: w) (simp_all add: queues_ok_aggro)
  have "queues_ok w \<Longrightarrow> queues_ok (foldl route_one_aggro w ds)" for ds w
    by (induction ds arbitrary: w) (simp_all add: route_one_aggro_def fold)
  moreover assume "queues_ok w"
  moreover have "queues_ok (w\<lparr>aggro_dispatches := []\<rparr>) = queues_ok w" by (simp add: queues_ok_def)
  ultimately show ?thesis by (simp add: route_mob_aggro_def)
qed

text \<open>
  Whatever messages arrive, and whatever aggro is routed to packs, every queue of a player or mob stays within its
  limit, and a message never makes the runtime panic as long as the index of the players names existing entities.
\<close>

theorem client_queues_bounded:
  assumes "queues_ok w" "\<forall>e\<in>ran (player_index w). contains w e"
  shows "\<exists>w'. for_each handle_client_intent msgs w = Some w' \<and> queues_ok w' \<and> queues_ok (route_mob_aggro w')"
proof -
  let ?I = "\<lambda>w. queues_ok w \<and> (\<forall>e\<in>ran (player_index w). contains w e)"
  have step: "\<exists>w'. handle_client_intent msg w = Some w' \<and> ?I w'" if "?I w" for msg w
  proof -
    have "\<exists>w'. handle_client_intent msg w = Some w' \<and> player_index w' = player_index w \<and> entities w' = entities w"
      using that by (auto simp: handle_client_intent_def queue_command_def ranI split: option.splits ClientIntent.splits)
    then show ?thesis using that queues_ok_intent by (fastforce simp: contains_def)
  qed
  have "\<exists>w'. for_each handle_client_intent msgs w = Some w' \<and> ?I w'"
    by (rule for_each_total [where I = ?I]) (use assms step in auto)
  then show ?thesis using queues_ok_route by blast
qed

definition one_player_world :: World where
  "one_player_world = empty_world\<lparr>entities := [3], player_index := [1 \<mapsto> 3], c_player := [3 \<mapsto> 1], c_commands := [3 \<mapsto> []],
    c_chat := [3 \<mapsto> []], c_progression_intents := [3 \<mapsto> []], c_restart_intents := [3 \<mapsto> []]\<rparr>"

theorem client_queues_bounded_witness:
  "\<exists>w'. for_each handle_client_intent [\<lparr>cim_player_id = 1, cim_intent = IntentTarget 7\<rparr>] one_player_world = Some w' \<and>
    queues_ok w' \<and> queues_ok (route_mob_aggro w')"
  by (rule client_queues_bounded)
    (simp_all add: one_player_world_def queues_ok_def empty_world_def commands_ok_def contains_def)

end
