(* ===== verification/Hit_Damage.thy ===== *)
theory Hit_Damage
  imports F32 Map_World
begin

text \<open>
  The damage of a normal hit (\<^verbatim>\<open>zohar-gameplay/src/combat.rs\<close>) and the timing of mob attacks
  (\<^verbatim>\<open>combat/timing.rs\<close>, \<^verbatim>\<open>runtime/rules/combat.rs\<close>).  The integer operations of the formula wrap and its
  single-precision operations round, as in the code; the bounds of a hit are proved through both.
\<close>

section \<open>The damage formula\<close>

record CombatStats =
  cb_level :: i32
  cb_dx :: i32
  attack_grade :: i32
  defence_grade :: i32

record DamageRolls =
  weapon_or_mob_damage :: i32
  low_damage_fallback :: i32

definition HIT_NORMAL :: u8 where "HIT_NORMAL = 1"
definition HIT_PENETRATE :: u8 where "HIT_PENETRATE = 16"
definition HIT_CRITICAL :: u8 where "HIT_CRITICAL = 32"

record NormalHitInput =
  hit_attacker :: CombatStats
  hit_victim :: CombatStats
  hit_rolls :: DamageRolls
  refine_bonus :: i32
  party_attacker_bonus :: i32
  attack_bonus_pct :: i32
  melee_magic_attack_bonus_pct :: i32
  defence_bonus_pct :: i32
  damage_multiplier :: F32
  ignore_defence :: bool
  ignore_target_rating :: bool

definition unmodified :: "CombatStats \<Rightarrow> CombatStats \<Rightarrow> DamageRolls \<Rightarrow> NormalHitInput" where
  "unmodified atk vic rolls =
    \<lparr>hit_attacker = atk, hit_victim = vic, hit_rolls = rolls, refine_bonus = 0, party_attacker_bonus = 0,
     attack_bonus_pct = 0, melee_magic_attack_bonus_pct = 0, defence_bonus_pct = 0, damage_multiplier = fin 1,
     ignore_defence = False, ignore_target_rating = False\<rparr>"

record NormalHitOutcome =
  attack_rating_per_mille :: i32
  attack_value :: i32
  defence_value :: i32
  hit_damage :: i32

definition attack_rating :: "i32 \<Rightarrow> i32 \<Rightarrow> i32 \<Rightarrow> bool \<Rightarrow> F32" where
  "attack_rating attacker_level attacker_dx victim_dx ignore_rating =
    (let attack_source = min (i32_add (i32_mul attacker_dx 4) (i32_mul attacker_level 2) sdiv 6) 90;
         evasion_source = min (i32_add (i32_mul victim_dx 4) (i32_mul attacker_level 2) sdiv 6) 90;
         rating = f32_div (f32_add (f32_of_int attack_source) (fin 210)) (fin 300)
     in if ignore_rating then rating
        else f32_sub rating
               (f32_mul (f32_div (f32_of_int (i32_add (i32_mul evasion_source 2) 5)) (f32_of_int (i32_add evasion_source 95)))
                  (fin (3 / 10))))"

definition attack_rating_for_hit :: "NormalHitInput \<Rightarrow> F32" where
  "attack_rating_for_hit input =
    attack_rating (cb_level (hit_attacker input)) (cb_dx (hit_attacker input)) (cb_dx (hit_victim input)) (ignore_target_rating input)"

definition melee_attack_value :: "NormalHitInput \<Rightarrow> F32 \<Rightarrow> i32" where
  "melee_attack_value input rating =
    (let rolled_damage = i32_mul (max (weapon_or_mob_damage (hit_rolls input)) 0) 2;
         level_attack = i32_mul (cb_level (hit_attacker input)) 2;
         v0 = i32_sub (i32_add (attack_grade (hit_attacker input)) rolled_damage) level_attack;
         v1 = f32_to_i32 (f32_mul (f32_of_int v0) rating);
         v2 = i32_add v1 level_attack;
         v3 = i32_add v2 (i32_mul (refine_bonus input) 2);
         v4 = i32_add v3 (party_attacker_bonus input);
         v5 = wrap_s 32 (i32_mul v4 (i32_add (i32_add 100 (attack_bonus_pct input)) (melee_magic_attack_bonus_pct input)) sdiv 100)
     in if f32_is_finite (damage_multiplier input) then f32_to_i32 (f32_mul (f32_of_int v5) (damage_multiplier input)) else v5)"

definition effective_defence :: "NormalHitInput \<Rightarrow> i32" where
  "effective_defence input =
    (if ignore_defence input then 0
     else wrap_s 32 (i32_mul (defence_grade (hit_victim input)) (i32_add 100 (defence_bonus_pct input)) sdiv 100))"

definition battle_damage_floor :: "i32 \<Rightarrow> i32 \<Rightarrow> i32" where
  "battle_damage_floor damage fallback = (if damage < 3 then max 1 (min 5 fallback) else damage)"

definition normal_hit_damage :: "NormalHitInput \<Rightarrow> NormalHitOutcome" where
  "normal_hit_damage input =
    (let rating = attack_rating_for_hit input;
         value = melee_attack_value input rating;
         defence = effective_defence input;
         raw_damage = max (i32_sub value defence) 0
     in \<lparr>attack_rating_per_mille = f32_to_i32 (f32_mul rating (fin 1000)), attack_value = value, defence_value = defence,
         hit_damage = battle_damage_floor raw_damage (low_damage_fallback (hit_rolls input))\<rparr>)"

section \<open>The bounds of a hit\<close>

lemma half_exact: "f32_round (1 / 2) = 1 / 2"
  by code_simp

lemma rating_sources:
  assumes "0 \<le> dx" "dx \<le> 2 ^ 24" "0 \<le> level" "level \<le> 2 ^ 24"
  shows "0 \<le> min (i32_add (i32_mul dx 4) (i32_mul level 2) sdiv 6) 90" "min (i32_add (i32_mul dx 4) (i32_mul level 2) sdiv 6) 90 \<le> 90"
proof -
  have "in_i32 (dx * 4)" "in_i32 (level * 2)" "in_i32 (dx * 4 + level * 2)" using assms by (auto simp: in_i32_iff)
  then have "i32_add (i32_mul dx 4) (i32_mul level 2) = dx * 4 + level * 2" by (simp add: rust_exact)
  then show "0 \<le> min (i32_add (i32_mul dx 4) (i32_mul level 2) sdiv 6) 90"
    using assms by (simp add: sdiv_nonneg)
qed simp

lemma rating_bounds:
  assumes "0 \<le> level" "level \<le> 2 ^ 24" "0 \<le> dx" "dx \<le> 2 ^ 24" "0 \<le> vdx" "vdx \<le> 2 ^ 24"
  obtains r where "attack_rating level dx vdx False = Fin r" "0 \<le> r" "r \<le> 1"
proof -
  define a e where "a = min (i32_add (i32_mul dx 4) (i32_mul level 2) sdiv 6) 90"
    and "e = min (i32_add (i32_mul vdx 4) (i32_mul level 2) sdiv 6) 90"
  have ae: "0 \<le> a" "a \<le> 90" "0 \<le> e" "e \<le> 90"
    using rating_sources assms by (auto simp: a_def e_def)
  define A where "A = (of_int (a + 210) / 300 :: rat)"
  have A: "1 / 2 \<le> A" "A \<le> 1" using ae by (auto simp: A_def field_simps)
  have attack: "f32_div (f32_add (f32_of_int a) (fin 210)) (fin 300) = Fin (f32_round A)"
    using ae f32_of_int_exact [of a] f32_of_int_exact [of 210] f32_of_int_exact [of 300] f32_of_int_exact [of "a + 210"]
      fin_small(1) [of A 1] A by (simp add: f32_add_def f32_div_def f32_of_int_def A_def)
  define Q where "Q = (of_int (e * 2 + 5) / of_int (e + 95) :: rat)"
  have Q: "0 \<le> Q" "Q \<le> 1" using ae by (auto simp: Q_def field_simps)
  define c where "c = f32_round (3 / 10)"
  have "f32_round (3 / 10) \<le> f32_round (1 / 2)" by (rule f32_round_mono) simp_all
  then have c: "0 \<le> c" "c \<le> 1 / 2" "fin (3 / 10) = Fin c"
    using fin_small [of "3 / 10" 1] f32_round_nonneg [of "3 / 10"] half_exact by (simp_all add: c_def)
  have QR: "0 \<le> f32_round Q" "f32_round Q \<le> 1" "fin Q = Fin (f32_round Q)"
    using fin_small [of Q 1] f32_round_nonneg [of Q] Q by simp_all
  define P where "P = f32_round Q * c"
  have "P \<le> 1 * c" unfolding P_def using QR c by (intro mult_right_mono) simp_all
  then have P: "0 \<le> P" "P \<le> 1 / 2" using QR c by (simp_all add: P_def)
  have "i32_add (i32_mul e 2) 5 = e * 2 + 5" "i32_add e 95 = e + 95"
    using ae by (simp_all add: rust_exact in_i32_iff)
  then have evasion: "f32_mul (f32_div (f32_of_int (i32_add (i32_mul e 2) 5)) (f32_of_int (i32_add e 95))) (fin (3 / 10)) =
      Fin (f32_round P)"
    using ae f32_of_int_exact [of "e * 2 + 5"] f32_of_int_exact [of "e + 95"] QR c fin_small(1) [of P 1] P
    by (simp add: f32_div_def f32_mul_def Q_def P_def)
  have "f32_round P \<le> f32_round A" using P A by (intro f32_round_mono) simp_all
  moreover have "f32_round A \<le> 1" "0 \<le> f32_round P"
    using fin_small(2) [of A 1] A f32_round_nonneg [of P] P by simp_all
  ultimately have D: "0 \<le> f32_round A - f32_round P" "f32_round A - f32_round P \<le> 1" by simp_all
  have "attack_rating level dx vdx False = Fin (f32_round (f32_round A - f32_round P))"
    using fin_small(1) [of "f32_round A - f32_round P" 1] D
    unfolding attack_rating_def Let_def a_def [symmetric] e_def [symmetric] attack evasion by simp
  moreover have "0 \<le> f32_round (f32_round A - f32_round P)" "f32_round (f32_round A - f32_round P) \<le> 1"
    using f32_round_nonneg [OF D(1)] fin_small(2) [of "f32_round A - f32_round P" 1] D by simp_all
  ultimately show thesis by (rule that)
qed

lemma trunc_mul_le:
  assumes "0 \<le> v" "v < 2 ^ 24" "0 \<le> r" "r \<le> 1"
  shows "0 \<le> f32_to_i32 (f32_mul (f32_of_int v) (Fin r))" "f32_to_i32 (f32_mul (f32_of_int v) (Fin r)) \<le> v"
proof -
  have x: "0 \<le> of_int v * r" "of_int v * r \<le> (of_int v :: rat)"
    using assms mult_left_mono [of r 1 "of_int v"] by simp_all
  define y where "y = f32_round (of_int v * r)"
  have y: "fin (of_int v * r) = Fin y" "0 \<le> y" "y \<le> of_int v"
    using fin_small [OF x assms(2)] f32_round_nonneg [OF x(1)] by (simp_all add: y_def)
  have "\<lfloor>y\<rfloor> \<le> v" "0 \<le> \<lfloor>y\<rfloor>" using y(2,3) by (simp_all add: floor_le_iff)
  moreover have "v < 16777216" using assms(2) by simp
  ultimately have "i32_MIN \<le> \<lfloor>y\<rfloor> \<and> \<lfloor>y\<rfloor> \<le> i32_MAX" by linarith
  then have "in_i32 \<lfloor>y\<rfloor>" by (simp only: in_i32_iff)
  then have "f32_to_i32 (fin (of_int v * r)) = \<lfloor>y\<rfloor>" using y by (simp add: rat_trunc_def rust_exact)
  then show "0 \<le> f32_to_i32 (f32_mul (f32_of_int v) (Fin r))" "f32_to_i32 (f32_mul (f32_of_int v) (Fin r)) \<le> v"
    using \<open>\<lfloor>y\<rfloor> \<le> v\<close> \<open>0 \<le> \<lfloor>y\<rfloor>\<close> by (simp_all add: f32_of_int_exact [OF assms(1,2)])
qed

lemma in_i32_small: "- (2 ^ 24) \<le> i \<Longrightarrow> i \<le> 2 ^ 24 \<Longrightarrow> in_i32 i"
  by (simp add: in_i32_iff)

lemma trunc_mul_between:
  assumes "\<bar>v\<bar> < 2 ^ 24" "0 \<le> r" "r \<le> 1"
  shows "min v 0 \<le> f32_to_i32 (f32_mul (f32_of_int v) (Fin r))" "f32_to_i32 (f32_mul (f32_of_int v) (Fin r)) \<le> max v 0"
proof -
  have "min v 0 \<le> f32_to_i32 (f32_mul (f32_of_int v) (Fin r)) \<and> f32_to_i32 (f32_mul (f32_of_int v) (Fin r)) \<le> max v 0"
  proof (cases "0 \<le> v")
    case True
    then show ?thesis using trunc_mul_le [of v r] assms by simp
  next
    case False
    define u where "u = - v"
    have u: "0 \<le> u" "u < 2 ^ 24" "v = - u" using False assms(1) by (simp_all add: u_def)
    have x: "0 \<le> of_int u * r" "of_int u * r \<le> (of_int u :: rat)" using u(1) assms(2,3) mult_left_mono [of r 1 "of_int u"] by simp_all
    define y where "y = f32_round (of_int u * r)"
    have y: "f32_mul (f32_of_int v) (Fin r) = Fin (- y)" "0 \<le> y" "y \<le> of_int u"
      using fin_small_neg [OF x u(2)] fin_small(2) [OF x u(2)] f32_round_nonneg [OF x(1)] f32_of_int_exact_neg [OF u(1,2)]
      by (simp_all add: u(3) y_def)
    have "rat_trunc (- y) = - \<lfloor>y\<rfloor>" using y(2) by (cases "y = 0") (simp_all add: rat_trunc_def)
    moreover have "0 \<le> \<lfloor>y\<rfloor>" "\<lfloor>y\<rfloor> \<le> u" using y(2,3) by (simp_all add: floor_le_iff)
    moreover have "in_i32 (- \<lfloor>y\<rfloor>)" using calculation(2,3) u(2) by (intro in_i32_small) linarith+
    ultimately have "f32_to_i32 (f32_mul (f32_of_int v) (Fin r)) = - \<lfloor>y\<rfloor>" by (simp add: y(1) rust_exact)
    then show ?thesis using \<open>0 \<le> \<lfloor>y\<rfloor>\<close> \<open>\<lfloor>y\<rfloor> \<le> u\<close> u(3) by linarith
  qed
  then show "min v 0 \<le> f32_to_i32 (f32_mul (f32_of_int v) (Fin r))" "f32_to_i32 (f32_mul (f32_of_int v) (Fin r)) \<le> max v 0" by blast+
qed

text \<open>A multiplier rounds its product by less than one.\<close>

lemma scaled_between:
  fixes k :: rat
  assumes "0 \<le> lo" "lo \<le> v" "v \<le> hi" "hi < 2 ^ 24" "0 \<le> k" "of_int hi * k \<le> 2 ^ 24 - 1"
  shows "\<lfloor>of_int lo * k\<rfloor> \<le> f32_to_i32 (f32_mul (f32_of_int v) (Fin k))" "f32_to_i32 (f32_mul (f32_of_int v) (Fin k)) \<le> \<lceil>of_int hi * k\<rceil>"
proof -
  define x y where "x = of_int v * k" and "y = f32_round x"
  have le: "of_int lo * k \<le> x" "x \<le> of_int hi * k" unfolding x_def using assms by (intro mult_right_mono; simp)+
  have pos: "0 \<le> of_int lo * k" "0 \<le> x" using assms(1,2,5) by (simp_all add: x_def)
  have c: "\<lceil>of_int hi * k\<rceil> \<le> 2 ^ 24 - 1" using assms(6) by (simp add: ceiling_le_iff)
  have up: "x \<le> of_int \<lceil>of_int hi * k\<rceil>" using le(2) le_of_int_ceiling [of "of_int hi * k"] by linarith
  have small: "\<lceil>of_int hi * k\<rceil> < 2 ^ 24" using c by simp
  note f = fin_small [OF pos(2) up small]
  have down: "of_int \<lfloor>of_int lo * k\<rfloor> \<le> x" "0 \<le> \<lfloor>of_int lo * k\<rfloor>"
    using le(1) of_int_floor_le [of "of_int lo * k"] pos(1) by (linarith, simp)
  have "(of_int \<lfloor>of_int lo * k\<rfloor> :: rat) \<le> of_int \<lceil>of_int hi * k\<rceil>" using down(1) up by linarith
  then have "\<lfloor>of_int lo * k\<rfloor> < 2 ^ 24" using small by linarith
  then have low: "of_int \<lfloor>of_int lo * k\<rfloor> \<le> y"
    using f32_round_mono [of "of_int \<lfloor>of_int lo * k\<rfloor>" x] down f32_round_int [OF down(2)] by (simp add: y_def)
  have y: "0 \<le> y" "y \<le> of_int \<lceil>of_int hi * k\<rceil>" using f(2) f32_round_nonneg [OF pos(2)] by (simp_all add: y_def)
  have fl: "\<lfloor>of_int lo * k\<rfloor> \<le> \<lfloor>y\<rfloor>" "\<lfloor>y\<rfloor> \<le> \<lceil>of_int hi * k\<rceil>" "0 \<le> \<lfloor>y\<rfloor>" using low y by (simp_all add: le_floor_iff floor_le_iff)
  have "in_i32 \<lfloor>y\<rfloor>" using fl small by (intro in_i32_small) linarith+
  then have "f32_to_i32 (f32_mul (f32_of_int v) (Fin k)) = \<lfloor>y\<rfloor>"
    using f(1) y(1) assms(1-4) by (simp add: f32_of_int_exact x_def [symmetric] y_def [symmetric] rat_trunc_def rust_exact)
  then show "\<lfloor>of_int lo * k\<rfloor> \<le> f32_to_i32 (f32_mul (f32_of_int v) (Fin k))" "f32_to_i32 (f32_mul (f32_of_int v) (Fin k)) \<le> \<lceil>of_int hi * k\<rceil>"
    using fl by simp_all
qed

lemma one_exact: "fin 1 = Fin 1"
  using f32_of_int_exact [of 1] by (simp add: f32_of_int_def)

text \<open>The value before the multiplier lies between twice the level and the full strength.\<close>

lemma value_before_multiplier:
  assumes "0 \<le> cb_level atk" "2 * cb_level atk < 2 ^ 24" "0 \<le> weapon_or_mob_damage rolls" "0 \<le> attack_grade atk"
    "attack_grade atk + 2 * weapon_or_mob_damage rolls < 2 ^ 24" "0 \<le> r" "r \<le> 1"
  obtains u where "min (attack_grade atk + 2 * weapon_or_mob_damage rolls) (2 * cb_level atk) \<le> u"
    "u \<le> max (attack_grade atk + 2 * weapon_or_mob_damage rolls) (2 * cb_level atk)"
    "melee_attack_value ((unmodified atk vic rolls)\<lparr>damage_multiplier := Fin k\<rparr>) (Fin r) = f32_to_i32 (f32_mul (f32_of_int u) (Fin k))"
proof -
  let ?in = "(unmodified atk vic rolls)\<lparr>damage_multiplier := Fin k\<rparr>" and ?L = "cb_level atk * 2"
  define v where "v = attack_grade atk + weapon_or_mob_damage rolls * 2 - ?L"
  define m where "m = f32_to_i32 (f32_mul (f32_of_int v) (Fin r))"
  have "\<bar>v\<bar> < 2 ^ 24" using assms by (auto simp: v_def)
  note m = trunc_mul_between [OF this assms(6,7), folded m_def]
  have ranges: "in_i32 (weapon_or_mob_damage rolls * 2)" "in_i32 ?L" "in_i32 (attack_grade atk + weapon_or_mob_damage rolls * 2)"
    "in_i32 (attack_grade atk + weapon_or_mob_damage rolls * 2 - ?L)" "in_i32 (m + ?L)" "in_i32 ((m + ?L) * 100)"
    using assms m by (auto simp: in_i32_iff v_def)
  have "0 \<le> m + ?L" using m assms by (auto simp: v_def)
  then have "(m + ?L) * 100 sdiv 100 = m + ?L" by (simp add: sdiv_nonneg)
  moreover have "wrap_s 32 100 = 100" "wrap_s 32 0 = 0" by (simp_all add: wrap_s_def)
  moreover have "max (weapon_or_mob_damage rolls) 0 = weapon_or_mob_damage rolls" using assms by simp
  ultimately have "melee_attack_value ?in (Fin r) = f32_to_i32 (f32_mul (f32_of_int (m + ?L)) (Fin k))" using ranges
    by (simp only: melee_attack_value_def unmodified_def Let_def NormalHitInput.simps wrap_i32_id m_def [symmetric]
        v_def [symmetric] add_0_right mult_zero_left f32_ops_Fin if_True)
  moreover have "min (attack_grade atk + 2 * weapon_or_mob_damage rolls) (2 * cb_level atk) \<le> m + ?L"
    "m + ?L \<le> max (attack_grade atk + 2 * weapon_or_mob_damage rolls) (2 * cb_level atk)" using m by (auto simp: v_def)
  ultimately show thesis using that by blast
qed

text \<open>
  C26. What a normal hit does, for the hits of the simulation: no percentage bonus, and a damage multiplier that is one for
  players and that of the prototype for mobs; levels, stats and grades are not negative and below two to the 24.  Let the
  strength be the attack grade with twice the weapon roll.  The attack value lies between the smaller and the larger of
  strength and twice the level, both times the multiplier and rounded outwards.  The hit does at least one point of damage
  and at most the larger of the two less the defence, or five points when that is less.  The bounds hold through every
  rounding of the single-precision arithmetic.
\<close>

theorem hit_damage_bounds:
  fixes atk vic rolls and k :: rat
  defines "strength \<equiv> attack_grade atk + 2 * weapon_or_mob_damage rolls"
    and "out \<equiv> normal_hit_damage ((unmodified atk vic rolls)\<lparr>damage_multiplier := Fin k\<rparr>)"
  assumes "0 \<le> cb_level atk" "2 * cb_level atk < 2 ^ 24" "0 \<le> cb_dx atk" "cb_dx atk \<le> 2 ^ 24" "0 \<le> cb_dx vic" "cb_dx vic \<le> 2 ^ 24"
    and "0 \<le> weapon_or_mob_damage rolls" "0 \<le> attack_grade atk" "strength < 2 ^ 24"
    and "0 \<le> defence_grade vic" "defence_grade vic < 2 ^ 24"
    and "0 \<le> k" "of_int (max strength (2 * cb_level atk)) * k \<le> 2 ^ 24 - 1"
  shows "1 \<le> hit_damage out \<and> hit_damage out \<le> max 5 (\<lceil>of_int (max strength (2 * cb_level atk)) * k\<rceil> - defence_grade vic) \<and>
    \<lfloor>of_int (min strength (2 * cb_level atk)) * k\<rfloor> \<le> attack_value out \<and>
    attack_value out \<le> \<lceil>of_int (max strength (2 * cb_level atk)) * k\<rceil> \<and> defence_value out = defence_grade vic"
proof -
  let ?in = "(unmodified atk vic rolls)\<lparr>damage_multiplier := Fin k\<rparr>"
  have lev: "cb_level atk \<le> 2 ^ 24" using assms(3,4) by simp
  obtain r where r: "attack_rating (cb_level atk) (cb_dx atk) (cb_dx vic) False = Fin r" "0 \<le> r" "r \<le> 1"
    using rating_bounds [OF assms(3) lev assms(5-8)] .
  obtain u where u: "min strength (2 * cb_level atk) \<le> u" "u \<le> max strength (2 * cb_level atk)"
    "melee_attack_value ?in (Fin r) = f32_to_i32 (f32_mul (f32_of_int u) (Fin k))"
    using value_before_multiplier [OF assms(3,4,9,10) _ r(2,3), where vic = vic and k = k] assms(11) unfolding strength_def by blast
  have ends: "0 \<le> min strength (2 * cb_level atk)" "max strength (2 * cb_level atk) < 2 ^ 24" using assms by (simp_all add: strength_def)
  define x where "x = f32_to_i32 (f32_mul (f32_of_int u) (Fin k))"
  note x = scaled_between [OF ends(1) u(1,2) ends(2) assms(14,15), folded x_def]
  have "\<lceil>of_int (max strength (2 * cb_level atk)) * k\<rceil> \<le> 2 ^ 24 - 1" using assms(15) by (simp add: ceiling_le_iff)
  moreover have "0 \<le> \<lfloor>of_int (min strength (2 * cb_level atk)) * k\<rfloor>" using ends(1) assms(14) by simp
  ultimately have "in_i32 (x - defence_grade vic)" using x assms(12,13) by (intro in_i32_small) linarith+
  moreover have "effective_defence ?in = defence_grade vic"
    using assms(12,13) by (simp add: effective_defence_def unmodified_def rust_exact sdiv_nonneg in_i32_iff)
  moreover have "attack_rating_for_hit ?in = Fin r" "hit_rolls ?in = rolls"
    using r(1) by (simp_all add: attack_rating_for_hit_def unmodified_def)
  ultimately have out: "attack_value out = x" "defence_value out = defence_grade vic"
    "hit_damage out = battle_damage_floor (max (x - defence_grade vic) 0) (low_damage_fallback rolls)"
    using u(3) by (simp_all add: out_def normal_hit_damage_def Let_def rust_exact x_def)
  then show ?thesis using x by (auto simp: battle_damage_floor_def)
qed

lemma unmodified_multiplier: "unmodified atk vic rolls = (unmodified atk vic rolls)\<lparr>damage_multiplier := Fin 1\<rparr>"
  by (simp add: unmodified_def one_exact)

text \<open>The examples of the repository's own tests, evaluated.\<close>

definition lv10_fighter :: CombatStats where
  "lv10_fighter = \<lparr>cb_level = 10, cb_dx = 6, attack_grade = 44, defence_grade = 0\<rparr>"

definition lv8_target :: CombatStats where
  "lv8_target = \<lparr>cb_level = 8, cb_dx = 5, attack_grade = 0, defence_grade = 18\<rparr>"

lemma rating_example: "f32_to_i32 (f32_mul (attack_rating 35 18 12 False) (fin 1000)) = 663"
  by code_simp

lemma hit_example:
  "(let out = normal_hit_damage (unmodified lv10_fighter lv8_target \<lparr>weapon_or_mob_damage = 12, low_damage_fallback = 4\<rparr>)
    in (attack_value out, defence_value out, hit_damage out)) = (52, 18, 34)"
  by code_simp

text \<open>The weak hit of the repository's tests: five points, from a fallback roll of five.\<close>

lemma weak_hit_example:
  "hit_damage (normal_hit_damage (unmodified \<lparr>cb_level = 1, cb_dx = 1, attack_grade = 1, defence_grade = 0\<rparr>
    \<lparr>cb_level = 1, cb_dx = 90, attack_grade = 0, defence_grade = 99\<rparr> \<lparr>weapon_or_mob_damage = 0, low_damage_fallback = 5\<rparr>)) = 5"
  by code_simp

text \<open>The example above, hit by a mob with a multiplier of seven fifths.\<close>

theorem hit_damage_bounds_witness:
  "hit_damage (normal_hit_damage ((unmodified lv10_fighter lv8_target \<lparr>weapon_or_mob_damage = 12, low_damage_fallback = 4\<rparr>)
    \<lparr>damage_multiplier := Fin (7 / 5)\<rparr>)) \<le> 78"
proof -
  have "\<lceil>of_int (max (44 + 24) 20) * (7 / 5 :: rat)\<rceil> = 96" by (simp add: ceiling_eq_iff)
  then show ?thesis
    using hit_damage_bounds [of lv10_fighter lv8_target "\<lparr>weapon_or_mob_damage = 12, low_damage_fallback = 4\<rparr>" "7 / 5"]
    by (simp add: lv10_fighter_def lv8_target_def)
qed

end
