(* ===== verification/Combat.thy ===== *)
theory Combat
  imports Hit_Damage Actor_Life Mob_Spawn "HOL-Library.Multiset"
begin

text \<open>
  Attacks on the map (\<^verbatim>\<open>runtime/combat.rs\<close>): the buffer of attacks of a frame, the attacks that fall later,
  and what an attack does to its victim.  Two things are parameters, in \<open>CombatEnv\<close>: the random generator, as a
  function of its position, and the time a projectile flies, which the code computes from positions with the math
  library of the platform.
\<close>

record CombatEnv =
  ce_range :: "nat \<Rightarrow> i32 \<Rightarrow> i32 \<Rightarrow> i32 \<times> nat"
  ce_travel_ms :: "World \<Rightarrow> Entity \<Rightarrow> Entity \<Rightarrow> FlyTiming \<Rightarrow> u32"

section \<open>Scheduling\<close>

definition command_entities :: "AttackCommand \<Rightarrow> Entity \<times> Entity" where
  "command_entities c = (case c of PlayerBasicAttack a v \<Rightarrow> (a, v) | MobBasicAttack a v \<Rightarrow> (a, v))"

definition exist_in :: "World \<Rightarrow> Entity \<times> Entity \<Rightarrow> bool" where
  "exist_in w p \<longleftrightarrow> contains w (fst p) \<and> contains w (snd p)"

definition live_entities :: "World \<Rightarrow> AttackCommand \<Rightarrow> (Entity \<times> Entity) option" where
  "live_entities w c = (if exist_in w (command_entities c) then Some (command_entities c) else None)"

definition delayed_resolve :: "SimInstant \<Rightarrow> SimDuration \<Rightarrow> AttackCommand \<Rightarrow> DelayedAttackCommand" where
  "delayed_resolve now delay c = \<lparr>da_due_at = sim_add now delay, da_kind = Resolve c\<rparr>"

definition delayed_release_projectile :: "SimInstant \<Rightarrow> SimDuration \<Rightarrow> AttackCommand \<Rightarrow> FlyTiming \<Rightarrow> DelayedAttackCommand" where
  "delayed_release_projectile now delay c flight = \<lparr>da_due_at = sim_add now delay, da_kind = ReleaseProjectile c flight\<rparr>"

definition schedule_attack_damage :: "SimInstant \<Rightarrow> AttackCommand \<Rightarrow> AttackDamageSchedule \<Rightarrow> World \<Rightarrow> World" where
  "schedule_attack_damage now c schedule w =
    (case schedule of
       Immediate \<Rightarrow> w\<lparr>attack_buffer := attack_buffer w @ [c]\<rparr>
     | Delayed delay \<Rightarrow> w\<lparr>delayed_attacks := delayed_attacks w @ [delayed_resolve now delay c]\<rparr>
     | Projectile release_delay flight \<Rightarrow>
         w\<lparr>delayed_attacks := delayed_attacks w @ [delayed_release_projectile now release_delay c flight]\<rparr>)"

definition enqueue_live_attack_command :: "AttackCommand \<Rightarrow> World \<Rightarrow> World" where
  "enqueue_live_attack_command c w =
    (if live_entities w c = None then w else w\<lparr>attack_buffer := attack_buffer w @ [c]\<rparr>)"

definition release_one :: "CombatEnv \<Rightarrow> SimInstant \<Rightarrow> World \<Rightarrow> DelayedAttackCommand \<Rightarrow> World" where
  "release_one env now w s =
    (case da_kind s of
       Resolve c \<Rightarrow> enqueue_live_attack_command c w
     | ReleaseProjectile c flight \<Rightarrow>
         (case live_entities w c of
            None \<Rightarrow> w
          | Some (a, v) \<Rightarrow>
              (let impact = sim_add (da_due_at s) (ce_travel_ms env w a v flight)
               in if impact \<le> now then enqueue_live_attack_command c w
                  else w\<lparr>delayed_attacks := delayed_attacks w @ [\<lparr>da_due_at = impact, da_kind = Resolve c\<rparr>]\<rparr>)))"

definition release_due_attack_commands :: "CombatEnv \<Rightarrow> World \<Rightarrow> World" where
  "release_due_attack_commands env w =
    (let now = sim_now w;
         due = filter (\<lambda>s. da_due_at s \<le> now) (delayed_attacks w);
         pending = filter (\<lambda>s. \<not> da_due_at s \<le> now) (delayed_attacks w)
     in foldl (release_one env now) (w\<lparr>delayed_attacks := pending\<rparr>) due)"

section \<open>One attack\<close>

text \<open>The damage roll of a snapshot: the prototype of a mob, or nothing for the placeholder weapon of a player.\<close>

record CombatantSnapshot =
  cn_actor :: ActorRef
  cn_stats :: CombatStats
  cn_roll :: "MobPrototype option"

definition combat_stats_from_runtime :: "ActorStatsRuntime \<Rightarrow> CombatStats exec" where
  "combat_stats_from_runtime rt = do {
     l \<leftarrow> read_limited (rt_source rt) (rt_state rt) Level;
     d \<leftarrow> read_limited (rt_source rt) (rt_state rt) Dx;
     a \<leftarrow> read_limited (rt_source rt) (rt_state rt) AttGrade;
     f \<leftarrow> read_limited (rt_source rt) (rt_state rt) DefGrade;
     Some \<lparr>cb_level = l, cb_dx = d, attack_grade = a, defence_grade = f\<rparr>
   }"

definition mob_combat_stats :: "SharedConfig \<Rightarrow> World \<Rightarrow> Entity \<Rightarrow> MobPrototype option" where
  "mob_combat_stats shared w e = Option.bind (c_mob w e) (sc_mobs shared)"

definition combatant_snapshot :: "SharedConfig \<Rightarrow> World \<Rightarrow> Entity \<Rightarrow> CombatantSnapshot option exec" where
  "combatant_snapshot shared w e =
    (case c_net w e of
       None \<Rightarrow> Some None
     | Some entity_id \<Rightarrow>
         let actor = \<lparr>ar_entity = e, ar_id = entity_id\<rparr> in
         (case c_stats w e of
            Some rt \<Rightarrow> map_option (\<lambda>s. Some \<lparr>cn_actor = actor, cn_stats = s, cn_roll = None\<rparr>) (combat_stats_from_runtime rt)
          | None \<Rightarrow>
              (case c_mob_stats w e of
                 None \<Rightarrow> Some None
               | Some rt \<Rightarrow>
                   map_option (\<lambda>s. map_option (\<lambda>p. \<lparr>cn_actor = actor, cn_stats = s, cn_roll = Some p\<rparr>) (mob_combat_stats shared w e))
                     (combat_stats_from_runtime rt))))"

definition roll_damage :: "CombatEnv \<Rightarrow> i32 \<Rightarrow> i32 \<Rightarrow> World \<Rightarrow> DamageRolls \<times> World" where
  "roll_damage env damage_min damage_max w =
    (let (lower, upper) = (if damage_min \<le> damage_max then (damage_min, damage_max) else (damage_max, damage_min));
         (weapon, n1) = ce_range env (rng_pos w) lower upper;
         (fallback, n2) = ce_range env n1 1 5
     in (\<lparr>weapon_or_mob_damage = weapon, low_damage_fallback = fallback\<rparr>, w\<lparr>rng_pos := n2\<rparr>))"

definition normal_hit_input :: "CombatEnv \<Rightarrow> CombatantSnapshot \<Rightarrow> CombatantSnapshot \<Rightarrow> World \<Rightarrow> NormalHitInput \<times> World" where
  "normal_hit_input env by_actor on_actor w =
    (case cn_roll by_actor of
       None \<Rightarrow>
         (let (rolls, w1) = roll_damage env 8 12 w in (unmodified (cn_stats by_actor) (cn_stats on_actor) rolls, w1))
     | Some p \<Rightarrow>
         (let (rolls, w1) = roll_damage env (max (mp_damage_min p) 0) (max (max (mp_damage_max p) (mp_damage_min p)) 0) w
          in ((unmodified (cn_stats by_actor) (cn_stats on_actor) rolls)
                \<lparr>damage_multiplier := f32_max (f32_of_bits (mp_damage_multiplier p)) (Fin 0)\<rparr>, w1)))"

definition try_finalize_dying_victim :: "SharedConfig \<Rightarrow> Entity \<times> Entity \<Rightarrow> World \<Rightarrow> (bool \<times> World) exec" where
  "try_finalize_dying_victim shared p w =
    (if \<not> actor_can_act w (fst p) \<or> \<not> actor_is_dying w (snd p) then Some (False, w)
     else do {
       victim \<leftarrow> combatant_snapshot shared w (snd p);
       Some (case victim of None \<Rightarrow> (False, w) | Some s \<Rightarrow> finalize_dying_actor_death (cn_actor s) w)
     })"

definition apply_resource_damage :: "ActorRef \<Rightarrow> i32 \<Rightarrow> World \<Rightarrow> (bool option \<times> World) exec" where
  "apply_resource_damage victim damage w = do {
     (r, w1) \<leftarrow> apply_actor_resource victim (ra_damage damage) w;
     Some (case r of
             Inr (Some res) \<Rightarrow> Some (rar_stat res = Hp \<and> 0 < rar_previous res \<and> rar_current res \<le> 0)
           | _ \<Rightarrow> None, w1)
   }"

definition note_damage :: "ActorRef \<Rightarrow> ActorRef \<Rightarrow> i32 \<Rightarrow> bool \<Rightarrow> World \<Rightarrow> World" where
  "note_damage by_actor on_actor damage killed w =
    (let w1 = w\<lparr>facts := (facts w)\<lparr>f_damaged := f_damaged (facts w) @
           [\<lparr>ad_attacker = by_actor, ad_victim = on_actor, ad_damage = damage, ad_flags = HIT_NORMAL\<rparr>]\<rparr>\<rparr>
     in if killed
        then w1\<lparr>facts := (facts w1)\<lparr>f_hp_depleted := f_hp_depleted (facts w1) @
               [\<lparr>hd_victim = on_actor, hd_killer = Some by_actor\<rparr>]\<rparr>\<rparr>
        else w1)"

definition strike :: "CombatEnv \<Rightarrow> SharedConfig \<Rightarrow> Entity \<times> Entity \<Rightarrow> World \<Rightarrow> World exec" where
  "strike env shared p w =
    (if \<not> actor_can_act w (fst p) \<or> \<not> actor_can_take_combat_damage w (snd p) then Some w
     else do {
       by_snap \<leftarrow> combatant_snapshot shared w (fst p);
       (case by_snap of
          None \<Rightarrow> Some w
        | Some by_actor \<Rightarrow> do {
            on_snap \<leftarrow> combatant_snapshot shared w (snd p);
            (case on_snap of
               None \<Rightarrow> Some w
             | Some on_actor \<Rightarrow>
                 (let (input, w1) = normal_hit_input env by_actor on_actor w;
                      damage = hit_damage (normal_hit_damage input)
                  in do {
                    (applied, w2) \<leftarrow> apply_resource_damage (cn_actor on_actor) damage w1;
                    Some (case applied of
                            None \<Rightarrow> w2
                          | Some killed \<Rightarrow> note_damage (cn_actor by_actor) (cn_actor on_actor) damage killed w2)
                  }))
          })
     })"

definition process_attack_command :: "CombatEnv \<Rightarrow> SharedConfig \<Rightarrow> AttackCommand \<Rightarrow> World \<Rightarrow> World exec" where
  "process_attack_command env shared c w =
    (case live_entities w c of
       None \<Rightarrow> Some w
     | Some p \<Rightarrow> do {
         (finalized, w1) \<leftarrow> try_finalize_dying_victim shared p w;
         if finalized then Some w1 else strike env shared p w1
       })"

definition process_attack_commands :: "CombatEnv \<Rightarrow> SharedConfig \<Rightarrow> World \<Rightarrow> World exec" where
  "process_attack_commands env shared w =
    (let w1 = release_due_attack_commands env w
     in for_each (process_attack_command env shared) (attack_buffer w1) (w1\<lparr>attack_buffer := []\<rparr>))"

text \<open>Every hit has one of the inputs whose damage is bounded in \<open>Hit_Damage\<close>.\<close>

lemma hit_input_form:
  "\<exists>rolls k. fst (normal_hit_input env by_actor on_actor w) =
    (unmodified (cn_stats by_actor) (cn_stats on_actor) rolls)\<lparr>damage_multiplier := k\<rparr>"
  by (auto simp: normal_hit_input_def unmodified_def split: option.splits prod.splits)

section \<open>Hit points\<close>

definition rt_hp :: "ActorStatsRuntime \<Rightarrow> i32" where
  "rt_hp rt = hp (resources (rt_state rt))"

definition hp_of :: "World \<Rightarrow> Entity \<Rightarrow> i32 option" where
  "hp_of w e = (case c_stats w e of Some rt \<Rightarrow> Some (rt_hp rt) | None \<Rightarrow> map_option rt_hp (c_mob_stats w e))"

definition hps_ok :: "World \<Rightarrow> bool" where
  "hps_ok w \<longleftrightarrow> (\<forall>e h. hp_of w e = Some h \<longrightarrow> in_i32 h)"

definition hp_pos :: "World \<Rightarrow> Entity \<Rightarrow> bool" where
  "hp_pos w e \<longleftrightarrow> (\<exists>h. hp_of w e = Some h \<and> 0 < h)"

lemma hp_pos_cong: "hp_of w e = hp_of w' e \<Longrightarrow> hp_pos w e = hp_pos w' e"
  by (simp add: hp_pos_def)

lemma hit_damage_range: "1 \<le> hit_damage (normal_hit_damage input) \<and> hit_damage (normal_hit_damage input) \<le> i32_MAX"
proof -
  have "in_i32 (i32_sub a b)" for a b by (rule wrap_i32_in_i32)
  then show ?thesis by (auto simp: normal_hit_damage_def Let_def battle_damage_floor_def in_i32_iff)
qed

lemma damage_effect:
  assumes "resource_api (ra_damage d) rt = Some (r, rt')" "1 \<le> d" "d \<le> i32_MAX" "in_i32 (rt_hp rt)"
  obtains res where "r = Inr res" "rar_stat res = Hp" "rar_previous res = rt_hp rt" "rar_current res = rt_hp rt'"
    "rt_hp rt' \<le> rt_hp rt" "in_i32 (rt_hp rt')"
proof -
  let ?a = "ra_damage d" and ?st = "rt_state rt"
  have a: "ra_stat ?a = Hp" "ra_delta ?a = - d" "ra_min_value ?a = i32_MIN" "ra_clamp_to_cap ?a"
    using assms(2,3) by (simp_all add: ra_damage_def ra_spend_def ra_new_def with_min_value_def wrap_i32_id in_i32_iff)
  obtain st' where st': "apply_resource ?st ?a = Some (r, st')" "rt' = rt\<lparr>rt_state := st'\<rparr>"
    using assms(1) by (auto simp: resource_api_def with_api_mut_def split: Option.bind_splits)
  have slot: "slot s Hp = Some (hp (resources s))" for s :: "(unit, unit) ActorStatState" by (simp add: resource_slot_if)
  obtain ub where ub: "upper_bound_for ?st ?a = Inr ub" using a by (simp add: upper_bound_for_def cap_of_stat cap_stat_of_def)
  let ?x = "sat_s 32 (rt_hp rt - d)"
  obtain nxt where nxt: "clamp ?x i32_MIN ub = Some nxt" "put_resource ?st Hp nxt = Some st'"
    "r = Inr \<lparr>rar_stat = Hp, rar_previous = rt_hp rt, rar_current = nxt, rar_applied_delta = i32_sub nxt (rt_hp rt),
       rar_was_clamped = (nxt \<noteq> ?x)\<rparr>"
    using st'(1) ub a by (auto simp: apply_resource_def value_of_slot slot rt_hp_def split: Option.bind_splits)
  have "slot st' Hp = Some nxt"
    using put_resource_slot [of ?st Hp nxt] nxt(2) slot by (metis option.discI option.inject)
  then have hp: "rt_hp rt' = nxt" using st'(2) slot by (simp add: rt_hp_def)
  have "?x \<le> rt_hp rt" "in_i32 ?x" using assms(2,4) by (auto simp: sat_i32_eq in_i32_iff)
  moreover have "nxt = max i32_MIN (min ub ?x)" using nxt(1) by (auto simp: clamp_def split: if_splits)
  ultimately have "nxt \<le> rt_hp rt" "in_i32 nxt" using assms(4) by (auto simp: in_i32_iff)
  then show thesis using hp by (intro that [OF nxt(3)]) simp_all
qed

text \<open>An actor loses its last hit point between two worlds.\<close>

definition felled :: "World \<Rightarrow> World \<Rightarrow> Entity set" where
  "felled w w' = {e. hp_pos w e \<and> \<not> hp_pos w' e}"

text \<open>
  What one or more attacks do: they reveal a list of kills whose victims are distinct, living members of the map and
  exactly the actors felled; nobody gains hit points, and nobody appears or changes identity.
\<close>

definition attacks_do :: "World \<Rightarrow> World \<Rightarrow> ActorHpDepleted list \<Rightarrow> bool" where
  "attacks_do w w' ds \<longleftrightarrow>
    f_hp_depleted (facts w') = f_hp_depleted (facts w) @ ds \<and> hps_ok w' \<and>
    distinct (map (\<lambda>d. ar_entity (hd_victim d)) ds) \<and> (\<lambda>d. ar_entity (hd_victim d)) ` set ds = felled w w' \<and>
    (\<forall>d\<in>set ds. ref_current w (hd_victim d) \<and> hd_killer d \<noteq> None) \<and>
    (\<forall>e. \<not> hp_pos w e \<longrightarrow> \<not> hp_pos w' e) \<and>
    entities w' = entities w \<and> c_net w' = c_net w"

lemma attacks_do_refl: "hps_ok w \<Longrightarrow> attacks_do w w []"
  by (auto simp: attacks_do_def felled_def)

lemma attacks_do_trans:
  assumes "attacks_do w1 w2 ds" "attacks_do w2 w3 es"
  shows "attacks_do w1 w3 (ds @ es)"
proof -
  have mono: "\<And>e. \<not> hp_pos w1 e \<Longrightarrow> \<not> hp_pos w2 e" "\<And>e. \<not> hp_pos w2 e \<Longrightarrow> \<not> hp_pos w3 e"
    using assms by (auto simp: attacks_do_def)
  have f: "felled w1 w3 = felled w1 w2 \<union> felled w2 w3" "felled w1 w2 \<inter> felled w2 w3 = {}"
    using mono by (auto simp: felled_def)
  have "ref_current w1 a \<longleftrightarrow> ref_current w2 a" for a using assms(1) by (simp add: attacks_do_def ref_current_def contains_def)
  then show ?thesis using assms f mono unfolding attacks_do_def by (simp add: image_Un Ball_def)
qed

lemma attacks_do_quiet:
  assumes "hps_ok w" "c_stats w' = c_stats w" "c_mob_stats w' = c_mob_stats w" "f_hp_depleted (facts w') = f_hp_depleted (facts w)"
    "entities w' = entities w" "c_net w' = c_net w"
  shows "attacks_do w w' []"
proof -
  have "hp_of w' = hp_of w" by (rule ext) (simp add: hp_of_def assms split: option.split)
  then have "hp_pos w' = hp_pos w" "hps_ok w'" using assms(1) by (simp_all add: hp_pos_def hps_ok_def fun_eq_iff)
  then show ?thesis using assms by (simp add: attacks_do_def felled_def)
qed

lemma finalize_quiet: "hps_ok w \<Longrightarrow> finalize_dying_actor_death a w = (b, w') \<Longrightarrow> attacks_do w w' []"
  by (rule attacks_do_quiet) (auto simp: finalize_dying_actor_death_def Let_def split: if_splits option.splits)

lemma snapshot_current:
  "combatant_snapshot shared w e = Some (Some s) \<Longrightarrow> ar_entity (cn_actor s) = e \<and> c_net w e = Some (ar_id (cn_actor s))"
  by (auto simp: combatant_snapshot_def Let_def split: option.splits)

lemma normal_hit_input_frame:
  "normal_hit_input env a v w = (input, w1) \<Longrightarrow> w1 = w\<lparr>rng_pos := rng_pos w1\<rparr>"
  by (auto simp: normal_hit_input_def roll_damage_def Let_def split: option.splits prod.splits)

lemma record_change_frame [simp]:
  "c_stats (record_resource_change a r w) = c_stats w" "c_mob_stats (record_resource_change a r w) = c_mob_stats w"
  "f_hp_depleted (facts (record_resource_change a r w)) = f_hp_depleted (facts w)"
  "entities (record_resource_change a r w) = entities w" "c_net (record_resource_change a r w) = c_net w"
  by (simp_all add: record_resource_change_def split: sum.splits)

lemma hp_of_player: "c_stats w e = Some rt \<Longrightarrow> hp_of w e = Some (rt_hp rt)"
  and hp_of_mob: "c_stats w e = None \<Longrightarrow> c_mob_stats w e = Some rt \<Longrightarrow> hp_of w e = Some (rt_hp rt)"
  by (simp_all add: hp_of_def)

lemma damage_world:
  assumes "apply_resource_damage v d w = Some (applied, w')" "hps_ok w" "1 \<le> d" "d \<le> i32_MAX"
  shows "f_hp_depleted (facts w') = f_hp_depleted (facts w) \<and> entities w' = entities w \<and> c_net w' = c_net w \<and> hps_ok w' \<and>
    (\<forall>e. e \<noteq> ar_entity v \<longrightarrow> hp_of w' e = hp_of w e) \<and> (\<not> hp_pos w (ar_entity v) \<longrightarrow> \<not> hp_pos w' (ar_entity v)) \<and>
    (applied = Some True \<longleftrightarrow> ar_entity v \<in> felled w w') \<and> (applied = None \<longrightarrow> hp_of w' = hp_of w)"
proof -
  let ?e = "ar_entity v"
  obtain r where r: "apply_actor_resource v (ra_damage d) w = Some (r, w')"
    "applied = (case r of Inr (Some res) \<Rightarrow> Some (rar_stat res = Hp \<and> 0 < rar_previous res \<and> rar_current res \<le> 0) | _ \<Rightarrow> None)"
    using assms(1) by (auto simp: apply_resource_damage_def split: Option.bind_splits prod.splits)
  have in_e: "contains w ?e" using r(1) by (auto simp: apply_actor_resource_def Let_def split: if_splits)
  consider (player) rt where "c_stats w ?e = Some rt" | (mob) rt where "c_stats w ?e = None" "c_mob_stats w ?e = Some rt"
    | (none) "c_stats w ?e = None" "c_mob_stats w ?e = None" by (cases "c_stats w ?e"; cases "c_mob_stats w ?e") auto
  then show ?thesis
  proof cases
    case player
    with r(1) in_e obtain r0 rt' where x: "resource_api (ra_damage d) rt = Some (r0, rt')" "r = map_sum id Some r0"
      "w' = record_resource_change v r0 (w\<lparr>c_stats := (c_stats w)(?e \<mapsto> rt')\<rparr>)"
      by (auto simp: apply_actor_resource_def Let_def split: Option.bind_splits)
    have "in_i32 (rt_hp rt)" using assms(2) hp_of_player [OF player] by (simp add: hps_ok_def)
    from damage_effect [OF x(1) assms(3,4) this] obtain res where res: "r0 = Inr res" "rar_stat res = Hp"
      "rar_previous res = rt_hp rt" "rar_current res = rt_hp rt'" "rt_hp rt' \<le> rt_hp rt" "in_i32 (rt_hp rt')" .
    have hp: "hp_of w' e = (if e = ?e then Some (rt_hp rt') else hp_of w e)" for e by (simp add: x(3) hp_of_def split: option.split)
    show ?thesis using res r(2) x(2,3) assms(2) hp_of_player [OF player] hp by (auto simp: felled_def hp_pos_def hps_ok_def)
  next
    case mob
    with r(1) in_e obtain r0 rt' where x: "resource_api (ra_damage d) rt = Some (r0, rt')" "r = map_sum id Some r0"
      "w' = record_resource_change v r0 (w\<lparr>c_mob_stats := (c_mob_stats w)(?e \<mapsto> rt')\<rparr>)"
      by (auto simp: apply_actor_resource_def Let_def split: Option.bind_splits)
    have "in_i32 (rt_hp rt)" using assms(2) hp_of_mob [OF mob] by (simp add: hps_ok_def)
    from damage_effect [OF x(1) assms(3,4) this] obtain res where res: "r0 = Inr res" "rar_stat res = Hp"
      "rar_previous res = rt_hp rt" "rar_current res = rt_hp rt'" "rt_hp rt' \<le> rt_hp rt" "in_i32 (rt_hp rt')" .
    have hp: "hp_of w' e = (if e = ?e then Some (rt_hp rt') else hp_of w e)" for e using mob by (simp add: x(3) hp_of_def split: option.split)
    show ?thesis using res r(2) x(2,3) assms(2) hp_of_mob [OF mob] hp by (auto simp: felled_def hp_pos_def hps_ok_def)
  next
    case none
    with r in_e show ?thesis using assms(2)
      by (auto simp: apply_actor_resource_def Let_def felled_def split: Option.bind_splits)
  qed
qed

lemma damage_frame:
  assumes "apply_resource_damage v d w = Some (applied, w')" "hps_ok w" "1 \<le> d" "d \<le> i32_MAX"
  shows "f_hp_depleted (facts w') = f_hp_depleted (facts w)" "entities w' = entities w" "c_net w' = c_net w" "hps_ok w'"
  using damage_world [OF assms] by simp_all

lemma damage_attacks:
  assumes "apply_resource_damage v d w = Some (Some killed, w')" "hps_ok w" "1 \<le> d" "d \<le> i32_MAX" "ref_current w v"
  shows "attacks_do w (note_damage a v d killed w') (if killed then [\<lparr>hd_victim = v, hd_killer = Some a\<rparr>] else [])"
proof -
  let ?w = "note_damage a v d killed w'" and ?ds = "if killed then [\<lparr>hd_victim = v, hd_killer = Some a\<rparr>] else []"
  note D = damage_world [OF assms(1-4)]
  have "hp_of ?w = hp_of w'" by (rule ext) (simp add: note_damage_def Let_def hp_of_def split: option.split)
  then have hp: "hp_pos ?w = hp_pos w'" "hps_ok ?w = hps_ok w'" by (simp_all add: hp_pos_def hps_ok_def fun_eq_iff)
  from D have others: "\<And>e. e \<noteq> ar_entity v \<Longrightarrow> hp_pos w' e = hp_pos w e" by (elim conjE) (intro hp_pos_cong, simp)
  from D have "Some killed = Some True \<longleftrightarrow> ar_entity v \<in> felled w w'" by (elim conjE)
  moreover have "felled w ?w = felled w w'" by (simp add: felled_def hp)
  moreover have "felled w w' \<subseteq> {ar_entity v}" using others by (auto simp: felled_def)
  ultimately have "felled w ?w = (if killed then {ar_entity v} else {})" by (cases killed) auto
  then have "(\<lambda>d. ar_entity (hd_victim d)) ` set ?ds = felled w ?w" by simp
  moreover note damage_frame [OF assms(1-4)]
  then have "entities ?w = entities w" "c_net ?w = c_net w" "hps_ok ?w" "f_hp_depleted (facts ?w) = f_hp_depleted (facts w) @ ?ds"
    by (simp_all add: note_damage_def Let_def hp(2) [unfolded note_damage_def Let_def])
  moreover from D have "\<not> hp_pos w (ar_entity v) \<longrightarrow> \<not> hp_pos w' (ar_entity v)" by (elim conjE)
  then have "\<not> hp_pos w e \<longrightarrow> \<not> hp_pos ?w e" for e using others hp by (cases "e = ar_entity v") simp_all
  moreover have "\<forall>d\<in>set ?ds. ref_current w (hd_victim d) \<and> hd_killer d \<noteq> None" "distinct (map (\<lambda>d. ar_entity (hd_victim d)) ?ds)"
    using assms(5) by simp_all
  ultimately show ?thesis unfolding attacks_do_def by blast
qed

lemma attacks_do_same_stats:
  assumes "c_stats w0 = c_stats w" "c_mob_stats w0 = c_mob_stats w" "facts w0 = facts w" "entities w0 = entities w" "c_net w0 = c_net w"
  shows "attacks_do w0 w' ds = attacks_do w w' ds" "hps_ok w0 = hps_ok w" "ref_current w0 a = ref_current w a"
proof -
  have "hp_of w0 = hp_of w" by (rule ext) (simp add: hp_of_def assms split: option.split)
  then have hp: "hp_pos w0 = hp_pos w" "hps_ok w0 = hps_ok w" by (simp_all add: hp_pos_def hps_ok_def fun_eq_iff)
  show r: "ref_current w0 a = ref_current w a" for a using assms by (simp add: ref_current_def contains_def)
  show "hps_ok w0 = hps_ok w" by (rule hp(2))
  show "attacks_do w0 w' ds = attacks_do w w' ds" using assms by (simp add: attacks_do_def felled_def hp(1) r)
qed

lemma damage_misses:
  assumes "apply_resource_damage v d w = Some (None, w')" "hps_ok w" "1 \<le> d" "d \<le> i32_MAX"
  shows "attacks_do w w' []"
proof -
  note D = damage_world [OF assms]
  from D have "hp_of w' = hp_of w" by (elim conjE) simp
  then have "hp_pos w' = hp_pos w" by (simp add: hp_pos_def fun_eq_iff)
  moreover note damage_frame [OF assms(1-4)]
  ultimately show ?thesis by (simp add: attacks_do_def felled_def)
qed

lemma strike_cases:
  assumes "strike env shared p w = Some w'"
  obtains "w' = w" | by_actor on_actor input w1 applied w2 where
    "combatant_snapshot shared w (snd p) = Some (Some on_actor)" "normal_hit_input env by_actor on_actor w = (input, w1)"
    "apply_resource_damage (cn_actor on_actor) (hit_damage (normal_hit_damage input)) w1 = Some (applied, w2)"
    "w' = (case applied of None \<Rightarrow> w2
       | Some killed \<Rightarrow> note_damage (cn_actor by_actor) (cn_actor on_actor) (hit_damage (normal_hit_damage input)) killed w2)"
proof (cases "\<not> actor_can_act w (fst p) \<or> \<not> actor_can_take_combat_damage w (snd p)")
  case False
  then obtain s where s: "combatant_snapshot shared w (fst p) = Some s" using assms by (auto simp: strike_def split: Option.bind_splits)
  show thesis
  proof (cases s)
    case (Some by_actor)
    with False s assms obtain s2 where s2: "combatant_snapshot shared w (snd p) = Some s2"
      by (auto simp: strike_def split: Option.bind_splits)
    show thesis
    proof (cases s2)
      case (Some on_actor)
      obtain input w1 where i: "normal_hit_input env by_actor on_actor w = (input, w1)" by (cases "normal_hit_input env by_actor on_actor w")
      then obtain applied w2 where a: "apply_resource_damage (cn_actor on_actor) (hit_damage (normal_hit_damage input)) w1 = Some (applied, w2)"
        using assms False s s2 \<open>s = Some by_actor\<close> Some
        by (cases "apply_resource_damage (cn_actor on_actor) (hit_damage (normal_hit_damage input)) w1") (auto simp: strike_def Let_def)
      show thesis using assms False s s2 \<open>s = Some by_actor\<close> Some i a that(2) [OF _ i a] by (simp add: strike_def Let_def)
    qed (use assms False s s2 \<open>s = Some by_actor\<close> that(1) in \<open>simp add: strike_def\<close>)
  qed (use assms False s that(1) in \<open>simp add: strike_def\<close>)
qed (use assms that(1) in \<open>simp add: strike_def\<close>)

lemma strike_attacks:
  assumes "strike env shared p w = Some w'" "hps_ok w" "exist_in w p"
  shows "\<exists>ds. attacks_do w w' ds"
  using assms(1)
proof (cases rule: strike_cases)
  case 1
  then show ?thesis using attacks_do_refl [OF assms(2)] by blast
next
  case (2 by_actor on_actor input w1 applied w2)
  obtain n where w1: "w1 = w\<lparr>rng_pos := n\<rparr>" using normal_hit_input_frame [OF 2(2)] by blast
  have same: "c_stats w1 = c_stats w" "c_mob_stats w1 = c_mob_stats w" "facts w1 = facts w" "entities w1 = entities w" "c_net w1 = c_net w"
    by (simp_all add: w1)
  note S = attacks_do_same_stats [OF same]
  have d: "1 \<le> hit_damage (normal_hit_damage input)" "hit_damage (normal_hit_damage input) \<le> i32_MAX" using hit_damage_range by auto
  have r: "ref_current w1 (cn_actor on_actor)"
    using snapshot_current [OF 2(1)] assms(3) by (simp add: ref_current_def exist_in_def w1 contains_def)
  have ok: "hps_ok w1" using assms(2) S(2) by simp
  have "\<exists>ds. attacks_do w1 w' ds"
  proof (cases applied)
    case None
    then show ?thesis using damage_misses [OF _ ok d] 2(3,4) by auto
  next
    case (Some killed)
    then show ?thesis using damage_attacks [OF _ ok d r] 2(3,4) by auto
  qed
  then show ?thesis using S(1) by simp
qed

lemma finalize_try:
  assumes "try_finalize_dying_victim shared p w = Some (b, w')" "hps_ok w"
  shows "attacks_do w w' []"
  using assms attacks_do_refl [OF assms(2)] finalize_quiet [OF assms(2)]
  by (auto simp: try_finalize_dying_victim_def split: if_splits Option.bind_splits option.splits)

lemma command_attacks:
  assumes "process_attack_command env shared c w = Some w'" "hps_ok w"
  shows "\<exists>ds. attacks_do w w' ds"
proof (cases "live_entities w c")
  case None
  then show ?thesis using assms attacks_do_refl by (auto simp: process_attack_command_def)
next
  case (Some p)
  then obtain b w1 where f: "try_finalize_dying_victim shared p w = Some (b, w1)"
    using assms(1) by (cases "try_finalize_dying_victim shared p w") (auto simp: process_attack_command_def)
  note q = finalize_try [OF f assms(2)]
  then have ok: "hps_ok w1" and ents: "entities w1 = entities w" by (simp_all add: attacks_do_def)
  show ?thesis
  proof (cases b)
    case True
    then show ?thesis using q f Some assms(1) by (auto simp: process_attack_command_def)
  next
    case False
    have "exist_in w1 p" using Some ents by (auto simp: live_entities_def exist_in_def contains_def split: if_splits)
    moreover have "strike env shared p w1 = Some w'" using False f Some assms(1) by (simp add: process_attack_command_def)
    ultimately obtain ds where "attacks_do w1 w' ds" using strike_attacks [OF _ ok] by blast
    then show ?thesis using attacks_do_trans [OF q] by auto
  qed
qed

lemma commands_attacks:
  assumes "for_each (process_attack_command env shared) cs w = Some w'" "hps_ok w"
  shows "\<exists>ds. attacks_do w w' ds"
  using assms
proof (induction cs arbitrary: w)
  case Nil
  then show ?case using attacks_do_refl by auto
next
  case (Cons c cs)
  then obtain w1 where w1: "process_attack_command env shared c w = Some w1" "for_each (process_attack_command env shared) cs w1 = Some w'"
    by (auto split: option.splits)
  then obtain ds where ds: "attacks_do w w1 ds" using command_attacks Cons.prems(2) by blast
  then obtain es where "attacks_do w1 w' es" using Cons.IH [OF w1(2)] by (auto simp: attacks_do_def)
  then show ?case using attacks_do_trans [OF ds] by blast
qed


section \<open>Attacks that fall later\<close>

definition delayed_command :: "DelayedAttackCommand \<Rightarrow> AttackCommand" where
  "delayed_command s = (case da_kind s of Resolve c \<Rightarrow> c | ReleaseProjectile c flight \<Rightarrow> c)"

text \<open>What releasing attacks leaves alone.\<close>

definition same_but_attacks :: "World \<Rightarrow> World \<Rightarrow> bool" where
  "same_but_attacks w w' \<longleftrightarrow> w'\<lparr>attack_buffer := attack_buffer w, delayed_attacks := delayed_attacks w\<rparr> = w"

lemma same_but_attacks_sel:
  assumes "same_but_attacks w w'"
  shows "c_stats w' = c_stats w" "c_mob_stats w' = c_mob_stats w" "facts w' = facts w" "entities w' = entities w" "c_net w' = c_net w"
  using arg_cong [OF assms [unfolded same_but_attacks_def], of c_stats] arg_cong [OF assms [unfolded same_but_attacks_def], of c_mob_stats]
    arg_cong [OF assms [unfolded same_but_attacks_def], of facts] arg_cong [OF assms [unfolded same_but_attacks_def], of entities]
    arg_cong [OF assms [unfolded same_but_attacks_def], of c_net] by simp_all

lemma same_but_attacks_trans: "same_but_attacks w1 w2 \<Longrightarrow> same_but_attacks w2 w3 \<Longrightarrow> same_but_attacks w1 w3"
  by (cases w1; cases w2; cases w3) (simp add: same_but_attacks_def)

lemma release_one_same: "same_but_attacks w (release_one env now w s)"
  by (auto simp: same_but_attacks_def release_one_def enqueue_live_attack_command_def Let_def
    split: DelayedAttackKind.split option.split)

text \<open>An attack still under way: queued for this frame or for a later one.\<close>

definition attacks_in_flight :: "World \<Rightarrow> AttackCommand multiset" where
  "attacks_in_flight w = mset (attack_buffer w) + mset (map delayed_command (delayed_attacks w))"

lemma release_one_flight:
  "attacks_in_flight (release_one env now w s) =
    attacks_in_flight w + (if exist_in w (command_entities (delayed_command s)) then {#delayed_command s#} else {#})"
  by (simp add: release_one_def enqueue_live_attack_command_def live_entities_def attacks_in_flight_def delayed_command_def Let_def
    split: DelayedAttackKind.split prod.split)

lemma release_one_pending:
  "list_all (\<lambda>s. now < da_due_at s) (delayed_attacks w) \<Longrightarrow> list_all (\<lambda>s. now < da_due_at s) (delayed_attacks (release_one env now w s))"
  by (simp add: release_one_def enqueue_live_attack_command_def Let_def split: DelayedAttackKind.split option.split)

lemma release_all:
  "same_but_attacks w (foldl (release_one env now) w due) \<and>
   attacks_in_flight (foldl (release_one env now) w due) =
     attacks_in_flight w + mset (filter (\<lambda>c. exist_in w (command_entities c)) (map delayed_command due)) \<and>
   (list_all (\<lambda>s. now < da_due_at s) (delayed_attacks w) \<longrightarrow>
    list_all (\<lambda>s. now < da_due_at s) (delayed_attacks (foldl (release_one env now) w due)))"
proof (induction due arbitrary: w)
  case Nil
  show ?case by (simp add: same_but_attacks_def)
next
  case (Cons s due)
  let ?w = "release_one env now w s"
  have "exist_in ?w p = exist_in w p" for p
    by (simp add: exist_in_def contains_def same_but_attacks_sel(4) [OF release_one_same])
  then show ?case using Cons.IH [of ?w] release_one_flight [of env now w s] release_one_pending [of now w env s]
    same_but_attacks_trans [OF release_one_same [of w env now s], of "foldl (release_one env now) ?w due"] by simp
qed

lemma release_due_same: "same_but_attacks w (release_due_attack_commands env w)"
proof -
  let ?w = "w\<lparr>delayed_attacks := filter (\<lambda>s. \<not> da_due_at s \<le> sim_now w) (delayed_attacks w)\<rparr>"
  have "same_but_attacks w ?w" by (simp add: same_but_attacks_def)
  with release_all [of ?w env "sim_now w"] show ?thesis
    unfolding release_due_attack_commands_def Let_def by (blast intro: same_but_attacks_trans)
qed

text \<open>
  C25. Releasing the attacks that are due duplicates none and loses none but those whose attacker or victim has left the map:
  as multisets, what is in flight afterwards is what was in flight, less the due attacks of an entity that is gone.
  And nothing that is due stays behind in the delayed buffer, projectiles that took off this frame included.
\<close>

theorem due_attacks_land_once:
  defines "gone w s \<equiv> da_due_at s \<le> sim_now w \<and> \<not> exist_in w (command_entities (delayed_command s))"
  shows "attacks_in_flight (release_due_attack_commands env w) =
      mset (attack_buffer w) + mset (map delayed_command (filter (\<lambda>s. \<not> gone w s) (delayed_attacks w))) \<and>
    list_all (\<lambda>s. sim_now w < da_due_at s) (delayed_attacks (release_due_attack_commands env w))"
proof -
  let ?due = "\<lambda>s. da_due_at s \<le> sim_now w"
  let ?w = "w\<lparr>delayed_attacks := filter (\<lambda>s. \<not> ?due s) (delayed_attacks w)\<rparr>"
  note A = release_all [of ?w env "sim_now w" "filter ?due (delayed_attacks w)"]
  have "exist_in ?w p = exist_in w p" for p by (simp add: exist_in_def contains_def)
  then have "mset (map delayed_command (filter (\<lambda>s. \<not> ?due s) xs)) +
      mset (filter (\<lambda>c. exist_in ?w (command_entities c)) (map delayed_command (filter ?due xs))) =
    mset (map delayed_command (filter (\<lambda>s. \<not> gone w s) xs))" for xs
    by (induction xs) (auto simp: gone_def)
  then have "attacks_in_flight ?w + mset (filter (\<lambda>c. exist_in ?w (command_entities c)) (map delayed_command (filter ?due (delayed_attacks w)))) =
    mset (attack_buffer w) + mset (map delayed_command (filter (\<lambda>s. \<not> gone w s) (delayed_attacks w)))"
    by (simp add: attacks_in_flight_def union_assoc)
  moreover have "list_all (\<lambda>s. sim_now w < da_due_at s) (delayed_attacks ?w)" by (simp add: list_all_iff not_le)
  ultimately show ?thesis using A by (simp add: release_due_attack_commands_def Let_def)
qed

text \<open>
  C19. The attacks of a frame report every kill, and report it once: the depletion facts they add name distinct victims, and
  the victims are exactly the actors whose hit points went from positive to zero or below during the frame.  Each
  victim named is on the map under the network identity it had, each fact names a killer, and no attack gives anybody
  hit points back.
\<close>

theorem kills_reported_once:
  assumes "process_attack_commands env shared w = Some w'" "hps_ok w"
  shows "\<exists>ds. f_hp_depleted (facts w') = f_hp_depleted (facts w) @ ds \<and> distinct (map (\<lambda>d. ar_entity (hd_victim d)) ds) \<and>
    (\<forall>e. e \<in> (\<lambda>d. ar_entity (hd_victim d)) ` set ds \<longleftrightarrow> hp_pos w e \<and> \<not> hp_pos w' e) \<and>
    (\<forall>d\<in>set ds. ref_current w (hd_victim d) \<and> hd_killer d \<noteq> None) \<and>
    (\<forall>e. hp_pos w' e \<longrightarrow> hp_pos w e) \<and> hps_ok w'"
proof -
  let ?w = "release_due_attack_commands env w" and ?b = "\<lambda>w. w\<lparr>attack_buffer := []\<rparr>"
  have "same_but_attacks w (?b ?w)"
    using release_due_same [of w env] by (rule same_but_attacks_trans) (simp add: same_but_attacks_def)
  note S = attacks_do_same_stats [OF same_but_attacks_sel [OF this]]
  have "for_each (process_attack_command env shared) (attack_buffer ?w) (?b ?w) = Some w'"
    using assms(1) by (simp add: process_attack_commands_def Let_def)
  from commands_attacks [OF this] S(1,2) assms(2) obtain ds where ds: "attacks_do w w' ds" by auto
  then show ?thesis unfolding attacks_do_def felled_def by (intro exI [of _ ds]) blast
qed

section \<open>A kill\<close>

text \<open>Two dogs, the second with one hit point left, and an attack of the first on the second that is due.\<close>

definition dice :: CombatEnv where
  "dice = \<lparr>ce_range = (\<lambda>n lo hi. (lo, Suc n)), ce_travel_ms = (\<lambda>_ _ _ _. 0)\<rparr>"

definition dog_with_hp :: "i32 \<Rightarrow> ActorStatsRuntime" where
  "dog_with_hp h = (let st = state_new KMob in runtime_new (mob_source_from_proto dog) (st\<lparr>resources := (resources st)\<lparr>hp := h\<rparr>\<rparr>))"

definition dog_fight :: World where
  "dog_fight = empty_world\<lparr>entities := [1, 2], c_net := [1 \<mapsto> 11, 2 \<mapsto> 12], c_mob := [1 \<mapsto> 101, 2 \<mapsto> 101],
    c_mob_stats := [1 \<mapsto> dog_with_hp 126, 2 \<mapsto> dog_with_hp 1], sim_now := 1000,
    delayed_attacks := [\<lparr>da_due_at = 990, da_kind = Resolve (MobBasicAttack 1 2)\<rparr>]\<rparr>"

lemma dog_fight_kills:
  "map_option (\<lambda>w. f_hp_depleted (facts w)) (process_attack_commands dice dog_config dog_fight) =
    Some [\<lparr>hd_victim = \<lparr>ar_entity = 2, ar_id = 12\<rparr>, hd_killer = Some \<lparr>ar_entity = 1, ar_id = 11\<rparr>\<rparr>]"
  by code_simp

lemma dog_fight_hps: "hps_ok dog_fight"
  by (auto simp: hps_ok_def hp_of_def dog_fight_def empty_world_def rt_hp_def dog_with_hp_def runtime_new_def Let_def in_i32_iff
    split: if_splits)

theorem kills_reported_once_witness:
  "\<exists>w'. process_attack_commands dice dog_config dog_fight = Some w' \<and> \<not> hp_pos w' 2 \<and> hp_pos dog_fight 2"
proof -
  let ?d = "\<lparr>hd_victim = \<lparr>ar_entity = 2, ar_id = 12\<rparr>, hd_killer = Some \<lparr>ar_entity = 1, ar_id = 11\<rparr>\<rparr>"
  obtain w' where w': "process_attack_commands dice dog_config dog_fight = Some w'" "f_hp_depleted (facts w') = [?d]"
    using dog_fight_kills by auto
  have "f_hp_depleted (facts dog_fight) = []" by (simp add: dog_fight_def empty_world_def facts_default_def)
  then obtain ds where ds: "ds = [?d]" "\<forall>e. e \<in> (\<lambda>d. ar_entity (hd_victim d)) ` set ds \<longleftrightarrow> hp_pos dog_fight e \<and> \<not> hp_pos w' e"
    using kills_reported_once [OF w'(1) dog_fight_hps] w'(2) by auto
  from ds(2) [rule_format, of 2] w'(1) show ?thesis by (auto simp: ds(1))
qed

end
