(* ===== verification/Kill_Rewards.thy ===== *)
theory Kill_Rewards
  imports Actor_Life Player_Hydration
begin

text \<open>
  Experience for kills (\<^verbatim>\<open>runtime/rewards.rs\<close>) and the synchronisation of a player's stats
  (\<^verbatim>\<open>runtime/player/stat_sync.rs\<close>).  The last hit on a mob leaves a claim on it, which is paid when its death is
  final.  The growth rolls of the stat engine are the parameter \<open>roll\<close>.
\<close>

section \<open>Synchronising stats\<close>

definition apply_public_state :: "ActorPublicState option \<Rightarrow> PlayerAppearance \<Rightarrow> PlayerAppearance" where
  "apply_public_state update app =
    (case update of
       None \<Rightarrow> app
     | Some u \<Rightarrow> app\<lparr>ap_level := pub_level (pub_stats u), ap_move_speed := pub_move_speed (pub_stats u),
                    ap_attack_speed := pub_attack_speed (pub_stats u)\<rparr>)"

definition normalize_player :: "roll \<Rightarrow> Entity \<Rightarrow> World \<Rightarrow> World exec" where
  "normalize_player roll e w =
    (case (c_stats w e, c_appearance w e) of
       (Some rt, Some app) \<Rightarrow> do {
         (sync, rt') \<leftarrow> normalize roll rt;
         Some (w\<lparr>c_stats := (c_stats w)(e \<mapsto> rt'),
                 c_appearance := (c_appearance w)(e \<mapsto> apply_public_state (sync_public_state sync) app)\<rparr>)
       }
     | _ \<Rightarrow> Some w)"

definition normalize_player_stats_for_gameplay :: "roll \<Rightarrow> World \<Rightarrow> World exec" where
  "normalize_player_stats_for_gameplay roll w = for_each (normalize_player roll) (having w (c_stats w)) w"

definition stat_updates_from_deltas :: "StatDelta list \<Rightarrow> (Stat \<times> i32) list" where
  "stat_updates_from_deltas ds = map (\<lambda>d. (delta_stat d, delta_value d)) ds"

definition flush_player :: "roll \<Rightarrow> Entity \<Rightarrow> World \<Rightarrow> World exec" where
  "flush_player roll e w =
    (case (c_net w e, c_stats w e, c_appearance w e) of
       (Some entity_id, Some rt, Some app) \<Rightarrow> do {
         (drained, rt') \<leftarrow> drain_sync roll rt;
         let w1 = w\<lparr>c_stats := (c_stats w)(e \<mapsto> rt'),
                    c_appearance := (c_appearance w)(e \<mapsto> apply_public_state (drained_public_state drained) app)\<rparr>;
         if drained_is_empty drained \<or> drained_deltas drained = [] then Some w1
         else
           let w2 = mark_player_dirty w1 e in
           (case c_outbox w2 e of
              None \<Rightarrow> Some w2
            | Some ob \<Rightarrow>
                Some (w2\<lparr>c_outbox := (c_outbox w2)(e \<mapsto>
                  push_reliable ob (OtherEvent (EvSetEntityStats entity_id (stat_updates_from_deltas (drained_deltas drained)))))\<rparr>))
       }
     | _ \<Rightarrow> Some w)"

definition flush_player_stats_sync :: "roll \<Rightarrow> World \<Rightarrow> World exec" where
  "flush_player_stats_sync roll w =
    for_each (\<lambda>e w. if \<not> contains w e then Some w else flush_player roll e w) (player_entities_on_map w) w"

section \<open>Rewards\<close>

record MobExpReward =
  mr_base_exp :: i64
  mr_level :: i32

record AppliedExpReward =
  show_stat_point_step :: bool
  applied_level_up :: "i32 option"

datatype RewardError = MissingPlayerState | InvalidStatWrite Stat StatWriteError

definition mob_exp_reward :: "SharedConfig \<Rightarrow> World \<Rightarrow> Entity \<Rightarrow> MobExpReward option" where
  "mob_exp_reward shared w e =
    map_option (\<lambda>proto. \<lparr>mr_base_exp = mp_experience proto, mr_level = min (mp_level proto) i32_MAX\<rparr>)
      (Option.bind (c_mob w e) (sc_mobs shared))"

definition record_claim :: "SharedConfig \<Rightarrow> World \<Rightarrow> ActorHpDepleted \<Rightarrow> World" where
  "record_claim shared w death =
    (case hd_killer death of
       None \<Rightarrow> w
     | Some killer \<Rightarrow>
         let victim = ar_entity (hd_victim death) in
         if \<not> contains w victim \<or> \<not> contains w (ar_entity killer) \<or> c_player w (ar_entity killer) = None then w
         else if c_mob w victim = None then w
         else case mob_exp_reward shared w victim of
           None \<Rightarrow> w
         | Some reward \<Rightarrow> if mr_base_exp reward \<le> 0 then w else w\<lparr>c_claim := (c_claim w)(victim \<mapsto> killer)\<rparr>)"

definition record_mob_death_reward_claims :: "SharedConfig \<Rightarrow> World \<Rightarrow> World" where
  "record_mob_death_reward_claims shared w = foldl (record_claim shared) w (f_hp_depleted (facts w))"

definition enqueue_exp_reward_visuals :: "ActorRef \<Rightarrow> ActorRef \<Rightarrow> AppliedExpReward \<Rightarrow> World \<Rightarrow> World" where
  "enqueue_exp_reward_visuals source recipient applied w =
    (let f = facts w;
         f1 = (if show_stat_point_step applied
               then f\<lparr>f_point_effects := f_point_effects f @ [LevelStepEffect recipient]\<rparr> else f);
         f2 = (case applied_level_up applied of
                 None \<Rightarrow> f1
               | Some level \<Rightarrow> f1\<lparr>f_point_effects := f_point_effects f1 @ [LevelUpEffect recipient level]\<rparr>)
     in w\<lparr>facts := f2\<lparr>f_projectile_effects := f_projectile_effects f2 @ [(source, recipient)]\<rparr>\<rparr>)"

text \<open>
  The writes of the code happen in place, so a failing one leaves those before it: each step returns the result and the
  state reached.  The first failure ends the sequence (\<^verbatim>\<open>?\<close>).
\<close>

definition map_stat_write :: "Stat \<Rightarrow> StatWriteError + 'a \<Rightarrow> RewardError + unit" where
  "map_stat_write s r = map_sum (InvalidStatWrite s) (\<lambda>_. ()) r"

definition set_full :: "ActorStatSource \<Rightarrow> Stat \<Rightarrow> i32 \<Rightarrow>
    (RewardError + unit) \<times> (unit, unit) ActorStatState \<Rightarrow> ((RewardError + unit) \<times> (unit, unit) ActorStatState) exec" where
  "set_full src s v p =
    (case p of
       (Inl e, st) \<Rightarrow> Some (Inl e, st)
     | (Inr _, st) \<Rightarrow> do { (r, st') \<leftarrow> set_resource st s v; Some (map_stat_write s r, st') })"

definition apply_reward_stats :: "roll \<Rightarrow> PlayerMobExpRewardOutcome \<Rightarrow> ActorStatsRuntime \<Rightarrow>
    ((RewardError + unit) \<times> ActorStatsRuntime) exec" where
  "apply_reward_stats roll outcome rt =
    (let current_stat_points = read_packet (rt_state rt) StatPoints in do {
       (r, rt1) \<leftarrow> with_api_mut rt (\<lambda>src st.
         let st1 = actor_set_player_progression st (mob_progression outcome) in
         if mob_stat_points_gained outcome \<le> 0 then Some (Inr (), st1)
         else do {
           (r, st2) \<leftarrow> api_set_stored_stat src st1 StatPoints (sat_s 32 (current_stat_points + mob_stat_points_gained outcome));
           Some (map_stat_write StatPoints r, st2)
         });
       (case r of
          Inl e \<Rightarrow> Some (Inl e, rt1)
        | Inr _ \<Rightarrow>
            if mob_level_steps_gained outcome \<le> 0 then Some (Inr (), rt1)
            else do {
              (_, rt2) \<leftarrow> normalize roll rt1;
              with_api_mut rt2 (\<lambda>src st. do {
                max_hp \<leftarrow> read_limited src st MaxHp;
                max_sp \<leftarrow> read_limited src st MaxSp;
                max_stamina \<leftarrow> read_limited src st MaxStamina;
                p1 \<leftarrow> set_full src Hp max_hp (Inr (), st);
                p2 \<leftarrow> set_full src Sp max_sp p1;
                set_full src Stamina max_stamina p2
              })
            })
     })"

definition current_progress :: "PlayerGameplayBootstrap \<Rightarrow> ActorStatsRuntime \<Rightarrow> PlayerProgressionState" where
  "current_progress prog rt =
    progression_new (bs_level prog) (max 0 (min u32_MAX (bs_exp_in_level prog)))
      (max 0 (min i32_MAX (read_packet (rt_state rt) NextExp)))"

definition apply_player_exp_reward :: "roll \<Rightarrow> SharedConfig \<Rightarrow> Entity \<Rightarrow> MobExpReward \<Rightarrow> World \<Rightarrow>
    ((RewardError + AppliedExpReward option) \<times> World) exec" where
  "apply_player_exp_reward roll shared e reward w =
    (case (c_progression w e, c_stats w e, c_appearance w e) of
       (Some prog, Some rt, Some app) \<Rightarrow>
         do {
            res \<leftarrow> apply_mob_exp_reward (sc_player_stats shared) (current_progress prog rt) (mr_level reward) (mr_base_exp reward);
            (case res of
               None \<Rightarrow> Some (Inr None, w)
             | Some outcome \<Rightarrow>
                 (let w1 = w\<lparr>c_progression := (c_progression w)(e \<mapsto>
                        prog\<lparr>bs_level := pp_level (mob_progression outcome),
                                    bs_exp_in_level := exp_in_level (mob_progression outcome)\<rparr>)\<rparr>
                  in do {
                    (r, rt1) \<leftarrow> apply_reward_stats roll outcome rt;
                    (case r of
                       Inl err \<Rightarrow> Some (Inl err, w1\<lparr>c_stats := (c_stats w1)(e \<mapsto> rt1)\<rparr>)
                     | Inr _ \<Rightarrow> do {
                         (sync, rt2) \<leftarrow> normalize roll rt1;
                         Some (Inr (Some \<lparr>show_stat_point_step = (0 < mob_stat_points_gained outcome),
                                          applied_level_up = level_up outcome\<rparr>),
                           w1\<lparr>c_stats := (c_stats w1)(e \<mapsto> rt2),
                              c_appearance := (c_appearance w1)(e \<mapsto> apply_public_state (sync_public_state sync) app)\<rparr>)
                       })
                  }))
         }
     | _ \<Rightarrow> Some (Inl MissingPlayerState, w))"

definition killer_is_gone :: "World \<Rightarrow> ActorRef \<Rightarrow> bool" where
  "killer_is_gone w killer \<longleftrightarrow> \<not> contains w (ar_entity killer) \<or> c_player w (ar_entity killer) = None \<or>
    c_net w (ar_entity killer) \<noteq> Some (ar_id killer)"

definition pay_claim :: "roll \<Rightarrow> SharedConfig \<Rightarrow> ActorRef \<Rightarrow> ActorRef \<Rightarrow> MobExpReward \<Rightarrow> World \<Rightarrow> World exec" where
  "pay_claim roll shared dead killer reward w = do {
     (r, w1) \<leftarrow> apply_player_exp_reward roll shared (ar_entity killer) reward w;
     Some (case r of
             Inr (Some applied) \<Rightarrow> enqueue_exp_reward_visuals dead killer applied (mark_player_dirty w1 (ar_entity killer))
           | _ \<Rightarrow> w1)
   }"

definition drop_claim :: "Entity \<Rightarrow> World \<Rightarrow> World" where
  "drop_claim e w = w\<lparr>c_claim := (c_claim w)(e := None)\<rparr>"

definition grant_reward :: "roll \<Rightarrow> SharedConfig \<Rightarrow> ActorRef \<Rightarrow> World \<Rightarrow> World exec" where
  "grant_reward roll shared dead w =
    (if \<not> contains w (ar_entity dead) then Some w
     else case c_claim w (ar_entity dead) of
       None \<Rightarrow> Some w
     | Some killer \<Rightarrow>
         if killer_is_gone w killer then Some (drop_claim (ar_entity dead) w)
         else case mob_exp_reward shared w (ar_entity dead) of
           None \<Rightarrow> Some w
         | Some reward \<Rightarrow> map_option (drop_claim (ar_entity dead)) (pay_claim roll shared dead killer reward w))"

definition grant_mob_death_rewards :: "roll \<Rightarrow> SharedConfig \<Rightarrow> World \<Rightarrow> World exec" where
  "grant_mob_death_rewards roll shared w = for_each (grant_reward roll shared) (f_death_finalized (facts w)) w"

section \<open>A claim is paid once\<close>

definition with_progress :: "PlayerMobExpRewardOutcome \<Rightarrow> PlayerGameplayBootstrap \<Rightarrow> PlayerGameplayBootstrap" where
  "with_progress outcome prog =
    prog\<lparr>bs_level := pp_level (mob_progression outcome), bs_exp_in_level := exp_in_level (mob_progression outcome)\<rparr>"

lemma apply_reward_cases:
  assumes "apply_player_exp_reward roll shared e reward w = Some (r, w')"
  obtains "w' = w" "c_progression w e = None \<or> c_stats w e = None \<or> c_appearance w e = None"
  | prog rt where "w' = w" "c_progression w e = Some prog" "c_stats w e = Some rt"
      "apply_mob_exp_reward (sc_player_stats shared) (current_progress prog rt) (mr_level reward) (mr_base_exp reward) = Some None"
  | prog rt outcome rt' app' where "c_progression w e = Some prog" "c_stats w e = Some rt"
      "apply_mob_exp_reward (sc_player_stats shared) (current_progress prog rt) (mr_level reward) (mr_base_exp reward) = Some (Some outcome)"
      "w' = w\<lparr>c_progression := (c_progression w)(e \<mapsto> with_progress outcome prog), c_stats := (c_stats w)(e \<mapsto> rt'),
              c_appearance := (c_appearance w)(e \<mapsto> app')\<rparr>"
proof (cases "c_progression w e = None \<or> c_stats w e = None \<or> c_appearance w e = None")
  case True
  then show thesis using assms that(1) by (auto simp: apply_player_exp_reward_def split: option.splits)
next
  case False
  then obtain prog rt app where c: "c_progression w e = Some prog" "c_stats w e = Some rt" "c_appearance w e = Some app" by auto
  let ?res = "apply_mob_exp_reward (sc_player_stats shared) (current_progress prog rt) (mr_level reward) (mr_base_exp reward)"
  obtain res where res: "?res = Some res"
    using assms c by (cases ?res) (simp_all add: apply_player_exp_reward_def)
  show thesis
  proof (cases res)
    case None
    then show thesis using assms c res that(2) by (simp add: apply_player_exp_reward_def)
  next
    case (Some outcome)
    obtain r1 rt1 where r1: "apply_reward_stats roll outcome rt = Some (r1, rt1)"
      using assms c res Some by (cases "apply_reward_stats roll outcome rt") (auto simp: apply_player_exp_reward_def Let_def)
    show thesis
    proof (cases r1)
      case (Inl err)
      have "w' = w\<lparr>c_progression := (c_progression w)(e \<mapsto> with_progress outcome prog), c_stats := (c_stats w)(e \<mapsto> rt1),
          c_appearance := (c_appearance w)(e \<mapsto> app)\<rparr>"
        using assms c res Some r1 Inl
        by (auto simp: apply_player_exp_reward_def Let_def with_progress_def fun_upd_idem intro!: World.equality)
      from that(3) [OF c(1,2) _ this] show thesis using res Some by simp
    next
      case (Inr u)
      obtain sync rt2 where n: "normalize roll rt1 = Some (sync, rt2)"
        using assms c res Some r1 Inr by (cases "normalize roll rt1") (auto simp: apply_player_exp_reward_def Let_def)
      have "w' = w\<lparr>c_progression := (c_progression w)(e \<mapsto> with_progress outcome prog), c_stats := (c_stats w)(e \<mapsto> rt2),
          c_appearance := (c_appearance w)(e \<mapsto> apply_public_state (sync_public_state sync) app)\<rparr>"
        using assms c res Some r1 Inr n by (simp add: apply_player_exp_reward_def Let_def with_progress_def)
      from that(3) [OF c(1,2) _ this] show thesis using res Some by simp
    qed
  qed
qed

lemma apply_reward_frame:
  assumes "apply_player_exp_reward roll shared e reward w = Some (r, w')"
  shows "(\<exists>p s a. w' = w\<lparr>c_progression := p, c_stats := s, c_appearance := a\<rparr>) \<and>
    (\<forall>x. x \<noteq> e \<longrightarrow> c_progression w' x = c_progression w x)"
  using assms
proof (cases rule: apply_reward_cases)
  case (3 prog rt outcome rt' app')
  then show ?thesis by auto
qed (auto intro!: exI [of _ "c_progression w"] exI [of _ "c_stats w"] exI [of _ "c_appearance w"])

lemma visuals_facts: "\<exists>f. enqueue_exp_reward_visuals d k a (mark_player_dirty w e) = w\<lparr>facts := f\<rparr>"
  by (simp add: enqueue_exp_reward_visuals_def mark_player_dirty_def Let_def) blast

lemma pay_frame:
  assumes "pay_claim roll shared dead killer reward w = Some w'"
  shows "entities w' = entities w" "c_player w' = c_player w" "c_net w' = c_net w" "c_mob w' = c_mob w" "c_claim w' = c_claim w"
    "\<And>x. x \<noteq> ar_entity killer \<Longrightarrow> c_progression w' x = c_progression w x"
proof -
  obtain r w1 where r: "apply_player_exp_reward roll shared (ar_entity killer) reward w = Some (r, w1)"
    "w' = (case r of Inr (Some applied) \<Rightarrow> enqueue_exp_reward_visuals dead killer applied (mark_player_dirty w1 (ar_entity killer)) | _ \<Rightarrow> w1)"
    using assms by (auto simp: pay_claim_def split: Option.bind_splits)
  obtain f where w': "w' = w1\<lparr>facts := f\<rparr>"
  proof (cases "\<exists>a. r = Inr (Some a)")
    case True
    then show thesis using r(2) visuals_facts that by fastforce
  next
    case False
    then have "w' = w1" using r(2) by (auto split: sum.splits option.splits)
    then show thesis using that [of "facts w1"] by simp
  qed
  note F = apply_reward_frame [OF r(1)]
  then obtain p s a where w1: "w1 = w\<lparr>c_progression := p, c_stats := s, c_appearance := a\<rparr>" by auto
  show "entities w' = entities w" "c_player w' = c_player w" "c_net w' = c_net w" "c_mob w' = c_mob w" "c_claim w' = c_claim w"
    by (simp_all add: w' w1)
  show "\<And>x. x \<noteq> ar_entity killer \<Longrightarrow> c_progression w' x = c_progression w x" using F by (simp add: w')
qed

text \<open>There is nothing left to do for a dead actor.\<close>

definition settled :: "SharedConfig \<Rightarrow> World \<Rightarrow> Entity \<Rightarrow> bool" where
  "settled shared w e \<longleftrightarrow> (contains w e \<longrightarrow>
    (case c_claim w e of None \<Rightarrow> True | Some killer \<Rightarrow> \<not> killer_is_gone w killer \<and> mob_exp_reward shared w e = None))"

lemma settled_nothing: "settled shared w (ar_entity dead) \<Longrightarrow> grant_reward roll shared dead w = Some w"
  by (auto simp: settled_def grant_reward_def split: option.splits)

lemma grant_settles:
  assumes "grant_reward roll shared dead w = Some w'"
  shows "settled shared w' (ar_entity dead) \<and> (\<forall>e. settled shared w e \<longrightarrow> settled shared w' e)"
proof -
  let ?d = "ar_entity dead"
  consider (same) "w' = w" "settled shared w ?d" | (dropped) "w' = drop_claim ?d w"
    | (paid) killer reward w1 where "pay_claim roll shared dead killer reward w = Some w1" "w' = drop_claim ?d w1"
    using assms by (auto simp: grant_reward_def settled_def split: if_splits option.splits)
  then show ?thesis
  proof cases
    case paid
    note P = pay_frame(1-5) [OF paid(1)]
    show ?thesis unfolding paid(2)
      by (auto simp: settled_def drop_claim_def contains_def killer_is_gone_def mob_exp_reward_def P split: option.splits)
  qed (auto simp: settled_def drop_claim_def contains_def killer_is_gone_def mob_exp_reward_def split: option.splits)
qed

lemma grants_settle:
  "for_each (grant_reward roll shared) ds w = Some w' \<Longrightarrow> d \<in> set ds \<Longrightarrow> settled shared w' (ar_entity d)"
proof (induction ds arbitrary: w)
  case (Cons x ds)
  then obtain w1 where w1: "grant_reward roll shared x w = Some w1" "for_each (grant_reward roll shared) ds w1 = Some w'"
    by (auto split: option.splits)
  have keep: "settled shared w1 e \<Longrightarrow> settled shared w' e" for e
    by (rule for_each_inv [OF w1(2)]) (use grant_settles in blast)+
  show ?case using Cons w1 keep grant_settles [OF w1(1)] by auto
qed simp

text \<open>
  C20. Kills are paid once.  After the rewards of a frame have been granted for the deaths it reports, reporting any of
  those deaths again, in the same frame or later, in any order and number, changes nothing.
\<close>

theorem rewards_paid_once:
  assumes "for_each (grant_reward roll shared) deaths w = Some w'" "set again \<subseteq> set deaths"
  shows "for_each (grant_reward roll shared) again w' = Some w'"
  using assms(2) grants_settle [OF assms(1)] by (induction again) (simp_all add: settled_nothing)

section \<open>What a kill pays\<close>

text \<open>All the experience of a player, over all levels.\<close>

definition experience_of :: "LevelExpTable \<Rightarrow> PlayerGameplayBootstrap \<Rightarrow> int" where
  "experience_of t prog = total_exp t (progression_new (bs_level prog) (max 0 (min u32_MAX (bs_exp_in_level prog))) 0)"

lemma experience_of_current: "total_exp t (current_progress prog rt) = experience_of t prog"
  by (simp add: experience_of_def total_exp_def current_progress_def progression_new_def)

lemma experience_of_with: "in_u32 (exp_in_level (mob_progression out)) \<Longrightarrow>
    experience_of t (with_progress out prog) = total_exp t (mob_progression out)"
  by (simp add: experience_of_def with_progress_def total_exp_def progression_new_def in_u32_iff)

lemma total_exp_of_next_level:
  assumes t: "table_ok t" and p: "on_table t p" and q: "on_table t q" and l: "pp_level p < pp_level q"
  shows "total_exp t p + (level_next t (pp_level p) - exp_in_level p) \<le> total_exp t q"
proof -
  let ?s = "\<lambda>a b. sum_list (map (level_next t) [a..b])"
  have pl: "1 \<le> pp_level p" "pp_level q \<le> int (length t)" "0 \<le> exp_in_level q" using p q by (simp_all add: on_table_def)
  have nn: "0 \<le> ?s (pp_level p + 1) (pp_level q - 1)"
  proof (rule sum_list_nonneg)
    fix x assume "x \<in> set (map (level_next t) [pp_level p + 1..pp_level q - 1])"
    then obtain i where "x = level_next t i" "1 \<le> i" "i \<le> int (length t)" using pl by force
    with table_has_level(3) [OF t, of i] show "0 \<le> x" by simp
  qed
  have "[1..pp_level q - 1] = [1..pp_level p - 1] @ pp_level p # [pp_level p + 1..pp_level q - 1]"
    using pl(1) l by (subst upto_split1 [of 1 "pp_level p"]) (simp_all add: upto.simps [of "pp_level p"])
  then show ?thesis unfolding total_exp_def using nn pl by simp
qed

text \<open>A player below the top level has not filled its level.\<close>

definition can_progress :: "LevelExpTable \<Rightarrow> PlayerProgressionState \<Rightarrow> bool" where
  "can_progress t cur \<longleftrightarrow> on_table t cur \<and> (exp_in_level cur < next_exp_in_level cur \<or> pp_level cur = int (length t))"

lemma reward_gain:
  fixes mob_level :: i32 and base_exp :: i64
  assumes "try_new es = Inr (level_exp srules)" "int (length es) \<le> i32_MAX" "can_progress (level_exp srules) cur"
  defines "amount \<equiv> legacy_mob_exp_reward (pp_level cur) mob_level base_exp (next_exp_in_level cur)"
  obtains "apply_mob_exp_reward srules cur mob_level base_exp = Some None" "amount = 0 \<or> pp_level cur = int (length (level_exp srules))" "0 \<le> amount"
  | out where "apply_mob_exp_reward srules cur mob_level base_exp = Some (Some out)" "in_u32 (exp_in_level (mob_progression out))"
      "total_exp (level_exp srules) (mob_progression out) = total_exp (level_exp srules) cur + mob_applied_exp out"
      "0 \<le> mob_applied_exp out" "mob_applied_exp out \<le> amount"
      "mob_applied_exp out = amount \<or> pp_level (mob_progression out) = int (length (level_exp srules))"
proof -
  let ?t = "level_exp srules"
  have t: "table_ok ?t" using assms(1,2) by (rule try_new_ok)
  have cur: "on_table ?t cur" using assms(3) by (simp add: can_progress_def)
  note sp = on_table_step [OF t cur]
  have a: "0 \<le> amount" "amount \<le> next_exp_in_level cur div 10" using reward_bounds [OF sp(2)] by (simp_all add: amount_def)
  then have a64: "in_i64 amount" using sp(2,3) by (auto simp: in_i64_iff in_u32_iff)
  from gain_summary [OF assms(1,2) cur a64] obtain g where g: "apply_player_exp_gain ?t cur amount = Some (Some g)"
    and inv: "gain_inv ?t cur (max amount 0)
      \<lparr>gain_progression = out_progression g, gain_remaining = max amount 0 - out_applied_exp g,
       gain_applied = out_applied_exp g, gain_stat_points = out_stat_points_gained g,
       gain_level_steps = out_level_steps_gained g, gain_levels = out_levels_gained g\<rparr>"
    and fin: "out_applied_exp g = max amount 0 \<or> pp_level (out_progression g) = int (length ?t)" by blast
  have i: "on_table ?t (out_progression g)" "0 \<le> out_applied_exp g" "out_applied_exp g \<le> amount"
    "pp_level cur \<le> pp_level (out_progression g)"
    "total_exp ?t (out_progression g) = total_exp ?t cur + out_applied_exp g" using inv a(1) by (simp_all add: gain_inv_def)
  have u: "in_u32 (exp_in_level (out_progression g))" by (rule on_table_step(4) [OF t i(1)])
  have res: "apply_mob_exp_reward srules cur mob_level base_exp =
    (if amount \<le> 0 \<or> out_applied_exp g \<le> 0 then Some None
     else Some (Some \<lparr>mob_progression = out_progression g, mob_applied_exp = out_applied_exp g,
        mob_stat_points_gained = out_stat_points_gained g, mob_level_steps_gained = out_level_steps_gained g,
        level_up = (if pp_level cur < pp_level (out_progression g) then Some (pp_level (out_progression g)) else None)\<rparr>))"
    using g by (simp add: apply_mob_exp_reward_def amount_def [symmetric] Let_def)
  show thesis
  proof (cases "amount \<le> 0 \<or> out_applied_exp g \<le> 0")
    case True
    have "pp_level cur = int (length ?t)" if "amount \<noteq> 0"
    proof -
      have "out_applied_exp g = 0" "pp_level (out_progression g) = int (length ?t)" using True that a(1) i(2) fin by auto
      moreover have "\<not> pp_level cur < pp_level (out_progression g) \<or> pp_level cur = int (length ?t)"
        using total_exp_of_next_level [OF t cur i(1)] i(5) calculation(1) assms(3) by (auto simp: can_progress_def on_table_def)
      ultimately show ?thesis using i(4) by auto
    qed
    then show thesis using True res a(1) by (intro that(1)) auto
  next
    case False
    then show thesis using res u i fin a(1) by (intro that(2)) auto
  qed
qed

text \<open>
  C21. Who is paid for a kill, and how much.  When the death of a mob is final and the claim on it names a player who is
  still there, that player and no other gains experience: the reward of the kill, cut only where the level table
  ends; and the claim is gone.
\<close>

theorem kill_pays_last_hitter:
  assumes "try_new es = Inr (level_exp (sc_player_stats shared))" "int (length es) \<le> i32_MAX"
    and "contains w (ar_entity dead)" "c_claim w (ar_entity dead) = Some killer" "\<not> killer_is_gone w killer"
    and "mob_exp_reward shared w (ar_entity dead) = Some reward"
    and "c_progression w (ar_entity killer) = Some prog" "c_stats w (ar_entity killer) = Some rt" "c_appearance w (ar_entity killer) \<noteq> None"
    and "can_progress (level_exp (sc_player_stats shared)) (current_progress prog rt)"
    and "grant_reward roll shared dead w = Some w'"
  defines "t \<equiv> level_exp (sc_player_stats shared)"
    and "amount \<equiv> legacy_mob_exp_reward (bs_level prog) (mr_level reward) (mr_base_exp reward) (next_exp_in_level (current_progress prog rt))"
  shows "\<exists>prog' gained. c_progression w' (ar_entity killer) = Some prog' \<and> experience_of t prog' = experience_of t prog + gained \<and>
    0 \<le> gained \<and> gained \<le> amount \<and> (gained = amount \<or> bs_level prog' = int (length t)) \<and>
    (\<forall>x. x \<noteq> ar_entity killer \<longrightarrow> c_progression w' x = c_progression w x) \<and> c_claim w' (ar_entity dead) = None"
proof -
  let ?k = "ar_entity killer" and ?cur = "current_progress prog rt"
  have lev: "pp_level ?cur = bs_level prog" by (simp add: current_progress_def progression_new_def)
  obtain w1 where w1: "pay_claim roll shared dead killer reward w = Some w1" "w' = drop_claim (ar_entity dead) w1"
    using assms(3-6,11) by (auto simp: grant_reward_def)
  have others: "\<forall>x. x \<noteq> ?k \<longrightarrow> c_progression w' x = c_progression w x" "c_claim w' (ar_entity dead) = None"
    using pay_frame(6) [OF w1(1)] by (simp_all add: w1(2) drop_claim_def)
  obtain r w2 where r: "apply_player_exp_reward roll shared ?k reward w = Some (r, w2)" "c_progression w' = c_progression w2"
  proof -
    obtain r w2 where "apply_player_exp_reward roll shared ?k reward w = Some (r, w2)"
      "w1 = (case r of Inr (Some applied) \<Rightarrow> enqueue_exp_reward_visuals dead killer applied (mark_player_dirty w2 ?k) | _ \<Rightarrow> w2)"
      using w1(1) by (auto simp: pay_claim_def split: Option.bind_splits)
    moreover have "c_progression (enqueue_exp_reward_visuals dead killer a (mark_player_dirty w2 ?k)) = c_progression w2" for a
      using visuals_facts [of dead killer a w2 ?k] by auto
    ultimately show thesis using w1(2) that by (auto simp: drop_claim_def split: sum.splits option.splits)
  qed
  from reward_gain [OF assms(1,2,10), of "mr_level reward" "mr_base_exp reward"] consider
    (none) "apply_mob_exp_reward (sc_player_stats shared) ?cur (mr_level reward) (mr_base_exp reward) = Some None"
      "amount = 0 \<or> bs_level prog = int (length t)" "0 \<le> amount"
  | (paid) out where "apply_mob_exp_reward (sc_player_stats shared) ?cur (mr_level reward) (mr_base_exp reward) = Some (Some out)"
      "in_u32 (exp_in_level (mob_progression out))" "total_exp t (mob_progression out) = total_exp t ?cur + mob_applied_exp out"
      "0 \<le> mob_applied_exp out" "mob_applied_exp out \<le> amount"
      "mob_applied_exp out = amount \<or> pp_level (mob_progression out) = int (length t)"
    unfolding lev t_def amount_def by metis
  then show ?thesis
  proof cases
    case none
    have "w2 = w" using r(1) by (cases rule: apply_reward_cases) (use assms(7-9) none in auto)
    then show ?thesis using none assms(7) r(2) others by (intro exI [of _ prog] exI [of _ 0]) auto
  next
    case paid
    have "c_progression w2 ?k = Some (with_progress out prog)"
      using r(1) by (cases rule: apply_reward_cases) (use assms(7-9) paid in auto)
    then show ?thesis using paid r(2) others experience_of_with [OF paid(2), of t prog] experience_of_current [of t prog rt]
      by (intro exI [of _ "with_progress out prog"] exI [of _ "mob_applied_exp out"]) (simp add: with_progress_def)
  qed
qed

section \<open>A kill\<close>

definition stray :: MobPrototype where
  "stray = \<lparr>mp_kind = MkMonster, mp_name = [], mp_empire = None, mp_level = 1, mp_move_speed = 100, mp_attack_speed = 100, mp_strength = 3,
    mp_dexterity = 6, mp_vitality = 5, mp_intelligence = 2, mp_max_hp = 126, mp_defense = 4, mp_can_wander = False,
    mp_damage_min = 20, mp_damage_max = 24, mp_damage_multiplier = 0, mp_experience = 15\<rparr>"

definition stray_config :: SharedConfig where
  "stray_config = \<lparr>sc_mobs = [101 \<mapsto> stray], sc_player_stats = \<lparr>class_stats = [], level_exp = example_table\<rparr>,
    sc_pause_idle_min = 0, sc_pause_idle_max = 0\<rparr>"

definition novice :: PlayerGameplayBootstrap where
  "novice = \<lparr>bs_player_id = 7, bs_class = Warrior, bs_level = 1, bs_exp_in_level = 100,
     core_stat_allocations = no_allocations, stat_reset_count = 0, current_hp = None, current_sp = None, current_stamina = None\<rparr>"

definition novice_stats :: ActorStatsRuntime where
  "novice_stats = runtime_new (SPlayer example_player) (actor_set_player_progression (state_new KPlayer) (progression_new 1 100 300))"

definition novice_look :: PlayerAppearance where
  "novice_look = \<lparr>ap_name = [], ap_class = Warrior, ap_gender = Male, ap_empire = Red, ap_body_part = 0, ap_level = 1,
    ap_guild_id = 0, ap_move_speed = 100, ap_attack_speed = 100\<rparr>"

definition kill_scene :: World where
  "kill_scene = empty_world\<lparr>entities := [1, 2], c_player := [1 \<mapsto> 7], c_net := [1 \<mapsto> 11, 2 \<mapsto> 12], c_mob := [2 \<mapsto> 101],
    c_progression := [1 \<mapsto> novice], c_stats := [1 \<mapsto> novice_stats], c_appearance := [1 \<mapsto> novice_look],
    c_claim := [2 \<mapsto> \<lparr>ar_entity = 1, ar_id = 11\<rparr>]\<rparr>"

definition novice_after :: "(unit, unit) ActorStatState" where
  "novice_after = actor_set_player_progression (rt_state novice_stats) (progression_new 1 115 300)"

lemma novice_seed:
  "pvs_get (seed_rebuild_state novice_after (SPlayer example_player)) s =
    (if s = Level then 1 else if s = Exp then 115 else if s = NextExp then 300 else if s = LevelStep then 1 else 0)"
  by (simp add: seed_rebuild_state_def apply_source_seed_def novice_after_def novice_stats_def runtime_new_def set_progression_shape
      state_new_def ledger_iter_def ledger_default_def bt_values_def normalized_def progression_new_def
      level_step_def sat_u_def clamp_u32_to_i32_def LEVEL_STEPS_PER_LEVEL_def wrap_i32_id in_i32_iff)

lemma novice_caps: "caps_nonneg (derived_store no_roll (SPlayer example_player) novice_after)"
proof -
  have [simp]: "stable_id novice_after = None"
    by (simp add: novice_after_def novice_stats_def runtime_new_def set_progression_shape state_new_def)
  show ?thesis
    by (simp add: caps_nonneg_def derived_store_def rebuild_derived_state_def rebuild_player_caps
      player_capacity_def optional_stat_value_def novice_seed)
      (simp add: example_player_def capped_percentage_bonus_def percentage_bonus_def
        default_player_balance_rules_def wrap_i32_id in_i32_iff)
qed

lemma novice_normalizes: "normalize no_roll (novice_stats\<lparr>rt_state := novice_after\<rparr>) \<noteq> None"
proof -
  let ?rt = "novice_stats\<lparr>rt_state := novice_after\<rparr>"
  have "limits_ok (SPlayer example_player)"
    by (simp add: limits_ok_def example_player_def player_view_limit_def limits_view_def default_player_balance_rules_def all_stats_def)
  then obtain d rt' where "drain_sync no_roll ?rt = Some (d, rt')"
    using novice_caps drain_defined [of ?rt no_roll]
    by (auto simp: novice_stats_def runtime_new_def novice_after_def set_progression_shape state_new_def)
  then show ?thesis by (auto simp: drain_sync_def split: Option.bind_splits)
qed

lemma novice_reward:
  "apply_mob_exp_reward (sc_player_stats stray_config) (progression_new 1 100 300) 1 15 =
    Some (Some \<lparr>mob_progression = progression_new 1 115 300, mob_applied_exp = 15, mob_stat_points_gained = 0,
      mob_level_steps_gained = 0, level_up = None\<rparr>)"
  by code_simp

lemma novice_current: "current_progress novice novice_stats = progression_new 1 100 300"
  by code_simp

lemma kill_scene_pays: "grant_reward no_roll stray_config \<lparr>ar_entity = 2, ar_id = 12\<rparr> kill_scene \<noteq> None"
proof -
  let ?k = "\<lparr>ar_entity = 1, ar_id = 11\<rparr>" and ?r = "\<lparr>mr_base_exp = 15, mr_level = 1\<rparr>"
  obtain sync rt' where n: "normalize no_roll (novice_stats\<lparr>rt_state := novice_after\<rparr>) = Some (sync, rt')" using novice_normalizes by auto
  have "apply_reward_stats no_roll \<lparr>mob_progression = progression_new 1 115 300, mob_applied_exp = 15, mob_stat_points_gained = 0,
      mob_level_steps_gained = 0, level_up = None\<rparr> novice_stats = Some (Inr (), novice_stats\<lparr>rt_state := novice_after\<rparr>)"
    by (simp add: apply_reward_stats_def with_api_mut_def api_new_def novice_after_def) (simp add: novice_stats_def runtime_new_def set_progression_shape state_new_def)
  then have "apply_player_exp_reward no_roll stray_config 1 ?r kill_scene \<noteq> None"
    using n by (simp add: apply_player_exp_reward_def kill_scene_def novice_current novice_reward Let_def)
  then have "pay_claim no_roll stray_config d ?k ?r kill_scene \<noteq> None" for d by (auto simp: pay_claim_def)
  then show ?thesis
    by (simp add: grant_reward_def contains_def killer_is_gone_def mob_exp_reward_def kill_scene_def stray_config_def stray_def)
qed

theorem kill_pays_last_hitter_witness:
  "\<exists>w' prog' gained. grant_reward no_roll stray_config \<lparr>ar_entity = 2, ar_id = 12\<rparr> kill_scene = Some w' \<and>
    c_progression w' 1 = Some prog' \<and> experience_of example_table prog' = experience_of example_table novice + gained \<and> 0 \<le> gained"
proof -
  let ?d = "\<lparr>ar_entity = 2, ar_id = 12\<rparr>" and ?k = "\<lparr>ar_entity = 1, ar_id = 11\<rparr>"
  obtain w' where w': "grant_reward no_roll stray_config ?d kill_scene = Some w'" using kill_scene_pays by auto
  have tab: "try_new example_levels = Inr (level_exp (sc_player_stats stray_config))" "int (length example_levels) \<le> i32_MAX"
    by (simp add: stray_config_def example_table_accepted) (simp add: example_levels_def)
  have scene: "contains kill_scene (ar_entity ?d)" "c_claim kill_scene (ar_entity ?d) = Some ?k" "\<not> killer_is_gone kill_scene ?k"
    by (simp_all add: kill_scene_def contains_def killer_is_gone_def)
  have player: "c_progression kill_scene (ar_entity ?k) = Some novice" "c_stats kill_scene (ar_entity ?k) = Some novice_stats"
    "c_appearance kill_scene (ar_entity ?k) \<noteq> None" by (simp_all add: kill_scene_def)
  have reward: "mob_exp_reward stray_config kill_scene (ar_entity ?d) = Some \<lparr>mr_base_exp = 15, mr_level = 1\<rparr>"
    by (simp add: mob_exp_reward_def kill_scene_def stray_config_def stray_def)
  have "can_progress (level_exp (sc_player_stats stray_config)) (current_progress novice novice_stats)"
    unfolding novice_current can_progress_def using example_on_table by (simp add: stray_config_def progression_new_def)
  from kill_pays_last_hitter [OF tab scene reward player this w'] obtain prog' gained where
    "c_progression w' (ar_entity ?k) = Some prog'" "0 \<le> gained"
    "experience_of (level_exp (sc_player_stats stray_config)) prog' = experience_of (level_exp (sc_player_stats stray_config)) novice + gained"
    by blast
  then show ?thesis using w' by (simp add: stray_config_def)
qed

theorem rewards_paid_once_witness:
  "\<exists>w'. for_each (grant_reward no_roll stray_config) [\<lparr>ar_entity = 2, ar_id = 12\<rparr>] kill_scene = Some w' \<and>
    for_each (grant_reward no_roll stray_config) [\<lparr>ar_entity = 2, ar_id = 12\<rparr>, \<lparr>ar_entity = 2, ar_id = 12\<rparr>] w' = Some w'"
proof -
  let ?d = "\<lparr>ar_entity = 2, ar_id = 12\<rparr>"
  obtain w' where w': "for_each (grant_reward no_roll stray_config) [?d] kill_scene = Some w'" using kill_scene_pays by auto
  from rewards_paid_once [OF w', of "[?d, ?d]"] w' show ?thesis by auto
qed

end
