(* ===== verification/Spawn_Payload.thy ===== *)
theory Spawn_Payload
  imports Actor_Life
begin

text \<open>
  What clients are told about an entity (\<^verbatim>\<open>runtime/spawn_payload.rs\<close>), and decimal text as \<^verbatim>\<open>format!\<close> prints it.  Flag sets
  are their bits as an integer.  \<^verbatim>\<open>world.entity(e)\<close> panics for an entity that does not exist.
\<close>

section \<open>Text\<close>

definition bytes_of :: "string \<Rightarrow> u8 list" where
  "bytes_of s = map of_char s"

fun decimal_nat :: "nat \<Rightarrow> u8 list" where
  "decimal_nat n = (if n < 10 then [48 + int n] else decimal_nat (n div 10) @ [48 + int (n mod 10)])"

declare decimal_nat.simps [simp del]

definition decimal :: "int \<Rightarrow> u8 list" where
  "decimal z = (if z < 0 then 45 # decimal_nat (nat (- z)) else decimal_nat (nat z))"

text \<open>Reading decimal digits back.\<close>

definition read_digits :: "u8 list \<Rightarrow> int" where
  "read_digits bs = foldl (\<lambda>n b. 10 * n + (b - 48)) 0 bs"

lemma decimal_nat_reads: "read_digits (decimal_nat n) = int n"
proof (induction n rule: decimal_nat.induct)
  case (1 n)
  have "10 * int (n div 10) + int (n mod 10) = int n" by presburger
  with 1 show ?case by (subst decimal_nat.simps) (simp add: read_digits_def)
qed

section \<open>Snapshots of entities\<close>

definition state_DEAD :: u8 where "state_DEAD = 1"
definition state_SPAWN :: u8 where "state_SPAWN = 2"
definition buff_SPAWN :: u64 where "buff_SPAWN = 4"

definition player_public_state :: "PlayerAppearance \<Rightarrow> EntityPublicState" where
  "player_public_state app =
    \<lparr>eps_body_part = ap_body_part app, eps_weapon_part = 0, eps_hair_part = 0, eps_move_speed = ap_move_speed app,
     eps_attack_speed = ap_attack_speed app, eps_state_flags = 0, eps_buff_flags = 0, eps_guild_id = ap_guild_id app,
     eps_rank_pts = 0, eps_pvp_mode = 0, eps_mount_id = 0\<rparr>"

definition mob_public_state :: "MobKind \<Rightarrow> u8 \<Rightarrow> u8 \<Rightarrow> EntityPublicState" where
  "mob_public_state kind mov att =
    \<lparr>eps_body_part = 0, eps_weapon_part = 0, eps_hair_part = 0, eps_move_speed = mov, eps_attack_speed = att,
     eps_state_flags = (if kind = MkStone then state_SPAWN else 0), eps_buff_flags = (if kind = MkStone then buff_SPAWN else 0),
     eps_guild_id = 0, eps_rank_pts = 0, eps_pvp_mode = 0, eps_mount_id = 0\<rparr>"

definition public_state_with_life_phase :: "EntityPublicState \<Rightarrow> ActorLifePhase option \<Rightarrow> EntityPublicState" where
  "public_state_with_life_phase ps life =
    (case life of
       Some p \<Rightarrow> if is_dead p
                 then ps\<lparr>eps_state_flags := (if odd (eps_state_flags ps) then eps_state_flags ps else eps_state_flags ps + state_DEAD)\<rparr>
                 else ps
     | None \<Rightarrow> ps)"

definition snapshot_with_life_phase :: "EntitySnapshot \<Rightarrow> ActorLifePhase option \<Rightarrow> EntitySnapshot" where
  "snapshot_with_life_phase s life = s\<lparr>es_public_state := public_state_with_life_phase (es_public_state s) life\<rparr>"

definition make_player_snapshot :: "EntityId \<Rightarrow> LocalPos \<Rightarrow> u8 \<Rightarrow> PlayerAppearance \<Rightarrow> EntitySnapshot" where
  "make_player_snapshot i pos rot app =
    \<lparr>es_entity_id = i, es_facing = rot, es_pos = pos, es_kind = KindPlayer (ap_class app) (ap_gender app),
     es_public_state = player_public_state app,
     es_nameplate = Some \<lparr>np_name = ap_name app, np_empire = Some (ap_empire app), np_level = ap_level app\<rparr>\<rparr>"

definition mob_nameplate :: "World \<Rightarrow> EntityId \<Rightarrow> MobPrototype \<Rightarrow> EntityNameplate option" where
  "mob_nameplate w i proto =
    (if mp_kind proto = MkNpc
     then Some \<lparr>np_name = bytes_of ''['' @ decimal i @ bytes_of ''] '' @ mp_name proto,
                np_empire = (case mp_empire proto of Some e \<Rightarrow> Some e | None \<Rightarrow> if map_ready w then map_empire w else None),
                np_level = 0\<rparr>
     else None)"

definition mob_snapshot :: "World \<Rightarrow> SharedConfig \<Rightarrow> Entity \<Rightarrow> EntitySnapshot option" where
  "mob_snapshot w shared e = do {
     mob_id \<leftarrow> c_mob w e;
     tf \<leftarrow> c_transform w e;
     i \<leftarrow> c_net w e;
     proto \<leftarrow> sc_mobs shared mob_id;
     Some \<lparr>es_entity_id = i, es_facing = tf_rot tf, es_pos = tf_pos tf, es_kind = KindMob mob_id (mp_kind proto),
           es_public_state = public_state_with_life_phase
             (mob_public_state (mp_kind proto) (mp_move_speed proto) (mp_attack_speed proto)) (c_life w e),
           es_nameplate = mob_nameplate w i proto\<rparr>
   }"

definition make_entity_snapshot :: "World \<Rightarrow> SharedConfig \<Rightarrow> EntityId \<Rightarrow> EntitySnapshot option exec" where
  "make_entity_snapshot w shared target_id =
    (case net_index w target_id of
       None \<Rightarrow> Some None
     | Some e \<Rightarrow>
         if \<not> contains w e then None
         else (case (c_player w e, c_net w e, c_transform w e, c_appearance w e) of
            (Some _, Some i, Some tf, Some app) \<Rightarrow>
              Some (Some (snapshot_with_life_phase (make_player_snapshot i (tf_pos tf) (tf_rot tf) app) (c_life w e)))
          | _ \<Rightarrow> Some (mob_snapshot w shared e)))"

definition make_entity_public_state :: "World \<Rightarrow> SharedConfig \<Rightarrow> EntityId \<Rightarrow> EntityPublicState option exec" where
  "make_entity_public_state w shared target_id =
    (case net_index w target_id of
       None \<Rightarrow> Some None
     | Some e \<Rightarrow>
         if \<not> contains w e then None
         else (case c_appearance w e of
            Some app \<Rightarrow> Some (Some (public_state_with_life_phase (player_public_state app) (c_life w e)))
          | None \<Rightarrow>
              Some (do {
                mob_id \<leftarrow> c_mob w e;
                proto \<leftarrow> sc_mobs shared mob_id;
                Some (public_state_with_life_phase (mob_public_state (mp_kind proto) (mp_move_speed proto) (mp_attack_speed proto)) (c_life w e))
              })))"

text \<open>The indexes name entities that exist.\<close>

definition index_ok :: "World \<Rightarrow> bool" where
  "index_ok w \<longleftrightarrow> (\<forall>i e. net_index w i = Some e \<longrightarrow> contains w e)"

lemma snapshot_defined: "index_ok w \<Longrightarrow> make_entity_snapshot w shared i \<noteq> None"
  by (auto simp: make_entity_snapshot_def index_ok_def split: option.splits)

end
