(* ===== verification/Stat_Tickers.thy ===== *)
theory Stat_Tickers
  imports Actor_Life Recovery
begin

text \<open>
  Recovery of players over time (\<^verbatim>\<open>runtime/player/stat_tickers.rs\<close>): the three ticker clocks of a player, when
  they run, and what a tick does to the stats, to the movement animation and to the facts.  Looking up a component of an
  entity that exists is looking it up in its map.
\<close>

section \<open>The tickers of a player\<close>

definition PASSIVE_HP_CADENCE :: SimDuration where "PASSIVE_HP_CADENCE = 250"
definition PASSIVE_SP_CADENCE :: SimDuration where "PASSIVE_SP_CADENCE = 250"
definition LEGACY_STAMINA_CADENCE :: SimDuration where "LEGACY_STAMINA_CADENCE = 250"

lemmas cadence_defs = PASSIVE_HP_CADENCE_def PASSIVE_SP_CADENCE_def LEGACY_STAMINA_CADENCE_def

definition passive_hp_default :: PlayerPassiveHpRecoveryState where
  "passive_hp_default = \<lparr>hp_accumulator = accumulator_default\<rparr>"

definition passive_sp_default :: PlayerPassiveSpRecoveryState where
  "passive_sp_default = \<lparr>sp_accumulator = accumulator_default\<rparr>"

definition stamina_default :: PlayerStaminaState where
  "stamina_default = \<lparr>st_accumulator = accumulator_default, consuming = False\<rparr>"

definition ticker_initial :: "'t \<Rightarrow> PlayerId \<Rightarrow> SimInstant \<Rightarrow> SimDuration \<Rightarrow> 't PlayerTicker exec" where
  "ticker_initial d player_id now cad = map_option (\<lambda>c. \<lparr>clock = c, tick_state = d\<rparr>) (phased player_id now cad)"

definition tickers_initial :: "PlayerId \<Rightarrow> SimInstant \<Rightarrow> PlayerStatTickers exec" where
  "tickers_initial player_id now = do {
     h \<leftarrow> ticker_initial passive_hp_default player_id now PASSIVE_HP_CADENCE;
     s \<leftarrow> ticker_initial passive_sp_default player_id now PASSIVE_SP_CADENCE;
     t \<leftarrow> ticker_initial stamina_default player_id now LEGACY_STAMINA_CADENCE;
     Some \<lparr>passive_hp = h, passive_sp = s, tick_stamina_of = t\<rparr>
   }"

definition reset_after_regeneration_pause :: "SimInstant \<Rightarrow> PlayerStatTickers \<Rightarrow> PlayerStatTickers" where
  "reset_after_regeneration_pause now t =
    \<lparr>passive_hp = \<lparr>clock = retry_after (clock (passive_hp t)) now PASSIVE_HP_CADENCE, tick_state = passive_hp_default\<rparr>,
     passive_sp = \<lparr>clock = retry_after (clock (passive_sp t)) now PASSIVE_SP_CADENCE, tick_state = passive_sp_default\<rparr>,
     tick_stamina_of = \<lparr>clock = retry_after (clock (tick_stamina_of t)) now LEGACY_STAMINA_CADENCE, tick_state = stamina_default\<rparr>\<rparr>"

definition pause_player_stat_tickers :: "Entity \<Rightarrow> SimInstant \<Rightarrow> World \<Rightarrow> World" where
  "pause_player_stat_tickers e now w =
    w\<lparr>c_tickers := (c_tickers w)(e := map_option (reset_after_regeneration_pause now) (c_tickers w e))\<rparr>"

section \<open>What the player has been doing\<close>

definition player_movement_end_at :: "PlayerMotionState \<Rightarrow> PlayerActivity \<Rightarrow> SimInstant option" where
  "player_movement_end_at motion activity =
    map_option (\<lambda>started_at. sim_add started_at
        (from_packet_duration (sat_u 32 (segment_end_ts motion - segment_start_ts motion))))
      (last_movement_start_at activity)"

definition player_stat_activity :: "SimInstant \<Rightarrow> SimInstant option \<Rightarrow> PlayerActivity \<Rightarrow> PlayerStatActivity" where
  "player_stat_activity now movement_end_at activity =
    \<lparr>movement =
       (case movement_end_at of
          Some end_at \<Rightarrow>
            if now < end_at then Moving
            else Stopped (case elapsed_since now (Some end_at) of Some d \<Rightarrow> d | None \<Rightarrow> 0)
        | None \<Rightarrow> Idle),
     since_walk_started = elapsed_since now (last_walk_started_at activity),
     since_attack = elapsed_since now (last_attack_at activity)\<rparr>"

definition player_can_regenerate :: "World \<Rightarrow> Entity \<Rightarrow> bool" where
  "player_can_regenerate w e = (case c_life w e of None \<Rightarrow> True | Some p \<Rightarrow> can_regenerate p)"

definition current_player_stat_activity :: "World \<Rightarrow> Entity \<Rightarrow> SimInstant \<Rightarrow> PlayerStatActivity option" where
  "current_player_stat_activity w e now =
    map_option (\<lambda>activity.
        player_stat_activity now (Option.bind (c_motion w e) (\<lambda>m. player_movement_end_at m activity)) activity)
      (c_activity w e)"

section \<open>Ticks\<close>

definition actor_ref :: "World \<Rightarrow> Entity \<Rightarrow> ActorRef option" where
  "actor_ref w e = map_option (\<lambda>i. \<lparr>ar_entity = e, ar_id = i\<rparr>) (c_net w e)"

definition apply_player_resource_application :: "Entity \<Rightarrow> ResourceApplication option \<Rightarrow> World \<Rightarrow> (i32 option \<times> World) exec" where
  "apply_player_resource_application e application w =
    (case (application, actor_ref w e) of
       (Some a, Some actor) \<Rightarrow> do {
         (r, w') \<leftarrow> apply_actor_resource actor a w;
         Some (case r of Inr (Some res) \<Rightarrow> Some (rar_current res) | _ \<Rightarrow> None, w')
       }
     | _ \<Rightarrow> Some (None, w))"

text \<open>Advancing the clock of a ticker and, when it was due, its state.\<close>

definition run_ticker :: "SimInstant \<Rightarrow> (duration \<Rightarrow> 't \<Rightarrow> 'o \<times> 't) \<Rightarrow> 't PlayerTicker \<Rightarrow> ('o option \<times> 't PlayerTicker) exec" where
  "run_ticker now f t = do {
     (elapsed, c) \<leftarrow> advance_due (clock t) now;
     Some (case elapsed of
             None \<Rightarrow> (None, t\<lparr>clock := c\<rparr>)
           | Some d \<Rightarrow> (let (output, st) = f (as_duration d) (tick_state t) in (Some output, \<lparr>clock = c, tick_state = st\<rparr>)))
   }"

definition set_tickers :: "Entity \<Rightarrow> PlayerStatTickers \<Rightarrow> World \<Rightarrow> World" where
  "set_tickers e t w = w\<lparr>c_tickers := (c_tickers w)(e \<mapsto> t)\<rparr>"

definition tick_passive_hp :: "Entity \<Rightarrow> PlayerStatActivity \<Rightarrow> SimInstant \<Rightarrow> World \<Rightarrow> World exec" where
  "tick_passive_hp e activity now w =
    (case c_stats w e of
       None \<Rightarrow> Some w
     | Some rt \<Rightarrow> do {
         max_hp \<leftarrow> read_limited (rt_source rt) (rt_state rt) MaxHp;
         (case c_tickers w e of
            None \<Rightarrow> Some w
          | Some t \<Rightarrow> do {
              (application, h) \<leftarrow> run_ticker now (\<lambda>d st.
                tick_player_passive_hp_recovery st (read_packet (rt_state rt) Hp) max_hp activity d) (passive_hp t);
              map_option snd (apply_player_resource_application e (Option.bind application (\<lambda>a. a)) (set_tickers e (t\<lparr>passive_hp := h\<rparr>) w))
            })
       })"

definition sp_recovery_profile :: "PlayerClass \<Rightarrow> PlayerSpRecoveryProfile" where
  "sp_recovery_profile c = (case c of Warrior \<Rightarrow> Standard | Ninja \<Rightarrow> Standard | Sura \<Rightarrow> Standard | Shaman \<Rightarrow> Caster)"

definition tick_passive_sp :: "Entity \<Rightarrow> PlayerStatActivity \<Rightarrow> SimInstant \<Rightarrow> World \<Rightarrow> World exec" where
  "tick_passive_sp e activity now w =
    (case (c_stats w e, c_progression w e) of
       (Some rt, Some prog) \<Rightarrow> do {
         max_hp \<leftarrow> read_limited (rt_source rt) (rt_state rt) MaxHp;
         max_sp \<leftarrow> read_limited (rt_source rt) (rt_state rt) MaxSp;
         (case c_tickers w e of
            None \<Rightarrow> Some w
          | Some t \<Rightarrow> do {
              (application, s) \<leftarrow> run_ticker now (\<lambda>d st.
                tick_player_passive_sp_recovery st (read_packet (rt_state rt) Hp) max_hp (read_packet (rt_state rt) Sp) max_sp
                  activity (sp_recovery_profile (bs_class prog)) d) (passive_sp t);
              map_option snd (apply_player_resource_application e (Option.bind application (\<lambda>a. a)) (set_tickers e (t\<lparr>passive_sp := s\<rparr>) w))
            })
       }
     | _ \<Rightarrow> Some w)"

definition ascertain_movement_animation_change ::
  "SimInstant \<Rightarrow> PlayerStaminaMovementOverride \<Rightarrow> PlayerActivity \<Rightarrow> MovementAnimation \<times> PlayerActivity" where
  "ascertain_movement_animation_change now override_mode activity =
    (let activity' = (if override_mode = ForceWalk then activity\<lparr>last_walk_started_at := Some now\<rparr> else activity)
     in (case override_mode of ForceWalk \<Rightarrow> Walk | RevertToPreferred \<Rightarrow> preferred_movement_animation activity', activity'))"

definition override_animation :: "SimInstant \<Rightarrow> Entity \<Rightarrow> PlayerStaminaMovementOverride option \<Rightarrow> World \<Rightarrow> World" where
  "override_animation now e override_mode w =
    (case (override_mode, c_animation w e, c_activity w e) of
       (Some m, Some _, Some activity) \<Rightarrow>
         (let (animation', activity') = ascertain_movement_animation_change now m activity
          in w\<lparr>c_animation := (c_animation w)(e \<mapsto> animation'), c_activity := (c_activity w)(e \<mapsto> activity')\<rparr>)
     | _ \<Rightarrow> w)"

definition report_timer :: "Entity \<Rightarrow> PlayerStaminaTimerCommand option \<Rightarrow> i32 \<Rightarrow> World \<Rightarrow> World" where
  "report_timer e timer current w =
    (case (timer, actor_ref w e) of
       (Some command, Some player) \<Rightarrow>
         w\<lparr>facts := (facts w)\<lparr>f_stamina_timer := f_stamina_timer (facts w) @
           [\<lparr>stc_player = player, stc_command = command, stc_current = current\<rparr>]\<rparr>\<rparr>
     | _ \<Rightarrow> w)"

definition tick_stamina_ticker :: "Entity \<Rightarrow> PlayerStatActivity \<Rightarrow> SimInstant \<Rightarrow> World \<Rightarrow> World exec" where
  "tick_stamina_ticker e activity now w =
    (case (c_stats w e, c_animation w e) of
       (Some rt, Some movement_mode) \<Rightarrow> do {
         max_stamina \<leftarrow> read_limited (rt_source rt) (rt_state rt) MaxStamina;
         (case c_tickers w e of
            None \<Rightarrow> Some w
          | Some t \<Rightarrow> do {
              (effect, s) \<leftarrow> run_ticker now (\<lambda>d st.
                tick_player_stamina st (read_packet (rt_state rt) Stamina) max_stamina activity movement_mode d) (tick_stamina_of t);
              let w1 = set_tickers e (t\<lparr>tick_stamina_of := s\<rparr>) w;
              (case effect of
                 None \<Rightarrow> Some w1
               | Some x \<Rightarrow> do {
                   (applied, w2) \<leftarrow> apply_player_resource_application e (so_application x) w1;
                   let current = (case applied of Some v \<Rightarrow> v
                     | None \<Rightarrow> (case c_stats w2 e of Some rt2 \<Rightarrow> read_packet (rt_state rt2) Stamina | None \<Rightarrow> 0));
                   Some (override_animation now e (so_movement_override x) (report_timer e (so_timer x) current w2))
                 })
            })
       }
     | _ \<Rightarrow> Some w)"

definition tick_player :: "SimInstant \<Rightarrow> Entity \<Rightarrow> World \<Rightarrow> World exec" where
  "tick_player now e w =
    (if \<not> contains w e then Some w
     else if \<not> player_can_regenerate w e then Some (pause_player_stat_tickers e now w)
     else case current_player_stat_activity w e now of
       None \<Rightarrow> Some w
     | Some activity \<Rightarrow> do {
         w1 \<leftarrow> tick_passive_hp e activity now w;
         w2 \<leftarrow> tick_passive_sp e activity now w1;
         tick_stamina_ticker e activity now w2
       })"

definition process_player_stat_tickers :: "World \<Rightarrow> World exec" where
  "process_player_stat_tickers w = for_each (tick_player (sim_now w)) (player_entities_on_map w) w"

section \<open>A tick touches one player\<close>

definition tick_frame :: "Entity \<Rightarrow> World \<Rightarrow> World \<Rightarrow> bool" where
  "tick_frame e w w' \<longleftrightarrow>
    entities w' = entities w \<and> c_life w' = c_life w \<and> c_player w' = c_player w \<and> c_net w' = c_net w \<and>
    (\<forall>x. x \<noteq> e \<longrightarrow> c_stats w' x = c_stats w x \<and> c_tickers w' x = c_tickers w x) \<and>
    (\<exists>xs. f_stamina_timer (facts w') = f_stamina_timer (facts w) @ xs \<and> list_all (\<lambda>f. ar_entity (stc_player f) = e) xs) \<and>
    (\<exists>ys. f_changed (facts w') = f_changed (facts w) @ ys \<and> list_all (\<lambda>f. ar_entity (rc_actor f) = e) ys)"

lemma tick_frame_refl: "tick_frame e w w"
  by (simp add: tick_frame_def)

lemma tick_frame_trans:
  assumes "tick_frame e w1 w2" "tick_frame e w2 w3"
  shows "tick_frame e w1 w3"
proof -
  obtain xs ys xs' ys' where
    "f_stamina_timer (facts w2) = f_stamina_timer (facts w1) @ xs" "list_all (\<lambda>f. ar_entity (stc_player f) = e) xs"
    "f_changed (facts w2) = f_changed (facts w1) @ ys" "list_all (\<lambda>f. ar_entity (rc_actor f) = e) ys"
    "f_stamina_timer (facts w3) = f_stamina_timer (facts w2) @ xs'" "list_all (\<lambda>f. ar_entity (stc_player f) = e) xs'"
    "f_changed (facts w3) = f_changed (facts w2) @ ys'" "list_all (\<lambda>f. ar_entity (rc_actor f) = e) ys'"
    using assms unfolding tick_frame_def by blast
  then show ?thesis using assms unfolding tick_frame_def by simp
qed

lemma apply_actor_frame:
  assumes "apply_actor_resource actor a w = Some (r, w')"
  shows "tick_frame (ar_entity actor) w w'"
proof -
  have rec: "tick_frame (ar_entity actor) w0 (record_resource_change actor q w0)" for q w0
    by (simp add: tick_frame_def record_resource_change_def split: sum.split)
  let ?e = "ar_entity actor"
  consider (player) q rt' where "w' = record_resource_change actor q (w\<lparr>c_stats := (c_stats w)(?e \<mapsto> rt')\<rparr>)"
    | (mob) q rt' where "w' = record_resource_change actor q (w\<lparr>c_mob_stats := (c_mob_stats w)(?e \<mapsto> rt')\<rparr>)" | (none) "w' = w"
    using assms by (auto simp: apply_actor_resource_def Let_def split: if_splits option.splits Option.bind_splits)
  then show ?thesis
  proof cases
    case player
    show ?thesis unfolding player by (rule tick_frame_trans [OF _ rec]) (simp add: tick_frame_def)
  next
    case mob
    show ?thesis unfolding mob by (rule tick_frame_trans [OF _ rec]) (simp add: tick_frame_def)
  qed (simp add: tick_frame_refl)
qed

lemma application_frame:
  assumes "apply_player_resource_application e application w = Some (r, w')"
  shows "tick_frame e w w'"
  using assms apply_actor_frame [of "\<lparr>ar_entity = e, ar_id = i\<rparr>" for i] tick_frame_refl
  by (auto simp: apply_player_resource_application_def actor_ref_def split: option.splits Option.bind_splits)

lemma small_frames:
  "tick_frame e w (set_tickers e t w)" "tick_frame e w (override_animation now e m w)" "tick_frame e w (report_timer e timer cur w)"
  "tick_frame e w (pause_player_stat_tickers e now w)"
  by (simp_all add: tick_frame_def set_tickers_def override_animation_def report_timer_def actor_ref_def pause_player_stat_tickers_def
    Let_def split: option.split prod.split)

lemma tick_hp_frame: "tick_passive_hp e activity now w = Some w' \<Longrightarrow> tick_frame e w w'"
  by (auto simp: tick_passive_hp_def tick_frame_refl split: option.splits Option.bind_splits
    intro: tick_frame_trans [OF small_frames(1) application_frame])

lemma tick_sp_frame: "tick_passive_sp e activity now w = Some w' \<Longrightarrow> tick_frame e w w'"
  by (auto simp: tick_passive_sp_def tick_frame_refl split: option.splits Option.bind_splits
    intro: tick_frame_trans [OF small_frames(1) application_frame])

lemma tick_stamina_frame: "tick_stamina_ticker e activity now w = Some w' \<Longrightarrow> tick_frame e w w'"
  by (auto simp: tick_stamina_ticker_def tick_frame_refl small_frames(1) Let_def split: option.splits Option.bind_splits
    intro: tick_frame_trans [OF tick_frame_trans [OF tick_frame_trans [OF small_frames(1) application_frame] small_frames(3)] small_frames(2)])

lemma tick_player_frame: "tick_player now e w = Some w' \<Longrightarrow> tick_frame e w w'"
  by (auto simp: tick_player_def tick_frame_refl small_frames(4) split: if_splits option.splits Option.bind_splits
    dest!: tick_hp_frame tick_sp_frame tick_stamina_frame intro: tick_frame_trans)

section \<open>The dead do not recover\<close>

lemma pause_twice: "reset_after_regeneration_pause now (reset_after_regeneration_pause now t) = reset_after_regeneration_pause now t"
  by (simp add: reset_after_regeneration_pause_def retry_after_def)

lemma ticks_of_the_dead:
  assumes "for_each (tick_player now) es w = Some w'" "contains w e" "\<not> player_can_regenerate w e" "c_tickers w e = Some t"
  shows "c_stats w' e = c_stats w e \<and>
    c_tickers w' e = Some (if e \<in> set es then reset_after_regeneration_pause now t else t) \<and>
    (\<exists>xs. f_stamina_timer (facts w') = f_stamina_timer (facts w) @ xs \<and> list_all (\<lambda>f. ar_entity (stc_player f) \<noteq> e) xs) \<and>
    (\<exists>ys. f_changed (facts w') = f_changed (facts w) @ ys \<and> list_all (\<lambda>f. ar_entity (rc_actor f) \<noteq> e) ys)"
  using assms
proof (induction es arbitrary: w t)
  case (Cons x es)
  then obtain w1 where w1: "tick_player now x w = Some w1" "for_each (tick_player now) es w1 = Some w'" by (auto split: option.splits)
  note F = tick_player_frame [OF w1(1)]
  let ?t = "if e = x then reset_after_regeneration_pause now t else t"
  have dead: "contains w1 e" "\<not> player_can_regenerate w1 e"
    using F Cons.prems(2,3) by (simp_all add: tick_frame_def contains_def player_can_regenerate_def)
  have w1e: "c_stats w1 e = c_stats w e \<and> c_tickers w1 e = Some ?t \<and>
    (\<exists>xs. f_stamina_timer (facts w1) = f_stamina_timer (facts w) @ xs \<and> list_all (\<lambda>f. ar_entity (stc_player f) \<noteq> e) xs) \<and>
    (\<exists>ys. f_changed (facts w1) = f_changed (facts w) @ ys \<and> list_all (\<lambda>f. ar_entity (rc_actor f) \<noteq> e) ys)"
  proof (cases "e = x")
    case True
    then show ?thesis using w1(1) Cons.prems(2-4) by (simp add: tick_player_def) (auto simp: pause_player_stat_tickers_def)
  next
    case False
    obtain xs ys where "f_stamina_timer (facts w1) = f_stamina_timer (facts w) @ xs" "list_all (\<lambda>f. ar_entity (stc_player f) = x) xs"
      "f_changed (facts w1) = f_changed (facts w) @ ys" "list_all (\<lambda>f. ar_entity (rc_actor f) = x) ys"
      using F unfolding tick_frame_def by blast
    moreover have "c_stats w1 e = c_stats w e" "c_tickers w1 e = Some t" using F False Cons.prems(4) by (simp_all add: tick_frame_def)
    ultimately show ?thesis using False by (auto simp: list_all_iff)
  qed
  with Cons.IH [OF w1(2) dead, of ?t] show ?case by (auto simp: pause_twice)
qed auto

text \<open>
  C23. A player that is not alive does not recover.  A pass of the tickers leaves its stats alone, reports no change of its
  resources, and restarts its three clocks at this frame with nothing accrued, so that the time it spends dead never
  counts.  It also sends the client no stamina command: a player that was consuming stamina when it died is marked as
  not consuming, while the timer the client was told to start is not told to stop.
\<close>

theorem dead_do_not_recover:
  assumes "process_player_stat_tickers w = Some w'" "contains w e" "c_player w e \<noteq> None" "\<not> player_can_regenerate w e"
    "c_tickers w e = Some t"
  shows "c_stats w' e = c_stats w e \<and>
    (\<exists>t'. c_tickers w' e = Some t' \<and>
      last_processed_at (clock (passive_hp t')) = sim_now w \<and> hp_accumulator (tick_state (passive_hp t')) = accumulator_default \<and>
      last_processed_at (clock (passive_sp t')) = sim_now w \<and> sp_accumulator (tick_state (passive_sp t')) = accumulator_default \<and>
      last_processed_at (clock (tick_stamina_of t')) = sim_now w \<and> \<not> consuming (tick_state (tick_stamina_of t'))) \<and>
    filter (\<lambda>f. ar_entity (stc_player f) = e) (f_stamina_timer (facts w')) = filter (\<lambda>f. ar_entity (stc_player f) = e) (f_stamina_timer (facts w)) \<and>
    filter (\<lambda>f. ar_entity (rc_actor f) = e) (f_changed (facts w')) = filter (\<lambda>f. ar_entity (rc_actor f) = e) (f_changed (facts w))"
proof -
  have "e \<in> set (player_entities_on_map w)" using assms(2,3) by (simp add: player_entities_on_map_def having_def contains_def)
  then show ?thesis
    using ticks_of_the_dead [OF assms(1) [unfolded process_player_stat_tickers_def] assms(2,4,5)]
    by (auto simp: reset_after_regeneration_pause_def retry_after_def passive_hp_default_def passive_sp_default_def stamina_default_def
      list_all_iff filter_empty_conv)
qed

definition dead_runner :: World where
  "dead_runner = empty_world\<lparr>entities := [3], sim_now := 5000, c_player := [3 \<mapsto> 7], c_life := [3 \<mapsto> Dying 4900 7900],
    c_tickers := [3 \<mapsto> \<lparr>passive_hp = \<lparr>clock = \<lparr>last_processed_at = 4800, next_due_at = 5050, cadence = 250\<rparr>, tick_state = passive_hp_default\<rparr>,
      passive_sp = \<lparr>clock = \<lparr>last_processed_at = 4800, next_due_at = 5050, cadence = 250\<rparr>, tick_state = passive_sp_default\<rparr>,
      tick_stamina_of = \<lparr>clock = \<lparr>last_processed_at = 4800, next_due_at = 5050, cadence = 250\<rparr>,
        tick_state = \<lparr>st_accumulator = accumulator_default, consuming = True\<rparr>\<rparr>\<rparr>]\<rparr>"

theorem dead_do_not_recover_witness:
  "\<exists>w' t t'. process_player_stat_tickers dead_runner = Some w' \<and> c_tickers dead_runner 3 = Some t \<and> c_tickers w' 3 = Some t' \<and>
    consuming (tick_state (tick_stamina_of t)) \<and> \<not> consuming (tick_state (tick_stamina_of t')) \<and>
    filter (\<lambda>f. ar_entity (stc_player f) = 3) (f_stamina_timer (facts w')) = []"
proof -
  obtain t where t: "c_tickers dead_runner 3 = Some t" "consuming (tick_state (tick_stamina_of t))" by (simp add: dead_runner_def)
  have c: "contains dead_runner 3" "c_player dead_runner 3 \<noteq> None" "\<not> player_can_regenerate dead_runner 3"
    by (simp_all add: dead_runner_def contains_def player_can_regenerate_def can_regenerate_def is_alive_def)
  have "player_entities_on_map dead_runner = [3]" by (simp add: player_entities_on_map_def having_def dead_runner_def)
  then obtain w' where w': "process_player_stat_tickers dead_runner = Some w'"
    by (simp add: process_player_stat_tickers_def tick_player_def c)
  have "f_stamina_timer (facts dead_runner) = []" by (simp add: dead_runner_def empty_world_def facts_default_def)
  with dead_do_not_recover [OF w' c t(1)] w' t show ?thesis by auto
qed

section \<open>The stamina timer of the client\<close>

text \<open>
  What happens to the stamina ticker of a player: it is ticked while the player can regenerate, and reset when the player
  cannot or restarts.  Only a tick sends the client a command.
\<close>

datatype StaminaEvent = StaminaTicked StaminaTick | RegenerationReset SimInstant

definition stamina_flag :: "PlayerStatTickers \<Rightarrow> bool" where
  "stamina_flag t = consuming (tick_state (tick_stamina_of t))"

fun stamina_event :: "PlayerStatTickers \<Rightarrow> StaminaEvent \<Rightarrow> PlayerStaminaTimerCommand list \<times> PlayerStatTickers" where
  "stamina_event t (StaminaTicked k) =
    (let (effect, st) = run_tick (tick_state (tick_stamina_of t)) k
     in ((case so_timer effect of None \<Rightarrow> [] | Some c \<Rightarrow> [c]), t\<lparr>tick_stamina_of := (tick_stamina_of t)\<lparr>tick_state := st\<rparr>\<rparr>))"
| "stamina_event t (RegenerationReset now) = ([], reset_after_regeneration_pause now t)"

fun stamina_history :: "PlayerStatTickers \<Rightarrow> StaminaEvent list \<Rightarrow> PlayerStaminaTimerCommand list \<times> PlayerStatTickers" where
  "stamina_history t [] = ([], t)"
| "stamina_history t (e # es) =
    (let (cmds, t1) = stamina_event t e; (cmds', t2) = stamina_history t1 es in (cmds @ cmds', t2))"

abbreviation history_commands :: "PlayerStatTickers \<Rightarrow> StaminaEvent list \<Rightarrow> PlayerStaminaTimerCommand list" where
  "history_commands t es \<equiv> fst (stamina_history t es)"

abbreviation history_flag :: "PlayerStatTickers \<Rightarrow> StaminaEvent list \<Rightarrow> bool" where
  "history_flag t es \<equiv> stamina_flag (snd (stamina_history t es))"

text \<open>The client's timer runs after a start and not after a stop.\<close>

fun timer_runs :: "bool \<Rightarrow> PlayerStaminaTimerCommand list \<Rightarrow> bool" where
  "timer_runs running [] = running"
| "timer_runs running (Start rate # cmds) = timer_runs True cmds"
| "timer_runs running (Stop # cmds) = timer_runs False cmds"

text \<open>A reset found the player consuming, and no command has been sent since.\<close>

definition left_running :: "PlayerStatTickers \<Rightarrow> StaminaEvent list \<Rightarrow> bool" where
  "left_running t es \<longleftrightarrow>
    (\<exists>pre now post. es = pre @ RegenerationReset now # post \<and> history_flag t pre \<and>
      history_commands (reset_after_regeneration_pause now (snd (stamina_history t pre))) post = [])"

lemma history_append:
  "stamina_history t (xs @ ys) =
    (history_commands t xs @ history_commands (snd (stamina_history t xs)) ys, snd (stamina_history (snd (stamina_history t xs)) ys))"
  by (induction xs arbitrary: t) (simp_all add: Let_def split_beta)

lemma history_snoc:
  "stamina_history t (es @ [e]) =
    (history_commands t es @ fst (stamina_event (snd (stamina_history t es)) e), snd (stamina_event (snd (stamina_history t es)) e))"
  by (simp add: history_append split_beta Let_def)

lemma timer_runs_append: "timer_runs r (xs @ ys) = timer_runs (timer_runs r xs) ys"
  by (induction r xs rule: timer_runs.induct) simp_all

lemma reset_flag [simp]: "\<not> stamina_flag (reset_after_regeneration_pause now t)"
  by (simp add: stamina_flag_def reset_after_regeneration_pause_def stamina_default_def)

text \<open>A tick sends a command exactly when it changes the flag, and the right one.\<close>

lemma tick_commands:
  obtains (quiet) "fst (stamina_event t (StaminaTicked k)) = []" "stamina_flag (snd (stamina_event t (StaminaTicked k))) = stamina_flag t"
  | (started) rate where "fst (stamina_event t (StaminaTicked k)) = [Start rate]" "\<not> stamina_flag t"
      "stamina_flag (snd (stamina_event t (StaminaTicked k)))"
  | (stopped) "fst (stamina_event t (StaminaTicked k)) = [Stop]" "stamina_flag t" "\<not> stamina_flag (snd (stamina_event t (StaminaTicked k)))"
proof -
  obtain out st where tick: "tick_stamina (tick_state (tick_stamina_of t)) (tk_stamina k) (tk_max k) (tk_activity k) (tk_mode k) (tk_elapsed k) = (out, st)"
    by (cases "tick_stamina (tick_state (tick_stamina_of t)) (tk_stamina k) (tk_max k) (tk_activity k) (tk_mode k) (tk_elapsed k)") simp
  let ?c = "case so_timer out of None \<Rightarrow> [] | Some c \<Rightarrow> [c]"
  have ev: "fst (stamina_event t (StaminaTicked k)) = ?c" "stamina_flag (snd (stamina_event t (StaminaTicked k))) = consuming st"
    by (simp_all add: run_tick_def tick_player_stamina_def tick stamina_flag_def Let_def split: option.split)
  have "client_timer (stamina_flag t) (?c @ []) = client_timer (consuming st) []"
    unfolding stamina_flag_def by (rule tick_stamina_timer [OF tick])
  then have step: "client_timer (stamina_flag t) ?c = Some (consuming st)" by simp
  show thesis
  proof (cases "so_timer out")
    case None
    then show thesis using quiet ev step by simp
  next
    case (Some c)
    then show thesis using started stopped ev step by (cases c) (auto split: if_splits)
  qed
qed

lemma left_running_snoc:
  "left_running t (es @ [e]) \<longleftrightarrow>
    (\<exists>now. e = RegenerationReset now) \<and> history_flag t es \<or>
    left_running t es \<and> fst (stamina_event (snd (stamina_history t es)) e) = []" (is "?l \<longleftrightarrow> ?r")
proof
  assume ?l
  then obtain pre now post where d: "es @ [e] = pre @ RegenerationReset now # post" "history_flag t pre"
    "history_commands (reset_after_regeneration_pause now (snd (stamina_history t pre))) post = []"
    unfolding left_running_def by blast
  show ?r
  proof (cases post rule: rev_cases)
    case Nil
    then show ?thesis using d by simp
  next
    case (snoc post' e')
    then have es: "es = pre @ RegenerationReset now # post'" "e' = e" using d(1) by simp_all
    then have "left_running t es" using d(2,3) by (auto simp: snoc history_snoc left_running_def)
    moreover have "snd (stamina_history t es) =
        snd (stamina_history (reset_after_regeneration_pause now (snd (stamina_history t pre))) post')"
      by (simp add: es history_append split_beta Let_def)
    ultimately show ?thesis using d(3) by (simp add: snoc es(2) history_snoc)
  qed
next
  assume ?r
  then show ?l
  proof (elim disjE conjE exE)
    fix now assume "e = RegenerationReset now" "history_flag t es"
    then show ?l unfolding left_running_def by (intro exI [of _ es] exI [of _ now] exI [of _ "[]"]) simp
  next
    assume "left_running t es" "fst (stamina_event (snd (stamina_history t es)) e) = []"
    then obtain pre now post where d: "es = pre @ RegenerationReset now # post" "history_flag t pre"
      "history_commands (reset_after_regeneration_pause now (snd (stamina_history t pre))) post = []"
      "fst (stamina_event (snd (stamina_history t es)) e) = []" unfolding left_running_def by blast
    have "snd (stamina_history t es) =
        snd (stamina_history (reset_after_regeneration_pause now (snd (stamina_history t pre))) post)"
      by (simp add: d(1) history_append split_beta Let_def)
    then show ?l unfolding left_running_def using d
      by (intro exI [of _ pre] exI [of _ now] exI [of _ "post @ [e]"]) (simp add: history_snoc)
  qed
qed

text \<open>
  C35. The stamina timer protocol, over any sequence of ticks and resets of a player.  The client's timer runs exactly when
  the server consumes stamina, or when a reset (while the player is dead or as it restarts) found it consuming and no
  command has been sent since: that reset clears the server's flag without stopping the client.  When no reset interrupts
  the consumption, every start is sent to a stopped timer and every stop to a running one, and the two always agree.
\<close>

theorem stamina_timer_in_step:
  "(timer_runs (stamina_flag t) (history_commands t es) \<longleftrightarrow> history_flag t es \<or> left_running t es) \<and>
   ((\<forall>pre now post. es = pre @ RegenerationReset now # post \<longrightarrow> \<not> history_flag t pre) \<longrightarrow>
     client_timer (stamina_flag t) (history_commands t es) = Some (history_flag t es))"
proof
  show "timer_runs (stamina_flag t) (history_commands t es) \<longleftrightarrow> history_flag t es \<or> left_running t es"
  proof (induction es rule: rev_induct)
    case Nil
    then show ?case by (simp add: left_running_def)
  next
    case (snoc e es)
    let ?t = "snd (stamina_history t es)"
    show ?case
    proof (cases e)
      case (StaminaTicked k)
      show ?thesis
        using tick_commands [of ?t k] snoc
        by (cases rule: tick_commands [of ?t k])
          (auto simp: history_snoc timer_runs_append left_running_snoc StaminaTicked simp del: stamina_event.simps)
    next
      case (RegenerationReset now)
      then show ?thesis using snoc by (auto simp: history_snoc left_running_snoc)
    qed
  qed
  show "(\<forall>pre now post. es = pre @ RegenerationReset now # post \<longrightarrow> \<not> history_flag t pre) \<longrightarrow>
     client_timer (stamina_flag t) (history_commands t es) = Some (history_flag t es)"
  proof (induction es arbitrary: t)
    case (Cons e es)
    let ?t = "snd (stamina_event t e)"
    show ?case
    proof
      assume no: "\<forall>pre now post. e # es = pre @ RegenerationReset now # post \<longrightarrow> \<not> history_flag t pre"
      have "\<not> history_flag ?t pre" if "es = pre @ RegenerationReset now # post" for pre now post
        using no [rule_format, of "e # pre" now post] that by (simp add: Let_def split_beta)
      then have IH: "client_timer (stamina_flag ?t) (history_commands ?t es) = Some (history_flag ?t es)" using Cons.IH [of ?t] by blast
      have "client_timer (stamina_flag t) (fst (stamina_event t e) @ history_commands ?t es) = Some (history_flag ?t es)"
      proof (cases e)
        case (StaminaTicked k)
        then show ?thesis using IH by (cases rule: tick_commands [of t k]) (auto simp del: stamina_event.simps)
      next
        case (RegenerationReset now)
        then have "\<not> stamina_flag t" using no [rule_format, of "[]" now es] by simp
        then show ?thesis using IH RegenerationReset by simp
      qed
      then show "client_timer (stamina_flag t) (history_commands t (e # es)) = Some (history_flag t (e # es))"
        by (simp add: Let_def split_beta)
    qed
  qed simp
qed

text \<open>A runner in combat: the first tick starts the timer, and a reset leaves it running.\<close>

definition rested :: PlayerStatTickers where
  "rested =
    (let c = \<lparr>last_processed_at = 0, next_due_at = 250, cadence = 250\<rparr>
     in \<lparr>passive_hp = \<lparr>clock = c, tick_state = passive_hp_default\<rparr>, passive_sp = \<lparr>clock = c, tick_state = passive_sp_default\<rparr>,
         tick_stamina_of = \<lparr>clock = c, tick_state = stamina_default\<rparr>\<rparr>)"

definition combat_run :: StaminaEvent where
  "combat_run = StaminaTicked \<lparr>tk_stamina = 800, tk_max = 800,
    tk_activity = \<lparr>movement = Moving, since_walk_started = None, since_attack = Some 0\<rparr>, tk_mode = Run, tk_elapsed = 250000000\<rparr>"

theorem stamina_timer_in_step_witness:
  "client_timer False (history_commands rested [combat_run]) = Some True \<and>
   timer_runs False (history_commands rested [combat_run, RegenerationReset 500]) \<and>
   \<not> history_flag rested [combat_run, RegenerationReset 500]"
proof (intro conjI)
  have f: "stamina_flag rested = False" "history_flag rested [combat_run] = True" by code_simp+
  have "\<forall>pre now post. [combat_run] = pre @ RegenerationReset now # post \<longrightarrow> \<not> history_flag rested pre"
    by (auto simp: combat_run_def Cons_eq_append_conv)
  then show "client_timer False (history_commands rested [combat_run]) = Some True"
    using stamina_timer_in_step [of rested "[combat_run]"] f by simp
  have "left_running rested [combat_run, RegenerationReset 500]"
    unfolding left_running_def using f(2) by (intro exI [of _ "[combat_run]"] exI [of _ 500] exI [of _ "[]"]) simp
  then show "timer_runs False (history_commands rested [combat_run, RegenerationReset 500])"
    using stamina_timer_in_step [of rested "[combat_run, RegenerationReset 500]"] f(1) by (simp del: stamina_history.simps)
  show "\<not> history_flag rested [combat_run, RegenerationReset 500]" by code_simp
qed

end
