(* ===== verification/Player_Restart.thy ===== *)
theory Player_Restart
  imports Spawn_Payload Stat_Tickers
begin

text \<open>
  Restarting dead players (\<^verbatim>\<open>runtime/player/restart.rs\<close>): on request, once the delay of the request has passed, or
  forced after three minutes.
\<close>

section \<open>Messages\<close>

definition push_chat :: "Entity \<Rightarrow> ChatKind \<Rightarrow> u8 list \<Rightarrow> World \<Rightarrow> World exec" where
  "push_chat e channel message w = push_reliable_to e (EvChat channel None None (message @ [0])) w"

definition close_restart_window :: "Entity \<Rightarrow> World \<Rightarrow> World exec" where
  "close_restart_window e w = push_chat e Command (bytes_of ''CloseRestartWindow'') w"

definition wait_seconds :: "SimDuration \<Rightarrow> u64" where
  "wait_seconds wait = max ((wait + 999) div 1000) 1"

definition push_restart_cooldown_feedback :: "Entity \<Rightarrow> PlayerRestartIntent \<Rightarrow> SimDuration \<Rightarrow> World \<Rightarrow> World exec" where
  "push_restart_cooldown_feedback e intent wait w =
    (let seconds = decimal (wait_seconds wait);
         message = (case intent of
             RestartIntentHere \<Rightarrow> bytes_of ''A new start is not possible at the moment. Please wait '' @ seconds @ bytes_of '' seconds.''
           | RestartIntentTown \<Rightarrow> bytes_of ''You cannot restart in the city yet. Wait another '' @ seconds @ bytes_of '' seconds.'')
     in push_chat e Info message w)"

definition push_spawn_bundle :: "Entity \<Rightarrow> EntitySnapshot \<Rightarrow> World \<Rightarrow> World exec" where
  "push_spawn_bundle e snapshot w =
    (let i = es_entity_id snapshot in
     case net_index w i of
       Some x \<Rightarrow>
         if \<not> contains w x then None
         else do {
           w1 \<leftarrow> push_reliable_to e (EvEntitySpawn snapshot) w;
           if c_animation w x = Some Walk then push_reliable_to e (EvSetEntityMovementAnimation i Walk) w1 else Some w1
         }
     | None \<Rightarrow> push_reliable_to e (EvEntitySpawn snapshot) w)"

definition current_targets :: "iteration \<Rightarrow> World \<Rightarrow> EntityId \<Rightarrow> EntityId list" where
  "current_targets iter w observer = (if map_ready w then targets_for iter (replication w) observer else [])"

section \<open>Restarting a player\<close>

datatype RestartHp = RhFixed i32 | RhHalfMax

datatype RestartVisibility = VisHere | VisTownHandoff

datatype RestartPlacement = PlaceCurrent | PlaceMoveTo LocalPos

definition activity_default :: PlayerActivity where
  "activity_default = \<lparr>last_movement_start_at = None, last_attack_at = None, last_walk_started_at = None,
    preferred_movement_animation = Run\<rparr>"

definition stand_at :: "LocalPos \<Rightarrow> u32 \<Rightarrow> PlayerMotionState \<Rightarrow> PlayerMotionState" where
  "stand_at pos now m = m\<lparr>segment_start_pos := pos, segment_end_pos := pos, segment_start_ts := now, segment_end_ts := now,
    last_client_ts := now\<rparr>"

definition restart_hp_value :: "RestartHp \<Rightarrow> ActorStatsRuntime \<Rightarrow> i32" where
  "restart_hp_value h rt = (case h of RhFixed v \<Rightarrow> v | RhHalfMax \<Rightarrow> read_packet (rt_state rt) MaxHp sdiv 2)"

definition restart_components :: "Entity \<Rightarrow> RestartPlacement \<Rightarrow> World \<Rightarrow> World" where
  "restart_components e placement w =
    (let motion_pos = (case placement of PlaceCurrent \<Rightarrow> map_option tf_pos (c_transform w e) | PlaceMoveTo pos \<Rightarrow> Some pos)
     in w\<lparr>c_life := (c_life w)(e := map_option (\<lambda>p. snd (life_restart p)) (c_life w e)),
          c_transform := (case placement of
              PlaceMoveTo pos \<Rightarrow> (c_transform w)(e := map_option (tf_pos_update (\<lambda>_. pos)) (c_transform w e))
            | PlaceCurrent \<Rightarrow> c_transform w),
          c_motion := (case motion_pos of
              Some pos \<Rightarrow> (c_motion w)(e := map_option (stand_at pos (packet_now w)) (c_motion w e))
            | None \<Rightarrow> c_motion w),
          c_animation := (c_animation w)(e := map_option (\<lambda>_. Run) (c_animation w e)),
          c_activity := (c_activity w)(e := map_option (\<lambda>_. activity_default) (c_activity w e)),
          c_tickers := (c_tickers w)(e := map_option (reset_after_regeneration_pause (sim_now w)) (c_tickers w e)),
          c_target := (c_target w)(e := map_option (\<lambda>_. None) (c_target w e))\<rparr>)"

definition restart_stats :: "Entity \<Rightarrow> RestartHp \<Rightarrow> World \<Rightarrow> World exec" where
  "restart_stats e h w =
    (case c_stats w e of
       None \<Rightarrow> Some w
     | Some rt \<Rightarrow> do {
         (_, rt') \<leftarrow> with_api_mut rt (\<lambda>src st. set_resource st Hp (restart_hp_value h rt));
         Some (w\<lparr>c_stats := (c_stats w)(e \<mapsto> rt')\<rparr>)
       })"

definition apply_restart_state :: "Entity \<Rightarrow> EntityId \<Rightarrow> RestartPlacement \<Rightarrow> RestartHp \<Rightarrow> World \<Rightarrow> World exec" where
  "apply_restart_state e i placement h w = do {
     w1 \<leftarrow> restart_stats e h (restart_components e placement w);
     let w2 = (case placement of
         PlaceMoveTo pos \<Rightarrow>
           if map_ready w1 \<and> spatial w1 i \<noteq> None then w1\<lparr>spatial := (spatial w1)(i \<mapsto> pos)\<rparr> else w1
       | PlaceCurrent \<Rightarrow> w1);
     Some (mark_player_dirty w2 e)
   }"

definition respawn_target :: "SharedConfig \<Rightarrow> Entity \<Rightarrow> EntityId \<Rightarrow> World \<Rightarrow> World exec" where
  "respawn_target shared e target_id w = do {
     s \<leftarrow> make_entity_snapshot w shared target_id;
     (case s of None \<Rightarrow> Some w | Some snapshot \<Rightarrow> push_spawn_bundle e snapshot w)
   }"

definition show_restart_here :: "iteration \<Rightarrow> SharedConfig \<Rightarrow> Entity \<Rightarrow> EntityId \<Rightarrow> EntitySnapshot \<Rightarrow> World \<Rightarrow> World exec" where
  "show_restart_here iter shared e i snapshot w = do {
     w1 \<leftarrow> broadcast_actor_event iter i Observers (\<lambda>x. EvEntityDespawn x) w;
     w2 \<leftarrow> broadcast_actor_event iter i Observers (\<lambda>_. EvEntitySpawn snapshot) w1;
     w3 \<leftarrow> push_reliable_to e (EvEntityDespawn i) w2;
     w4 \<leftarrow> push_spawn_bundle e snapshot w3;
     for_each (respawn_target shared e) (current_targets iter w4 i) w4
   }"

definition restart_player :: "iteration \<Rightarrow> SharedConfig \<Rightarrow> Entity \<Rightarrow> RestartPlacement \<Rightarrow> RestartHp \<Rightarrow> RestartVisibility \<Rightarrow> World \<Rightarrow> World exec" where
  "restart_player iter shared e placement h visibility w =
    (case c_net w e of
       None \<Rightarrow> Some w
     | Some i \<Rightarrow> do {
         w1 \<leftarrow> apply_restart_state e i placement h w;
         w2 \<leftarrow> close_restart_window e w1;
         (case visibility of
            VisHere \<Rightarrow> do {
              s \<leftarrow> make_entity_snapshot w2 shared i;
              (case s of
                 None \<Rightarrow> Some w2
               | Some snapshot \<Rightarrow> map_option (\<lambda>w3. w3\<lparr>world_dirty := True\<rparr>) (show_restart_here iter shared e i snapshot w2))
            }
          | VisTownHandoff \<Rightarrow> map_option (\<lambda>w3. w3\<lparr>world_dirty := True\<rparr>) (push_reliable_to e EvRestartTown w2))
       })"

definition restart_here :: "iteration \<Rightarrow> SharedConfig \<Rightarrow> Entity \<Rightarrow> RestartHp \<Rightarrow> World \<Rightarrow> World exec" where
  "restart_here iter shared e h w =
    (case c_transform w e of None \<Rightarrow> Some w | Some tf \<Rightarrow> restart_player iter shared e (PlaceMoveTo (tf_pos tf)) h VisHere w)"

definition restart_town :: "iteration \<Rightarrow> SharedConfig \<Rightarrow> Entity \<Rightarrow> RestartHp \<Rightarrow> World \<Rightarrow> World exec" where
  "restart_town iter shared e h w = restart_player iter shared e PlaceCurrent h VisTownHandoff w"

definition restart_by_intent :: "iteration \<Rightarrow> SharedConfig \<Rightarrow> Entity \<Rightarrow> PlayerRestartIntent \<Rightarrow> RestartHp \<Rightarrow> World \<Rightarrow> World exec" where
  "restart_by_intent iter shared e intent h w =
    (case intent of RestartIntentHere \<Rightarrow> restart_here iter shared e h w | RestartIntentTown \<Rightarrow> restart_town iter shared e h w)"

definition restart_readiness_for :: "ActorLifePhase \<Rightarrow> PlayerRestartIntent \<Rightarrow> SimInstant \<Rightarrow> RestartReadiness option" where
  "restart_readiness_for p intent now =
    (case intent of RestartIntentHere \<Rightarrow> restart_here_readiness p now | RestartIntentTown \<Rightarrow> restart_town_readiness p now)"

definition process_requested_restart :: "iteration \<Rightarrow> SharedConfig \<Rightarrow> SimInstant \<Rightarrow> Entity \<times> PlayerRestartIntent \<Rightarrow> World \<Rightarrow> World exec" where
  "process_requested_restart iter shared now = (\<lambda>(e, intent) w.
    if \<not> contains w e then None
    else case c_life w e of
      None \<Rightarrow> Some w
    | Some life \<Rightarrow>
        if \<not> is_dead life then close_restart_window e w
        else (case restart_readiness_for life intent now of
            Some Ready \<Rightarrow> restart_by_intent iter shared e intent (RhFixed 50) w
          | Some (Waiting wait) \<Rightarrow> push_restart_cooldown_feedback e intent wait w
          | None \<Rightarrow> Some w))"

definition restart_requests :: "World \<Rightarrow> (Entity \<times> PlayerRestartIntent) list" where
  "restart_requests w = List.map_filter (\<lambda>e. case c_restart_intents w e of
      None \<Rightarrow> None | Some q \<Rightarrow> if q = [] then None else Some (e, last q)) (entities w)"

definition drain_restart_intents :: "World \<Rightarrow> (Entity \<times> PlayerRestartIntent) list \<times> World" where
  "drain_restart_intents w =
    (restart_requests w,
     w\<lparr>c_restart_intents := (\<lambda>e. if contains w e then map_option (\<lambda>_. []) (c_restart_intents w e) else c_restart_intents w e)\<rparr>)"

definition forced_respawn_players :: "World \<Rightarrow> SimInstant \<Rightarrow> Entity list" where
  "forced_respawn_players w now =
    filter (\<lambda>e. c_player w e \<noteq> None \<and> (case c_life w e of None \<Rightarrow> False | Some p \<Rightarrow> forced_respawn_due p now)) (entities w)"

definition process_player_restarts :: "iteration \<Rightarrow> SharedConfig \<Rightarrow> World \<Rightarrow> World exec" where
  "process_player_restarts iter shared w =
    (let now = sim_now w; (requested, w1) = drain_restart_intents w in do {
       w2 \<leftarrow> for_each (process_requested_restart iter shared now) requested w1;
       for_each (\<lambda>e. restart_town iter shared e RhHalfMax) (forced_respawn_players w2 now) w2
     })"

section \<open>Only the outbox and the restarted player change\<close>

text \<open>Nothing but outboxes and the dirty flag of the map.\<close>

definition only_told :: "World \<Rightarrow> World \<Rightarrow> bool" where
  "only_told w w' \<longleftrightarrow> (\<exists>ob d. w' = w\<lparr>c_outbox := ob, world_dirty := d\<rparr>)"

lemma only_told_refl [simp]: "only_told w w"
  unfolding only_told_def by (rule exI [of _ "c_outbox w"], rule exI [of _ "world_dirty w"]) simp

lemma only_told_trans: "only_told w1 w2 \<Longrightarrow> only_told w2 w3 \<Longrightarrow> only_told w1 w3"
  unfolding only_told_def by (elim exE) (simp, blast)

lemma push_told: "push_reliable_to e ev w = Some w' \<Longrightarrow> only_told w w'"
  unfolding only_told_def push_reliable_to_def
  by (cases w) (auto split: if_splits option.splits)

lemma for_each_told:
  assumes "for_each f xs w = Some w'" "\<And>x w w'. f x w = Some w' \<Longrightarrow> only_told w w'"
  shows "only_told w w'"
  using assms(1) by (rule for_each_inv [where I = "only_told w"]) (auto intro: only_told_trans assms(2))

lemma broadcast_told: "broadcast_actor_event iter i a f w = Some w' \<Longrightarrow> only_told w w'"
  unfolding broadcast_actor_event_def by (erule for_each_told) (rule push_told)

lemma spawn_bundle_told: "push_spawn_bundle e s w = Some w' \<Longrightarrow> only_told w w'"
  by (auto simp: push_spawn_bundle_def Let_def split: option.splits if_splits Option.bind_splits
    dest!: push_told intro: only_told_trans)

lemma respawn_told: "respawn_target shared e t w = Some w' \<Longrightarrow> only_told w w'"
  by (auto simp: respawn_target_def split: option.splits Option.bind_splits dest!: spawn_bundle_told)

lemma show_here_told: "show_restart_here iter shared e i s w = Some w' \<Longrightarrow> only_told w w'"
  by (auto simp: show_restart_here_def split: Option.bind_splits
    dest!: broadcast_told push_told spawn_bundle_told for_each_told [OF _ respawn_told]) (meson only_told_trans)

lemma told_sel:
  assumes "only_told w w'"
  shows "c_life w' = c_life w" "c_net w' = c_net w" "c_player w' = c_player w" "c_transform w' = c_transform w" "entities w' = entities w"
    "c_stats w' = c_stats w" "sim_now w' = sim_now w" "net_index w' = net_index w" "facts w' = facts w"
    "replication w' = replication w" "c_mob w' = c_mob w" "map_ready w' = map_ready w"
  using assms by (auto simp: only_told_def)

text \<open>What a restart does to the player: alive, with the given hit points within its cap.\<close>

definition revived :: "Entity \<Rightarrow> World \<Rightarrow> World \<Rightarrow> bool" where
  "revived e w w' \<longleftrightarrow> c_life w' = (c_life w)(e := map_option (\<lambda>p. snd (life_restart p)) (c_life w e)) \<and>
    entities w' = entities w \<and> c_net w' = c_net w \<and> c_player w' = c_player w \<and> sim_now w' = sim_now w \<and>
    (\<forall>x. c_transform w' x = None \<longleftrightarrow> c_transform w x = None)"

lemma apply_restart_revives:
  assumes "apply_restart_state e i placement h w = Some w'"
  shows "revived e w w'"
proof -
  obtain w1 where w1: "restart_stats e h (restart_components e placement w) = Some w1"
    using assms by (auto simp: apply_restart_state_def split: Option.bind_splits)
  have "\<exists>s. w1 = (restart_components e placement w)\<lparr>c_stats := s\<rparr>"
  proof (cases "c_stats (restart_components e placement w) e")
    case None
    then have "w1 = restart_components e placement w" using w1 by (simp add: restart_stats_def)
    then show ?thesis by (intro exI [of _ "c_stats w1"]) simp
  next
    case (Some rt)
    then show ?thesis using w1 by (auto simp: restart_stats_def split: Option.bind_splits)
  qed
  then show ?thesis using assms w1
    by (auto simp: apply_restart_state_def revived_def restart_components_def mark_player_dirty_def Let_def
      split: RestartPlacement.splits if_splits)
qed

lemma revived_told: "revived e w w1 \<Longrightarrow> only_told w1 w2 \<Longrightarrow> revived e w w2"
  by (simp add: revived_def told_sel)

lemma restart_player_revives:
  assumes "restart_player iter shared e placement h v w = Some w'" "c_net w e \<noteq> None"
  shows "revived e w w'"
proof -
  obtain i where i: "c_net w e = Some i" using assms(2) by auto
  obtain w1 where w1: "apply_restart_state e i placement h w = Some w1"
    using assms(1) i by (cases "apply_restart_state e i placement h w") (simp_all add: restart_player_def)
  obtain w2 where w2: "close_restart_window e w1 = Some w2"
    using assms(1) i w1 by (cases "close_restart_window e w1") (simp_all add: restart_player_def)
  have r: "revived e w w2"
    using apply_restart_revives [OF w1] push_told w2 by (auto simp: close_restart_window_def push_chat_def intro: revived_told)
  have dirty: "only_told w0 (w0\<lparr>world_dirty := True\<rparr>)" for w0
    unfolding only_told_def by (rule exI [of _ "c_outbox w0"], rule exI [of _ True]) simp
  have "only_told w2 w'"
    using assms(1) i w1 w2 by (auto simp: restart_player_def split: RestartVisibility.splits option.splits Option.bind_splits
      dest!: show_here_told push_told intro: only_told_trans [OF _ dirty])
  then show ?thesis by (rule revived_told [OF r])
qed

lemma dead_restarts: "is_dead p \<Longrightarrow> snd (life_restart p) = Alive"
  by (simp add: life_restart_def)

text \<open>A request of a dead player is granted.\<close>

definition granted :: "World \<Rightarrow> Entity \<Rightarrow> PlayerRestartIntent \<Rightarrow> SimInstant \<Rightarrow> bool" where
  "granted w e intent now \<longleftrightarrow>
    (case c_life w e of Some p \<Rightarrow> is_dead p \<and> restart_readiness_for p intent now = Some Ready | None \<Rightarrow> False)"

lemma request_life:
  assumes "process_requested_restart iter shared now (e, intent) w = Some w'" "c_net w e \<noteq> None" "c_transform w e \<noteq> None"
  shows "c_life w' = (if granted w e intent now then (c_life w)(e \<mapsto> Alive) else c_life w) \<and>
    entities w' = entities w \<and> c_net w' = c_net w \<and> c_player w' = c_player w \<and> sim_now w' = sim_now w \<and>
    (\<forall>x. c_transform w' x = None \<longleftrightarrow> c_transform w x = None)"
proof (cases "granted w e intent now")
  case True
  then obtain p where p: "c_life w e = Some p" "is_dead p" "restart_readiness_for p intent now = Some Ready"
    by (auto simp: granted_def split: option.splits)
  have "contains w e" using assms(1) by (auto simp: process_requested_restart_def split: if_splits)
  with assms(1) p have "restart_by_intent iter shared e intent (RhFixed 50) w = Some w'" by (simp add: process_requested_restart_def)
  then have "revived e w w'"
    using assms(2,3) by (auto simp: restart_by_intent_def restart_here_def restart_town_def split: PlayerRestartIntent.splits option.splits
      intro: restart_player_revives)
  then show ?thesis using True p by (simp add: revived_def dead_restarts)
next
  case False
  then have "only_told w w'" using assms(1)
    by (auto simp: process_requested_restart_def granted_def close_restart_window_def push_chat_def push_restart_cooldown_feedback_def Let_def
      split: if_splits option.splits RestartReadiness.splits dest: push_told)
  then show ?thesis using False by (simp add: told_sel)
qed

section \<open>When a dead player restarts\<close>

definition restartable :: "World \<Rightarrow> Entity \<Rightarrow> bool" where
  "restartable w e \<longleftrightarrow> c_net w e \<noteq> None \<and> c_transform w e \<noteq> None"

lemma requests_life:
  assumes "for_each (process_requested_restart iter shared now) rs w = Some w'" "distinct (map fst rs)" "\<forall>r\<in>set rs. restartable w (fst r)"
  shows "c_life w' e = (case map_of rs e of Some intent \<Rightarrow> if granted w e intent now then Some Alive else c_life w e | None \<Rightarrow> c_life w e) \<and>
    entities w' = entities w \<and> c_net w' = c_net w \<and> c_player w' = c_player w \<and> sim_now w' = sim_now w \<and>
    (\<forall>x. c_transform w' x = None \<longleftrightarrow> c_transform w x = None)"
  using assms
proof (induction rs arbitrary: w)
  case (Cons r rs)
  obtain x intent where r: "r = (x, intent)" by (cases r)
  obtain w1 where w1: "process_requested_restart iter shared now (x, intent) w = Some w1"
    "for_each (process_requested_restart iter shared now) rs w1 = Some w'" using Cons.prems(1) by (auto simp: r split: option.splits)
  have x: "c_net w x \<noteq> None" "c_transform w x \<noteq> None" using Cons.prems(3) by (simp_all add: r restartable_def)
  note F = request_life [OF w1(1) x]
  have "\<forall>q\<in>set rs. restartable w1 (fst q)" using Cons.prems(3) F by (simp add: restartable_def)
  with Cons.IH [OF w1(2)] Cons.prems(2) have IH:
    "c_life w' e = (case map_of rs e of Some j \<Rightarrow> if granted w1 e j now then Some Alive else c_life w1 e | None \<Rightarrow> c_life w1 e) \<and>
     entities w' = entities w1 \<and> c_net w' = c_net w1 \<and> c_player w' = c_player w1 \<and> sim_now w' = sim_now w1 \<and>
     (\<forall>x. c_transform w' x = None \<longleftrightarrow> c_transform w1 x = None)" by simp
  have same: "granted w1 e j now = granted w e j now" if "e \<noteq> x" for j using F that by (simp add: granted_def)
  have "map_of rs x = None" using Cons.prems(2) by (simp add: r map_of_eq_None_iff)
  then show ?case using IH F same by (cases "e = x") (auto simp: r split: option.split)
qed simp

lemma forced_life:
  assumes "for_each (\<lambda>e. restart_town iter shared e RhHalfMax) es w = Some w'" "\<forall>x\<in>set es. c_net w x \<noteq> None \<and> (\<exists>p. c_life w x = Some p \<and> is_dead p)"
    "distinct es"
  shows "c_life w' e = (if e \<in> set es then Some Alive else c_life w e)"
  using assms
proof (induction es arbitrary: w)
  case (Cons x es)
  obtain w1 where w1: "restart_town iter shared x RhHalfMax w = Some w1" "for_each (\<lambda>e. restart_town iter shared e RhHalfMax) es w1 = Some w'"
    using Cons.prems(1) by (auto split: option.splits)
  obtain p where p: "c_life w x = Some p" "is_dead p" using Cons.prems(2) by auto
  have R: "revived x w w1" using restart_player_revives w1(1) Cons.prems(2) by (auto simp: restart_town_def)
  then have life: "c_life w1 = (c_life w)(x \<mapsto> Alive)" "c_net w1 = c_net w" using p by (simp_all add: revived_def dead_restarts)
  have "\<forall>y\<in>set es. c_net w1 y \<noteq> None \<and> (\<exists>p. c_life w1 y = Some p \<and> is_dead p)" using Cons.prems(2,3) life by auto
  from Cons.IH [OF w1(2) this] Cons.prems(3) show ?case using life by auto
qed simp

lemma requests_distinct: "distinct (entities w) \<Longrightarrow> distinct (map fst (restart_requests w))"
proof -
  have keys: "map fst (List.map_filter f xs) = filter (\<lambda>x. f x \<noteq> None) xs" if "\<And>x y. f x = Some y \<Longrightarrow> fst y = x" for f xs
    using that by (induction xs) (auto simp: map_filter_simps split: option.split)
  assume "distinct (entities w)"
  then show ?thesis unfolding restart_requests_def by (subst keys) (auto split: option.splits if_splits)
qed

text \<open>
  C22. When a dead player restarts.  In a frame at least three minutes after its death it restarts, whatever it asked for;
  before that, exactly when its latest request of the frame is for the town and seven seconds have passed, or for the
  place of death and ten have.  Otherwise it stays dead, as it was.
\<close>

theorem restart_times:
  assumes "process_player_restarts iter shared w = Some w'" "distinct (entities w)"
    and "\<forall>x\<in>set (entities w). c_player w x \<noteq> None \<or> c_restart_intents w x \<noteq> None \<longrightarrow> restartable w x"
    and "contains w e" "c_player w e \<noteq> None" "c_life w e = Some (death_phase died_at i True False)"
    and "0 \<le> died_at" "died_at + 180000 \<le> u64_MAX"
  shows "c_life w' e =
    (if died_at + 180000 \<le> sim_now w \<or>
        (case map_of (restart_requests w) e of
           Some RestartIntentHere \<Rightarrow> died_at + 10000 \<le> sim_now w
         | Some RestartIntentTown \<Rightarrow> died_at + 7000 \<le> sim_now w
         | None \<Rightarrow> False)
     then Some Alive else c_life w e)"
proof -
  let ?rs = "restart_requests w" and ?w1 = "snd (drain_restart_intents w)" and ?now = "sim_now w"
  obtain w2 where w2: "for_each (process_requested_restart iter shared ?now) ?rs ?w1 = Some w2"
    "for_each (\<lambda>e. restart_town iter shared e RhHalfMax) (forced_respawn_players w2 ?now) w2 = Some w'"
    using assms(1) by (auto simp: process_player_restarts_def drain_restart_intents_def Let_def split: Option.bind_splits)
  have same: "c_life ?w1 = c_life w" "entities ?w1 = entities w" "c_net ?w1 = c_net w" "c_player ?w1 = c_player w"
    "c_transform ?w1 = c_transform w" by (simp_all add: drain_restart_intents_def)
  have "\<forall>r\<in>set ?rs. restartable ?w1 (fst r)"
    using assms(3) by (auto simp: restart_requests_def map_filter_def restartable_def same split: option.splits if_splits)
  note R = requests_life [OF w2(1) requests_distinct [OF assms(2)] this]
  have dead: "is_dead (death_phase died_at i True False)" by (simp add: death_phase_def is_dead_def)
  have due: "forced_respawn_due (death_phase died_at i True False) ?now \<longleftrightarrow> died_at + 180000 \<le> ?now"
    using assms(7,8) by (simp add: forced_respawn_due_def death_phase_def life_delays sim_add_min)
  have ready: "granted ?w1 e intent ?now \<longleftrightarrow> (case intent of RestartIntentHere \<Rightarrow> died_at + 10000 \<le> ?now | RestartIntentTown \<Rightarrow> died_at + 7000 \<le> ?now)" for intent
    using assms(6-8) dead by (simp add: granted_def same restart_readiness_for_def restart_here_readiness_def restart_town_readiness_def
      restart_readiness_def restart_here_allowed_of_def restart_town_allowed_of_def death_phase_def life_delays sim_add_min
      split: PlayerRestartIntent.split)
  let ?ok = "case map_of ?rs e of Some RestartIntentHere \<Rightarrow> died_at + 10000 \<le> ?now | Some RestartIntentTown \<Rightarrow> died_at + 7000 \<le> ?now | None \<Rightarrow> False"
  have l2: "c_life w2 e = (if ?ok then Some Alive else c_life w e)"
    using R [of e] ready by (auto simp: same split: option.splits PlayerRestartIntent.splits)
  have "\<forall>x\<in>set (forced_respawn_players w2 ?now). c_net w2 x \<noteq> None \<and> (\<exists>p. c_life w2 x = Some p \<and> is_dead p)"
    using R assms(3) by (auto simp: forced_respawn_players_def forced_respawn_due_def is_dead_def restartable_def same
      split: option.splits ActorLifePhase.splits)
  moreover have "distinct (forced_respawn_players w2 ?now)" using R assms(2) by (simp add: forced_respawn_players_def same)
  ultimately have l': "c_life w' e = (if e \<in> set (forced_respawn_players w2 ?now) then Some Alive else c_life w2 e)"
    by (rule forced_life [OF w2(2)])
  have "e \<in> set (forced_respawn_players w2 ?now) \<longleftrightarrow> \<not> ?ok \<and> died_at + 180000 \<le> ?now"
    using conjunct2 [OF R [of e]] assms(4-6) due
    by (auto simp: forced_respawn_players_def same contains_def l2 forced_respawn_due_def [of Alive])
  then show ?thesis using l' l2 by simp
qed

definition dead_player_world :: World where
  "dead_player_world = empty_world\<lparr>entities := [3], sim_now := 8500, c_player := [3 \<mapsto> 7], c_net := [3 \<mapsto> 11],
    c_transform := [3 \<mapsto> \<lparr>tf_pos = (0, 0), tf_rot = 0\<rparr>], c_life := [3 \<mapsto> death_phase 1000 11 True False],
    c_restart_intents := [3 \<mapsto> [RestartIntentHere, RestartIntentTown]], net_index := [11 \<mapsto> 3]\<rparr>"

lemma dead_player_returns: "process_player_restarts iter shared dead_player_world \<noteq> None"
proof -
  let ?w = "snd (drain_restart_intents dead_player_world)"
  have rs: "restart_requests dead_player_world = [(3, RestartIntentTown)]"
    by (simp add: restart_requests_def dead_player_world_def map_filter_simps)
  have told: "push_reliable_to e ev w \<noteq> None" if "contains w e" for e ev w
    using that by (simp add: push_reliable_to_def split: option.split)
  have town: "restart_town iter shared e h w \<noteq> None" if "contains w e" "c_stats w e = None" for e h w
  proof (cases "c_net w e")
    case (Some i)
    have s: "restart_stats e h (restart_components e PlaceCurrent w) = Some (restart_components e PlaceCurrent w)"
      using that(2) by (simp add: restart_stats_def restart_components_def Let_def)
    have "contains (mark_player_dirty (restart_components e PlaceCurrent w) e) e"
      using that(1) by (simp add: mark_player_dirty_def restart_components_def contains_def Let_def)
    then obtain w2 where w2: "close_restart_window e (mark_player_dirty (restart_components e PlaceCurrent w) e) = Some w2"
      using told by (fastforce simp: close_restart_window_def push_chat_def)
    then have "contains w2 e" using \<open>contains (mark_player_dirty _ e) e\<close> push_told told_sel(5)
      by (fastforce simp: close_restart_window_def push_chat_def contains_def)
    then show ?thesis using Some s w2 told by (fastforce simp: restart_town_def restart_player_def apply_restart_state_def Let_def)
  qed (simp add: restart_town_def restart_player_def)
  have w: "contains ?w 3" "c_stats ?w 3 = None" "c_life ?w 3 = Some (death_phase 1000 11 True False)"
    by (simp_all add: drain_restart_intents_def dead_player_world_def contains_def empty_world_def)
  obtain w2 where w2: "process_requested_restart iter shared 8500 (3, RestartIntentTown) ?w = Some w2"
    using town [OF w(1,2), of "RhFixed 50"] w
    by (fastforce simp: process_requested_restart_def is_dead_def death_phase_def restart_readiness_for_def restart_town_readiness_def
      restart_readiness_def restart_town_allowed_of_def life_delays sim_add_min restart_by_intent_def)
  have n: "c_net ?w 3 \<noteq> None" "c_transform ?w 3 \<noteq> None" by (simp_all add: drain_restart_intents_def dead_player_world_def)
  have "c_life w2 3 = Some Alive"
    using request_life [OF w2 n] w(3) by (simp add: granted_def is_dead_def death_phase_def restart_readiness_for_def
      restart_town_readiness_def restart_readiness_def restart_town_allowed_of_def life_delays sim_add_min)
  moreover have "entities w2 = [3]" using request_life [OF w2 n] by (simp add: drain_restart_intents_def dead_player_world_def)
  ultimately have "forced_respawn_players w2 8500 = []" by (simp add: forced_respawn_players_def forced_respawn_due_def)
  then show ?thesis using w2 rs by (simp add: process_player_restarts_def drain_restart_intents_def Let_def dead_player_world_def)
qed

theorem restart_times_witness:
  "\<exists>w'. process_player_restarts (\<lambda>_. []) \<lparr>sc_mobs = Map.empty, sc_player_stats = \<lparr>class_stats = [], level_exp = []\<rparr>,
      sc_pause_idle_min = 0, sc_pause_idle_max = 0\<rparr> dead_player_world = Some w' \<and> c_life w' 3 = Some Alive"
proof -
  let ?s = "\<lparr>sc_mobs = Map.empty, sc_player_stats = \<lparr>class_stats = [], level_exp = []\<rparr>, sc_pause_idle_min = 0, sc_pause_idle_max = 0\<rparr>"
  obtain w' where w': "process_player_restarts (\<lambda>_. []) ?s dead_player_world = Some w'" using dead_player_returns by blast
  have wf: "distinct (entities dead_player_world)"
    "\<forall>x\<in>set (entities dead_player_world). c_player dead_player_world x \<noteq> None \<or> c_restart_intents dead_player_world x \<noteq> None \<longrightarrow> restartable dead_player_world x"
    "contains dead_player_world 3" "c_player dead_player_world 3 \<noteq> None" "c_life dead_player_world 3 = Some (death_phase 1000 11 True False)"
    by (simp_all add: dead_player_world_def restartable_def contains_def)
  have "map_of (restart_requests dead_player_world) 3 = Some RestartIntentTown"
    by (simp add: restart_requests_def dead_player_world_def map_filter_simps)
  moreover have "sim_now dead_player_world = 8500" by (simp add: dead_player_world_def)
  ultimately show ?thesis using restart_times [OF w' wf] w' by auto
qed

end
