(* ===== verification/Projection.thy ===== *)
theory Projection
  imports Combat Kill_Rewards Player_Restart
begin

text \<open>
  What clients are told at the end of a frame (\<^verbatim>\<open>runtime/projection.rs\<close>, \<^verbatim>\<open>runtime/player/target.rs\<close>): the facts a frame
  collected become events in the outboxes, and are cleared.  The projection looks up the entities the facts name and
  panics when one of them is gone.
\<close>

section \<open>Targets of players\<close>

definition target_is_visible :: "World \<Rightarrow> EntityId \<Rightarrow> EntityId \<Rightarrow> bool" where
  "target_is_visible w player_id target_id = is_visible (replication w) player_id target_id"

definition target_is_selectable :: "World \<Rightarrow> EntityId \<Rightarrow> EntityId \<Rightarrow> bool" where
  "target_is_selectable w player_id target_id \<longleftrightarrow>
    net_index w target_id \<noteq> None \<and> target_id \<noteq> player_id \<and> target_is_visible w player_id target_id"

definition set_selected_target :: "Entity \<Rightarrow> EntityId option \<Rightarrow> World \<Rightarrow> World exec" where
  "set_selected_target e selected w =
    (if \<not> contains w e then None else Some (w\<lparr>c_target := (c_target w)(e := map_option (\<lambda>_. selected) (c_target w e))\<rparr>))"

definition push_health_bar :: "Entity \<Rightarrow> EntityId \<Rightarrow> u8 \<Rightarrow> World \<Rightarrow> World exec" where
  "push_health_bar e i hp_pct w = push_reliable_to e (EvSyncEntityHealthBar i (min hp_pct 100)) w"

text \<open>The bits of the flags of a hit and of the event are the same, in the same order.\<close>

definition damage_info_flags :: "u8 \<Rightarrow> u8" where
  "damage_info_flags flags = sum_list (map (\<lambda>k. if odd (flags div 2 ^ k) then 2 ^ k else 0) [0..<6])"

definition push_damage_info :: "Entity \<Rightarrow> EntityId \<Rightarrow> i32 \<Rightarrow> u8 \<Rightarrow> World \<Rightarrow> World exec" where
  "push_damage_info e i damage flags w = push_reliable_to e (EvDamageInfo i (damage_info_flags flags) damage) w"

definition health_bar_percent_for_entity :: "World \<Rightarrow> Entity \<Rightarrow> u8 exec" where
  "health_bar_percent_for_entity w e =
    (if \<not> contains w e then None
     else if c_stats w e \<noteq> None then Some 0
     else case c_mob_stats w e of
       None \<Rightarrow> Some 0
     | Some rt \<Rightarrow> do {
         max_hp \<leftarrow> read_limited (rt_source rt) (rt_state rt) MaxHp;
         if max_hp \<le> 0 then Some 0
         else do {
           h \<leftarrow> read_limited (rt_source rt) (rt_state rt) Hp;
           Some (max 0 (min 100 ((max 0 (min max_hp h) * 100) div max_hp)))
         }
       })"

definition health_bar_percent_for_entity_id :: "World \<Rightarrow> EntityId \<Rightarrow> u8 option exec" where
  "health_bar_percent_for_entity_id w i =
    (case net_index w i of None \<Rightarrow> Some None | Some e \<Rightarrow> map_option Some (health_bar_percent_for_entity w e))"

definition select_target :: "Entity \<Rightarrow> EntityId \<Rightarrow> EntityId \<Rightarrow> World \<Rightarrow> World exec" where
  "select_target e player_id target_id w =
    (if target_id = 0 \<or> \<not> target_is_selectable w player_id target_id
     then do { w1 \<leftarrow> set_selected_target e None w; push_health_bar e 0 0 w1 }
     else do {
       w1 \<leftarrow> set_selected_target e (Some target_id) w;
       p \<leftarrow> health_bar_percent_for_entity_id w1 target_id;
       (case p of None \<Rightarrow> Some w1 | Some hp_pct \<Rightarrow> push_health_bar e target_id hp_pct w1)
     })"

definition targeters :: "World \<Rightarrow> EntityId \<Rightarrow> (Entity \<times> EntityId) list" where
  "targeters w target_id =
    List.map_filter (\<lambda>e. case (c_net w e, c_target w e, c_player w e) of
        (Some i, Some selected, Some _) \<Rightarrow> if selected = Some target_id then Some (e, i) else None
      | _ \<Rightarrow> None) (entities w)"

definition broadcast_entity_health_bar_to_targeters :: "EntityId \<Rightarrow> World \<Rightarrow> World exec" where
  "broadcast_entity_health_bar_to_targeters target_id w =
    (if \<not> map_ready w then Some w
     else do {
       p \<leftarrow> health_bar_percent_for_entity_id w target_id;
       (case p of
          None \<Rightarrow> Some w
        | Some hp_pct \<Rightarrow>
            for_each (\<lambda>(e, i) w. if target_is_visible w i target_id then push_health_bar e target_id hp_pct w else Some w)
              (targeters w target_id) w)
     })"

definition send_damage_info_to_selected_target :: "Entity \<Rightarrow> EntityId \<Rightarrow> i32 \<Rightarrow> u8 \<Rightarrow> World \<Rightarrow> World exec" where
  "send_damage_info_to_selected_target e target_id damage flags w =
    (if \<not> contains w e then None
     else if Option.bind (c_target w e) (\<lambda>s. s) = Some target_id then push_damage_info e target_id damage flags w
     else Some w)"

section \<open>Projection\<close>

definition map_special_effect :: "ActorSpecialEffectKind \<Rightarrow> SpecialEffectType" where
  "map_special_effect k = (case k of CriticalKind \<Rightarrow> EffectCritical | PiercingKind \<Rightarrow> EffectPenetrate)"

definition broadcast_special_effect :: "iteration \<Rightarrow> ActorRef \<times> ActorSpecialEffectKind \<Rightarrow> World \<Rightarrow> World exec" where
  "broadcast_special_effect iter p w =
    broadcast_actor_event iter (ar_id (fst p)) ViewAndSelf (\<lambda>i. EvSpecialEffect (map_special_effect (snd p)) i) w"

definition point_effect_actor :: "PointVisualEffect \<Rightarrow> ActorRef" where
  "point_effect_actor x = (case x of LevelStepEffect a \<Rightarrow> a | LevelUpEffect a _ \<Rightarrow> a)"

definition point_visual_stat_update :: "PointVisualEffect \<Rightarrow> Stat \<times> i32" where
  "point_visual_stat_update x = (case x of LevelStepEffect _ \<Rightarrow> (LevelStep, 0) | LevelUpEffect _ level \<Rightarrow> (Level, level))"

definition broadcast_point_visual_effect :: "iteration \<Rightarrow> PointVisualEffect \<Rightarrow> World \<Rightarrow> World exec" where
  "broadcast_point_visual_effect iter x w =
    broadcast_actor_event iter (ar_id (point_effect_actor x)) Observers (\<lambda>i. EvSetEntityStats i [point_visual_stat_update x]) w"

definition stamina_timer_command :: "PlayerStaminaTimerChanged \<Rightarrow> u8 list" where
  "stamina_timer_command f =
    (case stc_command f of
       Start consume_per_sec \<Rightarrow>
         bytes_of ''StartStaminaConsume '' @ decimal consume_per_sec @ bytes_of '' '' @ decimal (stc_current f) @ [0]
     | Stop \<Rightarrow> bytes_of ''StopStaminaConsume '' @ decimal (stc_current f) @ [0])"

definition hit_special_effects :: "u8 \<Rightarrow> ActorSpecialEffectKind list" where
  "hit_special_effects flags =
    (if odd (flags div HIT_CRITICAL) then [CriticalKind] else []) @ (if odd (flags div HIT_PENETRATE) then [PiercingKind] else [])"

definition project_damage :: "iteration \<Rightarrow> ActorDamaged \<Rightarrow> World \<Rightarrow> World exec" where
  "project_damage iter d w =
    (let victim = ad_victim d; by_actor = ad_attacker d in
     if \<not> contains w (ar_entity victim) then None
     else do {
       w1 \<leftarrow> (if c_mob_stats w (ar_entity victim) \<noteq> None then broadcast_entity_health_bar_to_targeters (ar_id victim) w else Some w);
       if \<not> contains w1 (ar_entity by_actor) then None
       else do {
         w2 \<leftarrow> (if c_player w1 (ar_entity by_actor) \<noteq> None
                then send_damage_info_to_selected_target (ar_entity by_actor) (ar_id victim) (ad_damage d) (ad_flags d) w1 else Some w1);
         if \<not> contains w2 (ar_entity victim) then None
         else do {
           w3 \<leftarrow> (if c_player w2 (ar_entity victim) \<noteq> None
                  then push_damage_info (ar_entity victim) (ar_id victim) (ad_damage d) (ad_flags d) w2 else Some w2);
           for_each (\<lambda>k. broadcast_special_effect iter (victim, k)) (hit_special_effects (ad_flags d)) w3
         }
       }
     })"

definition project_projectile_target :: "iteration \<Rightarrow> ActorRef \<times> ActorRef \<Rightarrow> World \<Rightarrow> World exec" where
  "project_projectile_target iter p w =
    (let (caster, target) = p in
     if \<not> contains w (ar_entity target) then None
     else case c_transform w (ar_entity target) of
       None \<Rightarrow> Some w
     | Some tf \<Rightarrow> broadcast_actor_event iter (ar_id caster) ViewAndSelf (\<lambda>i. EvSetProjectileTarget i (ar_id target) (tf_pos tf) False) w)"

definition project_stamina_timer :: "PlayerStaminaTimerChanged \<Rightarrow> World \<Rightarrow> World exec" where
  "project_stamina_timer f w =
    push_reliable_to (ar_entity (stc_player f)) (EvChat Command None None (stamina_timer_command f)) w"

definition project_despawned :: "ActorDespawned \<Rightarrow> World \<Rightarrow> World exec" where
  "project_despawned d w = for_each (\<lambda>e. push_reliable_to e (EvEntityDespawn (dsp_actor_id d))) (dsp_recipients d) w"

definition project_frame_facts :: "iteration \<Rightarrow> World \<Rightarrow> World exec" where
  "project_frame_facts iter w = do {
     w1 \<leftarrow> for_each (project_damage iter) (f_damaged (facts w)) w;
     w2 \<leftarrow> for_each (\<lambda>a. broadcast_actor_event iter (ar_id a) ViewAndSelf (\<lambda>i. EvEntityStunned i)) (f_dying_started (facts w1)) w1;
     w3 \<leftarrow> for_each (\<lambda>a. broadcast_actor_event iter (ar_id a) ViewAndSelf (\<lambda>i. EvEntityDead i)) (f_death_finalized (facts w2)) w2;
     w4 \<leftarrow> for_each (\<lambda>p. broadcast_actor_event iter (ar_id (fst p)) ViewAndSelf (\<lambda>i. EvCreateProjectileEffect EffectExp i (ar_id (snd p))))
       (f_projectile_effects (facts w3)) w3;
     w5 \<leftarrow> for_each (project_projectile_target iter) (f_projectile_targets (facts w4)) w4;
     w6 \<leftarrow> for_each (broadcast_point_visual_effect iter) (f_point_effects (facts w5)) w5;
     w7 \<leftarrow> for_each (broadcast_special_effect iter) (f_special_effects (facts w6)) w6;
     w8 \<leftarrow> for_each project_despawned (f_despawned (facts w7)) w7;
     w9 \<leftarrow> for_each project_stamina_timer (f_stamina_timer (facts w8)) w8;
     Some (reset_frame_facts w9)
   }"

section \<open>Projection does not panic\<close>

text \<open>The facts name entities that are there.\<close>

definition facts_live :: "World \<Rightarrow> bool" where
  "facts_live w \<longleftrightarrow>
    list_all (\<lambda>d. contains w (ar_entity (ad_victim d)) \<and> contains w (ar_entity (ad_attacker d))) (f_damaged (facts w)) \<and>
    list_all (\<lambda>p. contains w (ar_entity (snd p))) (f_projectile_targets (facts w)) \<and>
    list_all (\<lambda>f. contains w (ar_entity (stc_player f))) (f_stamina_timer (facts w)) \<and>
    list_all (\<lambda>d. list_all (contains w) (dsp_recipients d)) (f_despawned (facts w))"

definition mob_limits_ok :: "World \<Rightarrow> bool" where
  "mob_limits_ok w \<longleftrightarrow> (\<forall>e rt. c_mob_stats w e = Some rt \<longrightarrow> limits_ok (rt_source rt))"

definition projectable :: "World \<Rightarrow> bool" where
  "projectable w \<longleftrightarrow> index_ok w \<and> mob_limits_ok w"

lemma told_more:
  assumes "only_told w w'"
  shows "contains w' = contains w" "c_mob_stats w' = c_mob_stats w" "c_target w' = c_target w" "index_ok w' = index_ok w"
    "mob_limits_ok w' = mob_limits_ok w" "facts_live w' = facts_live w" "projectable w' = projectable w"
proof -
  show c: "contains w' = contains w" using told_sel(5) [OF assms] by (simp add: contains_def fun_eq_iff)
  show m: "c_mob_stats w' = c_mob_stats w" "c_target w' = c_target w" using assms by (auto simp: only_told_def)
  show i: "index_ok w' = index_ok w" using told_sel(8) [OF assms] c by (simp add: index_ok_def)
  show l: "mob_limits_ok w' = mob_limits_ok w" by (simp add: mob_limits_ok_def m)
  show "facts_live w' = facts_live w" using told_sel(9) [OF assms] c by (simp add: facts_live_def)
  show "projectable w' = projectable w" by (simp add: projectable_def i l)
qed

text \<open>A step that only tells clients something and does not panic in a world of the given kind.\<close>

definition tells :: "(World \<Rightarrow> World exec) \<Rightarrow> World \<Rightarrow> bool" where
  "tells f w \<longleftrightarrow> (\<exists>w'. f w = Some w' \<and> only_told w w')"

lemma tells_Some: "tells Some w"
  by (simp add: tells_def)

lemma tells_bind:
  assumes "tells f w" "\<And>w'. only_told w w' \<Longrightarrow> tells g w'"
  shows "tells (\<lambda>w. Option.bind (f w) g) w"
  using assms unfolding tells_def by (metis Option.bind.simps(2) only_told_trans)

lemma tells_for_each:
  assumes "\<And>x w'. x \<in> set xs \<Longrightarrow> only_told w w' \<Longrightarrow> tells (f x) w'"
  shows "tells (for_each f xs) w"
proof -
  have "\<exists>w'. for_each f xs w = Some w' \<and> only_told w w'"
    by (rule for_each_total) (use assms only_told_trans in \<open>auto simp: tells_def, blast\<close>)
  then show ?thesis by (simp add: tells_def)
qed

lemma tells_push: "contains w e \<Longrightarrow> tells (push_reliable_to e ev) w"
  using push_told [of e ev w] by (auto simp: tells_def push_reliable_to_def split: option.splits)

lemma tells_broadcast:
  assumes "index_ok w"
  shows "tells (broadcast_actor_event iter i a f) w"
proof -
  have "contains w e" if "e \<in> set (actor_audience_recipients iter w i a)" for e
    using that assms by (auto simp: actor_audience_recipients_def index_ok_def map_filter_def Let_def split: if_splits)
  then have "tells (for_each (\<lambda>e. push_reliable_to e (f i)) (actor_audience_recipients iter w i a)) w"
    by (intro tells_for_each tells_push) (simp add: told_more)
  then show ?thesis by (simp add: tells_def broadcast_actor_event_def)
qed

lemma health_bar_defined:
  assumes "projectable w"
  shows "health_bar_percent_for_entity_id w i \<noteq> None"
proof -
  have "health_bar_percent_for_entity w e \<noteq> None" if "contains w e" for e
  proof (cases "c_mob_stats w e")
    case (Some rt)
    have "limits_ok (rt_source rt)" using assms Some by (auto simp: projectable_def mob_limits_ok_def)
    then obtain m h where "read_limited (rt_source rt) (rt_state rt) MaxHp = Some m" "read_limited (rt_source rt) (rt_state rt) Hp = Some h"
      using read_limited_defined by metis
    then show ?thesis using Some that by (simp add: health_bar_percent_for_entity_def)
  qed (simp add: health_bar_percent_for_entity_def that)
  then show ?thesis using assms
    by (auto simp: health_bar_percent_for_entity_id_def projectable_def index_ok_def split: option.split)
qed

lemma targeters_in: "(e, i) \<in> set (targeters w t) \<Longrightarrow> contains w e"
  by (auto simp: targeters_def map_filter_def contains_def split: option.splits if_splits)

lemma tells_health_bars:
  assumes "projectable w"
  shows "tells (broadcast_entity_health_bar_to_targeters t) w"
proof -
  obtain p where p: "health_bar_percent_for_entity_id w t = Some p" using health_bar_defined [OF assms, of t] by auto
  have "tells (for_each (\<lambda>(e, i) w. if target_is_visible w i t then push_health_bar e t q w else Some w) (targeters w t)) w" for q
  proof (rule tells_for_each)
    fix x w' assume "x \<in> set (targeters w t)" "only_told w w'"
    then have "contains w' (fst x)" using targeters_in [of "fst x" "snd x"] by (simp add: told_more)
    then show "tells ((\<lambda>(e, i) w. if target_is_visible w i t then push_health_bar e t q w else Some w) x) w'"
      using tells_push [of w' "fst x"] by (auto simp: tells_def push_health_bar_def split: prod.splits)
  qed
  then show ?thesis using p by (auto simp: tells_def broadcast_entity_health_bar_to_targeters_def split: option.split)
qed

lemma tells_guard: "(P w \<Longrightarrow> tells f w) \<Longrightarrow> tells (\<lambda>w. if P w then f w else Some w) w"
  by (cases "P w") (simp_all add: tells_def)

lemma tellsE: "tells f w \<Longrightarrow> (\<And>w'. f w = Some w' \<Longrightarrow> only_told w w' \<Longrightarrow> thesis) \<Longrightarrow> thesis"
  by (auto simp: tells_def)

lemma tells_selected: "contains w e \<Longrightarrow> tells (send_damage_info_to_selected_target e t d f) w"
  using tells_push [of w e] by (auto simp: tells_def send_damage_info_to_selected_target_def push_damage_info_def)

lemma tells_damage_info: "contains w e \<Longrightarrow> tells (push_damage_info e t d f) w"
  using tells_push [of w e] by (auto simp: tells_def push_damage_info_def)

lemma tells_special: "index_ok w \<Longrightarrow> tells (broadcast_special_effect iter x) w"
  using tells_broadcast by (simp add: tells_def broadcast_special_effect_def)

lemma tells_damage:
  assumes "projectable w" "contains w (ar_entity (ad_victim d))" "contains w (ar_entity (ad_attacker d))"
  shows "tells (project_damage iter d) w"
proof -
  let ?v = "ad_victim d" and ?a = "ad_attacker d"
  have "tells (\<lambda>w. if c_mob_stats w (ar_entity ?v) \<noteq> None then broadcast_entity_health_bar_to_targeters (ar_id ?v) w else Some w) w"
    by (rule tells_guard) (rule tells_health_bars [OF assms(1)])
  then obtain w1 where w1: "(if c_mob_stats w (ar_entity ?v) \<noteq> None then broadcast_entity_health_bar_to_targeters (ar_id ?v) w else Some w) = Some w1"
    "only_told w w1" by (rule tellsE)
  note c1 = told_more(1) [OF w1(2)]
  have "tells (\<lambda>w. if c_player w (ar_entity ?a) \<noteq> None
      then send_damage_info_to_selected_target (ar_entity ?a) (ar_id ?v) (ad_damage d) (ad_flags d) w else Some w) w1"
    by (rule tells_guard, rule tells_selected) (simp add: c1 assms(3))
  then obtain w2 where w2: "(if c_player w1 (ar_entity ?a) \<noteq> None
      then send_damage_info_to_selected_target (ar_entity ?a) (ar_id ?v) (ad_damage d) (ad_flags d) w1 else Some w1) = Some w2" "only_told w1 w2"
    by (rule tellsE)
  note c2 = told_more(1) [OF w2(2)]
  have "tells (\<lambda>w. if c_player w (ar_entity ?v) \<noteq> None
      then push_damage_info (ar_entity ?v) (ar_id ?v) (ad_damage d) (ad_flags d) w else Some w) w2"
    by (rule tells_guard, rule tells_damage_info) (simp add: c1 c2 assms(2))
  then obtain w3 where w3: "(if c_player w2 (ar_entity ?v) \<noteq> None
      then push_damage_info (ar_entity ?v) (ar_id ?v) (ad_damage d) (ad_flags d) w2 else Some w2) = Some w3" "only_told w2 w3"
    by (rule tellsE)
  have "index_ok w3" using assms(1) told_more(4) w1(2) w2(2) w3(2) by (simp add: projectable_def)
  then have "tells (for_each (\<lambda>k. broadcast_special_effect iter (?v, k)) (hit_special_effects (ad_flags d))) w3"
    by (intro tells_for_each tells_special) (simp add: told_more)
  then obtain w4 where w4: "for_each (\<lambda>k. broadcast_special_effect iter (?v, k)) (hit_special_effects (ad_flags d)) w3 = Some w4" "only_told w3 w4"
    by (rule tellsE)
  have "project_damage iter d w = Some w4"
    using assms(2,3) c1 c2 unfolding project_damage_def Let_def
    by (simp only: w1(1) w2(1) w3(1) w4(1) Option.bind.simps not_True_eq_False if_False)
  moreover have "only_told w w4" using w1(2) w2(2) w3(2) w4(2) by (blast intro: only_told_trans)
  ultimately show ?thesis by (simp add: tells_def)
qed

lemma tells_projectile_target: "index_ok w \<Longrightarrow> contains w (ar_entity (snd p)) \<Longrightarrow> tells (project_projectile_target iter p) w"
  using tells_broadcast [of w] by (cases p) (auto simp: tells_def project_projectile_target_def split: option.split)

lemma tells_point: "index_ok w \<Longrightarrow> tells (broadcast_point_visual_effect iter x) w"
  using tells_broadcast by (simp add: tells_def broadcast_point_visual_effect_def)

lemma tells_despawned: "list_all (contains w) (dsp_recipients d) \<Longrightarrow> tells (project_despawned d) w"
proof -
  assume "list_all (contains w) (dsp_recipients d)"
  then have "tells (for_each (\<lambda>e. push_reliable_to e (EvEntityDespawn (dsp_actor_id d))) (dsp_recipients d)) w"
    by (intro tells_for_each tells_push) (simp add: told_more list_all_iff)
  then show ?thesis by (simp add: tells_def project_despawned_def)
qed

lemma tells_stamina: "contains w (ar_entity (stc_player f)) \<Longrightarrow> tells (project_stamina_timer f) w"
  using tells_push [of w "ar_entity (stc_player f)"] by (simp add: tells_def project_stamina_timer_def)

lemma tells_stage:
  assumes "only_told w v" "\<And>x v. x \<in> set xs \<Longrightarrow> only_told w v \<Longrightarrow> tells (f x) v"
  obtains v' where "for_each f xs v = Some v'" "only_told w v'"
proof -
  have "tells (for_each f xs) v" using assms by (intro tells_for_each) (blast intro: only_told_trans)
  then show thesis using assms(1) that by (auto simp: tells_def intro: only_told_trans)
qed

lemma projection_total:
  assumes "projectable w" "facts_live w"
  obtains w' where "project_frame_facts iter w = Some (reset_frame_facts w')" "only_told w w'"
proof -
  have P: "projectable v" "index_ok v" if "only_told w v" for v
    using assms(1) told_more(4,7) [OF that] by (simp_all add: projectable_def)
  have F: "facts v = facts w" if "only_told w v" for v by (rule told_sel(9) [OF that])
  have C: "contains v = contains w" if "only_told w v" for v by (rule told_more(1) [OF that])
  have t1: "tells (project_damage iter d) v" if "d \<in> set (f_damaged (facts w))" "only_told w v" for d v
    using assms(2) that(1) by (intro tells_damage P(1) [OF that(2)]) (simp_all add: facts_live_def list_all_iff C [OF that(2)])
  have t5: "tells (project_projectile_target iter p) v" if "p \<in> set (f_projectile_targets (facts w))" "only_told w v" for p v
    using assms(2) that(1) by (intro tells_projectile_target P(2) [OF that(2)]) (simp only: facts_live_def list_all_iff C [OF that(2)])
  have t8: "tells (project_despawned d) v" if "d \<in> set (f_despawned (facts w))" "only_told w v" for d v
    using assms(2) that(1) by (intro tells_despawned) (simp add: facts_live_def list_all_iff C [OF that(2)])
  have t9: "tells (project_stamina_timer f) v" if "f \<in> set (f_stamina_timer (facts w))" "only_told w v" for f v
    using assms(2) that(1) by (intro tells_stamina) (simp add: facts_live_def list_all_iff C [OF that(2)])
  obtain w1 where w1: "for_each (project_damage iter) (f_damaged (facts w)) w = Some w1" "only_told w w1"
    by (rule tells_stage [OF only_told_refl]) (rule t1)
  obtain w2 where w2: "for_each (\<lambda>a. broadcast_actor_event iter (ar_id a) ViewAndSelf (\<lambda>i. EvEntityStunned i)) (f_dying_started (facts w1)) w1 = Some w2"
    "only_told w w2" by (rule tells_stage [OF w1(2)]) (rule tells_broadcast [OF P(2)])
  obtain w3 where w3: "for_each (\<lambda>a. broadcast_actor_event iter (ar_id a) ViewAndSelf (\<lambda>i. EvEntityDead i)) (f_death_finalized (facts w2)) w2 = Some w3"
    "only_told w w3" by (rule tells_stage [OF w2(2)]) (rule tells_broadcast [OF P(2)])
  obtain w4 where w4: "for_each (\<lambda>p. broadcast_actor_event iter (ar_id (fst p)) ViewAndSelf (\<lambda>i. EvCreateProjectileEffect EffectExp i (ar_id (snd p))))
      (f_projectile_effects (facts w3)) w3 = Some w4" "only_told w w4"
    by (rule tells_stage [OF w3(2)]) (rule tells_broadcast [OF P(2)])
  obtain w5 where w5: "for_each (project_projectile_target iter) (f_projectile_targets (facts w4)) w4 = Some w5" "only_told w w5"
    unfolding F [OF w4(2)] by (rule tells_stage [OF w4(2)]) (rule t5)
  obtain w6 where w6: "for_each (broadcast_point_visual_effect iter) (f_point_effects (facts w5)) w5 = Some w6" "only_told w w6"
    by (rule tells_stage [OF w5(2)]) (rule tells_point [OF P(2)])
  obtain w7 where w7: "for_each (broadcast_special_effect iter) (f_special_effects (facts w6)) w6 = Some w7" "only_told w w7"
    by (rule tells_stage [OF w6(2)]) (rule tells_special [OF P(2)])
  obtain w8 where w8: "for_each project_despawned (f_despawned (facts w7)) w7 = Some w8" "only_told w w8"
    unfolding F [OF w7(2)] by (rule tells_stage [OF w7(2)]) (rule t8)
  obtain w9 where w9: "for_each project_stamina_timer (f_stamina_timer (facts w8)) w8 = Some w9" "only_told w w9"
    unfolding F [OF w8(2)] by (rule tells_stage [OF w8(2)]) (rule t9)
  show thesis
    using that [OF _ w9(2)] unfolding project_frame_facts_def
    by (simp only: w1(1) w2(1) w3(1) w4(1) w5(1) w6(1) w7(1) w8(1) w9(1) Option.bind.simps)
qed

section \<open>Every fact reaches the clients it concerns\<close>

text \<open>Outboxes are only appended to, and nothing else changes.\<close>

definition outboxes_grow :: "World \<Rightarrow> World \<Rightarrow> bool" where
  "outboxes_grow w w' \<longleftrightarrow> w' = w\<lparr>c_outbox := c_outbox w'\<rparr> \<and>
    (\<forall>e. case c_outbox w e of None \<Rightarrow> c_outbox w' e = None
         | Some ob \<Rightarrow> \<exists>evs. c_outbox w' e = Some (ob\<lparr>events := events ob @ evs\<rparr>))"

lemma grow_refl [simp]: "outboxes_grow w w"
  by (auto simp: outboxes_grow_def split: option.split intro: exI [of _ "[]"])

lemma grow_trans: "outboxes_grow w1 w2 \<Longrightarrow> outboxes_grow w2 w3 \<Longrightarrow> outboxes_grow w1 w3"
proof -
  assume g: "outboxes_grow w1 w2" "outboxes_grow w2 w3"
  obtain x where w2: "w2 = w1\<lparr>c_outbox := x\<rparr>" using g(1) unfolding outboxes_grow_def by blast
  have "w3 = w2\<lparr>c_outbox := c_outbox w3\<rparr>" using g(2) unfolding outboxes_grow_def by blast
  also have "\<dots> = w1\<lparr>c_outbox := c_outbox w3\<rparr>" by (simp add: w2)
  finally have "w3 = w1\<lparr>c_outbox := c_outbox w3\<rparr>" .
  moreover have "case c_outbox w1 e of None \<Rightarrow> c_outbox w3 e = None
      | Some ob \<Rightarrow> \<exists>evs. c_outbox w3 e = Some (ob\<lparr>events := events ob @ evs\<rparr>)" for e
    using conjunct2 [OF g(1) [unfolded outboxes_grow_def], THEN spec, of e]
      conjunct2 [OF g(2) [unfolded outboxes_grow_def], THEN spec, of e] by (auto split: option.splits)
  ultimately show ?thesis unfolding outboxes_grow_def by blast
qed

lemma grow_sel:
  assumes "outboxes_grow w w'"
  shows "c_player w' = c_player w" "c_target w' = c_target w" "facts w' = facts w"
proof -
  have E: "w' = w\<lparr>c_outbox := c_outbox w'\<rparr>" using assms unfolding outboxes_grow_def by blast
  show "c_player w' = c_player w" "c_target w' = c_target w" "facts w' = facts w"
    by (subst E, simp)+
qed

lemma grow_for_each:
  assumes "for_each f xs w = Some w'" "\<And>x w w'. f x w = Some w' \<Longrightarrow> outboxes_grow w w'"
  shows "outboxes_grow w w'"
  using assms(1) by (rule for_each_inv [where I = "outboxes_grow w"]) (auto intro: grow_trans assms(2))

lemma grow_push:
  assumes "push_reliable_to e ev w = Some w'"
  shows "outboxes_grow w w'"
proof (cases "c_outbox w e")
  case (Some ob)
  then have w': "w' = w\<lparr>c_outbox := (c_outbox w)(e \<mapsto> ob\<lparr>events := events ob @ [OtherEvent ev]\<rparr>)\<rparr>"
    using assms by (simp add: push_reliable_to_def push_reliable_def split: if_splits)
  have "\<exists>evs. ob'\<lparr>events := events ob' @ es\<rparr> = ob'\<lparr>events := events ob' @ evs\<rparr>" "\<exists>evs. ob' = ob'\<lparr>events := events ob' @ evs\<rparr>"
    for ob' :: Outbox and es by blast (rule exI [of _ "[]"], simp)
  then show ?thesis using Some by (auto simp: w' outboxes_grow_def split: option.splits)
qed (use assms in \<open>simp add: push_reliable_to_def split: if_splits\<close>)

lemma grow_broadcast: "broadcast_actor_event iter i a f w = Some w' \<Longrightarrow> outboxes_grow w w'"
  unfolding broadcast_actor_event_def by (erule grow_for_each) (erule grow_push)

lemma grow_health_bars:
  assumes "broadcast_entity_health_bar_to_targeters t w = Some w'"
  shows "outboxes_grow w w'"
  using assms unfolding broadcast_entity_health_bar_to_targeters_def push_health_bar_def
  by (auto split: if_splits option.splits bind_splits elim!: grow_for_each dest: grow_push)

lemma grow_selected: "send_damage_info_to_selected_target e t d f w = Some w' \<Longrightarrow> outboxes_grow w w'"
  by (auto simp: send_damage_info_to_selected_target_def push_damage_info_def split: if_splits dest: grow_push)

lemma grow_special: "broadcast_special_effect iter x w = Some w' \<Longrightarrow> outboxes_grow w w'"
  unfolding broadcast_special_effect_def by (rule grow_broadcast)

text \<open>The steps of one hit, in order.\<close>

lemma project_damage_steps:
  assumes "project_damage iter d w = Some w'"
  obtains w1 w2 w3 where "outboxes_grow w w1" "outboxes_grow w1 w2" "outboxes_grow w2 w3" "outboxes_grow w3 w'"
    "c_player w1 (ar_entity (ad_attacker d)) \<noteq> None \<Longrightarrow>
      send_damage_info_to_selected_target (ar_entity (ad_attacker d)) (ar_id (ad_victim d)) (ad_damage d) (ad_flags d) w1 = Some w2"
    "c_player w2 (ar_entity (ad_victim d)) \<noteq> None \<Longrightarrow>
      push_damage_info (ar_entity (ad_victim d)) (ar_id (ad_victim d)) (ad_damage d) (ad_flags d) w2 = Some w3"
proof -
  let ?v = "ad_victim d" and ?a = "ad_attacker d"
  have g: "(if b then None else x) = Some y \<longleftrightarrow> \<not> b \<and> x = Some y" for b and x :: "World option" and y by simp
  obtain w1 w2 w3 where s:
    "(if c_mob_stats w (ar_entity ?v) \<noteq> None then broadcast_entity_health_bar_to_targeters (ar_id ?v) w else Some w) = Some w1"
    "(if c_player w1 (ar_entity ?a) \<noteq> None
      then send_damage_info_to_selected_target (ar_entity ?a) (ar_id ?v) (ad_damage d) (ad_flags d) w1 else Some w1) = Some w2"
    "(if c_player w2 (ar_entity ?v) \<noteq> None
      then push_damage_info (ar_entity ?v) (ar_id ?v) (ad_damage d) (ad_flags d) w2 else Some w2) = Some w3"
    "for_each (\<lambda>k. broadcast_special_effect iter (?v, k)) (hit_special_effects (ad_flags d)) w3 = Some w'"
    using assms unfolding project_damage_def Let_def by (simp only: g bind_eq_Some_conv) blast
  have "outboxes_grow w w1" using s(1) by (auto split: if_splits intro: grow_health_bars)
  moreover have "outboxes_grow w1 w2" using s(2) by (auto split: if_splits intro: grow_selected)
  moreover have "outboxes_grow w2 w3" using s(3) by (auto simp: push_damage_info_def split: if_splits intro: grow_push)
  moreover have "outboxes_grow w3 w'" using s(4) by (rule grow_for_each) (rule grow_special)
  moreover have "c_player w1 (ar_entity ?a) \<noteq> None \<Longrightarrow>
      send_damage_info_to_selected_target (ar_entity ?a) (ar_id ?v) (ad_damage d) (ad_flags d) w1 = Some w2"
    "c_player w2 (ar_entity ?v) \<noteq> None \<Longrightarrow> push_damage_info (ar_entity ?v) (ar_id ?v) (ad_damage d) (ad_flags d) w2 = Some w3"
    using s(2,3) by simp_all
  ultimately show thesis by (rule that)
qed

lemma grow_damage: "project_damage iter d w = Some w' \<Longrightarrow> outboxes_grow w w'"
  by (erule project_damage_steps) (blast intro: grow_trans)

lemma grow_facts:
  "broadcast_actor_event iter i a f w = Some w' \<Longrightarrow> outboxes_grow w w'"
  "project_projectile_target iter p w = Some w' \<Longrightarrow> outboxes_grow w w'"
  "broadcast_point_visual_effect iter x w = Some w' \<Longrightarrow> outboxes_grow w w'"
  "project_despawned d w = Some w' \<Longrightarrow> outboxes_grow w w'"
  "project_stamina_timer t w = Some w' \<Longrightarrow> outboxes_grow w w'"
  by (auto simp: project_projectile_target_def broadcast_point_visual_effect_def project_despawned_def project_stamina_timer_def
      dest: grow_broadcast grow_push elim!: grow_for_each split: prod.splits if_splits option.splits)

definition is_told :: "World \<Rightarrow> Entity \<Rightarrow> MapEvent \<Rightarrow> bool" where
  "is_told w e ev \<longleftrightarrow> (\<exists>ob. c_outbox w e = Some ob \<and> OtherEvent ev \<in> set (events ob))"

lemma told_grow: "is_told w e ev \<Longrightarrow> outboxes_grow w w' \<Longrightarrow> is_told w' e ev"
  unfolding is_told_def outboxes_grow_def by (elim conjE, erule allE [of _ e]) auto

lemma outbox_grow: "c_outbox w e \<noteq> None \<Longrightarrow> outboxes_grow w w' \<Longrightarrow> c_outbox w' e \<noteq> None"
  unfolding outboxes_grow_def by (elim conjE, erule allE [of _ e]) auto

lemma told_push: "push_reliable_to e ev w = Some w' \<Longrightarrow> c_outbox w e \<noteq> None \<Longrightarrow> is_told w' e ev"
  by (auto simp: push_reliable_to_def is_told_def push_reliable_def split: if_splits)

text \<open>A loop that tells one client something at one of its steps.\<close>

lemma told_for_each:
  assumes "for_each f xs w = Some w'" "x \<in> set xs"
    and "\<And>x w w'. f x w = Some w' \<Longrightarrow> outboxes_grow w w'"
    and "\<And>w1 w2. f x w1 = Some w2 \<Longrightarrow> outboxes_grow w w1 \<Longrightarrow> is_told w2 e ev"
  shows "is_told w' e ev"
proof -
  obtain ys zs where xs: "xs = ys @ x # zs" using assms(2) by (meson split_list)
  then obtain w1 w2 where w: "for_each f ys w = Some w1" "f x w1 = Some w2" "for_each f zs w2 = Some w'"
    using assms(1) by (auto simp: for_each_append bind_eq_Some_conv split: option.splits)
  have "is_told w2 e ev" by (rule assms(4) [OF w(2) grow_for_each [OF w(1) assms(3)]])
  then show ?thesis using grow_for_each [OF w(3) assms(3)] by (rule told_grow)
qed

lemma told_despawned:
  assumes "project_despawned d w = Some w'" "e \<in> set (dsp_recipients d)" "c_outbox w e \<noteq> None"
  shows "is_told w' e (EvEntityDespawn (dsp_actor_id d))"
  using assms(1) unfolding project_despawned_def
  by (rule told_for_each [OF _ assms(2)]) (erule grow_push, erule told_push, erule outbox_grow [OF assms(3)])

lemma told_stamina:
  assumes "project_stamina_timer f w = Some w'" "c_outbox w (ar_entity (stc_player f)) \<noteq> None"
  shows "is_told w' (ar_entity (stc_player f)) (EvChat Command None None (stamina_timer_command f))"
  using assms told_push unfolding project_stamina_timer_def by blast

definition hit_event :: "ActorDamaged \<Rightarrow> MapEvent" where
  "hit_event d = EvDamageInfo (ar_id (ad_victim d)) (damage_info_flags (ad_flags d)) (ad_damage d)"

lemma told_victim:
  assumes "project_damage iter d w = Some w'" "c_player w (ar_entity (ad_victim d)) \<noteq> None" "c_outbox w (ar_entity (ad_victim d)) \<noteq> None"
  shows "is_told w' (ar_entity (ad_victim d)) (hit_event d)"
proof (rule project_damage_steps [OF assms(1)])
  fix w1 w2 w3
  assume g: "outboxes_grow w w1" "outboxes_grow w1 w2" "outboxes_grow w3 w'"
    and s: "c_player w2 (ar_entity (ad_victim d)) \<noteq> None \<Longrightarrow>
      push_damage_info (ar_entity (ad_victim d)) (ar_id (ad_victim d)) (ad_damage d) (ad_flags d) w2 = Some w3"
  have g2: "outboxes_grow w w2" using g by (blast intro: grow_trans)
  then have "c_player w2 = c_player w" by (rule grow_sel)
  then have "is_told w3 (ar_entity (ad_victim d)) (hit_event d)"
    using s assms(2) outbox_grow [OF assms(3) g2] by (simp add: push_damage_info_def hit_event_def told_push)
  then show ?thesis using g(3) by (rule told_grow)
qed

text \<open>A player who hits what he has targeted sees the damage.\<close>

lemma told_hitter:
  assumes "project_damage iter d w = Some w'" "c_player w (ar_entity (ad_attacker d)) \<noteq> None" "c_outbox w (ar_entity (ad_attacker d)) \<noteq> None"
    "c_target w (ar_entity (ad_attacker d)) = Some (Some (ar_id (ad_victim d)))"
  shows "is_told w' (ar_entity (ad_attacker d)) (hit_event d)"
proof (rule project_damage_steps [OF assms(1)])
  fix w1 w2 w3
  assume g: "outboxes_grow w w1" "outboxes_grow w2 w3" "outboxes_grow w3 w'"
    and s: "c_player w1 (ar_entity (ad_attacker d)) \<noteq> None \<Longrightarrow>
      send_damage_info_to_selected_target (ar_entity (ad_attacker d)) (ar_id (ad_victim d)) (ad_damage d) (ad_flags d) w1 = Some w2"
  have "c_player w1 = c_player w" "c_target w1 = c_target w" using g(1) by (rule grow_sel)+
  then have "is_told w2 (ar_entity (ad_attacker d)) (hit_event d)"
    using s assms(2,4) outbox_grow [OF assms(3) g(1)]
    by (auto simp: send_damage_info_to_selected_target_def push_damage_info_def hit_event_def intro: told_push split: if_splits)
  then show ?thesis using g(2,3) by (blast intro: told_grow)
qed

lemma projection_stages:
  assumes "project_frame_facts iter w = Some w'"
  obtains w1 w7 w8 w9 where
    "for_each (project_damage iter) (f_damaged (facts w)) w = Some w1" "outboxes_grow w1 w7"
    "for_each project_despawned (f_despawned (facts w)) w7 = Some w8"
    "for_each project_stamina_timer (f_stamina_timer (facts w)) w8 = Some w9" "w' = reset_frame_facts w9"
    "outboxes_grow w w1" "outboxes_grow w7 w8" "outboxes_grow w8 w9"
proof -
  obtain w1 w2 w3 w4 w5 w6 w7 w8 w9 where s:
    "for_each (project_damage iter) (f_damaged (facts w)) w = Some w1"
    "for_each (\<lambda>a. broadcast_actor_event iter (ar_id a) ViewAndSelf (\<lambda>i. EvEntityStunned i)) (f_dying_started (facts w1)) w1 = Some w2"
    "for_each (\<lambda>a. broadcast_actor_event iter (ar_id a) ViewAndSelf (\<lambda>i. EvEntityDead i)) (f_death_finalized (facts w2)) w2 = Some w3"
    "for_each (\<lambda>p. broadcast_actor_event iter (ar_id (fst p)) ViewAndSelf (\<lambda>i. EvCreateProjectileEffect EffectExp i (ar_id (snd p))))
      (f_projectile_effects (facts w3)) w3 = Some w4"
    "for_each (project_projectile_target iter) (f_projectile_targets (facts w4)) w4 = Some w5"
    "for_each (broadcast_point_visual_effect iter) (f_point_effects (facts w5)) w5 = Some w6"
    "for_each (broadcast_special_effect iter) (f_special_effects (facts w6)) w6 = Some w7"
    "for_each project_despawned (f_despawned (facts w7)) w7 = Some w8"
    "for_each project_stamina_timer (f_stamina_timer (facts w8)) w8 = Some w9" "w' = reset_frame_facts w9"
    using assms unfolding project_frame_facts_def by (auto simp: bind_eq_Some_conv)
  have g1: "outboxes_grow w w1" using s(1) by (rule grow_for_each) (rule grow_damage)
  have g: "outboxes_grow w1 w2" "outboxes_grow w2 w3" "outboxes_grow w3 w4" "outboxes_grow w4 w5" "outboxes_grow w5 w6" "outboxes_grow w6 w7"
    by (rule grow_for_each [OF s(2)], erule grow_facts, rule grow_for_each [OF s(3)], erule grow_facts, rule grow_for_each [OF s(4)], erule grow_facts)
      (rule grow_for_each [OF s(5)], erule grow_facts, rule grow_for_each [OF s(6)], erule grow_facts, rule grow_for_each [OF s(7)], erule grow_special)
  then have g7: "outboxes_grow w1 w7" by (blast intro: grow_trans)
  have g8: "outboxes_grow w7 w8" "outboxes_grow w8 w9"
    by (rule grow_for_each [OF s(8)], erule grow_facts) (rule grow_for_each [OF s(9)], erule grow_facts)
  have "facts w7 = facts w" "facts w8 = facts w"
    using grow_sel(3) [OF g1] grow_sel(3) [OF g7] grow_sel(3) [OF g8(1)] by simp_all
  then show thesis using that [OF s(1) g7 _ _ s(10) g1 g8] s(8,9) by simp
qed

text \<open>
  C24. At the end of a frame, when the facts name entities that are there and the index of identifiers is consistent, the
  projection does not panic: it changes nothing but the outboxes, which it only appends to, and empties the facts.
  Every player who was hit is told the damage, and so is every player who hit the entity he has targeted; everyone who
  saw an entity that was removed is told so; every player whose stamina timer changed is told the new timer.
\<close>

theorem facts_reach_clients:
  assumes "projectable w" "facts_live w"
  shows "\<exists>w' w9. project_frame_facts iter w = Some w' \<and> w' = reset_frame_facts w9 \<and> outboxes_grow w w9 \<and>
    (\<forall>d\<in>set (f_damaged (facts w)). \<forall>e. c_player w e \<noteq> None \<and> c_outbox w e \<noteq> None \<and>
       (e = ar_entity (ad_victim d) \<or> e = ar_entity (ad_attacker d) \<and> c_target w e = Some (Some (ar_id (ad_victim d)))) \<longrightarrow>
       is_told w' e (hit_event d)) \<and>
    (\<forall>d\<in>set (f_despawned (facts w)). \<forall>e\<in>set (dsp_recipients d). c_outbox w e \<noteq> None \<longrightarrow>
       is_told w' e (EvEntityDespawn (dsp_actor_id d))) \<and>
    (\<forall>f\<in>set (f_stamina_timer (facts w)). c_outbox w (ar_entity (stc_player f)) \<noteq> None \<longrightarrow>
       is_told w' (ar_entity (stc_player f)) (EvChat Command None None (stamina_timer_command f)))"
proof -
  obtain w' where w': "project_frame_facts iter w = Some w'" using projection_total [OF assms, of iter] by blast
  obtain w1 w7 w8 w9 where
    s1: "for_each (project_damage iter) (f_damaged (facts w)) w = Some w1" and g7: "outboxes_grow w1 w7" and
    s8: "for_each project_despawned (f_despawned (facts w)) w7 = Some w8" and
    s9: "for_each project_stamina_timer (f_stamina_timer (facts w)) w8 = Some w9" and r: "w' = reset_frame_facts w9" and
    g: "outboxes_grow w w1" "outboxes_grow w7 w8" "outboxes_grow w8 w9" by (rule projection_stages [OF w'])
  have g17: "outboxes_grow w w7" "outboxes_grow w w8" "outboxes_grow w1 w9" "outboxes_grow w w9" using g g7 by (blast intro: grow_trans)+
  have t: "is_told w' e ev" if "is_told w9 e ev" for e ev using that by (simp add: r reset_frame_facts_def is_told_def)
  have hit: "is_told w' e (hit_event d)" if d: "d \<in> set (f_damaged (facts w))" and e: "c_player w e \<noteq> None" "c_outbox w e \<noteq> None"
    "e = ar_entity (ad_victim d) \<or> e = ar_entity (ad_attacker d) \<and> c_target w e = Some (Some (ar_id (ad_victim d)))" for d e
  proof -
    have "is_told w1 e (hit_event d)"
    proof (rule told_for_each [OF s1 d grow_damage])
      fix u1 u2 assume u: "project_damage iter d u1 = Some u2" "outboxes_grow w u1"
      show "is_told u2 e (hit_event d)"
        using e told_victim [OF u(1)] told_hitter [OF u(1)] outbox_grow [OF e(2) u(2)] by (auto simp: grow_sel [OF u(2)])
    qed
    then show ?thesis using g17(3) by (intro t) (rule told_grow)
  qed
  have gone: "is_told w' e (EvEntityDespawn (dsp_actor_id d))" if d: "d \<in> set (f_despawned (facts w))" "e \<in> set (dsp_recipients d)"
    "c_outbox w e \<noteq> None" for d e
  proof -
    have "is_told w8 e (EvEntityDespawn (dsp_actor_id d))"
      by (rule told_for_each [OF s8 d(1) grow_facts(4)], assumption)
        (erule told_despawned [OF _ d(2)], rule outbox_grow [OF d(3)], rule grow_trans [OF g17(1)])
    then show ?thesis using g(3) by (intro t) (rule told_grow)
  qed
  have timer: "is_told w' (ar_entity (stc_player f)) (EvChat Command None None (stamina_timer_command f))"
    if f: "f \<in> set (f_stamina_timer (facts w))" "c_outbox w (ar_entity (stc_player f)) \<noteq> None" for f
    by (rule t, rule told_for_each [OF s9 f(1) grow_facts(5)], assumption)
      (erule told_stamina, rule outbox_grow [OF f(2)], rule grow_trans [OF g17(2)])
  show ?thesis using w' r g17(4) hit gone timer by blast
qed

text \<open>A dog (entity 2) has bitten a player (entity 3), and another dog has gone.\<close>

definition bite_scene :: World where
  "bite_scene = empty_world\<lparr>entities := [2, 3], c_player := [3 \<mapsto> 7], c_net := [2 \<mapsto> 12, 3 \<mapsto> 11], net_index := [11 \<mapsto> 3, 12 \<mapsto> 2],
    c_outbox := [3 \<mapsto> outbox_new], facts := facts_default\<lparr>
      f_damaged := [\<lparr>ad_attacker = \<lparr>ar_entity = 2, ar_id = 12\<rparr>, ad_victim = \<lparr>ar_entity = 3, ar_id = 11\<rparr>, ad_damage = 40, ad_flags = 1\<rparr>],
      f_despawned := [\<lparr>dsp_actor_id = 13, dsp_recipients = [3]\<rparr>]\<rparr>\<rparr>"

theorem facts_reach_clients_witness:
  "\<exists>w'. project_frame_facts (\<lambda>_. []) bite_scene = Some w' \<and> facts w' = facts_default \<and>
    is_told w' 3 (EvDamageInfo 11 1 40) \<and> is_told w' 3 (EvEntityDespawn 13)"
proof -
  have "projectable bite_scene"
    by (auto simp: projectable_def index_ok_def mob_limits_ok_def bite_scene_def contains_def empty_world_def split: if_splits)
  moreover have "facts_live bite_scene" by (simp add: facts_live_def bite_scene_def contains_def facts_default_def)
  ultimately obtain w' w9 where w': "project_frame_facts (\<lambda>_. []) bite_scene = Some w'" "w' = reset_frame_facts w9" and
    h: "\<forall>d\<in>set (f_damaged (facts bite_scene)). \<forall>e. c_player bite_scene e \<noteq> None \<and> c_outbox bite_scene e \<noteq> None \<and>
       (e = ar_entity (ad_victim d) \<or> e = ar_entity (ad_attacker d) \<and> c_target bite_scene e = Some (Some (ar_id (ad_victim d)))) \<longrightarrow>
       is_told w' e (hit_event d)" and
    g: "\<forall>d\<in>set (f_despawned (facts bite_scene)). \<forall>e\<in>set (dsp_recipients d). c_outbox bite_scene e \<noteq> None \<longrightarrow>
       is_told w' e (EvEntityDespawn (dsp_actor_id d))"
    using facts_reach_clients [of bite_scene "\<lambda>_. []"] by blast
  have "is_told w' 3 (EvDamageInfo 11 1 40)" "is_told w' 3 (EvEntityDespawn 13)"
    using h g by (simp_all add: bite_scene_def facts_default_def hit_event_def damage_info_flags_def upt_rec)
  then show ?thesis using w' by (auto simp: reset_frame_facts_def)
qed

end
