(* ===== verification/Mob_Death.thy ===== *)
theory Mob_Death
  imports Combat Kill_Rewards
begin

text \<open>
  The death of a mob over many frames: the attacks of \<open>Combat\<close>, the life events and the lifecycle pass of
  \<open>Actor_Life\<close> and the claims of \<open>Kill_Rewards\<close>, in the order \<^verbatim>\<open>runtime/plugins.rs\<close> runs them.  A mob whose hit
  points ran out is dying for three seconds and then dead, unless somebody hits it once more, which ends it at once.
\<close>

section \<open>The frame\<close>

definition life_frame :: "CombatEnv \<Rightarrow> SharedConfig \<Rightarrow> World \<Rightarrow> World exec" where
  "life_frame env shared w = do {
     w1 \<leftarrow> process_attack_commands env shared w;
     let w2 = process_life_events w1;
     let w3 = record_mob_death_reward_claims shared w2;
     Some (process_actor_lifecycle w3)
   }"

text \<open>What an attack does to the victim depends on these parts of the world and changes nothing else of them.\<close>

definition same_victim :: "Entity \<Rightarrow> World \<Rightarrow> World \<Rightarrow> bool" where
  "same_victim e w w' \<longleftrightarrow> entities w' = entities w \<and> c_net w' = c_net w \<and> c_mob w' = c_mob w \<and> c_player w' = c_player w \<and>
    sim_now w' = sim_now w \<and> c_stats w' e = c_stats w e \<and> c_mob_stats w' e = c_mob_stats w e \<and>
    f_cleanup_due (facts w') = f_cleanup_due (facts w) \<and> (\<forall>x. actor_can_act w' x = actor_can_act w x)"

lemma same_victim_refl [simp]: "same_victim e w w"
  by (simp add: same_victim_def)

lemma same_victim_trans: "same_victim e w1 w2 \<Longrightarrow> same_victim e w2 w3 \<Longrightarrow> same_victim e w1 w3"
  by (simp add: same_victim_def)

lemma same_victim_snapshot: "same_victim e w w' \<Longrightarrow> combatant_snapshot shared w' e = combatant_snapshot shared w e"
  by (auto simp: same_victim_def combatant_snapshot_def mob_combat_stats_def Let_def split: option.split)

text \<open>A command that ends a dying mob: somebody who may act attacks it, and it can be told apart as a combatant.\<close>

definition blow :: "SharedConfig \<Rightarrow> World \<Rightarrow> ActorRef \<Rightarrow> AttackCommand \<Rightarrow> bool" where
  "blow shared w a c \<longleftrightarrow> exist_in w (command_entities c) \<and> snd (command_entities c) = ar_entity a \<and>
    actor_can_act w (fst (command_entities c)) \<and> (case combatant_snapshot shared w (ar_entity a) of Some (Some _) \<Rightarrow> True | _ \<Rightarrow> False)"

definition finishing_blow :: "CombatEnv \<Rightarrow> SharedConfig \<Rightarrow> World \<Rightarrow> ActorRef \<Rightarrow> bool" where
  "finishing_blow env shared w a \<longleftrightarrow> list_ex (blow shared w a) (attack_buffer (release_due_attack_commands env w))"

lemma same_victim_blow: "same_victim (ar_entity a) w w' \<Longrightarrow> blow shared w' a c = blow shared w a c"
  using same_victim_snapshot [of "ar_entity a" w w' shared]
  by (simp add: blow_def) (simp add: same_victim_def exist_in_def contains_def)

lemma same_victim_died: "same_victim (ar_entity a) w w' \<Longrightarrow> died w' a = died w a"
  by (simp add: same_victim_def died_def)

section \<open>One attack on a mob that is not alive\<close>

lemma damage_leaves:
  assumes "apply_resource_damage v d w = Some (applied, w')"
  shows "entities w' = entities w \<and> c_net w' = c_net w \<and> c_mob w' = c_mob w \<and> c_player w' = c_player w \<and>
    sim_now w' = sim_now w \<and> c_life w' = c_life w \<and> (\<forall>e. e \<noteq> ar_entity v \<longrightarrow> c_stats w' e = c_stats w e \<and> c_mob_stats w' e = c_mob_stats w e) \<and>
    f_cleanup_due (facts w') = f_cleanup_due (facts w) \<and> f_death_finalized (facts w') = f_death_finalized (facts w)"
  using assms
  by (auto simp: apply_resource_damage_def apply_actor_resource_def record_resource_change_def Let_def
      split: Option.bind_splits prod.splits option.splits sum.splits if_splits)

lemma note_damage_leaves [simp]:
  "entities (note_damage a v d k w) = entities w" "c_net (note_damage a v d k w) = c_net w" "c_mob (note_damage a v d k w) = c_mob w"
  "c_player (note_damage a v d k w) = c_player w" "sim_now (note_damage a v d k w) = sim_now w" "c_life (note_damage a v d k w) = c_life w"
  "c_stats (note_damage a v d k w) = c_stats w" "c_mob_stats (note_damage a v d k w) = c_mob_stats w"
  "f_cleanup_due (facts (note_damage a v d k w)) = f_cleanup_due (facts w)"
  "f_death_finalized (facts (note_damage a v d k w)) = f_death_finalized (facts w)"
  by (simp_all add: note_damage_def Let_def)

lemma strike_spares:
  assumes "strike env shared p w = Some w'" "\<not> actor_can_take_combat_damage w e"
  shows "same_victim e w w' \<and> c_life w' = c_life w \<and> f_death_finalized (facts w') = f_death_finalized (facts w)"
proof (cases "actor_can_take_combat_damage w (snd p)")
  case True
  with assms(2) have ne: "snd p \<noteq> e" by blast
  from assms(1) show ?thesis
  proof (cases rule: strike_cases)
    case (2 by_actor on_actor input w1 applied w2)
    have v: "ar_entity (cn_actor on_actor) \<noteq> e" using snapshot_current [OF 2(1)] ne by simp
    obtain n where w1: "w1 = w\<lparr>rng_pos := n\<rparr>" using normal_hit_input_frame [OF 2(2)] by blast
    show ?thesis using damage_leaves [OF 2(3)] v
      by (cases applied) (simp_all add: 2(4) w1 same_victim_def actor_can_act_def)
  qed simp
next
  case False
  then show ?thesis using assms(1) by (simp add: strike_def)
qed

lemma finalize_frame:
  assumes "finalize_dying_actor_death b w = (r, w')"
  shows "same_victim e w w'"
proof -
  have "actor_can_act w' x = actor_can_act w x" for x
    using assms by (cases "x = ar_entity b")
      (auto simp: finalize_dying_actor_death_def actor_can_act_def can_act_def death_phase_def is_alive_def is_dying_def Let_def
        split: if_splits option.splits ActorLifePhase.splits)
  then show ?thesis using assms
    by (auto simp: finalize_dying_actor_death_def same_victim_def Let_def split: if_splits option.splits)
qed

lemma finalize_life:
  assumes "ref_current w b"
  shows "c_life (snd (finalize_dying_actor_death b w)) e =
      (if e = ar_entity b \<and> actor_is_dying w e then Some (died w b) else c_life w e)"
    "f_death_finalized (facts (snd (finalize_dying_actor_death b w))) =
      f_death_finalized (facts w) @ (if actor_is_dying w (ar_entity b) then [b] else [])"
    "fst (finalize_dying_actor_death b w) \<longleftrightarrow> actor_is_dying w (ar_entity b)"
  using assms by (auto simp: finalize_dying_actor_death_def actor_is_dying_def died_def Let_def split: option.split)

lemma try_finalize_cases:
  assumes "try_finalize_dying_victim shared p w = Some (r, w')"
  obtains "\<not> r" "w' = w"
      "\<not> actor_can_act w (fst p) \<or> \<not> actor_is_dying w (snd p) \<or> combatant_snapshot shared w (snd p) = Some None"
  | s where "actor_can_act w (fst p)" "actor_is_dying w (snd p)" "combatant_snapshot shared w (snd p) = Some (Some s)"
      "(r, w') = finalize_dying_actor_death (cn_actor s) w"
  using assms by (auto simp: try_finalize_dying_victim_def split: if_splits Option.bind_splits option.splits)

text \<open>What becomes of a mob that is not alive when an attack command is processed, its own or one on another actor.\<close>

definition fallen_after :: "SharedConfig \<Rightarrow> World \<Rightarrow> ActorRef \<Rightarrow> ActorLifePhase \<Rightarrow> bool \<Rightarrow> World \<Rightarrow> bool" where
  "fallen_after shared w a p hit w' \<longleftrightarrow> same_victim (ar_entity a) w w' \<and>
    c_life w' (ar_entity a) = Some (if is_dying p \<and> hit then died w a else p) \<and>
    (a \<in> set (f_death_finalized (facts w')) \<longleftrightarrow> a \<in> set (f_death_finalized (facts w)) \<or> is_dying p \<and> hit)"

lemma command_on_fallen:
  assumes "process_attack_command env shared c w = Some w'" "ref_current w a" "c_life w (ar_entity a) = Some p" "p \<noteq> Alive"
  shows "fallen_after shared w a p (blow shared w a c) w'"
proof (cases "live_entities w c")
  case None
  then have "\<not> blow shared w a c" by (simp add: live_entities_def blow_def split: if_splits)
  then show ?thesis using assms(1,3) None by (simp add: process_attack_command_def fallen_after_def)
next
  case (Some q)
  then have q: "q = command_entities c" "exist_in w q" by (simp_all add: live_entities_def split: if_splits)
  obtain r w1 where f: "try_finalize_dying_victim shared q w = Some (r, w1)" and rest: "if r then w' = w1 else strike env shared q w1 = Some w'"
    using assms(1) Some by (auto simp: process_attack_command_def split: Option.bind_splits if_splits)
  have no: "\<not> actor_can_take_combat_damage w (ar_entity a)"
    using assms(3,4) by (cases p) (simp_all add: actor_can_take_combat_damage_def life_defs)
  have dying: "actor_is_dying w (ar_entity a) \<longleftrightarrow> is_dying p" using assms(3) by (simp add: actor_is_dying_def)
  from f show ?thesis
  proof (cases rule: try_finalize_cases)
    case 1
    then have "\<not> (is_dying p \<and> blow shared w a c)" using dying q(1) by (auto simp: blow_def)
    moreover have "strike env shared q w = Some w'" using rest 1 by simp
    note strike_spares [OF this no]
    ultimately show ?thesis using assms(3) by (auto simp: fallen_after_def)
  next
    case (2 s)
    let ?b = "cn_actor s"
    have b: "ar_entity ?b = snd q" "ref_current w ?b"
      using snapshot_current [OF 2(3)] q(2) by (simp_all add: ref_current_def exist_in_def)
    have w1: "w1 = snd (finalize_dying_actor_death ?b w)" and r0: "r = fst (finalize_dying_actor_death ?b w)"
      by (simp_all flip: 2(4))
    have r: r using r0 finalize_life(3) [OF b(2)] 2(2) b(1) by simp
    then have w': "w' = w1" using rest by simp
    have hit: "blow shared w a c \<longleftrightarrow> ?b = a"
      using 2(1,3) q b ref_current_unique [OF b(2) assms(2)] by (auto simp: blow_def)
    have same: "same_victim (ar_entity a) w w1" by (rule finalize_frame [OF 2(4) [symmetric]])
    show ?thesis
    proof (cases "?b = a")
      case True
      then show ?thesis using hit same dying 2(2) b(1)
        by (simp add: fallen_after_def w' w1 finalize_life [OF assms(2)])
    next
      case False
      then have "ar_entity ?b \<noteq> ar_entity a" using ref_current_unique [OF b(2) assms(2)] by blast
      then show ?thesis using False hit same assms(3)
        by (simp add: fallen_after_def w' w1 finalize_life [OF b(2)])
    qed
  qed
qed

lemma not_dying_died [simp]: "\<not> is_dying (died w a)" "died w a \<noteq> Alive"
  by (simp_all add: died_def death_phase_def is_dying_def)

lemma commands_on_fallen:
  assumes "for_each (process_attack_command env shared) cs w = Some w'" "ref_current w a" "c_life w (ar_entity a) = Some p" "p \<noteq> Alive"
  shows "fallen_after shared w a p (list_ex (blow shared w a) cs) w'"
  using assms
proof (induction cs arbitrary: w p)
  case Nil
  then show ?case by (simp add: fallen_after_def)
next
  case (Cons c cs)
  obtain w1 where w1: "process_attack_command env shared c w = Some w1" "for_each (process_attack_command env shared) cs w1 = Some w'"
    using Cons.prems(1) by (auto split: option.splits)
  let ?p = "if is_dying p \<and> blow shared w a c then died w a else p"
  note one = command_on_fallen [OF w1(1) Cons.prems(2-4), unfolded fallen_after_def]
  then have same: "same_victim (ar_entity a) w w1" by blast
  then have "ref_current w1 a" using Cons.prems(2) by (simp add: same_victim_def ref_current_def contains_def)
  then have "fallen_after shared w1 a ?p (list_ex (blow shared w1 a) cs) w'"
    using one Cons.prems(4) by (intro Cons.IH [OF w1(2)]) auto
  moreover have "blow shared w1 a = blow shared w a" using same_victim_blow [OF same] by blast
  ultimately show ?case using one same_victim_trans [OF same] same_victim_died [OF same]
    by (auto simp: fallen_after_def)
qed

section \<open>One frame\<close>

lemma same_attacks_fallen:
  assumes "same_but_attacks w w'"
  shows "same_victim e w w'" "c_life w' = c_life w" "facts w' = facts w"
proof -
  note [simp] = same_but_attacks_sel [OF assms]
  note E = assms [unfolded same_but_attacks_def]
  have "c_mob w' = c_mob w" "c_player w' = c_player w" "sim_now w' = sim_now w" and l: "c_life w' = c_life w"
    using arg_cong [OF E, of c_mob] arg_cong [OF E, of c_player] arg_cong [OF E, of sim_now] arg_cong [OF E, of c_life] by simp_all
  then show "same_victim e w w'" by (simp add: same_victim_def actor_can_act_def)
  show "c_life w' = c_life w" "facts w' = facts w" by (simp_all add: l)
qed

lemma attack_pass_on_fallen:
  assumes "process_attack_commands env shared w = Some w'" "ref_current w a" "c_life w (ar_entity a) = Some p" "p \<noteq> Alive"
  shows "fallen_after shared w a p (finishing_blow env shared w a) w'"
proof -
  let ?w = "release_due_attack_commands env w" and ?v = "release_due_attack_commands env w\<lparr>attack_buffer := []\<rparr>"
  have "same_but_attacks w ?v"
    using release_due_same [of w env] by (rule same_but_attacks_trans) (simp add: same_but_attacks_def)
  note S = same_attacks_fallen [OF this]
  have "for_each (process_attack_command env shared) (attack_buffer ?w) ?v = Some w'"
    using assms(1) by (simp add: process_attack_commands_def Let_def)
  moreover have "ref_current ?v a"
    using assms(2) S(1) [of "ar_entity a"] by (simp add: same_victim_def ref_current_def contains_def)
  ultimately have "fallen_after shared ?v a p (list_ex (blow shared ?v a) (attack_buffer ?w)) w'"
    using commands_on_fallen assms(3,4) S(2) by metis
  moreover have "blow shared ?v a = blow shared w a" using same_victim_blow [OF S(1)] by blast
  ultimately show ?thesis using same_victim_trans [OF S(1)] same_victim_died [OF S(1)] S(3)
    by (auto simp: fallen_after_def finishing_blow_def)
qed

text \<open>Life events and claims do not touch a mob that is not alive.\<close>

lemma begin_fold_leaves:
  "c_mob (foldl (\<lambda>w a. snd (begin_actor_dying a w)) w as) = c_mob w \<and> c_player (foldl (\<lambda>w a. snd (begin_actor_dying a w)) w as) = c_player w \<and>
   entities (foldl (\<lambda>w a. snd (begin_actor_dying a w)) w as) = entities w \<and> c_net (foldl (\<lambda>w a. snd (begin_actor_dying a w)) w as) = c_net w \<and>
   sim_now (foldl (\<lambda>w a. snd (begin_actor_dying a w)) w as) = sim_now w \<and>
   f_death_finalized (facts (foldl (\<lambda>w a. snd (begin_actor_dying a w)) w as)) = f_death_finalized (facts w) \<and>
   f_cleanup_due (facts (foldl (\<lambda>w a. snd (begin_actor_dying a w)) w as)) = f_cleanup_due (facts w)"
proof (induction as arbitrary: w)
  case (Cons a as)
  have "c_mob (snd (begin_actor_dying a w)) = c_mob w" "c_player (snd (begin_actor_dying a w)) = c_player w"
    "f_death_finalized (facts (snd (begin_actor_dying a w))) = f_death_finalized (facts w)"
    "f_cleanup_due (facts (snd (begin_actor_dying a w))) = f_cleanup_due (facts w)"
    by (simp_all add: begin_actor_dying_def begin_dying_def stop_actor_activity_for_dying_def Let_def split: option.splits)
  then show ?case using Cons.IH [of "snd (begin_actor_dying a w)"] by simp
qed simp

lemma events_leave:
  "c_mob (process_life_events w) = c_mob w" "c_player (process_life_events w) = c_player w"
  "entities (process_life_events w) = entities w" "c_net (process_life_events w) = c_net w" "sim_now (process_life_events w) = sim_now w"
  "f_death_finalized (facts (process_life_events w)) = f_death_finalized (facts w)"
  "f_cleanup_due (facts (process_life_events w)) = f_cleanup_due (facts w)"
  using begin_fold_leaves [where as = "map hd_victim (f_hp_depleted (facts w))" and w = w] by (simp_all add: process_life_events_def)

lemma events_keep_fallen: "c_life w e = Some p \<Longrightarrow> p \<noteq> Alive \<Longrightarrow> c_life (process_life_events w) e = Some p"
  using dying_starts_once [of w] by (auto simp: dying_victims_def)

lemma claims_leave: "\<exists>cl. record_mob_death_reward_claims shared w = w\<lparr>c_claim := cl\<rparr>"
proof -
  have "record_claim shared w d = w\<lparr>c_claim := c_claim w\<rparr> \<or> (\<exists>cl. record_claim shared w d = w\<lparr>c_claim := cl\<rparr>)" for w d
    by (auto simp: record_claim_def Let_def split: option.split)
  then have one: "\<exists>cl. record_claim shared w d = w\<lparr>c_claim := cl\<rparr>" for w d by blast
  have "\<exists>cl. foldl (record_claim shared) w ds = w\<lparr>c_claim := cl\<rparr>" for ds
  proof (induction ds arbitrary: w)
    case Nil
    show ?case by (intro exI [of _ "c_claim w"]) simp
  next
    case (Cons d ds)
    obtain c1 where c1: "record_claim shared w d = w\<lparr>c_claim := c1\<rparr>" using one by blast
    obtain c2 where "foldl (record_claim shared) (w\<lparr>c_claim := c1\<rparr>) ds = (w\<lparr>c_claim := c1\<rparr>)\<lparr>c_claim := c2\<rparr>" using Cons.IH by blast
    then show ?case using c1 by auto
  qed
  then show ?thesis by (simp add: record_mob_death_reward_claims_def)
qed

lemma frame_on_fallen:
  assumes "life_frame env shared w = Some w'" "ref_current w a" "c_life w (ar_entity a) = Some p" "p \<noteq> Alive"
    and "a \<notin> set (f_death_finalized (facts w))" "a \<notin> set (f_cleanup_due (facts w))"
  defines "dies \<equiv> is_dying p \<and> (death_due w a \<or> finishing_blow env shared w a)"
  shows "c_life w' (ar_entity a) = Some (if dies then died w a else p)"
    "a \<in> set (f_death_finalized (facts w')) \<longleftrightarrow> dies"
    "a \<in> set (f_cleanup_due (facts w')) \<longleftrightarrow> (\<exists>d h t f c.
      (if is_dying p \<and> finishing_blow env shared w a then died w a else p) = Dead d h t f (Some c) \<and>
      c_mob w (ar_entity a) \<noteq> None \<and> c \<le> sim_now w)"
    "entities w' = entities w" "c_net w' = c_net w" "c_mob w' = c_mob w" "c_player w' = c_player w"
proof -
  obtain w1 where w1: "process_attack_commands env shared w = Some w1"
    using assms(1) by (auto simp: life_frame_def split: Option.bind_splits)
  define w3 where "w3 = record_mob_death_reward_claims shared (process_life_events w1)"
  have w': "w' = process_actor_lifecycle w3" using assms(1) w1 by (simp add: life_frame_def w3_def Let_def)
  let ?q = "if is_dying p \<and> finishing_blow env shared w a then died w a else p"
  note F = attack_pass_on_fallen [OF w1 assms(2-4), unfolded fallen_after_def same_victim_def]
  obtain cl where cl: "w3 = (process_life_events w1)\<lparr>c_claim := cl\<rparr>" using claims_leave w3_def by blast
  have life: "c_life w3 (ar_entity a) = Some ?q"
    using F assms(4) events_keep_fallen [of w1 "ar_entity a"] by (simp add: cl)
  have same: "entities w3 = entities w" "c_net w3 = c_net w" "c_mob w3 = c_mob w" "c_player w3 = c_player w" "sim_now w3 = sim_now w"
    using F by (simp_all add: cl events_leave)
  have fin: "a \<in> set (f_death_finalized (facts w3)) \<longleftrightarrow> is_dying p \<and> finishing_blow env shared w a"
    "a \<notin> set (f_cleanup_due (facts w3))"
    using F assms(5,6) by (simp_all add: cl events_leave)
  have in_l: "in_lifecycle w3 a" using assms(2) life same by (simp add: in_lifecycle_def ref_current_def contains_def)
  have due: "death_due w3 a \<longleftrightarrow> death_due w a \<and> \<not> (is_dying p \<and> finishing_blow env shared w a)"
    using life same assms(3) by (auto simp: death_due_def died_def death_phase_def is_dying_def split: ActorLifePhase.splits)
  have dying: "death_due w a \<Longrightarrow> is_dying p" using assms(3) by (auto simp: death_due_def is_dying_def split: ActorLifePhase.splits)
  have died: "died w3 a = died w a" using same by (simp add: died_def)
  show "c_life w' (ar_entity a) = Some (if dies then died w a else p)"
    using lifecycle_life [OF in_l] life due dying died by (auto simp: w' dies_def)
  show "a \<in> set (f_death_finalized (facts w')) \<longleftrightarrow> dies"
    using fin(1) in_l due dying by (auto simp: w' lifecycle_facts set_lifecycle_actors dies_def)
  have "corpse_due w3 a \<longleftrightarrow> (\<exists>d h t f c. ?q = Dead d h t f (Some c) \<and> c_mob w (ar_entity a) \<noteq> None \<and> c \<le> sim_now w)"
    unfolding corpse_due_def life same by (auto split: ActorLifePhase.split option.split)
  then show "a \<in> set (f_cleanup_due (facts w')) \<longleftrightarrow> (\<exists>d h t f c. ?q = Dead d h t f (Some c) \<and> c_mob w (ar_entity a) \<noteq> None \<and> c \<le> sim_now w)"
    using fin(2) in_l unfolding w' lifecycle_facts by (simp only: set_append set_filter set_lifecycle_actors Un_iff mem_Collect_eq) blast
  show "entities w' = entities w" "c_net w' = c_net w" "c_mob w' = c_mob w" "c_player w' = c_player w"
    using same by (simp_all add: w')
qed

section \<open>The course of a death\<close>

text \<open>
  A run of frames, each with the world it starts from and the world it leaves.  Before a frame the other systems of the
  map may have changed anything, except that the mob is still on the map as the same mob in the same phase of life,
  and that the facts of the new frame name no death yet.
\<close>

definition same_mob :: "ActorRef \<Rightarrow> World \<Rightarrow> World \<Rightarrow> bool" where
  "same_mob a w u \<longleftrightarrow> ref_current u a \<and> c_life u (ar_entity a) = c_life w (ar_entity a) \<and>
    c_mob u (ar_entity a) = c_mob w (ar_entity a) \<and> c_player u (ar_entity a) = c_player w (ar_entity a) \<and>
    f_death_finalized (facts u) = [] \<and> f_cleanup_due (facts u) = []"

fun life_run :: "CombatEnv \<Rightarrow> SharedConfig \<Rightarrow> ActorRef \<Rightarrow> World \<Rightarrow> (World \<times> World) list \<Rightarrow> bool" where
  "life_run env shared a w [] \<longleftrightarrow> True"
| "life_run env shared a w ((u, v) # fs) \<longleftrightarrow>
    same_mob a w u \<and> life_frame env shared u = Some v \<and> life_run env shared a v fs"

text \<open>The phase of a mob as a run meets it.\<close>

definition mob_in_phase :: "ActorRef \<Rightarrow> ActorLifePhase \<Rightarrow> World \<Rightarrow> bool" where
  "mob_in_phase a p w \<longleftrightarrow> c_life w (ar_entity a) = Some p \<and> c_mob w (ar_entity a) \<noteq> None \<and> c_player w (ar_entity a) = None"

definition reported_dead :: "ActorRef \<Rightarrow> World \<Rightarrow> bool" where
  "reported_dead a v \<longleftrightarrow> a \<in> set (f_death_finalized (facts v))"

definition reported_for_removal :: "ActorRef \<Rightarrow> World \<Rightarrow> bool" where
  "reported_for_removal a v \<longleftrightarrow> a \<in> set (f_cleanup_due (facts v))"

lemma same_mob_phase: "same_mob a w u \<Longrightarrow> mob_in_phase a p w \<Longrightarrow> mob_in_phase a p u"
  by (simp add: same_mob_def mob_in_phase_def)

lemma frame_of_mob:
  assumes "same_mob a w u" "life_frame env shared u = Some v" "mob_in_phase a p w" "p \<noteq> Alive"
  defines "dies \<equiv> is_dying p \<and> (death_due u a \<or> finishing_blow env shared u a)"
  shows "mob_in_phase a (if dies then died u a else p) v" "reported_dead a v \<longleftrightarrow> dies"
    "reported_for_removal a v \<longleftrightarrow> (\<exists>d h t f c.
      (if is_dying p \<and> finishing_blow env shared u a then died u a else p) = Dead d h t f (Some c) \<and> c \<le> sim_now u)"
proof -
  have m: "mob_in_phase a p u" using same_mob_phase assms(1,3) by blast
  note F = frame_on_fallen [OF assms(2) _ _ assms(4), of a]
  have u: "ref_current u a" "c_life u (ar_entity a) = Some p" "a \<notin> set (f_death_finalized (facts u))" "a \<notin> set (f_cleanup_due (facts u))"
    using assms(1) m by (simp_all add: same_mob_def mob_in_phase_def)
  show "mob_in_phase a (if dies then died u a else p) v"
    using F(1,6,7) [OF u] m by (simp add: mob_in_phase_def dies_def)
  show "reported_dead a v \<longleftrightarrow> dies" using F(2) [OF u] by (simp add: reported_dead_def dies_def)
  show "reported_for_removal a v \<longleftrightarrow> (\<exists>d h t f c.
      (if is_dying p \<and> finishing_blow env shared u a then died u a else p) = Dead d h t f (Some c) \<and> c \<le> sim_now u)"
    using F(3) [OF u] m by (simp add: reported_for_removal_def mob_in_phase_def)
qed

lemma run_append:
  "life_run env shared a w (xs @ (u, v) # ys) \<longleftrightarrow>
    life_run env shared a w xs \<and> life_run env shared a (if xs = [] then w else snd (last xs)) ((u, v) # ys)"
  by (induction xs arbitrary: w) auto

text \<open>Whether a dying mob dies in the frame that starts from this world.\<close>

definition dies_in :: "CombatEnv \<Rightarrow> SharedConfig \<Rightarrow> ActorRef \<Rightarrow> SimInstant \<Rightarrow> World \<Rightarrow> bool" where
  "dies_in env shared a due u \<longleftrightarrow> due \<le> sim_now u \<or> finishing_blow env shared u a"

lemma run_while_dying:
  assumes "life_run env shared a w fs" "mob_in_phase a (Dying t0 due) w" "list_all (\<lambda>f. \<not> dies_in env shared a due (fst f)) fs"
  shows "list_all (\<lambda>f. mob_in_phase a (Dying t0 due) (snd f) \<and> \<not> reported_dead a (snd f) \<and> \<not> reported_for_removal a (snd f)) fs"
  using assms
proof (induction fs arbitrary: w)
  case (Cons f fs)
  obtain u v where f: "f = (u, v)" by force
  have s: "same_mob a w u" "life_frame env shared u = Some v" "life_run env shared a v fs" using Cons.prems(1) f by simp_all
  have m: "mob_in_phase a (Dying t0 due) u" using same_mob_phase [OF s(1) Cons.prems(2)] .
  have "\<not> death_due u a" "\<not> finishing_blow env shared u a"
    using Cons.prems(3) m by (simp_all add: f dies_in_def death_due_def mob_in_phase_def)
  then have v: "mob_in_phase a (Dying t0 due) v" "\<not> reported_dead a v" "\<not> reported_for_removal a v"
    using frame_of_mob [OF s(1,2) Cons.prems(2)] by simp_all
  then show ?case using Cons.IH [OF s(3)] Cons.prems(3) f by simp
qed simp

lemma run_when_dead:
  assumes "life_run env shared a w fs" "mob_in_phase a (Dead d None None None (Some c)) w"
  shows "list_all (\<lambda>f. mob_in_phase a (Dead d None None None (Some c)) (snd f) \<and> \<not> reported_dead a (snd f) \<and>
    (reported_for_removal a (snd f) \<longleftrightarrow> c \<le> sim_now (fst f))) fs"
  using assms
proof (induction fs arbitrary: w)
  case (Cons f fs)
  obtain u v where f: "f = (u, v)" by force
  have s: "same_mob a w u" "life_frame env shared u = Some v" "life_run env shared a v fs" using Cons.prems(1) f by simp_all
  have "mob_in_phase a (Dead d None None None (Some c)) v" "\<not> reported_dead a v" "reported_for_removal a v \<longleftrightarrow> c \<le> sim_now u"
    using frame_of_mob [OF s(1,2) Cons.prems(2)] by (simp_all add: is_dying_def)
  then show ?case using Cons.IH [OF s(3)] f by simp
qed simp

text \<open>
  C18. The course of a mob's death, over any run of frames with any attacks.  A dying mob stays dying, unreported, in every
  frame before the first one that is at or past its time of death or in which an actor that may act attacks it (and it
  has the combat stats of a known prototype).  That frame reports the death, and at its instant the mob is dead.  From
  then on it stays dead and is never reported dead again, and its corpse is due for removal at one fixed instant, at least
  six and less than ten seconds after the death: a frame reports it for removal exactly from that instant on.
\<close>

theorem mob_death_takes_its_course:
  assumes "life_run env shared a w (early @ (u, v) # later)" "mob_in_phase a (Dying t0 due) w"
    and "list_all (\<lambda>f. \<not> dies_in env shared a due (fst f)) early" "dies_in env shared a due u"
    and "0 \<le> sim_now u" "sim_now u + 10000 \<le> u64_MAX"
  defines "d \<equiv> sim_now u"
  shows "list_all (\<lambda>f. mob_in_phase a (Dying t0 due) (snd f) \<and> \<not> reported_dead a (snd f) \<and> \<not> reported_for_removal a (snd f)) early \<and>
    reported_dead a v \<and> \<not> reported_for_removal a v \<and>
    (\<exists>c. d + 6000 \<le> c \<and> c < d + 10000 \<and> mob_in_phase a (Dead d None None None (Some c)) v \<and>
      list_all (\<lambda>f. mob_in_phase a (Dead d None None None (Some c)) (snd f) \<and> \<not> reported_dead a (snd f) \<and>
        (reported_for_removal a (snd f) \<longleftrightarrow> c \<le> sim_now (fst f))) later)"
proof -
  let ?w1 = "if early = [] then w else snd (last early)" and ?c = "mob_cleanup_at d (ar_id a)"
  have r: "life_run env shared a w early" "life_run env shared a ?w1 ((u, v) # later)" using assms(1) run_append by blast+
  note E = run_while_dying [OF r(1) assms(2,3)]
  then have w1: "mob_in_phase a (Dying t0 due) ?w1" using assms(2) by (simp add: list_all_iff)
  have s: "same_mob a ?w1 u" "life_frame env shared u = Some v" "life_run env shared a v later" using r(2) by simp_all
  have m: "mob_in_phase a (Dying t0 due) u" using same_mob_phase [OF s(1) w1] .
  have die: "death_due u a \<or> finishing_blow env shared u a" "died u a = Dead d None None None (Some ?c)"
    using m assms(4) by (auto simp: dies_in_def death_due_def mob_in_phase_def died_def death_phase_def d_def)
  have c: "d + 6000 \<le> ?c" "?c < d + 10000" using mob_cleanup_window assms(5,6) by (auto simp: d_def)
  note F = frame_of_mob [OF s(1,2) w1, unfolded die(2)]
  have dead: "mob_in_phase a (Dead d None None None (Some ?c)) v" and rep: "reported_dead a v"
    using F(1,2) die(1) by (simp_all add: is_dying_def)
  have "\<not> reported_for_removal a v" using F(3) c by (auto simp: d_def)
  with E rep dead c run_when_dead [OF s(3) dead] show ?thesis by blast
qed

section \<open>A dog that is hit while it dies\<close>

text \<open>Frames at given times, with nothing else happening on the map.\<close>

definition at_time :: "SimInstant \<Rightarrow> World \<Rightarrow> World" where
  "at_time t w = w\<lparr>sim_now := t, facts := facts_default\<rparr>"

fun run_frames :: "CombatEnv \<Rightarrow> SharedConfig \<Rightarrow> World \<Rightarrow> SimInstant list \<Rightarrow> (World \<times> World) list exec" where
  "run_frames env shared w [] = Some []"
| "run_frames env shared w (t # ts) = do {
     v \<leftarrow> life_frame env shared (at_time t w);
     fs \<leftarrow> run_frames env shared v ts;
     Some ((at_time t w, v) # fs)
   }"

lemma same_mob_at_time: "ref_current w a \<Longrightarrow> same_mob a w (at_time t w)"
  by (simp add: same_mob_def at_time_def ref_current_def contains_def facts_default_def)

lemma run_frames_run:
  "run_frames env shared w ts = Some fs \<Longrightarrow> ref_current w a \<Longrightarrow> mob_in_phase a p w \<Longrightarrow> p \<noteq> Alive \<Longrightarrow> life_run env shared a w fs"
proof (induction ts arbitrary: w p fs)
  case (Cons t ts)
  obtain v gs where v: "life_frame env shared (at_time t w) = Some v" "run_frames env shared v ts = Some gs" "fs = (at_time t w, v) # gs"
    using Cons.prems(1) by (auto split: Option.bind_splits)
  note s = same_mob_at_time [OF Cons.prems(2), of t]
  have u: "ref_current (at_time t w) a" "c_life (at_time t w) (ar_entity a) = Some p"
    "a \<notin> set (f_death_finalized (facts (at_time t w)))" "a \<notin> set (f_cleanup_due (facts (at_time t w)))"
    using s same_mob_phase [OF s Cons.prems(3)] by (simp_all add: same_mob_def mob_in_phase_def)
  have "ref_current v a"
    using u(1) frame_on_fallen(4,5) [OF v(1) u(1,2) Cons.prems(4) u(3,4)] by (simp add: ref_current_def contains_def)
  moreover note frame_of_mob(1) [OF s v(1) Cons.prems(3,4)]
  ultimately have "life_run env shared a v gs"
    using Cons.IH [OF v(2)] Cons.prems(4) by (auto split: if_splits)
  then show ?case using v(1,3) s by simp
qed simp

declare run_frames.simps [simp del]

text \<open>The second of two dogs is dying, and the first has a bite on its way that lands at 990 milliseconds.\<close>

definition dying_dog :: World where
  "dying_dog = dog_fight\<lparr>c_life := [1 \<mapsto> Alive, 2 \<mapsto> Dying 0 3000]\<rparr>"

definition second_dog :: ActorRef where
  "second_dog = \<lparr>ar_entity = 2, ar_id = 12\<rparr>"

lemma dying_dog_run:
  "map_option (map (\<lambda>f. (sim_now (fst f), finishing_blow dice dog_config (fst f) second_dog)))
    (run_frames dice dog_config dying_dog [500, 1000, 8000]) = Some [(500, False), (1000, True), (8000, False)]"
  by code_simp

theorem mob_death_takes_its_course_witness:
  "\<exists>u0 v0 u v u1 v1 c. run_frames dice dog_config dying_dog [500, 1000, 8000] = Some [(u0, v0), (u, v), (u1, v1)] \<and>
    sim_now u = 1000 \<and> \<not> reported_dead second_dog v0 \<and> reported_dead second_dog v \<and> 7000 \<le> c \<and> c < 11000 \<and>
    mob_in_phase second_dog (Dead 1000 None None None (Some c)) v1"
proof -
  obtain fs where fs: "run_frames dice dog_config dying_dog [500, 1000, 8000] = Some fs"
    "map (\<lambda>f. (sim_now (fst f), finishing_blow dice dog_config (fst f) second_dog)) fs = [(500, False), (1000, True), (8000, False)]"
    using dying_dog_run [unfolded map_option_eq_Some] by (elim exE conjE)
  from fs(2) obtain u0 v0 u v u1 v1 where w: "fs = [(u0, v0), (u, v), (u1, v1)]" "sim_now u0 = 500" "sim_now u = 1000"
    "\<not> finishing_blow dice dog_config u0 second_dog" "finishing_blow dice dog_config u second_dog"
    unfolding map_eq_Cons_conv by (force simp only: map_is_Nil_conv prod.inject fst_conv)
  have m: "mob_in_phase second_dog (Dying 0 3000) dying_dog" "ref_current dying_dog second_dog"
    by (simp_all add: mob_in_phase_def dying_dog_def dog_fight_def second_dog_def ref_current_def contains_def empty_world_def)
  have "life_run dice dog_config second_dog dying_dog ([(u0, v0)] @ (u, v) # [(u1, v1)])"
    using run_frames_run [OF fs(1) m(2,1)] w(1) by simp
  note M = mob_death_takes_its_course [OF this m(1)]
  have "list_all (\<lambda>f. \<not> dies_in dice dog_config second_dog 3000 (fst f)) [(u0, v0)]" "dies_in dice dog_config second_dog 3000 u"
    "0 \<le> sim_now u" "sim_now u + 10000 \<le> u64_MAX" using w by (simp_all add: dies_in_def)
  note M = M [OF this, unfolded w(3)]
  from M have dead: "\<not> reported_dead second_dog v0" "reported_dead second_dog v" by simp_all
  from M obtain c where c: "7000 \<le> c" "c < 11000" "mob_in_phase second_dog (Dead 1000 None None None (Some c)) v1" by auto
  show ?thesis using fs(1) w(1,3) dead c by blast
qed

end
