(* ===== verification/Spec2Isabelle.thy ===== *)
theory Spec2Isabelle
  imports Stats_Witnesses Player_Hydration Auth_Packets Nav_Grid Recovery Outbox Token Talking_Chat
    Login_Session Persistence_Lanes Actor_Life Mob_Spawn
    Attack_Timing Command_Queue Projection Mob_Death
begin

text \<open>
  Verification of the Zohar game server.

  The program is a Rust workspace: \<^verbatim>\<open>zohar-gameplay\<close> holds the rules of the game (stats, modifiers, experience,
  recovery), \<^verbatim>\<open>zohar-protocol\<close> and \<^verbatim>\<open>zohar-net\<close> the client protocol (packets, handshake, sequence bytes, typed
  connections), \<^verbatim>\<open>zohar-sim\<close> the world simulation (navigation, visibility, event queues, the per-map
  runtime), and \<^verbatim>\<open>zohar-gamesrv\<close>, \<^verbatim>\<open>zohar-authsrv\<close>, \<^verbatim>\<open>zohar-core\<close>, \<^verbatim>\<open>zohar-db\<close> and \<^verbatim>\<open>zohar-content\<close> the servers, storage
  and content loading around them.  This development models the integer and data-structure core of the first
  two groups, of the simulation the systems that do not compute with positions, and of the last group the game
  database, the login and the persistence worker.

  \<^bold>\<open>Conventions.\<close>  Machine integers are \<open>int\<close> with every wrap-around and saturation written out (release builds,
  no overflow checks); a panic is \<open>None\<close> of an \<open>exec\<close>, and where a loop that can panic may also run forever the
  result is an \<open>exec option\<close>, whose outer \<open>None\<close> is not returning; \<^verbatim>\<open>Result\<close> is a sum; \<^verbatim>\<open>BTreeMap\<close> is a sorted
  association list; a \<^verbatim>\<open>Duration\<close> is its nanoseconds.  Code outside the repository is an argument: the random
  generator of the growth rolls (\<open>roll\<close>), the end-of-file test of the binary reader library (\<open>is_eof\<close>), the
  table of sequence bytes (\<open>raw\<close>), the validity of a floating-point cell size, the order in which a hash set is
  walked (\<open>iter\<close>), a bounded channel (\<open>try_send\<close>), the keyed hash of the tokens (\<open>mac\<close>) and the rolls of the chat
  garbling (\<open>rolls\<close>); for the map runtime the records \<open>SpawnEnv\<close> and \<open>CombatEnv\<close> hold the random generator, the
  sampling of spawn positions, the allocation of entities and the flight time of a projectile.  Single-precision
  arithmetic is exact where it is modelled (\<open>F32\<close>); positions that are only stored and compared are bit patterns.

  \<^bold>\<open>Theories.\<close>
  \<^item> \<open>Rust_Prelude\<close>: integer ranges, wrapping, saturation, clamping, truncating division.
  \<^item> \<open>Ordered_Map\<close>: sorted association lists as maps and sets, with the contract of an ordered map as a locale.
  \<^item> \<open>Stat_Core\<close> (\<^verbatim>\<open>stat.rs\<close>, \<^verbatim>\<open>core/values.rs\<close>, \<^verbatim>\<open>core/modifiers.rs\<close>, \<^verbatim>\<open>change_set.rs\<close>, \<^verbatim>\<open>contribution.rs\<close>,
    \<^verbatim>\<open>resource.rs\<close>, \<^verbatim>\<open>progression.rs\<close>), \<open>Stat_Source\<close> (\<^verbatim>\<open>source.rs\<close>, \<^verbatim>\<open>balance.rs\<close>), \<open>Actor_State\<close> (\<^verbatim>\<open>actor.rs\<close>) and
    \<open>Stats_Api\<close> (\<^verbatim>\<open>view.rs\<close>, \<^verbatim>\<open>api.rs\<close>): the stat system of one actor, every operation.
  \<^item> \<open>Stats_Recompute\<close>, \<open>Stats_Sync\<close>, \<open>Stats_Resources\<close>, \<open>Stats_Witnesses\<close>: recomputation of derived stats (when it
    panics, that it is idempotent, that modifiers can be removed again), completeness of the deltas sent to
    the client over any sequence of calls, those that hand changes to their caller included, and the resource
    operations with their bounds.
  \<^item> \<open>Player_Rules\<close>, \<open>Player_Exp\<close>, \<open>Player_Hydration\<close> (\<^verbatim>\<open>player_rules.rs\<close>): level tables, experience, mob rewards,
    stat points, and loading a player.  The experience loop is a partial function; \<open>exp_gain_conserves\<close> proves
    that it returns.
  \<^item> \<open>Recovery\<close> (\<^verbatim>\<open>recovery.rs\<close>): rate accrual, passive recovery against a specification in unbounded integers,
    and the stamina state machine.
  \<^item> \<open>Wire_Format\<close>: byte readers and writers with the encode/decode contract as a locale; \<open>Handshake\<close>
    (\<^verbatim>\<open>handshake.rs\<close>, \<^verbatim>\<open>control_pkt.rs\<close>, \<^verbatim>\<open>phase.rs\<close>), \<open>Packet_Codec\<close> (\<^verbatim>\<open>pkt_seq.rs\<close>, \<^verbatim>\<open>codec.rs\<close>, \<^verbatim>\<open>connection.rs\<close>,
    \<^verbatim>\<open>game_conn.rs\<close>) and \<open>Auth_Packets\<close> (\<^verbatim>\<open>route_packets.rs\<close>, \<^verbatim>\<open>auth_pkt.rs\<close>): round trips, the outcome of every
    handshake reply, and delivery of a whole packet stream however it is cut into reads.
  \<^item> \<open>Wire_Combinators\<close> (\<^verbatim>\<open>game_pkt.rs\<close> and the \<^verbatim>\<open>binrw\<close> derive macros): formats as records of validity, reader and
    writer, combinators for fields, options, arrays, opcodes and routes, and the lemma collection \<open>wire_laws\<close> that
    proves the contract of a packet from its declaration.  \<open>Game_Packets\<close> and \<open>Server_Packets\<close> (\<^verbatim>\<open>game_pkt/*.rs\<close>) declare
    the packets of every phase in this way, say which field values are valid, and instantiate the codec
    with the client packets of all five phases.
  \<^item> \<open>Token\<close> (\<^verbatim>\<open>token.rs\<close>): when a login token is accepted.
  \<^item> \<open>Replication\<close> (\<^verbatim>\<open>replication.rs\<close>) and \<open>Outbox\<close> (\<^verbatim>\<open>outbox.rs\<close>): the visibility graph as a set of directed edges, and
    the event queue of a player, with exactly what a flush sends and keeps.
  \<^item> \<open>Talking_Chat\<close> (\<^verbatim>\<open>runtime/spatial.rs\<close>, \<^verbatim>\<open>runtime/net/replication.rs\<close>): the text a listener receives and the packet that
    carries it, with the wrap-around of its 16-bit size.
  \<^item> \<open>Nav_Grid\<close> (\<^verbatim>\<open>navigation/grid.rs\<close>, \<^verbatim>\<open>reachability.rs\<close>, \<^verbatim>\<open>terrain.rs\<close>): the flood fill is a partial function;
    it is proved to return, to label exactly the connected components, and when the labels run out.
  \<^item> \<open>Sql_Table\<close>: tables as lists of rows, the statements the queries use, and the contract of a table with a primary
    key as a locale.  \<open>Session_Store\<close> and \<open>Player_Store\<close> (\<^verbatim>\<open>postgres_backend/queries.rs\<close>): every statement on the
    session and player tables with its guards and the constraints of the schema; the invariant of the schema over any
    history of statements, exclusive ownership of a session, and the epoch that fences a character after an exit.
  \<^item> \<open>Login_Session\<close> (\<^verbatim>\<open>handlers/login.rs\<close>, \<^verbatim>\<open>session_health.rs\<close>): who is let in, and how a connection keeps its lease.
  \<^item> \<open>Persistence_Lanes\<close> (\<^verbatim>\<open>player_persistence.rs\<close>): the worker beside its database calls, over any interleaving of
    requests, calls, failures and completions: order, durability of what is acknowledged, and progress.
  \<^item> \<open>Sim_Time\<close> (\<^verbatim>\<open>runtime/time.rs\<close>): saturating instants and the ticker clock, with its contract as a locale.
  \<^item> \<open>Map_World\<close> (\<^verbatim>\<open>runtime/common.rs\<close>, \<^verbatim>\<open>player.rs\<close>, \<^verbatim>\<open>mob.rs\<close>, \<^verbatim>\<open>facts.rs\<close>, \<^verbatim>\<open>resources.rs\<close>, \<^verbatim>\<open>fanout.rs\<close>,
    \<^verbatim>\<open>actor_stats.rs\<close>): the entity-component world of one map as a record with a map per component; the systems of the
    runtime are functions on it.  \<open>Actor_Life\<close> (\<^verbatim>\<open>life.rs\<close>): death, its deadlines and the removal of corpses;
    \<open>Mob_Spawn\<close> (\<^verbatim>\<open>mob/spawn.rs\<close>, \<^verbatim>\<open>cleanup.rs\<close>): spawn rules, their schedule and their caps.
  \<^item> \<open>Command_Queue\<close> (\<^verbatim>\<open>net/ingress.rs\<close>, \<^verbatim>\<open>mob/aggro.rs\<close>, \<^verbatim>\<open>player/chat.rs\<close>): the bounded queues between the clients
    and the systems, with the contract of a queue that keeps its latest entries as a locale.
  \<^item> \<open>F32\<close>: rounding to single precision, with infinities and NaN.  \<open>Hit_Damage\<close> and \<open>Attack_Timing\<close>
    (\<^verbatim>\<open>zohar-gameplay/src/combat.rs\<close>, \<^verbatim>\<open>combat/timing.rs\<close>, \<^verbatim>\<open>runtime/rules/combat.rs\<close>): the damage of a hit and the
    instant it falls.  \<open>Combat\<close> (\<^verbatim>\<open>runtime/combat.rs\<close>): the attacks of a frame, those that fall later, and the kills they
    report.
  \<^item> \<open>Kill_Rewards\<close> (\<^verbatim>\<open>rewards.rs\<close>, \<^verbatim>\<open>player/stat_sync.rs\<close>): the claim on a killed mob and the experience it pays;
    \<open>Stat_Tickers\<close> (\<^verbatim>\<open>player/stat_tickers.rs\<close>): recovery and stamina frame by frame, and the client's
    stamina timer against the server's flag; \<open>Mob_Death\<close> (\<^verbatim>\<open>plugins.rs\<close>): the course of a mob's death over many frames
    with their attacks; \<open>Spawn_Payload\<close>
    (\<^verbatim>\<open>spawn_payload.rs\<close>): the snapshots of entities; \<open>Player_Restart\<close> (\<^verbatim>\<open>player/restart.rs\<close>): the return of dead
    players; \<open>Projection\<close> (\<^verbatim>\<open>projection.rs\<close>, \<^verbatim>\<open>player/target.rs\<close>): the facts of a frame turned into events.

  \<^bold>\<open>Not modelled.\<close>  Floating-point code on positions (movement, line of sight, flight times), asynchronous I/O,
  the systems of the map runtime that compute with positions (movement, mob decisions, interest management, portals),
  content loading, and log or error texts.  Of the protocol, the login
  results (their reader seeks past the end of the input) and the item packets, which no phase routes yet.
\<close>

end
